(* ===== verification/Prelude.thy ===== *)
theory Prelude
  imports Main "HOL-Library.Word" "HOL-Library.Signed_Division"
begin

unbundle bit_operations_syntax

text \<open>
  Shared vocabulary of the development: the machine integer types of the C sources,
  computations of C code that can trap or not return, checked arithmetic on the C type
  \<open>int\<close>, the host byte order of the trace files, and the generic lemmas on lists and words
  that the component theories use.
\<close>

section \<open>Machine integers\<close>

type_synonym u8 = "8 word"
type_synonym u16 = "16 word"
type_synonym u32 = "32 word"
type_synonym u64 = "64 word"

named_theorems comp_simps \<open>equations that run computations of type comp\<close>
named_theorems frame_simps \<open>fields an operation leaves unchanged\<close>

section \<open>Computations of C code\<close>

text \<open>
  What C code can do beside returning a value: read or write outside an array, divide by
  zero, overflow an \<open>int\<close>, follow a null pointer, call \<open>abort\<close> (or \<open>cpu_abort\<close>) or \<open>exit\<close>;
  these are values of \<open>c_error\<close>. A computation is \<open>None\<close> when it does not return.
\<close>

datatype c_error = OutOfBounds | DivByZero | IntOverflow | NullDeref | Abort | Exit

type_synonym 'a comp = "(c_error + 'a) option"

definition ret :: "'a \<Rightarrow> 'a comp" where
  "ret x = Some (Inr x)"

definition raise :: "c_error \<Rightarrow> 'a comp" where
  "raise e = Some (Inl e)"

definition comp_bind :: "'a comp \<Rightarrow> ('a \<Rightarrow> 'b comp) \<Rightarrow> 'b comp" where
  "comp_bind c f =
     (case c of None \<Rightarrow> None | Some (Inl e) \<Rightarrow> Some (Inl e) | Some (Inr x) \<Rightarrow> f x)"

text \<open>The value of a computation that returns.\<close>

definition returned :: "'a comp \<Rightarrow> 'a option" where
  "returned c = (case c of Some (Inr x) \<Rightarrow> Some x | _ \<Rightarrow> None)"

text \<open>The C type \<open>int\<close>: 32 bits, two's complement; signed overflow is an error.\<close>

definition c_int :: "int \<Rightarrow> int comp" where
  "c_int x = (if - (2 ^ 31) \<le> x \<and> x < 2 ^ 31 then ret x else raise IntOverflow)"

text \<open>C division truncates towards zero.\<close>

definition c_div :: "int \<Rightarrow> int \<Rightarrow> int comp" where
  "c_div a b = (if b = 0 then raise DivByZero else c_int (a sdiv b))"

section \<open>Bytes of a trace file\<close>

text \<open>The host (x86) stores a \<open>uint32_t\<close> with its least significant byte first.\<close>

definition bytes_of_u32 :: "u32 \<Rightarrow> u8 list" where
  "bytes_of_u32 w = [ucast w, ucast (drop_bit 8 w), ucast (drop_bit 16 w), ucast (drop_bit 24 w)]"

definition u32_of_bytes :: "u8 \<Rightarrow> u8 \<Rightarrow> u8 \<Rightarrow> u8 \<Rightarrow> u32" where
  "u32_of_bytes a b c d =
     ucast a OR push_bit 8 (ucast b) OR push_bit 16 (ucast c) OR push_bit 24 (ucast d)"

section \<open>Lemmas on computations\<close>

lemma comp_bind_ret [simp, comp_simps]: "comp_bind (ret x) f = f x"
  by (simp add: comp_bind_def ret_def)

lemma comp_bind_raise [simp, comp_simps]: "comp_bind (raise e) f = raise e"
  by (simp add: comp_bind_def raise_def)

lemma comp_bind_None [simp, comp_simps]: "comp_bind None f = None"
  by (simp add: comp_bind_def)

lemma ret_inject [simp]: "ret x = ret y \<longleftrightarrow> x = y"
  by (simp add: ret_def)

lemma raise_inject [simp]: "raise x = raise y \<longleftrightarrow> x = y"
  by (simp add: raise_def)

lemma ret_neq_raise [simp]: "ret x \<noteq> raise e" "raise e \<noteq> ret x"
  by (simp_all add: ret_def raise_def)

lemma ret_neq_None [simp]: "ret x \<noteq> None" "None \<noteq> ret x"
  by (simp_all add: ret_def)

lemma raise_neq_None [simp]: "raise e \<noteq> None" "None \<noteq> raise e"
  by (simp_all add: raise_def)

lemma comp_cases:
  obtains (diverges) "c = None" | (raises) e where "c = raise e" | (returns) x where "c = ret x"
proof (cases c)
  case (Some r)
  then show thesis using that by (cases r) (auto simp: ret_def raise_def)
qed (use that in simp)

lemma returned_Some: "returned c = Some x \<longleftrightarrow> c = ret x"
  by (cases c rule: comp_cases) (auto simp: returned_def ret_def raise_def)

lemma comp_bind_assoc: "comp_bind (comp_bind c f) g = comp_bind c (\<lambda>x. comp_bind (f x) g)"
  by (cases c rule: comp_cases) auto

lemma comp_bind_eq_retD:
  "comp_bind c f = ret y \<Longrightarrow> \<exists>x. c = ret x \<and> f x = ret y"
  by (cases c rule: comp_cases) auto

text \<open>
  Total correctness: the computation does not diverge, and what it returns satisfies the condition. Errors are allowed.
\<close>

definition ends :: "('a \<Rightarrow> bool) \<Rightarrow> 'a comp \<Rightarrow> bool" where
  "ends P c \<longleftrightarrow> c \<noteq> None \<and> (\<forall>x. c = ret x \<longrightarrow> P x)"

lemma ends_ret [simp]: "ends P (ret x) \<longleftrightarrow> P x"
  by (auto simp: ends_def)

lemma ends_raise [simp]: "ends P (raise e)"
  by (simp add: ends_def)

lemma ends_bind: "ends Q c \<Longrightarrow> (\<And>x. Q x \<Longrightarrow> ends P (f x)) \<Longrightarrow> ends P (comp_bind c f)"
  by (cases c rule: comp_cases) (auto simp: ends_def)

lemma ends_mono: "ends Q c \<Longrightarrow> (\<And>x. Q x \<Longrightarrow> P x) \<Longrightarrow> ends P c"
  by (auto simp: ends_def)

lemma ends_not_None: "ends P c \<Longrightarrow> c \<noteq> None"
  by (simp add: ends_def)

lemma c_int_ret [simp]: "- (2 ^ 31) \<le> x \<Longrightarrow> x < 2 ^ 31 \<Longrightarrow> c_int x = ret x"
  by (simp add: c_int_def)

lemma c_div_pos: "0 \<le> a \<Longrightarrow> a < 2 ^ 31 \<Longrightarrow> 0 < b \<Longrightarrow> c_div a b = ret (a div b)"
proof -
  assume a: "0 \<le> a" "a < 2 ^ 31" and b: "0 < b"
  have le: "a div b \<le> a" using a(1) b by (cases "a = 0") (simp_all add: zdiv_mono2 [of a 1 b, simplified])
  have eq: "a sdiv b = a div b"
    using a(1) b by (cases "a = 0") (simp_all add: signed_divide_int_def)
  have "0 \<le> a div b" using a b by (simp add: pos_imp_zdiv_nonneg_iff)
  with le a(2) b show ?thesis
    unfolding c_div_def eq by simp
qed

section \<open>Lemmas on words and bytes\<close>

lemma u32_of_bytes_inverse:
  "u32_of_bytes (ucast w) (ucast (drop_bit 8 w)) (ucast (drop_bit 16 w)) (ucast (drop_bit 24 w)) = w"
  unfolding u32_of_bytes_def
proof (rule bit_word_eqI)
  fix n :: nat
  assume "n < LENGTH(32)"
  then consider "n < 8" | "8 \<le> n" "n < 16" | "16 \<le> n" "n < 24" | "24 \<le> n" "n < 32"
    by fastforce
  then show "bit (ucast (ucast w :: u8) OR push_bit 8 (ucast (ucast (drop_bit 8 w) :: u8)) OR
      push_bit 16 (ucast (ucast (drop_bit 16 w) :: u8)) OR
      push_bit 24 (ucast (ucast (drop_bit 24 w) :: u8)) :: u32) n = bit w n"
    by cases (auto simp: bit_simps)
qed

lemma length_bytes_of_u32 [simp]: "length (bytes_of_u32 w) = 4"
  by (simp add: bytes_of_u32_def)

lemma and_mask_le: "unat (a AND b :: 'a::len word) \<le> unat b"
  by (rule word_and_le1 [THEN word_le_nat_alt [THEN iffD1]])

lemma and_mask_eq_take_bit: "(w :: u32) AND word_of_int (2 ^ n - 1) = take_bit n w"
  by (simp add: take_bit_eq_mask mask_eq_exp_minus_1)

text \<open>Equality of 32-bit words bit by bit, for words built from constant masks and shifts.\<close>

lemma u32_eqI:
  "bit a 0 = bit b 0 \<Longrightarrow> bit a 1 = bit b 1 \<Longrightarrow> bit a 2 = bit b 2 \<Longrightarrow> bit a 3 = bit b 3 \<Longrightarrow>
   bit a 4 = bit b 4 \<Longrightarrow> bit a 5 = bit b 5 \<Longrightarrow> bit a 6 = bit b 6 \<Longrightarrow> bit a 7 = bit b 7 \<Longrightarrow>
   bit a 8 = bit b 8 \<Longrightarrow> bit a 9 = bit b 9 \<Longrightarrow> bit a 10 = bit b 10 \<Longrightarrow> bit a 11 = bit b 11 \<Longrightarrow>
   bit a 12 = bit b 12 \<Longrightarrow> bit a 13 = bit b 13 \<Longrightarrow> bit a 14 = bit b 14 \<Longrightarrow> bit a 15 = bit b 15 \<Longrightarrow>
   bit a 16 = bit b 16 \<Longrightarrow> bit a 17 = bit b 17 \<Longrightarrow> bit a 18 = bit b 18 \<Longrightarrow> bit a 19 = bit b 19 \<Longrightarrow>
   bit a 20 = bit b 20 \<Longrightarrow> bit a 21 = bit b 21 \<Longrightarrow> bit a 22 = bit b 22 \<Longrightarrow> bit a 23 = bit b 23 \<Longrightarrow>
   bit a 24 = bit b 24 \<Longrightarrow> bit a 25 = bit b 25 \<Longrightarrow> bit a 26 = bit b 26 \<Longrightarrow> bit a 27 = bit b 27 \<Longrightarrow>
   bit a 28 = bit b 28 \<Longrightarrow> bit a 29 = bit b 29 \<Longrightarrow> bit a 30 = bit b 30 \<Longrightarrow> bit a 31 = bit b 31 \<Longrightarrow>
   a = (b :: u32)"
proof (rule bit_word_eqI)
  fix n :: nat
  assume "n < LENGTH(32)"
  then have "n < 32" by simp
  moreover have "set [0..<32] = set ([0, 1, 2, 3, 4, 5, 6, 7, 8, 9, 10, 11, 12, 13, 14, 15, 16, 17, 18, 19, 20, 21, 22, 23, 24, 25, 26, 27, 28, 29, 30, 31] :: nat list)" by code_simp
  ultimately have n: "n \<in> set ([0, 1, 2, 3, 4, 5, 6, 7, 8, 9, 10, 11, 12, 13, 14, 15, 16, 17, 18, 19, 20, 21, 22, 23, 24, 25, 26, 27, 28, 29, 30, 31] :: nat list)" by (metis atLeastLessThan_iff atLeastLessThan_upt le0)
  assume
    "bit a 0 = bit b 0" "bit a 1 = bit b 1" "bit a 2 = bit b 2" "bit a 3 = bit b 3"
    "bit a 4 = bit b 4" "bit a 5 = bit b 5" "bit a 6 = bit b 6" "bit a 7 = bit b 7"
    "bit a 8 = bit b 8" "bit a 9 = bit b 9" "bit a 10 = bit b 10" "bit a 11 = bit b 11"
    "bit a 12 = bit b 12" "bit a 13 = bit b 13" "bit a 14 = bit b 14" "bit a 15 = bit b 15"
    "bit a 16 = bit b 16" "bit a 17 = bit b 17" "bit a 18 = bit b 18" "bit a 19 = bit b 19"
    "bit a 20 = bit b 20" "bit a 21 = bit b 21" "bit a 22 = bit b 22" "bit a 23 = bit b 23"
    "bit a 24 = bit b 24" "bit a 25 = bit b 25" "bit a 26 = bit b 26" "bit a 27 = bit b 27"
    "bit a 28 = bit b 28" "bit a 29 = bit b 29" "bit a 30 = bit b 30" "bit a 31 = bit b 31"
  then have "\<forall>n\<in>set [0, 1, 2, 3, 4, 5, 6, 7, 8, 9, 10, 11, 12, 13, 14, 15, 16, 17, 18, 19, 20, 21, 22, 23, 24, 25, 26, 27, 28, 29, 30, 31]. bit a n = bit b n" by simp
  with n show "bit a n = bit b n" by blast
qed

text \<open>Sequencing is monotone, so that \<^theory_text>\<open>partial_function\<close> accepts loops written with it.\<close>

lemma comp_bind_mono [partial_function_mono]:
  assumes "mono_option F" and "\<And>y. mono_option (\<lambda>f. G y f)"
  shows "mono_option (\<lambda>f. comp_bind (F f) (\<lambda>y. G y f))"
proof (rule monotoneI)
  fix f g :: "'a \<Rightarrow> 'b option"
  assume fg: "option.le_fun f g"
  have F: "option_ord (F f) (F g)" and G: "option_ord (G y f) (G y g)" for y
    using assms fg by (auto simp: monotone_def)
  show "option_ord (comp_bind (F f) (\<lambda>y. G y f)) (comp_bind (F g) (\<lambda>y. G y g))"
  proof (cases "F f")
    case None
    then show ?thesis by (simp add: flat_ord_def)
  next
    case (Some r)
    then have "F g = Some r" using F by (auto simp: flat_ord_def)
    with Some G show ?thesis by (cases r) (auto simp: comp_bind_def flat_ord_def)
  qed
qed

lemma and_single_bit: "(w :: u32) AND 2 ^ k \<noteq> 0 \<longleftrightarrow> bit w k" "(w :: u32) AND 2 ^ k = 0 \<longleftrightarrow> \<not> bit w k"
  by (simp_all add: and_exp_eq_0_iff_not_bit)

end
