(* ===== verification/Lru_Cache.thy ===== *)
theory Lru_Cache
  imports Prelude
begin

text \<open>
  The set-associative cache array that the simulator (\<open>src/tlb_sim.c\<close>) and the tracer
  (\<open>src/tlb_trace.c\<close>) both declare: its entries, its counters, the flush macros, and the
  lookup loop that every cache function of the two files contains. The loop is
  \<open>scan\<close>; the specification lemmas say when it returns, which way it hits and which
  entry it chooses as the victim of a miss.
\<close>

section \<open>Entries, counters, flush macros\<close>

record TLB_ENTRY =
  va :: u32
  pa :: u32
  asid :: u32
  ts :: u32

record TLB_COUNTER =
  hit :: u64
  miss :: u64

definition flushed_entry :: "TLB_ENTRY \<Rightarrow> TLB_ENTRY" where
  "flushed_entry e = e\<lparr>va := 0xFFFFFFFF, asid := 0, ts := 0\<rparr>"

text \<open>\<open>FLUSH_TLB(tlb, size)\<close> resets the first \<open>size\<close> entries, \<open>INIT_TLB\<close> the counter as well.\<close>

definition FLUSH_TLB :: "TLB_ENTRY list \<Rightarrow> nat \<Rightarrow> TLB_ENTRY list" where
  "FLUSH_TLB tlb n = map flushed_entry (take n tlb) @ drop n tlb"

definition INIT_TLB :: "TLB_ENTRY list \<Rightarrow> nat \<Rightarrow> TLB_COUNTER \<Rightarrow> TLB_ENTRY list \<times> TLB_COUNTER" where
  "INIT_TLB tlb n cnt = (FLUSH_TLB tlb n, cnt\<lparr>miss := 0, hit := 0\<rparr>)"

section \<open>The lookup loop\<close>

text \<open>
  \<^verbatim>\<open>
  for (i = first; i < max; i += step) {
      if (HIT(tlb[i])) { ...; return 1; }
      if (tlb[i].ts < mts) { mts = tlb[i].ts; mi = i; }
  }
  \<close>
  The loop ends with the index of the hit or, when no way matches, with the victim
  \<open>mi\<close>. An index outside the array is an error, and with \<open>step = 0\<close> a loop that has not
  hit never ends, so the loop is a \<^theory_text>\<open>partial_function\<close>.
\<close>

datatype scan_result = ScanHit nat | ScanMiss nat

partial_function (option) scan ::
  "(TLB_ENTRY \<Rightarrow> bool) \<Rightarrow> TLB_ENTRY list \<Rightarrow> int \<Rightarrow> int \<Rightarrow> int \<Rightarrow> u32 \<Rightarrow> nat \<Rightarrow> scan_result comp" where
  "scan matches tlb max_entries step i mts mi =
     (if i < max_entries then
        (if i < 0 \<or> int (length tlb) \<le> i then raise OutOfBounds
         else if matches (tlb ! nat i) then ret (ScanHit (nat i))
         else if 2 ^ 31 \<le> i + step then raise IntOverflow
         else if ts (tlb ! nat i) < mts
           then scan matches tlb max_entries step (i + step) (ts (tlb ! nat i)) (nat i)
           else scan matches tlb max_entries step (i + step) mts mi)
      else ret (ScanMiss mi))"

declare scan.simps [code]

text \<open>The start of the loop: \<open>int mi = 0; unsigned mts = tlb[0].ts; i = (addr >> k) & waymask\<close>.\<close>

definition first_way :: "nat \<Rightarrow> u32 \<Rightarrow> int \<Rightarrow> int" where
  "first_way k addr waymask = uint (drop_bit k addr AND word_of_int waymask)"

definition lookup :: "(TLB_ENTRY \<Rightarrow> bool) \<Rightarrow> TLB_ENTRY list \<Rightarrow> int \<Rightarrow> int \<Rightarrow> int \<Rightarrow> scan_result comp" where
  "lookup matches tlb max_entries step i =
     scan matches tlb max_entries step i (ts (tlb ! 0)) 0"

text \<open>
  What a hit and a miss write: the time stamp is the 64-bit clock cut to 32 bits, and a refill
  of a cache without address spaces leaves the \<open>asid\<close> of the entry as it was.
\<close>

definition touch :: "u64 \<Rightarrow> TLB_ENTRY \<Rightarrow> TLB_ENTRY" where
  "touch t e = e\<lparr>ts := ucast t\<rparr>"

definition refill :: "u32 \<Rightarrow> u64 \<Rightarrow> TLB_ENTRY \<Rightarrow> TLB_ENTRY" where
  "refill addr t e = e\<lparr>va := addr, ts := ucast t\<rparr>"

definition refill_asid :: "u32 \<Rightarrow> u32 \<Rightarrow> u64 \<Rightarrow> TLB_ENTRY \<Rightarrow> TLB_ENTRY" where
  "refill_asid addr a t e = e\<lparr>va := addr, ts := ucast t, asid := a\<rparr>"

definition count_hit :: "TLB_COUNTER \<Rightarrow> TLB_COUNTER" where
  "count_hit c = c\<lparr>hit := hit c + 1\<rparr>"

definition count_miss :: "TLB_COUNTER \<Rightarrow> TLB_COUNTER" where
  "count_miss c = c\<lparr>miss := miss c + 1\<rparr>"

section \<open>The ways of a set\<close>

text \<open>The indices the loop visits from \<open>i\<close> on.\<close>

definition ways :: "int \<Rightarrow> int \<Rightarrow> int \<Rightarrow> nat set" where
  "ways i step max_entries = {k. i \<le> int k \<and> int k < max_entries \<and> step dvd (int k - i)}"

text \<open>What the code needs of a configuration: a positive step and an array that is large enough.\<close>

definition good_geometry :: "TLB_ENTRY list \<Rightarrow> int \<Rightarrow> int \<Rightarrow> bool" where
  "good_geometry tlb max_entries step \<longleftrightarrow>
     0 < step \<and> step \<le> 2 ^ 30 \<and> max_entries \<le> int (length tlb) \<and> length tlb \<le> 2 ^ 30"

section \<open>Lemmas\<close>

lemma flushed_entry_simps [simp]:
  "va (flushed_entry e) = 0xFFFFFFFF" "asid (flushed_entry e) = 0" "ts (flushed_entry e) = 0"
  "pa (flushed_entry e) = pa e"
  by (simp_all add: flushed_entry_def)

lemma touch_simps [simp]:
  "va (touch t e) = va e" "pa (touch t e) = pa e" "asid (touch t e) = asid e" "ts (touch t e) = ucast t"
  by (simp_all add: touch_def)

lemma refill_simps [simp]:
  "va (refill addr t e) = addr" "asid (refill addr t e) = asid e" "ts (refill addr t e) = ucast t"
  "va (refill_asid addr a t e) = addr" "asid (refill_asid addr a t e) = a"
  "ts (refill_asid addr a t e) = ucast t"
  by (simp_all add: refill_def refill_asid_def)

lemma count_simps [simp]:
  "hit (count_hit c) = hit c + 1" "miss (count_hit c) = miss c"
  "hit (count_miss c) = hit c" "miss (count_miss c) = miss c + 1"
  by (simp_all add: count_hit_def count_miss_def)

lemma length_FLUSH_TLB [simp]: "length (FLUSH_TLB tlb n) = length tlb"
  by (simp add: FLUSH_TLB_def)

lemma nth_FLUSH_TLB:
  "i < length tlb \<Longrightarrow> FLUSH_TLB tlb n ! i = (if i < n then flushed_entry (tlb ! i) else tlb ! i)"
  by (auto simp: FLUSH_TLB_def nth_append)

lemma ways_step:
  "0 < step \<Longrightarrow> i < max_entries \<Longrightarrow> 0 \<le> i \<Longrightarrow>
   ways i step max_entries = insert (nat i) (ways (i + step) step max_entries)"
proof (rule set_eqI)
  fix k
  assume step: "0 < step" and i: "i < max_entries" "0 \<le> i"
  have "step dvd (int k - i) \<longleftrightarrow> step dvd (int k - (i + step))"
    by (metis diff_diff_eq dvd_add_triv_right_iff diff_add_cancel)
  moreover have "i + step \<le> int k" if "i \<le> int k" "step dvd (int k - i)" "int k \<noteq> i"
    using that step by (metis add_le_cancel_left diff_add_cancel diff_gt_0_iff_gt add.commute
        order_le_imp_less_or_eq zdvd_imp_le)
  ultimately show "k \<in> ways i step max_entries \<longleftrightarrow>
      k \<in> insert (nat i) (ways (i + step) step max_entries)"
    using step i unfolding ways_def by auto
qed

lemma ways_empty: "max_entries \<le> i \<Longrightarrow> ways i step max_entries = {}"
  by (auto simp: ways_def)

lemma ways_bound: "k \<in> ways i step max_entries \<Longrightarrow> int k < max_entries"
  by (simp add: ways_def)

text \<open>
  The specification of the loop. Without a match it ends with an entry whose time stamp is
  minimal among the ways of the set and the entry \<open>mi\<close> it started with.
\<close>

fun scan_ok :: "(TLB_ENTRY \<Rightarrow> bool) \<Rightarrow> TLB_ENTRY list \<Rightarrow> nat set \<Rightarrow> nat \<Rightarrow> scan_result \<Rightarrow> bool" where
  "scan_ok matches tlb W mi (ScanHit j) \<longleftrightarrow>
     j \<in> W \<and> matches (tlb ! j) \<and> (\<forall>k\<in>W. k < j \<longrightarrow> \<not> matches (tlb ! k))"
| "scan_ok matches tlb W mi (ScanMiss m) \<longleftrightarrow>
     (\<forall>k\<in>W. \<not> matches (tlb ! k)) \<and> m \<in> insert mi W \<and> (\<forall>k\<in>insert mi W. ts (tlb ! m) \<le> ts (tlb ! k))"

lemma scan_ok_insert:
  assumes "\<not> matches (tlb ! i)" and "\<forall>k\<in>W. i < k"
    and "scan_ok matches tlb W (if ts (tlb ! i) < ts (tlb ! mi) then i else mi) r"
  shows "scan_ok matches tlb (insert i W) mi r"
  using assms by (cases r) (auto split: if_splits intro: order.trans less_imp_le)

lemma scan_returns_ok:
  assumes geo: "good_geometry tlb max_entries step" and "0 \<le> i"
  shows "\<exists>r. scan matches tlb max_entries step i (ts (tlb ! mi)) mi = ret r \<and>
             scan_ok matches tlb (ways i step max_entries) mi r"
  using \<open>0 \<le> i\<close>
proof (induction "nat (max_entries - i)" arbitrary: i mi rule: less_induct)
  case less
  show ?case
  proof (cases "i < max_entries")
    case False
    then show ?thesis by (subst scan.simps) (simp add: ways_empty)
  next
    case True
    with geo less.prems have bnd: "\<not> i < 0" "\<not> int (length tlb) \<le> i" "\<not> 2 ^ 31 \<le> i + step"
      and step: "0 < step" by (auto simp: good_geometry_def)
    have W: "ways i step max_entries = insert (nat i) (ways (i + step) step max_entries)"
      using True less.prems step by (simp add: ways_step)
    have later: "\<forall>k\<in>ways (i + step) step max_entries. nat i < k"
      using step less.prems by (auto simp: ways_def)
    show ?thesis
    proof (cases "matches (tlb ! nat i)")
      case True
      with \<open>i < max_entries\<close> bnd W later show ?thesis
        by (subst scan.simps) auto
    next
      case False
      let ?mi = "if ts (tlb ! nat i) < ts (tlb ! mi) then nat i else mi"
      have "nat (max_entries - (i + step)) < nat (max_entries - i)" "0 \<le> i + step"
        using True less.prems step by auto
      from less.hyps [OF this, of ?mi] obtain r where
        r: "scan matches tlb max_entries step (i + step) (ts (tlb ! ?mi)) ?mi = ret r"
        and ok: "scan_ok matches tlb (ways (i + step) step max_entries) ?mi r" by blast
      have "scan matches tlb max_entries step i (ts (tlb ! mi)) mi = ret r"
        using True False bnd r by (subst scan.simps) (simp split: if_splits)
      then show ?thesis
        using scan_ok_insert [OF False later ok] W by auto
    qed
  qed
qed

lemma first_way_nonneg [simp]: "0 \<le> first_way k addr waymask"
  by (simp add: first_way_def)

text \<open>With a step of 0 the loop does not return once it stands on an entry that does not match.\<close>

lemma scan_step0_diverges:
  assumes "0 \<le> i" and "i < max_entries" and "i < int (length tlb)" and "length tlb < 2 ^ 31"
    and nomatch: "\<not> matches (tlb ! nat i)"
  shows "scan matches tlb max_entries 0 i mts mi = None"
proof (rule ccontr)
  assume "scan matches tlb max_entries 0 i mts mi \<noteq> None"
  then obtain r where r: "scan matches tlb max_entries 0 i mts mi = Some r" by blast
  have "(0 :: int) = 0 \<longrightarrow> 0 \<le> i \<longrightarrow> i < max_entries \<longrightarrow> i < int (length tlb) \<longrightarrow>
          length tlb < 2 ^ 31 \<longrightarrow> matches (tlb ! nat i)"
    by (rule scan.raw_induct [where P = "\<lambda>m t mx st i mts mi r. st = 0 \<longrightarrow> 0 \<le> i \<longrightarrow> i < mx \<longrightarrow>
          i < int (length t) \<longrightarrow> length t < 2 ^ 31 \<longrightarrow> m (t ! nat i)", OF _ r])
       (fastforce split: if_splits)
  with assms show False by simp
qed

section \<open>The contract of a cache function\<close>

text \<open>
  What the callers of a cache function rely on, over a state type \<open>'s\<close> and lookup keys \<open>'k\<close>.
  \<open>way_set k s\<close> are the indices the lookup of \<open>k\<close> visits. The victim of a miss is one of the
  oldest entries among these and entry 0, whatever set entry 0 belongs to.
\<close>

locale cache_fun =
  fixes access :: "'k \<Rightarrow> 's \<Rightarrow> (bool \<times> 's) comp"
    and matches :: "'k \<Rightarrow> TLB_ENTRY \<Rightarrow> bool"
    and fill :: "'k \<Rightarrow> u64 \<Rightarrow> TLB_ENTRY \<Rightarrow> TLB_ENTRY"
    and way_set :: "'k \<Rightarrow> 's \<Rightarrow> nat set"
    and tlb :: "'s \<Rightarrow> TLB_ENTRY list"
    and cnt :: "'s \<Rightarrow> TLB_COUNTER"
    and clock :: "'s \<Rightarrow> u64"
    and ok :: "'s \<Rightarrow> bool"
  assumes access_returns: "ok s \<Longrightarrow> \<exists>h s'. access k s = ret (h, s')"
    and access_ok: "ok s \<Longrightarrow> access k s = ret (h, s') \<Longrightarrow> ok s'"
    and access_hit_iff: "ok s \<Longrightarrow> access k s = ret (h, s') \<Longrightarrow> h \<longleftrightarrow> (\<exists>i\<in>way_set k s. matches k (tlb s ! i))"
    and access_cnt: "ok s \<Longrightarrow> access k s = ret (h, s') \<Longrightarrow>
      cnt s' = (if h then count_hit (cnt s) else count_miss (cnt s))"
    and access_clock: "ok s \<Longrightarrow> access k s = ret (h, s') \<Longrightarrow> clock s' = clock s + 1"
    and access_hit_tlb: "ok s \<Longrightarrow> access k s = ret (True, s') \<Longrightarrow>
      \<exists>i\<in>way_set k s. matches k (tlb s ! i) \<and> tlb s' = (tlb s)[i := touch (clock s + 1) (tlb s ! i)]"
    and access_miss_tlb: "ok s \<Longrightarrow> access k s = ret (False, s') \<Longrightarrow>
      \<exists>i\<in>insert 0 (way_set k s). (\<forall>j\<in>insert 0 (way_set k s). ts (tlb s ! i) \<le> ts (tlb s ! j)) \<and>
        tlb s' = (tlb s)[i := fill k (clock s + 1) (tlb s ! i)]"
    and way_set_same: "ok s \<Longrightarrow> access k s = ret (h, s') \<Longrightarrow> way_set k' s' = way_set k' s"
    and way_set_bound: "ok s \<Longrightarrow> i \<in> insert 0 (way_set k s) \<Longrightarrow> i < length (tlb s)"
    and fill_matches: "matches k (fill k t e)"
    and touch_matches: "matches k (touch t e) \<longleftrightarrow> matches k e"
begin

lemma access_result: "ok s \<Longrightarrow> \<exists>s'. access k s = ret (\<exists>i\<in>way_set k s. matches k (tlb s ! i), s')"
  using access_returns [of s k] access_hit_iff [of s k] by blast

text \<open>A hit is followed by a hit.\<close>

lemma hit_then_hit:
  assumes "ok s" and "access k s = ret (True, s1)"
  shows "\<exists>s2. access k s1 = ret (True, s2)"
proof -
  have ok1: "ok s1" using assms by (rule access_ok)
  obtain i where i: "i \<in> way_set k s" "matches k (tlb s ! i)"
    and t: "tlb s1 = (tlb s)[i := touch (clock s + 1) (tlb s ! i)]"
    using access_hit_tlb [OF assms] by blast
  have "i < length (tlb s)" using way_set_bound [OF assms(1), of i k] i(1) by blast
  then have "matches k (tlb s1 ! i)" using i(2) t by (simp add: touch_matches)
  moreover have "i \<in> way_set k s1" using i(1) way_set_same [OF assms] by blast
  ultimately show ?thesis using access_result [OF ok1, of k] by auto
qed

text \<open>
  A miss is followed by a hit if entry 0 is a way of the set, or if some way of the set is
  older than entry 0: then the victim lies in the set.
\<close>

lemma miss_then_hit:
  assumes "ok s" and "access k s = ret (False, s1)"
    and "0 \<in> way_set k s \<or> (\<exists>j\<in>way_set k s. ts (tlb s ! j) < ts (tlb s ! 0))"
  shows "\<exists>s2. access k s1 = ret (True, s2)"
proof -
  have ok1: "ok s1" using assms(1,2) by (rule access_ok)
  obtain i where i: "i \<in> insert 0 (way_set k s)"
    and min: "\<forall>j\<in>insert 0 (way_set k s). ts (tlb s ! i) \<le> ts (tlb s ! j)"
    and t: "tlb s1 = (tlb s)[i := fill k (clock s + 1) (tlb s ! i)]"
    using access_miss_tlb [OF assms(1,2)] by blast
  have set: "i \<in> way_set k s" using i min assms(3) by fastforce
  have "i < length (tlb s)" using way_set_bound [OF assms(1) i] .
  then have "matches k (tlb s1 ! i)" using t by (simp add: fill_matches)
  moreover have "i \<in> way_set k s1" using set way_set_same [OF assms(1,2)] by blast
  ultimately show ?thesis using access_result [OF ok1, of k] by auto
qed

text \<open>
  If the set does not contain entry 0 and no way of it is older than entry 0, a miss is
  followed by another miss: with every way at least as old as entry 0, the victim is entry 0
  or a way with the same time stamp; it is entry 0 when all ways are strictly younger.
\<close>

lemma miss_then_miss:
  assumes "ok s" and "access k s = ret (False, s1)"
    and "0 \<notin> way_set k s" and "\<forall>j\<in>way_set k s. ts (tlb s ! 0) < ts (tlb s ! j)"
  shows "\<exists>s2. access k s1 = ret (False, s2)"
proof -
  have ok1: "ok s1" using assms(1,2) by (rule access_ok)
  obtain i where i: "i \<in> insert 0 (way_set k s)"
    and min: "\<forall>j\<in>insert 0 (way_set k s). ts (tlb s ! i) \<le> ts (tlb s ! j)"
    and t: "tlb s1 = (tlb s)[i := fill k (clock s + 1) (tlb s ! i)]"
    using access_miss_tlb [OF assms(1,2)] by blast
  have "i = 0" using i min assms(4) by fastforce
  have "\<not> (\<exists>j\<in>way_set k s. matches k (tlb s ! j))"
    using access_hit_iff [OF assms(1,2)] by blast
  then have "\<not> (\<exists>j\<in>way_set k s1. matches k (tlb s1 ! j))"
    using way_set_same [OF assms(1,2)] assms(3) t \<open>i = 0\<close>
    by (metis nth_list_update_neq)
  then show ?thesis using access_result [OF ok1, of k] by auto
qed

end

text \<open>
  Every cache function of the two files has the same shape: one lookup, then the updates of a
  hit or of a miss. The laws of \<open>cache_fun\<close> follow from that shape and from what the updates
  write.
\<close>

locale cache_shape =
  fixes access :: "'k \<Rightarrow> 's \<Rightarrow> (bool \<times> 's) comp"
    and matches :: "'k \<Rightarrow> TLB_ENTRY \<Rightarrow> bool"
    and fill :: "'k \<Rightarrow> u64 \<Rightarrow> TLB_ENTRY \<Rightarrow> TLB_ENTRY"
    and way_set :: "'k \<Rightarrow> 's \<Rightarrow> nat set"
    and tlb :: "'s \<Rightarrow> TLB_ENTRY list"
    and cnt :: "'s \<Rightarrow> TLB_COUNTER"
    and clock :: "'s \<Rightarrow> u64"
    and ok :: "'s \<Rightarrow> bool"
    and start :: "'k \<Rightarrow> 's \<Rightarrow> int"
    and stride :: "'s \<Rightarrow> int"
    and limit :: "'s \<Rightarrow> int"
    and on_hit :: "'k \<Rightarrow> nat \<Rightarrow> 's \<Rightarrow> 's"
    and on_miss :: "'k \<Rightarrow> nat \<Rightarrow> 's \<Rightarrow> 's"
  assumes access_eq: "ok s \<Longrightarrow> access k s =
      comp_bind (lookup (matches k) (tlb s) (limit s) (stride s) (start k s))
        (\<lambda>r. case r of ScanHit i \<Rightarrow> ret (True, on_hit k i s) | ScanMiss m \<Rightarrow> ret (False, on_miss k m s))"
    and start_nonneg: "0 \<le> start k s"
    and way_set_eq: "way_set k s = ways (start k s) (stride s) (limit s)"
    and geometry: "ok s \<Longrightarrow> good_geometry (tlb s) (limit s) (stride s) \<and> tlb s \<noteq> []"
    and on_hit_laws: "tlb (on_hit k i s) = (tlb s)[i := touch (clock s + 1) (tlb s ! i)]"
      "cnt (on_hit k i s) = count_hit (cnt s)" "clock (on_hit k i s) = clock s + 1"
      "ok s \<Longrightarrow> i < length (tlb s) \<Longrightarrow> ok (on_hit k i s)" "start k' (on_hit k i s) = start k' s"
      "stride (on_hit k i s) = stride s" "limit (on_hit k i s) = limit s"
    and on_miss_laws: "tlb (on_miss k i s) = (tlb s)[i := fill k (clock s + 1) (tlb s ! i)]"
      "cnt (on_miss k i s) = count_miss (cnt s)" "clock (on_miss k i s) = clock s + 1"
      "ok s \<Longrightarrow> i < length (tlb s) \<Longrightarrow> ok (on_miss k i s)" "start k' (on_miss k i s) = start k' s"
      "stride (on_miss k i s) = stride s" "limit (on_miss k i s) = limit s"
    and shape_fill: "matches k (fill k t e)"
    and shape_touch: "matches k (touch t e) \<longleftrightarrow> matches k e"
begin

lemma way_bound: "ok s \<Longrightarrow> i \<in> insert 0 (way_set k s) \<Longrightarrow> i < length (tlb s)"
  using geometry [of s] ways_bound [of i "start k s" "stride s" "limit s"]
  by (auto simp: way_set_eq good_geometry_def)

lemma access_cases:
  assumes "ok s"
  obtains (hit) i where "access k s = ret (True, on_hit k i s)"
      and "i \<in> way_set k s" and "matches k (tlb s ! i)"
  | (miss) m where "access k s = ret (False, on_miss k m s)"
      and "\<forall>j\<in>way_set k s. \<not> matches k (tlb s ! j)"
      and "m \<in> insert 0 (way_set k s)"
      and "\<forall>j\<in>insert 0 (way_set k s). ts (tlb s ! m) \<le> ts (tlb s ! j)"
proof -
  obtain r where r: "lookup (matches k) (tlb s) (limit s) (stride s) (start k s) = ret r"
    and ok: "scan_ok (matches k) (tlb s) (way_set k s) 0 r"
    using scan_returns_ok [of "tlb s" "limit s" "stride s" "start k s" "matches k" 0]
      geometry [OF assms] start_nonneg [of k s]
    unfolding lookup_def way_set_eq by blast
  show thesis
  proof (cases r)
    case (ScanHit i)
    with r ok show ?thesis by (intro hit) (auto simp: access_eq [OF assms])
  next
    case (ScanMiss m)
    with r ok show ?thesis by (intro miss) (auto simp: access_eq [OF assms])
  qed
qed

end

sublocale cache_shape \<subseteq> cache_fun access matches fill way_set tlb cnt clock ok
proof (unfold_locales, goal_cases)
  case (1 s k)
  then show ?case by (cases rule: access_cases [of s k]) auto
next
  case (2 s k h s')
  from 2(1) show ?case
  proof (cases rule: access_cases [of s k])
    case (hit i)
    with 2 way_bound [OF 2(1), of i k] on_hit_laws(4) [OF 2(1), of i k] show ?thesis by auto
  next
    case (miss m)
    with 2 way_bound [OF 2(1), of m k] on_miss_laws(4) [OF 2(1), of m k] show ?thesis by auto
  qed
next
  case (3 s k h s')
  then show ?case by (cases rule: access_cases [of s k]) auto
next
  case (4 s k h s')
  then show ?case by (cases rule: access_cases [of s k]) (auto simp: on_hit_laws on_miss_laws)
next
  case (5 s k h s')
  then show ?case by (cases rule: access_cases [of s k]) (auto simp: on_hit_laws on_miss_laws)
next
  case (6 s k s')
  then show ?case by (cases rule: access_cases [of s k]) (auto simp: on_hit_laws)
next
  case (7 s k s')
  then show ?case
  proof (cases rule: access_cases [of s k])
    case (miss m)
    then show ?thesis using 7(2) by (intro bexI [of _ m]) (simp_all add: on_miss_laws)
  qed simp_all
next
  case (8 s k h s' k')
  then show ?case
    by (cases rule: access_cases [of s k]) (auto simp: way_set_eq on_hit_laws on_miss_laws)
next
  case (9 s i k)
  then show ?case by (rule way_bound)
qed (rule shape_fill shape_touch)+

end
