(* ===== verification/Tlb_Sim.thy ===== *)
theory Tlb_Sim
  imports Lru_Cache "HOL-Library.Sublist" "HOL-Library.Char_ord" "HOL-Library.List_Lexorder"
begin

text \<open>
  The TLB simulator, \<open>src/tlb_sim.c\<close>: five caches with their counters, the cache functions
  and the page-walk emulations built on them, the four simulations of a trace file and the
  driver \<open>tlbsim_sim\<close> that runs one of them over the trace files of a directory. The globals of
  the C file are the fields of \<open>sim_state\<close>; every function takes the state and returns the
  new one inside \<open>comp\<close>.
\<close>

section \<open>State\<close>

definition CACHE_MAX_ENTRIES :: nat where
  "CACHE_MAX_ENTRIES = 512"

definition MAX_TRACE_FILES :: nat where
  "MAX_TRACE_FILES = 128"

record sim_state =
  systs :: u64
  TLB_WAYMASK_NTLB :: int
  TLB_MAX_ENTRIES_NTLB :: int
  TLB_WAYSTEP_NTLB :: int
  TLB_WAYMASK_PWC :: int
  TLB_MAX_ENTRIES_PWC :: int
  TLB_WAYSTEP_PWC :: int
  ntlb_tlb :: "TLB_ENTRY list"
  ntlb2_tlb :: "TLB_ENTRY list"
  pwc_tlb :: "TLB_ENTRY list"
  pwc2_tlb :: "TLB_ENTRY list"
  pwc3_tlb :: "TLB_ENTRY list"
  ntlb_cnt :: TLB_COUNTER
  ntlb2_cnt :: TLB_COUNTER
  pwc_cnt :: TLB_COUNTER
  pwc2_cnt :: TLB_COUNTER
  pwc3_cnt :: TLB_COUNTER
  ntlb2_mem_accs :: u64
  pwc2_mem_accs :: u64
  pwc3_mem_accs :: u64
  full_mem_accs :: u64

record SIM_RESULT =
  accs :: u64
  ntlb :: TLB_COUNTER
  pwc :: TLB_COUNTER

datatype SIM_CMD = SC_NTLB | SC_PWC_EPT | SC_PWC_NOEPT | SC_NTLB_PWC

definition flush_all :: "sim_state \<Rightarrow> sim_state" where
  "flush_all s =
     (let (t1, c1) = INIT_TLB (ntlb_tlb s) CACHE_MAX_ENTRIES (ntlb_cnt s);
          (t2, c2) = INIT_TLB (ntlb2_tlb s) CACHE_MAX_ENTRIES (ntlb2_cnt s);
          (t3, c3) = INIT_TLB (pwc_tlb s) CACHE_MAX_ENTRIES (pwc_cnt s);
          (t4, c4) = INIT_TLB (pwc2_tlb s) CACHE_MAX_ENTRIES (pwc2_cnt s);
          (t5, c5) = INIT_TLB (pwc3_tlb s) CACHE_MAX_ENTRIES (pwc3_cnt s)
      in s\<lparr>systs := 0, full_mem_accs := 0, pwc3_mem_accs := 0, pwc2_mem_accs := 0, ntlb2_mem_accs := 0,
           ntlb_tlb := t1, ntlb_cnt := c1, ntlb2_tlb := t2, ntlb2_cnt := c2,
           pwc_tlb := t3, pwc_cnt := c3, pwc2_tlb := t4, pwc2_cnt := c4,
           pwc3_tlb := t5, pwc3_cnt := c5\<rparr>)"

section \<open>The cache functions\<close>

text \<open>
  Each returns 1 on a hit and 0 on a miss, here \<open>True\<close> and \<open>False\<close>. The updates of the hit
  branch and of the refill after the loop are definitions of their own.
\<close>

definition ntlb2_hit :: "nat \<Rightarrow> sim_state \<Rightarrow> sim_state" where
  "ntlb2_hit i s = s\<lparr>ntlb2_tlb := (ntlb2_tlb s)[i := touch (systs s + 1) (ntlb2_tlb s ! i)],
     systs := systs s + 1, ntlb2_cnt := count_hit (ntlb2_cnt s)\<rparr>"

definition ntlb2_refill :: "u32 \<Rightarrow> nat \<Rightarrow> sim_state \<Rightarrow> sim_state" where
  "ntlb2_refill addr mi s = s\<lparr>ntlb2_mem_accs := ntlb2_mem_accs s + 2,
     ntlb2_tlb := (ntlb2_tlb s)[mi := refill addr (systs s + 1) (ntlb2_tlb s ! mi)],
     systs := systs s + 1, ntlb2_cnt := count_miss (ntlb2_cnt s)\<rparr>"

definition ntlb2_access_desc :: "bool \<Rightarrow> sim_state \<Rightarrow> sim_state" where
  "ntlb2_access_desc final s = (if final then s else s\<lparr>ntlb2_mem_accs := ntlb2_mem_accs s + 1\<rparr>)"

definition tlbtrace_ntlb_find2 :: "u32 \<Rightarrow> bool \<Rightarrow> sim_state \<Rightarrow> (bool \<times> sim_state) comp" where
  "tlbtrace_ntlb_find2 addr final s0 =
     (let s = ntlb2_access_desc final s0 in
      comp_bind
        (lookup (\<lambda>e. va e = addr) (ntlb2_tlb s) (TLB_MAX_ENTRIES_NTLB s) (TLB_WAYSTEP_NTLB s)
           (first_way 12 addr (TLB_WAYMASK_NTLB s)))
        (\<lambda>r. case r of
           ScanHit i \<Rightarrow> ret (True, ntlb2_hit i s)
         | ScanMiss mi \<Rightarrow> ret (False, ntlb2_refill addr mi s)))"

definition pwc2_hit :: "nat \<Rightarrow> sim_state \<Rightarrow> sim_state" where
  "pwc2_hit i s = s\<lparr>pwc2_tlb := (pwc2_tlb s)[i := touch (systs s + 1) (pwc2_tlb s ! i)],
     systs := systs s + 1, pwc2_cnt := count_hit (pwc2_cnt s)\<rparr>"

definition pwc2_refill :: "u32 \<Rightarrow> u32 \<Rightarrow> nat \<Rightarrow> sim_state \<Rightarrow> sim_state" where
  "pwc2_refill addr a mi s =
     s\<lparr>pwc2_tlb := (pwc2_tlb s)[mi := refill_asid addr a (systs s + 1) (pwc2_tlb s ! mi)],
       systs := systs s + 1, pwc2_cnt := count_miss (pwc2_cnt s)\<rparr>"

definition tlbtrace_refppa_pwc2 :: "u32 \<Rightarrow> u32 \<Rightarrow> sim_state \<Rightarrow> (bool \<times> sim_state) comp" where
  "tlbtrace_refppa_pwc2 addr a s =
     comp_bind
       (lookup (\<lambda>e. va e = addr \<and> asid e = a) (pwc2_tlb s) (TLB_MAX_ENTRIES_PWC s) (TLB_WAYSTEP_PWC s)
          (first_way 2 addr (TLB_WAYMASK_PWC s)))
       (\<lambda>r. case r of
          ScanHit i \<Rightarrow> ret (True, pwc2_hit i s)
        | ScanMiss mi \<Rightarrow> ret (False, pwc2_refill addr a mi s))"

definition pwc3_hit :: "nat \<Rightarrow> sim_state \<Rightarrow> sim_state" where
  "pwc3_hit i s = s\<lparr>pwc3_tlb := (pwc3_tlb s)[i := touch (systs s + 1) (pwc3_tlb s ! i)],
     systs := systs s + 1, pwc3_cnt := count_hit (pwc3_cnt s)\<rparr>"

definition pwc3_refill :: "u32 \<Rightarrow> u32 \<Rightarrow> nat \<Rightarrow> sim_state \<Rightarrow> sim_state" where
  "pwc3_refill addr a mi s =
     s\<lparr>pwc3_tlb := (pwc3_tlb s)[mi := refill_asid addr a (systs s + 1) (pwc3_tlb s ! mi)],
       systs := systs s + 1, pwc3_cnt := count_miss (pwc3_cnt s)\<rparr>"

definition tlbtrace_refppa_pwc3 :: "u32 \<Rightarrow> u32 \<Rightarrow> sim_state \<Rightarrow> (bool \<times> sim_state) comp" where
  "tlbtrace_refppa_pwc3 addr a s =
     comp_bind
       (lookup (\<lambda>e. va e = addr \<and> asid e = a) (pwc3_tlb s) (TLB_MAX_ENTRIES_PWC s) (TLB_WAYSTEP_PWC s)
          (first_way 2 addr (TLB_WAYMASK_PWC s)))
       (\<lambda>r. case r of
          ScanHit i \<Rightarrow> ret (True, pwc3_hit i s)
        | ScanMiss mi \<Rightarrow> ret (False, pwc3_refill addr a mi s))"

definition ntlb_hit :: "nat \<Rightarrow> sim_state \<Rightarrow> sim_state" where
  "ntlb_hit i s = s\<lparr>ntlb_tlb := (ntlb_tlb s)[i := touch (systs s + 1) (ntlb_tlb s ! i)],
     systs := systs s + 1, ntlb_cnt := count_hit (ntlb_cnt s)\<rparr>"

definition ntlb_refill :: "u32 \<Rightarrow> nat \<Rightarrow> sim_state \<Rightarrow> sim_state" where
  "ntlb_refill addr mi s =
     s\<lparr>ntlb_tlb := (ntlb_tlb s)[mi := refill addr (systs s + 1) (ntlb_tlb s ! mi)],
       systs := systs s + 1, ntlb_cnt := count_miss (ntlb_cnt s)\<rparr>"

definition tlbtrace_ntlb_find :: "u32 \<Rightarrow> sim_state \<Rightarrow> (bool \<times> sim_state) comp" where
  "tlbtrace_ntlb_find addr s =
     comp_bind
       (lookup (\<lambda>e. va e = addr) (ntlb_tlb s) (TLB_MAX_ENTRIES_NTLB s) (TLB_WAYSTEP_NTLB s)
          (first_way 12 addr (TLB_WAYMASK_NTLB s)))
       (\<lambda>r. case r of
          ScanHit i \<Rightarrow> ret (True, ntlb_hit i s)
        | ScanMiss mi \<Rightarrow> ret (False, ntlb_refill addr mi s))"

definition pwc_hit :: "nat \<Rightarrow> sim_state \<Rightarrow> sim_state" where
  "pwc_hit i s = s\<lparr>pwc_tlb := (pwc_tlb s)[i := touch (systs s + 1) (pwc_tlb s ! i)],
     systs := systs s + 1, pwc_cnt := count_hit (pwc_cnt s)\<rparr>"

definition pwc_refill :: "u32 \<Rightarrow> u32 \<Rightarrow> nat \<Rightarrow> sim_state \<Rightarrow> sim_state" where
  "pwc_refill addr a mi s =
     s\<lparr>pwc_tlb := (pwc_tlb s)[mi := refill_asid addr a (systs s + 1) (pwc_tlb s ! mi)],
       systs := systs s + 1, pwc_cnt := count_miss (pwc_cnt s)\<rparr>"

definition tlbtrace_refppa_pwc :: "u32 \<Rightarrow> u32 \<Rightarrow> sim_state \<Rightarrow> (bool \<times> sim_state) comp" where
  "tlbtrace_refppa_pwc addr a s =
     comp_bind
       (lookup (\<lambda>e. va e = addr \<and> asid e = a) (pwc_tlb s) (TLB_MAX_ENTRIES_PWC s) (TLB_WAYSTEP_PWC s)
          (first_way 2 addr (TLB_WAYMASK_PWC s)))
       (\<lambda>r. case r of
          ScanHit i \<Rightarrow> ret (True, pwc_hit i s)
        | ScanMiss mi \<Rightarrow> ret (False, pwc_refill addr a mi s))"

section \<open>Emulating one traced reference\<close>

definition emulate_ntlb2 :: "u32 \<Rightarrow> u32 \<Rightarrow> u32 \<Rightarrow> u32 \<Rightarrow> sim_state \<Rightarrow> sim_state comp" where
  "emulate_ntlb2 level l1_gpa l2_gpa gpa s0 =
     comp_bind (tlbtrace_ntlb_find2 (l1_gpa AND 0xFFFFF000) False s0) (\<lambda>(_, s1).
     comp_bind (if 1 < level then tlbtrace_ntlb_find2 (l2_gpa AND 0xFFFFF000) False s1
                else ret (False, s1)) (\<lambda>(_, s2).
     comp_bind (if 2 < level then tlbtrace_ntlb_find2 gpa True s2
                else ret (False, s2)) (\<lambda>(_, s3).
     ret s3)))"

text \<open>The descriptors of the default extended page table that translate \<open>gpa\<close>.\<close>

definition ept_l1_mpa :: "u32 \<Rightarrow> u32" where
  "ept_l1_mpa gpa = drop_bit 20 gpa * 4"

definition ept_l2_mpa :: "u32 \<Rightarrow> u32" where
  "ept_l2_mpa gpa = 16 * 1024 + drop_bit 20 gpa * 1024 + (drop_bit 12 gpa AND 0xFF) * 4"

text \<open>\<open>if (tlbtrace_refppa_pwc2(addr, a) == 0) pwc2_mem_accs++\<close>, with the result of the lookup.\<close>

definition ref_pwc2 :: "u32 \<Rightarrow> u32 \<Rightarrow> sim_state \<Rightarrow> sim_state comp" where
  "ref_pwc2 addr a s0 =
     comp_bind (tlbtrace_refppa_pwc2 addr a s0) (\<lambda>(h, s).
       ret (if h then s else s\<lparr>pwc2_mem_accs := pwc2_mem_accs s + 1\<rparr>))"

definition ept_walk_pwc2 :: "u32 \<Rightarrow> sim_state \<Rightarrow> sim_state comp" where
  "ept_walk_pwc2 gpa s = comp_bind (ref_pwc2 (ept_l1_mpa gpa) 0 s) (ref_pwc2 (ept_l2_mpa gpa) 0)"

definition guest_ref_pwc2 :: "u32 \<Rightarrow> sim_state \<Rightarrow> sim_state comp" where
  "guest_ref_pwc2 gpa s0 =
     comp_bind (tlbtrace_refppa_pwc2 gpa 1 s0) (\<lambda>(h, s1).
       if h then ret s1
       else comp_bind (ept_walk_pwc2 gpa s1) (\<lambda>s2. ret (s2\<lparr>pwc2_mem_accs := pwc2_mem_accs s2 + 1\<rparr>)))"

definition emulate_pwc2 :: "u32 \<Rightarrow> u32 \<Rightarrow> u32 \<Rightarrow> u32 \<Rightarrow> sim_state \<Rightarrow> sim_state comp" where
  "emulate_pwc2 level l1_gpa l2_gpa gpa s0 =
     comp_bind (guest_ref_pwc2 l1_gpa s0) (\<lambda>s1.
     comp_bind (if 1 < level then guest_ref_pwc2 l2_gpa s1 else ret s1) (\<lambda>s2.
     if 2 < level then ept_walk_pwc2 gpa s2 else ret s2))"

definition guest_ref_pwc3 :: "u32 \<Rightarrow> sim_state \<Rightarrow> sim_state comp" where
  "guest_ref_pwc3 gpa s0 =
     comp_bind (tlbtrace_refppa_pwc3 gpa 1 s0) (\<lambda>(h, s).
       ret (if h then s else s\<lparr>pwc3_mem_accs := pwc3_mem_accs s + 1\<rparr>))"

definition emulate_pwc3 :: "u32 \<Rightarrow> u32 \<Rightarrow> u32 \<Rightarrow> u32 \<Rightarrow> sim_state \<Rightarrow> sim_state comp" where
  "emulate_pwc3 level l1_gpa l2_gpa gpa s0 =
     comp_bind (guest_ref_pwc3 l1_gpa s0) (\<lambda>s1.
     if 1 < level then guest_ref_pwc3 l2_gpa s1 else ret s1)"

definition ref_pwc :: "u32 \<Rightarrow> u32 \<Rightarrow> sim_state \<Rightarrow> sim_state comp" where
  "ref_pwc addr a s0 =
     comp_bind (tlbtrace_refppa_pwc addr a s0) (\<lambda>(h, s).
       ret (if h then s else s\<lparr>full_mem_accs := full_mem_accs s + 1\<rparr>))"

text \<open>\<open>if (tlbtrace_ntlb_find(addr) == 0)\<close> the two descriptors of the extended page table are read.\<close>

definition nested_walk_full :: "u32 \<Rightarrow> u32 \<Rightarrow> sim_state \<Rightarrow> sim_state comp" where
  "nested_walk_full addr gpa s0 =
     comp_bind (tlbtrace_ntlb_find addr s0) (\<lambda>(h, s1).
       if h then ret s1
       else comp_bind (ref_pwc (ept_l1_mpa gpa) 0 s1) (ref_pwc (ept_l2_mpa gpa) 0))"

definition guest_ref_full :: "u32 \<Rightarrow> sim_state \<Rightarrow> sim_state comp" where
  "guest_ref_full gpa s0 =
     comp_bind (tlbtrace_refppa_pwc gpa 1 s0) (\<lambda>(h, s1).
       if h then ret s1
       else comp_bind (nested_walk_full (gpa AND 0xFFFFF000) gpa s1) (\<lambda>s2.
              ret (s2\<lparr>full_mem_accs := full_mem_accs s2 + 1\<rparr>)))"

definition emulate_full :: "u32 \<Rightarrow> u32 \<Rightarrow> u32 \<Rightarrow> u32 \<Rightarrow> sim_state \<Rightarrow> sim_state comp" where
  "emulate_full level l1_gpa l2_gpa gpa s0 =
     comp_bind (guest_ref_full l1_gpa s0) (\<lambda>s1.
     comp_bind (if 1 < level then guest_ref_full l2_gpa s1 else ret s1) (\<lambda>s2.
     if 2 < level then nested_walk_full gpa gpa s2 else ret s2))"

section \<open>Simulating a trace file\<close>

text \<open>
  \<open>fread(t, sizeof(uint32_t), 4, fin) == 4\<close> takes the next sixteen bytes of the file; at the
  end of the file, or before a torn tuple, it returns less than 4 and the loop ends.
\<close>

definition u32_at :: "u8 list \<Rightarrow> nat \<Rightarrow> u32" where
  "u32_at bs k = u32_of_bytes (bs ! k) (bs ! (k + 1)) (bs ! (k + 2)) (bs ! (k + 3))"

definition fread4 :: "u8 list \<Rightarrow> ((u32 \<times> u32 \<times> u32 \<times> u32) \<times> u8 list) option" where
  "fread4 bs =
     (if length bs < 16 then None
      else Some ((u32_at bs 0, u32_at bs 4, u32_at bs 8, u32_at bs 12), drop 16 bs))"

function sim_loop ::
  "(u32 \<Rightarrow> u32 \<Rightarrow> u32 \<Rightarrow> u32 \<Rightarrow> sim_state \<Rightarrow> sim_state comp) \<Rightarrow> u8 list \<Rightarrow> sim_state \<Rightarrow> sim_state comp" where
  "sim_loop emulate bs s =
     (case fread4 bs of
        None \<Rightarrow> ret s
      | Some ((t0, t1, t2, t3), rest) \<Rightarrow>
          comp_bind (emulate (t0 AND 0xF) t1 t2 t3 s) (sim_loop emulate rest))"
  by pat_completeness auto
termination
  by (relation "measure (\<lambda>(e, bs, s). length bs)") (auto simp: fread4_def split: if_splits)

declare sim_loop.simps [simp del]

definition set_ntlb_geometry :: "int \<Rightarrow> int \<Rightarrow> sim_state \<Rightarrow> sim_state comp" where
  "set_ntlb_geometry ntlb_size ntlb_way s =
     comp_bind (c_div ntlb_size ntlb_way) (\<lambda>step.
     comp_bind (c_int (step - 1)) (\<lambda>waymask.
     ret (s\<lparr>TLB_MAX_ENTRIES_NTLB := ntlb_size, TLB_WAYSTEP_NTLB := step, TLB_WAYMASK_NTLB := waymask\<rparr>)))"

definition set_pwc_geometry :: "int \<Rightarrow> int \<Rightarrow> sim_state \<Rightarrow> sim_state comp" where
  "set_pwc_geometry pwc_size pwc_way s =
     comp_bind (c_div pwc_size pwc_way) (\<lambda>step.
     comp_bind (c_int (step - 1)) (\<lambda>waymask.
     ret (s\<lparr>TLB_MAX_ENTRIES_PWC := pwc_size, TLB_WAYSTEP_PWC := step, TLB_WAYMASK_PWC := waymask\<rparr>)))"

text \<open>
  The file system is the parameter \<open>fs\<close>: the bytes of a readable file, or \<open>None\<close>, for which
  \<open>fopen\<close> returns a null stream that \<open>fread\<close> is then called with.
\<close>

type_synonym filesystem = "string \<Rightarrow> u8 list option"

definition sim_file ::
  "(u32 \<Rightarrow> u32 \<Rightarrow> u32 \<Rightarrow> u32 \<Rightarrow> sim_state \<Rightarrow> sim_state comp) \<Rightarrow> u8 list option \<Rightarrow> sim_state \<Rightarrow> sim_state comp" where
  "sim_file emulate fin s =
     (case fin of None \<Rightarrow> raise NullDeref | Some bs \<Rightarrow> sim_loop emulate bs (flush_all s))"

definition tlbsim_sim_ntlb ::
  "filesystem \<Rightarrow> string \<Rightarrow> int \<Rightarrow> int \<Rightarrow> int \<Rightarrow> int \<Rightarrow> SIM_RESULT \<Rightarrow> sim_state \<Rightarrow> (SIM_RESULT \<times> sim_state) comp" where
  "tlbsim_sim_ntlb fs trace_name ntlb_size ntlb_way pwc_size pwc_way result s0 =
     comp_bind (set_ntlb_geometry ntlb_size ntlb_way s0) (\<lambda>s1.
     comp_bind (sim_file emulate_ntlb2 (fs trace_name) s1) (\<lambda>s.
     ret (result\<lparr>accs := ntlb2_mem_accs s, ntlb := ntlb2_cnt s\<rparr>, s)))"

definition tlbsim_sim_pwc_ept ::
  "filesystem \<Rightarrow> string \<Rightarrow> int \<Rightarrow> int \<Rightarrow> int \<Rightarrow> int \<Rightarrow> SIM_RESULT \<Rightarrow> sim_state \<Rightarrow> (SIM_RESULT \<times> sim_state) comp" where
  "tlbsim_sim_pwc_ept fs trace_name ntlb_size ntlb_way pwc_size pwc_way result s0 =
     comp_bind (set_pwc_geometry pwc_size pwc_way s0) (\<lambda>s1.
     comp_bind (sim_file emulate_pwc2 (fs trace_name) s1) (\<lambda>s.
     ret (result\<lparr>accs := pwc2_mem_accs s, pwc := pwc2_cnt s\<rparr>, s)))"

definition tlbsim_sim_pwc_noept ::
  "filesystem \<Rightarrow> string \<Rightarrow> int \<Rightarrow> int \<Rightarrow> int \<Rightarrow> int \<Rightarrow> SIM_RESULT \<Rightarrow> sim_state \<Rightarrow> (SIM_RESULT \<times> sim_state) comp" where
  "tlbsim_sim_pwc_noept fs trace_name ntlb_size ntlb_way pwc_size pwc_way result s0 =
     comp_bind (set_pwc_geometry pwc_size pwc_way s0) (\<lambda>s1.
     comp_bind (sim_file emulate_pwc3 (fs trace_name) s1) (\<lambda>s.
     ret (result\<lparr>accs := pwc3_mem_accs s, pwc := pwc3_cnt s\<rparr>, s)))"

definition tlbsim_sim_ntlb_pwc ::
  "filesystem \<Rightarrow> string \<Rightarrow> int \<Rightarrow> int \<Rightarrow> int \<Rightarrow> int \<Rightarrow> SIM_RESULT \<Rightarrow> sim_state \<Rightarrow> (SIM_RESULT \<times> sim_state) comp" where
  "tlbsim_sim_ntlb_pwc fs trace_name ntlb_size ntlb_way pwc_size pwc_way result s0 =
     comp_bind (set_ntlb_geometry ntlb_size ntlb_way s0) (\<lambda>s1.
     comp_bind (set_pwc_geometry pwc_size pwc_way s1) (\<lambda>s2.
     comp_bind (sim_file emulate_full (fs trace_name) s2) (\<lambda>s.
     ret (result\<lparr>accs := full_mem_accs s, ntlb := ntlb_cnt s, pwc := pwc_cnt s\<rparr>, s))))"

section \<open>The driver\<close>

text \<open>\<open>%d\<close> of \<open>printf\<close>.\<close>

fun dec_nat :: "nat \<Rightarrow> string" where
  "dec_nat n = (if n < 10 then [char_of (48 + n)] else dec_nat (n div 10) @ [char_of (48 + n mod 10)])"

declare dec_nat.simps [simp del]

definition dec_int :: "int \<Rightarrow> string" where
  "dec_int i = (if i < 0 then ''-'' @ dec_nat (nat (- i)) else dec_nat (nat i))"

definition trace_suffix :: "int \<Rightarrow> int \<Rightarrow> string" where
  "trace_suffix tlb_size tlb_way = take 31 (''_'' @ dec_int tlb_size @ ''.'' @ dec_int tlb_way)"

definition is_trace_name :: "string \<Rightarrow> string \<Rightarrow> bool" where
  "is_trace_name suf d_name \<longleftrightarrow> sublist suf d_name \<and> take 6 d_name = ''trace_''"

fun scan_dir :: "string \<Rightarrow> string \<Rightarrow> string list \<Rightarrow> string list \<Rightarrow> string list" where
  "scan_dir path suf [] trace_files = trace_files"
| "scan_dir path suf (d_name # dents) trace_files =
     (if \<not> is_trace_name suf d_name then scan_dir path suf dents trace_files
      else let trace_files' = trace_files @ [take 511 (path @ ''/'' @ d_name)] in
           if length trace_files' = MAX_TRACE_FILES then trace_files'
           else scan_dir path suf dents trace_files')"

text \<open>
  A directory is the list of names \<open>readdir\<close> returns, \<open>None\<close> when \<open>opendir\<close> fails. \<open>qsort\<close> with
  \<open>strcmp\<close> sorts by the unsigned byte values, which is the order of the library theories.
\<close>

definition list_trace_files :: "string list option \<Rightarrow> string \<Rightarrow> int \<Rightarrow> int \<Rightarrow> string list" where
  "list_trace_files dir path tlb_size tlb_way =
     (case dir of
        None \<Rightarrow> []
      | Some dents \<Rightarrow> sort (scan_dir path (trace_suffix tlb_size tlb_way) dents []))"

definition zero_counter :: TLB_COUNTER where
  "zero_counter = \<lparr>hit = 0, miss = 0\<rparr>"

definition zero_result :: SIM_RESULT where
  "zero_result = \<lparr>accs = 0, ntlb = zero_counter, pwc = zero_counter\<rparr>"

fun sim_function ::
  "SIM_CMD \<Rightarrow> filesystem \<Rightarrow> string \<Rightarrow> int \<Rightarrow> int \<Rightarrow> int \<Rightarrow> int \<Rightarrow> SIM_RESULT \<Rightarrow> sim_state \<Rightarrow>
     (SIM_RESULT \<times> sim_state) comp" where
  "sim_function SC_NTLB = tlbsim_sim_ntlb"
| "sim_function SC_PWC_EPT = tlbsim_sim_pwc_ept"
| "sim_function SC_PWC_NOEPT = tlbsim_sim_pwc_noept"
| "sim_function SC_NTLB_PWC = tlbsim_sim_ntlb_pwc"

text \<open>
  The loop over the trace files. \<open>mem_ok i\<close> tells whether the \<open>i\<close>-th \<open>malloc\<close> of a result
  succeeds; its return value is used unchecked.
\<close>

fun sim_all ::
  "filesystem \<Rightarrow> (nat \<Rightarrow> bool) \<Rightarrow> SIM_CMD \<Rightarrow> int \<Rightarrow> int \<Rightarrow> int \<Rightarrow> nat \<Rightarrow> string list \<Rightarrow> sim_state \<Rightarrow>
     (SIM_RESULT list \<times> sim_state) comp" where
  "sim_all fs mem_ok cmd ntlb_size pwc_size way i [] s = ret ([], s)"
| "sim_all fs mem_ok cmd ntlb_size pwc_size way i (f # files) s0 =
     (if \<not> mem_ok i then raise NullDeref
      else comp_bind (sim_function cmd fs f ntlb_size way pwc_size way zero_result s0) (\<lambda>(r, s1).
           comp_bind (sim_all fs mem_ok cmd ntlb_size pwc_size way (Suc i) files s1) (\<lambda>(rs, s2).
           ret (r # rs, s2))))"

text \<open>\<open>None\<close> is the null pointer returned when the array of results cannot be allocated.\<close>

definition tlbsim_sim ::
  "filesystem \<Rightarrow> string list option \<Rightarrow> bool \<Rightarrow> (nat \<Rightarrow> bool) \<Rightarrow> int \<Rightarrow> int \<Rightarrow> int \<Rightarrow> int \<Rightarrow> SIM_CMD \<Rightarrow>
     string \<Rightarrow> sim_state \<Rightarrow> (SIM_RESULT list option \<times> sim_state) comp" where
  "tlbsim_sim fs dir array_ok mem_ok tlb_size ntlb_size pwc_size way cmd path s0 =
     (let files = list_trace_files dir path tlb_size way in
      if \<not> array_ok then ret (None, s0)
      else comp_bind (sim_all fs mem_ok cmd ntlb_size pwc_size way 0 files s0) (\<lambda>(rs, s).
           ret (Some rs, s)))"

section \<open>Well-formed states\<close>

text \<open>The five arrays have their declared size, and the geometry of a cache fits into it.\<close>

definition arrays_ok :: "sim_state \<Rightarrow> bool" where
  "arrays_ok s \<longleftrightarrow>
     length (ntlb_tlb s) = CACHE_MAX_ENTRIES \<and> length (ntlb2_tlb s) = CACHE_MAX_ENTRIES \<and>
     length (pwc_tlb s) = CACHE_MAX_ENTRIES \<and> length (pwc2_tlb s) = CACHE_MAX_ENTRIES \<and>
     length (pwc3_tlb s) = CACHE_MAX_ENTRIES"

definition ntlb_ok :: "sim_state \<Rightarrow> bool" where
  "ntlb_ok s \<longleftrightarrow> arrays_ok s \<and> 0 < TLB_WAYSTEP_NTLB s \<and> TLB_WAYSTEP_NTLB s \<le> 2 ^ 30 \<and>
     TLB_MAX_ENTRIES_NTLB s \<le> int CACHE_MAX_ENTRIES"

definition pwc_ok :: "sim_state \<Rightarrow> bool" where
  "pwc_ok s \<longleftrightarrow> arrays_ok s \<and> 0 < TLB_WAYSTEP_PWC s \<and> TLB_WAYSTEP_PWC s \<le> 2 ^ 30 \<and>
     TLB_MAX_ENTRIES_PWC s \<le> int CACHE_MAX_ENTRIES"

definition ntlb_ways :: "u32 \<Rightarrow> sim_state \<Rightarrow> nat set" where
  "ntlb_ways addr s =
     ways (first_way 12 addr (TLB_WAYMASK_NTLB s)) (TLB_WAYSTEP_NTLB s) (TLB_MAX_ENTRIES_NTLB s)"

definition pwc_ways :: "u32 \<Rightarrow> sim_state \<Rightarrow> nat set" where
  "pwc_ways addr s =
     ways (first_way 2 addr (TLB_WAYMASK_PWC s)) (TLB_WAYSTEP_PWC s) (TLB_MAX_ENTRIES_PWC s)"

lemmas sim_ok_defs = arrays_ok_def ntlb_ok_def pwc_ok_def good_geometry_def CACHE_MAX_ENTRIES_def

lemmas ntlb_branch_defs = ntlb_hit_def ntlb_refill_def ntlb2_hit_def ntlb2_refill_def
lemmas pwc_branch_defs = pwc_hit_def pwc_refill_def pwc2_hit_def pwc2_refill_def pwc3_hit_def pwc3_refill_def

lemma ntlb2_access_desc_frame [simp, frame_simps]:
  "systs (ntlb2_access_desc final s) = systs s" "ntlb_tlb (ntlb2_access_desc final s) = ntlb_tlb s"
  "ntlb2_tlb (ntlb2_access_desc final s) = ntlb2_tlb s" "pwc_tlb (ntlb2_access_desc final s) = pwc_tlb s"
  "pwc2_tlb (ntlb2_access_desc final s) = pwc2_tlb s" "pwc3_tlb (ntlb2_access_desc final s) = pwc3_tlb s"
  "ntlb2_cnt (ntlb2_access_desc final s) = ntlb2_cnt s"
  "TLB_WAYMASK_NTLB (ntlb2_access_desc final s) = TLB_WAYMASK_NTLB s"
  "TLB_WAYSTEP_NTLB (ntlb2_access_desc final s) = TLB_WAYSTEP_NTLB s"
  "TLB_MAX_ENTRIES_NTLB (ntlb2_access_desc final s) = TLB_MAX_ENTRIES_NTLB s"
  by (simp_all add: ntlb2_access_desc_def)

interpretation nf: cache_shape tlbtrace_ntlb_find "\<lambda>addr e. va e = addr" refill ntlb_ways
  ntlb_tlb ntlb_cnt systs ntlb_ok "\<lambda>addr s. first_way 12 addr (TLB_WAYMASK_NTLB s)"
  TLB_WAYSTEP_NTLB TLB_MAX_ENTRIES_NTLB "\<lambda>_. ntlb_hit" ntlb_refill
  by unfold_locales
    (auto simp: tlbtrace_ntlb_find_def ntlb_branch_defs ntlb_ways_def sim_ok_defs)

interpretation nf2: cache_shape "\<lambda>(addr, final). tlbtrace_ntlb_find2 addr final" "\<lambda>(addr, _) e. va e = addr"
  "\<lambda>(addr, _). refill addr" "\<lambda>(addr, _). ntlb_ways addr"
  ntlb2_tlb ntlb2_cnt systs ntlb_ok "\<lambda>(addr, _) s. first_way 12 addr (TLB_WAYMASK_NTLB s)"
  TLB_WAYSTEP_NTLB TLB_MAX_ENTRIES_NTLB
  "\<lambda>(_, final) i s. ntlb2_hit i (ntlb2_access_desc final s)"
  "\<lambda>(addr, final) i s. ntlb2_refill addr i (ntlb2_access_desc final s)"
proof (unfold_locales, goal_cases)
  case (1 s k)
  show ?case by (cases k) (simp add: tlbtrace_ntlb_find2_def Let_def cong: scan_result.case_cong)
qed (auto simp: ntlb_branch_defs ntlb_ways_def sim_ok_defs)

interpretation pr: cache_shape "\<lambda>(addr, a). tlbtrace_refppa_pwc addr a"
  "\<lambda>(addr, a) e. va e = addr \<and> asid e = a" "\<lambda>(addr, a). refill_asid addr a" "\<lambda>(addr, _). pwc_ways addr"
  pwc_tlb pwc_cnt systs pwc_ok "\<lambda>(addr, _) s. first_way 2 addr (TLB_WAYMASK_PWC s)"
  TLB_WAYSTEP_PWC TLB_MAX_ENTRIES_PWC "\<lambda>_. pwc_hit" "\<lambda>(addr, a). pwc_refill addr a"
proof (unfold_locales, goal_cases)
  case (1 s k)
  show ?case by (cases k) (simp add: tlbtrace_refppa_pwc_def cong: scan_result.case_cong)
qed (auto simp: pwc_branch_defs pwc_ways_def sim_ok_defs)

interpretation pr2: cache_shape "\<lambda>(addr, a). tlbtrace_refppa_pwc2 addr a"
  "\<lambda>(addr, a) e. va e = addr \<and> asid e = a" "\<lambda>(addr, a). refill_asid addr a" "\<lambda>(addr, _). pwc_ways addr"
  pwc2_tlb pwc2_cnt systs pwc_ok "\<lambda>(addr, _) s. first_way 2 addr (TLB_WAYMASK_PWC s)"
  TLB_WAYSTEP_PWC TLB_MAX_ENTRIES_PWC "\<lambda>_. pwc2_hit" "\<lambda>(addr, a). pwc2_refill addr a"
proof (unfold_locales, goal_cases)
  case (1 s k)
  show ?case by (cases k) (simp add: tlbtrace_refppa_pwc2_def cong: scan_result.case_cong)
qed (auto simp: pwc_branch_defs pwc_ways_def sim_ok_defs)

interpretation pr3: cache_shape "\<lambda>(addr, a). tlbtrace_refppa_pwc3 addr a"
  "\<lambda>(addr, a) e. va e = addr \<and> asid e = a" "\<lambda>(addr, a). refill_asid addr a" "\<lambda>(addr, _). pwc_ways addr"
  pwc3_tlb pwc3_cnt systs pwc_ok "\<lambda>(addr, _) s. first_way 2 addr (TLB_WAYMASK_PWC s)"
  TLB_WAYSTEP_PWC TLB_MAX_ENTRIES_PWC "\<lambda>_. pwc3_hit" "\<lambda>(addr, a). pwc3_refill addr a"
proof (unfold_locales, goal_cases)
  case (1 s k)
  show ?case by (cases k) (simp add: tlbtrace_refppa_pwc3_def cong: scan_result.case_cong)
qed (auto simp: pwc_branch_defs pwc_ways_def sim_ok_defs)

end
