(* ===== verification/Sim_Accounting.thy ===== *)
theory Sim_Accounting
  imports Tlb_Sim
begin

text \<open>
  What the numbers of a simulation mean: over every trace file the simulations return, and the
  reported memory accesses are tied to the reported hits and misses and to the length of the
  page walks in the trace. The walks are the tuples of the file; \<open>tuples\<close> decodes them all.
\<close>

section \<open>Computations that return a measured state\<close>

definition yields :: "('s \<Rightarrow> bool) \<Rightarrow> ('s \<Rightarrow> 'm) \<Rightarrow> 's comp \<Rightarrow> 'm \<Rightarrow> bool" where
  "yields ok f c v \<longleftrightarrow> (\<exists>s'. c = ret s' \<and> ok s' \<and> f s' = v)"

lemma yields_ret [simp]: "yields ok f (ret s) v \<longleftrightarrow> ok s \<and> f s = v"
  by (auto simp: yields_def)

lemma yieldsE:
  assumes "yields ok f c v"
  obtains s' where "c = ret s'" and "ok s'" and "f s' = v"
  using assms by (auto simp: yields_def)

lemma yields_bind:
  assumes "yields ok f c v" and "\<And>s'. ok s' \<Longrightarrow> f s' = v \<Longrightarrow> yields ok f (g s') v'"
  shows "yields ok f (comp_bind c g) v'"
  using assms by (auto simp: yields_def)

text \<open>Measures are pairs, added componentwise.\<close>

instantiation prod :: (comm_monoid_add, comm_monoid_add) comm_monoid_add
begin

definition zero_prod :: "'a \<times> 'b" where
  "zero_prod = (0, 0)"

definition plus_prod :: "'a \<times> 'b \<Rightarrow> 'a \<times> 'b \<Rightarrow> 'a \<times> 'b" where
  "plus_prod x y = (fst x + fst y, snd x + snd y)"

instance
  by standard (simp_all add: zero_prod_def plus_prod_def ac_simps)

end

lemma plus_pair [simp]: "(a, b) + (c, d) = (a + c, b + d)"
  by (simp add: plus_prod_def)

lemma fst_plus_pair [simp]: "fst (x + y) = fst x + fst y" "snd (x + y) = snd x + snd y"
  by (simp_all add: plus_prod_def)

lemma zero_pair [simp]: "x + (0, 0) = (x :: 'a::comm_monoid_add \<times> 'b::comm_monoid_add)"
  by (simp add: plus_prod_def)

lemma fst_zero_pair [simp]: "fst (0 :: 'a::comm_monoid_add \<times> 'b::comm_monoid_add) = 0"
  "snd (0 :: 'a \<times> 'b) = 0"
  by (simp_all add: zero_prod_def)

lemma sum_list_pair:
  "(\<Sum>x\<leftarrow>xs. (g x, h x) :: 'a::comm_monoid_add \<times> 'b::comm_monoid_add) = (\<Sum>x\<leftarrow>xs. g x, \<Sum>x\<leftarrow>xs. h x)"
  by (induction xs) (simp_all add: zero_prod_def)

function tuples :: "u8 list \<Rightarrow> (u32 \<times> u32 \<times> u32 \<times> u32) list" where
  "tuples bs = (case fread4 bs of None \<Rightarrow> [] | Some (t, rest) \<Rightarrow> t # tuples rest)"
  by pat_completeness auto
termination
  by (relation "measure length") (auto simp: fread4_def split: if_splits)

declare tuples.simps [simp del]

text \<open>Reading back what a tracer on the same host has written.\<close>

lemma fread4_bytes:
  "fread4 (bytes_of_u32 a @ bytes_of_u32 b @ bytes_of_u32 c @ bytes_of_u32 d @ rest) = Some ((a, b, c, d), rest)"
  by (simp add: fread4_def u32_at_def bytes_of_u32_def u32_of_bytes_inverse)

text \<open>The walk level of a tuple: the low four bits of its first word.\<close>

definition level :: "u32 \<times> u32 \<times> u32 \<times> u32 \<Rightarrow> u32" where
  "level t = fst t AND 0xF"

section \<open>The interface of an emulation\<close>

text \<open>
  An emulation of one walk keeps the states well formed and moves a measure \<open>f\<close> of the
  counters by \<open>w\<close> of the level of the walk. A simulation then returns and has moved the measure
  by the sum over the trace.
\<close>

locale emulation =
  fixes emulate :: "u32 \<Rightarrow> u32 \<Rightarrow> u32 \<Rightarrow> u32 \<Rightarrow> sim_state \<Rightarrow> sim_state comp"
    and ok :: "sim_state \<Rightarrow> bool"
    and f :: "sim_state \<Rightarrow> 'm::comm_monoid_add"
    and w :: "u32 \<Rightarrow> 'm"
  assumes emulate_yields: "ok s \<Longrightarrow> yields ok f (emulate l a b c s) (f s + w l)"
    and flush_ok: "ok s \<Longrightarrow> ok (flush_all s)"
    and flush_zero: "f (flush_all s) = 0"
begin

lemma sim_loop_yields:
  "ok s \<Longrightarrow> yields ok f (sim_loop emulate bs s) (f s + (\<Sum>t\<leftarrow>tuples bs. w (level t)))"
proof (induction bs arbitrary: s rule: tuples.induct)
  case (1 bs)
  show ?case
  proof (cases "fread4 bs")
    case None
    then show ?thesis using 1(2) by (simp add: sim_loop.simps [of _ bs] tuples.simps [of bs])
  next
    case (Some r)
    then obtain t0 t1 t2 t3 rest where r: "fread4 bs = Some ((t0, t1, t2, t3), rest)"
      by (cases r) auto
    have "yields ok f (emulate (t0 AND 15) t1 t2 t3 s) (f s + w (t0 AND 15))"
      using 1(2) by (rule emulate_yields)
    then have "yields ok f (comp_bind (emulate (t0 AND 15) t1 t2 t3 s) (sim_loop emulate rest))
        (f s + w (t0 AND 15) + (\<Sum>t\<leftarrow>tuples rest. w (level t)))"
      by (rule yields_bind) (metis 1(1) [OF r refl])
    then show ?thesis using r by (simp add: sim_loop.simps [of _ bs] tuples.simps [of bs] level_def add.assoc)
  qed
qed

lemma sim_file_yields:
  "ok s \<Longrightarrow> yields ok f (sim_file emulate (Some bs) s) (\<Sum>t\<leftarrow>tuples bs. w (level t))"
  using sim_loop_yields [of "flush_all s" bs] flush_ok [of s] flush_zero [of s] by (simp add: sim_file_def)

end

section \<open>Frames of the cache updates\<close>

lemma flush_all_ok [simp]: "ntlb_ok (flush_all s) = ntlb_ok s" "pwc_ok (flush_all s) = pwc_ok s"
  by (simp_all add: flush_all_def INIT_TLB_def Let_def sim_ok_defs)

lemma flush_all_counters [simp]:
  "systs (flush_all s) = 0" "hit (ntlb_cnt (flush_all s)) = 0" "miss (ntlb_cnt (flush_all s)) = 0"
  "hit (ntlb2_cnt (flush_all s)) = 0" "miss (ntlb2_cnt (flush_all s)) = 0"
  "hit (pwc_cnt (flush_all s)) = 0" "miss (pwc_cnt (flush_all s)) = 0"
  "hit (pwc2_cnt (flush_all s)) = 0" "miss (pwc2_cnt (flush_all s)) = 0"
  "hit (pwc3_cnt (flush_all s)) = 0" "miss (pwc3_cnt (flush_all s)) = 0"
  "ntlb2_mem_accs (flush_all s) = 0" "pwc2_mem_accs (flush_all s) = 0"
  "pwc3_mem_accs (flush_all s) = 0" "full_mem_accs (flush_all s) = 0"
  by (simp_all add: flush_all_def INIT_TLB_def Let_def)

lemma branch_ok [simp, frame_simps]:
  "ntlb_ok (ntlb2_hit i s) = ntlb_ok s" "ntlb_ok (ntlb2_refill addr i s) = ntlb_ok s"
  "ntlb_ok (ntlb2_access_desc final s) = ntlb_ok s"
  "ntlb_ok (ntlb_hit i s) = ntlb_ok s" "ntlb_ok (ntlb_refill addr i s) = ntlb_ok s"
  "ntlb_ok (pwc_hit i s) = ntlb_ok s" "ntlb_ok (pwc_refill addr a i s) = ntlb_ok s"
  "pwc_ok (ntlb_hit i s) = pwc_ok s" "pwc_ok (ntlb_refill addr i s) = pwc_ok s"
  "pwc_ok (pwc_hit i s) = pwc_ok s" "pwc_ok (pwc_refill addr a i s) = pwc_ok s"
  "pwc_ok (pwc2_hit i s) = pwc_ok s" "pwc_ok (pwc2_refill addr a i s) = pwc_ok s"
  "pwc_ok (pwc3_hit i s) = pwc_ok s" "pwc_ok (pwc3_refill addr a i s) = pwc_ok s"
  by (simp_all add: ntlb_branch_defs pwc_branch_defs sim_ok_defs ntlb2_access_desc_def)

lemma accs_ok [simp, frame_simps]:
  "pwc_ok (s\<lparr>pwc2_mem_accs := n\<rparr>) = pwc_ok s" "pwc_ok (s\<lparr>pwc3_mem_accs := n\<rparr>) = pwc_ok s"
  "pwc_ok (s\<lparr>full_mem_accs := n\<rparr>) = pwc_ok s" "ntlb_ok (s\<lparr>full_mem_accs := n\<rparr>) = ntlb_ok s"
  by (simp_all add: sim_ok_defs)

lemma level2_level1: "2 < (l :: u32) \<Longrightarrow> 1 < l"
  by (simp add: word_less_nat_alt)

section \<open>Nested TLB only\<close>

definition ntlb2_measure :: "sim_state \<Rightarrow> u64 \<times> u64" where
  "ntlb2_measure s = (ntlb2_mem_accs s - 2 * miss (ntlb2_cnt s), hit (ntlb2_cnt s) + miss (ntlb2_cnt s))"

lemma ntlb2_measure_simps [simp]:
  "ntlb2_measure (ntlb2_hit i s) = ntlb2_measure s + (0, 1)"
  "ntlb2_measure (ntlb2_refill addr i s) = ntlb2_measure s + (0, 1)"
  "ntlb2_measure (ntlb2_access_desc final s) = ntlb2_measure s + (if final then 0 else 1, 0)"
  by (simp_all add: ntlb2_measure_def ntlb_branch_defs ntlb2_access_desc_def algebra_simps)

lemma ntlb_find2_yields:
  assumes "ntlb_ok s"
  obtains h s' where "tlbtrace_ntlb_find2 addr final s = ret (h, s')" and "ntlb_ok s'"
    and "ntlb2_measure s' = ntlb2_measure s + (if final then 0 else 1, 1)"
  using assms
proof (cases rule: nf2.access_cases [of s "(addr, final)"])
  case (hit i)
  with assms show ?thesis
    by (intro that [of True "ntlb2_hit i (ntlb2_access_desc final s)"]) (simp_all add: add.assoc)
next
  case (miss m)
  with assms show ?thesis
    by (intro that [of False "ntlb2_refill addr m (ntlb2_access_desc final s)"]) (simp_all add: add.assoc)
qed

definition ntlb2_weight :: "u32 \<Rightarrow> u64 \<times> u64" where
  "ntlb2_weight l = (if 1 < l then 2 else 1, if 2 < l then 3 else if 1 < l then 2 else 1)"

lemma emulate_ntlb2_yields:
  assumes "ntlb_ok s"
  shows "yields ntlb_ok ntlb2_measure (emulate_ntlb2 l a b c s) (ntlb2_measure s + ntlb2_weight l)"
proof -
  obtain h1 s1 where 1: "tlbtrace_ntlb_find2 (a AND 0xFFFFF000) False s = ret (h1, s1)" "ntlb_ok s1"
    "ntlb2_measure s1 = ntlb2_measure s + (1, 1)"
    using ntlb_find2_yields [OF assms, of "a AND 0xFFFFF000" False] by auto
  obtain h2 s2 where 2: "tlbtrace_ntlb_find2 (b AND 0xFFFFF000) False s1 = ret (h2, s2)" "ntlb_ok s2"
    "ntlb2_measure s2 = ntlb2_measure s1 + (1, 1)"
    using ntlb_find2_yields [OF 1(2), of "b AND 0xFFFFF000" False] by auto
  obtain h3 s3 where 3: "tlbtrace_ntlb_find2 c True s2 = ret (h3, s3)" "ntlb_ok s3"
    "ntlb2_measure s3 = ntlb2_measure s2 + (0, 1)"
    using ntlb_find2_yields [OF 2(2), of c True] by auto
  from 1 2 3 level2_level1 [of l] show ?thesis
    by (cases "2 < l"; cases "1 < l") (simp_all add: emulate_ntlb2_def ntlb2_weight_def add.assoc)
qed

interpretation en2: emulation emulate_ntlb2 ntlb_ok ntlb2_measure ntlb2_weight
  by unfold_locales (simp_all only: emulate_ntlb2_yields flush_all_ok, simp add: ntlb2_measure_def zero_prod_def)

section \<open>Page-walk cache with the extended page table\<close>

definition pwc2_measure :: "sim_state \<Rightarrow> u64 \<times> u64" where
  "pwc2_measure s = (pwc2_mem_accs s - miss (pwc2_cnt s), systs s - hit (pwc2_cnt s) - miss (pwc2_cnt s))"

lemma pwc2_measure_simps [simp]:
  "pwc2_measure (pwc2_hit i s) = pwc2_measure s"
  "pwc2_measure (pwc2_refill addr a i s) = pwc2_measure s + (- 1, 0)"
  "pwc2_measure (s\<lparr>pwc2_mem_accs := pwc2_mem_accs s + 1\<rparr>) = pwc2_measure s + (1, 0)"
  by (simp_all add: pwc2_measure_def pwc_branch_defs algebra_simps)

lemma refppa_pwc2_yields:
  assumes "pwc_ok s"
  obtains h s' where "tlbtrace_refppa_pwc2 addr a s = ret (h, s')" and "pwc_ok s'"
    and "pwc2_measure s' = pwc2_measure s + (if h then 0 else - 1, 0)"
  using assms
proof (cases rule: pr2.access_cases [of s "(addr, a)"])
  case (hit i)
  with assms show ?thesis by (intro that [of True "pwc2_hit i s"]) simp_all
next
  case (miss m)
  with assms show ?thesis by (intro that [of False "pwc2_refill addr a m s"]) simp_all
qed

lemma ref_pwc2_yields [intro]:
  assumes "pwc_ok s" and "pwc2_measure s = v"
  shows "yields pwc_ok pwc2_measure (ref_pwc2 addr a s) v"
proof -
  obtain h s' where "tlbtrace_refppa_pwc2 addr a s = ret (h, s')" "pwc_ok s'"
    "pwc2_measure s' = pwc2_measure s + (if h then 0 else - 1, 0)"
    using refppa_pwc2_yields [OF assms(1)] by blast
  then show ?thesis using assms(2) by (simp add: ref_pwc2_def add.assoc)
qed

lemma ept_walk_pwc2_yields [intro]:
  assumes "pwc_ok s" and "pwc2_measure s = v"
  shows "yields pwc_ok pwc2_measure (ept_walk_pwc2 gpa s) v"
  unfolding ept_walk_pwc2_def using assms by (intro yields_bind [where v = v] ref_pwc2_yields)

lemma guest_ref_pwc2_yields [intro]:
  assumes "pwc_ok s" and "pwc2_measure s = v"
  shows "yields pwc_ok pwc2_measure (guest_ref_pwc2 gpa s) v"
proof -
  obtain h s1 where 1: "tlbtrace_refppa_pwc2 gpa 1 s = ret (h, s1)" "pwc_ok s1"
    "pwc2_measure s1 = v + (if h then 0 else - 1, 0)"
    using refppa_pwc2_yields [OF assms(1)] assms(2) by blast
  obtain s2 where 2: "ept_walk_pwc2 gpa s1 = ret s2" "pwc_ok s2" "pwc2_measure s2 = pwc2_measure s1"
    using ept_walk_pwc2_yields [OF 1(2) refl] by (rule yieldsE)
  from 1 2 show ?thesis by (simp add: guest_ref_pwc2_def add.assoc)
qed

lemma emulate_pwc2_yields:
  assumes "pwc_ok s"
  shows "yields pwc_ok pwc2_measure (emulate_pwc2 l a b c s) (pwc2_measure s + 0)"
  unfolding emulate_pwc2_def add_0_right
  using assms by (intro yields_bind [where v = "pwc2_measure s"]) auto

interpretation ep2: emulation emulate_pwc2 pwc_ok pwc2_measure "\<lambda>_. 0"
  by unfold_locales (simp_all only: emulate_pwc2_yields flush_all_ok, simp add: pwc2_measure_def zero_prod_def)

section \<open>Page-walk cache without the extended page table\<close>

definition pwc3_measure :: "sim_state \<Rightarrow> u64 \<times> u64" where
  "pwc3_measure s = (pwc3_mem_accs s - miss (pwc3_cnt s), hit (pwc3_cnt s) + miss (pwc3_cnt s))"

lemma pwc3_measure_simps [simp]:
  "pwc3_measure (pwc3_hit i s) = pwc3_measure s + (0, 1)"
  "pwc3_measure (pwc3_refill addr a i s) = pwc3_measure s + (- 1, 1)"
  "pwc3_measure (s\<lparr>pwc3_mem_accs := pwc3_mem_accs s + 1\<rparr>) = pwc3_measure s + (1, 0)"
  by (simp_all add: pwc3_measure_def pwc_branch_defs algebra_simps)

lemma guest_ref_pwc3_yields:
  assumes "pwc_ok s"
  shows "yields pwc_ok pwc3_measure (guest_ref_pwc3 gpa s) (pwc3_measure s + (0, 1))"
  using assms
proof (cases rule: pr3.access_cases [of s "(gpa, 1)"])
  case (hit i)
  with assms show ?thesis by (simp add: guest_ref_pwc3_def)
next
  case (miss m)
  with assms show ?thesis by (simp add: guest_ref_pwc3_def add.assoc)
qed

definition pwc3_weight :: "u32 \<Rightarrow> u64 \<times> u64" where
  "pwc3_weight l = (0, if 1 < l then 2 else 1)"

lemma emulate_pwc3_yields:
  assumes "pwc_ok s"
  shows "yields pwc_ok pwc3_measure (emulate_pwc3 l a b c s) (pwc3_measure s + pwc3_weight l)"
proof -
  obtain s1 where 1: "guest_ref_pwc3 a s = ret s1" "pwc_ok s1" "pwc3_measure s1 = pwc3_measure s + (0, 1)"
    using guest_ref_pwc3_yields [OF assms] by (rule yieldsE)
  from 1 guest_ref_pwc3_yields [OF 1(2), of b] show ?thesis
    by (simp add: emulate_pwc3_def pwc3_weight_def add.assoc)
qed

interpretation ep3: emulation emulate_pwc3 pwc_ok pwc3_measure pwc3_weight
  by unfold_locales (simp_all only: emulate_pwc3_yields flush_all_ok, simp add: pwc3_measure_def zero_prod_def)

section \<open>Nested TLB and page-walk cache\<close>

text \<open>
  Memory is accessed exactly on the misses of the page-walk cache; it is looked up once for
  each guest table and twice for each miss of the nested TLB.
\<close>

definition full_ok :: "sim_state \<Rightarrow> bool" where
  "full_ok s \<longleftrightarrow> ntlb_ok s \<and> pwc_ok s"

definition full_measure :: "sim_state \<Rightarrow> u64 \<times> u64" where
  "full_measure s = (full_mem_accs s - miss (pwc_cnt s),
     hit (pwc_cnt s) + miss (pwc_cnt s) - 2 * miss (ntlb_cnt s))"

lemma full_measure_simps [simp]:
  "full_measure (pwc_hit i s) = full_measure s + (0, 1)"
  "full_measure (pwc_refill addr a i s) = full_measure s + (- 1, 1)"
  "full_measure (ntlb_hit i s) = full_measure s"
  "full_measure (ntlb_refill addr i s) = full_measure s + (0, - 2)"
  "full_measure (s\<lparr>full_mem_accs := full_mem_accs s + 1\<rparr>) = full_measure s + (1, 0)"
  by (simp_all add: full_measure_def pwc_branch_defs ntlb_branch_defs algebra_simps)

lemma full_ok_simps [simp]:
  "full_ok (pwc_hit i s) = full_ok s" "full_ok (pwc_refill addr a i s) = full_ok s"
  "full_ok (ntlb_hit i s) = full_ok s" "full_ok (ntlb_refill addr i s) = full_ok s"
  "full_ok (s\<lparr>full_mem_accs := n\<rparr>) = full_ok s" "full_ok (flush_all s) = full_ok s"
  by (simp_all add: full_ok_def)

lemma refppa_pwc_yields:
  assumes "full_ok s"
  obtains h s' where "tlbtrace_refppa_pwc addr a s = ret (h, s')" and "full_ok s'"
    and "full_measure s' = full_measure s + (if h then 0 else - 1, 1)"
proof -
  have "pwc_ok s" using assms by (simp add: full_ok_def)
  then show thesis
  proof (cases rule: pr.access_cases [of s "(addr, a)"])
    case (hit i)
    with assms show ?thesis by (intro that [of True "pwc_hit i s"]) simp_all
  next
    case (miss m)
    with assms show ?thesis by (intro that [of False "pwc_refill addr a m s"]) simp_all
  qed
qed

lemma ref_pwc_yields:
  assumes "full_ok s"
  shows "yields full_ok full_measure (ref_pwc addr a s) (full_measure s + (0, 1))"
proof -
  obtain h s' where "tlbtrace_refppa_pwc addr a s = ret (h, s')" "full_ok s'"
    "full_measure s' = full_measure s + (if h then 0 else - 1, 1)"
    using refppa_pwc_yields [OF assms] by blast
  then show ?thesis by (simp add: ref_pwc_def add.assoc)
qed

lemma nested_walk_full_yields:
  assumes "full_ok s"
  shows "yields full_ok full_measure (nested_walk_full addr gpa s) (full_measure s)"
proof -
  have "ntlb_ok s" using assms by (simp add: full_ok_def)
  then show ?thesis
  proof (cases rule: nf.access_cases [of s addr])
    case (hit i)
    with assms show ?thesis by (simp add: nested_walk_full_def)
  next
    case (miss m)
    let ?s1 = "ntlb_refill addr m s"
    obtain s2 where 2: "ref_pwc (ept_l1_mpa gpa) 0 ?s1 = ret s2" "full_ok s2"
      "full_measure s2 = full_measure ?s1 + (0, 1)"
      using ref_pwc_yields [of ?s1] assms full_ok_simps(4) by (blast elim: yieldsE)
    with miss ref_pwc_yields [OF 2(2), of "ept_l2_mpa gpa" 0] show ?thesis
      by (simp add: nested_walk_full_def add.assoc zero_prod_def [symmetric])
  qed
qed

lemma guest_ref_full_yields:
  assumes "full_ok s"
  shows "yields full_ok full_measure (guest_ref_full gpa s) (full_measure s + (0, 1))"
proof -
  obtain h s1 where 1: "tlbtrace_refppa_pwc gpa 1 s = ret (h, s1)" "full_ok s1"
    "full_measure s1 = full_measure s + (if h then 0 else - 1, 1)"
    using refppa_pwc_yields [OF assms] by blast
  obtain s2 where 2: "nested_walk_full (gpa AND 0xFFFFF000) gpa s1 = ret s2" "full_ok s2"
    "full_measure s2 = full_measure s1"
    using nested_walk_full_yields [OF 1(2)] by (rule yieldsE)
  from 1 2 show ?thesis by (simp add: guest_ref_full_def add.assoc)
qed

lemma emulate_full_yields:
  assumes "full_ok s"
  shows "yields full_ok full_measure (emulate_full l a b c s) (full_measure s + pwc3_weight l)"
proof -
  obtain s1 where 1: "guest_ref_full a s = ret s1" "full_ok s1" "full_measure s1 = full_measure s + (0, 1)"
    using guest_ref_full_yields [OF assms] by (rule yieldsE)
  obtain s2 where 2: "guest_ref_full b s1 = ret s2" "full_ok s2" "full_measure s2 = full_measure s1 + (0, 1)"
    using guest_ref_full_yields [OF 1(2)] by (rule yieldsE)
  from 1 2 level2_level1 [of l] nested_walk_full_yields [OF 2(2), of c c] show ?thesis
    by (simp add: emulate_full_def pwc3_weight_def add.assoc)
qed

interpretation ef: emulation emulate_full full_ok full_measure pwc3_weight
  by unfold_locales (simp_all only: emulate_full_yields full_ok_simps, simp add: full_measure_def zero_prod_def)

section \<open>Geometry\<close>

lemma set_ntlb_geometry_ok:
  assumes "arrays_ok s" and "0 < way" and "way \<le> n" and "n \<le> 512"
  shows "set_ntlb_geometry n way s = ret (s\<lparr>TLB_MAX_ENTRIES_NTLB := n,
           TLB_WAYSTEP_NTLB := n div way, TLB_WAYMASK_NTLB := n div way - 1\<rparr>)"
    and "ntlb_ok (s\<lparr>TLB_MAX_ENTRIES_NTLB := n,
           TLB_WAYSTEP_NTLB := n div way, TLB_WAYMASK_NTLB := n div way - 1\<rparr>)"
proof -
  have d: "0 < n div way" "n div way \<le> 512"
    using assms by (auto simp: pos_imp_zdiv_pos_iff int_div_less_self) (smt (verit) zdiv_mono2 div_by_1)
  show "set_ntlb_geometry n way s = ret (s\<lparr>TLB_MAX_ENTRIES_NTLB := n,
      TLB_WAYSTEP_NTLB := n div way, TLB_WAYMASK_NTLB := n div way - 1\<rparr>)"
    using assms d by (simp add: set_ntlb_geometry_def c_div_pos)
  show "ntlb_ok (s\<lparr>TLB_MAX_ENTRIES_NTLB := n,
      TLB_WAYSTEP_NTLB := n div way, TLB_WAYMASK_NTLB := n div way - 1\<rparr>)"
    using assms d by (simp add: ntlb_ok_def arrays_ok_def CACHE_MAX_ENTRIES_def)
qed

lemma set_pwc_geometry_ok:
  assumes "arrays_ok s" and "0 < way" and "way \<le> n" and "n \<le> 512"
  shows "set_pwc_geometry n way s = ret (s\<lparr>TLB_MAX_ENTRIES_PWC := n,
           TLB_WAYSTEP_PWC := n div way, TLB_WAYMASK_PWC := n div way - 1\<rparr>)"
    and "pwc_ok (s\<lparr>TLB_MAX_ENTRIES_PWC := n,
           TLB_WAYSTEP_PWC := n div way, TLB_WAYMASK_PWC := n div way - 1\<rparr>)"
proof -
  have d: "0 < n div way" "n div way \<le> 512"
    using assms by (auto simp: pos_imp_zdiv_pos_iff int_div_less_self) (smt (verit) zdiv_mono2 div_by_1)
  show "set_pwc_geometry n way s = ret (s\<lparr>TLB_MAX_ENTRIES_PWC := n,
      TLB_WAYSTEP_PWC := n div way, TLB_WAYMASK_PWC := n div way - 1\<rparr>)"
    using assms d by (simp add: set_pwc_geometry_def c_div_pos)
  show "pwc_ok (s\<lparr>TLB_MAX_ENTRIES_PWC := n,
      TLB_WAYSTEP_PWC := n div way, TLB_WAYMASK_PWC := n div way - 1\<rparr>)"
    using assms d by (simp add: pwc_ok_def arrays_ok_def CACHE_MAX_ENTRIES_def)
qed

section \<open>The reported numbers\<close>

text \<open>The state the program starts in: zero-initialised globals.\<close>

definition zero_entry :: TLB_ENTRY where
  "zero_entry = \<lparr>va = 0, pa = 0, asid = 0, ts = 0\<rparr>"

definition zero_sim_state :: sim_state where
  "zero_sim_state = \<lparr>systs = 0, TLB_WAYMASK_NTLB = 0, TLB_MAX_ENTRIES_NTLB = 0, TLB_WAYSTEP_NTLB = 0,
     TLB_WAYMASK_PWC = 0, TLB_MAX_ENTRIES_PWC = 0, TLB_WAYSTEP_PWC = 0,
     ntlb_tlb = replicate 512 zero_entry, ntlb2_tlb = replicate 512 zero_entry,
     pwc_tlb = replicate 512 zero_entry, pwc2_tlb = replicate 512 zero_entry,
     pwc3_tlb = replicate 512 zero_entry,
     ntlb_cnt = zero_counter, ntlb2_cnt = zero_counter, pwc_cnt = zero_counter,
     pwc2_cnt = zero_counter, pwc3_cnt = zero_counter,
     ntlb2_mem_accs = 0, pwc2_mem_accs = 0, pwc3_mem_accs = 0, full_mem_accs = 0\<rparr>"

lemma zero_sim_state_ok [simp]: "arrays_ok zero_sim_state"
  by (simp add: arrays_ok_def zero_sim_state_def CACHE_MAX_ENTRIES_def)

lemma sim_ntlb_pwc_run:
  assumes "arrays_ok s" and "fs f = Some bs"
    and "0 < nway" and "nway \<le> nsize" and "nsize \<le> 512"
    and "0 < pway" and "pway \<le> psize" and "psize \<le> 512"
  shows "\<exists>r s'. tlbsim_sim_ntlb_pwc fs f nsize nway psize pway result s = ret (r, s') \<and> arrays_ok s' \<and>
    accs r = miss (pwc r) \<and>
    hit (pwc r) + miss (pwc r) =
      (\<Sum>t\<leftarrow>tuples bs. if 1 < level t then 2 else 1) + 2 * miss (ntlb r)"
proof -
  let ?s1 = "s\<lparr>TLB_MAX_ENTRIES_NTLB := nsize, TLB_WAYSTEP_NTLB := nsize div nway,
    TLB_WAYMASK_NTLB := nsize div nway - 1\<rparr>"
  let ?s2 = "?s1\<lparr>TLB_MAX_ENTRIES_PWC := psize, TLB_WAYSTEP_PWC := psize div pway,
    TLB_WAYMASK_PWC := psize div pway - 1\<rparr>"
  have 1: "set_ntlb_geometry nsize nway s = ret ?s1" "ntlb_ok ?s1"
    using set_ntlb_geometry_ok assms by blast+
  then have 2: "set_pwc_geometry psize pway ?s1 = ret ?s2" "pwc_ok ?s2"
    using set_pwc_geometry_ok [of ?s1] assms by (simp_all add: ntlb_ok_def)
  have "full_ok ?s2" using 1(2) 2(2) by (simp add: full_ok_def ntlb_ok_def arrays_ok_def)
  from ef.sim_file_yields [OF this, of bs] obtain s3 where
    3: "sim_file emulate_full (Some bs) ?s2 = ret s3" "full_ok s3"
      "full_measure s3 = (\<Sum>t\<leftarrow>tuples bs. pwc3_weight (level t))" by (rule yieldsE)
  with 1 2 assms(2) show ?thesis
    by (simp add: tlbsim_sim_ntlb_pwc_def full_measure_def pwc3_weight_def sum_list_pair
        full_ok_def ntlb_ok_def algebra_simps)
qed

text \<open>
  C1. For every trace file and every cache geometry with \<open>0 < way \<le> size \<le> 512\<close>, the
  simulation of the nested TLB and page-walk cache returns. The number of memory accesses it reports equals
  the number of misses of the page-walk cache, and the page-walk cache was looked up once per guest
  table of the trace and twice per miss of the nested TLB.
\<close>

theorem sim_ntlb_pwc_accounting:
  assumes "arrays_ok s" and "fs f = Some bs"
    and "0 < nway" and "nway \<le> nsize" and "nsize \<le> 512"
    and "0 < pway" and "pway \<le> psize" and "psize \<le> 512"
  shows "\<exists>r s'. tlbsim_sim_ntlb_pwc fs f nsize nway psize pway result s = ret (r, s') \<and> arrays_ok s' \<and>
    accs r = miss (pwc r) \<and>
    hit (pwc r) + miss (pwc r) =
      (\<Sum>t\<leftarrow>tuples bs. if 1 < level t then 2 else 1) + 2 * miss (ntlb r)"
  using assms by (rule sim_ntlb_pwc_run)

definition one_walk :: "u8 list" where
  "one_walk = bytes_of_u32 3 @ bytes_of_u32 0x4000 @ bytes_of_u32 0x8000 @ bytes_of_u32 0x9000"

theorem sim_ntlb_pwc_accounting_witness:
  "\<exists>r s'. tlbsim_sim_ntlb_pwc (\<lambda>_. Some one_walk) ''t'' 16 4 32 8 zero_result zero_sim_state = ret (r, s') \<and>
    arrays_ok s' \<and> accs r = miss (pwc r) \<and>
    hit (pwc r) + miss (pwc r) =
      (\<Sum>t\<leftarrow>tuples one_walk. if 1 < level t then 2 else 1) + 2 * miss (ntlb r)"
  by (rule sim_ntlb_pwc_accounting) simp_all

text \<open>
  The simulation of the nested TLB alone returns on every trace file. It reports one memory
  access per guest table of the trace and two per miss, and it looked the cache up once per
  guest table and once more for every complete walk.
\<close>

theorem sim_ntlb_accounting:
  assumes "arrays_ok s" and "fs f = Some bs" and "0 < nway" and "nway \<le> nsize" and "nsize \<le> 512"
  shows "\<exists>r s'. tlbsim_sim_ntlb fs f nsize nway psize pway result s = ret (r, s') \<and> arrays_ok s' \<and>
    accs r = (\<Sum>t\<leftarrow>tuples bs. if 1 < level t then 2 else 1) + 2 * miss (ntlb r) \<and>
    hit (ntlb r) + miss (ntlb r) =
      (\<Sum>t\<leftarrow>tuples bs. if 2 < level t then 3 else if 1 < level t then 2 else 1)"
proof -
  let ?s1 = "s\<lparr>TLB_MAX_ENTRIES_NTLB := nsize, TLB_WAYSTEP_NTLB := nsize div nway,
    TLB_WAYMASK_NTLB := nsize div nway - 1\<rparr>"
  have 1: "set_ntlb_geometry nsize nway s = ret ?s1" "ntlb_ok ?s1"
    using set_ntlb_geometry_ok assms by blast+
  from en2.sim_file_yields [OF 1(2), of bs] obtain s2 where
    2: "sim_file emulate_ntlb2 (Some bs) ?s1 = ret s2" "ntlb_ok s2"
      "ntlb2_measure s2 = (\<Sum>t\<leftarrow>tuples bs. ntlb2_weight (level t))" by (rule yieldsE)
  with 1 assms(2) show ?thesis
    by (simp add: tlbsim_sim_ntlb_def ntlb2_measure_def ntlb2_weight_def sum_list_pair
        ntlb_ok_def algebra_simps)
qed

theorem sim_ntlb_accounting_witness:
  "\<exists>r s'. tlbsim_sim_ntlb (\<lambda>_. Some one_walk) ''t'' 16 4 0 0 zero_result zero_sim_state = ret (r, s') \<and>
    arrays_ok s' \<and>
    accs r = (\<Sum>t\<leftarrow>tuples one_walk. if 1 < level t then 2 else 1) + 2 * miss (ntlb r) \<and>
    hit (ntlb r) + miss (ntlb r) =
      (\<Sum>t\<leftarrow>tuples one_walk. if 2 < level t then 3 else if 1 < level t then 2 else 1)"
  by (rule sim_ntlb_accounting) simp_all

text \<open>
  The two simulations of a page-walk cache alone return on every trace file, and each reports
  as many memory accesses as it has misses. Without the extended page table the cache is looked
  up once per guest table of the trace.
\<close>

theorem sim_pwc_accounting:
  assumes "arrays_ok s" and "fs f = Some bs" and "0 < pway" and "pway \<le> psize" and "psize \<le> 512"
  shows "\<exists>r s' r3 s3. tlbsim_sim_pwc_ept fs f nsize nway psize pway result s = ret (r, s') \<and> arrays_ok s' \<and>
    accs r = miss (pwc r) \<and>
    tlbsim_sim_pwc_noept fs f nsize nway psize pway result s = ret (r3, s3) \<and> arrays_ok s3 \<and>
    accs r3 = miss (pwc r3) \<and>
    hit (pwc r3) + miss (pwc r3) = (\<Sum>t\<leftarrow>tuples bs. if 1 < level t then 2 else 1)"
proof -
  let ?s1 = "s\<lparr>TLB_MAX_ENTRIES_PWC := psize, TLB_WAYSTEP_PWC := psize div pway,
    TLB_WAYMASK_PWC := psize div pway - 1\<rparr>"
  have 1: "set_pwc_geometry psize pway s = ret ?s1" "pwc_ok ?s1"
    using set_pwc_geometry_ok assms by blast+
  from ep2.sim_file_yields [OF 1(2), of bs] obtain s2 where
    2: "sim_file emulate_pwc2 (Some bs) ?s1 = ret s2" "pwc_ok s2" "pwc2_measure s2 = (\<Sum>t\<leftarrow>tuples bs. 0)"
    by (rule yieldsE)
  from ep3.sim_file_yields [OF 1(2), of bs] obtain s3 where
    3: "sim_file emulate_pwc3 (Some bs) ?s1 = ret s3" "pwc_ok s3"
      "pwc3_measure s3 = (\<Sum>t\<leftarrow>tuples bs. pwc3_weight (level t))" by (rule yieldsE)
  from 1 2 3 assms(2) show ?thesis
    by (simp add: tlbsim_sim_pwc_ept_def tlbsim_sim_pwc_noept_def pwc2_measure_def pwc3_measure_def
        pwc3_weight_def sum_list_pair pwc_ok_def zero_prod_def algebra_simps)
qed

theorem sim_pwc_accounting_witness:
  "\<exists>r s' r3 s3. tlbsim_sim_pwc_ept (\<lambda>_. Some one_walk) ''t'' 0 0 64 4 zero_result zero_sim_state = ret (r, s') \<and>
    arrays_ok s' \<and> accs r = miss (pwc r) \<and>
    tlbsim_sim_pwc_noept (\<lambda>_. Some one_walk) ''t'' 0 0 64 4 zero_result zero_sim_state = ret (r3, s3) \<and>
    arrays_ok s3 \<and> accs r3 = miss (pwc r3) \<and>
    hit (pwc r3) + miss (pwc r3) = (\<Sum>t\<leftarrow>tuples one_walk. if 1 < level t then 2 else 1)"
  by (rule sim_pwc_accounting) simp_all

end
