(* ===== verification/Sim_Lru.thy ===== *)
theory Sim_Lru
  imports Sim_Accounting "HOL-Library.Multiset"
begin

text \<open>
  The cache functions of the simulator against the abstract specification of a cache: a fully
  associative cache implements a list of keys in order of use, as long as the time
  stamps have not wrapped, and a set-associative one repeats a miss when its victim search leaves the set.
\<close>

section \<open>The abstract cache\<close>

text \<open>
  At most \<open>n\<close> keys, the most recently used first. An access tells whether the key was there and
  moves it to the front; the last key falls out when there are too many.
\<close>

definition lru_access :: "nat \<Rightarrow> 'k \<Rightarrow> 'k list \<Rightarrow> bool \<times> 'k list" where
  "lru_access n k ks = (k \<in> set ks, take n (k # removeAll k ks))"

definition used :: "TLB_ENTRY list \<Rightarrow> TLB_ENTRY list" where
  "used es = filter (\<lambda>e. ts e \<noteq> 0) es"

text \<open>The keys in an array of entries, youngest first; entries never filled since the flush have time stamp 0.\<close>

definition lru_keys :: "(TLB_ENTRY \<Rightarrow> 'k) \<Rightarrow> TLB_ENTRY list \<Rightarrow> 'k list" where
  "lru_keys key es = map key (rev (sort_key ts (used es)))"

definition stamped :: "(TLB_ENTRY \<Rightarrow> 'k) \<Rightarrow> 'k \<Rightarrow> u64 \<Rightarrow> TLB_ENTRY list \<Rightarrow> bool" where
  "stamped key null t es \<longleftrightarrow>
     (\<forall>e\<in>set es. unat (ts e) \<le> unat t) \<and> (\<forall>e\<in>set es. ts e = 0 \<longrightarrow> key e = null) \<and>
     distinct (map ts (used es)) \<and> distinct (map key (used es))"

fun lru_run :: "nat \<Rightarrow> 'k list \<Rightarrow> 'k list \<Rightarrow> bool list \<times> 'k list" where
  "lru_run n [] ks = ([], ks)"
| "lru_run n (k # qs) ks =
     (let (h, ks1) = lru_access n k ks; (hs, ks2) = lru_run n qs ks1 in (h # hs, ks2))"

text \<open>A sequence of lookups in the code, with their results.\<close>

fun run_lookups :: "('k \<Rightarrow> 's \<Rightarrow> (bool \<times> 's) comp) \<Rightarrow> 'k list \<Rightarrow> 's \<Rightarrow> (bool list \<times> 's) comp" where
  "run_lookups access [] s = ret ([], s)"
| "run_lookups access (k # qs) s =
     comp_bind (access k s) (\<lambda>(h, s1).
     comp_bind (run_lookups access qs s1) (\<lambda>(hs, s2). ret (h # hs, s2)))"

section \<open>Replacing one entry\<close>

lemma set_used: "set (used es) = {e \<in> set es. ts e \<noteq> 0}"
  by (auto simp: used_def)

lemma used_update:
  assumes "i < length es" and "ts e' \<noteq> 0"
  shows "mset (used (es[i := e'])) = add_mset e' (mset (used es) - {#es ! i#})"
proof -
  have "{#e \<in># mset es - {#es ! i#}. ts e \<noteq> 0#} = {#e \<in># mset es. ts e \<noteq> 0#} - {#es ! i#}"
    using assms(1) by (auto simp: filter_diff_mset diff_single_trivial)
  then show ?thesis using assms by (simp add: used_def mset_filter mset_update)
qed

lemma distinct_map_inj_on: "distinct (map f xs) \<Longrightarrow> inj_on f (set xs)"
  by (simp add: distinct_map)

lemma sort_used_update:
  assumes "i < length es" and "distinct (map ts (used es))" and "\<forall>e\<in>set es. ts e < ts e'"
  shows "sort_key ts (used (es[i := e'])) = remove1 (es ! i) (sort_key ts (used es)) @ [e']"
proof (rule sort_key_inj_key_eq)
  let ?L = "remove1 (es ! i) (sort_key ts (used es))"
  have nz: "ts e' \<noteq> 0" using assms(1,3) by (metis nth_mem word_not_simps(1))
  show "mset (used (es[i := e'])) = mset (?L @ [e'])"
    using used_update [OF assms(1) nz] by simp
  have sub: "set ?L \<subseteq> set (used es)" using set_remove1_subset by fastforce
  have lt: "\<forall>e\<in>set ?L. ts e < ts e'" using sub assms(3) by (auto simp: set_used)
  have "sorted (map ts ?L)"
    by (metis sorted_map_remove1 sorted_sort_key)
  with lt show "sorted (map ts (?L @ [e']))" by (auto simp: sorted_append intro: less_imp_le)
  have eq: "set (used (es[i := e'])) = insert e' (set ?L)"
    using used_update [OF assms(1) nz] by (metis mset_remove1 mset_sort set_mset_add_mset_insert set_mset_mset)
  have "inj_on ts (set ?L)"
    using sub distinct_map_inj_on [OF assms(2)] by (rule inj_on_subset [rotated])
  with lt show "inj_on ts (set (used (es[i := e'])))"
    unfolding eq by (auto simp: inj_on_insert)
qed

lemma map_remove1_key:
  assumes "distinct (map key xs)" and "x \<in> set xs"
  shows "map key (remove1 x xs) = removeAll (key x) (map key xs)"
  using assms
proof (induction xs)
  case (Cons a xs)
  show ?case
  proof (cases "x = a")
    case True
    with Cons.prems show ?thesis by (auto simp: removeAll_id)
  next
    case False
    with Cons.prems have "key x \<noteq> key a" by (metis distinct.simps(2) image_eqI list.map(2) list.set_map set_ConsD)
    with False Cons show ?thesis by simp
  qed
qed simp

lemma distinct_map_sort_key: "distinct (map f (sort_key g xs)) \<longleftrightarrow> distinct (map f xs)"
  by (metis mset_eq_imp_distinct_iff mset_map mset_sort)

lemma lru_keys_update:
  assumes "i < length es" and "distinct (map ts (used es))" and "\<forall>e\<in>set es. ts e < ts e'"
  shows "lru_keys key (es[i := e']) = key e' # rev (map key (remove1 (es ! i) (sort_key ts (used es))))"
  using sort_used_update [OF assms] by (simp add: lru_keys_def rev_map)

lemma lru_keys_touch:
  assumes "i < length es" and "stamped key null t es" and "\<forall>e\<in>set es. ts e < ts e'"
    and "ts (es ! i) \<noteq> 0" and "key e' = key (es ! i)"
  shows "lru_keys key (es[i := e']) = key e' # removeAll (key e') (lru_keys key es)"
proof -
  have d: "distinct (map ts (used es))" "distinct (map key (sort_key ts (used es)))"
    using assms(2) by (auto simp: stamped_def distinct_map_sort_key)
  have "es ! i \<in> set (sort_key ts (used es))" using assms(1,4) by (simp add: set_used)
  from map_remove1_key [OF d(2) this] lru_keys_update [OF assms(1) d(1) assms(3), of key] show ?thesis
    using assms(5) by (simp add: lru_keys_def rev_map removeAll_filter_not_eq rev_filter)
qed

lemma remove1_Min:
  assumes "sorted (map f xs)" and "distinct (map f xs)" and "x \<in> set xs" and "\<forall>y\<in>set xs. f x \<le> f y"
  shows "remove1 x xs = tl xs"
proof (cases xs)
  case (Cons a ys)
  have "f x = f a" using assms Cons by (auto intro: antisym)
  then have "x = a" using assms(2,3) Cons by (metis distinct.simps(2) image_eqI list.map(2) list.set_map set_ConsD)
  then show ?thesis using Cons by simp
qed simp

lemma lru_keys_fill:
  assumes i: "i < length es" and st: "stamped key null t es" and lt: "\<forall>e\<in>set es. ts e < ts e'"
    and min: "\<forall>e\<in>set es. ts (es ! i) \<le> ts e"
  shows "lru_keys key (es[i := e']) = take (length es) (key e' # lru_keys key es)"
proof -
  let ?L = "sort_key ts (used es)"
  have d: "distinct (map ts (used es))" using st by (simp add: stamped_def)
  have len: "length (lru_keys key es) = length (used es)" by (simp add: lru_keys_def)
  note upd = lru_keys_update [OF i d lt, of key]
  show ?thesis
  proof (cases "ts (es ! i) = 0")
    case True
    then have "es ! i \<notin> set ?L" by (simp add: set_used)
    moreover have "length (used es) < length es"
      unfolding used_def using length_filter_less [of "es ! i" es "\<lambda>e. ts e \<noteq> 0"] True i by simp
    moreover have "lru_keys key (es[i := e']) = key e' # lru_keys key es"
      unfolding upd remove1_idem [OF calculation(1)] by (simp add: lru_keys_def rev_map)
    ultimately show ?thesis using len by simp
  next
    case False
    then have "\<forall>e\<in>set es. ts e \<noteq> 0" using min by fastforce
    then have u: "used es = es" by (simp add: used_def filter_id_conv)
    then have "remove1 (es ! i) ?L = tl ?L"
      using d i min by (intro remove1_Min) (simp_all add: distinct_map_sort_key)
    then have "lru_keys key (es[i := e']) = key e' # butlast (lru_keys key es)"
      using upd by (simp add: lru_keys_def butlast_rev flip: map_tl map_butlast rev_map)
    moreover have "butlast (lru_keys key es) = take (length es - 1) (lru_keys key es)"
      using len u by (simp add: butlast_conv_take)
    ultimately show ?thesis using i by (cases "length es") simp_all
  qed
qed

lemma stamped_update:
  assumes i: "i < length es" and st: "stamped key null t es" and lt: "\<forall>e\<in>set es. ts e < ts e'"
    and t': "unat t \<le> unat t'" "unat (ts e') \<le> unat t'"
    and new: "key e' \<notin> set (map key (remove1 (es ! i) (sort_key ts (used es))))"
  shows "stamped key null t' (es[i := e'])"
proof -
  have d: "distinct (map ts (used es))" "distinct (map key (used es))" using st by (simp_all add: stamped_def)
  have nz: "ts e' \<noteq> 0" using i lt by (metis nth_mem word_not_simps(1))
  note eq = sort_used_update [OF i d(1) lt]
  have sub: "set (remove1 (es ! i) (sort_key ts (used es))) \<subseteq> set es"
    using set_remove1_subset [of "es ! i" "sort_key ts (used es)"] by (auto simp: set_used)
  have dr: "distinct (map f (remove1 (es ! i) (sort_key ts (used es))))" if "distinct (map f (used es))" for f :: "TLB_ENTRY \<Rightarrow> 'x"
    using that by (metis distinct_map_sort_key distinct_map distinct_remove1 inj_on_subset set_remove1_subset)
  have "distinct (map ts (used (es[i := e'])))"
    unfolding distinct_map_sort_key [of ts ts "used (es[i := e'])", symmetric] eq
    using dr [OF d(1)] sub lt by fastforce
  moreover have "distinct (map key (used (es[i := e'])))"
    unfolding distinct_map_sort_key [of key ts "used (es[i := e'])", symmetric] eq
    using dr [OF d(2)] new by simp
  moreover have "\<forall>e\<in>set (es[i := e']). unat (ts e) \<le> unat t'"
    using st t' set_update_subset_insert [of es i e'] by (auto simp: stamped_def intro: order.trans)
  moreover have "\<forall>e\<in>set (es[i := e']). ts e = 0 \<longrightarrow> key e = null"
    using st nz set_update_subset_insert [of es i e'] by (auto simp: stamped_def)
  ultimately show ?thesis by (simp add: stamped_def)
qed

lemma length_lru_keys: "length (lru_keys key es) \<le> length es"
  by (simp add: lru_keys_def used_def)

lemma set_lru_keys: "set (lru_keys key es) = key ` {e \<in> set es. ts e \<noteq> 0}"
  by (simp add: lru_keys_def set_used)

lemma length_removeAll_mem: "x \<in> set xs \<Longrightarrow> length (removeAll x xs) < length xs"
  by (metis length_removeAll_less)

text \<open>Both kinds of update, against the abstract cache.\<close>

lemma touch_refines:
  assumes "i < length es" and "stamped key null t es" and "\<forall>e\<in>set es. ts e < ts e'"
    and "key e' = key (es ! i)" and "key e' \<noteq> null"
    and "unat t \<le> unat t'" and "unat (ts e') \<le> unat t'"
  shows "lru_access (length es) (key e') (lru_keys key es) = (True, lru_keys key (es[i := e']))"
    and "stamped key null t' (es[i := e'])"
proof -
  have nz: "ts (es ! i) \<noteq> 0" using assms(1,2,4,5) by (auto simp: stamped_def)
  then have mem: "key e' \<in> set (lru_keys key es)" using assms(1,4) by (auto simp: set_lru_keys)
  have "length (removeAll (key e') (lru_keys key es)) < length es"
    using length_removeAll_mem [OF mem] length_lru_keys [of key es] by simp
  then show "lru_access (length es) (key e') (lru_keys key es) = (True, lru_keys key (es[i := e']))"
    using lru_keys_touch [OF assms(1,2,3) nz assms(4)] mem by (simp add: lru_access_def)
  have "es ! i \<in> set (sort_key ts (used es))" using nz assms(1) by (simp add: set_used)
  moreover have "distinct (map key (sort_key ts (used es)))"
    using assms(2) by (simp add: stamped_def distinct_map_sort_key)
  ultimately have "key e' \<notin> set (map key (remove1 (es ! i) (sort_key ts (used es))))"
    using map_remove1_key [of key] assms(4) by simp
  with assms show "stamped key null t' (es[i := e'])" by (intro stamped_update)
qed

lemma fill_refines:
  assumes "i < length es" and "stamped key null t es" and "\<forall>e\<in>set es. ts e < ts e'"
    and "\<forall>e\<in>set es. ts (es ! i) \<le> ts e" and "\<forall>e\<in>set es. key e \<noteq> key e'"
    and "unat t \<le> unat t'" and "unat (ts e') \<le> unat t'"
  shows "lru_access (length es) (key e') (lru_keys key es) = (False, lru_keys key (es[i := e']))"
    and "stamped key null t' (es[i := e'])"
proof -
  have "key e' \<notin> set (lru_keys key es)" using assms(5) by (auto simp: set_lru_keys)
  then show "lru_access (length es) (key e') (lru_keys key es) = (False, lru_keys key (es[i := e']))"
    using lru_keys_fill [OF assms(1,2,3,4)] by (simp add: lru_access_def)
  have "key e' \<notin> set (map key (remove1 (es ! i) (sort_key ts (used es))))"
    using assms(5) set_remove1_subset [of "es ! i" "sort_key ts (used es)"] by (auto simp: set_used)
  with assms show "stamped key null t' (es[i := e'])" by (intro stamped_update)
qed

section \<open>Fully associative caches\<close>

text \<open>
  A cache whose sets are the whole array refines the abstract cache. \<open>proj\<close> is the part of
  a lookup key that entries are compared with, and \<open>null\<close> what a flushed entry holds, which the
  clients never look up.
\<close>

locale lru_cache = cache_fun +
  fixes key :: "TLB_ENTRY \<Rightarrow> 'q" and proj :: "'k \<Rightarrow> 'q" and null :: 'q and entries :: "'s \<Rightarrow> nat"
  assumes matches_key: "matches k e \<longleftrightarrow> key e = proj k"
    and fill_key: "key (fill k t e) = proj k" "ts (fill k t e) = ucast t"
    and touch_key: "key (touch t e) = key e"
    and entries_same: "ok s \<Longrightarrow> access k s = ret (h, s') \<Longrightarrow> entries s' = entries s"
begin

definition keys :: "'s \<Rightarrow> 'q list" where
  "keys s = lru_keys key (take (entries s) (tlb s))"

definition fully_assoc :: "'s \<Rightarrow> bool" where
  "fully_assoc s \<longleftrightarrow> ok s \<and> 0 < entries s \<and> entries s \<le> length (tlb s) \<and> (\<forall>k. way_set k s = {..<entries s}) \<and>
     stamped key null (clock s) (take (entries s) (tlb s))"

lemma access_refines:
  assumes fa: "fully_assoc s" and clk: "unat (clock s) + 1 < 2 ^ 32" and k: "proj k \<noteq> null"
  shows "\<exists>h s'. access k s = ret (h, s') \<and> fully_assoc s' \<and> unat (clock s') = unat (clock s) + 1 \<and>
    (h, keys s') = lru_access (entries s) (proj k) (keys s)"
proof -
  let ?n = "entries s" and ?es = "take (entries s) (tlb s)"
  have ok: "ok s" and n: "0 < ?n" "?n \<le> length (tlb s)" and W: "\<And>k. way_set k s = {..<?n}"
    and st: "stamped key null (clock s) ?es" using fa by (auto simp: fully_assoc_def)
  obtain h s' where a: "access k s = ret (h, s')" using access_returns [OF ok] by blast
  have ok': "ok s'" and clk': "clock s' = clock s + 1" and W': "\<And>k. way_set k s' = {..<?n}" and ent: "entries s' = ?n"
    using access_ok [OF ok a] access_clock [OF ok a] way_set_same [OF ok a] entries_same [OF ok a] W by auto
  have uc: "unat (clock s + 1) = unat (clock s) + 1"
    using clk by (simp add: unat_word_ariths)
  have ts': "unat (ucast (clock s + 1) :: u32) = unat (clock s) + 1"
    using clk uc by (simp add: unsigned_ucast_eq take_bit_nat_eq_self)
  have lt: "\<forall>e\<in>set ?es. ts e < ts e'" if "ts e' = ucast (clock s + 1)" for e'
    using st ts' unfolding that stamped_def by (auto simp: word_less_nat_alt)
  have len: "length ?es = ?n" using n by simp
  have nth: "?es ! i = tlb s ! i" if "i < ?n" for i using that by simp
  have finish: "?thesis" if r: "lru_access (length ?es) (proj k) (lru_keys key ?es) = (h, lru_keys key (?es[i := e']))"
      "stamped key null (clock s + 1) (?es[i := e'])" and t: "tlb s' = (tlb s)[i := e']" for i e'
    using r a ok' clk' W' ent t uc n
    by (auto simp: keys_def fully_assoc_def take_update_swap)
  show ?thesis
  proof (cases h)
    case True
    with a have "access k s = ret (True, s')" by simp
    from access_hit_tlb [OF ok this] obtain i where
      i: "i \<in> way_set k s" "matches k (tlb s ! i)" "tlb s' = (tlb s)[i := touch (clock s + 1) (tlb s ! i)]"
      by blast
    then have "i < length ?es" "proj k = key (?es ! i)" using W len matches_key nth by auto
    with touch_refines [OF _ st lt, where e' = "touch (clock s + 1) (tlb s ! i)" and i = i and t' = "clock s + 1"] show ?thesis
      using True k ts' uc i(3) nth len by (intro finish) (simp_all add: touch_key)
  next
    case False
    with a have "access k s = ret (False, s')" by simp
    from access_miss_tlb [OF ok this] obtain i where
      i: "i \<in> insert 0 (way_set k s)" "\<forall>j\<in>insert 0 (way_set k s). ts (tlb s ! i) \<le> ts (tlb s ! j)"
        "tlb s' = (tlb s)[i := fill k (clock s + 1) (tlb s ! i)]" by blast
    have "i < length ?es" using i(1) W len n by auto
    moreover have "\<forall>e\<in>set ?es. ts (?es ! i) \<le> ts e"
      using i(2) W calculation nth by (auto simp: in_set_conv_nth)
    moreover have "\<forall>e\<in>set ?es. key e \<noteq> proj k"
      using access_hit_iff [OF ok a] False W matches_key nth by (auto simp: in_set_conv_nth)
    ultimately show ?thesis
      using fill_refines [OF _ st lt, where e' = "fill k (clock s + 1) (tlb s ! i)" and i = i and t' = "clock s + 1"]
        False ts' uc i(3) nth len by (intro finish) (simp_all add: fill_key)
  qed
qed

text \<open>Any sequence of lookups: the hits and misses are those of the abstract cache.\<close>

lemma run_refines:
  "fully_assoc s \<Longrightarrow> unat (clock s) + length qs < 2 ^ 32 \<Longrightarrow> null \<notin> proj ` set qs \<Longrightarrow>
   \<exists>hs s'. run_lookups access qs s = ret (hs, s') \<and> fully_assoc s' \<and> entries s' = entries s \<and>
     (hs, keys s') = lru_run (entries s) (map proj qs) (keys s)"
proof (induction qs arbitrary: s)
  case (Cons q qs)
  then obtain h s1 where 1: "access q s = ret (h, s1)" "fully_assoc s1" "unat (clock s1) = unat (clock s) + 1"
    "lru_access (entries s) (proj q) (keys s) = (h, keys s1)"
    using access_refines [of s q] by fastforce
  moreover have "entries s1 = entries s" using 1(1) Cons.prems(1) by (intro entries_same) (auto simp: fully_assoc_def)
  moreover obtain hs s2 where "run_lookups access qs s1 = ret (hs, s2)" "fully_assoc s2" "entries s2 = entries s1"
    "lru_run (entries s1) (map proj qs) (keys s1) = (hs, keys s2)"
    using Cons.IH [OF 1(2)] Cons.prems 1(3) by fastforce
  ultimately show ?case by simp
qed simp

end

lemma ways_all: "ways 0 1 (int n) = {..<n}"
  by (auto simp: ways_def)

interpretation lf: lru_cache tlbtrace_ntlb_find "\<lambda>addr e. va e = addr" refill ntlb_ways
  ntlb_tlb ntlb_cnt systs ntlb_ok va "\<lambda>addr. addr" "0xFFFFFFFF" "\<lambda>s. nat (TLB_MAX_ENTRIES_NTLB s)"
proof (unfold_locales, goal_cases)
  case (5 s k h s')
  then show ?case
    by (cases rule: nf.access_cases [of s k]) (auto simp: ntlb_branch_defs)
qed simp_all

interpretation lp: lru_cache "\<lambda>(addr, a). tlbtrace_refppa_pwc addr a"
  "\<lambda>(addr, a) e. va e = addr \<and> asid e = a" "\<lambda>(addr, a). refill_asid addr a" "\<lambda>(addr, _). pwc_ways addr"
  pwc_tlb pwc_cnt systs pwc_ok "\<lambda>e. (va e, asid e)" "\<lambda>q. q" "(0xFFFFFFFF, 0)" "\<lambda>s. nat (TLB_MAX_ENTRIES_PWC s)"
proof (unfold_locales, goal_cases)
  case (5 s k h s')
  then show ?case
    by (cases rule: pr.access_cases [of s k]) (auto simp: pwc_branch_defs split: prod.splits)
qed (auto split: prod.splits)

section \<open>A flushed cache\<close>

lemma used_flushed: "used (map flushed_entry es) = []"
  by (simp add: used_def filter_empty_conv)

lemma take_FLUSH_TLB: "n \<le> m \<Longrightarrow> take n (FLUSH_TLB es m) = map flushed_entry (take n es)"
  by (simp add: FLUSH_TLB_def take_map min_def)

lemma stamped_flushed: "stamped va 0xFFFFFFFF t (map flushed_entry es)"
  "stamped (\<lambda>e. (va e, asid e)) (0xFFFFFFFF, 0) t (map flushed_entry es)"
  by (simp_all add: stamped_def used_flushed)

lemma lru_keys_flushed: "lru_keys key (map flushed_entry es) = []"
  by (simp add: lru_keys_def used_flushed)

lemma flush_all_fields [simp]:
  "ntlb_tlb (flush_all s) = FLUSH_TLB (ntlb_tlb s) 512" "pwc_tlb (flush_all s) = FLUSH_TLB (pwc_tlb s) 512"
  "TLB_MAX_ENTRIES_NTLB (flush_all s) = TLB_MAX_ENTRIES_NTLB s"
  "TLB_WAYSTEP_NTLB (flush_all s) = TLB_WAYSTEP_NTLB s" "TLB_WAYMASK_NTLB (flush_all s) = TLB_WAYMASK_NTLB s"
  "TLB_MAX_ENTRIES_PWC (flush_all s) = TLB_MAX_ENTRIES_PWC s"
  "TLB_WAYSTEP_PWC (flush_all s) = TLB_WAYSTEP_PWC s" "TLB_WAYMASK_PWC (flush_all s) = TLB_WAYMASK_PWC s"
  by (simp_all add: flush_all_def INIT_TLB_def Let_def CACHE_MAX_ENTRIES_def)

lemma first_way_mask0: "first_way k addr 0 = 0"
  by (simp add: first_way_def)

section \<open>Properties\<close>

text \<open>
  C3. After \<open>flush_all\<close>, a nested TLB configured with as many ways as entries is a
  least-recently-used cache: for every sequence of fewer than \<open>2^32\<close> lookups (none of the
  flushed address \<open>0xFFFFFFFF\<close>) the results of the code and the final order of its entries are
  those of the abstract list of keys.
\<close>

theorem ntlb_find_is_lru:
  assumes "arrays_ok s" and "0 < n" and "n \<le> 512" and "length addrs < 2 ^ 32" and "0xFFFFFFFF \<notin> set addrs"
  shows "\<exists>s1 hs s'. set_ntlb_geometry (int n) (int n) s = ret s1 \<and>
    run_lookups tlbtrace_ntlb_find addrs (flush_all s1) = ret (hs, s') \<and>
    (hs, lru_keys va (take n (ntlb_tlb s'))) = lru_run n addrs []"
proof -
  let ?s1 = "s\<lparr>TLB_MAX_ENTRIES_NTLB := int n, TLB_WAYSTEP_NTLB := 1, TLB_WAYMASK_NTLB := 0\<rparr>"
  have geo: "set_ntlb_geometry (int n) (int n) s = ret ?s1" "ntlb_ok ?s1"
    using set_ntlb_geometry_ok [OF assms(1), of "int n" "int n"] assms by simp_all
  have "length (ntlb_tlb s) = 512" using assms(1) by (simp add: arrays_ok_def CACHE_MAX_ENTRIES_def)
  with geo have fa: "lf.fully_assoc (flush_all ?s1)"
    using assms by (simp add: lf.fully_assoc_def ntlb_ways_def first_way_mask0 ways_all take_FLUSH_TLB
        stamped_flushed)
  obtain hs s' where r: "run_lookups tlbtrace_ntlb_find addrs (flush_all ?s1) = ret (hs, s')"
      "nat (TLB_MAX_ENTRIES_NTLB s') = n" "(hs, lf.keys s') = lru_run n addrs []"
    using lf.run_refines [OF fa, of addrs] assms
    by (auto simp: lf.keys_def take_FLUSH_TLB lru_keys_flushed)
  with geo show ?thesis by (auto simp: lf.keys_def)
qed

theorem ntlb_find_is_lru_witness:
  "\<exists>s1 hs s'. set_ntlb_geometry (int 2) (int 2) zero_sim_state = ret s1 \<and>
    run_lookups tlbtrace_ntlb_find [0x1000, 0x2000, 0x1000, 0x3000, 0x2000] (flush_all s1) = ret (hs, s') \<and>
    (hs, lru_keys va (take 2 (ntlb_tlb s'))) = ([False, False, True, False, False], [0x2000, 0x3000])"
  using ntlb_find_is_lru [of zero_sim_state 2 "[0x1000, 0x2000, 0x1000, 0x3000, 0x2000]"]
  by (simp add: lru_access_def)

text \<open>
  C6. The same for the page-walk cache, whose keys are pairs of a descriptor address and an address
  space, for every sequence of lookups without the flushed key.
\<close>

theorem refppa_pwc_is_lru:
  assumes "arrays_ok s" and "0 < n" and "n \<le> 512" and "length qs < 2 ^ 32" and "(0xFFFFFFFF, 0) \<notin> set qs"
  shows "\<exists>s1 hs s'. set_pwc_geometry (int n) (int n) s = ret s1 \<and>
    run_lookups (\<lambda>(addr, a). tlbtrace_refppa_pwc addr a) qs (flush_all s1) = ret (hs, s') \<and>
    (hs, lru_keys (\<lambda>e. (va e, asid e)) (take n (pwc_tlb s'))) = lru_run n qs []"
proof -
  let ?s1 = "s\<lparr>TLB_MAX_ENTRIES_PWC := int n, TLB_WAYSTEP_PWC := 1, TLB_WAYMASK_PWC := 0\<rparr>"
  have geo: "set_pwc_geometry (int n) (int n) s = ret ?s1" "pwc_ok ?s1"
    using set_pwc_geometry_ok [OF assms(1), of "int n" "int n"] assms by simp_all
  have "length (pwc_tlb s) = 512" using assms(1) by (simp add: arrays_ok_def CACHE_MAX_ENTRIES_def)
  with geo have fa: "lp.fully_assoc (flush_all ?s1)"
    using assms by (simp add: lp.fully_assoc_def pwc_ways_def first_way_mask0 ways_all take_FLUSH_TLB
        stamped_flushed)
  obtain hs s' where r: "run_lookups (\<lambda>(addr, a). tlbtrace_refppa_pwc addr a) qs (flush_all ?s1) = ret (hs, s')"
      "nat (TLB_MAX_ENTRIES_PWC s') = n" "(hs, lp.keys s') = lru_run n qs []"
    using lp.run_refines [OF fa, of qs] assms
    by (auto simp: lp.keys_def take_FLUSH_TLB lru_keys_flushed)
  with geo show ?thesis by (auto simp: lp.keys_def)
qed

theorem refppa_pwc_is_lru_witness:
  "\<exists>s1 hs s'. set_pwc_geometry (int 2) (int 2) zero_sim_state = ret s1 \<and>
    run_lookups (\<lambda>(addr, a). tlbtrace_refppa_pwc addr a) [(4, 1), (4, 0), (4, 1), (8, 0), (4, 0)]
      (flush_all s1) = ret (hs, s') \<and>
    (hs, lru_keys (\<lambda>e. (va e, asid e)) (take 2 (pwc_tlb s'))) =
      ([False, False, True, False, False], [(4, 0), (8, 0)])"
  using refppa_pwc_is_lru [of zero_sim_state 2 "[(4, 1), (4, 0), (4, 1), (8, 0), (4, 0)]"]
  by (simp add: lru_access_def)


definition two_way_state :: sim_state where
  "two_way_state = zero_sim_state\<lparr>TLB_MAX_ENTRIES_NTLB := 8, TLB_WAYSTEP_NTLB := 4, TLB_WAYMASK_NTLB := 3,
     ntlb_tlb := (replicate 512 zero_entry)[1 := zero_entry\<lparr>ts := 5\<rparr>, 5 := zero_entry\<lparr>ts := 7\<rparr>]\<rparr>"

lemma two_way_state_ok: "ntlb_ok two_way_state"
  by (simp add: two_way_state_def ntlb_ok_def arrays_ok_def CACHE_MAX_ENTRIES_def zero_sim_state_def)

lemma two_way_state_ways: "ntlb_ways 0x1000 two_way_state = {1, 5}"
proof -
  have "first_way 12 0x1000 3 = 1" by (simp add: first_way_def)
  then have "ntlb_ways 0x1000 two_way_state = ways 1 4 8" by (simp add: ntlb_ways_def two_way_state_def)
  also have "\<dots> = {1, 5}" by (simp add: ways_step [of 4 1 8] ways_step [of 4 5 8] ways_empty)
  finally show ?thesis .
qed


text \<open>
  The victim search starts at entry 0 for every set. When entry 0 is not a way of the set and
  is older than all its ways, a missed address is written to entry 0, where its own lookup
  never finds it: the next lookup of the same address misses again.
\<close>

theorem ntlb_find_repeated_miss:
  assumes "ntlb_ok s" and "0 \<notin> ntlb_ways addr s"
    and "\<forall>i\<in>ntlb_ways addr s. va (ntlb_tlb s ! i) \<noteq> addr \<and> ts (ntlb_tlb s ! 0) < ts (ntlb_tlb s ! i)"
  shows "\<exists>s1 s2. tlbtrace_ntlb_find addr s = ret (False, s1) \<and> va (ntlb_tlb s1 ! 0) = addr \<and>
    tlbtrace_ntlb_find addr s1 = ret (False, s2)"
proof -
  obtain s1 where a: "tlbtrace_ntlb_find addr s = ret (False, s1)"
    using nf.access_result [OF assms(1), of addr] assms(3) by auto
  obtain i where i: "i \<in> insert 0 (ntlb_ways addr s)"
      "\<forall>j\<in>insert 0 (ntlb_ways addr s). ts (ntlb_tlb s ! i) \<le> ts (ntlb_tlb s ! j)"
      "ntlb_tlb s1 = (ntlb_tlb s)[i := refill addr (systs s + 1) (ntlb_tlb s ! i)]"
    using nf.access_miss_tlb [OF assms(1) a] by blast
  then have "i = 0" using assms(3) by fastforce
  moreover have "0 < length (ntlb_tlb s)"
    using assms(1) by (simp add: ntlb_ok_def arrays_ok_def CACHE_MAX_ENTRIES_def)
  ultimately have "va (ntlb_tlb s1 ! 0) = addr" using i(3) by simp
  with a nf.miss_then_miss [OF assms(1) a assms(2)] assms(3) show ?thesis by blast
qed

theorem ntlb_find_repeated_miss_witness:
  "\<exists>s1 s2. tlbtrace_ntlb_find 0x1000 two_way_state = ret (False, s1) \<and> va (ntlb_tlb s1 ! 0) = 0x1000 \<and>
    tlbtrace_ntlb_find 0x1000 s1 = ret (False, s2)"
  by (rule ntlb_find_repeated_miss)
     (simp_all add: two_way_state_ok two_way_state_ways, simp_all add: two_way_state_def zero_entry_def)

lemma drop_12_and_mask: "drop_bit 12 (w :: u32) AND 0xFFFFF = drop_bit 12 w"
proof -
  have "(0xFFFFF :: u32) = mask 20" by (simp add: mask_eq_exp_minus_1)
  moreover have "take_bit 20 (drop_bit 12 w) = drop_bit 12 w"
    by (rule bit_word_eqI) (auto simp: bit_simps dest: bit_imp_le_length)
  ultimately show ?thesis by (simp add: take_bit_eq_mask)
qed

lemma page_neq_flushed: "(w :: u32) AND 0xFFFFF000 \<noteq> 0xFFFFFFFF"
proof
  assume "w AND 0xFFFFF000 = 0xFFFFFFFF"
  then have "bit (w AND 0xFFFFF000) 0 = bit (0xFFFFFFFF :: u32) 0" by simp
  then show False by (simp add: bit_simps)
qed

text \<open>
  C39. A configuration with more ways than entries makes the step of the lookup loop 0: the
  simulation of a trace whose first walk starts in one of the sets never returns. A
  configuration without ways divides by zero.
\<close>

theorem sim_ntlb_bad_geometry:
  assumes "arrays_ok s" and "fs f = Some bs" and "fread4 bs = Some ((t0, t1, t2, t3), rest)"
    and "0 < nsize" and "nsize < nway" and "nsize \<le> 512" and "uint (drop_bit 12 t1) < nsize"
  shows "tlbsim_sim_ntlb fs f nsize nway psize pway result s = None \<and>
    tlbsim_sim_ntlb fs f nsize 0 psize pway result s = raise DivByZero"
proof -
  let ?s1 = "s\<lparr>TLB_MAX_ENTRIES_NTLB := nsize, TLB_WAYSTEP_NTLB := 0, TLB_WAYMASK_NTLB := - 1\<rparr>"
  have geo: "set_ntlb_geometry nsize nway s = ret ?s1"
    using assms(4-6) by (simp add: set_ntlb_geometry_def c_div_pos div_pos_pos_trivial)
  have way: "first_way 12 (t1 AND 0xFFFFF000) (- 1) = uint (drop_bit 12 t1)"
    by (simp add: first_way_def drop_bit_and drop_12_and_mask)
  have len: "length (ntlb2_tlb (flush_all ?s1)) = 512" and
    va: "\<And>i. i < 512 \<Longrightarrow> va (ntlb2_tlb (flush_all ?s1) ! i) = 0xFFFFFFFF"
    using assms(1) by (simp_all add: flush_all_def INIT_TLB_def Let_def arrays_ok_def CACHE_MAX_ENTRIES_def nth_FLUSH_TLB)
  have idx: "nat (uint (drop_bit 12 t1)) < 512" using assms(6,7) by linarith
  have "scan (\<lambda>e. va e = t1 AND 0xFFFFF000) (ntlb2_tlb (flush_all ?s1)) nsize 0 (uint (drop_bit 12 t1)) mts mi = None" for mts mi
    using assms(4-7) len va [OF idx] page_neq_flushed [of t1] by (intro scan_step0_diverges) auto
  then have "tlbtrace_ntlb_find2 (t1 AND 0xFFFFF000) False (flush_all ?s1) = None"
    using way by (simp add: tlbtrace_ntlb_find2_def lookup_def Let_def)
  then have "sim_loop emulate_ntlb2 bs (flush_all ?s1) = None"
    using assms(3) by (simp add: sim_loop.simps emulate_ntlb2_def)
  with geo assms(2) show ?thesis
    by (simp add: tlbsim_sim_ntlb_def sim_file_def) (simp add: set_ntlb_geometry_def c_div_def)
qed

theorem sim_ntlb_bad_geometry_witness:
  "tlbsim_sim_ntlb (\<lambda>_. Some one_walk) ''t'' 8 16 0 0 zero_result zero_sim_state = None \<and>
   tlbsim_sim_ntlb (\<lambda>_. Some one_walk) ''t'' 8 0 0 0 zero_result zero_sim_state = raise DivByZero"
proof -
  have walk: "fread4 one_walk = Some ((3, 0x4000, 0x8000, 0x9000), [])"
    using fread4_bytes [of 3 "0x4000" "0x8000" "0x9000" "[]"] by (simp add: one_walk_def)
  have way: "uint (drop_bit 12 (0x4000 :: u32)) < 8" by code_simp
  show ?thesis
    by (rule sim_ntlb_bad_geometry [OF zero_sim_state_ok refl walk _ _ _ way]) simp_all
qed

end
