(* ===== verification/Sim_Driver.thy ===== *)
theory Sim_Driver
  imports Sim_Lru
begin

text \<open>
  The driver of the simulator: which trace files of a directory it selects, and what it returns
  for them.
\<close>

section \<open>Selecting the trace files\<close>

lemma scan_dir_eq:
  "length acc < MAX_TRACE_FILES \<Longrightarrow>
   scan_dir path suf dents acc =
     acc @ take (MAX_TRACE_FILES - length acc)
       (map (\<lambda>d. take 511 (path @ ''/'' @ d)) (filter (is_trace_name suf) dents))"
proof (induction path suf dents acc rule: scan_dir.induct)
  case (2 path suf d_name dents acc)
  show ?case
  proof (cases "is_trace_name suf d_name \<and> Suc (length acc) < MAX_TRACE_FILES")
    case True
    with 2 show ?thesis by (simp add: Let_def Suc_diff_Suc flip: take_Suc_Cons)
  next
    case False
    with 2 show ?thesis by (cases "MAX_TRACE_FILES - length acc") (auto simp: Let_def not_less)
  qed
qed simp

text \<open>
  \<open>list_trace_files\<close> returns, in ascending order, the paths of the first 128 directory entries
  whose name starts with \<open>trace_\<close> and contains the suffix of the configuration, cut to 511
  characters each; and nothing when the directory cannot be opened.
\<close>

theorem list_trace_files_spec:
  "list_trace_files dir path tlb_size way =
     (case dir of None \<Rightarrow> []
      | Some dents \<Rightarrow> sort (take 128 (map (\<lambda>d. take 511 (path @ ''/'' @ d))
          (filter (is_trace_name (trace_suffix tlb_size way)) dents))))"
  by (simp add: list_trace_files_def scan_dir_eq MAX_TRACE_FILES_def split: option.split)

section \<open>Running them\<close>

text \<open>What the result of one file says about the file.\<close>

definition accounts_for :: "u8 list \<Rightarrow> SIM_RESULT \<Rightarrow> bool" where
  "accounts_for bs r \<longleftrightarrow> accs r = miss (pwc r) \<and>
     hit (pwc r) + miss (pwc r) = (\<Sum>t\<leftarrow>tuples bs. if 1 < level t then 2 else 1) + 2 * miss (ntlb r)"

lemma sim_all_ntlb_pwc:
  assumes "0 < way" and "way \<le> nsize" and "nsize \<le> 512" and "way \<le> psize" and "psize \<le> 512"
    and "\<forall>i. mem_ok i"
  shows "arrays_ok s \<Longrightarrow> \<forall>f\<in>set files. fs f \<noteq> None \<Longrightarrow>
    \<exists>rs s'. sim_all fs mem_ok SC_NTLB_PWC nsize psize way i files s = ret (rs, s') \<and>
      list_all2 (\<lambda>f r. accounts_for (the (fs f)) r) files rs"
proof (induction files arbitrary: s i)
  case (Cons f files)
  then obtain bs where bs: "fs f = Some bs" by auto
  obtain r s1 where 1: "tlbsim_sim_ntlb_pwc fs f nsize way psize way zero_result s = ret (r, s1)"
      "arrays_ok s1" "accounts_for bs r"
    using sim_ntlb_pwc_run [where fs = fs and f = f and bs = bs and s = s and nway = way and pway = way
        and nsize = nsize and psize = psize and result = zero_result]
      assms bs Cons.prems by (auto simp: accounts_for_def)
  obtain rs s2 where 2: "sim_all fs mem_ok SC_NTLB_PWC nsize psize way (Suc i) files s1 = ret (rs, s2)"
      "list_all2 (\<lambda>f r. accounts_for (the (fs f)) r) files rs"
    using Cons.IH [OF 1(2), of "Suc i"] Cons.prems(2) by auto
  have "sim_all fs mem_ok SC_NTLB_PWC nsize psize way i (f # files) s = ret (r # rs, s2)"
    using 1(1) 2(1) assms(6) [rule_format, of i] by (simp only: sim_all.simps sim_function.simps comp_bind_ret prod.case if_False simp_thms)
  with 1(3) 2(2) bs show ?case by auto
qed simp

text \<open>
  With memory for the results and readable trace files, \<open>tlbsim_sim\<close> returns one result for
  each file that \<open>list_trace_files\<close> selects, in that order, and each result accounts for
  the walks of its own file.
\<close>

theorem tlbsim_sim_results:
  assumes "arrays_ok s" and "0 < way" and "way \<le> nsize" and "nsize \<le> 512" and "way \<le> psize" and "psize \<le> 512"
    and "\<forall>i. mem_ok i" and "\<forall>f\<in>set (list_trace_files dir path tlb_size way). fs f \<noteq> None"
  shows "\<exists>rs s'. tlbsim_sim fs dir True mem_ok tlb_size nsize psize way SC_NTLB_PWC path s = ret (Some rs, s') \<and>
    list_all2 (\<lambda>f r. accounts_for (the (fs f)) r) (list_trace_files dir path tlb_size way) rs"
proof -
  obtain rs s' where
    "sim_all fs mem_ok SC_NTLB_PWC nsize psize way 0 (list_trace_files dir path tlb_size way) s = ret (rs, s')"
    "list_all2 (\<lambda>f r. accounts_for (the (fs f)) r) (list_trace_files dir path tlb_size way) rs"
    using sim_all_ntlb_pwc [OF assms(2-7,1,8), of 0] by blast
  then show ?thesis by (simp add: tlbsim_sim_def)
qed

theorem tlbsim_sim_results_witness:
  "\<exists>rs s'. tlbsim_sim (\<lambda>_. Some one_walk) (Some [''trace_a_8.2'', ''x'', ''trace_b_8.2'']) True (\<lambda>_. True)
      8 16 32 2 SC_NTLB_PWC ''d'' zero_sim_state = ret (Some rs, s') \<and>
    list_all2 (\<lambda>f r. accounts_for one_walk r)
      (list_trace_files (Some [''trace_a_8.2'', ''x'', ''trace_b_8.2'']) ''d'' 8 2) rs"
  using tlbsim_sim_results [where s = zero_sim_state and way = 2 and nsize = 16 and psize = 32
    and mem_ok = "\<lambda>_. True" and fs = "\<lambda>_. Some one_walk" and tlb_size = 8 and path = "''d''"
    and dir = "Some [''trace_a_8.2'', ''x'', ''trace_b_8.2'']"] by simp

end
