(* ===== verification/Main_Program.thy ===== *)
theory Main_Program
  imports Sim_Driver Complex_Main
begin

text \<open>
  The command line of the simulator (\<open>src/main.c\<close>): the arguments, the run over the trace files of \<open>./TRACES\<close>, and the table that it prints. A
  line of output is a value with the numbers that are printed; ratios are exact, the rounding of \<open>double\<close> and of \<open>%20.4lf\<close> is not
  modelled.
\<close>

section \<open>Arguments\<close>

text \<open>\<open>atoi\<close>: blanks, a sign, digits; the value is that of \<open>strtol\<close> on a 64-bit host, cut to 32 bits.\<close>

definition is_blank :: "char \<Rightarrow> bool" where
  "is_blank c \<longleftrightarrow> c = CHR '' '' \<or> of_char c \<in> {9..13 :: nat}"

definition is_digit :: "char \<Rightarrow> bool" where
  "is_digit c \<longleftrightarrow> of_char c \<in> {48..57 :: nat}"

fun digits_value :: "int \<Rightarrow> string \<Rightarrow> int" where
  "digits_value v [] = v"
| "digits_value v (c # cs) = (if is_digit c then digits_value (10 * v + (of_char c - 48)) cs else v)"

definition clamp_long :: "int \<Rightarrow> int" where
  "clamp_long v = (if v < - (2 ^ 63) then - (2 ^ 63) else if 2 ^ 63 \<le> v then 2 ^ 63 - 1 else v)"

definition atoi :: "string \<Rightarrow> int" where
  "atoi str =
     (let s = dropWhile is_blank str;
          v = (case s of
                 c # cs \<Rightarrow> if c = CHR ''-'' then - digits_value 0 cs else if c = CHR ''+'' then digits_value 0 cs else digits_value 0 s
               | [] \<Rightarrow> 0)
      in sint (word_of_int (clamp_long v) :: u32))"

section \<open>Output\<close>

datatype percentage = Percent rat | NotANumber | Infinite

datatype output_line = Usage string | Heading | NTLB_Row u64 u64 percentage | PWC_Row u64 u64 percentage u64

definition hit_ratio :: "TLB_COUNTER \<Rightarrow> percentage" where
  "hit_ratio c =
     (if hit c + miss c = 0 then (if hit c = 0 then NotANumber else Infinite)
      else Percent (100 * of_nat (unat (hit c)) / of_nat (unat (hit c + miss c))))"

definition result_rows :: "SIM_RESULT \<Rightarrow> output_line list" where
  "result_rows r =
     [NTLB_Row (hit (ntlb r)) (miss (ntlb r)) (hit_ratio (ntlb r)),
      PWC_Row (hit (pwc r)) (miss (pwc r)) (hit_ratio (pwc r)) (accs r)]"

section \<open>The program\<close>

definition cmd_of_int :: "int \<Rightarrow> SIM_CMD option" where
  "cmd_of_int c =
     (if c = 0 then Some SC_NTLB else if c = 1 then Some SC_PWC_EPT else if c = 2 then Some SC_PWC_NOEPT
      else if c = 3 then Some SC_NTLB_PWC else None)"

text \<open>The call of the driver with a command that is not a member of the enumeration: \<open>funcs[cmd]\<close> is outside the table.\<close>

definition sim_with_int ::
  "filesystem \<Rightarrow> string list option \<Rightarrow> bool \<Rightarrow> (nat \<Rightarrow> bool) \<Rightarrow> int \<Rightarrow> int \<Rightarrow> int \<Rightarrow> int \<Rightarrow> int \<Rightarrow>
     string \<Rightarrow> sim_state \<Rightarrow> (SIM_RESULT list option \<times> sim_state) comp" where
  "sim_with_int fs dir array_ok mem_ok tlb_size ntlb_size pwc_size way cmd path s =
     (case cmd_of_int cmd of
        Some c \<Rightarrow> tlbsim_sim fs dir array_ok mem_ok tlb_size ntlb_size pwc_size way c path s
      | None \<Rightarrow> if \<not> array_ok then ret (None, s)
                else if list_trace_files dir path tlb_size way = [] then ret (Some [], s)
                else if \<not> mem_ok 0 then raise NullDeref else raise OutOfBounds)"

text \<open>
  \<open>argv\<close> with the name of the program first. The exit status and the lines; the result of the driver is used unchecked.
\<close>

definition main_program ::
  "filesystem \<Rightarrow> string list option \<Rightarrow> bool \<Rightarrow> (nat \<Rightarrow> bool) \<Rightarrow> string list \<Rightarrow> sim_state \<Rightarrow> (int \<times> output_line list) comp" where
  "main_program fs dir array_ok mem_ok argv s =
     (case argv of
        [prog, a1, a2, a3, a4, a5] \<Rightarrow>
          comp_bind (sim_with_int fs dir array_ok mem_ok (atoi a1) (atoi a3) (atoi a4) (atoi a2) (atoi a5) ''./TRACES'' s) (\<lambda>(results, s1).
            case results of
              None \<Rightarrow> raise NullDeref
            | Some rs \<Rightarrow> ret (0, Heading # concat (map result_rows rs)))
      | prog # args \<Rightarrow> ret (1, [Usage prog])
      | [] \<Rightarrow> ret (1, [Usage []]))"

section \<open>Numbers on the command line\<close>

lemma digits_append: "list_all is_digit xs \<Longrightarrow> digits_value v (xs @ ys) = digits_value (digits_value v xs) ys"
  by (induction xs arbitrary: v) auto

lemma digit_char: "d < 10 \<Longrightarrow> is_digit (char_of (48 + d)) \<and> (of_char (char_of (48 + d) :: char) :: int) = 48 + int d"
proof -
  assume d: "d < 10"
  then have n: "(of_char (char_of (48 + d) :: char) :: nat) = 48 + d" by simp
  then have "(of_char (char_of (48 + d) :: char) :: int) = int (48 + d)" by (metis of_nat_of_char)
  with d n show ?thesis by (simp add: is_digit_def)
qed

lemma dec_nat_digits: "list_all is_digit (dec_nat n) \<and> digits_value 0 (dec_nat n) = int n \<and> dec_nat n \<noteq> []"
proof (induction n rule: dec_nat.induct)
  case (1 n)
  show ?case
  proof (cases "n < 10")
    case True
    then show ?thesis using digit_char [of n] by (subst (1 2 3) dec_nat.simps) simp
  next
    case False
    have d: "n mod 10 < 10" by simp
    have "10 * int (n div 10) + int (n mod 10) = int n" by presburger
    with False 1 digit_char [OF d] show ?thesis by (subst (1 2 3) dec_nat.simps) (simp add: digits_append)
  qed
qed

text \<open>\<open>atoi\<close> inverts \<open>%d\<close>.\<close>

lemma atoi_dec_int:
  assumes "- (2 ^ 31) \<le> i" and "i < 2 ^ 31"
  shows "atoi (dec_int i) = i"
proof -
  have w: "sint (word_of_int (clamp_long i) :: u32) = i"
    using assms by (simp add: clamp_long_def sint_sbintrunc' signed_take_bit_int_eq_self)
  show ?thesis
  proof (cases "i < 0")
    case True
    then have "dec_int i = CHR ''-'' # dec_nat (nat (- i))" by (simp add: dec_int_def)
    moreover have "digits_value 0 (dec_nat (nat (- i))) = - i" using dec_nat_digits [of "nat (- i)"] True by simp
    ultimately show ?thesis using w by (simp add: atoi_def is_blank_def Let_def)
  next
    case False
    then have e: "dec_int i = dec_nat (nat i)" by (simp add: dec_int_def)
    obtain c cs where c: "dec_nat (nat i) = c # cs" "is_digit c" using dec_nat_digits [of "nat i"] by (cases "dec_nat (nat i)") auto
    have "\<not> is_blank c" "c \<noteq> CHR ''-''" "c \<noteq> CHR ''+''" using c(2) by (auto simp: is_digit_def is_blank_def)
    moreover have "digits_value 0 (dec_nat (nat i)) = i" using dec_nat_digits [of "nat i"] False by simp
    ultimately show ?thesis using w c(1) by (simp add: atoi_def e Let_def)
  qed
qed


lemma cmd_three: "atoi ''3'' = 3"
  by code_simp

text \<open>
  C33. The program run with the sizes and the number of ways in decimal and the command 3 (TLB and page-walk cache) reads back these
  numbers, exits with 0 and prints, after the heading, two rows for each trace file of the configuration in the order of their names, with the
  counters of a result that accounts for the walks of this file. With any other number of arguments it prints its usage and exits with 1.
\<close>

theorem main_reports:
  assumes "arrays_ok s" and "0 < way" and "way \<le> nsize" and "nsize \<le> 512" and "way \<le> psize" and "psize \<le> 512"
    and "- (2 ^ 31) \<le> tlb_size" and "tlb_size < 2 ^ 31" and "\<forall>i. mem_ok i"
    and "\<forall>f\<in>set (list_trace_files dir ''./TRACES'' tlb_size way). fs f \<noteq> None"
  shows "\<exists>rs. main_program fs dir True mem_ok [prog, dec_int tlb_size, dec_int way, dec_int nsize, dec_int psize, ''3''] s =
      ret (0, Heading # concat (map result_rows rs)) \<and>
    list_all2 (\<lambda>f r. accounts_for (the (fs f)) r) (list_trace_files dir ''./TRACES'' tlb_size way) rs \<and>
    (\<forall>argv. length argv \<noteq> 6 \<and> argv \<noteq> [] \<longrightarrow> main_program fs dir True mem_ok argv s = ret (1, [Usage (hd argv)]))"
proof -
  obtain rs s' where rs: "sim_all fs mem_ok SC_NTLB_PWC nsize psize way 0 (list_trace_files dir ''./TRACES'' tlb_size way) s = ret (rs, s')"
    "list_all2 (\<lambda>f r. accounts_for (the (fs f)) r) (list_trace_files dir ''./TRACES'' tlb_size way) rs"
    using sim_all_ntlb_pwc [OF assms(2-6,9,1,10), of 0] by blast
  have n: "atoi (dec_int tlb_size) = tlb_size" "atoi (dec_int way) = way" "atoi (dec_int nsize) = nsize" "atoi (dec_int psize) = psize"
    using assms(2-8) by (simp_all add: atoi_dec_int)
  have "main_program fs dir True mem_ok [prog, dec_int tlb_size, dec_int way, dec_int nsize, dec_int psize, ''3''] s =
      ret (0, Heading # concat (map result_rows rs))"
    by (simp add: main_program_def n cmd_three sim_with_int_def cmd_of_int_def tlbsim_sim_def rs(1))
  moreover have "main_program fs dir True mem_ok argv s = ret (1, [Usage (hd argv)])" if "length argv \<noteq> 6" "argv \<noteq> []" for argv
    using that by (auto simp: main_program_def split: list.split)
  ultimately show ?thesis using rs(2) by blast
qed

theorem main_reports_witness:
  "\<exists>rs. main_program (\<lambda>_. Some one_walk) (Some [''trace_a_8.2'', ''x'', ''trace_b_8.2'']) True (\<lambda>_. True)
      [''tlb'', ''8'', ''2'', ''16'', ''32'', ''3''] zero_sim_state = ret (0, Heading # concat (map result_rows rs)) \<and> length rs = 2"
proof -
  have d: "dec_int 8 = ''8''" "dec_int 2 = ''2''" "dec_int 16 = ''16''" "dec_int 32 = ''32''" by code_simp+
  have l: "length (list_trace_files (Some [''trace_a_8.2'', ''x'', ''trace_b_8.2'']) ''./TRACES'' 8 2) = 2" by code_simp
  obtain rs where "main_program (\<lambda>_. Some one_walk) (Some [''trace_a_8.2'', ''x'', ''trace_b_8.2'']) True (\<lambda>_. True)
      [''tlb'', dec_int 8, dec_int 2, dec_int 16, dec_int 32, ''3''] zero_sim_state = ret (0, Heading # concat (map result_rows rs))"
    "list_all2 (\<lambda>f r. accounts_for one_walk r) (list_trace_files (Some [''trace_a_8.2'', ''x'', ''trace_b_8.2'']) ''./TRACES'' 8 2) rs"
    using main_reports [where s = zero_sim_state and way = 2 and nsize = 16 and psize = 32 and tlb_size = 8 and mem_ok = "\<lambda>_. True"
      and fs = "\<lambda>_. Some one_walk" and dir = "Some [''trace_a_8.2'', ''x'', ''trace_b_8.2'']" and prog = "''tlb''"] by auto
  with l have "main_program (\<lambda>_. Some one_walk) (Some [''trace_a_8.2'', ''x'', ''trace_b_8.2'']) True (\<lambda>_. True)
      [''tlb'', ''8'', ''2'', ''16'', ''32'', ''3''] zero_sim_state = ret (0, Heading # concat (map result_rows rs)) \<and> length rs = 2"
    by (simp add: d list_all2_lengthD [symmetric])
  then show ?thesis ..
qed

end
