(* ===== verification/Tlb_Trace.thy ===== *)
theory Tlb_Trace
  imports Lru_Cache Tlb_Sim
begin

text \<open>
  The TLB tracer, \<open>src/tlb_trace.c\<close>: the main TLB it simulates, the buffer of trace tuples and
  the trace file. The globals of the C file are the fields of \<open>trace_state\<close>. The file system
  is part of the state; \<open>write\<close> is taken to write all it is given, as the code assumes by not
  looking at its result. The page-table callback is a field of the state and is called on an
  argument of the type \<open>'a\<close> of the client. What the code compiles only for QEMU is in the theory
  of the traced machine.
\<close>

section \<open>State\<close>

text \<open>The callback: return value, \<open>*l1\<close>, \<open>*l2\<close>, \<open>*gpa\<close>; an output it does not write stays 0.\<close>

type_synonym pte_result = "u32 \<times> u32 \<times> u32 \<times> u32"

definition FBUF_WORDS :: nat where
  "FBUF_WORDS = 1024 * 1024 * 8"

record 'a trace_state =
  tlb_size :: int
  tlb_set :: int
  tlb_set_step :: int
  tlb_set_mask :: int
  sl_tlb :: "TLB_ENTRY list option"
  sl_cnt :: TLB_COUNTER
  sl_systs :: u64
  started :: bool
  fout :: "string option"
  fbc :: nat
  fbuf :: "(nat \<Rightarrow> u32) option"
  my_pte_helper :: "('a \<Rightarrow> u32 \<Rightarrow> pte_result) option"
  last_ins_idx :: nat
  disk :: filesystem
  exited :: bool

section \<open>Stopping\<close>

definition append_file :: "string option \<Rightarrow> u8 list \<Rightarrow> filesystem \<Rightarrow> filesystem" where
  "append_file fd bs fs =
     (case fd of None \<Rightarrow> fs
      | Some name \<Rightarrow> fs(name := Some ((case fs name of None \<Rightarrow> [] | Some old \<Rightarrow> old) @ bs)))"

definition buffer_bytes :: "(nat \<Rightarrow> u32) \<Rightarrow> nat \<Rightarrow> u8 list" where
  "buffer_bytes buf n = concat (map (bytes_of_u32 \<circ> buf) [0..<n])"

definition tlbtrace_stop :: "'a trace_state \<Rightarrow> 'a trace_state comp" where
  "tlbtrace_stop s =
     (if 0 < fbc s then
        (case fbuf s of
           None \<Rightarrow> raise NullDeref
         | Some buf \<Rightarrow> ret (s\<lparr>disk := append_file (fout s) (buffer_bytes buf (fbc s)) (disk s),
             fbuf := None, fout := None\<rparr>))
      else ret (s\<lparr>fbuf := None, fout := None\<rparr>))"

section \<open>The main TLB\<close>

definition sl_hit :: "nat \<Rightarrow> TLB_ENTRY list \<Rightarrow> 'a trace_state \<Rightarrow> 'a trace_state" where
  "sl_hit i t s = s\<lparr>sl_tlb := Some (t[i := touch (sl_systs s + 1) (t ! i)]),
     sl_systs := sl_systs s + 1, sl_cnt := count_hit (sl_cnt s)\<rparr>"

definition sl_refill :: "u32 \<Rightarrow> u32 \<Rightarrow> bool \<Rightarrow> nat \<Rightarrow> TLB_ENTRY list \<Rightarrow> 'a trace_state \<Rightarrow> 'a trace_state" where
  "sl_refill addr a ins mi t s =
     s\<lparr>sl_tlb := Some (t[mi := refill_asid addr a (sl_systs s + 1) (t ! mi)]),
       sl_systs := sl_systs s + 1, last_ins_idx := (if ins then mi else last_ins_idx s),
       sl_cnt := count_miss (sl_cnt s)\<rparr>"

definition SYSTS_LIMIT :: u64 where
  "SYSTS_LIMIT = 150000000000"

text \<open>The end of a miss: at the limit the tracer stops and the process exits.\<close>

definition sl_check_limit :: "'a trace_state \<Rightarrow> 'a trace_state comp" where
  "sl_check_limit s =
     (if SYSTS_LIMIT \<le> sl_systs s
      then comp_bind (tlbtrace_stop s) (\<lambda>s'. ret (s'\<lparr>exited := True\<rparr>))
      else ret s)"

definition sl_slow :: "u32 \<Rightarrow> u32 \<Rightarrow> bool \<Rightarrow> TLB_ENTRY list \<Rightarrow> 'a trace_state \<Rightarrow> (bool \<times> 'a trace_state) comp" where
  "sl_slow addr a ins t s =
     comp_bind
       (lookup (\<lambda>e. va e = addr \<and> asid e = a) t (tlb_size s) (tlb_set_step s)
          (first_way 12 addr (tlb_set_mask s)))
       (\<lambda>r. case r of
          ScanHit i \<Rightarrow> ret (True, (sl_hit i t s)\<lparr>last_ins_idx := (if ins then i else last_ins_idx s)\<rparr>)
        | ScanMiss mi \<Rightarrow> ret (False, sl_refill addr a ins mi t s))"

definition tlbtrace_refmem_sl :: "u32 \<Rightarrow> u32 \<Rightarrow> bool \<Rightarrow> 'a trace_state \<Rightarrow> (bool \<times> 'a trace_state) comp" where
  "tlbtrace_refmem_sl addr a ins s =
     (case sl_tlb s of
        None \<Rightarrow> raise NullDeref
      | Some t \<Rightarrow>
          if t = [] then raise OutOfBounds
          else if ins \<and> length t \<le> last_ins_idx s then raise OutOfBounds
          else if ins \<and> va (t ! last_ins_idx s) = addr \<and> asid (t ! last_ins_idx s) = a
          then ret (True, sl_hit (last_ins_idx s) t s)
          else comp_bind (sl_slow addr a ins t s) (\<lambda>(h, s').
               if h then ret (True, s')
               else comp_bind (sl_check_limit s') (\<lambda>s''. ret (False, s''))))"

section \<open>Trace tuples\<close>

definition put_fbuf :: "u32 \<Rightarrow> 'a trace_state \<Rightarrow> 'a trace_state comp" where
  "put_fbuf w s =
     (case fbuf s of
        None \<Rightarrow> raise NullDeref
      | Some buf \<Rightarrow>
          if FBUF_WORDS \<le> fbc s then raise OutOfBounds
          else ret (s\<lparr>fbuf := Some (buf(fbc s := w)), fbc := fbc s + 1\<rparr>))"

definition flush_fbuf :: "'a trace_state \<Rightarrow> 'a trace_state" where
  "flush_fbuf s =
     (if fbc s = FBUF_WORDS then
        s\<lparr>disk := append_file (fout s) (case fbuf s of None \<Rightarrow> [] | Some buf \<Rightarrow> buffer_bytes buf FBUF_WORDS) (disk s),
          fbc := 0\<rparr>
      else s)"

definition tlbtrace_refmem_pwc :: "u32 \<Rightarrow> 'a \<Rightarrow> 'a trace_state \<Rightarrow> 'a trace_state comp" where
  "tlbtrace_refmem_pwc addr arg s0 =
     (case my_pte_helper s0 of
        None \<Rightarrow> raise NullDeref
      | Some helper \<Rightarrow>
          (case helper arg addr of (res, l1_ppa, l2_ppa, gpa) \<Rightarrow>
             comp_bind (put_fbuf (addr OR res) s0) (\<lambda>s1.
             comp_bind (put_fbuf l1_ppa s1) (\<lambda>s2.
             comp_bind (put_fbuf l2_ppa s2) (\<lambda>s3.
             comp_bind (put_fbuf gpa s3) (\<lambda>s4.
             ret (flush_fbuf s4)))))))"

definition tlbtrace_refmem :: "u32 \<Rightarrow> u32 \<Rightarrow> bool \<Rightarrow> 'a \<Rightarrow> 'a trace_state \<Rightarrow> 'a trace_state comp" where
  "tlbtrace_refmem addr0 a ins arg s0 =
     (let addr = addr0 AND 0xFFFFF000 in
      comp_bind (tlbtrace_refmem_sl addr a ins s0) (\<lambda>(h, s1).
        if h \<or> exited s1 then ret s1 else tlbtrace_refmem_pwc addr arg s1))"

section \<open>Flushing\<close>

text \<open>\<open>FLUSH_TLB_ENTRY\<close> and \<open>FLUSH_TLB_ASID\<close> reset the matching ones among the first \<open>size\<close> entries.\<close>

definition FLUSH_TLB_ENTRY :: "TLB_ENTRY list \<Rightarrow> nat \<Rightarrow> u32 \<Rightarrow> u32 \<Rightarrow> TLB_ENTRY list" where
  "FLUSH_TLB_ENTRY t n addr a =
     map (\<lambda>e. if va e \<noteq> addr \<or> asid e \<noteq> a then e else flushed_entry e) (take n t) @ drop n t"

definition FLUSH_TLB_ASID :: "TLB_ENTRY list \<Rightarrow> nat \<Rightarrow> u32 \<Rightarrow> TLB_ENTRY list" where
  "FLUSH_TLB_ASID t n a =
     map (\<lambda>e. if asid e \<noteq> a then e else flushed_entry e) (take n t) @ drop n t"

definition with_sl_tlb :: "(TLB_ENTRY list \<Rightarrow> nat \<Rightarrow> TLB_ENTRY list) \<Rightarrow> 'a trace_state \<Rightarrow> 'a trace_state comp" where
  "with_sl_tlb f s =
     (if tlb_size s \<le> 0 then ret s
      else case sl_tlb s of
        None \<Rightarrow> raise NullDeref
      | Some t \<Rightarrow> if length t < nat (tlb_size s) then raise OutOfBounds
                  else ret (s\<lparr>sl_tlb := Some (f t (nat (tlb_size s)))\<rparr>))"

definition tlbtrace_flush_all :: "'a trace_state \<Rightarrow> 'a trace_state comp" where
  "tlbtrace_flush_all s = (if \<not> started s then ret s else with_sl_tlb FLUSH_TLB s)"

definition tlbtrace_flush_entry :: "u32 \<Rightarrow> 'a trace_state \<Rightarrow> 'a trace_state comp" where
  "tlbtrace_flush_entry v s =
     (if \<not> started s then ret s
      else with_sl_tlb (\<lambda>t n. FLUSH_TLB_ENTRY t n (v AND 0xFFFFF000) (v AND 0xFF)) s)"

definition tlbtrace_flush_asid :: "u32 \<Rightarrow> 'a trace_state \<Rightarrow> 'a trace_state comp" where
  "tlbtrace_flush_asid a s =
     (if \<not> started s then ret s else with_sl_tlb (\<lambda>t n. FLUSH_TLB_ASID t n a) s)"

section \<open>Starting and stopping\<close>

text \<open>\<open>%02d\<close>.\<close>

definition dec2 :: "int \<Rightarrow> string" where
  "dec2 i = (let d = dec_int i in if length d < 2 then ''0'' @ d else d)"

text \<open>The local time: month (from 0), day, hour and minute.\<close>

type_synonym local_time = "int \<times> int \<times> int \<times> int"

definition trace_file_name :: "local_time \<Rightarrow> int \<Rightarrow> int \<Rightarrow> string" where
  "trace_file_name tm n k =
     (case tm of (mon, mday, hour, minute) \<Rightarrow>
        take 255 (''trace_'' @ dec2 (mon + 1) @ dec2 mday @ ''_'' @ dec2 hour @ dec2 minute @
          ''_'' @ dec_int n @ ''.'' @ dec_int k))"

text \<open>
  \<open>open_ok\<close>: whether \<open>open\<close> succeeds; \<open>new_buf\<close>: the block \<open>malloc\<close> returns, with whatever it
  holds, or \<open>None\<close>.
\<close>

definition tlbtrace_start :: "local_time \<Rightarrow> bool \<Rightarrow> (nat \<Rightarrow> u32) option \<Rightarrow> 'a trace_state \<Rightarrow> 'a trace_state comp" where
  "tlbtrace_start tm open_ok new_buf s0 =
     (let name = trace_file_name tm (tlb_size s0) (tlb_set s0);
          s1 = s0\<lparr>fout := (if open_ok then Some name else None),
                  disk := (if open_ok then (disk s0)(name := Some []) else disk s0),
                  fbc := 0, fbuf := new_buf, sl_systs := 0\<rparr>
      in comp_bind (with_sl_tlb FLUSH_TLB s1) (\<lambda>s2.
         ret (s2\<lparr>sl_cnt := (sl_cnt s2)\<lparr>miss := 0, hit := 0\<rparr>\<rparr>)))"

definition tlbtrace_toggle :: "local_time \<Rightarrow> bool \<Rightarrow> (nat \<Rightarrow> u32) option \<Rightarrow> 'a trace_state \<Rightarrow> 'a trace_state comp" where
  "tlbtrace_toggle tm open_ok new_buf s =
     (if \<not> started s then tlbtrace_start tm open_ok new_buf (s\<lparr>started := True\<rparr>)
      else tlbtrace_stop (s\<lparr>started := False\<rparr>))"

definition tlbtrace_enabled :: "'a trace_state \<Rightarrow> bool" where
  "tlbtrace_enabled s = started s"

text \<open>\<open>new_tlb\<close>: the entries \<open>malloc\<close> returns for the TLB.\<close>

definition tlbtrace_init ::
  "int \<Rightarrow> int \<Rightarrow> ('a \<Rightarrow> u32 \<Rightarrow> pte_result) \<Rightarrow> TLB_ENTRY list option \<Rightarrow> 'a trace_state \<Rightarrow> (int \<times> 'a trace_state) comp" where
  "tlbtrace_init n k pte_helper new_tlb s =
     comp_bind (c_div n k) (\<lambda>step.
     comp_bind (c_int (step - 1)) (\<lambda>setmask.
     ret (0, s\<lparr>started := False, tlb_size := n, tlb_set := k, tlb_set_step := step, tlb_set_mask := setmask,
       sl_tlb := new_tlb, my_pte_helper := Some pte_helper\<rparr>)))"

definition tlbtrace_destroy :: "'a trace_state \<Rightarrow> 'a trace_state" where
  "tlbtrace_destroy s = s\<lparr>started := False, sl_tlb := None\<rparr>"

section \<open>The main TLB as a cache\<close>

definition sl_ok :: "'a trace_state \<Rightarrow> bool" where
  "sl_ok s \<longleftrightarrow> (\<exists>t. sl_tlb s = Some t \<and> length t = nat (tlb_size s) \<and> last_ins_idx s < length t \<and> length t \<le> 2 ^ 30) \<and>
     0 < tlb_size s \<and> 0 < tlb_set_step s \<and> tlb_set_step s \<le> 2 ^ 30"

definition sl_ways :: "u32 \<Rightarrow> 'a trace_state \<Rightarrow> nat set" where
  "sl_ways addr s = ways (first_way 12 addr (tlb_set_mask s)) (tlb_set_step s) (tlb_size s)"

abbreviation sl_entries :: "'a trace_state \<Rightarrow> TLB_ENTRY list" where
  "sl_entries s \<equiv> the (sl_tlb s)"

text \<open>The loop and the refill, without the fast path and the limit; a key is an address, an ASID and \<open>ins\<close>.\<close>

interpretation sl: cache_shape "\<lambda>(addr, a, ins) s. sl_slow addr a ins (sl_entries s) s"
  "\<lambda>(addr, a, _) e. va e = addr \<and> asid e = a" "\<lambda>(addr, a, _). refill_asid addr a" "\<lambda>(addr, _). sl_ways addr"
  sl_entries sl_cnt sl_systs sl_ok "\<lambda>(addr, _) s. first_way 12 addr (tlb_set_mask s)" tlb_set_step tlb_size
  "\<lambda>(_, _, ins) i s. (sl_hit i (sl_entries s) s)\<lparr>last_ins_idx := (if ins then i else last_ins_idx s)\<rparr>"
  "\<lambda>(addr, a, ins) i s. sl_refill addr a ins i (sl_entries s) s"
proof (unfold_locales, goal_cases)
  case (1 s k)
  show ?case by (cases k) (simp add: sl_slow_def cong: scan_result.case_cong)
qed (auto simp: sl_hit_def sl_refill_def sl_ways_def sl_ok_def good_geometry_def)

end
