(* ===== verification/Trace_File.thy ===== *)
theory Trace_File
  imports Tlb_Trace Sim_Driver
begin

text \<open>
  What the tracer writes: the invariant of its buffer and file, that every reference that misses
  the main TLB adds one tuple and every other reference none, and that the simulator reads back
  from the file exactly these tuples.
\<close>

section \<open>One lookup of the main TLB\<close>

text \<open>A reference hits by the fast path or in its set.\<close>

definition sl_present :: "u32 \<Rightarrow> u32 \<Rightarrow> bool \<Rightarrow> 'a trace_state \<Rightarrow> bool" where
  "sl_present addr a ins s \<longleftrightarrow>
     (ins \<and> va (sl_entries s ! last_ins_idx s) = addr \<and> asid (sl_entries s ! last_ins_idx s) = a) \<or>
     (\<exists>i\<in>sl_ways addr s. va (sl_entries s ! i) = addr \<and> asid (sl_entries s ! i) = a)"

text \<open>What a lookup leaves alone.\<close>

definition same_output :: "'a trace_state \<Rightarrow> 'a trace_state \<Rightarrow> bool" where
  "same_output s s' \<longleftrightarrow> fout s' = fout s \<and> fbc s' = fbc s \<and> fbuf s' = fbuf s \<and> disk s' = disk s \<and>
     my_pte_helper s' = my_pte_helper s \<and> exited s' = exited s \<and> started s' = started s \<and> tlb_size s' = tlb_size s"

lemma refmem_sl_body:
  assumes "sl_ok s"
  shows "tlbtrace_refmem_sl addr a ins s =
    (if ins \<and> va (sl_entries s ! last_ins_idx s) = addr \<and> asid (sl_entries s ! last_ins_idx s) = a
     then ret (True, sl_hit (last_ins_idx s) (sl_entries s) s)
     else comp_bind (sl_slow addr a ins (sl_entries s) s) (\<lambda>(h, s').
       if h then ret (True, s') else comp_bind (sl_check_limit s') (\<lambda>s''. ret (False, s''))))"
proof -
  obtain t where t: "sl_tlb s = Some t" "\<not> length t \<le> last_ins_idx s"
    using assms by (auto simp: sl_ok_def)
  moreover have "t \<noteq> []" using t(2) by auto
  ultimately show ?thesis by (simp add: tlbtrace_refmem_sl_def)
qed

lemma refmem_sl_returns:
  assumes ok: "sl_ok s" and lim: "sl_systs s + 1 < SYSTS_LIMIT"
  obtains s' where "tlbtrace_refmem_sl addr a ins s = ret (sl_present addr a ins s, s')"
    and "sl_ok s'" and "same_output s s'" and "sl_systs s' = sl_systs s + 1"
    and "sl_cnt s' = (if sl_present addr a ins s then count_hit (sl_cnt s) else count_miss (sl_cnt s))"
proof -
  let ?t = "sl_entries s" and ?k = "(addr, a, ins)"
  note body = refmem_sl_body [OF ok, of addr a ins]
  show thesis
  proof (cases "ins \<and> va (?t ! last_ins_idx s) = addr \<and> asid (?t ! last_ins_idx s) = a")
    case True
    then have "tlbtrace_refmem_sl addr a ins s = ret (True, sl_hit (last_ins_idx s) ?t s)"
      by (subst body) (rule if_P)
    with True ok show ?thesis
      by (intro that [of "sl_hit (last_ins_idx s) ?t s"])
        (auto simp: sl_present_def sl_hit_def sl_ok_def same_output_def)
  next
    case False
    have eq: "tlbtrace_refmem_sl addr a ins s = comp_bind (sl_slow addr a ins ?t s) (\<lambda>(h, s').
        if h then ret (True, s') else comp_bind (sl_check_limit s') (\<lambda>s''. ret (False, s'')))"
      using False by (simp only: body if_False)
    from ok show ?thesis
    proof (cases rule: sl.access_cases [of s ?k])
      case (hit i)
      have "sl_ok ((sl_hit i ?t s)\<lparr>last_ins_idx := (if ins then i else last_ins_idx s)\<rparr>)"
        using sl.access_ok [OF ok hit(1)] by simp
      with hit eq show ?thesis
        by (intro that [of "(sl_hit i ?t s)\<lparr>last_ins_idx := (if ins then i else last_ins_idx s)\<rparr>"])
          (auto simp: sl_present_def sl_hit_def same_output_def)
    next
      case (miss m)
      have "sl_ok (sl_refill addr a ins m ?t s)"
        using sl.access_ok [OF ok miss(1)] by simp
      moreover have "sl_check_limit (sl_refill addr a ins m ?t s) = ret (sl_refill addr a ins m ?t s)"
        using lim by (auto simp: sl_check_limit_def sl_refill_def)
      moreover have "\<not> sl_present addr a ins s" using miss(2) False by (auto simp: sl_present_def)
      ultimately show ?thesis using miss(1) eq
        by (intro that [of "sl_refill addr a ins m ?t s"]) (auto simp: sl_refill_def same_output_def)
    qed
  qed
qed

section \<open>The buffer and the file\<close>

definition tracing :: "'a trace_state \<Rightarrow> bool" where
  "tracing s \<longleftrightarrow> sl_ok s \<and> \<not> exited s \<and> my_pte_helper s \<noteq> None \<and> fbuf s \<noteq> None \<and>
     fbc s < FBUF_WORDS \<and> 4 dvd fbc s \<and> (\<exists>name bs. fout s = Some name \<and> disk s name = Some bs)"

text \<open>The bytes already in the file, followed by those still in the buffer.\<close>

definition trace_log :: "'a trace_state \<Rightarrow> u8 list" where
  "trace_log s = the (disk s (the (fout s))) @ buffer_bytes (the (fbuf s)) (fbc s)"

definition tuple_bytes :: "u32 \<times> u32 \<times> u32 \<times> u32 \<Rightarrow> u8 list" where
  "tuple_bytes t = (case t of (a, b, c, d) \<Rightarrow> bytes_of_u32 a @ bytes_of_u32 b @ bytes_of_u32 c @ bytes_of_u32 d)"

definition tuple_of :: "'a trace_state \<Rightarrow> 'a \<Rightarrow> u32 \<Rightarrow> u32 \<times> u32 \<times> u32 \<times> u32" where
  "tuple_of s arg addr = (case the (my_pte_helper s) arg addr of (r, l1, l2, gpa) \<Rightarrow> (addr OR r, l1, l2, gpa))"

lemma buffer_bytes_Suc: "buffer_bytes (buf(n := w)) (Suc n) = buffer_bytes buf n @ bytes_of_u32 w"
proof -
  have "map (bytes_of_u32 \<circ> buf(n := w)) [0..<n] = map (bytes_of_u32 \<circ> buf) [0..<n]" by simp
  then have "concat (map (bytes_of_u32 \<circ> buf(n := w)) [0..<n]) = concat (map (bytes_of_u32 \<circ> buf) [0..<n])"
    by (rule arg_cong)
  then show ?thesis unfolding buffer_bytes_def by (simp del: map_map)
qed

lemma buffer_bytes_0 [simp]: "buffer_bytes buf 0 = []"
  by (simp add: buffer_bytes_def)

lemma put_fbuf_ret:
  "fbuf s = Some buf \<Longrightarrow> fbc s < FBUF_WORDS \<Longrightarrow>
   put_fbuf w s = ret (s\<lparr>fbuf := Some (buf(fbc s := w)), fbc := fbc s + 1\<rparr>)"
  by (simp add: put_fbuf_def)

lemma refmem_pwc_returns:
  assumes tr: "tracing s"
  obtains s' where "tlbtrace_refmem_pwc addr arg s = ret s'" and "tracing s'"
    and "trace_log s' = trace_log s @ tuple_bytes (tuple_of s arg addr)"
    and "sl_systs s' = sl_systs s" and "sl_cnt s' = sl_cnt s" and "fout s' = fout s"
    and "my_pte_helper s' = my_pte_helper s"
proof -
  obtain buf name bs h where f: "fbuf s = Some buf" "fout s = Some name" "disk s name = Some bs"
    "my_pte_helper s = Some h" using tr by (auto simp: tracing_def)
  have room: "fbc s + 4 \<le> FBUF_WORDS"
    using tr by (auto simp: tracing_def FBUF_WORDS_def elim!: dvdE)
  obtain r l1 l2 gpa where h: "h arg addr = (r, l1, l2, gpa)" by (cases "h arg addr") auto
  let ?b = "buf(fbc s := addr OR r, Suc (fbc s) := l1, Suc (Suc (fbc s)) := l2, Suc (Suc (Suc (fbc s))) := gpa)"
  let ?s4 = "s\<lparr>fbuf := Some ?b, fbc := fbc s + 4\<rparr>"
  have eq: "tlbtrace_refmem_pwc addr arg s = ret (flush_fbuf ?s4)"
    using f h room by (simp add: tlbtrace_refmem_pwc_def put_fbuf_ret eval_nat_numeral)
  have bytes: "buffer_bytes ?b (fbc s + 4) = buffer_bytes buf (fbc s) @ tuple_bytes (addr OR r, l1, l2, gpa)"
    using buffer_bytes_Suc by (simp add: numeral_eq_Suc tuple_bytes_def)
  show thesis
  proof (rule that [OF eq])
    show "tracing (flush_fbuf ?s4)"
      using tr f room by (auto simp: tracing_def flush_fbuf_def sl_ok_def append_file_def FBUF_WORDS_def)
    show "trace_log (flush_fbuf ?s4) = trace_log s @ tuple_bytes (tuple_of s arg addr)"
      using f h bytes by (auto simp: trace_log_def flush_fbuf_def append_file_def tuple_of_def)
  qed (simp_all add: flush_fbuf_def)
qed

section \<open>Sequences of references\<close>

text \<open>
  The references of a client: address, ASID, whether it is an instruction fetch, and the argument for the
  callback. \<open>run_refs\<close> runs them and collects the tuples of those that the main TLB does not hold.
\<close>

type_synonym 'a reference = "u32 \<times> u32 \<times> bool \<times> 'a"

fun run_refs :: "'a reference list \<Rightarrow> 'a trace_state \<Rightarrow> ((u32 \<times> u32 \<times> u32 \<times> u32) list \<times> 'a trace_state) comp" where
  "run_refs [] s = ret ([], s)"
| "run_refs ((addr, a, ins, arg) # refs) s =
     comp_bind (tlbtrace_refmem addr a ins arg s) (\<lambda>s1.
     comp_bind (run_refs refs s1) (\<lambda>(tups, s2).
     ret (if sl_present (addr AND 0xFFFFF000) a ins s then tups
          else tuple_of s arg (addr AND 0xFFFFF000) # tups, s2)))"

lemma tracing_same_output:
  assumes "tracing s" and "same_output s s'" and "sl_ok s'"
  shows "tracing s'" and "trace_log s' = trace_log s" and "tuple_of s' = tuple_of s"
  using assms by (auto simp: tracing_def same_output_def trace_log_def tuple_of_def fun_eq_iff)

lemma refmem_returns:
  assumes "tracing s" and "sl_systs s + 1 < SYSTS_LIMIT"
  obtains s' where "tlbtrace_refmem addr a ins arg s = ret s'" and "tracing s'"
    and "sl_systs s' = sl_systs s + 1" and "fout s' = fout s"
    and "trace_log s' = trace_log s @
      (if sl_present (addr AND 0xFFFFF000) a ins s then [] else tuple_bytes (tuple_of s arg (addr AND 0xFFFFF000)))"
proof -
  let ?addr = "addr AND 0xFFFFF000"
  have ok: "sl_ok s" using assms(1) by (simp add: tracing_def)
  obtain s1 where 1: "tlbtrace_refmem_sl ?addr a ins s = ret (sl_present ?addr a ins s, s1)" "sl_ok s1"
      "same_output s s1" "sl_systs s1 = sl_systs s + 1"
    using refmem_sl_returns [OF ok assms(2)] by blast
  note tr1 = tracing_same_output [OF assms(1) 1(3,2)]
  have ex: "\<not> exited s1" using tr1(1) by (simp add: tracing_def)
  show thesis
  proof (cases "sl_present ?addr a ins s")
    case True
    with 1 tr1 show ?thesis by (intro that [of s1]) (auto simp: tlbtrace_refmem_def same_output_def)
  next
    case False
    obtain s2 where 2: "tlbtrace_refmem_pwc ?addr arg s1 = ret s2" "tracing s2"
        "trace_log s2 = trace_log s1 @ tuple_bytes (tuple_of s1 arg ?addr)" "sl_systs s2 = sl_systs s1"
        "fout s2 = fout s1"
      using refmem_pwc_returns [OF tr1(1)] by blast
    with False 1 tr1 ex show ?thesis
      by (intro that [of s2]) (auto simp: tlbtrace_refmem_def Let_def same_output_def)
  qed
qed

lemma word_less_limit: "unat (w :: u64) + n < 150000000000 \<Longrightarrow> 0 < n \<Longrightarrow>
  w + 1 < SYSTS_LIMIT \<and> unat (w + 1) = unat w + 1"
  by (simp add: SYSTS_LIMIT_def word_less_nat_alt unat_word_ariths)

lemma run_refs_log:
  "tracing s \<Longrightarrow> unat (sl_systs s) + length refs < 150000000000 \<Longrightarrow>
   \<exists>tups s'. run_refs refs s = ret (tups, s') \<and> tracing s' \<and> fout s' = fout s \<and>
     trace_log s' = trace_log s @ concat (map tuple_bytes tups)"
proof (induction refs arbitrary: s)
  case (Cons r refs)
  obtain addr a ins arg where r: "r = (addr, a, ins, arg)" by (cases r) auto
  have w: "sl_systs s + 1 < SYSTS_LIMIT" "unat (sl_systs s + 1) = unat (sl_systs s) + 1"
    using word_less_limit [of "sl_systs s" "length (r # refs)"] Cons.prems(2) by auto
  obtain s1 where 1: "tlbtrace_refmem addr a ins arg s = ret s1" "tracing s1" "sl_systs s1 = sl_systs s + 1"
      "fout s1 = fout s" "trace_log s1 = trace_log s @
      (if sl_present (addr AND 0xFFFFF000) a ins s then [] else tuple_bytes (tuple_of s arg (addr AND 0xFFFFF000)))"
    using refmem_returns [OF Cons.prems(1) w(1)] by blast
  obtain tups s2 where 2: "run_refs refs s1 = ret (tups, s2)" "tracing s2" "fout s2 = fout s1"
      "trace_log s2 = trace_log s1 @ concat (map tuple_bytes tups)"
    using Cons.IH [OF 1(2)] Cons.prems(2) w(2) 1(3) by auto
  from 1 2 r show ?case by simp
qed simp

lemma tuples_concat: "tuples (concat (map tuple_bytes tups)) = tups"
proof (induction tups)
  case Nil
  show ?case by (simp add: tuples.simps fread4_def)
next
  case (Cons t tups)
  obtain a b c d where t: "t = (a, b, c, d)" by (cases t) auto
  have "fread4 (concat (map tuple_bytes (t # tups))) = Some (t, concat (map tuple_bytes tups))"
    using fread4_bytes [of a b c d "concat (map tuple_bytes tups)"] t by (simp add: tuple_bytes_def)
  then show ?case using Cons by (subst tuples.simps) simp
qed

section \<open>Properties\<close>

lemma with_sl_tlb_flush:
  assumes "sl_ok s" and "\<And>t n. length (f t n) = length t"
  shows "with_sl_tlb f s = ret (s\<lparr>sl_tlb := Some (f (sl_entries s) (nat (tlb_size s)))\<rparr>)"
    and "sl_ok (s\<lparr>sl_tlb := Some (f (sl_entries s) (nat (tlb_size s)))\<rparr>)"
  using assms by (auto simp: with_sl_tlb_def sl_ok_def)

text \<open>A tracer that is initialised but not running.\<close>

definition ready :: "'a trace_state \<Rightarrow> bool" where
  "ready s \<longleftrightarrow> sl_ok s \<and> \<not> exited s \<and> my_pte_helper s \<noteq> None"

lemma start_tracing:
  assumes "ready s"
  obtains s' where "tlbtrace_start tm True (Some buf) s = ret s'" and "tracing s'" and "trace_log s' = []"
    and "sl_systs s' = 0" and "fout s' = Some (trace_file_name tm (tlb_size s) (tlb_set s))"
proof -
  let ?name = "trace_file_name tm (tlb_size s) (tlb_set s)"
  let ?s1 = "s\<lparr>fout := Some ?name, disk := (disk s)(?name := Some []), fbc := 0, fbuf := Some buf, sl_systs := 0\<rparr>"
  let ?s2 = "?s1\<lparr>sl_tlb := Some (FLUSH_TLB (sl_entries ?s1) (nat (tlb_size ?s1)))\<rparr>"
  let ?s3 = "?s2\<lparr>sl_cnt := (sl_cnt ?s2)\<lparr>miss := 0, hit := 0\<rparr>\<rparr>"
  have "sl_ok ?s1" using assms by (simp add: ready_def sl_ok_def)
  note f = with_sl_tlb_flush [OF this, of FLUSH_TLB, OF length_FLUSH_TLB]
  show thesis
  proof (rule that [of ?s3])
    show "tlbtrace_start tm True (Some buf) s = ret ?s3"
      using f(1) by (simp add: tlbtrace_start_def Let_def)
    show "tracing ?s3" using assms f(2) by (auto simp: tracing_def ready_def sl_ok_def FBUF_WORDS_def)
  qed (simp_all add: trace_log_def)
qed

lemma stop_tracing:
  assumes "tracing s"
  shows "\<exists>s'. tlbtrace_stop s = ret s' \<and> disk s' (the (fout s)) = Some (trace_log s)"
  using assms by (auto simp: tracing_def tlbtrace_stop_def trace_log_def append_file_def)

text \<open>
  C2. Tracing a program end to end: for every sequence of references shorter than the limit
  at which the tracer exits, starting, running and stopping the tracer returns, and the simulator
  reads from the trace file exactly one tuple for each reference that missed the main TLB, in
  order: the page address combined with the result of the page walk, the two
  descriptor addresses and the output address.
\<close>

theorem trace_file_roundtrip:
  assumes "ready s" and "length refs < 150000000000"
  shows "\<exists>s1 tups s2 s3 bs. tlbtrace_start tm True (Some buf) s = ret s1 \<and> run_refs refs s1 = ret (tups, s2) \<and>
    tlbtrace_stop s2 = ret s3 \<and> disk s3 (trace_file_name tm (tlb_size s) (tlb_set s)) = Some bs \<and> tuples bs = tups"
proof -
  obtain s1 where 1: "tlbtrace_start tm True (Some buf) s = ret s1" "tracing s1" "trace_log s1 = []"
      "sl_systs s1 = 0" "fout s1 = Some (trace_file_name tm (tlb_size s) (tlb_set s))"
    using start_tracing [OF assms(1)] by blast
  obtain tups s2 where 2: "run_refs refs s1 = ret (tups, s2)" "tracing s2" "fout s2 = fout s1"
      "trace_log s2 = concat (map tuple_bytes tups)"
    using run_refs_log [OF 1(2), of refs] 1(3,4) assms(2) by auto
  obtain s3 where "tlbtrace_stop s2 = ret s3" "disk s3 (the (fout s2)) = Some (trace_log s2)"
    using stop_tracing [OF 2(2)] by blast
  with 1 2 show ?thesis by (auto simp: tuples_concat)
qed

definition demo_tracer :: "unit trace_state" where
  "demo_tracer = \<lparr>tlb_size = 4, tlb_set = 2, tlb_set_step = 2, tlb_set_mask = 1,
     sl_tlb = Some (replicate 4 zero_entry), sl_cnt = zero_counter, sl_systs = 0, started = False,
     fout = None, fbc = 0, fbuf = None, my_pte_helper = Some (\<lambda>_ addr. (3, addr + 4, addr + 8, addr)),
     last_ins_idx = 0, disk = (\<lambda>_. None), exited = False\<rparr>"

lemma demo_tracer_ready: "ready demo_tracer"
  by (simp add: ready_def sl_ok_def demo_tracer_def)

theorem trace_file_roundtrip_witness:
  "\<exists>s1 tups s2 s3 bs. tlbtrace_start (0, 1, 2, 3) True (Some (\<lambda>_. 0)) demo_tracer = ret s1 \<and>
    run_refs [(0x1234, 7, True, ()), (0x1238, 7, True, ()), (0x2000, 7, False, ())] s1 = ret (tups, s2) \<and>
    tlbtrace_stop s2 = ret s3 \<and>
    disk s3 (trace_file_name (0, 1, 2, 3) (tlb_size demo_tracer) (tlb_set demo_tracer)) = Some bs \<and> tuples bs = tups"
  by (rule trace_file_roundtrip [OF demo_tracer_ready]) simp

text \<open>
  The fast path of instruction fetches is an optimisation only: when the entry of the last
  fetch lies in the set of the address and no other way of the set has the same key, a fetch that
  takes the fast path returns what the loop would have returned, with the same state.
\<close>

theorem refmem_fast_path_equiv:
  assumes "sl_ok s" and "last_ins_idx s \<in> sl_ways addr s"
    and "va (sl_entries s ! last_ins_idx s) = addr" and "asid (sl_entries s ! last_ins_idx s) = a"
    and "\<forall>i\<in>sl_ways addr s. va (sl_entries s ! i) = addr \<and> asid (sl_entries s ! i) = a \<longrightarrow> i = last_ins_idx s"
  shows "tlbtrace_refmem_sl addr a True s = sl_slow addr a True (sl_entries s) s"
proof -
  have fast: "tlbtrace_refmem_sl addr a True s = ret (True, sl_hit (last_ins_idx s) (sl_entries s) s)"
    using assms(3,4) by (simp add: refmem_sl_body [OF assms(1)])
  from assms(1) show ?thesis
  proof (cases rule: sl.access_cases [of s "(addr, a, True)"])
    case (hit i)
    then have "i = last_ins_idx s" using assms(5) by auto
    with hit(1) fast show ?thesis by (simp add: sl_hit_def)
  next
    case (miss m)
    with assms(2-4) show ?thesis by auto
  qed
qed

definition fetched_tracer :: "unit trace_state" where
  "fetched_tracer = demo_tracer\<lparr>sl_tlb := Some ((replicate 4 zero_entry)[3 := zero_entry\<lparr>va := 0x1000, asid := 7, ts := 1\<rparr>]),
     sl_systs := 1, last_ins_idx := 3\<rparr>"

theorem refmem_fast_path_equiv_witness:
  "tlbtrace_refmem_sl 0x1000 7 True fetched_tracer = sl_slow 0x1000 7 True (sl_entries fetched_tracer) fetched_tracer"
proof -
  have "first_way 12 0x1000 1 = 1" by (simp add: first_way_def)
  then have W: "sl_ways 0x1000 fetched_tracer = {1, 3}"
    by (simp add: sl_ways_def fetched_tracer_def demo_tracer_def ways_step [of 2 1 4] ways_step [of 2 3 4] ways_empty)
  show ?thesis
    by (rule refmem_fast_path_equiv)
      (simp_all add: W, simp_all add: fetched_tracer_def demo_tracer_def sl_ok_def zero_entry_def)
qed

lemma length_dec_nat: "n < 10 ^ d \<Longrightarrow> 0 < d \<Longrightarrow> length (dec_nat n) \<le> d"
proof (induction d arbitrary: n)
  case (Suc d)
  show ?case
  proof (cases "n < 10")
    case True
    then show ?thesis by (simp add: dec_nat.simps [of n])
  next
    case False
    then have "n div 10 < 10 ^ d" "0 < d" using Suc.prems by (auto simp: less_mult_imp_div_less mult.commute intro: gr0I)
    from Suc.IH [OF this] False show ?thesis by (simp add: dec_nat.simps [of n])
  qed
qed simp

lemma length_dec_int: "0 \<le> i \<Longrightarrow> i < 2 ^ 31 \<Longrightarrow> length (dec_int i) \<le> 10"
  using length_dec_nat [of "nat i" 10] by (simp add: dec_int_def)

lemma length_dec2: "0 \<le> i \<Longrightarrow> i < 100 \<Longrightarrow> length (dec2 i) \<le> 2"
  using length_dec_nat [of "nat i" 2] by (simp add: dec2_def dec_int_def Let_def)

text \<open>
  The trace files that \<open>tlbtrace_start\<close> names are among those that the simulator looks for:
  the name starts with \<open>trace_\<close> and contains the suffix of the same configuration.
\<close>

theorem trace_file_name_accepted:
  assumes "0 \<le> mon" "mon < 12" "1 \<le> mday" "mday \<le> 31" "0 \<le> hour" "hour < 24" "0 \<le> minute" "minute < 60"
    and "0 \<le> n" and "n < 2 ^ 31" and "0 \<le> k" and "k < 2 ^ 31"
  shows "is_trace_name (trace_suffix n k) (trace_file_name (mon, mday, hour, minute) n k)"
proof -
  let ?pre = "''trace_'' @ dec2 (mon + 1) @ dec2 mday @ ''_'' @ dec2 hour @ dec2 minute"
  let ?suf = "''_'' @ dec_int n @ ''.'' @ dec_int k"
  have len: "length (dec_int n) \<le> 10" "length (dec_int k) \<le> 10"
    using assms by (simp_all add: length_dec_int)
  have "length (dec2 (mon + 1)) \<le> 2" "length (dec2 mday) \<le> 2" "length (dec2 hour) \<le> 2" "length (dec2 minute) \<le> 2"
    using assms by (simp_all add: length_dec2)
  with len have "trace_file_name (mon, mday, hour, minute) n k = ?pre @ ?suf"
    by (simp add: trace_file_name_def)
  moreover have "trace_suffix n k = ?suf" using len by (simp add: trace_suffix_def)
  moreover have "sublist ?suf (?pre @ ?suf)" by (rule suffix_imp_sublist) (rule suffixI, rule refl)
  ultimately show ?thesis by (simp add: is_trace_name_def)
qed

theorem trace_file_name_accepted_witness:
  "is_trace_name (trace_suffix 64 4) (trace_file_name (11, 31, 23, 59) 64 4)"
  by (rule trace_file_name_accepted) simp_all

end
