(* ===== verification/Ram_List.thy ===== *)
theory Ram_List
  imports Prelude
begin

text \<open>
  The RAM blocks of the emulator (\<open>src/qemu/exec.c\<close>, \<open>src/qemu/cpu-all.h\<close>): a list of blocks
  with their ranges of RAM addresses and the dirty bytes of the pages. Allocation looks for the
  smallest gap that is large enough; a lookup moves the block it finds to the front of the list. Host
  addresses and RAM addresses are 64 bits wide; the range of a block is compared with wrap-around
  subtraction, as in the code.
\<close>

section \<open>Definitions\<close>

definition TARGET_PAGE_BITS :: nat where
  "TARGET_PAGE_BITS = 10"

definition RAM_PREALLOC_MASK :: u32 where
  "RAM_PREALLOC_MASK = 1"

record RAMBlock =
  host :: u64
  offset :: u64
  blength :: u64
  flags :: u32
  idstr :: string

record RAMList =
  phys_dirty :: "u8 list"
  blocks :: "RAMBlock list"

definition TARGET_PAGE_ALIGN :: "u64 \<Rightarrow> u64" where
  "TARGET_PAGE_ALIGN addr = (addr + (2 ^ TARGET_PAGE_BITS - 1)) AND NOT (mask TARGET_PAGE_BITS)"

text \<open>The inner loop of \<open>find_ram_offset\<close>: the lowest block that starts at \<open>end\<close> or above.\<close>

fun next_block_offset :: "u64 \<Rightarrow> RAMBlock list \<Rightarrow> u64 \<Rightarrow> u64" where
  "next_block_offset e [] nxt = nxt"
| "next_block_offset e (b # bs) nxt = next_block_offset e bs (if e \<le> offset b then min nxt (offset b) else nxt)"

fun find_gap :: "u64 \<Rightarrow> RAMBlock list \<Rightarrow> RAMBlock list \<Rightarrow> u64 \<Rightarrow> u64 \<Rightarrow> u64" where
  "find_gap sz all [] off mingap = off"
| "find_gap sz all (b # bs) off mingap =
     (let e = offset b + blength b;
          nxt = next_block_offset e all (- 1)
      in if sz \<le> nxt - e \<and> nxt - e < mingap then find_gap sz all bs e (nxt - e)
         else find_gap sz all bs off mingap)"

definition find_ram_offset :: "u64 \<Rightarrow> RAMList \<Rightarrow> u64" where
  "find_ram_offset sz rl =
     (if blocks rl = [] then 0 else find_gap sz (blocks rl) (blocks rl) 0 (- 1))"

definition last_ram_offset :: "RAMBlock list \<Rightarrow> u64" where
  "last_ram_offset bs = fold (\<lambda>b last. max last (offset b + blength b)) bs 0"

text \<open>
  \<open>qemu_realloc\<close> keeps the old bytes; the new ones are unspecified (here \<open>new_byte\<close>) until
  \<open>memset\<close> writes those of the new block.
\<close>

definition resize :: "nat \<Rightarrow> u8 \<Rightarrow> u8 list \<Rightarrow> u8 list" where
  "resize n new_byte xs = take n xs @ replicate (n - length xs) new_byte"

definition set_range :: "nat \<Rightarrow> nat \<Rightarrow> u8 \<Rightarrow> u8 list \<Rightarrow> u8 list" where
  "set_range i n v xs = take i xs @ replicate n v @ drop (i + n) xs"

definition page_index :: "u64 \<Rightarrow> nat" where
  "page_index addr = unat (drop_bit TARGET_PAGE_BITS addr)"

text \<open>The end of an allocation: the new block goes to the front of the list and its pages are dirty.\<close>

definition insert_block :: "u8 \<Rightarrow> RAMBlock \<Rightarrow> RAMList \<Rightarrow> (u64 \<times> RAMList) comp" where
  "insert_block new_byte blk rl =
     (let bs = blk # blocks rl;
          dirty = resize (page_index (last_ram_offset bs)) new_byte (phys_dirty rl);
          n = page_index (blength blk)
      in if length dirty < page_index (offset blk) + n then raise OutOfBounds
         else ret (offset blk, rl\<lparr>blocks := bs, phys_dirty := set_range (page_index (offset blk)) n 0xFF dirty\<rparr>))"

text \<open>
  \<open>host_ptr\<close> is the argument \<open>host\<close>; \<open>mem_path\<close> the option that this build does not support;
  \<open>vmalloc\<close> the address the host allocator returns for a size.
\<close>

definition qemu_ram_alloc_from_ptr ::
  "(u64 \<Rightarrow> u64) \<Rightarrow> u8 \<Rightarrow> bool \<Rightarrow> string \<Rightarrow> u64 \<Rightarrow> u64 option \<Rightarrow> RAMList \<Rightarrow> (u64 \<times> RAMList) comp" where
  "qemu_ram_alloc_from_ptr vmalloc new_byte mem_path name size0 host_ptr rl =
     (let sz = TARGET_PAGE_ALIGN size0 in
      if \<exists>b\<in>set (blocks rl). idstr b = take 255 name then raise Abort
      else if host_ptr = None \<and> mem_path then raise Exit
      else insert_block new_byte
        \<lparr>host = (case host_ptr of Some h \<Rightarrow> h | None \<Rightarrow> vmalloc sz), offset = find_ram_offset sz rl, blength = sz,
         flags = (case host_ptr of Some _ \<Rightarrow> RAM_PREALLOC_MASK | None \<Rightarrow> 0), idstr = take 255 name\<rparr> rl)"

definition qemu_ram_alloc ::
  "(u64 \<Rightarrow> u64) \<Rightarrow> u8 \<Rightarrow> bool \<Rightarrow> string \<Rightarrow> u64 \<Rightarrow> RAMList \<Rightarrow> (u64 \<times> RAMList) comp" where
  "qemu_ram_alloc vmalloc new_byte mem_path name sz rl =
     qemu_ram_alloc_from_ptr vmalloc new_byte mem_path name sz None rl"

definition qemu_ram_free :: "u64 \<Rightarrow> RAMList \<Rightarrow> RAMList" where
  "qemu_ram_free addr rl =
     (case find (\<lambda>b. addr = offset b) (blocks rl) of
        None \<Rightarrow> rl
      | Some b \<Rightarrow> rl\<lparr>blocks := remove1 b (blocks rl)\<rparr>)"

definition in_block :: "u64 \<Rightarrow> RAMBlock \<Rightarrow> bool" where
  "in_block addr b \<longleftrightarrow> addr - offset b < blength b"

definition qemu_get_ram_ptr :: "u64 \<Rightarrow> RAMList \<Rightarrow> (u64 \<times> RAMList) comp" where
  "qemu_get_ram_ptr addr rl =
     (case find (in_block addr) (blocks rl) of
        None \<Rightarrow> raise Abort
      | Some b \<Rightarrow> ret (host b + (addr - offset b),
          if b \<noteq> hd (blocks rl) then rl\<lparr>blocks := b # remove1 b (blocks rl)\<rparr> else rl))"

definition qemu_safe_ram_ptr :: "u64 \<Rightarrow> RAMList \<Rightarrow> u64 comp" where
  "qemu_safe_ram_ptr addr rl =
     (case find (in_block addr) (blocks rl) of
        None \<Rightarrow> raise Abort
      | Some b \<Rightarrow> ret (host b + (addr - offset b)))"

definition qemu_ram_addr_from_host :: "u64 \<Rightarrow> RAMList \<Rightarrow> u64 option" where
  "qemu_ram_addr_from_host ptr rl =
     (case find (\<lambda>b. ptr - host b < blength b) (blocks rl) of
        None \<Rightarrow> None
      | Some b \<Rightarrow> Some (offset b + (ptr - host b)))"

definition qemu_ram_addr_from_host_nofail :: "u64 \<Rightarrow> RAMList \<Rightarrow> u64 comp" where
  "qemu_ram_addr_from_host_nofail ptr rl =
     (case qemu_ram_addr_from_host ptr rl of None \<Rightarrow> raise Abort | Some addr \<Rightarrow> ret addr)"

text \<open>The dirty bytes: one per page.\<close>

definition cpu_physical_memory_get_dirty_flags :: "u64 \<Rightarrow> RAMList \<Rightarrow> u8 comp" where
  "cpu_physical_memory_get_dirty_flags addr rl =
     (if page_index addr < length (phys_dirty rl) then ret (phys_dirty rl ! page_index addr) else raise OutOfBounds)"

definition cpu_physical_memory_is_dirty :: "u64 \<Rightarrow> RAMList \<Rightarrow> bool comp" where
  "cpu_physical_memory_is_dirty addr rl =
     comp_bind (cpu_physical_memory_get_dirty_flags addr rl) (\<lambda>d. ret (d = 0xFF))"

definition cpu_physical_memory_get_dirty :: "u64 \<Rightarrow> u8 \<Rightarrow> RAMList \<Rightarrow> u8 comp" where
  "cpu_physical_memory_get_dirty addr dirty_flags rl =
     comp_bind (cpu_physical_memory_get_dirty_flags addr rl) (\<lambda>d. ret (d AND dirty_flags))"

definition cpu_physical_memory_set_dirty :: "u64 \<Rightarrow> RAMList \<Rightarrow> RAMList comp" where
  "cpu_physical_memory_set_dirty addr rl =
     (if page_index addr < length (phys_dirty rl)
      then ret (rl\<lparr>phys_dirty := (phys_dirty rl)[page_index addr := 0xFF]\<rparr>) else raise OutOfBounds)"

definition cpu_physical_memory_set_dirty_flags :: "u64 \<Rightarrow> u8 \<Rightarrow> RAMList \<Rightarrow> (u8 \<times> RAMList) comp" where
  "cpu_physical_memory_set_dirty_flags addr dirty_flags rl =
     comp_bind (cpu_physical_memory_get_dirty_flags addr rl) (\<lambda>d.
       ret (d OR dirty_flags, rl\<lparr>phys_dirty := (phys_dirty rl)[page_index addr := d OR dirty_flags]\<rparr>))"

text \<open>The loop over the bytes of \<open>len = length >> TARGET_PAGE_BITS\<close> pages; the flags are cleared.\<close>

definition cpu_physical_memory_mask_dirty_range :: "u64 \<Rightarrow> u64 \<Rightarrow> u8 \<Rightarrow> RAMList \<Rightarrow> RAMList comp" where
  "cpu_physical_memory_mask_dirty_range start len dirty_flags rl =
     (let i = page_index start; n = page_index len in
      if length (phys_dirty rl) < i + n then raise OutOfBounds
      else ret (rl\<lparr>phys_dirty := take i (phys_dirty rl) @
             map (\<lambda>d. d AND NOT dirty_flags) (take n (drop i (phys_dirty rl))) @ drop (i + n) (phys_dirty rl)\<rparr>))"

section \<open>Ranges\<close>

definition block_range :: "RAMBlock \<Rightarrow> u64 set" where
  "block_range b = {addr. in_block addr b}"

definition host_range :: "RAMBlock \<Rightarrow> u64 set" where
  "host_range b = {ptr. ptr - host b < blength b}"

text \<open>The blocks of the list are disjoint in RAM addresses.\<close>

definition disjoint_blocks :: "RAMBlock list \<Rightarrow> bool" where
  "disjoint_blocks bs \<longleftrightarrow> (\<forall>b\<in>set bs. \<forall>b'\<in>set bs. b \<noteq> b' \<longrightarrow> block_range b \<inter> block_range b' = {})"

lemma find_Some_mem: "find P bs = Some b \<Longrightarrow> b \<in> set bs \<and> P b"
  by (induction bs) (auto split: if_splits)

lemma find_unique:
  assumes "b \<in> set bs" and "P b" and "\<And>b'. b' \<in> set bs \<Longrightarrow> P b' \<Longrightarrow> b' = b"
  shows "find P bs = Some b"
proof (cases "find P bs")
  case None
  then show ?thesis using assms(1,2) by (auto simp: find_None_iff)
next
  case (Some b')
  then show ?thesis using find_Some_mem [OF Some] assms(3) by blast
qed

lemma find_in_block:
  assumes "disjoint_blocks bs" and "b \<in> set bs" and "in_block addr b"
  shows "find (in_block addr) bs = Some b"
  using assms by (intro find_unique) (auto simp: disjoint_blocks_def block_range_def)

lemma find_same_set:
  assumes "disjoint_blocks bs" and "set bs' = set bs"
  shows "find (in_block addr) bs' = find (in_block addr) bs"
proof (cases "find (in_block addr) bs")
  case None
  moreover from this have "find (in_block addr) bs' = None" using assms(2) by (auto simp: find_None_iff)
  ultimately show ?thesis by simp
next
  case (Some b)
  with find_Some_mem [OF Some] assms find_in_block [of bs' b addr] show ?thesis
    by (auto simp: disjoint_blocks_def)
qed

section \<open>Properties\<close>

text \<open>
  \<open>qemu_get_ram_ptr\<close> returns the pointer of \<open>qemu_safe_ram_ptr\<close> or aborts with it, and
  moving the block to the front changes no later lookup, as long as the blocks do not overlap.
\<close>

theorem get_ram_ptr_safe:
  assumes "disjoint_blocks (blocks rl)"
  shows "comp_bind (qemu_get_ram_ptr addr rl) (\<lambda>(p, rl'). ret p) = qemu_safe_ram_ptr addr rl \<and>
    (\<forall>p rl'. qemu_get_ram_ptr addr rl = ret (p, rl') \<longrightarrow>
       set (blocks rl') = set (blocks rl) \<and> (\<forall>a. qemu_safe_ram_ptr a rl' = qemu_safe_ram_ptr a rl))"
proof (cases "find (in_block addr) (blocks rl)")
  case None
  then show ?thesis by (simp add: qemu_get_ram_ptr_def qemu_safe_ram_ptr_def)
next
  case (Some b)
  have set: "set (b # remove1 b (blocks rl)) = set (blocks rl)"
    using find_Some_mem [OF Some] set_remove1_subset [of b "blocks rl"]
    by auto (metis in_set_remove1)
  show ?thesis
    using Some set find_same_set [OF assms set]
    by (auto simp: qemu_get_ram_ptr_def qemu_safe_ram_ptr_def)
qed

definition two_blocks :: RAMList where
  "two_blocks = \<lparr>phys_dirty = replicate 8 0xFF,
     blocks = [\<lparr>host = 0x7000, offset = 0, blength = 0x1000, flags = 0, idstr = ''a''\<rparr>,
               \<lparr>host = 0x9000, offset = 0x1000, blength = 0x1000, flags = 0, idstr = ''b''\<rparr>]\<rparr>"

lemma two_blocks_disjoint: "disjoint_blocks (blocks two_blocks)"
proof -
  have "\<not> (w < 0x1000 \<and> w - 0x1000 < 0x1000)" for w :: u64
  proof
    assume a: "w < 0x1000 \<and> w - 0x1000 < 0x1000"
    then have "unat w < 0x1000" by (simp add: word_less_nat_alt)
    then have "unat (w - 0x1000) = 2 ^ 64 + unat w - 0x1000" by (simp add: unat_sub_if' word_le_nat_alt)
    with a show False by (simp add: word_less_nat_alt)
  qed
  then show ?thesis by (auto simp: disjoint_blocks_def two_blocks_def block_range_def in_block_def)
qed

theorem get_ram_ptr_safe_witness:
  "comp_bind (qemu_get_ram_ptr 0x1010 two_blocks) (\<lambda>(p, rl'). ret p) = qemu_safe_ram_ptr 0x1010 two_blocks \<and>
   qemu_safe_ram_ptr 0x1010 two_blocks = ret 0x9010"
proof -
  have "qemu_safe_ram_ptr 0x1010 two_blocks = ret 0x9010"
    by (simp add: qemu_safe_ram_ptr_def two_blocks_def in_block_def)
  then show ?thesis using get_ram_ptr_safe [OF two_blocks_disjoint, of "0x1010"] by blast
qed

text \<open>
  A host pointer obtained for a RAM address translates back to that address, when neither the
  RAM ranges nor the host ranges of the blocks overlap.
\<close>

theorem ram_ptr_roundtrip:
  assumes "\<forall>b\<in>set (blocks rl). \<forall>b'\<in>set (blocks rl). b \<noteq> b' \<longrightarrow> host_range b \<inter> host_range b' = {}"
    and "qemu_safe_ram_ptr addr rl = ret p"
  shows "qemu_ram_addr_from_host_nofail p rl = ret addr"
proof -
  obtain b where b: "find (in_block addr) (blocks rl) = Some b" and p: "p = host b + (addr - offset b)"
    using assms(2) by (auto simp: qemu_safe_ram_ptr_def split: option.splits)
  have mem: "b \<in> set (blocks rl)" "p - host b < blength b" "p - host b = addr - offset b"
    using find_Some_mem [OF b] p by (auto simp: in_block_def)
  have "find (\<lambda>b. p - host b < blength b) (blocks rl) = Some b"
  proof (rule find_unique)
    fix b' assume b': "b' \<in> set (blocks rl)" "p - host b' < blength b'"
    then have "p \<in> host_range b \<inter> host_range b'" using mem by (simp add: host_range_def)
    then show "b' = b" using assms(1) mem(1) b'(1) by blast
  qed (use mem in simp_all)
  then show ?thesis using mem(3)
    by (simp add: qemu_ram_addr_from_host_nofail_def qemu_ram_addr_from_host_def)
qed

theorem ram_ptr_roundtrip_witness:
  "qemu_ram_addr_from_host_nofail 0x9010 two_blocks = ret 0x1010"
proof (rule ram_ptr_roundtrip)
  have "\<not> x + 0x2000 < 0x1000" if "x < 0x1000" for x :: u64
    using that by (simp add: word_less_nat_alt unat_word_ariths)
  from this [of "w - 0x9000" for w] have "\<not> (w - 0x7000 < 0x1000 \<and> w - 0x9000 < 0x1000)" for w :: u64
    by auto
  then show "\<forall>b\<in>set (blocks two_blocks). \<forall>b'\<in>set (blocks two_blocks). b \<noteq> b' \<longrightarrow> host_range b \<inter> host_range b' = {}"
    by (auto simp: two_blocks_def host_range_def)
qed (simp add: qemu_safe_ram_ptr_def two_blocks_def in_block_def)

section \<open>Allocation\<close>

abbreviation block_end :: "RAMBlock \<Rightarrow> u64" where
  "block_end b \<equiv> offset b + blength b"

definition gap :: "RAMBlock list \<Rightarrow> RAMBlock \<Rightarrow> u64" where
  "gap all b = next_block_offset (block_end b) all (- 1) - block_end b"

lemma find_gap_cases:
  "(find_gap sz all bs off mingap = off \<and> (\<forall>b\<in>set bs. \<not> (sz \<le> gap all b \<and> gap all b < mingap))) \<or>
   (\<exists>b\<in>set bs. find_gap sz all bs off mingap = block_end b \<and> sz \<le> gap all b)"
proof (induction bs arbitrary: off mingap)
  case (Cons b bs)
  show ?case
  proof (cases "sz \<le> gap all b \<and> gap all b < mingap")
    case True
    then have "find_gap sz all (b # bs) off mingap = find_gap sz all bs (block_end b) (gap all b)"
      by (simp add: gap_def Let_def)
    with Cons.IH [of "block_end b" "gap all b"] True show ?thesis by auto
  next
    case False
    then have "find_gap sz all (b # bs) off mingap = find_gap sz all bs off mingap"
      by (auto simp: gap_def Let_def)
    with Cons.IH [of off mingap] False show ?thesis by auto
  qed
qed simp

lemma next_block_offset_bounds:
  "next_block_offset e bs n \<le> n" "e \<le> n \<Longrightarrow> e \<le> next_block_offset e bs n"
  by (induction bs arbitrary: n) (auto intro: order.trans [OF _ min.cobounded1])

lemma next_block_offset_le:
  "b \<in> set bs \<Longrightarrow> e \<le> offset b \<Longrightarrow> next_block_offset e bs n \<le> offset b"
proof (induction bs arbitrary: n)
  case (Cons c bs)
  then show ?case using next_block_offset_bounds(1) [of e bs "min n (offset b)"]
    by (auto intro: order.trans [OF _ min.cobounded2])
qed simp

lemma next_block_offset_none:
  "\<forall>b\<in>set bs. offset b < e \<Longrightarrow> next_block_offset e bs n = n"
  by (induction bs arbitrary: n) (auto simp: not_le)

text \<open>Blocks that do not wrap around, do not overlap and are not empty.\<close>

definition laid_out :: "RAMBlock list \<Rightarrow> bool" where
  "laid_out bs \<longleftrightarrow> (\<forall>b\<in>set bs. 0 < blength b \<and> unat (offset b) + unat (blength b) < 2 ^ 64) \<and>
     (\<forall>b\<in>set bs. \<forall>b'\<in>set bs. b \<noteq> b' \<longrightarrow>
        unat (offset b) + unat (blength b) \<le> unat (offset b') \<or> unat (offset b') + unat (blength b') \<le> unat (offset b))"

lemma unat_block_end: "laid_out bs \<Longrightarrow> b \<in> set bs \<Longrightarrow> unat (block_end b) = unat (offset b) + unat (blength b)"
  by (simp add: laid_out_def unat_word_ariths(1))

lemma end_of_block_free:
  assumes lo: "laid_out bs" and b: "b \<in> set bs" and sz: "sz \<le> gap bs b" and c: "c \<in> set bs"
  shows "unat (block_end b) + unat sz \<le> unat (offset c) \<or> unat (block_end c) \<le> unat (block_end b)"
proof (cases "block_end b \<le> offset c")
  case True
  let ?n = "next_block_offset (block_end b) bs (- 1)"
  have "?n \<le> offset c" using c True by (rule next_block_offset_le)
  moreover have "block_end b \<le> ?n" using next_block_offset_bounds(2) [of "block_end b" "- 1" bs] by simp
  then have "unat (?n - block_end b) = unat ?n - unat (block_end b)" by (simp add: unat_sub)
  ultimately show ?thesis using sz True \<open>block_end b \<le> ?n\<close>
    unfolding gap_def word_le_nat_alt by linarith
next
  case False
  then have lt: "unat (offset c) < unat (block_end b)" by (simp add: word_less_nat_alt not_le)
  show ?thesis
  proof (cases "c = b")
    case False
    have "0 < unat (blength b)" using lo b by (auto simp: laid_out_def word_less_nat_alt)
    moreover have "unat (block_end c) \<le> unat (offset b) \<or> unat (block_end b) \<le> unat (offset c)"
      using lo b c False unat_block_end [OF lo b] unat_block_end [OF lo c] by (auto simp: laid_out_def)
    ultimately show ?thesis using lt unat_block_end [OF lo b] by auto
  qed simp
qed

lemma exists_last_block:
  assumes "bs \<noteq> []"
  obtains b where "b \<in> set bs" and "\<forall>c\<in>set bs. unat (block_end c) \<le> unat (block_end b)"
proof -
  let ?E = "(\<lambda>b. unat (block_end b)) ` set bs"
  have "Max ?E \<in> ?E" using assms by (intro Max_in) auto
  then obtain b where "b \<in> set bs" "Max ?E = unat (block_end b)" by auto
  moreover have "unat (block_end c) \<le> Max ?E" if "c \<in> set bs" for c using that by (intro Max_ge) auto
  ultimately show thesis by (intro that [of b]) auto
qed

lemma unat_m1: "unat (- 1 :: u64) = 2 ^ 64 - 1"
  by (simp add: unsigned_minus_1_eq_mask mask_eq_exp_minus_1)

lemma insert_block_ret:
  "insert_block new_byte blk rl = ret (off, rl') \<Longrightarrow> off = offset blk \<and> blocks rl' = blk # blocks rl"
  by (auto simp: insert_block_def Let_def split: if_splits)

lemma ram_alloc_ret:
  assumes "qemu_ram_alloc vmalloc new_byte mem_path name sz rl = ret (off, rl')"
  obtains blk where "blocks rl' = blk # blocks rl" and "offset blk = off" and "blength blk = TARGET_PAGE_ALIGN sz"
    and "off = find_ram_offset (TARGET_PAGE_ALIGN sz) rl"
proof -
  obtain blk where "insert_block new_byte blk rl = ret (off, rl')"
    "offset blk = find_ram_offset (TARGET_PAGE_ALIGN sz) rl" "blength blk = TARGET_PAGE_ALIGN sz"
    using assms by (auto simp: qemu_ram_alloc_def qemu_ram_alloc_from_ptr_def Let_def split: if_splits)
  with insert_block_ret [OF this(1)] show thesis by (intro that [of blk]) auto
qed

lemma find_ram_offset_free:
  assumes lo: "laid_out (blocks rl)" and room: "\<forall>b\<in>set (blocks rl). unat (block_end b) + unat sz < 2 ^ 64"
    and c: "c \<in> set (blocks rl)"
  shows "unat (find_ram_offset sz rl) + unat sz < 2 ^ 64 \<and>
    (unat (find_ram_offset sz rl) + unat sz \<le> unat (offset c) \<or> unat (block_end c) \<le> unat (find_ram_offset sz rl))"
proof -
  let ?bs = "blocks rl"
  have ne: "?bs \<noteq> []" using c by auto
  obtain l where l: "l \<in> set ?bs" "\<forall>c\<in>set ?bs. unat (block_end c) \<le> unat (block_end l)"
    using exists_last_block [OF ne] by blast
  have "\<forall>c\<in>set ?bs. offset c < block_end l"
  proof
    fix c assume "c \<in> set ?bs"
    then show "offset c < block_end l"
      using l(2) unat_block_end [OF lo, of c] lo by (fastforce simp: laid_out_def word_less_nat_alt)
  qed
  then have gap: "gap ?bs l = - 1 - block_end l" by (simp add: gap_def next_block_offset_none)
  have u: "unat (- 1 - block_end l) = 2 ^ 64 - 1 - unat (block_end l)"
    by (subst unat_sub) (simp_all add: unat_m1)
  have "0 < unat (block_end l)"
    using lo l(1) unat_block_end [OF lo l(1)] by (auto simp: laid_out_def word_less_nat_alt)
  then have "sz \<le> gap ?bs l \<and> gap ?bs l < - 1"
    using room l(1) u unfolding gap word_le_nat_alt word_less_nat_alt by (auto simp: unat_m1)
  then obtain b where b: "b \<in> set ?bs" "find_ram_offset sz rl = block_end b" "sz \<le> gap ?bs b"
    using find_gap_cases [of sz ?bs ?bs 0 "- 1"] ne l(1) by (auto simp: find_ram_offset_def)
  with end_of_block_free [OF lo b(1) b(3) c] room show ?thesis by auto
qed

text \<open>
  C37. Allocating RAM keeps the blocks laid out: when there is room behind the last block, the new
  block neither wraps around nor overlaps another one.
\<close>

theorem ram_alloc_laid_out:
  assumes "laid_out (blocks rl)" and "0 < TARGET_PAGE_ALIGN sz"
    and "\<forall>b\<in>set (blocks rl). unat (offset b) + unat (blength b) + unat (TARGET_PAGE_ALIGN sz) < 2 ^ 64"
    and "qemu_ram_alloc vmalloc new_byte mem_path name sz rl = ret (off, rl')"
  shows "laid_out (blocks rl') \<and> (\<exists>blk. blocks rl' = blk # blocks rl \<and> offset blk = off \<and> blength blk = TARGET_PAGE_ALIGN sz)"
proof -
  let ?sz = "TARGET_PAGE_ALIGN sz"
  obtain blk where blk: "blocks rl' = blk # blocks rl" "offset blk = off" "blength blk = ?sz"
    "off = find_ram_offset ?sz rl"
    using ram_alloc_ret [OF assms(4)] by blast
  have room: "\<forall>b\<in>set (blocks rl). unat (block_end b) + unat ?sz < 2 ^ 64"
    using assms(3) unat_block_end [OF assms(1)] by simp
  have free: "unat off + unat ?sz < 2 ^ 64 \<and> (unat off + unat ?sz \<le> unat (offset c) \<or>
      unat (offset c) + unat (blength c) \<le> unat off)" if "c \<in> set (blocks rl)" for c
    using find_ram_offset_free [OF assms(1) room that] unat_block_end [OF assms(1) that] blk(4) by simp
  have "unat off + unat ?sz < 2 ^ 64"
  proof (cases "blocks rl")
    case Nil
    then show ?thesis using unsigned_less [of ?sz] blk(4) by (simp add: find_ram_offset_def)
  qed (use free in force)
  with free have "laid_out (blocks rl')"
    using assms(1,2) blk unfolding laid_out_def by auto
  with blk show ?thesis by blast
qed

theorem ram_alloc_laid_out_witness:
  "\<exists>rl' off. qemu_ram_alloc (\<lambda>_. 0x20000) 0 False ''c'' 0x800 two_blocks = ret (off, rl') \<and> laid_out (blocks rl')"
proof -
  have "returned (qemu_ram_alloc (\<lambda>_. 0x20000) 0 False ''c'' 0x800 two_blocks) \<noteq> None" by code_simp
  then obtain rl' off where r: "qemu_ram_alloc (\<lambda>_. 0x20000) 0 False ''c'' 0x800 two_blocks = ret (off, rl')"
    by (auto simp: returned_Some)
  have sz: "TARGET_PAGE_ALIGN 0x800 = 0x800" by code_simp
  have "laid_out (blocks two_blocks)" by (simp add: laid_out_def two_blocks_def)
  from ram_alloc_laid_out [OF this _ _ r] r show ?thesis by (simp add: sz) (simp add: two_blocks_def)
qed

end
