(* ===== verification/Soft_Tlb.thy ===== *)
theory Soft_Tlb
  imports Ram_List
begin

text \<open>
  The software TLB of the emulator (\<open>src/qemu/exec.c\<close>, \<open>src/qemu/cpu-defs.h\<close>): the part of the
  processor state that every target has, flushing, the tracking of clean pages and the
  insertion of a translation. The arrays of the TLB are functions of their indices; the mode is below
  \<open>NB_MMU_MODES\<close> and the line below \<open>CPU_TLB_SIZE\<close>. A translation block in the jump cache is
  represented by its address.
\<close>

section \<open>Constants\<close>

definition TB_JMP_CACHE_BITS :: nat where "TB_JMP_CACHE_BITS = 12"
definition TB_JMP_PAGE_BITS :: nat where "TB_JMP_PAGE_BITS = 6"
definition TB_JMP_PAGE_SIZE :: u32 where "TB_JMP_PAGE_SIZE = 64"
definition TB_JMP_ADDR_MASK :: u32 where "TB_JMP_ADDR_MASK = TB_JMP_PAGE_SIZE - 1"
definition TB_JMP_PAGE_MASK :: u32 where "TB_JMP_PAGE_MASK = 4096 - TB_JMP_PAGE_SIZE"
definition CPU_TLB_SIZE :: u32 where "CPU_TLB_SIZE = 256"
definition TARGET_PAGE_SIZE :: u32 where "TARGET_PAGE_SIZE = 1024"
definition TARGET_PAGE_MASK :: u32 where "TARGET_PAGE_MASK = 0xFFFFFC00"
definition TLB_INVALID_MASK :: u32 where "TLB_INVALID_MASK = 8"
definition TLB_NOTDIRTY :: u32 where "TLB_NOTDIRTY = 16"
definition TLB_MMIO :: u32 where "TLB_MMIO = 32"

definition IO_MEM_RAM :: u64 where "IO_MEM_RAM = 0"
definition IO_MEM_ROM :: u64 where "IO_MEM_ROM = 8"
definition IO_MEM_UNASSIGNED :: u64 where "IO_MEM_UNASSIGNED = 16"
definition IO_MEM_NOTDIRTY :: u64 where "IO_MEM_NOTDIRTY = 24"
definition IO_MEM_ROMD :: u64 where "IO_MEM_ROMD = 1"

definition PAGE_READ :: u32 where "PAGE_READ = 1"
definition PAGE_WRITE :: u32 where "PAGE_WRITE = 2"
definition PAGE_EXEC :: u32 where "PAGE_EXEC = 4"

text \<open>\<open>TARGET_PAGE_MASK\<close> and its complement on the 64-bit \<open>unsigned long\<close> of the host.\<close>

definition page_of_u64 :: "u64 \<Rightarrow> u64" where
  "page_of_u64 w = w AND NOT (mask TARGET_PAGE_BITS)"

definition low_bits_u64 :: "u64 \<Rightarrow> u64" where
  "low_bits_u64 w = w AND mask TARGET_PAGE_BITS"

section \<open>State\<close>

record CPUTLBEntry =
  addr_read :: u32
  addr_write :: u32
  addr_code :: u32
  addend :: u64

record CPUWatchpoint =
  wp_vaddr :: u32
  wp_len_mask :: u32
  wp_flags :: u32

record cpu_common =
  current_tb :: "u32 option"
  halted :: u32
  interrupt_request :: u32
  tlb_table :: "nat \<Rightarrow> nat \<Rightarrow> CPUTLBEntry"
  iotlb :: "nat \<Rightarrow> nat \<Rightarrow> u32"
  tb_jmp_cache :: "nat \<Rightarrow> u32 option"
  watchpoints :: "CPUWatchpoint list"
  exception_index :: int
  tlb_flush_count :: nat

text \<open>
  The world around the processors that the insertion of a translation consults: the page descriptors,
  the RAM blocks, the I/O index of the watchpoint handlers and the memory checker.
\<close>

record PhysPageDesc =
  phys_offset :: u64
  region_offset :: u64

record machine =
  phys_page_find :: "u32 \<Rightarrow> PhysPageDesc option"
  ram_list :: RAMList
  io_mem_watch :: u32
  memcheck_instrument_mmu :: bool
  memcheck_is_checked :: "u32 \<Rightarrow> u32 \<Rightarrow> bool"

section \<open>Flushing\<close>

definition tb_jmp_cache_hash_page :: "u32 \<Rightarrow> u32" where
  "tb_jmp_cache_hash_page pc =
     (let tmp = pc XOR drop_bit (TARGET_PAGE_BITS - TB_JMP_PAGE_BITS) pc
      in drop_bit (TARGET_PAGE_BITS - TB_JMP_PAGE_BITS) tmp AND TB_JMP_PAGE_MASK)"

definition tb_jmp_cache_hash_func :: "u32 \<Rightarrow> u32" where
  "tb_jmp_cache_hash_func pc =
     (let tmp = pc XOR drop_bit (TARGET_PAGE_BITS - TB_JMP_PAGE_BITS) pc
      in (drop_bit (TARGET_PAGE_BITS - TB_JMP_PAGE_BITS) tmp AND TB_JMP_PAGE_MASK) OR (tmp AND TB_JMP_ADDR_MASK))"

definition clear_jmp_lines :: "nat \<Rightarrow> (nat \<Rightarrow> u32 option) \<Rightarrow> nat \<Rightarrow> u32 option" where
  "clear_jmp_lines i c = (\<lambda>j. if i \<le> j \<and> j < i + unat TB_JMP_PAGE_SIZE then None else c j)"

definition tlb_flush_jmp_cache :: "u32 \<Rightarrow> 'a cpu_common_scheme \<Rightarrow> 'a cpu_common_scheme" where
  "tlb_flush_jmp_cache addr env =
     env\<lparr>tb_jmp_cache :=
       clear_jmp_lines (unat (tb_jmp_cache_hash_page addr))
         (clear_jmp_lines (unat (tb_jmp_cache_hash_page (addr - TARGET_PAGE_SIZE))) (tb_jmp_cache env))\<rparr>"

definition invalid_entry :: "CPUTLBEntry \<Rightarrow> CPUTLBEntry" where
  "invalid_entry te = te\<lparr>addr_read := - 1, addr_write := - 1, addr_code := - 1\<rparr>"

definition NB_MMU_MODES :: nat where
  "NB_MMU_MODES = 2"

text \<open>A loop over all modes that changes one line, or every line, of the TLB.\<close>

definition map_line :: "(CPUTLBEntry \<Rightarrow> CPUTLBEntry) \<Rightarrow> nat \<Rightarrow> 'a cpu_common_scheme \<Rightarrow> 'a cpu_common_scheme" where
  "map_line f i env = env\<lparr>tlb_table :=
     (\<lambda>m j. if m < NB_MMU_MODES \<and> j = i then f (tlb_table env m j) else tlb_table env m j)\<rparr>"

definition map_tlb :: "(CPUTLBEntry \<Rightarrow> CPUTLBEntry) \<Rightarrow> 'a cpu_common_scheme \<Rightarrow> 'a cpu_common_scheme" where
  "map_tlb f env = env\<lparr>tlb_table :=
     (\<lambda>m j. if m < NB_MMU_MODES \<and> j < unat CPU_TLB_SIZE then f (tlb_table env m j) else tlb_table env m j)\<rparr>"

definition tlb_flush :: "'a cpu_common_scheme \<Rightarrow> 'a cpu_common_scheme" where
  "tlb_flush env =
     (map_tlb invalid_entry (env\<lparr>current_tb := None\<rparr>))
       \<lparr>tb_jmp_cache := (\<lambda>_. None), tlb_flush_count := tlb_flush_count env + 1\<rparr>"

definition tlb_flush_entry :: "u32 \<Rightarrow> CPUTLBEntry \<Rightarrow> CPUTLBEntry" where
  "tlb_flush_entry addr te =
     (if addr = addr_read te AND (TARGET_PAGE_MASK OR TLB_INVALID_MASK) \<or>
         addr = addr_write te AND (TARGET_PAGE_MASK OR TLB_INVALID_MASK) \<or>
         addr = addr_code te AND (TARGET_PAGE_MASK OR TLB_INVALID_MASK)
      then invalid_entry te else te)"

definition tlb_index :: "u32 \<Rightarrow> nat" where
  "tlb_index addr = unat (drop_bit TARGET_PAGE_BITS addr AND (CPU_TLB_SIZE - 1))"

definition tlb_flush_page :: "u32 \<Rightarrow> 'a cpu_common_scheme \<Rightarrow> 'a cpu_common_scheme" where
  "tlb_flush_page addr0 env =
     (let addr = addr0 AND TARGET_PAGE_MASK in
      tlb_flush_jmp_cache addr (map_line (tlb_flush_entry addr) (tlb_index addr) (env\<lparr>current_tb := None\<rparr>)))"

section \<open>Clean and dirty pages\<close>

definition tlb_reset_dirty_range :: "u64 \<Rightarrow> u64 \<Rightarrow> CPUTLBEntry \<Rightarrow> CPUTLBEntry" where
  "tlb_reset_dirty_range start len te =
     (if ucast (addr_write te AND NOT TARGET_PAGE_MASK) = IO_MEM_RAM then
        (let addr = ucast (addr_write te AND TARGET_PAGE_MASK) + addend te in
         if addr - start < len then te\<lparr>addr_write := (addr_write te AND TARGET_PAGE_MASK) OR TLB_NOTDIRTY\<rparr> else te)
      else te)"

definition cpu_physical_memory_reset_dirty ::
  "u64 \<Rightarrow> u64 \<Rightarrow> u8 \<Rightarrow> machine \<Rightarrow> 'a cpu_common_scheme list \<Rightarrow> (machine \<times> 'a cpu_common_scheme list) comp" where
  "cpu_physical_memory_reset_dirty start0 end0 dirty_flags mach cpus =
     (let start = page_of_u64 start0; e = TARGET_PAGE_ALIGN end0; len = e - start in
      if len = 0 then ret (mach, cpus)
      else comp_bind (cpu_physical_memory_mask_dirty_range start len dirty_flags (ram_list mach)) (\<lambda>rl.
           comp_bind (qemu_safe_ram_ptr start rl) (\<lambda>start1.
           comp_bind (qemu_safe_ram_ptr (e - 1) rl) (\<lambda>end1.
             if end1 - start1 \<noteq> (e - 1) - start then raise Abort
             else ret (mach\<lparr>ram_list := rl\<rparr>, map (map_tlb (tlb_reset_dirty_range start1 len)) cpus)))))"

definition CODE_DIRTY_FLAG :: u8 where "CODE_DIRTY_FLAG = 2"

definition tlb_protect_code :: "u64 \<Rightarrow> machine \<Rightarrow> 'a cpu_common_scheme list \<Rightarrow> (machine \<times> 'a cpu_common_scheme list) comp" where
  "tlb_protect_code ram_addr mach cpus =
     cpu_physical_memory_reset_dirty ram_addr (ram_addr + ucast TARGET_PAGE_SIZE) CODE_DIRTY_FLAG mach cpus"

definition tlb_unprotect_code_phys :: "u64 \<Rightarrow> machine \<Rightarrow> machine comp" where
  "tlb_unprotect_code_phys ram_addr mach =
     comp_bind (cpu_physical_memory_set_dirty_flags ram_addr CODE_DIRTY_FLAG (ram_list mach)) (\<lambda>(_, rl).
       ret (mach\<lparr>ram_list := rl\<rparr>))"

definition tlb_update_dirty :: "machine \<Rightarrow> CPUTLBEntry \<Rightarrow> CPUTLBEntry comp" where
  "tlb_update_dirty mach te =
     (if ucast (addr_write te AND NOT TARGET_PAGE_MASK) = IO_MEM_RAM then
        comp_bind (qemu_ram_addr_from_host_nofail
            (ucast (addr_write te AND TARGET_PAGE_MASK) + addend te) (ram_list mach)) (\<lambda>ram_addr.
        comp_bind (cpu_physical_memory_is_dirty ram_addr (ram_list mach)) (\<lambda>d.
          ret (if \<not> d then te\<lparr>addr_write := addr_write te OR TLB_NOTDIRTY\<rparr> else te)))
      else ret te)"

fun update_dirty_lines :: "machine \<Rightarrow> (nat \<times> nat) list \<Rightarrow> 'a cpu_common_scheme \<Rightarrow> 'a cpu_common_scheme comp" where
  "update_dirty_lines mach [] env = ret env"
| "update_dirty_lines mach ((m, i) # ls) env =
     comp_bind (tlb_update_dirty mach (tlb_table env m i)) (\<lambda>te.
       update_dirty_lines mach ls (env\<lparr>tlb_table := (tlb_table env)(m := (tlb_table env m)(i := te))\<rparr>))"

definition cpu_tlb_update_dirty :: "machine \<Rightarrow> 'a cpu_common_scheme \<Rightarrow> 'a cpu_common_scheme comp" where
  "cpu_tlb_update_dirty mach env =
     update_dirty_lines mach (List.product [0..<NB_MMU_MODES] [0..<unat CPU_TLB_SIZE]) env"

definition tlb_set_dirty1 :: "u32 \<Rightarrow> CPUTLBEntry \<Rightarrow> CPUTLBEntry" where
  "tlb_set_dirty1 vaddr te =
     (if addr_write te = vaddr OR TLB_NOTDIRTY then te\<lparr>addr_write := vaddr\<rparr> else te)"

definition tlb_set_dirty :: "u32 \<Rightarrow> 'a cpu_common_scheme \<Rightarrow> 'a cpu_common_scheme" where
  "tlb_set_dirty vaddr0 env =
     (let vaddr = vaddr0 AND TARGET_PAGE_MASK in map_line (tlb_set_dirty1 vaddr) (tlb_index vaddr) env)"

section \<open>Inserting a translation\<close>

text \<open>The descriptor of the page, or \<open>IO_MEM_UNASSIGNED\<close>.\<close>

definition page_pd :: "machine \<Rightarrow> u32 \<Rightarrow> u64" where
  "page_pd mach paddr =
     (case phys_page_find mach (drop_bit TARGET_PAGE_BITS paddr) of
        None \<Rightarrow> IO_MEM_UNASSIGNED | Some p \<Rightarrow> phys_offset p)"

definition iotlb_value :: "machine \<Rightarrow> u64 \<Rightarrow> u32 \<Rightarrow> u32" where
  "iotlb_value mach pd paddr =
     (if low_bits_u64 pd \<le> IO_MEM_ROM then
        ucast (page_of_u64 pd) OR ucast (if low_bits_u64 pd = IO_MEM_RAM then IO_MEM_NOTDIRTY else IO_MEM_ROM)
      else ucast (low_bits_u64 pd) +
        (case phys_page_find mach (drop_bit TARGET_PAGE_BITS paddr) of
           Some p \<Rightarrow> ucast (region_offset p) | None \<Rightarrow> paddr))"

text \<open>The entry of the TLB, from the addresses chosen for data and code.\<close>

definition new_tlb_entry :: "u32 \<Rightarrow> u32 \<Rightarrow> u32 \<Rightarrow> u64 \<Rightarrow> bool \<Rightarrow> u64 \<Rightarrow> CPUTLBEntry" where
  "new_tlb_entry address code_address prot pd dirty add =
     \<lparr>addr_read = (if prot AND PAGE_READ \<noteq> 0 then address else - 1),
      addr_write =
        (if prot AND PAGE_WRITE \<noteq> 0 then
           (if low_bits_u64 pd = IO_MEM_ROM \<or> pd AND IO_MEM_ROMD \<noteq> 0 then address OR TLB_MMIO
            else if low_bits_u64 pd = IO_MEM_RAM \<and> \<not> dirty then address OR TLB_NOTDIRTY
            else address)
         else - 1),
      addr_code = (if prot AND PAGE_EXEC \<noteq> 0 then code_address else - 1),
      addend = add\<rparr>"

text \<open>The memory checker makes the entries of checked pages miss.\<close>

definition memcheck_entry :: "machine \<Rightarrow> u64 \<Rightarrow> u32 \<Rightarrow> u32 \<Rightarrow> nat \<Rightarrow> bool \<Rightarrow> CPUTLBEntry \<Rightarrow> CPUTLBEntry" where
  "memcheck_entry mach pd vaddr prot mmu_idx is_softmmu te =
     (if memcheck_instrument_mmu mach \<and> mmu_idx = 1 \<and> \<not> is_softmmu \<and> low_bits_u64 pd = IO_MEM_RAM \<and>
         prot AND (PAGE_READ OR PAGE_WRITE) \<noteq> 0 \<and>
         memcheck_is_checked mach (vaddr AND TARGET_PAGE_MASK) TARGET_PAGE_SIZE
      then te\<lparr>addr_read := (if prot AND PAGE_READ \<noteq> 0 then addr_read te XOR TARGET_PAGE_MASK else addr_read te),
              addr_write := (if prot AND PAGE_WRITE \<noteq> 0 then addr_write te XOR TARGET_PAGE_MASK else addr_write te)\<rparr>
      else te)"

definition watched :: "u32 \<Rightarrow> CPUWatchpoint list \<Rightarrow> bool" where
  "watched vaddr wps = (\<exists>wp\<in>set wps. vaddr = wp_vaddr wp AND TARGET_PAGE_MASK)"

definition tlb_set_page_exec ::
  "u32 \<Rightarrow> u32 \<Rightarrow> u32 \<Rightarrow> nat \<Rightarrow> bool \<Rightarrow> machine \<times> 'a cpu_common_scheme \<Rightarrow> (int \<times> machine \<times> 'a cpu_common_scheme) comp" where
  "tlb_set_page_exec vaddr paddr prot mmu_idx is_softmmu st =
     (case st of (mach, env) \<Rightarrow>
        let pd = page_pd mach paddr;
            code_address = (if IO_MEM_ROM < low_bits_u64 pd \<and> pd AND IO_MEM_ROMD = 0 then vaddr OR TLB_MMIO else vaddr)
        in comp_bind (qemu_get_ram_ptr (page_of_u64 pd) (ram_list mach)) (\<lambda>(ptr, rl).
           comp_bind (if prot AND PAGE_WRITE \<noteq> 0 \<and> low_bits_u64 pd = IO_MEM_RAM
                      then cpu_physical_memory_is_dirty pd rl else ret False) (\<lambda>dirty.
           let w = watched vaddr (watchpoints env);
               io = (if w then io_mem_watch mach + paddr else iotlb_value mach pd paddr);
               address = (if w then code_address OR TLB_MMIO else code_address);
               i = tlb_index vaddr;
               te = memcheck_entry mach pd vaddr prot mmu_idx is_softmmu
                 (new_tlb_entry address code_address prot pd dirty (ptr - ucast vaddr))
           in ret (0, mach\<lparr>ram_list := rl\<rparr>,
                env\<lparr>iotlb := (iotlb env)(mmu_idx := (iotlb env mmu_idx)(i := io - vaddr)),
                    tlb_table := (tlb_table env)(mmu_idx := (tlb_table env mmu_idx)(i := te))\<rparr>))))"

section \<open>Lookups\<close>

lemma page_split: "(v AND TARGET_PAGE_MASK) + (v AND NOT TARGET_PAGE_MASK) = (v :: u32)"
proof -
  have "(v AND TARGET_PAGE_MASK) AND (v AND NOT TARGET_PAGE_MASK) = 0" by (rule bit_word_eqI) (simp add: bit_simps)
  then have "(v AND TARGET_PAGE_MASK) + (v AND NOT TARGET_PAGE_MASK) = (v AND TARGET_PAGE_MASK) OR (v AND NOT TARGET_PAGE_MASK)"
    by (simp add: disjunctive_add_eq_or)
  also have "\<dots> = v" by (rule bit_word_eqI) (auto simp: bit_simps)
  finally show ?thesis .
qed

text \<open>The test of the load and store functions (\<open>src/qemu/softmmu_template.h\<close>) on a field of an entry.\<close>

definition tlb_hit :: "u32 \<Rightarrow> u32 \<Rightarrow> bool" where
  "tlb_hit addr tlb_addr \<longleftrightarrow> addr AND TARGET_PAGE_MASK = tlb_addr AND (TARGET_PAGE_MASK OR TLB_INVALID_MASK)"

definition entry_at :: "u32 \<Rightarrow> nat \<Rightarrow> 'a cpu_common_scheme \<Rightarrow> CPUTLBEntry" where
  "entry_at addr mmu_idx env = tlb_table env mmu_idx (tlb_index addr)"

definition no_hit :: "u32 \<Rightarrow> nat \<Rightarrow> 'a cpu_common_scheme \<Rightarrow> bool" where
  "no_hit addr mmu_idx env \<longleftrightarrow> (let te = entry_at addr mmu_idx env in
     \<not> tlb_hit addr (addr_read te) \<and> \<not> tlb_hit addr (addr_write te) \<and> \<not> tlb_hit addr (addr_code te))"

lemma TARGET_PAGE_MASK_eq: "TARGET_PAGE_MASK = NOT (mask 10)"
  unfolding TARGET_PAGE_MASK_def by code_simp

lemma TLB_INVALID_MASK_eq: "TLB_INVALID_MASK = mask 4 AND NOT (mask 3)"
  unfolding TLB_INVALID_MASK_def by code_simp

lemma tlb_hit_minus1 [simp]: "\<not> tlb_hit addr (- 1)"
proof
  assume "tlb_hit addr (- 1)"
  then have "bit (addr AND TARGET_PAGE_MASK) 3 = bit ((- 1 :: u32) AND (TARGET_PAGE_MASK OR TLB_INVALID_MASK)) 3"
    by (simp add: tlb_hit_def)
  then show False by (simp add: TARGET_PAGE_MASK_eq TLB_INVALID_MASK_eq bit_simps)
qed

lemma tlb_index_page: "tlb_index (addr AND TARGET_PAGE_MASK) = tlb_index addr"
proof -
  have "drop_bit 10 (addr AND TARGET_PAGE_MASK) = drop_bit 10 addr"
    by (rule bit_word_eqI) (auto simp: TARGET_PAGE_MASK_eq bit_simps dest: bit_imp_le_length)
  then show ?thesis by (simp add: tlb_index_def TARGET_PAGE_BITS_def)
qed

lemma tlb_index_less: "tlb_index addr < unat CPU_TLB_SIZE"
  using and_mask_le [of "drop_bit TARGET_PAGE_BITS addr" "CPU_TLB_SIZE - 1"]
  by (simp add: tlb_index_def CPU_TLB_SIZE_def)

lemma tlb_index_eq_page: "a AND TARGET_PAGE_MASK = b AND TARGET_PAGE_MASK \<Longrightarrow> tlb_index a = tlb_index b"
  by (metis tlb_index_page)

lemma page_mask_idem: "(a AND TARGET_PAGE_MASK) AND TARGET_PAGE_MASK = a AND TARGET_PAGE_MASK"
  by (simp add: and.assoc)

lemma tlb_flush_jmp_cache_frame [simp, frame_simps]:
  "tlb_table (tlb_flush_jmp_cache addr env) = tlb_table env"
  by (simp add: tlb_flush_jmp_cache_def)

lemma invalid_entry_simps [simp]:
  "addr_read (invalid_entry te) = - 1" "addr_write (invalid_entry te) = - 1" "addr_code (invalid_entry te) = - 1"
  by (simp_all add: invalid_entry_def)

lemma tlb_flush_entry_miss:
  "a AND TARGET_PAGE_MASK = addr \<Longrightarrow> \<not> tlb_hit a (addr_read (tlb_flush_entry addr te))"
  "a AND TARGET_PAGE_MASK = addr \<Longrightarrow> \<not> tlb_hit a (addr_write (tlb_flush_entry addr te))"
  "a AND TARGET_PAGE_MASK = addr \<Longrightarrow> \<not> tlb_hit a (addr_code (tlb_flush_entry addr te))"
  by (auto simp: tlb_flush_entry_def tlb_hit_def [of _ "addr_read te"] tlb_hit_def [of _ "addr_write te"]
      tlb_hit_def [of _ "addr_code te"] split: if_splits)

section \<open>The jump cache\<close>

lemma hash_page_of_pc:
  assumes "pc AND TARGET_PAGE_MASK = page"
  shows "tb_jmp_cache_hash_page pc = tb_jmp_cache_hash_page page"
proof -
  have m: "TB_JMP_PAGE_MASK = mask 12 AND NOT (mask 6)"
    unfolding TB_JMP_PAGE_MASK_def TB_JMP_PAGE_SIZE_def by code_simp
  show ?thesis
    unfolding tb_jmp_cache_hash_page_def Let_def m assms [symmetric]
    by (rule bit_word_eqI)
      (auto simp: TARGET_PAGE_BITS_def TB_JMP_PAGE_BITS_def TARGET_PAGE_MASK_eq bit_simps dest: bit_imp_le_length)
qed

lemma hash_func_line:
  "unat (tb_jmp_cache_hash_page pc) \<le> unat (tb_jmp_cache_hash_func pc) \<and>
   unat (tb_jmp_cache_hash_func pc) < unat (tb_jmp_cache_hash_page pc) + unat TB_JMP_PAGE_SIZE"
proof -
  let ?h = "tb_jmp_cache_hash_page pc"
  let ?l = "(pc XOR drop_bit (TARGET_PAGE_BITS - TB_JMP_PAGE_BITS) pc) AND TB_JMP_ADDR_MASK"
  have m: "TB_JMP_PAGE_MASK = mask 12 AND NOT (mask 6)" "TB_JMP_ADDR_MASK = mask 6"
    unfolding TB_JMP_PAGE_MASK_def TB_JMP_ADDR_MASK_def TB_JMP_PAGE_SIZE_def by code_simp+
  have "?h AND ?l = 0"
    unfolding tb_jmp_cache_hash_page_def Let_def m by (rule bit_word_eqI) (auto simp: bit_simps)
  then have eq: "tb_jmp_cache_hash_func pc = ?h + ?l"
    by (simp add: tb_jmp_cache_hash_func_def tb_jmp_cache_hash_page_def Let_def disjunctive_add_eq_or)
  have l: "unat ?l < 64" using and_mask_le [of _ "TB_JMP_ADDR_MASK"]
    by (rule le_less_trans) (simp add: TB_JMP_ADDR_MASK_def TB_JMP_PAGE_SIZE_def)
  have "unat ?h \<le> 4096" using and_mask_le [of _ "TB_JMP_PAGE_MASK"]
    unfolding tb_jmp_cache_hash_page_def Let_def
    by (rule order.trans) (simp add: TB_JMP_PAGE_MASK_def TB_JMP_PAGE_SIZE_def)
  with l have "unat (?h + ?l) = unat ?h + unat ?l" by (simp add: unat_word_ariths(1))
  with l show ?thesis by (simp add: eq TB_JMP_PAGE_SIZE_def)
qed

section \<open>Properties\<close>

lemma tlb_flush_page_table:
  "tlb_table (tlb_flush_page addr env) m j =
     (if m < NB_MMU_MODES \<and> j = tlb_index addr then tlb_flush_entry (addr AND TARGET_PAGE_MASK) (tlb_table env m j)
      else tlb_table env m j)"
  by (simp add: tlb_flush_page_def map_line_def Let_def tlb_index_page)

lemma tlb_flush_page_jmp:
  assumes "pc AND TARGET_PAGE_MASK = addr AND TARGET_PAGE_MASK"
  shows "tb_jmp_cache (tlb_flush_page addr env) (unat (tb_jmp_cache_hash_func pc)) = None"
proof -
  have "tb_jmp_cache_hash_page pc = tb_jmp_cache_hash_page (addr AND TARGET_PAGE_MASK)"
    using assms by (rule hash_page_of_pc)
  with hash_func_line [of pc] show ?thesis
    by (simp add: tlb_flush_page_def Let_def tlb_flush_jmp_cache_def clear_jmp_lines_def)
qed

lemma tlb_flush_page_no_hit:
  assumes "a AND TARGET_PAGE_MASK = addr AND TARGET_PAGE_MASK" and "m < NB_MMU_MODES"
  shows "no_hit a m (tlb_flush_page addr env)"
  using assms tlb_index_eq_page [OF assms(1)]
  by (simp add: no_hit_def entry_at_def tlb_flush_page_table Let_def tlb_flush_entry_miss)

text \<open>
  After \<open>tlb_flush_page\<close> no access to the page hits in any mode, no code of the
  page is found through the jump cache, and a TLB entry in which no field belongs to the page is
  left alone.
\<close>

theorem tlb_flush_page_effect:
  assumes "a AND TARGET_PAGE_MASK = addr AND TARGET_PAGE_MASK" and "m < NB_MMU_MODES"
  shows "no_hit a m (tlb_flush_page addr env) \<and>
    tb_jmp_cache (tlb_flush_page addr env) (unat (tb_jmp_cache_hash_func a)) = None \<and>
    (\<forall>j. \<not> tlb_hit addr (addr_read (tlb_table env m j)) \<and> \<not> tlb_hit addr (addr_write (tlb_table env m j)) \<and>
         \<not> tlb_hit addr (addr_code (tlb_table env m j)) \<longrightarrow>
       tlb_table (tlb_flush_page addr env) m j = tlb_table env m j)"
proof (intro conjI allI impI)
  show "no_hit a m (tlb_flush_page addr env)" using assms by (rule tlb_flush_page_no_hit)
  show "tb_jmp_cache (tlb_flush_page addr env) (unat (tb_jmp_cache_hash_func a)) = None"
    using assms(1) by (rule tlb_flush_page_jmp)
  fix j
  assume "\<not> tlb_hit addr (addr_read (tlb_table env m j)) \<and> \<not> tlb_hit addr (addr_write (tlb_table env m j)) \<and>
    \<not> tlb_hit addr (addr_code (tlb_table env m j))"
  then show "tlb_table (tlb_flush_page addr env) m j = tlb_table env m j"
    by (auto simp: tlb_flush_page_table tlb_flush_entry_def tlb_hit_def)
qed

definition empty_common :: cpu_common where
  "empty_common = \<lparr>current_tb = None, halted = 0, interrupt_request = 0,
     tlb_table = (\<lambda>_ _. \<lparr>addr_read = 0x8400, addr_write = - 1, addr_code = - 1, addend = 0\<rparr>), iotlb = (\<lambda>_ _. 0),
     tb_jmp_cache = (\<lambda>_. Some 0x8400), watchpoints = [], exception_index = - 1, tlb_flush_count = 0\<rparr>"

theorem tlb_flush_page_effect_witness:
  "no_hit 0x8412 1 (tlb_flush_page 0x8500 empty_common) \<and>
   tb_jmp_cache (tlb_flush_page 0x8500 empty_common) (unat (tb_jmp_cache_hash_func 0x8412)) = None"
  using tlb_flush_page_effect [of "0x8412" "0x8500" 1 empty_common]
  by (simp add: TARGET_PAGE_MASK_def NB_MMU_MODES_def)

lemma tlb_flush_no_hit: "m < NB_MMU_MODES \<Longrightarrow> no_hit a m (tlb_flush env)"
  using tlb_index_less [of a] by (simp add: no_hit_def entry_at_def tlb_flush_def map_tlb_def Let_def)

text \<open>
  A full flush leaves no address that hits, in any mode, and an empty jump cache.
\<close>

theorem tlb_flush_effect:
  assumes "m < NB_MMU_MODES"
  shows "no_hit a m (tlb_flush env) \<and> tb_jmp_cache (tlb_flush env) j = None \<and> current_tb (tlb_flush env) = None"
  using assms by (simp add: tlb_flush_no_hit) (simp add: tlb_flush_def map_tlb_def)

theorem tlb_flush_effect_witness:
  "no_hit 0x8400 0 (tlb_flush empty_common) \<and> tb_jmp_cache (tlb_flush empty_common) 7 = None \<and>
   current_tb (tlb_flush empty_common) = None"
  using tlb_flush_effect [of 0 "0x8400" empty_common 7] by (simp add: NB_MMU_MODES_def)

lemma tlb_hit_flags:
  assumes "vaddr AND TARGET_PAGE_MASK = vaddr" and "a AND TARGET_PAGE_MASK = vaddr"
  shows "tlb_hit a vaddr" "tlb_hit a (vaddr OR TLB_MMIO)" "tlb_hit a (vaddr OR TLB_NOTDIRTY)"
    "tlb_hit a (vaddr OR TLB_MMIO OR TLB_MMIO)" "tlb_hit a (vaddr OR TLB_MMIO OR TLB_NOTDIRTY)"
proof -
  have f: "TLB_MMIO = mask 6 AND NOT (mask 5)" "TLB_NOTDIRTY = mask 5 AND NOT (mask 4)"
    unfolding TLB_MMIO_def TLB_NOTDIRTY_def by code_simp+
  have v: "vaddr = a AND NOT (mask 10)" using assms(2) by (simp add: TARGET_PAGE_MASK_eq)
  show "tlb_hit a vaddr" "tlb_hit a (vaddr OR TLB_MMIO)" "tlb_hit a (vaddr OR TLB_NOTDIRTY)"
    "tlb_hit a (vaddr OR TLB_MMIO OR TLB_MMIO)" "tlb_hit a (vaddr OR TLB_MMIO OR TLB_NOTDIRTY)"
    unfolding tlb_hit_def TARGET_PAGE_MASK_eq TLB_INVALID_MASK_eq f v
    by (rule bit_word_eqI; auto simp: bit_simps)+
qed

lemma tlb_hit_new_entry:
  assumes "vaddr AND TARGET_PAGE_MASK = vaddr" and "a AND TARGET_PAGE_MASK = vaddr"
    and "address \<in> {vaddr, vaddr OR TLB_MMIO, vaddr OR TLB_MMIO OR TLB_MMIO}"
    and "code_address \<in> {vaddr, vaddr OR TLB_MMIO}"
  shows "tlb_hit a (addr_read (new_tlb_entry address code_address prot pd d add)) \<longleftrightarrow> prot AND PAGE_READ \<noteq> 0"
    and "tlb_hit a (addr_write (new_tlb_entry address code_address prot pd d add)) \<longleftrightarrow> prot AND PAGE_WRITE \<noteq> 0"
    and "tlb_hit a (addr_code (new_tlb_entry address code_address prot pd d add)) \<longleftrightarrow> prot AND PAGE_EXEC \<noteq> 0"
  using tlb_hit_flags [OF assms(1,2)] assms(3,4) by (auto simp: new_tlb_entry_def or.assoc)

text \<open>The new entry of a mapping, and what else the insertion changes.\<close>

lemma tlb_set_page_exec_entry:
  assumes "vaddr AND TARGET_PAGE_MASK = vaddr" and "a AND TARGET_PAGE_MASK = vaddr"
    and "\<not> memcheck_instrument_mmu mach"
    and "tlb_set_page_exec vaddr paddr prot m sm (mach, env) = ret (r, mach', env')"
  obtains ptr te io rl where
    "env' = env\<lparr>iotlb := io, tlb_table := (tlb_table env)(m := (tlb_table env m)(tlb_index vaddr := te))\<rparr>"
    and "mach' = mach\<lparr>ram_list := rl\<rparr>" and "entry_at a m env' = te" and "addend te = ptr - ucast vaddr"
    and "qemu_safe_ram_ptr (page_of_u64 (page_pd mach paddr)) (ram_list mach) = ret ptr"
    and "tlb_hit a (addr_read te) \<longleftrightarrow> prot AND PAGE_READ \<noteq> 0"
    and "tlb_hit a (addr_write te) \<longleftrightarrow> prot AND PAGE_WRITE \<noteq> 0"
    and "tlb_hit a (addr_code te) \<longleftrightarrow> prot AND PAGE_EXEC \<noteq> 0"
proof -
  let ?pd = "page_pd mach paddr"
  let ?c = "if IO_MEM_ROM < low_bits_u64 ?pd \<and> ?pd AND IO_MEM_ROMD = 0 then vaddr OR TLB_MMIO else vaddr"
  let ?a = "if watched vaddr (watchpoints env) then ?c OR TLB_MMIO else ?c"
  obtain ptr rl d io where p: "qemu_get_ram_ptr (page_of_u64 ?pd) (ram_list mach) = ret (ptr, rl)"
    and t: "env' = env\<lparr>iotlb := io, tlb_table := (tlb_table env)(m := (tlb_table env m)(tlb_index vaddr :=
      new_tlb_entry ?a ?c prot ?pd d (ptr - ucast vaddr)))\<rparr>" and m: "mach' = mach\<lparr>ram_list := rl\<rparr>"
    using assms(3,4) unfolding tlb_set_page_exec_def prod.case Let_def
    by (fastforce simp: memcheck_entry_def dest!: comp_bind_eq_retD)
  have safe: "qemu_safe_ram_ptr (page_of_u64 ?pd) (ram_list mach) = ret ptr"
    using p by (auto simp: qemu_get_ram_ptr_def qemu_safe_ram_ptr_def split: option.splits)
  have "tlb_index a = tlb_index vaddr" using assms(1,2) by (intro tlb_index_eq_page) simp
  then have e: "entry_at a m env' = new_tlb_entry ?a ?c prot ?pd d (ptr - ucast vaddr)"
    by (simp add: entry_at_def t)
  have mem: "?a \<in> {vaddr, vaddr OR TLB_MMIO, vaddr OR TLB_MMIO OR TLB_MMIO}" "?c \<in> {vaddr, vaddr OR TLB_MMIO}"
    by (auto simp: or.assoc)
  have "addend (new_tlb_entry ?a ?c prot ?pd d (ptr - ucast vaddr)) = ptr - ucast vaddr"
    by (simp add: new_tlb_entry_def)
  then show thesis
    using that [OF t m e _ safe] tlb_hit_new_entry [OF assms(1,2) mem] by simp
qed

text \<open>The RAM behind a page: its block is there, and for a page of RAM its dirty byte.\<close>

definition page_backed :: "machine \<Rightarrow> u32 \<Rightarrow> bool" where
  "page_backed mach paddr \<longleftrightarrow>
     (\<exists>h. qemu_safe_ram_ptr (page_of_u64 (page_pd mach paddr)) (ram_list mach) = ret h) \<and>
     (low_bits_u64 (page_pd mach paddr) = IO_MEM_RAM \<longrightarrow> page_index (page_pd mach paddr) < length (phys_dirty (ram_list mach)))"

lemma get_ram_ptr_of_safe:
  assumes "qemu_safe_ram_ptr a rl = ret h"
  obtains rl' where "qemu_get_ram_ptr a rl = ret (h, rl')" and "phys_dirty rl' = phys_dirty rl"
    and "set (blocks rl') = set (blocks rl)"
proof (cases "find (in_block a) (blocks rl)")
  case (Some b)
  then have "b \<in> set (blocks rl)" by (auto simp: find_Some_iff)
  with Some show thesis
    using assms by (intro that [of "if b \<noteq> hd (blocks rl) then rl\<lparr>blocks := b # remove1 b (blocks rl)\<rparr> else rl"])
      (auto simp: qemu_safe_ram_ptr_def qemu_get_ram_ptr_def dest: set_remove1_subset [THEN subsetD] intro: in_set_remove1 [THEN iffD2])
qed (use assms in \<open>simp add: qemu_safe_ram_ptr_def\<close>)

text \<open>The insertion into a machine whose page is backed: it returns, and what the I/O word of the line is.\<close>

lemma tlb_set_page_exec_returns:
  assumes "page_backed mach paddr"
  obtains rl te where "tlb_set_page_exec vaddr paddr prot m sm (mach, env) = ret (0, mach\<lparr>ram_list := rl\<rparr>,
      env\<lparr>iotlb := (iotlb env)(m := (iotlb env m)(tlb_index vaddr :=
            (if watched vaddr (watchpoints env) then io_mem_watch mach + paddr else iotlb_value mach (page_pd mach paddr) paddr) - vaddr)),
          tlb_table := (tlb_table env)(m := (tlb_table env m)(tlb_index vaddr := te))\<rparr>)"
    and "set (blocks rl) = set (blocks (ram_list mach))" and "phys_dirty rl = phys_dirty (ram_list mach)"
proof -
  obtain h where "qemu_safe_ram_ptr (page_of_u64 (page_pd mach paddr)) (ram_list mach) = ret h"
    using assms by (auto simp: page_backed_def)
  then obtain rl where rl: "qemu_get_ram_ptr (page_of_u64 (page_pd mach paddr)) (ram_list mach) = ret (h, rl)"
      "phys_dirty rl = phys_dirty (ram_list mach)" "set (blocks rl) = set (blocks (ram_list mach))"
    by (rule get_ram_ptr_of_safe)
  have any: "Ex Not" by blast
  have "\<exists>d. (if prot AND PAGE_WRITE \<noteq> 0 \<and> low_bits_u64 (page_pd mach paddr) = IO_MEM_RAM
      then cpu_physical_memory_is_dirty (page_pd mach paddr) rl else ret False) = ret d"
    using assms by (simp add: page_backed_def cpu_physical_memory_is_dirty_def cpu_physical_memory_get_dirty_flags_def rl(2) any)
  then obtain d where "(if prot AND PAGE_WRITE \<noteq> 0 \<and> low_bits_u64 (page_pd mach paddr) = IO_MEM_RAM
      then cpu_physical_memory_is_dirty (page_pd mach paddr) rl else ret False) = ret d" ..
  then show thesis
    by (intro that [of rl]) (simp_all only: tlb_set_page_exec_def rl Let_def prod.case comp_bind_ret if_cancel)
qed

text \<open>On a device page every field of the entry that can hit has a flag below the page, so that the access goes through the I/O word.\<close>

lemma or_mmio_flag: "(x OR TLB_MMIO) AND NOT TARGET_PAGE_MASK \<noteq> 0"
proof
  assume "(x OR TLB_MMIO) AND NOT TARGET_PAGE_MASK = 0"
  then have "bit ((x OR TLB_MMIO) AND NOT TARGET_PAGE_MASK) 5 = bit (0 :: u32) 5" by simp
  moreover have "bit TLB_MMIO 5" unfolding TLB_MMIO_def by code_simp
  ultimately show False by (simp add: TARGET_PAGE_MASK_eq bit_simps)
qed

lemma tlb_set_page_exec_mmio:
  assumes "\<not> memcheck_instrument_mmu mach" and "IO_MEM_ROM < low_bits_u64 (page_pd mach paddr)" and "page_pd mach paddr AND IO_MEM_ROMD = 0"
    and "tlb_set_page_exec vaddr paddr prot m sm (mach, env) = ret (r, mach', env')"
  shows "prot AND PAGE_READ \<noteq> 0 \<Longrightarrow> addr_read (entry_at vaddr m env') AND NOT TARGET_PAGE_MASK \<noteq> 0"
    and "prot AND PAGE_WRITE \<noteq> 0 \<Longrightarrow> addr_write (entry_at vaddr m env') AND NOT TARGET_PAGE_MASK \<noteq> 0"
    and "prot AND PAGE_EXEC \<noteq> 0 \<Longrightarrow> addr_code (entry_at vaddr m env') AND NOT TARGET_PAGE_MASK \<noteq> 0"
proof -
  let ?pd = "page_pd mach paddr"
  have rom: "low_bits_u64 ?pd \<noteq> IO_MEM_ROM" "low_bits_u64 ?pd \<noteq> IO_MEM_RAM"
    using assms(2) by (auto simp: IO_MEM_ROM_def IO_MEM_RAM_def)
  obtain a d add where e: "entry_at vaddr m env' = new_tlb_entry (a OR TLB_MMIO) (vaddr OR TLB_MMIO) prot ?pd d add"
    using assms unfolding tlb_set_page_exec_def prod.case Let_def
    by (fastforce simp: memcheck_entry_def entry_at_def or.assoc dest!: comp_bind_eq_retD)
  show "prot AND PAGE_READ \<noteq> 0 \<Longrightarrow> addr_read (entry_at vaddr m env') AND NOT TARGET_PAGE_MASK \<noteq> 0"
    "prot AND PAGE_WRITE \<noteq> 0 \<Longrightarrow> addr_write (entry_at vaddr m env') AND NOT TARGET_PAGE_MASK \<noteq> 0"
    "prot AND PAGE_EXEC \<noteq> 0 \<Longrightarrow> addr_code (entry_at vaddr m env') AND NOT TARGET_PAGE_MASK \<noteq> 0"
    unfolding e using rom assms(3) by (simp_all add: new_tlb_entry_def or_mmio_flag)
qed

text \<open>The address bits of a page do not matter for its descriptor.\<close>

lemma drop_page_bits: "drop_bit TARGET_PAGE_BITS (a AND TARGET_PAGE_MASK) = drop_bit TARGET_PAGE_BITS (a :: u32)"
  by (rule bit_word_eqI) (auto simp: TARGET_PAGE_BITS_def TARGET_PAGE_MASK_eq bit_simps dest: bit_imp_le_length)

lemma page_pd_of_page [simp]: "page_pd mach (a AND TARGET_PAGE_MASK) = page_pd mach a"
  unfolding page_pd_def drop_page_bits ..

lemma page_backed_of_page [simp]: "page_backed mach (a AND TARGET_PAGE_MASK) = page_backed mach a"
  by (simp add: page_backed_def)

text \<open>
  C30. After \<open>tlb_set_page_exec\<close> maps the page of \<open>vaddr\<close>, an access to the page hits in the mode of
  the mapping exactly when the protection allows it: loads with \<open>PAGE_READ\<close>, stores with \<open>PAGE_WRITE\<close>,
  fetches with \<open>PAGE_EXEC\<close>; and the addend of the entry leads to the host address of the page that
  \<open>qemu_safe_ram_ptr\<close> gives. No other line or mode changes.
\<close>

theorem tlb_set_page_lookup:
  assumes "vaddr AND TARGET_PAGE_MASK = vaddr" and "a AND TARGET_PAGE_MASK = vaddr"
    and "\<not> memcheck_instrument_mmu mach"
    and "tlb_set_page_exec vaddr paddr prot m sm (mach, env) = ret (r, mach', env')"
  shows "let te = entry_at a m env' in
    (tlb_hit a (addr_read te) \<longleftrightarrow> prot AND PAGE_READ \<noteq> 0) \<and>
    (tlb_hit a (addr_write te) \<longleftrightarrow> prot AND PAGE_WRITE \<noteq> 0) \<and>
    (tlb_hit a (addr_code te) \<longleftrightarrow> prot AND PAGE_EXEC \<noteq> 0) \<and>
    qemu_safe_ram_ptr (page_of_u64 (page_pd mach paddr)) (ram_list mach) = ret (addend te + ucast vaddr) \<and>
    (\<forall>m' j. m' \<noteq> m \<or> j \<noteq> tlb_index vaddr \<longrightarrow> tlb_table env' m' j = tlb_table env m' j)"
  by (rule tlb_set_page_exec_entry [OF assms]) (simp add: Let_def)

definition small_machine :: machine where
  "small_machine = \<lparr>phys_page_find = (\<lambda>i. if i < 4 then Some \<lparr>phys_offset = ucast i * 1024, region_offset = 0\<rparr> else None),
     ram_list = two_blocks, io_mem_watch = 0x100, memcheck_instrument_mmu = False,
     memcheck_is_checked = (\<lambda>_ _. False)\<rparr>"

theorem tlb_set_page_lookup_witness:
  "\<exists>r mach' env'. tlb_set_page_exec 0x8400 0x400 (PAGE_READ OR PAGE_WRITE) 1 True (small_machine, empty_common) =
      ret (r, mach', env') \<and>
    tlb_hit 0x8412 (addr_read (entry_at 0x8412 1 env')) \<and> tlb_hit 0x8412 (addr_write (entry_at 0x8412 1 env')) \<and>
    \<not> tlb_hit 0x8412 (addr_code (entry_at 0x8412 1 env'))"
proof -
  let ?c = "tlb_set_page_exec 0x8400 0x400 (PAGE_READ OR PAGE_WRITE) 1 True (small_machine, empty_common)"
  have "map_option fst (returned ?c) = Some 0" by code_simp
  then obtain r mach' env' where r: "?c = ret (r, mach', env')" by (auto simp: returned_Some)
  have p: "(PAGE_READ OR PAGE_WRITE) AND PAGE_READ \<noteq> 0" "(PAGE_READ OR PAGE_WRITE) AND PAGE_WRITE \<noteq> 0"
    "(PAGE_READ OR PAGE_WRITE) AND PAGE_EXEC = 0" by code_simp+
  show ?thesis
    using tlb_set_page_lookup [OF _ _ _ r, of "0x8412"] r p
    by (simp add: TARGET_PAGE_MASK_def small_machine_def Let_def)
qed

end
