(* ===== verification/Arm_Cpu.thy ===== *)
theory Arm_Cpu
  imports Soft_Tlb
begin

text \<open>
  The state of the ARM processor (\<open>src/qemu/target-arm/cpu.h\<close>) and the operations on its mode,
  status and model (\<open>src/qemu/target-arm/helper.c\<close>): register banks, CPSR and xPSR, features, the
  table of processors, reset. Arrays of registers are functions of the index, which the code keeps in
  range; \<open>cpu_abort\<close> is \<open>Abort\<close>. Configuration: system emulation, Android, little-endian.
\<close>

section \<open>State\<close>

type_synonym u32_array = "nat \<Rightarrow> u32"

record cp15_state =
  c0_cpuid :: u32
  c0_cachetype :: u32
  c0_ccsid :: u32_array
  c0_clid :: u32
  c0_cssel :: u32
  c0_c1 :: u32_array
  c0_c2 :: u32_array
  c1_sys :: u32
  c1_coproc :: u32
  c1_xscaleauxcr :: u32
  c1_secfg :: u32
  c1_sedbg :: u32
  c1_nseac :: u32
  c2_base0 :: u32
  c2_base1 :: u32
  c2_control :: u32
  c2_mask :: u32
  c2_base_mask :: u32
  c2_data :: u32
  c2_insn :: u32
  c3 :: u32
  c5_insn :: u32
  c5_data :: u32
  c6_region :: u32_array
  c6_insn :: u32
  c6_data :: u32
  c7_par :: u32
  c9_insn :: u32
  c9_data :: u32
  c9_pmcr_data :: u32
  c9_useren :: u32
  c9_inten :: u32
  c12_vbar :: u32
  c12_mvbar :: u32
  c13_fcse :: u32
  c13_context :: u32
  c13_tls1 :: u32
  c13_tls2 :: u32
  c13_tls3 :: u32
  c15_cpar :: u32
  c15_ticonfig :: u32
  c15_i_max :: u32
  c15_i_min :: u32
  c15_threadid :: u32

record v7m_state =
  other_sp :: u32
  vecbase :: u32
  basepri :: u32
  control :: u32
  current_sp :: int
  exception :: u32
  pending_exception :: int

record float_status =
  float_detect_tininess :: int
  float_rounding_mode :: int
  float_exception_flags :: int
  flush_to_zero :: bool
  flush_inputs_to_zero :: bool
  default_nan_mode :: bool

record vfp_state =
  vregs :: "nat \<Rightarrow> u64"
  xregs :: u32_array
  vec_len :: u32
  vec_stride :: u32
  fp_status :: float_status
  standard_fp_status :: float_status

record iwmmxt_state =
  iw_regs :: "nat \<Rightarrow> u64"
  iw_val :: u64
  iw_cregs :: u32_array

record CPUARMState = cpu_common +
  regs :: u32_array
  uncached_cpsr :: u32
  spsr :: u32
  banked_spsr :: u32_array
  banked_r13 :: u32_array
  banked_r14 :: u32_array
  usr_regs :: u32_array
  fiq_regs :: u32_array
  CF :: u32
  VF :: u32
  NF :: u32
  ZF :: u32
  QF :: u32
  GE :: u32
  thumb :: u32
  condexec_bits :: u32
  cp15 :: cp15_state
  v7m :: v7m_state
  cp14_dbgdidr :: u32
  teecr :: u32
  teehbr :: u32
  features :: u32
  vfp :: vfp_state
  exclusive_addr :: u32
  exclusive_val :: u32
  exclusive_high :: u32
  iwmmxt :: iwmmxt_state

section \<open>Constants\<close>

definition CPSR_M :: u32 where "CPSR_M = 0x1F"
definition CPSR_T :: u32 where "CPSR_T = 0x20"
definition CPSR_F :: u32 where "CPSR_F = 0x40"
definition CPSR_I :: u32 where "CPSR_I = 0x80"
definition CPSR_A :: u32 where "CPSR_A = 0x100"
definition CPSR_E :: u32 where "CPSR_E = 0x200"
definition CPSR_IT_2_7 :: u32 where "CPSR_IT_2_7 = 0xFC00"
definition CPSR_GE :: u32 where "CPSR_GE = 0xF0000"
definition CPSR_J :: u32 where "CPSR_J = 0x1000000"
definition CPSR_IT_0_1 :: u32 where "CPSR_IT_0_1 = 0x6000000"
definition CPSR_Q :: u32 where "CPSR_Q = 0x8000000"
definition CPSR_V :: u32 where "CPSR_V = 0x10000000"
definition CPSR_C :: u32 where "CPSR_C = 0x20000000"
definition CPSR_Z :: u32 where "CPSR_Z = 0x40000000"
definition CPSR_N :: u32 where "CPSR_N = 0x80000000"
definition CPSR_NZCV :: u32 where "CPSR_NZCV = CPSR_N OR CPSR_Z OR CPSR_C OR CPSR_V"
definition CPSR_IT :: u32 where "CPSR_IT = CPSR_IT_0_1 OR CPSR_IT_2_7"
definition CACHED_CPSR_BITS :: u32 where
  "CACHED_CPSR_BITS = CPSR_T OR CPSR_GE OR CPSR_IT OR CPSR_Q OR CPSR_NZCV"

definition ARM_CPU_MODE_USR :: u32 where "ARM_CPU_MODE_USR = 0x10"
definition ARM_CPU_MODE_FIQ :: u32 where "ARM_CPU_MODE_FIQ = 0x11"
definition ARM_CPU_MODE_IRQ :: u32 where "ARM_CPU_MODE_IRQ = 0x12"
definition ARM_CPU_MODE_SVC :: u32 where "ARM_CPU_MODE_SVC = 0x13"
definition ARM_CPU_MODE_SMC :: u32 where "ARM_CPU_MODE_SMC = 0x16"
definition ARM_CPU_MODE_ABT :: u32 where "ARM_CPU_MODE_ABT = 0x17"
definition ARM_CPU_MODE_UND :: u32 where "ARM_CPU_MODE_UND = 0x1B"
definition ARM_CPU_MODE_SYS :: u32 where "ARM_CPU_MODE_SYS = 0x1F"

text \<open>The features, in the order of the enumeration: the position of a feature is its bit.\<close>

datatype arm_feature_id =
  ARM_FEATURE_VFP | ARM_FEATURE_AUXCR | ARM_FEATURE_XSCALE | ARM_FEATURE_IWMMXT | ARM_FEATURE_V6 | ARM_FEATURE_V6K |
  ARM_FEATURE_V7 | ARM_FEATURE_THUMB2 | ARM_FEATURE_MPU | ARM_FEATURE_VFP3 | ARM_FEATURE_VFP_FP16 | ARM_FEATURE_NEON |
  ARM_FEATURE_DIV | ARM_FEATURE_M | ARM_FEATURE_OMAPCP | ARM_FEATURE_THUMB2EE | ARM_FEATURE_V7MP | ARM_FEATURE_V4T |
  ARM_FEATURE_V5 | ARM_FEATURE_STRONGARM | ARM_FEATURE_TRUSTZONE

fun feature_bit :: "arm_feature_id \<Rightarrow> nat" where
  "feature_bit ARM_FEATURE_VFP = 0"
| "feature_bit ARM_FEATURE_AUXCR = 1"
| "feature_bit ARM_FEATURE_XSCALE = 2"
| "feature_bit ARM_FEATURE_IWMMXT = 3"
| "feature_bit ARM_FEATURE_V6 = 4"
| "feature_bit ARM_FEATURE_V6K = 5"
| "feature_bit ARM_FEATURE_V7 = 6"
| "feature_bit ARM_FEATURE_THUMB2 = 7"
| "feature_bit ARM_FEATURE_MPU = 8"
| "feature_bit ARM_FEATURE_VFP3 = 9"
| "feature_bit ARM_FEATURE_VFP_FP16 = 10"
| "feature_bit ARM_FEATURE_NEON = 11"
| "feature_bit ARM_FEATURE_DIV = 12"
| "feature_bit ARM_FEATURE_M = 13"
| "feature_bit ARM_FEATURE_OMAPCP = 14"
| "feature_bit ARM_FEATURE_THUMB2EE = 15"
| "feature_bit ARM_FEATURE_V7MP = 16"
| "feature_bit ARM_FEATURE_V4T = 17"
| "feature_bit ARM_FEATURE_V5 = 18"
| "feature_bit ARM_FEATURE_STRONGARM = 19"
| "feature_bit ARM_FEATURE_TRUSTZONE = 20"

definition arm_feature :: "'a CPUARMState_scheme \<Rightarrow> arm_feature_id \<Rightarrow> bool" where
  "arm_feature env f \<longleftrightarrow> bit (features env) (feature_bit f)"

definition set_feature :: "arm_feature_id \<Rightarrow> 'a CPUARMState_scheme \<Rightarrow> 'a CPUARMState_scheme" where
  "set_feature f env = env\<lparr>features := features env OR push_bit (feature_bit f) 1\<rparr>"

definition IS_M :: "'a CPUARMState_scheme \<Rightarrow> bool" where
  "IS_M env = arm_feature env ARM_FEATURE_M"

text \<open>Exceptions and pending-interrupt bits.\<close>


definition EXCP_UDEF :: int where "EXCP_UDEF = 1"
definition EXCP_SWI :: int where "EXCP_SWI = 2"
definition EXCP_PREFETCH_ABORT :: int where "EXCP_PREFETCH_ABORT = 3"
definition EXCP_DATA_ABORT :: int where "EXCP_DATA_ABORT = 4"
definition EXCP_IRQ :: int where "EXCP_IRQ = 5"
definition EXCP_FIQ :: int where "EXCP_FIQ = 6"
definition EXCP_BKPT :: int where "EXCP_BKPT = 7"
definition EXCP_EXCEPTION_EXIT :: int where "EXCP_EXCEPTION_EXIT = 8"
definition EXCP_SMC :: int where "EXCP_SMC = 11"
definition CPU_INTERRUPT_EXITTB :: u32 where "CPU_INTERRUPT_EXITTB = 4"

definition ARM_CPUID_ARM1026 :: u32 where "ARM_CPUID_ARM1026 = 0x4106A262"
definition ARM_CPUID_ARM926 :: u32 where "ARM_CPUID_ARM926 = 0x41069265"
definition ARM_CPUID_ARM946 :: u32 where "ARM_CPUID_ARM946 = 0x41059461"
definition ARM_CPUID_TI915T :: u32 where "ARM_CPUID_TI915T = 0x54029152"
definition ARM_CPUID_TI925T :: u32 where "ARM_CPUID_TI925T = 0x54029252"
definition ARM_CPUID_SA1100 :: u32 where "ARM_CPUID_SA1100 = 0x4401A11B"
definition ARM_CPUID_SA1110 :: u32 where "ARM_CPUID_SA1110 = 0x6901B119"
definition ARM_CPUID_PXA250 :: u32 where "ARM_CPUID_PXA250 = 0x69052100"
definition ARM_CPUID_PXA255 :: u32 where "ARM_CPUID_PXA255 = 0x69052D00"
definition ARM_CPUID_PXA260 :: u32 where "ARM_CPUID_PXA260 = 0x69052903"
definition ARM_CPUID_PXA261 :: u32 where "ARM_CPUID_PXA261 = 0x69052D05"
definition ARM_CPUID_PXA262 :: u32 where "ARM_CPUID_PXA262 = 0x69052D06"
definition ARM_CPUID_PXA270 :: u32 where "ARM_CPUID_PXA270 = 0x69054110"
definition ARM_CPUID_PXA270_A0 :: u32 where "ARM_CPUID_PXA270_A0 = 0x69054110"
definition ARM_CPUID_PXA270_A1 :: u32 where "ARM_CPUID_PXA270_A1 = 0x69054111"
definition ARM_CPUID_PXA270_B0 :: u32 where "ARM_CPUID_PXA270_B0 = 0x69054112"
definition ARM_CPUID_PXA270_B1 :: u32 where "ARM_CPUID_PXA270_B1 = 0x69054113"
definition ARM_CPUID_PXA270_C0 :: u32 where "ARM_CPUID_PXA270_C0 = 0x69054114"
definition ARM_CPUID_PXA270_C5 :: u32 where "ARM_CPUID_PXA270_C5 = 0x69054117"
definition ARM_CPUID_ARM1136 :: u32 where "ARM_CPUID_ARM1136 = 0x4117B363"
definition ARM_CPUID_ARM1136_R2 :: u32 where "ARM_CPUID_ARM1136_R2 = 0x4107B362"
definition ARM_CPUID_ARM11MPCORE :: u32 where "ARM_CPUID_ARM11MPCORE = 0x410FB022"
definition ARM_CPUID_CORTEXA8 :: u32 where "ARM_CPUID_CORTEXA8 = 0x410FC080"
definition ARM_CPUID_CORTEXA8_R2 :: u32 where "ARM_CPUID_CORTEXA8_R2 = 0x412FC083"
definition ARM_CPUID_CORTEXA9 :: u32 where "ARM_CPUID_CORTEXA9 = 0x410FC090"
definition ARM_CPUID_CORTEXM3 :: u32 where "ARM_CPUID_CORTEXM3 = 0x410FC231"
definition ARM_CPUID_ANY :: u32 where "ARM_CPUID_ANY = 0xFFFFFFFF"

definition ARM_VFP_FPSID :: nat where "ARM_VFP_FPSID = 0"
definition ARM_VFP_FPSCR :: nat where "ARM_VFP_FPSCR = 1"
definition ARM_VFP_MVFR1 :: nat where "ARM_VFP_MVFR1 = 6"
definition ARM_VFP_MVFR0 :: nat where "ARM_VFP_MVFR0 = 7"
definition ARM_VFP_FPEXC :: nat where "ARM_VFP_FPEXC = 8"
definition ARM_IWMMXT_wCID :: nat where "ARM_IWMMXT_wCID = 0"

text \<open>An array initialised from a list; \<open>memcpy\<close> into an array writes the first elements.\<close>

definition array_of :: "u32 list \<Rightarrow> u32_array" where
  "array_of xs = (\<lambda>i. if i < length xs then xs ! i else 0)"

definition copy_array :: "nat \<Rightarrow> u32_array \<Rightarrow> u32_array \<Rightarrow> u32_array" where
  "copy_array n src dst = (\<lambda>i. if i < n then src i else dst i)"

section \<open>Models and reset\<close>

definition cortexa9_cp15_c0_c1 :: "u32 list" where
  "cortexa9_cp15_c0_c1 = [0x1031, 0x11, 0x000, 0, 0x00100103, 0x20000000, 0x01230000, 0x00002111]"

definition cortexa9_cp15_c0_c2 :: "u32 list" where
  "cortexa9_cp15_c0_c2 = [0x00101111, 0x13112111, 0x21232041, 0x11112131, 0x00111142, 0, 0, 0]"

definition cortexa8_cp15_c0_c1 :: "u32 list" where
  "cortexa8_cp15_c0_c1 = [0x1031, 0x11, 0x400, 0, 0x31100003, 0x20000000, 0x01202000, 0x11]"

definition cortexa8_cp15_c0_c2 :: "u32 list" where
  "cortexa8_cp15_c0_c2 = [0x00101111, 0x12112111, 0x21232031, 0x11112131, 0x00111142, 0, 0, 0]"

definition cortexa8r2_cp15_c0_c2 :: "u32 list" where
  "cortexa8r2_cp15_c0_c2 = [0x00101111, 0x12112111, 0x21232031, 0x11112131, 0x00011142, 0, 0, 0]"

definition mpcore_cp15_c0_c1 :: "u32 list" where
  "mpcore_cp15_c0_c1 = [0x111, 0x1, 0, 0x2, 0x01100103, 0x10020302, 0x01222000, 0]"

definition mpcore_cp15_c0_c2 :: "u32 list" where
  "mpcore_cp15_c0_c2 = [0x00100011, 0x12002111, 0x11221011, 0x01102131, 0x141, 0, 0, 0]"

definition arm1136_cp15_c0_c1 :: "u32 list" where
  "arm1136_cp15_c0_c1 = [0x111, 0x1, 0x2, 0x3, 0x01130003, 0x10030302, 0x01222110, 0]"

definition arm1136_cp15_c0_c2 :: "u32 list" where
  "arm1136_cp15_c0_c2 = [0x00140011, 0x12002111, 0x11231111, 0x01102131, 0x141, 0, 0, 0]"

text \<open>The steps of \<open>cpu_reset_model_id\<close>: features, VFP registers, coprocessor registers.\<close>

definition set_features :: "arm_feature_id list \<Rightarrow> 'a CPUARMState_scheme \<Rightarrow> 'a CPUARMState_scheme" where
  "set_features fs env = fold set_feature fs env"

definition set_xreg :: "nat \<Rightarrow> u32 \<Rightarrow> 'a CPUARMState_scheme \<Rightarrow> 'a CPUARMState_scheme" where
  "set_xreg i v env = env\<lparr>vfp := (vfp env)\<lparr>xregs := (xregs (vfp env))(i := v)\<rparr>\<rparr>"

definition update_cp15 :: "(cp15_state \<Rightarrow> cp15_state) \<Rightarrow> 'a CPUARMState_scheme \<Rightarrow> 'a CPUARMState_scheme" where
  "update_cp15 f env = env\<lparr>cp15 := f (cp15 env)\<rparr>"

definition copy_id_registers :: "u32 list \<Rightarrow> u32 list \<Rightarrow> cp15_state \<Rightarrow> cp15_state" where
  "copy_id_registers c1 c2 c =
     c\<lparr>c0_c1 := copy_array 8 (array_of c1) (c0_c1 c), c0_c2 := copy_array 8 (array_of c2) (c0_c2 c)\<rparr>"

definition reset_arm926 :: "'a CPUARMState_scheme \<Rightarrow> 'a CPUARMState_scheme" where
  "reset_arm926 env =
     update_cp15 (\<lambda>c. c\<lparr>c0_cachetype := 0x1DD20D2, c1_sys := 0x00090078\<rparr>) (set_xreg ARM_VFP_FPSID 0x41011090 (set_features [ARM_FEATURE_V4T, ARM_FEATURE_V5, ARM_FEATURE_VFP] env))"

definition reset_arm946 :: "'a CPUARMState_scheme \<Rightarrow> 'a CPUARMState_scheme" where
  "reset_arm946 env =
     update_cp15 (\<lambda>c. c\<lparr>c0_cachetype := 0x0F004006, c1_sys := 0x00000078\<rparr>) (set_features [ARM_FEATURE_V4T, ARM_FEATURE_V5, ARM_FEATURE_MPU] env)"

definition reset_arm1026 :: "'a CPUARMState_scheme \<Rightarrow> 'a CPUARMState_scheme" where
  "reset_arm1026 env =
     update_cp15 (\<lambda>c. c\<lparr>c0_cachetype := 0x1DD20D2, c1_sys := 0x00090078\<rparr>) (set_xreg ARM_VFP_FPSID 0x410110A0 (set_features [ARM_FEATURE_V4T, ARM_FEATURE_V5, ARM_FEATURE_VFP, ARM_FEATURE_AUXCR] env))"

definition reset_arm1136 :: "'a CPUARMState_scheme \<Rightarrow> 'a CPUARMState_scheme" where
  "reset_arm1136 env =
     update_cp15 (\<lambda>c. (copy_id_registers arm1136_cp15_c0_c1 arm1136_cp15_c0_c2 c)\<lparr>c0_cachetype := 0x1DD20D2, c1_sys := 0x00050078\<rparr>) (set_xreg ARM_VFP_MVFR1 0 (set_xreg ARM_VFP_MVFR0 0x11111111 (set_xreg ARM_VFP_FPSID 0x410120B4 (set_features [ARM_FEATURE_V4T, ARM_FEATURE_V5, ARM_FEATURE_V6, ARM_FEATURE_VFP, ARM_FEATURE_AUXCR] env))))"

definition reset_arm11mpcore :: "'a CPUARMState_scheme \<Rightarrow> 'a CPUARMState_scheme" where
  "reset_arm11mpcore env =
     update_cp15 (\<lambda>c. (copy_id_registers mpcore_cp15_c0_c1 mpcore_cp15_c0_c2 c)\<lparr>c0_cachetype := 0x1DD20D2\<rparr>) (set_xreg ARM_VFP_MVFR1 0 (set_xreg ARM_VFP_MVFR0 0x11111111 (set_xreg ARM_VFP_FPSID 0x410120B4 (set_features [ARM_FEATURE_V4T, ARM_FEATURE_V5, ARM_FEATURE_V6, ARM_FEATURE_V6K, ARM_FEATURE_VFP, ARM_FEATURE_AUXCR] env))))"

definition reset_cortexa8 :: "'a CPUARMState_scheme \<Rightarrow> 'a CPUARMState_scheme" where
  "reset_cortexa8 env =
     update_cp15 (\<lambda>c. (copy_id_registers cortexa8_cp15_c0_c1 cortexa8_cp15_c0_c2 c)\<lparr>c0_cachetype := 0x82048004,
       c0_clid := push_bit 27 1 OR push_bit 24 2 OR 3,
       c0_ccsid := (c0_ccsid c)(0 := 0xE007E01A, 1 := 0x2007E01A, 2 := 0xF0000000), c1_sys := 0x00C50078\<rparr>) (set_xreg ARM_VFP_MVFR1 0x00011100 (set_xreg ARM_VFP_MVFR0 0x11110222 (set_xreg ARM_VFP_FPSID 0x410330C0 (set_features [ARM_FEATURE_V4T, ARM_FEATURE_V5, ARM_FEATURE_V6, ARM_FEATURE_V6K, ARM_FEATURE_V7, ARM_FEATURE_AUXCR, ARM_FEATURE_THUMB2, ARM_FEATURE_VFP, ARM_FEATURE_VFP3, ARM_FEATURE_NEON, ARM_FEATURE_THUMB2EE, ARM_FEATURE_TRUSTZONE] env))))"

definition reset_cortexa8_r2 :: "'a CPUARMState_scheme \<Rightarrow> 'a CPUARMState_scheme" where
  "reset_cortexa8_r2 env =
     update_cp15 (\<lambda>c. (copy_id_registers cortexa8_cp15_c0_c1 cortexa8r2_cp15_c0_c2 c)\<lparr>c0_cachetype := 0x82048004,
       c0_clid := push_bit 27 1 OR push_bit 24 2 OR push_bit 3 4 OR 3,
       c0_ccsid := (c0_ccsid c)(0 := 0xE007E01A, 1 := 0x2007E01A, 2 := 0xF03FE03A), c1_sys := 0x00C50078\<rparr>) (set_xreg ARM_VFP_MVFR1 0x00011111 (set_xreg ARM_VFP_MVFR0 0x11110222 (set_xreg ARM_VFP_FPSID 0x410330C2 (set_features [ARM_FEATURE_V4T, ARM_FEATURE_V5, ARM_FEATURE_V6, ARM_FEATURE_V6K, ARM_FEATURE_V7, ARM_FEATURE_AUXCR, ARM_FEATURE_THUMB2, ARM_FEATURE_VFP, ARM_FEATURE_VFP3, ARM_FEATURE_NEON, ARM_FEATURE_THUMB2EE, ARM_FEATURE_TRUSTZONE] env))))"

definition reset_cortexa9 :: "'a CPUARMState_scheme \<Rightarrow> 'a CPUARMState_scheme" where
  "reset_cortexa9 env =
     update_cp15 (\<lambda>c. (copy_id_registers cortexa9_cp15_c0_c1 cortexa9_cp15_c0_c2 c)\<lparr>c0_cachetype := 0x80038003,
       c0_clid := push_bit 27 1 OR push_bit 24 1 OR 3,
       c0_ccsid := (c0_ccsid c)(0 := 0xE00FE015, 1 := 0x200FE015), c1_sys := 0x00C50078\<rparr>) (set_xreg ARM_VFP_MVFR1 0x01111111 (set_xreg ARM_VFP_MVFR0 0x11110222 (set_xreg ARM_VFP_FPSID 0x41034000 (set_features [ARM_FEATURE_V4T, ARM_FEATURE_V5, ARM_FEATURE_V6, ARM_FEATURE_V6K, ARM_FEATURE_V7, ARM_FEATURE_AUXCR, ARM_FEATURE_THUMB2, ARM_FEATURE_VFP, ARM_FEATURE_VFP3, ARM_FEATURE_VFP_FP16, ARM_FEATURE_NEON, ARM_FEATURE_THUMB2EE, ARM_FEATURE_V7MP, ARM_FEATURE_TRUSTZONE] env))))"

definition reset_cortexm3 :: "'a CPUARMState_scheme \<Rightarrow> 'a CPUARMState_scheme" where
  "reset_cortexm3 env =
     set_features [ARM_FEATURE_V4T, ARM_FEATURE_V5, ARM_FEATURE_V6, ARM_FEATURE_THUMB2, ARM_FEATURE_V7, ARM_FEATURE_M, ARM_FEATURE_DIV] env"

definition reset_any :: "'a CPUARMState_scheme \<Rightarrow> 'a CPUARMState_scheme" where
  "reset_any env =
     set_features [ARM_FEATURE_V4T, ARM_FEATURE_V5, ARM_FEATURE_V6, ARM_FEATURE_V6K, ARM_FEATURE_V7, ARM_FEATURE_THUMB2, ARM_FEATURE_VFP, ARM_FEATURE_VFP3, ARM_FEATURE_VFP_FP16, ARM_FEATURE_NEON, ARM_FEATURE_THUMB2EE, ARM_FEATURE_DIV, ARM_FEATURE_V7MP] env"

definition reset_ti925t :: "'a CPUARMState_scheme \<Rightarrow> 'a CPUARMState_scheme" where
  "reset_ti925t env =
     update_cp15 (\<lambda>c. c\<lparr>c0_cpuid := ARM_CPUID_TI925T, c0_cachetype := 0x5109149, c1_sys := 0x00000070, c15_i_max := 0, c15_i_min := 0xFF0\<rparr>) (set_features [ARM_FEATURE_V4T, ARM_FEATURE_OMAPCP] env)"

definition reset_pxa25x :: "'a CPUARMState_scheme \<Rightarrow> 'a CPUARMState_scheme" where
  "reset_pxa25x env =
     update_cp15 (\<lambda>c. c\<lparr>c0_cachetype := 0xD172172, c1_sys := 0x00000078\<rparr>) (set_features [ARM_FEATURE_V4T, ARM_FEATURE_V5, ARM_FEATURE_XSCALE] env)"

definition reset_pxa270 :: "'a CPUARMState_scheme \<Rightarrow> 'a CPUARMState_scheme" where
  "reset_pxa270 env =
     (let e = set_features [ARM_FEATURE_V4T, ARM_FEATURE_V5, ARM_FEATURE_XSCALE, ARM_FEATURE_IWMMXT] env in
      update_cp15 (\<lambda>c. c\<lparr>c0_cachetype := 0xD172172, c1_sys := 0x00000078\<rparr>)
        (e\<lparr>iwmmxt := (iwmmxt e)\<lparr>iw_cregs := (iw_cregs (iwmmxt e))(ARM_IWMMXT_wCID := 0x69051000 OR 0x51)\<rparr>\<rparr>))"

definition reset_sa1100 :: "'a CPUARMState_scheme \<Rightarrow> 'a CPUARMState_scheme" where
  "reset_sa1100 env = update_cp15 (\<lambda>c. c\<lparr>c1_sys := 0x00000070\<rparr>) (set_features [ARM_FEATURE_STRONGARM] env)"

definition cpu_reset_model_id :: "u32 \<Rightarrow> 'a CPUARMState_scheme \<Rightarrow> 'a CPUARMState_scheme comp" where
  "cpu_reset_model_id ident env0 =
     (let env = update_cp15 (\<lambda>c. c\<lparr>c0_cpuid := ident\<rparr>) env0 in
      if ident = ARM_CPUID_ARM926 then ret (reset_arm926 env)
      else if ident = ARM_CPUID_ARM946 then ret (reset_arm946 env)
      else if ident = ARM_CPUID_ARM1026 then ret (reset_arm1026 env)
      else if ident \<in> {ARM_CPUID_ARM1136_R2, ARM_CPUID_ARM1136} then ret (reset_arm1136 env)
      else if ident = ARM_CPUID_ARM11MPCORE then ret (reset_arm11mpcore env)
      else if ident = ARM_CPUID_CORTEXA8 then ret (reset_cortexa8 env)
      else if ident = ARM_CPUID_CORTEXA8_R2 then ret (reset_cortexa8_r2 env)
      else if ident = ARM_CPUID_CORTEXA9 then ret (reset_cortexa9 env)
      else if ident = ARM_CPUID_CORTEXM3 then ret (reset_cortexm3 env)
      else if ident = ARM_CPUID_ANY then ret (reset_any env)
      else if ident \<in> {ARM_CPUID_TI915T, ARM_CPUID_TI925T} then ret (reset_ti925t env)
      else if ident \<in> {ARM_CPUID_PXA250, ARM_CPUID_PXA255, ARM_CPUID_PXA260, ARM_CPUID_PXA261, ARM_CPUID_PXA262}
      then ret (reset_pxa25x env)
      else if ident \<in> {ARM_CPUID_PXA270_A0, ARM_CPUID_PXA270_A1, ARM_CPUID_PXA270_B0, ARM_CPUID_PXA270_B1,
        ARM_CPUID_PXA270_C0, ARM_CPUID_PXA270_C5} then ret (reset_pxa270 env)
      else if ident \<in> {ARM_CPUID_SA1100, ARM_CPUID_SA1110} then ret (reset_sa1100 env)
      else raise Abort)"

text \<open>\<open>memset(env, 0, offsetof(CPUARMState, breakpoints))\<close>: everything but the fields preserved by a reset.\<close>

definition zero_cp15 :: cp15_state where
  "zero_cp15 = \<lparr>c0_cpuid = 0, c0_cachetype = 0, c0_ccsid = (\<lambda>_. 0), c0_clid = 0, c0_cssel = 0, c0_c1 = (\<lambda>_. 0), c0_c2 = (\<lambda>_. 0), c1_sys = 0, c1_coproc = 0, c1_xscaleauxcr = 0, c1_secfg = 0, c1_sedbg = 0, c1_nseac = 0, c2_base0 = 0, c2_base1 = 0, c2_control = 0, c2_mask = 0, c2_base_mask = 0, c2_data = 0, c2_insn = 0, c3 = 0, c5_insn = 0, c5_data = 0, c6_region = (\<lambda>_. 0), c6_insn = 0, c6_data = 0, c7_par = 0, c9_insn = 0, c9_data = 0, c9_pmcr_data = 0, c9_useren = 0, c9_inten = 0, c12_vbar = 0, c12_mvbar = 0, c13_fcse = 0, c13_context = 0, c13_tls1 = 0, c13_tls2 = 0, c13_tls3 = 0, c15_cpar = 0, c15_ticonfig = 0, c15_i_max = 0, c15_i_min = 0, c15_threadid = 0\<rparr>"

definition zero_float_status :: float_status where
  "zero_float_status = \<lparr>float_detect_tininess = 0, float_rounding_mode = 0, float_exception_flags = 0,
     flush_to_zero = False, flush_inputs_to_zero = False, default_nan_mode = False\<rparr>"

definition zero_vfp :: vfp_state where
  "zero_vfp = \<lparr>vregs = (\<lambda>_. 0), xregs = (\<lambda>_. 0), vec_len = 0, vec_stride = 0,
     fp_status = zero_float_status, standard_fp_status = zero_float_status\<rparr>"

definition zero_iwmmxt :: iwmmxt_state where
  "zero_iwmmxt = \<lparr>iw_regs = (\<lambda>_. 0), iw_val = 0, iw_cregs = (\<lambda>_. 0)\<rparr>"

definition zero_v7m :: v7m_state where
  "zero_v7m = \<lparr>other_sp = 0, vecbase = 0, basepri = 0, control = 0, current_sp = 0, exception = 0, pending_exception = 0\<rparr>"

definition zero_tlb_entry :: CPUTLBEntry where
  "zero_tlb_entry = \<lparr>addr_read = 0, addr_write = 0, addr_code = 0, addend = 0\<rparr>"

definition clear_env :: "'a CPUARMState_scheme \<Rightarrow> 'a CPUARMState_scheme" where
  "clear_env env = env\<lparr>current_tb := None, halted := 0, interrupt_request := 0, tlb_table := (\<lambda>_ _. zero_tlb_entry),
     iotlb := (\<lambda>_ _. 0), tb_jmp_cache := (\<lambda>_. None),
     regs := (\<lambda>_. 0), uncached_cpsr := 0, spsr := 0, banked_spsr := (\<lambda>_. 0), banked_r13 := (\<lambda>_. 0),
     banked_r14 := (\<lambda>_. 0), usr_regs := (\<lambda>_. 0), fiq_regs := (\<lambda>_. 0), CF := 0, VF := 0, NF := 0, ZF := 0,
     QF := 0, GE := 0, thumb := 0, condexec_bits := 0, cp15 := zero_cp15, v7m := zero_v7m, cp14_dbgdidr := 0,
     teecr := 0, teehbr := 0, features := 0, vfp := zero_vfp, exclusive_addr := 0, exclusive_val := 0,
     exclusive_high := 0, iwmmxt := zero_iwmmxt\<rparr>"

text \<open>The end of \<open>cpu_reset\<close>: floating-point defaults and an empty TLB.\<close>

definition reset_float :: "vfp_state \<Rightarrow> vfp_state" where
  "reset_float v = v\<lparr>standard_fp_status := (standard_fp_status v)\<lparr>flush_to_zero := True, flush_inputs_to_zero := True,
       default_nan_mode := True, float_detect_tininess := 1\<rparr>,
     fp_status := (fp_status v)\<lparr>float_detect_tininess := 1\<rparr>\<rparr>"

definition cpu_reset :: "'a CPUARMState_scheme \<Rightarrow> 'a CPUARMState_scheme comp" where
  "cpu_reset env0 =
     (let ident = c0_cpuid (cp15 env0); env1 = clear_env env0 in
      comp_bind (if ident \<noteq> 0 then cpu_reset_model_id ident env1 else ret env1) (\<lambda>env2.
      let env3 = env2\<lparr>cp14_dbgdidr := (drop_bit 16 ident AND 0xF0) OR 0xF,
                      uncached_cpsr := ARM_CPU_MODE_SVC OR CPSR_A OR CPSR_F OR CPSR_I\<rparr>;
          env4 = (if IS_M env3 then env3\<lparr>uncached_cpsr := uncached_cpsr env3 AND NOT CPSR_I\<rparr> else env3);
          env5 = update_cp15 (\<lambda>c. c\<lparr>c2_base_mask := 0xFFFFC000\<rparr>) (set_xreg ARM_VFP_FPEXC 0 env4)
      in ret (tlb_flush (env5\<lparr>vfp := reset_float (vfp env5)\<rparr>))))"

definition arm_cpu_names :: "(u32 \<times> string) list" where
  "arm_cpu_names =
     [(ARM_CPUID_ARM926, ''arm926''),
      (ARM_CPUID_ARM946, ''arm946''),
      (ARM_CPUID_ARM1026, ''arm1026''),
      (ARM_CPUID_ARM1136, ''arm1136''),
      (ARM_CPUID_ARM1136_R2, ''arm1136-r2''),
      (ARM_CPUID_ARM11MPCORE, ''arm11mpcore''),
      (ARM_CPUID_CORTEXM3, ''cortex-m3''),
      (ARM_CPUID_CORTEXA8, ''cortex-a8''),
      (ARM_CPUID_CORTEXA8_R2, ''cortex-a8-r2''),
      (ARM_CPUID_CORTEXA9, ''cortex-a9''),
      (ARM_CPUID_TI925T, ''ti925t''),
      (ARM_CPUID_PXA250, ''pxa250''),
      (ARM_CPUID_SA1100, ''sa1100''),
      (ARM_CPUID_SA1110, ''sa1110''),
      (ARM_CPUID_PXA255, ''pxa255''),
      (ARM_CPUID_PXA260, ''pxa260''),
      (ARM_CPUID_PXA261, ''pxa261''),
      (ARM_CPUID_PXA262, ''pxa262''),
      (ARM_CPUID_PXA270, ''pxa270''),
      (ARM_CPUID_PXA270_A0, ''pxa270-a0''),
      (ARM_CPUID_PXA270_A1, ''pxa270-a1''),
      (ARM_CPUID_PXA270_B0, ''pxa270-b0''),
      (ARM_CPUID_PXA270_B1, ''pxa270-b1''),
      (ARM_CPUID_PXA270_C0, ''pxa270-c0''),
      (ARM_CPUID_PXA270_C5, ''pxa270-c5''),
      (ARM_CPUID_ANY, ''any'')]"

definition cpu_arm_find_by_name :: "string \<Rightarrow> u32" where
  "cpu_arm_find_by_name name =
     (case find (\<lambda>(_, n). n = name) arm_cpu_names of None \<Rightarrow> 0 | Some (ident, _) \<Rightarrow> ident)"

section \<open>Status registers\<close>

definition cpsr_read :: "'a CPUARMState_scheme \<Rightarrow> u32" where
  "cpsr_read env =
     uncached_cpsr env OR (NF env AND 0x80000000) OR push_bit 30 (of_bool (ZF env = 0)) OR
     push_bit 29 (CF env) OR drop_bit 3 (VF env AND 0x80000000) OR push_bit 27 (QF env) OR
     push_bit 5 (thumb env) OR push_bit 25 (condexec_bits env AND 3) OR
     push_bit 8 (condexec_bits env AND 0xFC) OR push_bit 16 (GE env)"

definition xpsr_read :: "'a CPUARMState_scheme \<Rightarrow> u32" where
  "xpsr_read env =
     (NF env AND 0x80000000) OR push_bit 30 (of_bool (ZF env = 0)) OR
     push_bit 29 (CF env) OR drop_bit 3 (VF env AND 0x80000000) OR push_bit 27 (QF env) OR
     push_bit 24 (thumb env) OR push_bit 25 (condexec_bits env AND 3) OR
     push_bit 8 (condexec_bits env AND 0xFC) OR exception (v7m env)"

text \<open>The parts that \<open>cpsr_write\<close> and \<open>xpsr_write\<close> share: flags, \<open>Q\<close> and the IT bits.\<close>

definition write_nzcv :: "u32 \<Rightarrow> u32 \<Rightarrow> 'a CPUARMState_scheme \<Rightarrow> 'a CPUARMState_scheme" where
  "write_nzcv val m env =
     (if m AND CPSR_NZCV \<noteq> 0 then
        env\<lparr>ZF := NOT val AND CPSR_Z, NF := val, CF := drop_bit 29 val AND 1, VF := push_bit 3 val AND 0x80000000\<rparr>
      else env)"

definition write_q :: "u32 \<Rightarrow> u32 \<Rightarrow> 'a CPUARMState_scheme \<Rightarrow> 'a CPUARMState_scheme" where
  "write_q val m env = (if m AND CPSR_Q \<noteq> 0 then env\<lparr>QF := of_bool (val AND CPSR_Q \<noteq> 0)\<rparr> else env)"

definition write_it :: "u32 \<Rightarrow> u32 \<Rightarrow> 'a CPUARMState_scheme \<Rightarrow> 'a CPUARMState_scheme" where
  "write_it val m env =
     (let env1 = (if m AND CPSR_IT_0_1 \<noteq> 0
                  then env\<lparr>condexec_bits := (condexec_bits env AND NOT 3) OR (drop_bit 25 val AND 3)\<rparr> else env)
      in if m AND CPSR_IT_2_7 \<noteq> 0
         then env1\<lparr>condexec_bits := (condexec_bits env1 AND 3) OR (drop_bit 8 val AND 0xFC)\<rparr> else env1)"

definition xpsr_write :: "u32 \<Rightarrow> u32 \<Rightarrow> 'a CPUARMState_scheme \<Rightarrow> 'a CPUARMState_scheme" where
  "xpsr_write val m env0 =
     (let env1 = write_q val m (write_nzcv val m env0);
          env2 = (if m AND 0x1000000 \<noteq> 0 then env1\<lparr>thumb := of_bool (val AND 0x1000000 \<noteq> 0)\<rparr> else env1);
          env3 = write_it val m env2
      in if m AND 0x1FF \<noteq> 0 then env3\<lparr>v7m := (v7m env3)\<lparr>exception := val AND 0x1FF\<rparr>\<rparr> else env3)"

section \<open>Register banks\<close>

definition bank_number :: "u32 \<Rightarrow> nat comp" where
  "bank_number mode =
     (if mode \<in> {ARM_CPU_MODE_USR, ARM_CPU_MODE_SYS} then ret 0
      else if mode = ARM_CPU_MODE_SVC then ret 1
      else if mode = ARM_CPU_MODE_ABT then ret 2
      else if mode = ARM_CPU_MODE_UND then ret 3
      else if mode = ARM_CPU_MODE_IRQ then ret 4
      else if mode = ARM_CPU_MODE_FIQ then ret 5
      else if mode = ARM_CPU_MODE_SMC then ret 6
      else raise Abort)"

text \<open>\<open>memcpy\<close> between \<open>regs + 8\<close> and a bank of five registers.\<close>

definition save_r8 :: "u32_array \<Rightarrow> u32_array \<Rightarrow> u32_array" where
  "save_r8 r bank = (\<lambda>i. if i < 5 then r (8 + i) else bank i)"

definition load_r8 :: "u32_array \<Rightarrow> u32_array \<Rightarrow> u32_array" where
  "load_r8 bank r = (\<lambda>i. if 8 \<le> i \<and> i < 13 then bank (i - 8) else r i)"

definition swap_fiq :: "u32 \<Rightarrow> u32 \<Rightarrow> 'a CPUARMState_scheme \<Rightarrow> 'a CPUARMState_scheme" where
  "swap_fiq old_mode mode env =
     (if old_mode = ARM_CPU_MODE_FIQ then
        env\<lparr>fiq_regs := save_r8 (regs env) (fiq_regs env), regs := load_r8 (usr_regs env) (regs env)\<rparr>
      else if mode = ARM_CPU_MODE_FIQ then
        env\<lparr>usr_regs := save_r8 (regs env) (usr_regs env), regs := load_r8 (fiq_regs env) (regs env)\<rparr>
      else env)"

definition save_bank :: "nat \<Rightarrow> 'a CPUARMState_scheme \<Rightarrow> 'a CPUARMState_scheme" where
  "save_bank i env = env\<lparr>banked_r13 := (banked_r13 env)(i := regs env 13),
     banked_r14 := (banked_r14 env)(i := regs env 14), banked_spsr := (banked_spsr env)(i := spsr env)\<rparr>"

definition load_bank :: "nat \<Rightarrow> 'a CPUARMState_scheme \<Rightarrow> 'a CPUARMState_scheme" where
  "load_bank i env = env\<lparr>regs := (regs env)(13 := banked_r13 env i, 14 := banked_r14 env i),
     spsr := banked_spsr env i\<rparr>"

definition switch_mode :: "u32 \<Rightarrow> 'a CPUARMState_scheme \<Rightarrow> 'a CPUARMState_scheme comp" where
  "switch_mode mode env =
     (let old_mode = uncached_cpsr env AND CPSR_M in
      if mode = old_mode then ret env
      else comp_bind (bank_number old_mode) (\<lambda>i.
           comp_bind (bank_number mode) (\<lambda>j.
           ret (load_bank j (save_bank i (swap_fiq old_mode mode env))))))"

definition cpsr_write :: "u32 \<Rightarrow> u32 \<Rightarrow> 'a CPUARMState_scheme \<Rightarrow> 'a CPUARMState_scheme comp" where
  "cpsr_write val m env0 =
     (let env1 = write_q val m (write_nzcv val m env0);
          env2 = (if m AND CPSR_T \<noteq> 0 then env1\<lparr>thumb := of_bool (val AND CPSR_T \<noteq> 0)\<rparr> else env1);
          env3 = write_it val m env2;
          env4 = (if m AND CPSR_GE \<noteq> 0 then env3\<lparr>GE := drop_bit 16 val AND 0xF\<rparr> else env3)
      in comp_bind (if (uncached_cpsr env4 XOR val) AND m AND CPSR_M \<noteq> 0 then switch_mode (val AND CPSR_M) env4 else ret env4)
           (\<lambda>env5. let m' = m AND NOT CACHED_CPSR_BITS in
              ret (env5\<lparr>uncached_cpsr := (uncached_cpsr env5 AND NOT m') OR (val AND m')\<rparr>)))"

definition set_r13_banked :: "u32 \<Rightarrow> u32 \<Rightarrow> 'a CPUARMState_scheme \<Rightarrow> 'a CPUARMState_scheme comp" where
  "set_r13_banked mode val env =
     (if uncached_cpsr env AND CPSR_M = mode then ret (env\<lparr>regs := (regs env)(13 := val)\<rparr>)
      else comp_bind (bank_number mode) (\<lambda>i. ret (env\<lparr>banked_r13 := (banked_r13 env)(i := val)\<rparr>)))"

definition get_r13_banked :: "u32 \<Rightarrow> 'a CPUARMState_scheme \<Rightarrow> u32 comp" where
  "get_r13_banked mode env =
     (if uncached_cpsr env AND CPSR_M = mode then ret (regs env 13)
      else comp_bind (bank_number mode) (\<lambda>i. ret (banked_r13 env i)))"

definition cpu_mmu_index :: "'a CPUARMState_scheme \<Rightarrow> nat" where
  "cpu_mmu_index env = (if uncached_cpsr env AND CPSR_M = ARM_CPU_MODE_USR then 1 else 0)"

definition is_cpu_user :: "'a CPUARMState_scheme \<Rightarrow> bool" where
  "is_cpu_user env = (uncached_cpsr env AND CPSR_M = ARM_CPU_MODE_USR)"

text \<open>The program counter, the code segment base and the flags that select a translation.\<close>

definition cpu_get_tb_cpu_state :: "'a CPUARMState_scheme \<Rightarrow> u32 \<times> u32 \<times> u32" where
  "cpu_get_tb_cpu_state env =
     (let privmode = (if arm_feature env ARM_FEATURE_M
                      then \<not> (exception (v7m env) = 0 \<and> control (v7m env) AND 1 \<noteq> 0)
                      else uncached_cpsr env AND CPSR_M \<noteq> ARM_CPU_MODE_USR)
      in (regs env 15, 0,
          thumb env OR push_bit 1 (vec_len (vfp env)) OR push_bit 4 (vec_stride (vfp env)) OR
          push_bit 8 (condexec_bits env) OR (if privmode then push_bit 6 1 else 0) OR
          (if xregs (vfp env) ARM_VFP_FPEXC AND push_bit 30 1 \<noteq> 0 then push_bit 7 1 else 0)))"

text \<open>A processor with cleared registers, the subject of the concrete examples.\<close>

definition reset_env :: CPUARMState where
  "reset_env = \<lparr>current_tb = None, halted = 0, interrupt_request = 0,
     tlb_table = (\<lambda>_ _. zero_tlb_entry), iotlb = (\<lambda>_ _. 0), tb_jmp_cache = (\<lambda>_. None), watchpoints = [],
     exception_index = - 1, tlb_flush_count = 0,
     regs = (\<lambda>i. of_nat i), uncached_cpsr = 0x13, spsr = 0, banked_spsr = (\<lambda>_. 0), banked_r13 = (\<lambda>_. 0),
     banked_r14 = (\<lambda>_. 0), usr_regs = (\<lambda>_. 0), fiq_regs = (\<lambda>_. 0), CF = 0, VF = 0, NF = 0, ZF = 0,
     QF = 0, GE = 0, thumb = 0, condexec_bits = 0, cp15 = zero_cp15\<lparr>c0_cpuid := ARM_CPUID_CORTEXA8\<rparr>, v7m = zero_v7m,
     cp14_dbgdidr = 0, teecr = 0, teehbr = 0, features = 0, vfp = zero_vfp, exclusive_addr = 0, exclusive_val = 0,
     exclusive_high = 0, iwmmxt = zero_iwmmxt\<rparr>"

end
