(* ===== verification/Arm_Modes.thy ===== *)
theory Arm_Modes
  imports Arm_Cpu
begin

text \<open>
  Theorems on the status registers, the register banks and the reset of the ARM processor.
\<close>

section \<open>Status registers\<close>

lemmas cpsr_masks = CPSR_M_def CPSR_T_def CPSR_F_def CPSR_I_def CPSR_A_def CPSR_E_def CPSR_IT_2_7_def CPSR_GE_def
  CPSR_J_def CPSR_IT_0_1_def CPSR_Q_def CPSR_V_def CPSR_C_def CPSR_Z_def CPSR_N_def CPSR_NZCV_def CPSR_IT_def
  CACHED_CPSR_BITS_def

lemma cpsr_masks_nonzero:
  "(- 1) AND CPSR_NZCV \<noteq> 0" "(- 1) AND CPSR_Q \<noteq> 0" "(- 1) AND CPSR_T \<noteq> 0" "(- 1) AND CPSR_IT_0_1 \<noteq> 0"
  "(- 1) AND CPSR_IT_2_7 \<noteq> 0" "(- 1) AND CPSR_GE \<noteq> 0"
  by (simp_all add: cpsr_masks)

lemma test_bits:
  "val AND CPSR_Q \<noteq> 0 \<longleftrightarrow> bit val 27" "val AND CPSR_T \<noteq> 0 \<longleftrightarrow> bit val 5" "NOT val AND CPSR_Z = 0 \<longleftrightarrow> bit val 30"
  using and_single_bit [of val 27] and_single_bit [of val 5] and_single_bit [of "NOT val" 30]
  by (simp_all add: cpsr_masks bit_simps)

lemma cpsr_value_roundtrip:
  assumes "u AND CACHED_CPSR_BITS = 0"
  shows "(u AND CACHED_CPSR_BITS) OR (val AND NOT CACHED_CPSR_BITS) OR (val AND 0x80000000) OR
     push_bit 30 (of_bool (NOT val AND CPSR_Z = 0)) OR push_bit 29 (drop_bit 29 val AND 1) OR
     drop_bit 3 ((push_bit 3 val AND 0x80000000) AND 0x80000000) OR
     push_bit 27 (of_bool (val AND CPSR_Q \<noteq> 0)) OR push_bit 5 (of_bool (val AND CPSR_T \<noteq> 0)) OR
     push_bit 25 ((((c AND NOT 3 OR drop_bit 25 val AND 3) AND 3) OR drop_bit 8 val AND 0xFC) AND 3) OR
     push_bit 8 ((((c AND NOT 3 OR drop_bit 25 val AND 3) AND 3) OR drop_bit 8 val AND 0xFC) AND 0xFC) OR
     push_bit 16 (drop_bit 16 val AND 0xF) = (val :: u32)"
  unfolding assms test_bits
  by (rule u32_eqI) (simp_all add: cpsr_masks bit_simps)

lemma write_frames [simp, frame_simps]:
  "uncached_cpsr (write_nzcv val m env) = uncached_cpsr env" "uncached_cpsr (write_q val m env) = uncached_cpsr env"
  "uncached_cpsr (write_it val m env) = uncached_cpsr env"
  by (simp_all add: write_nzcv_def write_q_def write_it_def Let_def)

section \<open>Register banks\<close>

definition valid_mode :: "u32 \<Rightarrow> bool" where
  "valid_mode mode \<longleftrightarrow> mode \<in> {ARM_CPU_MODE_USR, ARM_CPU_MODE_FIQ, ARM_CPU_MODE_IRQ, ARM_CPU_MODE_SVC,
     ARM_CPU_MODE_SMC, ARM_CPU_MODE_ABT, ARM_CPU_MODE_UND, ARM_CPU_MODE_SYS}"

lemmas mode_defs = ARM_CPU_MODE_USR_def ARM_CPU_MODE_FIQ_def ARM_CPU_MODE_IRQ_def ARM_CPU_MODE_SVC_def
  ARM_CPU_MODE_SMC_def ARM_CPU_MODE_ABT_def ARM_CPU_MODE_UND_def ARM_CPU_MODE_SYS_def

text \<open>The bank of a mode, as a total function.\<close>

definition bank_of :: "u32 \<Rightarrow> nat" where
  "bank_of mode = (case returned (bank_number mode) of None \<Rightarrow> 0 | Some i \<Rightarrow> i)"

lemma bank_number_valid: "valid_mode mode \<Longrightarrow> bank_number mode = ret (bank_of mode)"
  by (auto simp: valid_mode_def bank_of_def bank_number_def returned_def ret_def)

lemma bank_number_invalid: "\<not> valid_mode mode \<Longrightarrow> bank_number mode = raise Abort"
  by (auto simp: valid_mode_def bank_number_def)

lemma bank_of_eq_iff:
  "valid_mode m \<Longrightarrow> valid_mode m' \<Longrightarrow>
   bank_of m = bank_of m' \<longleftrightarrow> m = m' \<or> {m, m'} = {ARM_CPU_MODE_USR, ARM_CPU_MODE_SYS}"
  by (auto simp: valid_mode_def bank_of_def bank_number_def returned_def ret_def mode_defs doubleton_eq_iff)

text \<open>The fields after the steps of a change of banks.\<close>

lemma load_bank_simps [simp]:
  "regs (load_bank i env) = (regs env)(13 := banked_r13 env i, 14 := banked_r14 env i)"
  "spsr (load_bank i env) = banked_spsr env i" "banked_r13 (load_bank i env) = banked_r13 env"
  "banked_r14 (load_bank i env) = banked_r14 env" "banked_spsr (load_bank i env) = banked_spsr env"
  "usr_regs (load_bank i env) = usr_regs env" "fiq_regs (load_bank i env) = fiq_regs env"
  "uncached_cpsr (load_bank i env) = uncached_cpsr env"
  by (simp_all add: load_bank_def)

lemma save_bank_simps [simp]:
  "regs (save_bank i env) = regs env" "spsr (save_bank i env) = spsr env"
  "banked_r13 (save_bank i env) = (banked_r13 env)(i := regs env 13)"
  "banked_r14 (save_bank i env) = (banked_r14 env)(i := regs env 14)"
  "banked_spsr (save_bank i env) = (banked_spsr env)(i := spsr env)"
  "usr_regs (save_bank i env) = usr_regs env" "fiq_regs (save_bank i env) = fiq_regs env"
  "uncached_cpsr (save_bank i env) = uncached_cpsr env"
  by (simp_all add: save_bank_def)

lemma swap_fiq_simps [simp]:
  "spsr (swap_fiq old mode env) = spsr env" "banked_r13 (swap_fiq old mode env) = banked_r13 env"
  "banked_r14 (swap_fiq old mode env) = banked_r14 env" "banked_spsr (swap_fiq old mode env) = banked_spsr env"
  "uncached_cpsr (swap_fiq old mode env) = uncached_cpsr env"
  "i < 8 \<or> 13 \<le> i \<Longrightarrow> regs (swap_fiq old mode env) i = regs env i"
  by (auto simp: swap_fiq_def load_r8_def)

lemma swap_fiq_high:
  assumes "8 \<le> i" and "i < 13"
  shows "regs (swap_fiq old mode env) i =
      (if old = ARM_CPU_MODE_FIQ then usr_regs env (i - 8) else if mode = ARM_CPU_MODE_FIQ then fiq_regs env (i - 8) else regs env i)"
    and "usr_regs (swap_fiq old mode env) (i - 8) =
      (if old \<noteq> ARM_CPU_MODE_FIQ \<and> mode = ARM_CPU_MODE_FIQ then regs env i else usr_regs env (i - 8))"
    and "fiq_regs (swap_fiq old mode env) (i - 8) =
      (if old = ARM_CPU_MODE_FIQ then regs env i else fiq_regs env (i - 8))"
  using assms by (auto simp: swap_fiq_def load_r8_def save_r8_def)

lemma switch_mode_returns:
  assumes "valid_mode (uncached_cpsr env AND CPSR_M)" and "valid_mode mode" and "mode \<noteq> uncached_cpsr env AND CPSR_M"
  shows "switch_mode mode env =
    ret (load_bank (bank_of mode) (save_bank (bank_of (uncached_cpsr env AND CPSR_M))
      (swap_fiq (uncached_cpsr env AND CPSR_M) mode env)))"
  using assms by (simp add: switch_mode_def bank_number_valid Let_def)

text \<open>What a change of banks leaves alone.\<close>

definition same_status :: "'a CPUARMState_scheme \<Rightarrow> 'a CPUARMState_scheme \<Rightarrow> bool" where
  "same_status env env' \<longleftrightarrow> uncached_cpsr env' = uncached_cpsr env \<and> NF env' = NF env \<and> ZF env' = ZF env \<and>
     CF env' = CF env \<and> VF env' = VF env \<and> QF env' = QF env \<and> thumb env' = thumb env \<and>
     condexec_bits env' = condexec_bits env \<and> GE env' = GE env \<and> v7m env' = v7m env \<and> cp15 env' = cp15 env \<and>
     features env' = features env \<and> interrupt_request env' = interrupt_request env \<and> regs env' 15 = regs env 15"

lemma same_status_refl [simp]: "same_status env env"
  by (simp add: same_status_def)

lemma switch_mode_status:
  assumes "valid_mode (uncached_cpsr env AND CPSR_M)" and "valid_mode mode"
  obtains env' where "switch_mode mode env = ret env'" and "same_status env env'"
proof (cases "mode = uncached_cpsr env AND CPSR_M")
  case True
  then show thesis by (intro that [of env]) (simp_all add: switch_mode_def)
next
  case False
  from switch_mode_returns [OF assms False] show thesis
    by (rule that) (simp add: same_status_def load_bank_def save_bank_def swap_fiq_def load_r8_def)
qed

lemma same_status_cpsr: "same_status env env' \<Longrightarrow> cpsr_read env' = cpsr_read env"
  by (simp add: same_status_def cpsr_read_def)

text \<open>Registers and banks, which a write to the flags leaves alone.\<close>

definition same_banks :: "'a CPUARMState_scheme \<Rightarrow> 'a CPUARMState_scheme \<Rightarrow> bool" where
  "same_banks env env' \<longleftrightarrow> uncached_cpsr env' = uncached_cpsr env \<and> regs env' = regs env \<and> spsr env' = spsr env \<and>
     banked_r13 env' = banked_r13 env \<and> banked_r14 env' = banked_r14 env \<and> banked_spsr env' = banked_spsr env \<and>
     usr_regs env' = usr_regs env \<and> fiq_regs env' = fiq_regs env"

text \<open>A write to the whole CPSR: the flags are written, then the banks are switched, then the mode is written.\<close>

lemma cpsr_write_all:
  assumes "uncached_cpsr env AND CACHED_CPSR_BITS = 0"
    and "valid_mode (uncached_cpsr env AND CPSR_M)" and "valid_mode (val AND CPSR_M)"
  obtains env4 env5 u where "cpsr_write val (- 1) env = ret (env5\<lparr>uncached_cpsr := u\<rparr>)" and "same_banks env env4"
    and "if (uncached_cpsr env XOR val) AND CPSR_M \<noteq> 0 then switch_mode (val AND CPSR_M) env4 = ret env5 else env5 = env4"
    and "cpsr_read (env5\<lparr>uncached_cpsr := u\<rparr>) = val" and "u AND CACHED_CPSR_BITS = 0"
proof -
  let ?c = "condexec_bits env AND NOT 3 OR drop_bit 25 val AND 3"
  let ?env4 = "env\<lparr>ZF := NOT val AND CPSR_Z, NF := val, CF := drop_bit 29 val AND 1,
    VF := push_bit 3 val AND 0x80000000, QF := of_bool (val AND CPSR_Q \<noteq> 0), thumb := of_bool (val AND CPSR_T \<noteq> 0),
    condexec_bits := ((?c) AND 3) OR (drop_bit 8 val AND 0xFC), GE := drop_bit 16 val AND 0xF\<rparr>"
  have eq: "cpsr_write val (- 1) env =
      comp_bind (if (uncached_cpsr env XOR val) AND CPSR_M \<noteq> 0 then switch_mode (val AND CPSR_M) ?env4 else ret ?env4)
        (\<lambda>env5. ret (env5\<lparr>uncached_cpsr := (uncached_cpsr env5 AND CACHED_CPSR_BITS) OR (val AND NOT CACHED_CPSR_BITS)\<rparr>))"
    using cpsr_masks_nonzero by (simp add: cpsr_write_def write_nzcv_def write_q_def write_it_def Let_def)
  obtain env5 where 5: "(if (uncached_cpsr env XOR val) AND CPSR_M \<noteq> 0 then switch_mode (val AND CPSR_M) ?env4 else ret ?env4) = ret env5"
      "same_status ?env4 env5"
  proof -
    obtain e where "switch_mode (val AND CPSR_M) ?env4 = ret e" "same_status ?env4 e"
      using switch_mode_status [of ?env4 "val AND CPSR_M"] assms(2,3) by auto
    then show thesis by (intro that [of "if (uncached_cpsr env XOR val) AND CPSR_M \<noteq> 0 then e else ?env4"]) simp_all
  qed
  let ?u = "(uncached_cpsr env5 AND CACHED_CPSR_BITS) OR (val AND NOT CACHED_CPSR_BITS)"
  let ?env6 = "env5\<lparr>uncached_cpsr := ?u\<rparr>"
  have f: "uncached_cpsr ?env6 = (uncached_cpsr env AND CACHED_CPSR_BITS) OR (val AND NOT CACHED_CPSR_BITS)"
    "NF ?env6 = val" "ZF ?env6 = NOT val AND CPSR_Z" "CF ?env6 = drop_bit 29 val AND 1"
    "VF ?env6 = push_bit 3 val AND 0x80000000" "QF ?env6 = of_bool (val AND CPSR_Q \<noteq> 0)"
    "thumb ?env6 = of_bool (val AND CPSR_T \<noteq> 0)" "GE ?env6 = drop_bit 16 val AND 0xF"
    "condexec_bits ?env6 = ((?c) AND 3) OR (drop_bit 8 val AND 0xFC)"
    using 5(2) by (simp_all add: same_status_def)
  show thesis
  proof (rule that [where ?env5.0 = env5 and ?u = ?u and ?env4.0 = ?env4])
    show "cpsr_read ?env6 = val"
      unfolding cpsr_read_def f using cpsr_value_roundtrip [OF assms(1), of val "condexec_bits env"]
      by (simp only: or.assoc)
    show "?u AND CACHED_CPSR_BITS = 0"
      using 5(2) assms(1) by (simp add: same_status_def bit_eq_iff bit_simps)
    show "cpsr_write val (- 1) env = ret ?env6" unfolding eq 5(1) by simp
    show "same_banks env ?env4" by (simp add: same_banks_def)
    show "if (uncached_cpsr env XOR val) AND CPSR_M \<noteq> 0 then switch_mode (val AND CPSR_M) ?env4 = ret env5 else env5 = ?env4"
      using 5(1) by (metis ret_inject)
  qed
qed

text \<open>
  Writing the whole CPSR and reading it back gives the value written, from every state in a
  valid mode and for every value with a valid mode.
\<close>

theorem cpsr_write_read:
  assumes "uncached_cpsr env AND CACHED_CPSR_BITS = 0"
    and "valid_mode (uncached_cpsr env AND CPSR_M)" and "valid_mode (val AND CPSR_M)"
  shows "\<exists>env'. cpsr_write val (- 1) env = ret env' \<and> cpsr_read env' = val \<and>
    uncached_cpsr env' AND CACHED_CPSR_BITS = 0"
  by (rule cpsr_write_all [OF assms]) auto

theorem cpsr_write_read_witness:
  "\<exists>env'. cpsr_write 0xA80F0110 (- 1) reset_env = ret env' \<and> cpsr_read env' = 0xA80F0110 \<and>
    uncached_cpsr env' AND CACHED_CPSR_BITS = 0"
  by (rule cpsr_write_read) (simp_all add: reset_env_def cpsr_masks valid_mode_def mode_defs)

text \<open>
  C36. Register banks: whatever a processor in mode \<open>mode\<close> does to its stack pointer, link register and
  saved status register, returning to the old mode restores the old ones (and, for FIQ, \<open>r8\<close> to \<open>r12\<close>),
  as long as the two modes do not share a bank; coming back to \<open>mode\<close> later finds the new ones.
\<close>

theorem switch_mode_banks:
  assumes "valid_mode old" and "valid_mode mode" and "bank_of old \<noteq> bank_of mode"
    and "uncached_cpsr env AND CPSR_M = old" and "switch_mode mode env = ret env1"
    and "env2 = env1\<lparr>uncached_cpsr := u, regs := (regs env1)(13 := sp, 14 := lr), spsr := s\<rparr>" and "u AND CPSR_M = mode"
  shows "\<exists>env3. switch_mode old env2 = ret env3 \<and> regs env3 13 = regs env 13 \<and> regs env3 14 = regs env 14 \<and>
    spsr env3 = spsr env \<and> (\<forall>i. 8 \<le> i \<and> i < 13 \<longrightarrow> regs env3 i = regs env i) \<and>
    (\<exists>env4. switch_mode mode (env3\<lparr>uncached_cpsr := uncached_cpsr env\<rparr>) = ret env4 \<and>
       regs env4 13 = sp \<and> regs env4 14 = lr \<and> spsr env4 = s)"
proof -
  have neq: "mode \<noteq> old" "old \<noteq> mode" using assms(3) by auto
  have 1: "env1 = load_bank (bank_of mode) (save_bank (bank_of old) (swap_fiq old mode env))"
    using switch_mode_returns [of env mode] assms neq by simp
  let ?env3 = "load_bank (bank_of old) (save_bank (bank_of mode) (swap_fiq mode old env2))"
  let ?env3' = "?env3\<lparr>uncached_cpsr := uncached_cpsr env\<rparr>"
  have 3: "switch_mode old env2 = ret ?env3"
    using switch_mode_returns [of env2 old] assms(1,2,6,7) neq by simp
  have 4: "switch_mode mode ?env3' =
      ret (load_bank (bank_of mode) (save_bank (bank_of old) (swap_fiq old mode ?env3')))"
    using switch_mode_returns [of ?env3' mode] assms(1,2,4) neq by simp
  have "regs ?env3 13 = regs env 13" "regs ?env3 14 = regs env 14" "spsr ?env3 = spsr env"
    using assms(3,6) 1 by simp_all
  moreover have "regs ?env3 i = regs env i" if i: "8 \<le> i" "i < 13" for i
  proof -
    have "regs ?env3 i = (if mode = ARM_CPU_MODE_FIQ then usr_regs env1 (i - 8)
        else if old = ARM_CPU_MODE_FIQ then fiq_regs env1 (i - 8) else regs env1 i)"
      using i assms(6) by (simp add: swap_fiq_high [OF i])
    then show ?thesis
      using i neq unfolding 1 by (auto simp: swap_fiq_high [OF i])
  qed
  moreover have "regs (load_bank (bank_of mode) (save_bank (bank_of old) (swap_fiq old mode ?env3'))) 13 = sp"
    "regs (load_bank (bank_of mode) (save_bank (bank_of old) (swap_fiq old mode ?env3'))) 14 = lr"
    "spsr (load_bank (bank_of mode) (save_bank (bank_of old) (swap_fiq old mode ?env3'))) = s"
    using assms(3,6) 1 by simp_all
  ultimately show ?thesis using 3 4 by blast
qed

theorem switch_mode_banks_witness:
  "\<exists>env1 env3. switch_mode ARM_CPU_MODE_IRQ reset_env = ret env1 \<and>
    switch_mode ARM_CPU_MODE_SVC (env1\<lparr>uncached_cpsr := 0x12, regs := (regs env1)(13 := 7, 14 := 8), spsr := 9\<rparr>) = ret env3 \<and>
    regs env3 13 = 13 \<and> regs env3 14 = 14 \<and> spsr env3 = 0"
proof -
  have v: "valid_mode ARM_CPU_MODE_SVC" "valid_mode ARM_CPU_MODE_IRQ" by (simp_all add: valid_mode_def)
  have b: "bank_of ARM_CPU_MODE_SVC \<noteq> bank_of ARM_CPU_MODE_IRQ"
    using bank_of_eq_iff [OF v] by (auto simp: mode_defs doubleton_eq_iff)
  have m: "uncached_cpsr reset_env AND CPSR_M = ARM_CPU_MODE_SVC" "(0x12 :: u32) AND CPSR_M = ARM_CPU_MODE_IRQ"
    by (simp_all add: reset_env_def cpsr_masks mode_defs)
  obtain env1 where 1: "switch_mode ARM_CPU_MODE_IRQ reset_env = ret env1"
    using switch_mode_status [of reset_env ARM_CPU_MODE_IRQ] v m(1) by auto
  from switch_mode_banks [OF v b m(1) 1 refl m(2), of 9 7 8] 1 show ?thesis
    by (auto simp: reset_env_def)
qed

section \<open>Reset\<close>

definition known_model :: "u32 \<Rightarrow> bool" where
  "known_model ident \<longleftrightarrow> ident \<in> {ARM_CPUID_ARM926, ARM_CPUID_ARM946, ARM_CPUID_ARM1026, ARM_CPUID_ARM1136_R2,
     ARM_CPUID_ARM1136, ARM_CPUID_ARM11MPCORE, ARM_CPUID_CORTEXA8, ARM_CPUID_CORTEXA8_R2, ARM_CPUID_CORTEXA9,
     ARM_CPUID_CORTEXM3, ARM_CPUID_ANY, ARM_CPUID_TI915T, ARM_CPUID_TI925T, ARM_CPUID_PXA250, ARM_CPUID_PXA255,
     ARM_CPUID_PXA260, ARM_CPUID_PXA261, ARM_CPUID_PXA262, ARM_CPUID_PXA270_A0, ARM_CPUID_PXA270_A1,
     ARM_CPUID_PXA270_B0, ARM_CPUID_PXA270_B1, ARM_CPUID_PXA270_C0, ARM_CPUID_PXA270_C5, ARM_CPUID_SA1100,
     ARM_CPUID_SA1110}"

lemma regs_set_features [simp]: "regs (set_features fs env) = regs env"
  by (induction fs arbitrary: env) (simp_all add: set_features_def set_feature_def)

lemma regs_reset_steps [simp]: "regs (set_xreg i v env) = regs env" "regs (update_cp15 f env) = regs env"
  by (simp_all add: set_xreg_def update_cp15_def)

lemmas reset_model_defs = reset_arm926_def reset_arm946_def reset_arm1026_def reset_arm1136_def reset_arm11mpcore_def
  reset_cortexa8_def reset_cortexa8_r2_def reset_cortexa9_def reset_cortexm3_def reset_any_def reset_ti925t_def
  reset_pxa25x_def reset_pxa270_def reset_sa1100_def

lemma reset_model_regs:
  "regs (reset_arm926 env) = regs env" "regs (reset_arm946 env) = regs env" "regs (reset_arm1026 env) = regs env"
  "regs (reset_arm1136 env) = regs env" "regs (reset_arm11mpcore env) = regs env" "regs (reset_cortexa8 env) = regs env"
  "regs (reset_cortexa8_r2 env) = regs env" "regs (reset_cortexa9 env) = regs env" "regs (reset_cortexm3 env) = regs env"
  "regs (reset_any env) = regs env" "regs (reset_ti925t env) = regs env" "regs (reset_pxa25x env) = regs env"
  "regs (reset_pxa270 env) = regs env" "regs (reset_sa1100 env) = regs env"
  by (simp_all add: reset_model_defs Let_def)

lemma reset_model_returns:
  assumes "known_model ident"
  obtains env' where "cpu_reset_model_id ident env = ret env'" and "regs env' = regs env"
proof -
  have "\<exists>env'. cpu_reset_model_id ident env = ret env' \<and> regs env' = regs env"
    using assms unfolding cpu_reset_model_id_def Let_def known_model_def
    by (simp add: reset_model_regs split del: if_split) (auto split: if_split simp: reset_model_regs)
  then show thesis using that by blast
qed

lemma reset_model_unknown: "\<not> known_model ident \<Longrightarrow> cpu_reset_model_id ident env = raise Abort"
  by (simp add: cpu_reset_model_id_def known_model_def Let_def)

lemma cpu_names_known: "list_all (\<lambda>(ident, name). known_model ident \<and> ident \<noteq> 0) arm_cpu_names"
  by code_simp

lemma find_by_name_names: "list_all (\<lambda>(ident, name). cpu_arm_find_by_name name = ident) arm_cpu_names"
  by code_simp

text \<open>
  Every processor of the table is found by its name and can be reset: the reset returns with the
  processor in supervisor mode, asynchronous aborts and FIQ masked, IRQ masked except on the M profile,
  the registers cleared, the translation table mask set and the TLB empty. An identifier that no
  model has aborts.
\<close>

theorem cpu_reset_known:
  assumes "(ident, name) \<in> set arm_cpu_names" and "c0_cpuid (cp15 env) = ident"
  shows "cpu_arm_find_by_name name = ident \<and> (\<exists>env'. cpu_reset env = ret env' \<and>
    uncached_cpsr env' = (if IS_M env' then 0x153 else 0x1D3) \<and> regs env' = (\<lambda>_. 0) \<and>
    c2_base_mask (cp15 env') = 0xFFFFC000 \<and> (m < NB_MMU_MODES \<longrightarrow> no_hit a m env'))"
proof -
  have k: "known_model ident" "ident \<noteq> 0" "cpu_arm_find_by_name name = ident"
    using cpu_names_known find_by_name_names assms(1) by (auto simp: list_all_iff)
  obtain env2 where 2: "cpu_reset_model_id ident (clear_env env) = ret env2" "regs env2 = regs (clear_env env)"
    using reset_model_returns [OF k(1)] by blast
  let ?env3 = "env2\<lparr>cp14_dbgdidr := (drop_bit 16 ident AND 0xF0) OR 0xF,
    uncached_cpsr := ARM_CPU_MODE_SVC OR CPSR_A OR CPSR_F OR CPSR_I\<rparr>"
  let ?env4 = "if IS_M ?env3 then ?env3\<lparr>uncached_cpsr := uncached_cpsr ?env3 AND NOT CPSR_I\<rparr> else ?env3"
  let ?env5 = "update_cp15 (\<lambda>c. c\<lparr>c2_base_mask := 0xFFFFC000\<rparr>) (set_xreg ARM_VFP_FPEXC 0 ?env4)"
  let ?env6 = "?env5\<lparr>vfp := reset_float (vfp ?env5)\<rparr>"
  have r: "cpu_reset env = ret (tlb_flush ?env6)"
    using k(2) assms(2) 2(1) by (simp add: cpu_reset_def Let_def)
  have IS: "IS_M (tlb_flush ?env6) = IS_M ?env3"
    by (simp add: IS_M_def arm_feature_def tlb_flush_def map_tlb_def update_cp15_def set_xreg_def)
  have c: "(ARM_CPU_MODE_SVC OR CPSR_A OR CPSR_F OR CPSR_I) AND NOT CPSR_I = 0x153"
    "ARM_CPU_MODE_SVC OR CPSR_A OR CPSR_F OR CPSR_I = 0x1D3" by code_simp+
  have "uncached_cpsr (tlb_flush ?env6) = (if IS_M ?env3 then 0x153 else 0x1D3)"
    using c by (simp add: tlb_flush_def map_tlb_def update_cp15_def set_xreg_def)
  moreover have "regs (tlb_flush ?env6) = (\<lambda>_. 0)"
    using 2(2) by (simp add: tlb_flush_def map_tlb_def update_cp15_def set_xreg_def clear_env_def)
  moreover have "c2_base_mask (cp15 (tlb_flush ?env6)) = 0xFFFFC000"
    by (simp add: tlb_flush_def map_tlb_def update_cp15_def)
  moreover have "m < NB_MMU_MODES \<longrightarrow> no_hit a m (tlb_flush ?env6)"
    using tlb_flush_no_hit by blast
  ultimately show ?thesis using r k(3) IS by auto
qed

theorem cpu_reset_known_witness:
  "cpu_arm_find_by_name ''cortex-a8'' = ARM_CPUID_CORTEXA8 \<and> (\<exists>env'. cpu_reset reset_env = ret env' \<and>
    uncached_cpsr env' = (if IS_M env' then 0x153 else 0x1D3) \<and> regs env' = (\<lambda>_. 0) \<and>
    c2_base_mask (cp15 env') = 0xFFFFC000 \<and> (1 < NB_MMU_MODES \<longrightarrow> no_hit 0x8000 1 env'))"
  by (rule cpu_reset_known) (simp_all add: arm_cpu_names_def reset_env_def)

end
