(* ===== verification/Arm_Mmu.thy ===== *)
theory Arm_Mmu
  imports Arm_Cpu
begin

text \<open>
  Address translation of the ARM processor (\<open>src/qemu/target-arm/helper.c\<close>): access permissions, the
  page-table walks of the version 5 and version 6 MMU, the memory protection unit, the dispatch between
  them and the handler of a TLB miss; and the page walk of the tracer (\<open>get_ptes\<close> in
  \<open>src/tlb_trace.c\<close>), which repeats the version 6 walk. Physical memory is a function from
  addresses to bytes: \<open>ldl_phys\<close> and \<open>stl_phys\<close> (\<open>src/qemu/exec.c\<close>) are modelled on pages of RAM.
\<close>

section \<open>Physical memory\<close>

type_synonym phys_mem = "u32 \<Rightarrow> u8"

definition ldl_phys :: "phys_mem \<Rightarrow> u32 \<Rightarrow> u32" where
  "ldl_phys mem addr = u32_of_bytes (mem addr) (mem (addr + 1)) (mem (addr + 2)) (mem (addr + 3))"

definition stl_phys :: "u32 \<Rightarrow> u32 \<Rightarrow> phys_mem \<Rightarrow> phys_mem" where
  "stl_phys addr val mem = mem(addr := ucast val, addr + 1 := ucast (drop_bit 8 val),
     addr + 2 := ucast (drop_bit 16 val), addr + 3 := ucast (drop_bit 24 val))"

section \<open>Permissions\<close>

text \<open>An access is a load (0), a store (1) or a fetch (2).\<close>

definition check_ap :: "'a CPUARMState_scheme \<Rightarrow> u32 \<Rightarrow> u32 \<Rightarrow> int \<Rightarrow> bool \<Rightarrow> u32 comp" where
  "check_ap env ap domain access_type is_user =
     (let prot_ro = (if access_type = 1 then 0 else PAGE_READ) in
      if domain = 3 then ret (PAGE_READ OR PAGE_WRITE)
      else if ap = 0 then
        (if access_type = 1 then ret 0
         else if drop_bit 8 (c1_sys (cp15 env)) AND 3 = 1 then ret (if is_user then 0 else PAGE_READ)
         else if drop_bit 8 (c1_sys (cp15 env)) AND 3 = 2 then ret PAGE_READ
         else ret 0)
      else if ap = 1 then ret (if is_user then 0 else PAGE_READ OR PAGE_WRITE)
      else if ap = 2 then ret (if is_user then prot_ro else PAGE_READ OR PAGE_WRITE)
      else if ap = 3 then ret (PAGE_READ OR PAGE_WRITE)
      else if ap = 4 then ret 0
      else if ap = 5 then ret (if is_user then 0 else prot_ro)
      else if ap = 6 then ret prot_ro
      else if ap = 7 then ret (if \<not> arm_feature env ARM_FEATURE_V7 then 0 else prot_ro)
      else raise Abort)"

definition get_level1_table_address :: "'a CPUARMState_scheme \<Rightarrow> u32 \<Rightarrow> u32" where
  "get_level1_table_address env address =
     ((if address AND c2_mask (cp15 env) \<noteq> 0 then c2_base1 (cp15 env) AND 0xFFFFC000
       else c2_base0 (cp15 env) AND c2_base_mask (cp15 env)) OR (drop_bit 18 address AND 0x3FFC))"

section \<open>Page-table walks\<close>

text \<open>
  A walk returns 0 with the physical address, the protection and the page size, or a fault status:
  \<open>code | (domain << 4)\<close>.
\<close>

datatype walk_result = Translated (walk_phys: u32) (walk_prot: u32) (walk_size: u32) | Fault u32

definition fault :: "u32 \<Rightarrow> u32 \<Rightarrow> walk_result comp" where
  "fault code domain = ret (Fault (code OR push_bit 4 domain))"

text \<open>The end of the version 5 walk: check the permissions of the address that was found.\<close>

definition finish_v5 ::
  "'a CPUARMState_scheme \<Rightarrow> u32 \<Rightarrow> u32 \<Rightarrow> int \<Rightarrow> bool \<Rightarrow> u32 \<Rightarrow> u32 \<Rightarrow> u32 \<Rightarrow> walk_result comp" where
  "finish_v5 env ap domain access_type is_user code phys_addr page_size =
     comp_bind (check_ap env ap domain access_type is_user) (\<lambda>prot.
       if prot = 0 then fault code domain
       else ret (Translated phys_addr (prot OR PAGE_EXEC) page_size))"

definition v5_level2 ::
  "'a CPUARMState_scheme \<Rightarrow> u32 \<Rightarrow> int \<Rightarrow> bool \<Rightarrow> u32 \<Rightarrow> u32 \<Rightarrow> u32 \<Rightarrow> walk_result comp" where
  "v5_level2 env address access_type is_user type domain desc =
     (let ap4 = drop_bit (unat (4 + (drop_bit 13 address AND 6))) desc AND 3 in
      if desc AND 3 = 0 then fault 7 domain
      else if desc AND 3 = 1 then
        finish_v5 env ap4 domain access_type is_user 15 ((desc AND 0xFFFF0000) OR (address AND 0xFFFF)) 0x10000
      else if desc AND 3 = 2 then
        finish_v5 env ap4 domain access_type is_user 15 ((desc AND 0xFFFFF000) OR (address AND 0xFFF)) 0x1000
      else if type = 1 \<and> \<not> arm_feature env ARM_FEATURE_XSCALE then fault 7 domain
      else finish_v5 env (drop_bit 4 desc AND 3) domain access_type is_user 15
        (if type = 1 then (desc AND 0xFFFFF000) OR (address AND 0xFFF) else (desc AND 0xFFFFFC00) OR (address AND 0x3FF))
        0x400)"

definition get_phys_addr_v5 ::
  "phys_mem \<Rightarrow> 'a CPUARMState_scheme \<Rightarrow> u32 \<Rightarrow> int \<Rightarrow> bool \<Rightarrow> walk_result comp" where
  "get_phys_addr_v5 mem env address access_type is_user =
     (let desc = ldl_phys mem (get_level1_table_address env address);
          type = desc AND 3;
          domain = drop_bit (unat (drop_bit 4 desc AND 0x1E)) (c3 (cp15 env)) AND 3
      in if type = 0 then fault 5 domain
         else if domain = 0 \<or> domain = 2 then fault (if type = 2 then 9 else 11) domain
         else if type = 2 then
           finish_v5 env (drop_bit 10 desc AND 3) domain access_type is_user 13
             ((desc AND 0xFFF00000) OR (address AND 0xFFFFF)) (1024 * 1024)
         else let table = (if type = 1 then (desc AND 0xFFFFFC00) OR (drop_bit 10 address AND 0x3FC)
                           else (desc AND 0xFFFFF000) OR (drop_bit 8 address AND 0xFFC))
              in v5_level2 env address access_type is_user type domain (ldl_phys mem table))"

text \<open>
  The end of the version 6 walk. Domain 3 (manager) skips the checks; otherwise execute-never, the access
  flag of the simplified model and the permissions are checked in this order.
\<close>

definition finish_v6 ::
  "'a CPUARMState_scheme \<Rightarrow> u32 \<Rightarrow> bool \<Rightarrow> u32 \<Rightarrow> int \<Rightarrow> bool \<Rightarrow> u32 \<Rightarrow> u32 \<Rightarrow> u32 \<Rightarrow> walk_result comp" where
  "finish_v6 env ap xn domain access_type is_user code phys_addr page_size =
     (if domain = 3 then ret (Translated phys_addr (PAGE_READ OR PAGE_WRITE OR PAGE_EXEC) page_size)
      else if xn \<and> access_type = 2 then fault code domain
      else if bit (c1_sys (cp15 env)) 29 \<and> ap AND 1 = 0 then fault (if code = 15 then 6 else 3) domain
      else comp_bind (check_ap env ap domain access_type is_user) (\<lambda>prot.
             if prot = 0 then fault code domain
             else ret (Translated phys_addr (if \<not> xn then prot OR PAGE_EXEC else prot) page_size)))"

definition v6_domain :: "'a CPUARMState_scheme \<Rightarrow> u32 \<Rightarrow> u32" where
  "v6_domain env desc =
     drop_bit (if desc AND 3 = 2 \<and> bit desc 18 then 0 else unat (drop_bit 4 desc AND 0x1E)) (c3 (cp15 env)) AND 3"

definition get_phys_addr_v6 ::
  "phys_mem \<Rightarrow> 'a CPUARMState_scheme \<Rightarrow> u32 \<Rightarrow> int \<Rightarrow> bool \<Rightarrow> walk_result comp" where
  "get_phys_addr_v6 mem env address access_type is_user =
     (let desc = ldl_phys mem (get_level1_table_address env address);
          type = desc AND 3;
          domain = v6_domain env desc
      in if type = 0 \<or> type = 3 then fault 5 0
         else if domain = 0 \<or> domain = 2 then fault (if type = 2 then 9 else 11) domain
         else if type = 2 then
           finish_v6 env ((drop_bit 10 desc AND 3) OR (drop_bit 13 desc AND 4)) (bit desc 4) domain access_type is_user 13
             (if bit desc 18 then (desc AND 0xFF000000) OR (address AND 0xFFFFFF)
              else (desc AND 0xFFF00000) OR (address AND 0xFFFFF))
             (if bit desc 18 then 0x1000000 else 0x100000)
         else let desc2 = ldl_phys mem ((desc AND 0xFFFFFC00) OR (drop_bit 10 address AND 0x3FC));
                  ap = (drop_bit 4 desc2 AND 3) OR (drop_bit 7 desc2 AND 4)
              in if desc2 AND 3 = 0 then fault 7 domain
                 else if desc2 AND 3 = 1 then
                   finish_v6 env ap (bit desc2 15) domain access_type is_user 15
                     ((desc2 AND 0xFFFF0000) OR (address AND 0xFFFF)) 0x10000
                 else finish_v6 env ap (bit desc2 0) domain access_type is_user 15
                   ((desc2 AND 0xFFFFF000) OR (address AND 0xFFF)) 0x1000)"

section \<open>The memory protection unit\<close>

text \<open>The loop over the regions, from 7 down to 0; \<open>None\<close> when it falls below 0.\<close>

fun mpu_region :: "(nat \<Rightarrow> u32) \<Rightarrow> u32 \<Rightarrow> nat \<Rightarrow> nat option" where
  "mpu_region region address 0 = None"
| "mpu_region region address (Suc n) =
     (let base = region n;
          m = push_bit 1 (push_bit (unat (drop_bit 1 base AND 0x1F)) 1) - 1
      in if base AND 1 = 0 then mpu_region region address n
         else if (base XOR address) AND NOT m = 0 then Some n
         else mpu_region region address n)"

definition get_phys_addr_mpu :: "'a CPUARMState_scheme \<Rightarrow> u32 \<Rightarrow> int \<Rightarrow> bool \<Rightarrow> walk_result" where
  "get_phys_addr_mpu env address access_type is_user =
     (case mpu_region (c6_region (cp15 env)) address 8 of
        None \<Rightarrow> Fault 2
      | Some n \<Rightarrow>
          let m = drop_bit (n * 4) (if access_type = 2 then c5_insn (cp15 env) else c5_data (cp15 env)) AND 0xF;
              ok = (\<lambda>prot. Translated address (prot OR PAGE_EXEC) TARGET_PAGE_SIZE)
          in if m = 1 then (if is_user then Fault 1 else ok (PAGE_READ OR PAGE_WRITE))
             else if m = 2 then ok (if is_user then PAGE_READ else PAGE_READ OR PAGE_WRITE)
             else if m = 3 then ok (PAGE_READ OR PAGE_WRITE)
             else if m = 5 then (if is_user then Fault 1 else ok PAGE_READ)
             else if m = 6 then ok PAGE_READ
             else Fault 1)"

section \<open>Translation and TLB misses\<close>

definition get_phys_addr :: "phys_mem \<Rightarrow> 'a CPUARMState_scheme \<Rightarrow> u32 \<Rightarrow> int \<Rightarrow> bool \<Rightarrow> walk_result comp" where
  "get_phys_addr mem env address0 access_type is_user =
     (let address = (if address0 < 0x02000000 then address0 + c13_fcse (cp15 env) else address0) in
      if \<not> bit (c1_sys (cp15 env)) 0
      then ret (Translated address (PAGE_READ OR PAGE_WRITE OR PAGE_EXEC) TARGET_PAGE_SIZE)
      else if arm_feature env ARM_FEATURE_MPU then ret (get_phys_addr_mpu env address access_type is_user)
      else if bit (c1_sys (cp15 env)) 23 then get_phys_addr_v6 mem env address access_type is_user
      else get_phys_addr_v5 mem env address access_type is_user)"

definition tlb_set_page ::
  "u32 \<Rightarrow> u32 \<Rightarrow> u32 \<Rightarrow> nat \<Rightarrow> bool \<Rightarrow> machine \<times> 'a cpu_common_scheme \<Rightarrow> (int \<times> machine \<times> 'a cpu_common_scheme) comp" where
  "tlb_set_page vaddr paddr prot mmu_idx is_softmmu st =
     tlb_set_page_exec vaddr paddr (if prot AND PAGE_READ \<noteq> 0 then prot OR PAGE_EXEC else prot) mmu_idx is_softmmu st"

definition MMU_USER_IDX :: nat where
  "MMU_USER_IDX = 1"

text \<open>The fault registers and the exception of a failed access.\<close>

definition record_fault :: "u32 \<Rightarrow> int \<Rightarrow> u32 \<Rightarrow> 'a CPUARMState_scheme \<Rightarrow> 'a CPUARMState_scheme" where
  "record_fault address access_type status env =
     (if access_type = 2 then
        (update_cp15 (\<lambda>c. c\<lparr>c5_insn := status, c6_insn := address\<rparr>) env)\<lparr>exception_index := EXCP_PREFETCH_ABORT\<rparr>
      else
        (update_cp15 (\<lambda>c. c\<lparr>c5_data := (if access_type = 1 \<and> arm_feature env ARM_FEATURE_V6
             then status OR push_bit 11 1 else status), c6_data := address\<rparr>) env)\<lparr>exception_index := EXCP_DATA_ABORT\<rparr>)"

text \<open>The page size is passed where \<open>tlb_set_page\<close> expects the flag \<open>is_softmmu\<close>.\<close>

definition cpu_arm_handle_mmu_fault ::
  "phys_mem \<Rightarrow> u32 \<Rightarrow> int \<Rightarrow> nat \<Rightarrow> machine \<times> 'a CPUARMState_scheme \<Rightarrow> (int \<times> machine \<times> 'a CPUARMState_scheme) comp" where
  "cpu_arm_handle_mmu_fault mem address access_type mmu_idx st =
     (case st of (mach, env) \<Rightarrow>
        comp_bind (get_phys_addr mem env address access_type (mmu_idx = MMU_USER_IDX)) (\<lambda>w.
          case w of
            Translated phys_addr prot page_size \<Rightarrow>
              comp_bind (tlb_set_page (address AND NOT 0x3FF) (phys_addr AND NOT 0x3FF) prot mmu_idx (page_size \<noteq> 0) (mach, env))
                (\<lambda>(_, st'). ret (0, st'))
          | Fault status \<Rightarrow> ret (1, mach, record_fault address access_type status env)))"

definition cpu_get_phys_page_debug :: "phys_mem \<Rightarrow> 'a CPUARMState_scheme \<Rightarrow> u32 \<Rightarrow> u32 comp" where
  "cpu_get_phys_page_debug mem env addr =
     comp_bind (get_phys_addr mem env addr 0 False) (\<lambda>w.
       case w of Translated phys_addr _ _ \<Rightarrow> ret phys_addr | Fault _ \<Rightarrow> ret (- 1))"

section \<open>The page walk of the tracer\<close>

text \<open>Result, address of the first- and of the second-level descriptor, page address.\<close>

definition get_ptes :: "phys_mem \<Rightarrow> 'a CPUARMState_scheme \<Rightarrow> u32 \<Rightarrow> u32 \<times> u32 \<times> u32 \<times> u32" where
  "get_ptes mem env address =
     (let l1 = get_level1_table_address env address;
          desc = ldl_phys mem l1;
          type = desc AND 3;
          domain = v6_domain env desc
      in if type = 0 \<or> type = 3 then (1, l1, 0, 0)
         else if domain = 0 \<or> domain = 2 then (1, l1, 0, 0)
         else if type = 2 then (1, l1, 0, 0)
         else let l2 = (desc AND 0xFFFFFC00) OR (drop_bit 10 address AND 0x3FC);
                  desc2 = ldl_phys mem l2
              in if desc2 AND 3 = 0 then (2, l1, l2, 0)
                 else (3, l1, l2, desc2 AND 0xFFFFF000))"

section \<open>Lemmas\<close>

lemma word_le_7_cases: "(w :: u32) \<le> 7 \<Longrightarrow> w \<in> {0, 1, 2, 3, 4, 5, 6, 7}"
proof -
  assume "w \<le> 7"
  then have "unat w \<le> 7" by (simp add: word_le_nat_alt)
  then have "unat w \<in> {0, 1, 2, 3, 4, 5, 6, 7}" by auto
  then show ?thesis by (auto simp: word_unat_eq_iff)
qed

lemma ap_le_7: "(a AND 3 :: u32) \<le> 7" "(a AND 3 :: u32) OR (b AND 4) \<le> 7"
proof -
  have "(a AND 3 :: u32) = (a AND 3) AND 7" "(a AND 3 :: u32) OR (b AND 4) = ((a AND 3) OR (b AND 4)) AND 7"
    by (simp_all add: and.assoc bit.conj_disj_distrib2)
  then show "(a AND 3 :: u32) \<le> 7" "(a AND 3 :: u32) OR (b AND 4) \<le> 7"
    by (metis word_and_le1)+
qed

lemmas page_defs = PAGE_READ_def PAGE_WRITE_def PAGE_EXEC_def

text \<open>What a protection that a walk returns allows: at least the access itself.\<close>

definition allows :: "u32 \<Rightarrow> int \<Rightarrow> bool" where
  "allows prot access_type \<longleftrightarrow> prot AND PAGE_READ \<noteq> 0 \<and> (access_type = 1 \<longrightarrow> prot AND PAGE_WRITE \<noteq> 0) \<and>
     (access_type = 2 \<longrightarrow> prot AND PAGE_EXEC \<noteq> 0)"

lemma check_ap_returns:
  assumes "ap \<le> 7"
  obtains prot where "check_ap env ap domain access_type is_user = ret prot"
    and "prot \<noteq> 0 \<Longrightarrow> prot AND PAGE_READ \<noteq> 0 \<and> (access_type = 1 \<longrightarrow> prot AND PAGE_WRITE \<noteq> 0)"
    and "prot AND PAGE_EXEC = 0"
proof -
  have "\<exists>prot. check_ap env ap domain access_type is_user = ret prot \<and>
      (prot \<noteq> 0 \<longrightarrow> prot AND PAGE_READ \<noteq> 0 \<and> (access_type = 1 \<longrightarrow> prot AND PAGE_WRITE \<noteq> 0)) \<and> prot AND PAGE_EXEC = 0"
    using word_le_7_cases [OF assms] unfolding check_ap_def Let_def
    by (auto simp: page_defs)
  then show thesis using that by blast
qed

text \<open>A walk that ends: a fault, or an address with the offset of the virtual one and a protection that allows the access.\<close>

definition sound_walk :: "u32 \<Rightarrow> int \<Rightarrow> walk_result \<Rightarrow> bool" where
  "sound_walk address access_type w \<longleftrightarrow>
     (case w of Fault status \<Rightarrow> status \<noteq> 0
      | Translated phys prot sz \<Rightarrow> allows prot access_type \<and> phys AND (sz - 1) = address AND (sz - 1))"

lemma or_nonzero: "(a :: u32) \<noteq> 0 \<Longrightarrow> a OR b \<noteq> 0"
  by (metis or_eq_0_iff)

lemma finish_v5_sound:
  assumes "ap \<le> 7" and "phys AND (sz - 1) = address AND (sz - 1)" and "code \<noteq> 0"
  shows "\<exists>w. finish_v5 env ap domain access_type is_user code phys sz = ret w \<and> sound_walk address access_type w"
proof -
  obtain prot where p: "check_ap env ap domain access_type is_user = ret prot"
      "prot \<noteq> 0 \<Longrightarrow> prot AND PAGE_READ \<noteq> 0 \<and> (access_type = 1 \<longrightarrow> prot AND PAGE_WRITE \<noteq> 0)"
    using check_ap_returns [OF assms(1)] by blast
  then show ?thesis
    using assms or_nonzero [of code]
    by (auto simp: finish_v5_def fault_def sound_walk_def allows_def bit.conj_disj_distrib2 or_eq_0_iff page_defs)
qed

lemma finish_v6_sound:
  assumes "ap \<le> 7" and "phys AND (sz - 1) = address AND (sz - 1)" and "code \<noteq> 0"
  shows "\<exists>w. finish_v6 env ap xn domain access_type is_user code phys sz = ret w \<and> sound_walk address access_type w"
proof -
  obtain prot where p: "check_ap env ap domain access_type is_user = ret prot"
      "prot \<noteq> 0 \<Longrightarrow> prot AND PAGE_READ \<noteq> 0 \<and> (access_type = 1 \<longrightarrow> prot AND PAGE_WRITE \<noteq> 0)"
    using check_ap_returns [OF assms(1)] by blast
  then show ?thesis
    using assms or_nonzero [of code]
    by (auto simp: finish_v6_def fault_def sound_walk_def allows_def bit.conj_disj_distrib2 or_eq_0_iff page_defs)
qed

lemma fault_sound: "code \<noteq> 0 \<Longrightarrow> \<exists>w. fault code domain = ret w \<and> sound_walk address access_type w"
  using or_nonzero [of code] by (simp add: fault_def sound_walk_def)

lemma offset_preserved:
  "((d AND 0xFF000000) OR (a AND 0xFFFFFF)) AND 0xFFFFFF = (a :: u32) AND 0xFFFFFF"
  "((d AND 0xFFF00000) OR (a AND 0xFFFFF)) AND 0xFFFFF = (a :: u32) AND 0xFFFFF"
  "((d AND 0xFFFF0000) OR (a AND 0xFFFF)) AND 0xFFFF = (a :: u32) AND 0xFFFF"
  "((d AND 0xFFFFF000) OR (a AND 0xFFF)) AND 0xFFF = (a :: u32) AND 0xFFF"
  "((d AND 0xFFFFF000) OR (a AND 0xFFF)) AND 0x3FF = (a :: u32) AND 0x3FF"
  "((d AND 0xFFFFFC00) OR (a AND 0x3FF)) AND 0x3FF = (a :: u32) AND 0x3FF"
  by (simp_all add: bit.conj_disj_distrib2 and.assoc)

end
