(* ===== verification/Mmu_Safety.thy ===== *)
theory Mmu_Safety
  imports Arm_Mmu
begin

text \<open>
  Properties of the address translation of the ARM processor and of the page walk of the tracer: the
  walks end with a fault or with a translation that allows the access, the handler of a TLB miss
  makes the access hit or records the fault, and the tracer finds the page-table entries that the
  version 6 walk uses. One property states where the code departs from the architecture: execute-never pages.
\<close>

section \<open>Soundness of the walks\<close>

lemma returns_sound_ret [simp]: "(\<exists>w. ret w' = ret w \<and> P w) \<longleftrightarrow> P w'"
  by auto

lemma v5_level2_sound:
  "\<exists>w. v5_level2 env address access_type is_user type domain desc = ret w \<and> sound_walk address access_type w"
  unfolding v5_level2_def Let_def
  by (auto intro!: fault_sound finish_v5_sound ap_le_7 simp: offset_preserved)

lemma get_phys_addr_v5_sound:
  "\<exists>w. get_phys_addr_v5 mem env address access_type is_user = ret w \<and> sound_walk address access_type w"
  unfolding get_phys_addr_v5_def Let_def
  by (auto intro!: fault_sound finish_v5_sound v5_level2_sound ap_le_7 simp: offset_preserved)

lemma get_phys_addr_v6_sound:
  "\<exists>w. get_phys_addr_v6 mem env address access_type is_user = ret w \<and> sound_walk address access_type w"
  unfolding get_phys_addr_v6_def Let_def
  by (auto intro!: fault_sound finish_v6_sound ap_le_7 simp: offset_preserved)

text \<open>The address after the Fast Context Switch Extension.\<close>

definition modified_va :: "'a CPUARMState_scheme \<Rightarrow> u32 \<Rightarrow> u32" where
  "modified_va env address = (if address < 0x02000000 then address + c13_fcse (cp15 env) else address)"

lemma get_phys_addr_sound_walk:
  assumes "\<not> arm_feature env ARM_FEATURE_MPU"
  shows "\<exists>w. get_phys_addr mem env address access_type is_user = ret w \<and>
    sound_walk (modified_va env address) access_type w"
proof -
  have "sound_walk a access_type (Translated a (PAGE_READ OR PAGE_WRITE OR PAGE_EXEC) TARGET_PAGE_SIZE)" for a
    by (simp add: sound_walk_def allows_def page_defs)
  then show ?thesis
    using assms by (simp add: get_phys_addr_def modified_va_def get_phys_addr_v5_sound get_phys_addr_v6_sound)
qed

text \<open>
  C7. Without the memory protection unit every translation ends, without an abort: with a non-zero fault
  status, or with a physical address whose offset in the page is that of the modified virtual address
  and a protection that allows the access that was asked for (reading always, writing for a store,
  execution for a fetch).
\<close>

theorem get_phys_addr_sound:
  assumes "\<not> arm_feature env ARM_FEATURE_MPU"
  shows "(\<exists>status. get_phys_addr mem env address access_type is_user = ret (Fault status) \<and> status \<noteq> 0) \<or>
    (\<exists>phys prot sz. get_phys_addr mem env address access_type is_user = ret (Translated phys prot sz) \<and>
       phys AND (sz - 1) = modified_va env address AND (sz - 1) \<and> prot AND PAGE_READ \<noteq> 0 \<and>
       (access_type = 1 \<longrightarrow> prot AND PAGE_WRITE \<noteq> 0) \<and> (access_type = 2 \<longrightarrow> prot AND PAGE_EXEC \<noteq> 0))"
proof -
  obtain w where "get_phys_addr mem env address access_type is_user = ret w"
    "sound_walk (modified_va env address) access_type w"
    using get_phys_addr_sound_walk [OF assms] by blast
  then show ?thesis by (cases w) (auto simp: sound_walk_def allows_def)
qed

section \<open>TLB misses\<close>

text \<open>The field of an entry that an access consults.\<close>

definition access_hits :: "u32 \<Rightarrow> int \<Rightarrow> CPUTLBEntry \<Rightarrow> bool" where
  "access_hits a access_type te \<longleftrightarrow>
     tlb_hit a (if access_type = 1 then addr_write te else if access_type = 2 then addr_code te else addr_read te)"

lemma page_of_address: "NOT (0x3FF :: u32) = TARGET_PAGE_MASK"
  unfolding TARGET_PAGE_MASK_def by code_simp

lemma set_page_prot:
  "(if prot AND PAGE_READ \<noteq> 0 then prot OR PAGE_EXEC else prot) AND PAGE_READ = prot AND PAGE_READ"
  "(if prot AND PAGE_READ \<noteq> 0 then prot OR PAGE_EXEC else prot) AND PAGE_WRITE = prot AND PAGE_WRITE"
  "(if prot AND PAGE_READ \<noteq> 0 then prot OR PAGE_EXEC else prot) AND PAGE_EXEC \<noteq> 0 \<longleftrightarrow>
     prot AND PAGE_READ \<noteq> 0 \<or> prot AND PAGE_EXEC \<noteq> 0"
  by (auto simp: page_defs bit.conj_disj_distrib2)

text \<open>The handler after a translation: what hits, and what the handler leaves alone.\<close>

lemma handle_mmu_fault_translated:
  assumes "get_phys_addr mem env address access_type (m = MMU_USER_IDX) = ret (Translated phys prot sz)"
    and "\<not> memcheck_instrument_mmu mach"
    and "cpu_arm_handle_mmu_fault mem address access_type m (mach, env) = ret (r, mach', env')"
  shows "r = 0 \<and> (\<exists>io tt. env' = env\<lparr>iotlb := io, tlb_table := tt\<rparr>) \<and>
    (let te = entry_at address m env' in
      (tlb_hit address (addr_read te) \<longleftrightarrow> prot AND PAGE_READ \<noteq> 0) \<and>
      (tlb_hit address (addr_write te) \<longleftrightarrow> prot AND PAGE_WRITE \<noteq> 0) \<and>
      (tlb_hit address (addr_code te) \<longleftrightarrow> prot AND PAGE_READ \<noteq> 0 \<or> prot AND PAGE_EXEC \<noteq> 0))"
proof -
  let ?p = "if prot AND PAGE_READ \<noteq> 0 then prot OR PAGE_EXEC else prot"
  obtain r' where "r = 0" and e: "tlb_set_page_exec (address AND TARGET_PAGE_MASK) (phys AND TARGET_PAGE_MASK) ?p m (sz \<noteq> 0) (mach, env) =
      ret (r', mach', env')"
    using assms(1,3) unfolding cpu_arm_handle_mmu_fault_def page_of_address tlb_set_page_def
    by (auto dest!: comp_bind_eq_retD)
  show ?thesis
    by (rule tlb_set_page_exec_entry [OF page_mask_idem refl assms(2) e], unfold set_page_prot Let_def,
        intro conjI exI) (use \<open>r = 0\<close> in \<open>assumption | simp\<close>)+
qed

text \<open>The handler without the memory protection unit.\<close>

lemma handle_mmu_fault_cases:
  assumes "\<not> arm_feature env ARM_FEATURE_MPU" and "\<not> memcheck_instrument_mmu mach"
    and "cpu_arm_handle_mmu_fault mem address access_type m (mach, env) = ret (r, mach', env')"
  shows "(r = 0 \<and> access_hits address access_type (entry_at address m env') \<and>
      (\<exists>io tt. env' = env\<lparr>iotlb := io, tlb_table := tt\<rparr>)) \<or>
    (r = 1 \<and> mach' = mach \<and> (\<exists>status. status \<noteq> 0 \<and>
      get_phys_addr mem env address access_type (m = MMU_USER_IDX) = ret (Fault status) \<and>
      env' = record_fault address access_type status env))"
proof -
  obtain w where w: "get_phys_addr mem env address access_type (m = MMU_USER_IDX) = ret w"
    "sound_walk (modified_va env address) access_type w"
    using get_phys_addr_sound_walk [OF assms(1)] by blast
  show ?thesis
  proof (cases w)
    case (Translated phys prot sz)
    with w(2) have "allows prot access_type" by (simp add: sound_walk_def)
    with handle_mmu_fault_translated [OF w(1) [unfolded Translated] assms(2,3)] show ?thesis
      by (auto simp: allows_def access_hits_def Let_def)
  next
    case (Fault status)
    with w assms(3) show ?thesis by (auto simp: cpu_arm_handle_mmu_fault_def sound_walk_def)
  qed
qed

text \<open>The handler after a translation to a page that is backed.\<close>

lemma handle_mmu_fault_fills:
  assumes "get_phys_addr mem env address access_type (m = MMU_USER_IDX) = ret (Translated phys prot sz)"
    and "\<not> memcheck_instrument_mmu mach" and "page_backed mach phys"
  obtains mach' env' where "cpu_arm_handle_mmu_fault mem address access_type m (mach, env) = ret (0, mach', env')"
    and "iotlb env' m (tlb_index address) + (address AND TARGET_PAGE_MASK) =
      (if watched (address AND TARGET_PAGE_MASK) (watchpoints env) then io_mem_watch mach + (phys AND TARGET_PAGE_MASK)
       else iotlb_value mach (page_pd mach phys) (phys AND TARGET_PAGE_MASK))"
    and "\<forall>m' j. m' \<noteq> m \<or> j \<noteq> tlb_index address \<longrightarrow> tlb_table env' m' j = tlb_table env m' j \<and> iotlb env' m' j = iotlb env m' j"
    and "env' = env\<lparr>iotlb := iotlb env', tlb_table := tlb_table env'\<rparr>"
    and "qemu_safe_ram_ptr (page_of_u64 (page_pd mach phys)) (ram_list mach) =
      ret (addend (entry_at address m env') + ucast (address AND TARGET_PAGE_MASK))"
    and "\<exists>rl. mach' = mach\<lparr>ram_list := rl\<rparr> \<and> set (blocks rl) = set (blocks (ram_list mach)) \<and> phys_dirty rl = phys_dirty (ram_list mach)"
proof -
  let ?p = "if prot AND PAGE_READ \<noteq> 0 then prot OR PAGE_EXEC else prot" and ?v = "address AND TARGET_PAGE_MASK"
  have b: "page_backed mach (phys AND TARGET_PAGE_MASK)" using assms(3) by simp
  obtain rl te where e: "tlb_set_page_exec ?v (phys AND TARGET_PAGE_MASK) ?p m (sz \<noteq> 0) (mach, env) = ret (0, mach\<lparr>ram_list := rl\<rparr>,
      env\<lparr>iotlb := (iotlb env)(m := (iotlb env m)(tlb_index ?v :=
            (if watched ?v (watchpoints env) then io_mem_watch mach + (phys AND TARGET_PAGE_MASK)
             else iotlb_value mach (page_pd mach phys) (phys AND TARGET_PAGE_MASK)) - ?v)),
          tlb_table := (tlb_table env)(m := (tlb_table env m)(tlb_index ?v := te))\<rparr>)"
    and rl: "set (blocks rl) = set (blocks (ram_list mach))" "phys_dirty rl = phys_dirty (ram_list mach)"
    using tlb_set_page_exec_returns [OF b, unfolded page_pd_of_page] by blast
  have h: "cpu_arm_handle_mmu_fault mem address access_type m (mach, env) = ret (0, mach\<lparr>ram_list := rl\<rparr>,
      env\<lparr>iotlb := (iotlb env)(m := (iotlb env m)(tlb_index ?v :=
            (if watched ?v (watchpoints env) then io_mem_watch mach + (phys AND TARGET_PAGE_MASK)
             else iotlb_value mach (page_pd mach phys) (phys AND TARGET_PAGE_MASK)) - ?v)),
          tlb_table := (tlb_table env)(m := (tlb_table env m)(tlb_index ?v := te))\<rparr>)"
    unfolding cpu_arm_handle_mmu_fault_def page_of_address tlb_set_page_def by (simp add: assms(1) e)
  have "qemu_safe_ram_ptr (page_of_u64 (page_pd mach phys)) (ram_list mach) = ret (addend te + ucast ?v)"
    by (rule tlb_set_page_exec_entry [OF page_mask_idem refl assms(2) e]) 
      (drule arg_cong [of _ _ "\<lambda>e. entry_at address m e"], simp add: entry_at_def tlb_index_page)
  then show thesis
    using rl by (intro that [OF h]) (auto simp: entry_at_def tlb_index_page)
qed

text \<open>The entry of a device page: the access that was asked for goes through the I/O word.\<close>

definition access_field :: "int \<Rightarrow> CPUTLBEntry \<Rightarrow> u32" where
  "access_field access_type te = (if access_type = 1 then addr_write te else if access_type = 2 then addr_code te else addr_read te)"

lemma handle_mmu_fault_mmio:
  assumes "get_phys_addr mem env address access_type (m = MMU_USER_IDX) = ret (Translated phys prot sz)"
    and "\<not> arm_feature env ARM_FEATURE_MPU" and "\<not> memcheck_instrument_mmu mach"
    and "IO_MEM_ROM < low_bits_u64 (page_pd mach phys)" and "page_pd mach phys AND IO_MEM_ROMD = 0"
    and "cpu_arm_handle_mmu_fault mem address access_type m (mach, env) = ret (r, mach', env')"
  shows "access_field access_type (entry_at address m env') AND NOT TARGET_PAGE_MASK \<noteq> 0"
proof -
  let ?p = "if prot AND PAGE_READ \<noteq> 0 then prot OR PAGE_EXEC else prot"
  obtain r' where e: "tlb_set_page_exec (address AND TARGET_PAGE_MASK) (phys AND TARGET_PAGE_MASK) ?p m (sz \<noteq> 0) (mach, env) = ret (r', mach', env')"
    using assms(1,6) unfolding cpu_arm_handle_mmu_fault_def page_of_address tlb_set_page_def
    by (auto dest!: comp_bind_eq_retD)
  have "entry_at (address AND TARGET_PAGE_MASK) m env' = entry_at address m env'" by (simp add: entry_at_def tlb_index_page)
  note mmio = tlb_set_page_exec_mmio [OF assms(3) _ _ e, unfolded page_pd_of_page, OF assms(4,5), unfolded this set_page_prot]
  have "allows prot access_type"
    using get_phys_addr_sound_walk [OF assms(2), of mem address access_type "m = MMU_USER_IDX"] assms(1) by (simp add: sound_walk_def)
  then show ?thesis using mmio by (auto simp: allows_def access_field_def)
qed

text \<open>
  C8. The handler of a TLB miss, for a processor without the memory protection unit whose memory checker is off. When the translation
  faults, it returns 1; a fetch leaves the status and the address in the fault registers of instructions and raises exception 3
  (prefetch abort), a load or store leaves them in the registers of data, with bit 11 of the status set for a store of a version 6
  processor, and raises exception 4 (data abort); nothing else changes. When the translation succeeds and the page is backed by a RAM block,
  it returns 0; the access now hits; the addend of its line leads to the host address of the physical page, and its I/O word, with the virtual page added,
  is the physical page of the watchpoint handlers on a watched page, the RAM address with the index of the clean-page or ROM handlers on RAM and ROM,
  and the zone of the device plus the offset in its region otherwise; no other line changes, and of the machine only the order of the RAM blocks.
\<close>

theorem handle_mmu_fault_effect:
  assumes "\<not> arm_feature env ARM_FEATURE_MPU" and "\<not> memcheck_instrument_mmu mach"
    and "\<forall>phys prot sz. get_phys_addr mem env address access_type (m = MMU_USER_IDX) = ret (Translated phys prot sz) \<longrightarrow> page_backed mach phys"
  shows "\<exists>w. get_phys_addr mem env address access_type (m = MMU_USER_IDX) = ret w \<and>
    (case w of
       Fault status \<Rightarrow> status \<noteq> 0 \<and> cpu_arm_handle_mmu_fault mem address access_type m (mach, env) = ret (1, mach,
         if access_type = 2
         then env\<lparr>exception_index := 3, cp15 := (cp15 env)\<lparr>c5_insn := status, c6_insn := address\<rparr>\<rparr>
         else env\<lparr>exception_index := 4, cp15 := (cp15 env)\<lparr>c5_data :=
                (if access_type = 1 \<and> arm_feature env ARM_FEATURE_V6 then status OR 0x800 else status), c6_data := address\<rparr>\<rparr>)
     | Translated phys prot sz \<Rightarrow> \<exists>mach' env'. cpu_arm_handle_mmu_fault mem address access_type m (mach, env) = ret (0, mach', env') \<and>
         access_hits address access_type (entry_at address m env') \<and>
         qemu_safe_ram_ptr (page_of_u64 (page_pd mach phys)) (ram_list mach) =
           ret (addend (entry_at address m env') + ucast (address AND TARGET_PAGE_MASK)) \<and>
         iotlb env' m (tlb_index address) + (address AND TARGET_PAGE_MASK) =
           (let pd = page_pd mach phys in
            if watched (address AND TARGET_PAGE_MASK) (watchpoints env) then io_mem_watch mach + (phys AND TARGET_PAGE_MASK)
            else if low_bits_u64 pd = IO_MEM_RAM then ucast (page_of_u64 pd) OR 24
            else if low_bits_u64 pd \<le> IO_MEM_ROM then ucast (page_of_u64 pd) OR 8
            else ucast (low_bits_u64 pd) + (case phys_page_find mach (drop_bit TARGET_PAGE_BITS phys) of
              Some p \<Rightarrow> ucast (region_offset p) | None \<Rightarrow> phys AND TARGET_PAGE_MASK)) \<and>
         (\<forall>m' j. m' \<noteq> m \<or> j \<noteq> tlb_index address \<longrightarrow> tlb_table env' m' j = tlb_table env m' j \<and> iotlb env' m' j = iotlb env m' j) \<and>
         env' = env\<lparr>iotlb := iotlb env', tlb_table := tlb_table env'\<rparr> \<and>
         (\<exists>rl. mach' = mach\<lparr>ram_list := rl\<rparr> \<and> set (blocks rl) = set (blocks (ram_list mach)) \<and> phys_dirty rl = phys_dirty (ram_list mach)))"
proof -
  let ?c = "cpu_arm_handle_mmu_fault mem address access_type m (mach, env)"
  obtain w where w: "get_phys_addr mem env address access_type (m = MMU_USER_IDX) = ret w"
    "sound_walk (modified_va env address) access_type w"
    using get_phys_addr_sound_walk [OF assms(1)] by blast
  show ?thesis
  proof (cases w)
    case (Translated phys prot sz)
    note g = w(1) [unfolded Translated]
    obtain mach' env' where c: "?c = ret (0, mach', env')"
      and rest: "iotlb env' m (tlb_index address) + (address AND TARGET_PAGE_MASK) =
        (if watched (address AND TARGET_PAGE_MASK) (watchpoints env) then io_mem_watch mach + (phys AND TARGET_PAGE_MASK)
         else iotlb_value mach (page_pd mach phys) (phys AND TARGET_PAGE_MASK))"
      "\<forall>m' j. m' \<noteq> m \<or> j \<noteq> tlb_index address \<longrightarrow> tlb_table env' m' j = tlb_table env m' j \<and> iotlb env' m' j = iotlb env m' j"
      "env' = env\<lparr>iotlb := iotlb env', tlb_table := tlb_table env'\<rparr>"
      "qemu_safe_ram_ptr (page_of_u64 (page_pd mach phys)) (ram_list mach) =
        ret (addend (entry_at address m env') + ucast (address AND TARGET_PAGE_MASK))"
      "\<exists>rl. mach' = mach\<lparr>ram_list := rl\<rparr> \<and> set (blocks rl) = set (blocks (ram_list mach)) \<and> phys_dirty rl = phys_dirty (ram_list mach)"
      by (rule handle_mmu_fault_fills [OF g assms(2) assms(3) [rule_format, OF g]])
    have hit: "access_hits address access_type (entry_at address m env')"
      using handle_mmu_fault_cases [OF assms(1,2) c] by auto
    have io: "iotlb_value mach (page_pd mach phys) (phys AND TARGET_PAGE_MASK) =
        (let pd = page_pd mach phys in
         if low_bits_u64 pd = IO_MEM_RAM then ucast (page_of_u64 pd) OR 24
         else if low_bits_u64 pd \<le> IO_MEM_ROM then ucast (page_of_u64 pd) OR 8
         else ucast (low_bits_u64 pd) + (case phys_page_find mach (drop_bit TARGET_PAGE_BITS phys) of
           Some p \<Rightarrow> ucast (region_offset p) | None \<Rightarrow> phys AND TARGET_PAGE_MASK))"
      unfolding iotlb_value_def drop_page_bits by (simp add: Let_def IO_MEM_RAM_def IO_MEM_ROM_def IO_MEM_NOTDIRTY_def)
    show ?thesis
      by (rule exI [of _ w], unfold Translated walk_result.case, intro conjI g exI [of _ mach'] exI [of _ env'] c hit rest(2-5))
        (simp add: rest(1) io Let_def)
  next
    case (Fault status)
    with w show ?thesis
      by (simp add: cpu_arm_handle_mmu_fault_def sound_walk_def record_fault_def update_cp15_def EXCP_PREFETCH_ABORT_def EXCP_DATA_ABORT_def)
  qed
qed

text \<open>
  Execute-never is lost: when a page can be loaded from but not fetched from, the miss of a load
  enters the page into the TLB with a fetch address that hits, so that later fetches from the page do not
  reach the permission check.
\<close>

theorem load_makes_page_executable:
  assumes "get_phys_addr mem env address 0 (m = MMU_USER_IDX) = ret (Translated phys prot sz)"
    and "get_phys_addr mem env address 2 (m = MMU_USER_IDX) = ret (Fault status)"
    and "\<not> arm_feature env ARM_FEATURE_MPU" and "\<not> memcheck_instrument_mmu mach"
    and "cpu_arm_handle_mmu_fault mem address 0 m (mach, env) = ret (r, mach', env')"
  shows "r = 0 \<and> access_hits address 2 (entry_at address m env')"
proof -
  have "prot AND PAGE_READ \<noteq> 0"
    using get_phys_addr_sound_walk [OF assms(3), of mem address 0 "m = MMU_USER_IDX"] assms(1)
    by (simp add: sound_walk_def allows_def)
  then show ?thesis
    using handle_mmu_fault_translated [OF assms(1,4,5)] by (simp add: access_hits_def Let_def)
qed

section \<open>The walk of the tracer\<close>

lemma finish_v6_cases:
  assumes "finish_v6 env ap xn domain access_type is_user code phys sz = ret w"
  shows "(\<exists>prot. w = Translated phys prot sz) \<or> w = Fault (code OR push_bit 4 domain) \<or>
    w = Fault ((if code = 15 then 6 else 3) OR push_bit 4 domain)"
  using assms unfolding finish_v6_def fault_def
  by (auto split: if_splits dest!: comp_bind_eq_retD)

lemma fault_code: "code AND 0xF = code \<Longrightarrow> (code OR push_bit 4 domain) AND 0xF = (code :: u32)"
  by (rule u32_eqI) (simp_all add: bit.conj_disj_distrib2 bit_simps)


text \<open>The address of the second-level descriptor of an address, read from the first-level descriptor.\<close>

definition level2_address :: "phys_mem \<Rightarrow> u32 \<Rightarrow> u32 \<Rightarrow> u32" where
  "level2_address mem l1 address = (ldl_phys mem l1 AND 0xFFFFFC00) OR (drop_bit 10 address AND 0x3FC)"

text \<open>The cases of the version 6 walk, by its descriptors.\<close>

lemma get_ptes_of_v6_walk:
  assumes "get_phys_addr_v6 mem env address access_type is_user = ret w"
    and "get_ptes mem env address = (r, l1, l2, gpa)"
  shows "l1 = get_level1_table_address env address \<and>
    (case w of
       Translated phys prot sz \<Rightarrow>
         r = 1 \<and> (sz = 0x100000 \<or> sz = 0x1000000) \<and> l2 = 0 \<and> gpa = 0 \<or>
         r = 3 \<and> sz = 0x10000 \<and> l2 = level2_address mem l1 address \<and> gpa = ldl_phys mem l2 AND 0xFFFFF000 \<and> phys = (ldl_phys mem l2 AND 0xFFFF0000) OR (address AND 0xFFFF) \<or>
         r = 3 \<and> sz = 0x1000 \<and> l2 = level2_address mem l1 address \<and> gpa = ldl_phys mem l2 AND 0xFFFFF000 \<and> phys = (ldl_phys mem l2 AND 0xFFFFF000) OR (address AND 0xFFF)
     | Fault status \<Rightarrow>
         r = 1 \<and> status AND 0xF \<in> {3, 5, 9, 11, 13} \<and> l2 = 0 \<and> gpa = 0 \<or>
         r = 2 \<and> status AND 0xF = 7 \<and> l2 = level2_address mem l1 address \<and> gpa = 0 \<or>
         r = 3 \<and> status AND 0xF \<in> {6, 15} \<and> l2 = level2_address mem l1 address)"
  using assms unfolding get_phys_addr_v6_def get_ptes_def Let_def
  by (auto simp: fault_def fault_code level2_address_def split: if_splits dest!: finish_v6_cases)

lemma page_parts:
  "((d AND 0xFFFFF000) OR (a AND 0xFFF)) AND 0xFFFFF000 = (d :: u32) AND 0xFFFFF000"
  "((d AND 0xFFFF0000) OR (a AND 0xFFFF)) AND 0xFFFF0000 = (d :: u32) AND 0xFFFF0000"
  "(d AND 0xFFFFF000) AND 0xFFFF0000 = (d :: u32) AND 0xFFFF0000"
  by (simp_all add: bit.conj_disj_distrib2 and.assoc)

text \<open>
  The result codes of the tracer's walk: 1 when the walk ends at the first level (a section, or a first-level fault), 2 when the second-level descriptor is
  invalid and 3 when it is not, be the access then permitted or not.
\<close>

theorem get_ptes_result_codes:
  assumes "get_phys_addr_v6 mem env address access_type is_user = ret w"
    and "get_ptes mem env address = (r, l1, l2, gpa)"
  shows "case w of
       Translated phys prot sz \<Rightarrow> (r = 1 \<longleftrightarrow> sz \<in> {0x100000, 0x1000000}) \<and> (r = 3 \<longleftrightarrow> sz \<in> {0x1000, 0x10000})
     | Fault status \<Rightarrow> (r = 1 \<longleftrightarrow> status AND 0xF \<in> {3, 5, 9, 11, 13}) \<and> (r = 2 \<longleftrightarrow> status AND 0xF = 7) \<and> (r = 3 \<longleftrightarrow> status AND 0xF \<in> {6, 15})"
  using get_ptes_of_v6_walk [OF assms] by (cases w) auto

text \<open>
  C5. The walk of the tracer reads what the version 6 walk of the emulator reads. It names the same first-level descriptor. Where the emulator finds a section or a
  supersection, or faults at the first level (fault codes 3, 5, 9, 11 and 13), the tracer names no second-level descriptor and no page. Otherwise it names the second-level descriptor
  at the index of the address in the table of the first-level descriptor: when the emulator finds it invalid (code 7) the tracer names no page, when the emulator refuses the
  access to its page (codes 6 and 15) it still names the descriptor, and when the emulator translates through it, a page of 4 KB is
  recorded with the physical page of the translation; of a page of 64 KB the upper 16 bits of the recorded address are those of the translation.
\<close>

theorem get_ptes_agrees:
  assumes "get_phys_addr_v6 mem env address access_type is_user = ret w"
    and "get_ptes mem env address = (r, l1, l2, gpa)"
  shows "l1 = get_level1_table_address env address \<and>
    (let entry = (ldl_phys mem l1 AND 0xFFFFFC00) OR (drop_bit 10 address AND 0x3FC) in
     case w of
       Translated phys prot sz \<Rightarrow>
         sz \<in> {0x100000, 0x1000000} \<and> l2 = 0 \<and> gpa = 0 \<or>
         sz = 0x1000 \<and> l2 = entry \<and> phys = (ldl_phys mem l2 AND 0xFFFFF000) OR (address AND 0xFFF) \<and> gpa = phys AND 0xFFFFF000 \<or>
         sz = 0x10000 \<and> l2 = entry \<and> phys = (ldl_phys mem l2 AND 0xFFFF0000) OR (address AND 0xFFFF) \<and> gpa AND 0xFFFF0000 = phys AND 0xFFFF0000
     | Fault status \<Rightarrow>
         status AND 0xF \<in> {3, 5, 9, 11, 13} \<and> l2 = 0 \<and> gpa = 0 \<or>
         status AND 0xF = 7 \<and> l2 = entry \<and> gpa = 0 \<or>
         status AND 0xF \<in> {6, 15} \<and> l2 = entry)"
  using get_ptes_of_v6_walk [OF assms] by (cases w) (auto simp: page_parts level2_address_def Let_def)

section \<open>Examples\<close>

text \<open>
  A first-level table at 0x4000 whose first descriptor leads to a second-level table at 0x5000; there
  virtual page 8 is an execute-never page and page 9 an executable one, both on physical page 0; pages 16 to 31
  are part of a page of 64 KB.
\<close>

definition example_mem :: phys_mem where
  "example_mem = stl_phys 0x4000 0x5001 (stl_phys 0x5020 0x33 (stl_phys 0x5024 0x32 (stl_phys 0x504C 0x30031 (\<lambda>_. 0))))"

definition mmu_env :: CPUARMState where
  "mmu_env = reset_env\<lparr>cp15 := zero_cp15\<lparr>c1_sys := 0x800001, c2_base0 := 0x4000, c2_base_mask := 0xFFFFC000, c3 := 1\<rparr>\<rparr>"

definition mpu_env :: CPUARMState where
  "mpu_env = set_feature ARM_FEATURE_MPU (reset_env\<lparr>cp15 := zero_cp15\<lparr>c1_sys := 1, c6_region := (\<lambda>n. if n = 0 then 0x3F else 0),
     c5_data := 6\<rparr>\<rparr>)"

lemma mmu_env_no_mpu: "\<not> arm_feature mmu_env ARM_FEATURE_MPU"
  by code_simp

lemma small_machine_unchecked: "\<not> memcheck_instrument_mmu small_machine"
  by (simp add: small_machine_def)

theorem get_phys_addr_sound_witness:
  "\<not> arm_feature mmu_env ARM_FEATURE_MPU \<and>
   get_phys_addr example_mem mmu_env 0x8412 2 True = ret (Fault 0x1F) \<and>
   (\<exists>prot. get_phys_addr example_mem mmu_env 0x8412 0 True = ret (Translated 0x412 prot 0x1000) \<and> prot AND PAGE_READ \<noteq> 0)"
proof -
  have f: "returned (get_phys_addr example_mem mmu_env 0x8412 2 True) = Some (Fault 0x1F)" by code_simp
  have "returned (get_phys_addr example_mem mmu_env 0x8412 0 True) = Some (Translated 0x412 3 0x1000)" by code_simp
  then show ?thesis
    using f mmu_env_no_mpu get_phys_addr_sound [OF mmu_env_no_mpu, of example_mem "0x8412" 0 True]
    by (auto simp: returned_Some)
qed

theorem handle_mmu_fault_effect_witness:
  "(\<exists>mach' env'. cpu_arm_handle_mmu_fault example_mem 0x9412 2 1 (small_machine, mmu_env) = ret (0, mach', env') \<and>
     access_hits 0x9412 2 (entry_at 0x9412 1 env') \<and> addend (entry_at 0x9412 1 env') + 0x9400 = 0x7400 \<and>
     iotlb env' 1 (tlb_index 0x9412) + 0x9400 = 0x418) \<and>
   cpu_arm_handle_mmu_fault example_mem 0x8412 2 1 (small_machine, mmu_env) =
     ret (1, small_machine, mmu_env\<lparr>exception_index := 3, cp15 := (cp15 mmu_env)\<lparr>c5_insn := 0x1F, c6_insn := 0x8412\<rparr>\<rparr>)"
proof -
  have "returned (get_phys_addr example_mem mmu_env 0x9412 2 (1 = MMU_USER_IDX)) = Some (Translated 0x412 7 0x1000)"
    "returned (get_phys_addr example_mem mmu_env 0x8412 2 (1 = MMU_USER_IDX)) = Some (Fault 0x1F)" by code_simp+
  then have g: "get_phys_addr example_mem mmu_env 0x9412 2 (1 = MMU_USER_IDX) = ret (Translated 0x412 7 0x1000)"
    "get_phys_addr example_mem mmu_env 0x8412 2 (1 = MMU_USER_IDX) = ret (Fault 0x1F)" by (simp_all only: returned_Some)
  have "returned (qemu_safe_ram_ptr (page_of_u64 (page_pd small_machine 0x412)) (ram_list small_machine)) = Some 0x7400" by code_simp
  then have h: "qemu_safe_ram_ptr (page_of_u64 (page_pd small_machine 0x412)) (ram_list small_machine) = ret 0x7400" by (simp only: returned_Some)
  have f: "page_pd small_machine 0x412 = 0x400" "page_index 0x400 < length (phys_dirty (ram_list small_machine))"
    "(0x9412 :: u32) AND TARGET_PAGE_MASK = 0x9400" "low_bits_u64 0x400 = IO_MEM_RAM" "page_of_u64 0x400 = 0x400"
    "watchpoints mmu_env = []" by code_simp+
  have b: "page_backed small_machine 0x412" unfolding page_backed_def using h f by simp
  have 1: "\<forall>phys prot sz. get_phys_addr example_mem mmu_env 0x9412 2 (1 = MMU_USER_IDX) = ret (Translated phys prot sz) \<longrightarrow> page_backed small_machine phys"
    using g(1) b by simp
  have 2: "\<forall>phys prot sz. get_phys_addr example_mem mmu_env 0x8412 2 (1 = MMU_USER_IDX) = ret (Translated phys prot sz) \<longrightarrow> page_backed small_machine phys"
    using g(2) by simp
  note hit = handle_mmu_fault_effect [OF mmu_env_no_mpu small_machine_unchecked 1]
    and fault = handle_mmu_fault_effect [OF mmu_env_no_mpu small_machine_unchecked 2]
  have "\<exists>mach' env'. cpu_arm_handle_mmu_fault example_mem 0x9412 2 1 (small_machine, mmu_env) = ret (0, mach', env') \<and>
     access_hits 0x9412 2 (entry_at 0x9412 1 env') \<and> addend (entry_at 0x9412 1 env') + 0x9400 = 0x7400 \<and>
     iotlb env' 1 (tlb_index 0x9412) + 0x9400 = 0x418"
    using hit h unfolding g(1) f by (auto simp: Let_def f watched_def)
  moreover have "cpu_arm_handle_mmu_fault example_mem 0x8412 2 1 (small_machine, mmu_env) =
     ret (1, small_machine, mmu_env\<lparr>exception_index := 3, cp15 := (cp15 mmu_env)\<lparr>c5_insn := 0x1F, c6_insn := 0x8412\<rparr>\<rparr>)"
    using fault unfolding g(2) by simp
  ultimately show ?thesis ..
qed

theorem load_makes_page_executable_witness:
  "\<exists>mach' env'. cpu_arm_handle_mmu_fault example_mem 0x8412 0 1 (small_machine, mmu_env) = ret (0, mach', env') \<and>
     get_phys_addr example_mem mmu_env 0x8412 2 True = ret (Fault 0x1F) \<and> access_hits 0x8412 2 (entry_at 0x8412 1 env')"
proof -
  let ?c = "cpu_arm_handle_mmu_fault example_mem 0x8412 0 1 (small_machine, mmu_env)"
  have "map_option fst (returned ?c) = Some 0" by code_simp
  then obtain mach' env' where c: "?c = ret (0, mach', env')" by (auto simp: returned_Some)
  have "returned (get_phys_addr example_mem mmu_env 0x8412 2 (1 = MMU_USER_IDX)) = Some (Fault 0x1F)"
    "returned (get_phys_addr example_mem mmu_env 0x8412 0 (1 = MMU_USER_IDX)) = Some (Translated 0x412 3 0x1000)" by code_simp+
  then show ?thesis
    using load_makes_page_executable [OF _ _ mmu_env_no_mpu small_machine_unchecked c] c
    by (auto simp: returned_Some MMU_USER_IDX_def)
qed

theorem get_ptes_agrees_witness:
  "get_ptes example_mem mmu_env 0x13412 = (3, 0x4000, 0x504C, 0x30000) \<and>
   (\<exists>prot. get_phys_addr_v6 example_mem mmu_env 0x13412 0 True = ret (Translated 0x33412 prot 0x10000)) \<and>
   (0x4000 :: u32) = get_level1_table_address mmu_env 0x13412 \<and>
   (0x504C :: u32) = (ldl_phys example_mem 0x4000 AND 0xFFFFFC00) OR (drop_bit 10 0x13412 AND 0x3FC) \<and>
   (0x30000 :: u32) AND 0xFFFF0000 = 0x33412 AND 0xFFFF0000"
proof -
  have g: "get_ptes example_mem mmu_env 0x13412 = (3, 0x4000, 0x504C, 0x30000)" by code_simp
  have "returned (get_phys_addr_v6 example_mem mmu_env 0x13412 0 True) = Some (Translated 0x33412 7 0x10000)" by code_simp
  then have p: "get_phys_addr_v6 example_mem mmu_env 0x13412 0 True = ret (Translated 0x33412 7 0x10000)"
    by (simp add: returned_Some)
  with get_ptes_agrees [OF p g] g show ?thesis by (simp add: Let_def)
qed

theorem get_ptes_result_codes_witness:
  "get_ptes example_mem mmu_env 0x9412 = (3, 0x4000, 0x5024, 0) \<and>
   (\<exists>prot. get_phys_addr_v6 example_mem mmu_env 0x9412 0 True = ret (Translated 0x412 prot 0x1000)) \<and>
   ((3 :: u32) = 3 \<longleftrightarrow> (0x1000 :: u32) \<in> {0x1000, 0x10000})"
proof -
  have g: "get_ptes example_mem mmu_env 0x9412 = (3, 0x4000, 0x5024, 0)" by code_simp
  have "returned (get_phys_addr_v6 example_mem mmu_env 0x9412 0 True) = Some (Translated 0x412 7 0x1000)" by code_simp
  then have p: "get_phys_addr_v6 example_mem mmu_env 0x9412 0 True = ret (Translated 0x412 7 0x1000)"
    by (simp add: returned_Some)
  with get_ptes_result_codes [OF p g] g show ?thesis by simp
qed

end
