(* ===== verification/Arm_Exc.thy ===== *)
theory Arm_Exc
  imports Arm_Mmu
begin

text \<open>
  Exceptions of the ARM processor (\<open>src/qemu/target-arm/helper.c\<close>): the entry of the classic
  exceptions, the stacking entry and exit of the ARMv7-M profile, and its system registers. The state is
  the processor, physical memory and the interrupt controller. The interrupt controller, semihosting and the
  code loads of the emulator are the fields of a \<open>platform\<close>: parameters of the operations.
\<close>

section \<open>Constants and parameters\<close>

definition ARMV7M_EXCP_MEM :: nat where "ARMV7M_EXCP_MEM = 4"
definition ARMV7M_EXCP_USAGE :: nat where "ARMV7M_EXCP_USAGE = 6"
definition ARMV7M_EXCP_SVC :: nat where "ARMV7M_EXCP_SVC = 11"
definition ARMV7M_EXCP_DEBUG :: nat where "ARMV7M_EXCP_DEBUG = 12"

record 'n platform =
  semihosting_enabled :: bool
  lduw_code :: "u32 \<Rightarrow> u32"
  ldl_code :: "u32 \<Rightarrow> u32"
  do_arm_semihosting :: "CPUARMState \<Rightarrow> u32 \<times> CPUARMState"
  armv7m_nvic_set_pending :: "nat \<Rightarrow> 'n \<Rightarrow> 'n"
  armv7m_nvic_complete_irq :: "u32 \<Rightarrow> 'n \<Rightarrow> 'n"
  armv7m_nvic_acknowledge_irq :: "'n \<Rightarrow> u32 \<times> 'n"

type_synonym 'n exc_state = "CPUARMState \<times> phys_mem \<times> 'n"

definition set_reg :: "nat \<Rightarrow> u32 \<Rightarrow> 'a CPUARMState_scheme \<Rightarrow> 'a CPUARMState_scheme" where
  "set_reg i v env = env\<lparr>regs := (regs env)(i := v)\<rparr>"

section \<open>The ARMv7-M profile\<close>

definition v7m_push :: "u32 \<Rightarrow> CPUARMState \<times> phys_mem \<Rightarrow> CPUARMState \<times> phys_mem" where
  "v7m_push val st =
     (case st of (env, mem) \<Rightarrow>
        let env1 = set_reg 13 (regs env 13 - 4) env in (env1, stl_phys (regs env1 13) val mem))"

definition v7m_pop :: "phys_mem \<Rightarrow> CPUARMState \<Rightarrow> u32 \<times> CPUARMState" where
  "v7m_pop mem env = (ldl_phys mem (regs env 13), set_reg 13 (regs env 13 + 4) env)"

text \<open>\<open>env->regs[i] = v7m_pop(env)\<close>.\<close>

definition v7m_pop_reg :: "phys_mem \<Rightarrow> nat \<Rightarrow> CPUARMState \<Rightarrow> CPUARMState" where
  "v7m_pop_reg mem i env = (case v7m_pop mem env of (val, env1) \<Rightarrow> set_reg i val env1)"

definition switch_v7m_sp :: "int \<Rightarrow> 'a CPUARMState_scheme \<Rightarrow> 'a CPUARMState_scheme" where
  "switch_v7m_sp process env =
     (if current_sp (v7m env) \<noteq> process then
        (set_reg 13 (other_sp (v7m env)) env)\<lparr>v7m := (v7m env)\<lparr>other_sp := regs env 13, current_sp := process\<rparr>\<rparr>
      else env)"

definition do_v7m_exception_exit :: "'n platform \<Rightarrow> 'n exc_state \<Rightarrow> 'n exc_state" where
  "do_v7m_exception_exit p st =
     (case st of (env, mem, nvic) \<Rightarrow>
        let type = regs env 15;
            nvic1 = (if exception (v7m env) \<noteq> 0 then armv7m_nvic_complete_irq p (exception (v7m env)) nvic else nvic);
            env1 = switch_v7m_sp (if type AND 4 \<noteq> 0 then 1 else 0) env;
            env2 = fold (v7m_pop_reg mem) [0, 1, 2, 3, 12, 14, 15] env1
        in case v7m_pop mem env2 of (xpsr, env3) \<Rightarrow>
           let env4 = xpsr_write xpsr 0xFFFFFDFF env3
           in (if xpsr AND 0x200 \<noteq> 0 then set_reg 13 (regs env4 13 OR 4) env4 else env4, mem, nvic1))"

text \<open>The end of an interrupt: stack the registers, switch to the main stack, fetch the vector.\<close>

definition v7m_enter :: "u32 \<Rightarrow> u32 \<Rightarrow> CPUARMState \<times> phys_mem \<Rightarrow> CPUARMState \<times> phys_mem" where
  "v7m_enter xpsr0 lr st =
     (case st of (env0, mem0) \<Rightarrow>
        let xpsr = (if regs env0 13 AND 4 \<noteq> 0 then xpsr0 OR 0x200 else xpsr0);
            env1 = (if regs env0 13 AND 4 \<noteq> 0 then set_reg 13 (regs env0 13 - 4) env0 else env0)
        in case fold v7m_push [xpsr, regs env1 15, regs env1 14, regs env1 12, regs env1 3, regs env1 2, regs env1 1, regs env1 0]
             (env1, mem0) of (env2, mem2) \<Rightarrow>
           let env3 = switch_v7m_sp 0 env2;
               env4 = set_reg 14 lr (env3\<lparr>uncached_cpsr := uncached_cpsr env3 AND NOT CPSR_IT\<rparr>);
               addr = ldl_phys mem2 (vecbase (v7m env4) + exception (v7m env4) * 4)
           in ((set_reg 15 (addr AND 0xFFFFFFFE) env4)\<lparr>thumb := addr AND 1\<rparr>, mem2))"

definition v7m_return_code :: "'a CPUARMState_scheme \<Rightarrow> u32" where
  "v7m_return_code env =
     0xFFFFFFF1 OR (if current_sp (v7m env) \<noteq> 0 then 4 else 0) OR (if exception (v7m env) = 0 then 8 else 0)"

definition do_interrupt_v7m :: "'n platform \<Rightarrow> 'n exc_state \<Rightarrow> 'n exc_state comp" where
  "do_interrupt_v7m p st =
     (case st of (env, mem, nvic) \<Rightarrow>
        let xpsr = xpsr_read env; lr = v7m_return_code env in
        if exception_index env = EXCP_UDEF then ret (env, mem, armv7m_nvic_set_pending p ARMV7M_EXCP_USAGE nvic)
        else if exception_index env = EXCP_SWI then
          ret (set_reg 15 (regs env 15 + 2) env, mem, armv7m_nvic_set_pending p ARMV7M_EXCP_SVC nvic)
        else if exception_index env \<in> {EXCP_PREFETCH_ABORT, EXCP_DATA_ABORT} then
          ret (env, mem, armv7m_nvic_set_pending p ARMV7M_EXCP_MEM nvic)
        else if exception_index env = EXCP_BKPT then
          (if semihosting_enabled p \<and> lduw_code p (regs env 15) AND 0xFF = 0xAB then
             (case do_arm_semihosting p (set_reg 15 (regs env 15 + 2) env) of (r, env') \<Rightarrow> ret (set_reg 0 r env', mem, nvic))
           else ret (env, mem, armv7m_nvic_set_pending p ARMV7M_EXCP_DEBUG nvic))
        else if exception_index env = EXCP_IRQ then
          (case armv7m_nvic_acknowledge_irq p nvic of (irq, nvic1) \<Rightarrow>
             case v7m_enter xpsr lr (env\<lparr>v7m := (v7m env)\<lparr>exception := irq\<rparr>\<rparr>, mem) of (env1, mem1) \<Rightarrow>
               ret (env1, mem1, nvic1))
        else if exception_index env = EXCP_EXCEPTION_EXIT then ret (do_v7m_exception_exit p st)
        else raise Abort)"

section \<open>Classic exceptions\<close>

text \<open>Mode, vector offset, status bits to set, and offset of the return address.\<close>

record exc_target =
  new_mode :: u32
  vector :: u32
  exc_mask :: u32
  lr_offset :: u32

text \<open>
  The cases of \<open>do_interrupt\<close>: \<open>Inl\<close> the processor after a semihosting call, which returns at once;
  \<open>Inr\<close> the processor and the target of the exception.
\<close>

definition semihosted :: "'n platform \<Rightarrow> CPUARMState \<Rightarrow> (CPUARMState + CPUARMState \<times> exc_target) comp" where
  "semihosted p env = (case do_arm_semihosting p env of (r, env') \<Rightarrow> ret (Inl (set_reg 0 r env')))"

definition privileged :: "'a CPUARMState_scheme \<Rightarrow> bool" where
  "privileged env \<longleftrightarrow> uncached_cpsr env AND CPSR_M \<noteq> ARM_CPU_MODE_USR"

definition prefetch_abort :: exc_target where
  "prefetch_abort = \<lparr>new_mode = ARM_CPU_MODE_ABT, vector = 0x0C, exc_mask = CPSR_A OR CPSR_I, lr_offset = 4\<rparr>"

definition exception_target :: "'n platform \<Rightarrow> CPUARMState \<Rightarrow> (CPUARMState + CPUARMState \<times> exc_target) comp" where
  "exception_target p env =
     (if exception_index env = EXCP_UDEF then
        ret (Inr (env, \<lparr>new_mode = ARM_CPU_MODE_UND, vector = 0x04, exc_mask = CPSR_I, lr_offset = (if thumb env \<noteq> 0 then 2 else 4)\<rparr>))
      else if exception_index env = EXCP_SWI then
        (let imm = (if thumb env \<noteq> 0 then lduw_code p (regs env 15 - 2) AND 0xFF else ldl_code p (regs env 15 - 4) AND 0xFFFFFF) in
         if semihosting_enabled p \<and> (imm = 0x123456 \<and> thumb env = 0 \<or> imm = 0xAB \<and> thumb env \<noteq> 0) \<and> privileged env
         then semihosted p env
         else ret (Inr (env, \<lparr>new_mode = ARM_CPU_MODE_SVC, vector = 0x08, exc_mask = CPSR_I, lr_offset = 0\<rparr>)))
      else if exception_index env = EXCP_BKPT then
        (if thumb env \<noteq> 0 \<and> semihosting_enabled p \<and> lduw_code p (regs env 15) AND 0xFF = 0xAB \<and> privileged env
         then semihosted p (set_reg 15 (regs env 15 + 2) env)
         else ret (Inr (env, prefetch_abort)))
      else if exception_index env = EXCP_PREFETCH_ABORT then ret (Inr (env, prefetch_abort))
      else if exception_index env = EXCP_DATA_ABORT then
        ret (Inr (env, \<lparr>new_mode = ARM_CPU_MODE_ABT, vector = 0x10, exc_mask = CPSR_A OR CPSR_I, lr_offset = 8\<rparr>))
      else if exception_index env = EXCP_IRQ then
        ret (Inr (env, \<lparr>new_mode = ARM_CPU_MODE_IRQ, vector = 0x18, exc_mask = CPSR_A OR CPSR_I, lr_offset = 4\<rparr>))
      else if exception_index env = EXCP_FIQ then
        ret (Inr (env, \<lparr>new_mode = ARM_CPU_MODE_FIQ, vector = 0x1C, exc_mask = CPSR_A OR CPSR_I OR CPSR_F, lr_offset = 4\<rparr>))
      else if exception_index env = EXCP_SMC then
        (if semihosting_enabled p then raise Abort
         else ret (Inr (if uncached_cpsr env AND CPSR_M = ARM_CPU_MODE_SMC
                        then update_cp15 (\<lambda>c. c\<lparr>c1_secfg := c1_secfg c AND NOT 1\<rparr>) env else env,
              \<lparr>new_mode = ARM_CPU_MODE_SMC, vector = 0x08, exc_mask = CPSR_A OR CPSR_I OR CPSR_F,
               lr_offset = (if thumb env \<noteq> 0 then 2 else 0)\<rparr>)))
      else raise Abort)"

text \<open>The address of the vector: monitor, high, or relocated vectors.\<close>

definition vector_address :: "'a CPUARMState_scheme \<Rightarrow> exc_target \<Rightarrow> u32" where
  "vector_address env t =
     (if arm_feature env ARM_FEATURE_TRUSTZONE then
        (if new_mode t = ARM_CPU_MODE_SMC \<or> uncached_cpsr env AND CPSR_M = ARM_CPU_MODE_SMC
         then vector t + c12_mvbar (cp15 env)
         else if bit (c1_sys (cp15 env)) 13 then vector t + 0xFFFF0000
         else vector t + c12_vbar (cp15 env))
      else if bit (c1_sys (cp15 env)) 13 then vector t + 0xFFFF0000 else vector t)"

definition enter_exception :: "exc_target \<Rightarrow> 'a CPUARMState_scheme \<Rightarrow> 'a CPUARMState_scheme comp" where
  "enter_exception t env0 =
     (let addr = vector_address env0 t in
      comp_bind (switch_mode (new_mode t) env0) (\<lambda>env1.
        let env2 = env1\<lparr>spsr := cpsr_read env1\<rparr>;
            env3 = env2\<lparr>condexec_bits := 0,
                        uncached_cpsr := ((uncached_cpsr env2 AND NOT CPSR_M) OR new_mode t) OR exc_mask t\<rparr>;
            env4 = (if arm_feature env3 ARM_FEATURE_V4T
                    then env3\<lparr>thumb := of_bool (bit (c1_sys (cp15 env3)) 30)\<rparr> else env3);
            env5 = set_reg 15 addr (set_reg 14 (regs env4 15 + lr_offset t) env4)
        in ret (env5\<lparr>interrupt_request := interrupt_request env5 OR CPU_INTERRUPT_EXITTB\<rparr>)))"

definition do_interrupt :: "'n platform \<Rightarrow> 'n exc_state \<Rightarrow> 'n exc_state comp" where
  "do_interrupt p st =
     (case st of (env, mem, nvic) \<Rightarrow>
        if IS_M env then do_interrupt_v7m p st
        else comp_bind (exception_target p env) (\<lambda>r.
          case r of Inl env' \<Rightarrow> ret (env', mem, nvic)
          | Inr (env', t) \<Rightarrow> comp_bind (enter_exception t env') (\<lambda>env''. ret (env'', mem, nvic))))"

section \<open>System registers of the ARMv7-M profile\<close>

definition v7m_mrs :: "u32 \<Rightarrow> 'a CPUARMState_scheme \<Rightarrow> u32 comp" where
  "v7m_mrs reg env =
     (if reg = 0 then ret (xpsr_read env AND 0xF8000000)
      else if reg = 1 then ret (xpsr_read env AND 0xF80001FF)
      else if reg = 2 then ret (xpsr_read env AND 0xFF00FC00)
      else if reg = 3 then ret (xpsr_read env AND 0xFF00FDFF)
      else if reg = 5 then ret (xpsr_read env AND 0x000001FF)
      else if reg = 6 then ret (xpsr_read env AND 0x0700FC00)
      else if reg = 7 then ret (xpsr_read env AND 0x0700EDFF)
      else if reg = 8 then ret (if current_sp (v7m env) \<noteq> 0 then other_sp (v7m env) else regs env 13)
      else if reg = 9 then ret (if current_sp (v7m env) \<noteq> 0 then regs env 13 else other_sp (v7m env))
      else if reg = 16 then ret (of_bool (uncached_cpsr env AND CPSR_I \<noteq> 0))
      else if reg = 17 then ret (of_bool (uncached_cpsr env AND CPSR_F \<noteq> 0))
      else if reg = 18 \<or> reg = 19 then ret (basepri (v7m env))
      else if reg = 20 then ret (control (v7m env))
      else raise Abort)"

definition set_or_clear :: "u32 \<Rightarrow> bool \<Rightarrow> u32 \<Rightarrow> u32" where
  "set_or_clear m b w = (if b then w OR m else w AND NOT m)"

definition v7m_msr :: "u32 \<Rightarrow> u32 \<Rightarrow> 'a CPUARMState_scheme \<Rightarrow> 'a CPUARMState_scheme comp" where
  "v7m_msr reg val env =
     (if reg = 0 \<or> reg = 1 then ret (xpsr_write val 0xF8000000 env)
      else if reg = 2 \<or> reg = 3 then ret (xpsr_write val 0xFE00FC00 env)
      else if reg = 5 then ret env
      else if reg = 6 \<or> reg = 7 then ret (xpsr_write val 0x0600FC00 env)
      else if reg = 8 then
        ret (if current_sp (v7m env) \<noteq> 0 then env\<lparr>v7m := (v7m env)\<lparr>other_sp := val\<rparr>\<rparr> else set_reg 13 val env)
      else if reg = 9 then
        ret (if current_sp (v7m env) \<noteq> 0 then set_reg 13 val env else env\<lparr>v7m := (v7m env)\<lparr>other_sp := val\<rparr>\<rparr>)
      else if reg = 16 then ret (env\<lparr>uncached_cpsr := set_or_clear CPSR_I (bit val 0) (uncached_cpsr env)\<rparr>)
      else if reg = 17 then ret (env\<lparr>uncached_cpsr := set_or_clear CPSR_F (bit val 0) (uncached_cpsr env)\<rparr>)
      else if reg = 18 then ret (env\<lparr>v7m := (v7m env)\<lparr>basepri := val AND 0xFF\<rparr>\<rparr>)
      else if reg = 19 then
        (let v = val AND 0xFF in
         ret (if v \<noteq> 0 \<and> (v < basepri (v7m env) \<or> basepri (v7m env) = 0)
              then env\<lparr>v7m := (v7m env)\<lparr>basepri := v\<rparr>\<rparr> else env))
      else if reg = 20 then
        ret (switch_v7m_sp (if val AND 2 \<noteq> 0 then 1 else 0) (env\<lparr>v7m := (v7m env)\<lparr>control := val AND 3\<rparr>\<rparr>))
      else raise Abort)"

end
