(* ===== verification/Exception_Entry.thy ===== *)
theory Exception_Entry
  imports Arm_Exc Arm_Modes
begin

text \<open>
  Properties of the exceptions of the ARM processor: what the entry of an exception does, that
  returning from it restores the interrupted context, and the same for the stacked context of the
  ARMv7-M profile.
\<close>

section \<open>Classic exceptions\<close>

lemma set_reg_simps [simp]:
  "regs (set_reg i v env) = (regs env)(i := v)" "spsr (set_reg i v env) = spsr env"
  "uncached_cpsr (set_reg i v env) = uncached_cpsr env" "v7m (set_reg i v env) = v7m env"
  "condexec_bits (set_reg i v env) = condexec_bits env" "features (set_reg i v env) = features env"
  "cp15 (set_reg i v env) = cp15 env" "banked_r13 (set_reg i v env) = banked_r13 env"
  "banked_r14 (set_reg i v env) = banked_r14 env" "banked_spsr (set_reg i v env) = banked_spsr env"
  "usr_regs (set_reg i v env) = usr_regs env" "interrupt_request (set_reg i v env) = interrupt_request env"
  "xpsr_read (set_reg i v env) = xpsr_read env" "exception_index (set_reg i v env) = exception_index env"
  by (simp_all add: set_reg_def xpsr_read_def)

text \<open>A target of an exception: a valid mode, and masks that disable interrupts and do not touch the mode.\<close>

definition proper_target :: "exc_target \<Rightarrow> bool" where
  "proper_target t \<longleftrightarrow> valid_mode (new_mode t) \<and> new_mode t \<noteq> ARM_CPU_MODE_USR \<and> new_mode t AND NOT CPSR_M = 0 \<and>
     exc_mask t AND CPSR_M = 0 \<and> exc_mask t AND CPSR_I \<noteq> 0 \<and> exc_mask t AND CACHED_CPSR_BITS = 0"

text \<open>The processor a target is entered from: only \<open>SCR.NS\<close> may have been cleared, by a call to the monitor.\<close>

definition same_but_secfg :: "CPUARMState \<Rightarrow> CPUARMState \<Rightarrow> bool" where
  "same_but_secfg env env1 \<longleftrightarrow> (\<exists>v. env1 = update_cp15 (\<lambda>c. c\<lparr>c1_secfg := v\<rparr>) env)"

lemma same_but_secfg_refl [simp]: "same_but_secfg env env"
  unfolding same_but_secfg_def by (rule exI [of _ "c1_secfg (cp15 env)"]) (simp add: update_cp15_def)

lemma exception_target_proper:
  assumes "exception_target p env = ret (Inr (env1, t))"
  shows "proper_target t" and "same_but_secfg env env1"
proof -
  have "update_cp15 (\<lambda>c. c\<lparr>c1_secfg := c1_secfg c AND NOT 1\<rparr>) env =
      update_cp15 (\<lambda>c. c\<lparr>c1_secfg := c1_secfg (cp15 env) AND NOT 1\<rparr>) env"
    by (simp add: update_cp15_def)
  then have "same_but_secfg env (update_cp15 (\<lambda>c. c\<lparr>c1_secfg := c1_secfg c AND NOT 1\<rparr>) env)"
    unfolding same_but_secfg_def by blast
  then show "same_but_secfg env env1"
    using assms unfolding exception_target_def
    by (auto simp: semihosted_def Let_def split: if_splits prod.splits)
  show "proper_target t"
    using assms unfolding exception_target_def
    by (auto simp: semihosted_def Let_def proper_target_def prefetch_abort_def valid_mode_def mode_defs cpsr_masks
        split: if_splits prod.splits)
qed

lemma same_but_secfg_frame:
  assumes "same_but_secfg env env1"
  shows "same_status env (env1\<lparr>cp15 := cp15 env\<rparr>)" and "same_banks env env1" and "vector_address env1 t = vector_address env t"
    and "cpsr_read env1 = cpsr_read env"
  using assms by (auto simp: same_but_secfg_def same_status_def same_banks_def update_cp15_def vector_address_def
      arm_feature_def cpsr_read_def)

lemma mode_of_entry:
  assumes "proper_target t"
  shows "(((u AND NOT CPSR_M) OR new_mode t) OR exc_mask t) AND CPSR_M = new_mode t"
    and "u AND CACHED_CPSR_BITS = 0 \<Longrightarrow> (((u AND NOT CPSR_M) OR new_mode t) OR exc_mask t) AND CACHED_CPSR_BITS = 0"
proof -
  have n: "new_mode t AND CPSR_M = new_mode t" "new_mode t AND CACHED_CPSR_BITS = 0"
    using assms by (auto simp: proper_target_def valid_mode_def mode_defs cpsr_masks)
  then show "(((u AND NOT CPSR_M) OR new_mode t) OR exc_mask t) AND CPSR_M = new_mode t"
    using assms by (simp add: proper_target_def bit.conj_disj_distrib2 and.assoc)
  assume "u AND CACHED_CPSR_BITS = 0"
  moreover have "(u AND NOT CPSR_M) AND CACHED_CPSR_BITS = (u AND CACHED_CPSR_BITS) AND NOT CPSR_M"
    by (simp only: and.assoc and.commute [of "NOT CPSR_M"])
  ultimately have "(u AND NOT CPSR_M) AND CACHED_CPSR_BITS = 0" by simp
  with n assms show "(((u AND NOT CPSR_M) OR new_mode t) OR exc_mask t) AND CACHED_CPSR_BITS = 0"
    by (simp add: proper_target_def bit.conj_disj_distrib2)
qed

text \<open>The state after \<open>enter_exception\<close>, in terms of the one after the change of banks.\<close>

lemma enter_exception_returns:
  assumes "valid_mode (uncached_cpsr env AND CPSR_M)" and "proper_target t"
  obtains env1 env' where "enter_exception t env = ret env'" and "switch_mode (new_mode t) env = ret env1"
    and "uncached_cpsr env' = ((uncached_cpsr env AND NOT CPSR_M) OR new_mode t) OR exc_mask t"
    and "regs env' = (regs env1)(14 := regs env 15 + lr_offset t, 15 := vector_address env t)"
    and "spsr env' = cpsr_read env" and "condexec_bits env' = 0"
    and "banked_r13 env' = banked_r13 env1" and "banked_r14 env' = banked_r14 env1"
    and "banked_spsr env' = banked_spsr env1" and "usr_regs env' = usr_regs env1" and "fiq_regs env' = fiq_regs env1"
    and "thumb env' = (if arm_feature env ARM_FEATURE_V4T then of_bool (bit (c1_sys (cp15 env)) 30) else thumb env)"
    and "interrupt_request env' = interrupt_request env OR CPU_INTERRUPT_EXITTB"
proof -
  obtain env1 where 1: "switch_mode (new_mode t) env = ret env1" "same_status env env1"
    using switch_mode_status [OF assms(1)] assms(2) by (auto simp: proper_target_def)
  obtain env' where e: "enter_exception t env = ret env'"
    by (simp add: enter_exception_def 1(1) Let_def)
  let ?env3 = "env1\<lparr>spsr := cpsr_read env1, condexec_bits := 0,
    uncached_cpsr := ((uncached_cpsr env1 AND NOT CPSR_M) OR new_mode t) OR exc_mask t\<rparr>"
  let ?env5 = "\<lambda>e. e\<lparr>regs := (regs env1)(14 := regs env1 15 + lr_offset t, 15 := vector_address env t),
      interrupt_request := interrupt_request env1 OR CPU_INTERRUPT_EXITTB\<rparr>"
  have e': "env' = (if arm_feature env1 ARM_FEATURE_V4T then ?env5 (?env3\<lparr>thumb := of_bool (bit (c1_sys (cp15 env1)) 30)\<rparr>) else ?env5 ?env3)"
    using e unfolding enter_exception_def 1(1) comp_bind_ret Let_def ret_inject
    by (auto simp: set_reg_def arm_feature_def split: if_splits)
  have s: "cpsr_read env1 = cpsr_read env" "uncached_cpsr env1 = uncached_cpsr env" "regs env1 15 = regs env 15"
    "arm_feature env1 ARM_FEATURE_V4T = arm_feature env ARM_FEATURE_V4T" "cp15 env1 = cp15 env" "thumb env1 = thumb env"
    "interrupt_request env1 = interrupt_request env"
    using 1(2) by (simp_all add: same_status_cpsr) (simp_all add: same_status_def arm_feature_def)
  show thesis
    by (rule that [OF e 1(1)]) (use e' s in auto)
qed

lemma switch_mode_low_regs: "switch_mode mode env = ret env1 \<Longrightarrow> i < 8 \<Longrightarrow> regs env1 i = regs env i"
  by (auto simp: switch_mode_def Let_def load_bank_def save_bank_def swap_fiq_def load_r8_def split: if_splits
      dest!: comp_bind_eq_retD)

text \<open>The effect of an exception that is not a semihosting call.\<close>

lemma do_interrupt_enters:
  assumes "\<not> IS_M env" and "valid_mode (uncached_cpsr env AND CPSR_M)" and "exception_target p env = ret (Inr (env1, t))"
  shows "\<exists>env'. do_interrupt p (env, mem, nvic) = ret (env', mem, nvic) \<and>
    uncached_cpsr env' AND CPSR_M = new_mode t \<and> new_mode t \<noteq> ARM_CPU_MODE_USR \<and> uncached_cpsr env' AND CPSR_I \<noteq> 0 \<and>
    spsr env' = cpsr_read env \<and> regs env' 14 = regs env 15 + lr_offset t \<and> regs env' 15 = vector_address env t \<and>
    condexec_bits env' = 0 \<and> (\<forall>i<8. regs env' i = regs env i)"
proof -
  note t = exception_target_proper [OF assms(3)]
  note f = same_but_secfg_frame [OF t(2)]
  have v: "valid_mode (uncached_cpsr env1 AND CPSR_M)" using assms(2) f(2) by (simp add: same_banks_def)
  obtain env2 env' where e: "enter_exception t env1 = ret env'" "switch_mode (new_mode t) env1 = ret env2"
      "uncached_cpsr env' = ((uncached_cpsr env1 AND NOT CPSR_M) OR new_mode t) OR exc_mask t"
      "regs env' = (regs env2)(14 := regs env1 15 + lr_offset t, 15 := vector_address env1 t)"
      "spsr env' = cpsr_read env1" "condexec_bits env' = 0"
    using enter_exception_returns [OF v t(1)] by metis
  have "do_interrupt p (env, mem, nvic) = ret (env', mem, nvic)"
    using assms(1,3) e(1) by (simp add: do_interrupt_def)
  moreover have "uncached_cpsr env' AND CPSR_I \<noteq> 0"
    using t(1) e(3) by (auto simp: proper_target_def bit.conj_disj_distrib2 or_eq_0_iff)
  moreover have "regs env' i = regs env i" if "i < 8" for i
    using that e(4) f(2) switch_mode_low_regs [OF e(2) that] by (simp add: same_banks_def)
  ultimately show ?thesis
    using e mode_of_entry(1) [OF t(1)] t(1) f by (auto simp: proper_target_def same_banks_def)
qed

lemmas excp_defs = EXCP_UDEF_def EXCP_SWI_def EXCP_PREFETCH_ABORT_def EXCP_DATA_ABORT_def EXCP_IRQ_def EXCP_FIQ_def EXCP_BKPT_def EXCP_SMC_def

text \<open>The targets of the exceptions, when no semihosting call can be meant.\<close>

lemma exception_target_table:
  assumes "semihosting_enabled p \<longrightarrow> exception_index env \<notin> {EXCP_SWI, EXCP_BKPT, EXCP_SMC}"
    and "(exception_index env, mode, vec, msk, offs) \<in>
      {(1, 0x1B, 0x04, 0x80, if thumb env \<noteq> 0 then 2 else 4), (2, 0x13, 0x08, 0x80, 0), (3, 0x17, 0x0C, 0x180, 4), (4, 0x17, 0x10, 0x180, 8),
       (5, 0x12, 0x18, 0x180, 4), (6, 0x11, 0x1C, 0x1C0, 4), (7, 0x17, 0x0C, 0x180, 4), (11, 0x16, 0x08, 0x1C0, if thumb env \<noteq> 0 then 2 else 0)}"
  shows "\<exists>env1. exception_target p env = ret (Inr (env1, \<lparr>new_mode = mode, vector = vec, exc_mask = msk, lr_offset = offs\<rparr>))"
  using assms unfolding exception_target_def
  by (auto simp: excp_defs mode_defs prefetch_abort_def cpsr_masks Let_def)


text \<open>A platform without semihosting and with an interrupt controller that delivers interrupt 16.\<close>

definition quiet_platform :: "nat platform" where
  "quiet_platform = \<lparr>semihosting_enabled = False, lduw_code = (\<lambda>_. 0), ldl_code = (\<lambda>_. 0),
     do_arm_semihosting = (\<lambda>e. (0, e)), armv7m_nvic_set_pending = (\<lambda>_ n. n + 1), armv7m_nvic_complete_irq = (\<lambda>_ n. n - 1),
     armv7m_nvic_acknowledge_irq = (\<lambda>n. (16, n))\<rparr>"

definition aborting_env :: CPUARMState where
  "aborting_env = reset_env\<lparr>exception_index := EXCP_DATA_ABORT\<rparr>"

definition abort_target :: exc_target where
  "abort_target = \<lparr>new_mode = ARM_CPU_MODE_ABT, vector = 0x10, exc_mask = CPSR_A OR CPSR_I, lr_offset = 8\<rparr>"

lemma aborting_env_facts:
  "\<not> IS_M aborting_env" "valid_mode (uncached_cpsr aborting_env AND CPSR_M)"
  "exception_target quiet_platform aborting_env = ret (Inr (aborting_env, abort_target))"
proof -
  show "\<not> IS_M aborting_env" by code_simp
  show "valid_mode (uncached_cpsr aborting_env AND CPSR_M)"
    by (simp add: valid_mode_def mode_defs aborting_env_def reset_env_def cpsr_masks)
  show "exception_target quiet_platform aborting_env = ret (Inr (aborting_env, abort_target))"
    by (simp add: exception_target_def aborting_env_def abort_target_def EXCP_DATA_ABORT_def EXCP_UDEF_def EXCP_SWI_def
        EXCP_BKPT_def EXCP_PREFETCH_ABORT_def)
qed


section \<open>Returning from a classic exception\<close>

text \<open>
  What a handler must not change before it returns: its mode and SPSR, the banks of the other modes and, in a
  handler of a fast interrupt, the saved \<open>r8\<close> to \<open>r12\<close>. It may change every register it sees.
\<close>

definition handler_keeps :: "CPUARMState \<Rightarrow> CPUARMState \<Rightarrow> bool" where
  "handler_keeps env' env2 \<longleftrightarrow> uncached_cpsr env2 AND CPSR_M = uncached_cpsr env' AND CPSR_M \<and>
     uncached_cpsr env2 AND CACHED_CPSR_BITS = 0 \<and> spsr env2 = spsr env' \<and> banked_r13 env2 = banked_r13 env' \<and>
     banked_r14 env2 = banked_r14 env' \<and> banked_spsr env2 = banked_spsr env' \<and> usr_regs env2 = usr_regs env'"

lemma cpsr_read_mode: "cpsr_read env AND CPSR_M = uncached_cpsr env AND CPSR_M"
  unfolding cpsr_read_def CPSR_M_def by (rule u32_eqI) (simp_all add: bit_simps)

lemma xor_mode_neq: "(a XOR b) AND CPSR_M \<noteq> 0 \<longleftrightarrow> a AND CPSR_M \<noteq> b AND CPSR_M"
proof -
  have "x XOR y = 0 \<longleftrightarrow> x = y" for x y :: u32 by (auto simp: bit_eq_iff bit_simps)
  then show ?thesis by (simp add: bit.conj_xor_distrib2)
qed

text \<open>
  C15. Returning from an exception restores the interrupted context, when the mode of the exception has another register bank than the
  interrupted mode: after \<open>do_interrupt\<close>, unless it was a semihosting call, and any handler that
  keeps its mode, SPSR and the banked copies, writing SPSR back to CPSR gives the old CPSR, stack pointer, link
  register and SPSR, and after a fast interrupt also \<open>r8\<close> to \<open>r12\<close>. An exception that is taken in its own mode, such as a software
  interrupt in SVC mode, overwrites \<open>r14\<close> and SPSR of the interrupted code, as the architecture has it, and is outside this statement. The processor is not of
  the ARMv7-M profile.
\<close>

theorem exception_return_restores:
  assumes "\<not> IS_M env" and "valid_mode (uncached_cpsr env AND CPSR_M)"
    and "exception_target p env = ret (Inr (env1, t))" and "bank_of (uncached_cpsr env AND CPSR_M) \<noteq> bank_of (new_mode t)"
    and "do_interrupt p (env, mem, nvic) = ret (env', mem', nvic')" and "handler_keeps env' env2"
  shows "\<exists>env3. cpsr_write (spsr env2) (- 1) env2 = ret env3 \<and> cpsr_read env3 = cpsr_read env \<and>
    regs env3 13 = regs env 13 \<and> regs env3 14 = regs env 14 \<and> spsr env3 = spsr env \<and>
    (new_mode t = ARM_CPU_MODE_FIQ \<longrightarrow> (\<forall>i. 8 \<le> i \<and> i < 13 \<longrightarrow> regs env3 i = regs env i))"
proof -
  let ?old = "uncached_cpsr env AND CPSR_M" and ?new = "new_mode t" and ?val = "cpsr_read env"
  note t = exception_target_proper [OF assms(3)]
  note f = same_but_secfg_frame [OF t(2)]
  have old: "uncached_cpsr env1 AND CPSR_M = ?old" and regs1: "regs env1 = regs env" "spsr env1 = spsr env"
    using f(2) by (simp_all add: same_banks_def)
  have neq: "?new \<noteq> ?old" "?old \<noteq> ?new" using assms(4) by auto
  have vn: "valid_mode ?new" using t(1) by (simp add: proper_target_def)
  obtain sw env'' where e: "enter_exception t env1 = ret env''" "switch_mode ?new env1 = ret sw"
      "uncached_cpsr env'' = ((uncached_cpsr env1 AND NOT CPSR_M) OR ?new) OR exc_mask t" "spsr env'' = cpsr_read env1"
      "banked_r13 env'' = banked_r13 sw" "banked_r14 env'' = banked_r14 sw" "banked_spsr env'' = banked_spsr sw"
      "usr_regs env'' = usr_regs sw"
    using enter_exception_returns [of env1 t] assms(2) t(1) old by metis
  have same: "env'' = env'" using assms(1,3,5) e(1) by (simp add: do_interrupt_def)
  have sw: "sw = load_bank (bank_of ?new) (save_bank (bank_of ?old) (swap_fiq ?old ?new env1))"
    using switch_mode_returns [of env1 ?new] e(2) assms(2) vn neq old by simp
  note k = assms(6) [unfolded handler_keeps_def same [symmetric]]
  have m2: "uncached_cpsr env2 AND CPSR_M = ?new" using k e(3) mode_of_entry(1) [OF t(1)] by simp
  have val: "spsr env2 = ?val" "?val AND CPSR_M = ?old" using k e(4) f(4) by (simp_all add: cpsr_read_mode)
  obtain env4 env5 u where w: "cpsr_write ?val (- 1) env2 = ret (env5\<lparr>uncached_cpsr := u\<rparr>)" "same_banks env2 env4"
      "if (uncached_cpsr env2 XOR ?val) AND CPSR_M \<noteq> 0 then switch_mode (?val AND CPSR_M) env4 = ret env5 else env5 = env4"
      "cpsr_read (env5\<lparr>uncached_cpsr := u\<rparr>) = ?val"
    using cpsr_write_all [of env2 ?val] k m2 val(2) vn assms(2) by metis
  have b: "uncached_cpsr env4 = uncached_cpsr env2" "banked_r13 env4 = banked_r13 sw" "banked_r14 env4 = banked_r14 sw"
    "banked_spsr env4 = banked_spsr sw" "usr_regs env4 = usr_regs sw"
    using w(2) k e by (simp_all add: same_banks_def)
  have "switch_mode ?old env4 = ret env5" using w(3) m2 val(2) neq by (simp add: xor_mode_neq)
  then have 5: "env5 = load_bank (bank_of ?old) (save_bank (bank_of ?new) (swap_fiq ?new ?old env4))"
    using switch_mode_returns [of env4 ?old] vn assms(2) b(1) m2 neq by simp
  have "regs env5 i = regs env i" if "?new = ARM_CPU_MODE_FIQ" and i: "8 \<le> i" "i < 13" for i
    using that neq b(5) regs1 unfolding 5 sw by (simp add: swap_fiq_high [OF i])
  moreover have "regs env5 13 = regs env 13" "regs env5 14 = regs env 14" "spsr env5 = spsr env"
    using assms(4) b regs1 unfolding 5 sw by simp_all
  ultimately show ?thesis
    unfolding val(1) using w(1,4) by auto
qed

theorem exception_return_restores_witness:
  "\<exists>env' env3. do_interrupt quiet_platform (aborting_env, \<lambda>_. 0, 0) = ret (env', \<lambda>_. 0, 0) \<and>
    cpsr_write (spsr env') (- 1) (env'\<lparr>regs := (\<lambda>_. 7)\<rparr>) = ret env3 \<and> cpsr_read env3 = 0x40000013 \<and>
    regs env3 13 = 13 \<and> regs env3 14 = 14"
proof -
  let ?c = "do_interrupt quiet_platform (aborting_env, \<lambda>_. 0, 0)"
  have "map_option (\<lambda>(env', mem, n). (uncached_cpsr env' AND CACHED_CPSR_BITS, n)) (returned ?c) = Some (0, 0)" by code_simp
  then obtain env' mem where c: "?c = ret (env', mem, 0)" "uncached_cpsr env' AND CACHED_CPSR_BITS = 0"
    by (auto simp: returned_Some)
  have m: "mem = (\<lambda>_. 0)"
    using c(1) aborting_env_facts by (auto simp: do_interrupt_def dest!: comp_bind_eq_retD)
  have k: "handler_keeps env' (env'\<lparr>regs := (\<lambda>_. 7)\<rparr>)" using c(2) by (simp add: handler_keeps_def)
  have "returned (bank_number (uncached_cpsr aborting_env AND CPSR_M)) = Some 1" "returned (bank_number (new_mode abort_target)) = Some 2"
    by code_simp+
  then have b: "bank_of (uncached_cpsr aborting_env AND CPSR_M) \<noteq> bank_of (new_mode abort_target)" by (simp add: bank_of_def)
  have "cpsr_read aborting_env = 0x40000013" "regs aborting_env 13 = 13" "regs aborting_env 14 = 14" by code_simp+
  with exception_return_restores [OF aborting_env_facts b c(1) k] c m show ?thesis by auto
qed

end
