(* ===== verification/V7m_Stack.thy ===== *)
theory V7m_Stack
  imports Exception_Entry
begin

text \<open>
  The stacked context of the ARMv7-M profile: loads and stores of physical memory, the frame an
  interrupt pushes, its removal by the exception exit, and the two stack pointers.
\<close>

section \<open>Words in memory\<close>

lemma ldl_stl_same: "ldl_phys (stl_phys a v mem) a = v"
proof -
  have "a + 1 \<noteq> a + 2" "a + 1 \<noteq> a + 3" "a + 2 \<noteq> a + 3" "a \<noteq> a + 1" "a \<noteq> a + 2" "a \<noteq> a + 3" by simp_all
  then show ?thesis by (simp add: ldl_phys_def stl_phys_def u32_of_bytes_inverse)
qed

lemma far_addresses:
  fixes a b :: u32
  assumes "4 \<le> a - b" and "4 \<le> b - a"
  shows "b + i = a + j \<Longrightarrow> i < 4 \<Longrightarrow> j < 4 \<Longrightarrow> False"
proof -
  assume eq: "b + i = a + j" and i: "i < 4" "j < 4"
  then have d: "a - b = i - j" "b - a = j - i" by (simp_all add: algebra_simps)
  show False
  proof (cases "j \<le> i")
    case True
    then have "i - j \<le> i" by (simp add: word_sub_le)
    with assms(1) i(1) show False unfolding d(1) by (metis le_less_trans not_le order_trans)
  next
    case False
    then have "j - i \<le> j" by (simp add: word_sub_le)
    with assms(2) i(2) show False unfolding d(2) by (metis le_less_trans not_le order_trans)
  qed
qed

lemma ldl_stl_other:
  assumes "4 \<le> a - b" and "4 \<le> b - a"
  shows "ldl_phys (stl_phys a v mem) b = ldl_phys mem b"
proof -
  note f = far_addresses [OF assms]
  have "stl_phys a v mem (b + i) = mem (b + i)" if "i < 4" for i
    using f [of i 0] f [of i 1] f [of i 2] f [of i 3] that by (auto simp: stl_phys_def)
  from this [of 0] this [of 1] this [of 2] this [of 3] show ?thesis by (simp add: ldl_phys_def)
qed

text \<open>Words at offsets from a stack pointer.\<close>

lemma ldl_stl_offset:
  "4 \<le> y - x \<Longrightarrow> 4 \<le> x - y \<Longrightarrow> ldl_phys (stl_phys (s - x) v mem) (s - y) = ldl_phys mem (s - y)"
  by (rule ldl_stl_other) (simp_all add: algebra_simps)

lemma sp_up: "(s :: u32) - x + 4 = s - (x - 4)" and sp_down: "(s :: u32) - x - y = s - (x + y)"
  by (simp_all add: algebra_simps)

section \<open>The frame\<close>

text \<open>What eight pushes leave in memory: the values at the offsets 4 to 32 below the old stack pointer.\<close>

lemma push_frame:
  assumes "regs env 13 = s"
  shows "\<exists>mem'. fold v7m_push [v1, v2, v3, v4, v5, v6, v7, v8] (env, mem) = (set_reg 13 (s - 32) env, mem') \<and>
    ldl_phys mem' (s - 4) = v1 \<and> ldl_phys mem' (s - 8) = v2 \<and> ldl_phys mem' (s - 12) = v3 \<and> ldl_phys mem' (s - 16) = v4 \<and>
    ldl_phys mem' (s - 20) = v5 \<and> ldl_phys mem' (s - 24) = v6 \<and> ldl_phys mem' (s - 28) = v7 \<and> ldl_phys mem' (s - 32) = v8"
  using assms by (simp add: v7m_push_def Let_def set_reg_def sp_down ldl_stl_offset ldl_stl_same)

lemma pop_frame:
  assumes "regs env 13 = s - 32"
  shows "fold (v7m_pop_reg mem) [0, 1, 2, 3, 12, 14, 15] env =
    env\<lparr>regs := (regs env)(13 := s - 4, 0 := ldl_phys mem (s - 32), 1 := ldl_phys mem (s - 28), 2 := ldl_phys mem (s - 24),
      3 := ldl_phys mem (s - 20), 12 := ldl_phys mem (s - 16), 14 := ldl_phys mem (s - 12), 15 := ldl_phys mem (s - 8))\<rparr>"
  using assms by (simp add: v7m_pop_reg_def v7m_pop_def set_reg_def sp_up fun_upd_twist)

text \<open>The stack pointer with bit 2 cleared, where the frame ends.\<close>

definition frame_top :: "u32 \<Rightarrow> u32" where
  "frame_top sp = (if sp AND 4 \<noteq> 0 then sp - 4 else sp)"

lemma frame_top_or: "sp AND 4 \<noteq> 0 \<Longrightarrow> frame_top sp OR 4 = sp"
proof -
  assume b: "sp AND 4 \<noteq> 0"
  then have "bit sp 2" using and_single_bit(1) [of sp 2] by simp
  then have o: "sp = (sp AND NOT 4) OR 4"
    by (intro u32_eqI) (simp_all add: bit_simps)
  have "(sp AND NOT 4) AND 4 = 0" by (simp add: and.assoc)
  then have "(sp AND NOT 4) OR 4 = (sp AND NOT 4) + 4" by (simp add: disjunctive_add_eq_or)
  with o have "sp - 4 = sp AND NOT 4" by (metis add_diff_cancel_right')
  then show "frame_top sp OR 4 = sp" using b o by (simp add: frame_top_def)
qed

definition stacked_xpsr :: "u32 \<Rightarrow> u32 \<Rightarrow> u32" where
  "stacked_xpsr sp xpsr = (if sp AND 4 \<noteq> 0 then xpsr OR 0x200 else xpsr)"

text \<open>The frame of an interrupted context in memory.\<close>

definition frame_of :: "CPUARMState \<Rightarrow> u32 \<Rightarrow> phys_mem \<Rightarrow> bool" where
  "frame_of env xpsr mem \<longleftrightarrow> (let a = frame_top (regs env 13) in
     ldl_phys mem (a - 4) = stacked_xpsr (regs env 13) xpsr \<and> ldl_phys mem (a - 8) = regs env 15 \<and>
     ldl_phys mem (a - 12) = regs env 14 \<and> ldl_phys mem (a - 16) = regs env 12 \<and> ldl_phys mem (a - 20) = regs env 3 \<and>
     ldl_phys mem (a - 24) = regs env 2 \<and> ldl_phys mem (a - 28) = regs env 1 \<and> ldl_phys mem (a - 32) = regs env 0)"

lemma v7m_enter_frame:
  assumes "v7m_enter xpsr lr (env, mem) = (env1, mem1)"
  shows "frame_of env xpsr mem1" and "regs env1 14 = lr" and "current_sp (v7m env1) = 0"
    and "condexec_bits env1 = condexec_bits env"
    and "(if current_sp (v7m env) = 0 then regs env1 13 else other_sp (v7m env1)) = frame_top (regs env 13) - 32"
proof -
  let ?a = "frame_top (regs env 13)" and ?x = "stacked_xpsr (regs env 13) xpsr"
  let ?env1 = "if regs env 13 AND 4 \<noteq> 0 then set_reg 13 (regs env 13 - 4) env else env"
  have a: "regs ?env1 13 = ?a" and r: "i \<noteq> 13 \<Longrightarrow> regs ?env1 i = regs env i" for i
    by (simp_all add: frame_top_def)
  obtain mem' where f: "fold v7m_push [?x, regs ?env1 15, regs ?env1 14, regs ?env1 12, regs ?env1 3, regs ?env1 2,
        regs ?env1 1, regs ?env1 0] (?env1, mem) = (set_reg 13 (?a - 32) ?env1, mem')"
      "ldl_phys mem' (?a - 4) = ?x" "ldl_phys mem' (?a - 8) = regs ?env1 15" "ldl_phys mem' (?a - 12) = regs ?env1 14"
      "ldl_phys mem' (?a - 16) = regs ?env1 12" "ldl_phys mem' (?a - 20) = regs ?env1 3" "ldl_phys mem' (?a - 24) = regs ?env1 2"
      "ldl_phys mem' (?a - 28) = regs ?env1 1" "ldl_phys mem' (?a - 32) = regs ?env1 0"
    using push_frame [OF a] by blast
  let ?e3 = "switch_v7m_sp 0 (set_reg 13 (?a - 32) ?env1)"
  let ?e4 = "set_reg 14 lr (?e3\<lparr>uncached_cpsr := uncached_cpsr ?e3 AND NOT CPSR_IT\<rparr>)"
  let ?addr = "ldl_phys mem' (vecbase (v7m ?e4) + exception (v7m ?e4) * 4)"
  have e: "env1 = (set_reg 15 (?addr AND 0xFFFFFFFE) ?e4)\<lparr>thumb := ?addr AND 1\<rparr>" "mem1 = mem'"
    using assms unfolding v7m_enter_def prod.case Let_def stacked_xpsr_def [symmetric] f(1) prod.inject by blast+
  show "frame_of env xpsr mem1" unfolding e(2) frame_of_def Let_def using f r by simp
  show "regs env1 14 = lr" "current_sp (v7m env1) = 0" "condexec_bits env1 = condexec_bits env"
    "(if current_sp (v7m env) = 0 then regs env1 13 else other_sp (v7m env1)) = ?a - 32"
    unfolding e(1) by (simp_all add: switch_v7m_sp_def)
qed

lemma xpsr_write_read: "xpsr_read (xpsr_write val 0xFFFFFDFF env) = val AND 0xFF00FDFF"
proof -
  have m: "0xFFFFFDFF AND CPSR_NZCV \<noteq> 0" "0xFFFFFDFF AND CPSR_Q \<noteq> 0" "0xFFFFFDFF AND (0x1000000 :: u32) \<noteq> 0"
    "0xFFFFFDFF AND CPSR_IT_0_1 \<noteq> 0" "0xFFFFFDFF AND CPSR_IT_2_7 \<noteq> 0" "0xFFFFFDFF AND (0x1FF :: u32) \<noteq> 0"
    by (simp_all add: cpsr_masks)
  have t: "val AND 0x1000000 \<noteq> 0 \<longleftrightarrow> bit val 24" using and_single_bit(1) [of val 24] by simp
  let ?e = "xpsr_write val 0xFFFFFDFF env"
  have e: "?e = env\<lparr>ZF := NOT val AND CPSR_Z, NF := val, CF := drop_bit 29 val AND 1, VF := push_bit 3 val AND 0x80000000,
      QF := of_bool (val AND CPSR_Q \<noteq> 0), thumb := of_bool (val AND 0x1000000 \<noteq> 0),
      condexec_bits := ((condexec_bits env AND NOT 3 OR drop_bit 25 val AND 3) AND 3) OR (drop_bit 8 val AND 0xFC),
      v7m := (v7m env)\<lparr>exception := val AND 0x1FF\<rparr>\<rparr>"
    unfolding xpsr_write_def write_nzcv_def write_q_def write_it_def Let_def if_P [OF m(1)] if_P [OF m(2)] if_P [OF m(3)]
      if_P [OF m(4)] if_P [OF m(5)] if_P [OF m(6)] by simp
  have f: "NF ?e = val" "ZF ?e = NOT val AND CPSR_Z" "CF ?e = drop_bit 29 val AND 1" "VF ?e = push_bit 3 val AND 0x80000000"
    "QF ?e = of_bool (bit val 27)" "thumb ?e = of_bool (bit val 24)" "exception (v7m ?e) = val AND 0x1FF"
    "condexec_bits ?e = ((condexec_bits env AND NOT 3 OR drop_bit 25 val AND 3) AND 3) OR (drop_bit 8 val AND 0xFC)"
    unfolding e by (simp_all only: test_bits t) simp_all
  show ?thesis
    unfolding xpsr_read_def f test_bits by (rule u32_eqI) (simp_all add: bit_simps)
qed

lemma xpsr_write_frame [simp]:
  "regs (xpsr_write val m env) = regs env" "current_sp (v7m (xpsr_write val m env)) = current_sp (v7m env)"
  by (simp_all add: xpsr_write_def write_nzcv_def write_q_def write_it_def Let_def)

section \<open>Interrupt and return\<close>

lemma exception_exit_restores:
  assumes "frame_of env xpsr mem" and "xpsr AND 0xFF00FDFF = xpsr"
    and "regs (switch_v7m_sp (if regs env2 15 AND 4 \<noteq> 0 then 1 else 0) env2) 13 = frame_top (regs env 13) - 32"
    and "do_v7m_exception_exit p (env2, mem, nvic) = (env3, mem3, nvic3)"
  shows "\<forall>i\<in>{0, 1, 2, 3, 12, 13, 14, 15}. regs env3 i = regs env i" and "xpsr_read env3 = xpsr" and "mem3 = mem"
    and "current_sp (v7m env3) = (if regs env2 15 AND 4 \<noteq> 0 then 1 else 0)"
proof -
  let ?a = "frame_top (regs env 13)" and ?x = "stacked_xpsr (regs env 13) xpsr"
  let ?e1 = "switch_v7m_sp (if regs env2 15 AND 4 \<noteq> 0 then 1 else 0) env2"
  let ?r = "(regs ?e1)(13 := ?a - 4, 0 := regs env 0, 1 := regs env 1, 2 := regs env 2, 3 := regs env 3,
    12 := regs env 12, 14 := regs env 14, 15 := regs env 15)"
  have pop: "fold (v7m_pop_reg mem) [0, 1, 2, 3, 12, 14, 15] ?e1 = ?e1\<lparr>regs := ?r\<rparr>"
    using pop_frame [OF assms(3), of mem] assms(1) by (simp add: frame_of_def Let_def)
  have x: "v7m_pop mem (?e1\<lparr>regs := ?r\<rparr>) = (?x, ?e1\<lparr>regs := ?r(13 := ?a)\<rparr>)"
    using assms(1) by (simp add: v7m_pop_def set_reg_def frame_of_def Let_def)
  let ?e4 = "xpsr_write ?x 0xFFFFFDFF (?e1\<lparr>regs := ?r(13 := ?a)\<rparr>)"
  have e3: "env3 = (if ?x AND 0x200 \<noteq> 0 then set_reg 13 (regs ?e4 13 OR 4) ?e4 else ?e4)" "mem3 = mem"
    using assms(4) unfolding do_v7m_exception_exit_def prod.case Let_def pop x by auto
  have m200: "?x AND 0x200 \<noteq> 0 \<longleftrightarrow> regs env 13 AND 4 \<noteq> 0" "?x AND 0xFF00FDFF = xpsr"
  proof -
    have "xpsr AND 0x200 = (xpsr AND 0xFF00FDFF) AND 0x200" by (simp only: assms(2))
    then have "xpsr AND 0x200 = 0" by (simp add: and.assoc)
    then show "?x AND 0x200 \<noteq> 0 \<longleftrightarrow> regs env 13 AND 4 \<noteq> 0" by (simp add: stacked_xpsr_def bit.conj_disj_distrib2)
    show "?x AND 0xFF00FDFF = xpsr" using assms(2) by (simp add: stacked_xpsr_def bit.conj_disj_distrib2)
  qed
  show "mem3 = mem" by (fact e3(2))
  show "xpsr_read env3 = xpsr" unfolding e3(1) using m200(2) by (simp add: xpsr_write_read)
  show "current_sp (v7m env3) = (if regs env2 15 AND 4 \<noteq> 0 then 1 else 0)"
    unfolding e3(1) by (simp add: switch_v7m_sp_def)
  have "regs env3 13 = regs env 13"
    unfolding e3(1) m200(1) using frame_top_or [of "regs env 13"] by (simp add: frame_top_def)
  then show "\<forall>i\<in>{0, 1, 2, 3, 12, 13, 14, 15}. regs env3 i = regs env i"
    unfolding e3(1) by simp
qed

text \<open>What a handler must keep before it returns by branching to the value of \<open>r14\<close> at entry.\<close>

definition v7m_handler_keeps :: "CPUARMState \<Rightarrow> phys_mem \<Rightarrow> u32 \<Rightarrow> CPUARMState \<Rightarrow> phys_mem \<Rightarrow> bool" where
  "v7m_handler_keeps env1 mem1 a env2 mem2 \<longleftrightarrow> exception_index env2 = EXCP_EXCEPTION_EXIT \<and>
     regs env2 13 = regs env1 13 \<and> regs env2 15 = regs env1 14 \<and> other_sp (v7m env2) = other_sp (v7m env1) \<and>
     current_sp (v7m env2) = current_sp (v7m env1) \<and>
     (\<forall>d\<in>{4, 8, 12, 16, 20, 24, 28, 32}. ldl_phys mem2 (a - d) = ldl_phys mem1 (a - d))"

lemma interrupt_index_neq:
  "EXCP_IRQ \<noteq> EXCP_UDEF" "EXCP_IRQ \<noteq> EXCP_SWI" "EXCP_IRQ \<noteq> EXCP_PREFETCH_ABORT" "EXCP_IRQ \<noteq> EXCP_DATA_ABORT" "EXCP_IRQ \<noteq> EXCP_BKPT"
  "EXCP_EXCEPTION_EXIT \<noteq> EXCP_UDEF" "EXCP_EXCEPTION_EXIT \<noteq> EXCP_SWI"
  "EXCP_EXCEPTION_EXIT \<noteq> EXCP_PREFETCH_ABORT" "EXCP_EXCEPTION_EXIT \<noteq> EXCP_DATA_ABORT" "EXCP_EXCEPTION_EXIT \<noteq> EXCP_BKPT"
  "EXCP_EXCEPTION_EXIT \<noteq> EXCP_IRQ"
  by (simp_all add: EXCP_IRQ_def EXCP_UDEF_def EXCP_SWI_def EXCP_PREFETCH_ABORT_def EXCP_DATA_ABORT_def EXCP_BKPT_def
      EXCP_EXCEPTION_EXIT_def)

lemma do_interrupt_v7m_irq:
  assumes "exception_index env = EXCP_IRQ" and "do_interrupt_v7m p (env, mem, nvic) = ret (env1, mem1, nvic1)"
  obtains irq where "v7m_enter (xpsr_read env) (v7m_return_code env) (env\<lparr>v7m := (v7m env)\<lparr>exception := irq\<rparr>\<rparr>, mem) = (env1, mem1)"
proof -
  obtain irq n where a: "armv7m_nvic_acknowledge_irq p nvic = (irq, n)" by fastforce
  obtain e m where v: "v7m_enter (xpsr_read env) (v7m_return_code env) (env\<lparr>v7m := (v7m env)\<lparr>exception := irq\<rparr>\<rparr>, mem) = (e, m)"
    by fastforce
  show thesis
    by (rule that [of irq]) (use assms(2) v in \<open>simp add: do_interrupt_v7m_def Let_def assms(1) interrupt_index_neq a\<close>)
qed

lemma return_code_stack: "v7m_return_code env AND 4 \<noteq> 0 \<longleftrightarrow> current_sp (v7m env) \<noteq> 0"
  by (simp add: v7m_return_code_def bit.conj_disj_distrib2)

text \<open>
  C19. An interrupt of an ARMv7-M processor followed by its handler's return is transparent: whichever stack was in use and
  however the stack pointer was aligned, the exit pops what the entry pushed. The registers the
  hardware stacks, the stack pointer, the xPSR and the choice of stack are restored, provided the handler keeps the frame and the
  stack pointers.
\<close>

theorem v7m_interrupt_return:
  assumes "exception_index env = EXCP_IRQ" and "current_sp (v7m env) \<in> {0, 1}" and "xpsr_read env AND 0xFF00FDFF = xpsr_read env"
    and "do_interrupt_v7m p (env, mem, nvic) = ret (env1, mem1, nvic1)"
    and "v7m_handler_keeps env1 mem1 (frame_top (regs env 13)) env2 mem2"
    and "do_interrupt_v7m p (env2, mem2, nvic2) = ret (env3, mem3, nvic3)"
  shows "(\<forall>i\<in>{0, 1, 2, 3, 12, 13, 14, 15}. regs env3 i = regs env i) \<and> xpsr_read env3 = xpsr_read env \<and> mem3 = mem2 \<and>
    current_sp (v7m env3) = current_sp (v7m env)"
proof -
  let ?a = "frame_top (regs env 13)"
  obtain irq where "v7m_enter (xpsr_read env) (v7m_return_code env) (env\<lparr>v7m := (v7m env)\<lparr>exception := irq\<rparr>\<rparr>, mem) = (env1, mem1)"
    using do_interrupt_v7m_irq [OF assms(1,4)] by blast
  note f = v7m_enter_frame [OF this, simplified]
  have k: "regs env2 13 = regs env1 13" "regs env2 15 = v7m_return_code env" "other_sp (v7m env2) = other_sp (v7m env1)"
    "current_sp (v7m env2) = 0" "exception_index env2 = EXCP_EXCEPTION_EXIT"
    using assms(5) f(2,3) by (simp_all add: v7m_handler_keeps_def)
  have 1: "frame_of env (xpsr_read env) mem2"
    using f(1) assms(5) by (simp add: v7m_handler_keeps_def frame_of_def Let_def)
  have 2: "regs (switch_v7m_sp (if regs env2 15 AND 4 \<noteq> 0 then 1 else 0) env2) 13 = ?a - 32"
    using assms(2) f(5) k return_code_stack [of env] by (auto simp: switch_v7m_sp_def)
  have 3: "do_v7m_exception_exit p (env2, mem2, nvic2) = (env3, mem3, nvic3)"
    using assms(6) k(5) by (simp add: do_interrupt_v7m_def Let_def interrupt_index_neq)
  show ?thesis
    using exception_exit_restores [OF 1 assms(3) 2 3] assms(2) k(2) return_code_stack [of env] by auto
qed

text \<open>
  The entry of an interrupt on an ARMv7-M processor does not clear the IT state, which is kept in
  \<open>condexec_bits\<close>: the handler starts in the middle of the interrupted IT block.
\<close>

theorem v7m_entry_keeps_it_state:
  assumes "exception_index env = EXCP_IRQ" and "do_interrupt_v7m p (env, mem, nvic) = ret (env1, mem1, nvic1)"
  shows "condexec_bits env1 = condexec_bits env"
proof -
  obtain irq where "v7m_enter (xpsr_read env) (v7m_return_code env) (env\<lparr>v7m := (v7m env)\<lparr>exception := irq\<rparr>\<rparr>, mem) = (env1, mem1)"
    using do_interrupt_v7m_irq [OF assms] by blast
  from v7m_enter_frame(4) [OF this] show ?thesis by simp
qed

section \<open>The two stack pointers\<close>

text \<open>
  The main and the process stack pointer are independent of the stack in use: a write to one is read
  back and leaves the other alone, and a write to \<open>CONTROL\<close>, which selects the stack in use, keeps both.
\<close>

theorem v7m_stack_pointers:
  assumes "current_sp (v7m env) \<in> {0, 1}"
  shows "\<exists>e8 e9 e20. v7m_msr 8 val env = ret e8 \<and> v7m_mrs 8 e8 = ret val \<and> v7m_mrs 9 e8 = v7m_mrs 9 env \<and>
    v7m_msr 9 val env = ret e9 \<and> v7m_mrs 9 e9 = ret val \<and> v7m_mrs 8 e9 = v7m_mrs 8 env \<and>
    v7m_msr 20 val env = ret e20 \<and> v7m_mrs 8 e20 = v7m_mrs 8 env \<and> v7m_mrs 9 e20 = v7m_mrs 9 env \<and>
    v7m_mrs 20 e20 = ret (val AND 3) \<and> current_sp (v7m e20) = (if val AND 2 \<noteq> 0 then 1 else 0)"
  using assms by (auto simp: v7m_msr_def v7m_mrs_def switch_v7m_sp_def)

section \<open>Examples\<close>

definition m3_env :: CPUARMState where
  "m3_env = reset_env\<lparr>exception_index := EXCP_IRQ, thumb := 1, condexec_bits := 0x18, v7m := zero_v7m\<lparr>other_sp := 0x2000, current_sp := 1\<rparr>,
     regs := (\<lambda>i. if i = 13 then 0x1004 else of_nat i)\<rparr>"

theorem v7m_entry_keeps_it_state_witness:
  "\<exists>env1 mem1 n1. do_interrupt_v7m quiet_platform (m3_env, \<lambda>_. 0, 0) = ret (env1, mem1, n1) \<and> condexec_bits env1 = 0x18"
proof -
  let ?c = "do_interrupt_v7m quiet_platform (m3_env, \<lambda>_. 0, 0)"
  have "map_option (snd \<circ> snd) (returned ?c) = Some 0" by code_simp
  then obtain env1 mem1 where c: "?c = ret (env1, mem1, 0)" by (auto simp: returned_Some)
  have "exception_index m3_env = EXCP_IRQ" "condexec_bits m3_env = 0x18" by (simp_all add: m3_env_def)
  with v7m_entry_keeps_it_state [OF _ c] c show ?thesis by auto
qed

theorem v7m_interrupt_return_witness:
  "\<exists>env1 mem1 env3. do_interrupt_v7m quiet_platform (m3_env, \<lambda>_. 0, 0) = ret (env1, mem1, 0) \<and>
    do_interrupt_v7m quiet_platform (env1\<lparr>exception_index := EXCP_EXCEPTION_EXIT,
      regs := (\<lambda>i. if i = 13 then regs env1 13 else if i = 15 then regs env1 14 else 0)\<rparr>, mem1, 0) = ret (env3, mem1, 0) \<and>
    regs env3 0 = 0 \<and> regs env3 3 = 3 \<and> regs env3 13 = 0x1004 \<and> regs env3 15 = 15 \<and> xpsr_read env3 = xpsr_read m3_env"
proof -
  let ?c = "do_interrupt_v7m quiet_platform (m3_env, \<lambda>_. 0, 0)"
  let ?h = "\<lambda>env1. env1\<lparr>exception_index := EXCP_EXCEPTION_EXIT,
      regs := (\<lambda>i. if i = 13 then regs env1 13 else if i = 15 then regs env1 14 else 0)\<rparr>"
  have "map_option (snd \<circ> snd) (returned ?c) = Some 0" by code_simp
  then obtain env1 mem1 where c: "?c = ret (env1, mem1, 0)" by (auto simp: returned_Some)
  have "map_option (\<lambda>(env1, mem1, n). map_option (snd \<circ> snd) (returned (do_interrupt_v7m quiet_platform (?h env1, mem1, n))))
      (returned ?c) = Some (Some 0)" by code_simp
  then obtain env3 mem3 where d: "do_interrupt_v7m quiet_platform (?h env1, mem1, 0) = ret (env3, mem3, 0)"
    unfolding c by (auto simp: returned_Some returned_def ret_def split: option.splits sum.splits)
  have "exception_index m3_env = EXCP_IRQ" "current_sp (v7m m3_env) \<in> {0, 1}" "xpsr_read m3_env AND 0xFF00FDFF = xpsr_read m3_env"
    "regs m3_env 0 = 0" "regs m3_env 3 = 3" "regs m3_env 13 = 0x1004" "regs m3_env 15 = 15" by code_simp+
  moreover have "v7m_handler_keeps env1 mem1 (frame_top (regs m3_env 13)) (?h env1) mem1" by (simp add: v7m_handler_keeps_def)
  ultimately show ?thesis
    using v7m_interrupt_return [of m3_env quiet_platform "\<lambda>_. 0" 0 env1 mem1 0 "?h env1" mem1 0 env3 mem3 0] c d by auto
qed

theorem v7m_stack_pointers_witness:
  "\<exists>e8. v7m_msr 8 0x3000 m3_env = ret e8 \<and> v7m_mrs 8 e8 = ret 0x3000 \<and> v7m_mrs 9 e8 = v7m_mrs 9 m3_env"
  using v7m_stack_pointers [of m3_env "0x3000"] by (auto simp: m3_env_def)

end
