(* ===== verification/Traced_Machine.thy ===== *)
theory Traced_Machine
  imports Trace_File Mmu_Safety
begin

text \<open>
  The traced machine: the first processor, physical memory and the tracer, as \<open>src/tlb_trace.c\<close> is
  compiled into the emulator (\<open>USE_QEMU\<close>). The argument of the page-table callback is the processor;
  physical memory, which the callback reads through \<open>ldl_phys\<close>, is passed along with it.
\<close>

section \<open>State\<close>

type_synonym pte_arg = "phys_mem \<times> CPUARMState"

record traced =
  cpu :: CPUARMState
  ram :: phys_mem
  tracer :: "pte_arg trace_state"
  cpu_index :: u32
  tb_flush_count :: nat

definition update_cpu :: "(CPUARMState \<Rightarrow> CPUARMState) \<Rightarrow> traced \<Rightarrow> traced" where
  "update_cpu f w = w\<lparr>cpu := f (cpu w)\<rparr>"

definition with_tracer :: "(pte_arg trace_state \<Rightarrow> pte_arg trace_state comp) \<Rightarrow> traced \<Rightarrow> traced comp" where
  "with_tracer f w = comp_bind (f (tracer w)) (\<lambda>s. ret (w\<lparr>tracer := s\<rparr>))"

text \<open>
  The generated code is not part of the state; what is left of flushing it is the jump cache of the
  processor and the counter.
\<close>

definition tb_flush :: "traced \<Rightarrow> traced" where
  "tb_flush w = update_cpu (\<lambda>e. e\<lparr>tb_jmp_cache := (\<lambda>_. None)\<rparr>) (w\<lparr>tb_flush_count := tb_flush_count w + 1\<rparr>)"

section \<open>The tracer in the emulator\<close>

definition pte_callback :: "pte_arg \<Rightarrow> u32 \<Rightarrow> pte_result" where
  "pte_callback arg addr = (case arg of (mem, env) \<Rightarrow> get_ptes mem env addr)"

definition tlbtrace_refmem_qemu :: "u32 \<Rightarrow> bool \<Rightarrow> traced \<Rightarrow> traced comp" where
  "tlbtrace_refmem_qemu addr ins w =
     (if \<not> started (tracer w) then ret w
      else if uncached_cpsr (cpu w) AND CPSR_M \<noteq> ARM_CPU_MODE_USR then ret w
      else let a = c13_context (cp15 (cpu w)) AND 0xFF
           in with_tracer (tlbtrace_refmem addr a ins (ram w, cpu w)) w)"

definition qemu_trace_pc_helper :: "u32 \<Rightarrow> traced \<Rightarrow> traced comp" where
  "qemu_trace_pc_helper pc w = (if \<not> started (tracer w) then ret w else tlbtrace_refmem_qemu pc True w)"

definition tlbtrace_start_qemu :: "local_time \<Rightarrow> bool \<Rightarrow> (nat \<Rightarrow> u32) option \<Rightarrow> traced \<Rightarrow> traced comp" where
  "tlbtrace_start_qemu tm open_ok new_buf w =
     with_tracer (tlbtrace_start tm open_ok new_buf) (update_cpu tlb_flush w)"

definition tlbtrace_stop_qemu :: "traced \<Rightarrow> traced comp" where
  "tlbtrace_stop_qemu w = with_tracer tlbtrace_stop (update_cpu tlb_flush w)"

definition tlbtrace_toggle_qemu :: "local_time \<Rightarrow> bool \<Rightarrow> (nat \<Rightarrow> u32) option \<Rightarrow> traced \<Rightarrow> traced comp" where
  "tlbtrace_toggle_qemu tm open_ok new_buf w =
     (if \<not> started (tracer w)
      then tlbtrace_start_qemu tm open_ok new_buf (w\<lparr>tracer := (tracer w)\<lparr>started := True\<rparr>\<rparr>)
      else tlbtrace_stop_qemu (w\<lparr>tracer := (tracer w)\<lparr>started := False\<rparr>\<rparr>))"

text \<open>In the emulator the callback is \<open>get_ptes\<close>, whatever the caller passes.\<close>

definition tlbtrace_init_qemu :: "int \<Rightarrow> int \<Rightarrow> TLB_ENTRY list option \<Rightarrow> traced \<Rightarrow> traced comp" where
  "tlbtrace_init_qemu n k new_tlb w = with_tracer (\<lambda>s. comp_bind (tlbtrace_init n k pte_callback new_tlb s) (\<lambda>(_, s'). ret s')) w"

section \<open>Properties\<close>

text \<open>A running tracer of the emulator.\<close>

definition emulator_tracing :: "traced \<Rightarrow> bool" where
  "emulator_tracing w \<longleftrightarrow> started (tracer w) \<and> tracing (tracer w) \<and> my_pte_helper (tracer w) = Some pte_callback \<and>
     sl_systs (tracer w) + 1 < SYSTS_LIMIT"

lemma refmem_qemu_user:
  assumes "emulator_tracing w" and "uncached_cpsr (cpu w) AND CPSR_M = ARM_CPU_MODE_USR"
  obtains w' where "tlbtrace_refmem_qemu addr ins w = ret w'" and "cpu w' = cpu w" and "ram w' = ram w"
    and "trace_log (tracer w') = trace_log (tracer w) @
      (if sl_present (addr AND 0xFFFFF000) (c13_context (cp15 (cpu w)) AND 0xFF) ins (tracer w) then []
       else tuple_bytes (case get_ptes (ram w) (cpu w) (addr AND 0xFFFFF000) of (r, l1, l2, gpa) \<Rightarrow>
         ((addr AND 0xFFFFF000) OR r, l1, l2, gpa)))"
proof -
  obtain s' where s': "tlbtrace_refmem addr (c13_context (cp15 (cpu w)) AND 0xFF) ins (ram w, cpu w) (tracer w) = ret s'"
      "trace_log s' = trace_log (tracer w) @
        (if sl_present (addr AND 0xFFFFF000) (c13_context (cp15 (cpu w)) AND 0xFF) ins (tracer w) then []
         else tuple_bytes (tuple_of (tracer w) (ram w, cpu w) (addr AND 0xFFFFF000)))"
    using refmem_returns [of "tracer w"] assms(1) unfolding emulator_tracing_def by metis
  show thesis
  proof (rule that [of "w\<lparr>tracer := s'\<rparr>"])
    show "tlbtrace_refmem_qemu addr ins w = ret (w\<lparr>tracer := s'\<rparr>)"
      using assms s'(1) by (simp add: tlbtrace_refmem_qemu_def with_tracer_def emulator_tracing_def Let_def)
  qed (use assms(1) s'(2) in \<open>simp_all add: tuple_of_def pte_callback_def emulator_tracing_def\<close>)
qed


text \<open>A user-mode processor on the page tables of the example, with a started tracer of four entries.\<close>

definition traced_example :: traced where
  "traced_example = \<lparr>cpu = mmu_env\<lparr>uncached_cpsr := ARM_CPU_MODE_USR\<rparr>, ram = example_mem,
     tracer = \<lparr>tlb_size = 4, tlb_set = 2, tlb_set_step = 2, tlb_set_mask = 1,
       sl_tlb = Some (replicate 4 zero_entry), sl_cnt = zero_counter, sl_systs = 0, started = True,
       fout = Some ''t'', fbc = 0, fbuf = Some (\<lambda>_. 0), my_pte_helper = Some pte_callback,
       last_ins_idx = 0, disk = [''t'' \<mapsto> []], exited = False\<rparr>,
     cpu_index = 0, tb_flush_count = 0\<rparr>"

lemma traced_example_tracing: "emulator_tracing traced_example"
  by (simp add: emulator_tracing_def tracing_def sl_ok_def traced_example_def FBUF_WORDS_def SYSTS_LIMIT_def)


end
