(* ===== verification/Arm_Cp15.thy ===== *)
theory Arm_Cp15
  imports Traced_Machine
begin

text \<open>
  The system control coprocessor (\<open>helper_set_cp15\<close> and \<open>helper_get_cp15\<close> in
  \<open>src/qemu/target-arm/helper.c\<close>), one definition per primary register and direction. The operations act on the
  traced machine because the TLB maintenance registers flush both the TLB of the emulator and the main
  TLB of the tracer. An unimplemented register aborts (\<open>bad_reg\<close>).
\<close>

section \<open>Access permissions of the memory protection unit\<close>

definition ap_shifts :: "nat list" where
  "ap_shifts = [0, 2, 4, 6, 8, 10, 12, 14]"

definition simple_mpu_ap_bits :: "u32 \<Rightarrow> u32" where
  "simple_mpu_ap_bits val =
     fst (fold (\<lambda>i (r, m). (r OR (drop_bit i val AND m), push_bit 2 m)) ap_shifts (0, 3))"

definition extended_mpu_ap_bits :: "u32 \<Rightarrow> u32" where
  "extended_mpu_ap_bits val =
     fst (fold (\<lambda>i (r, m). (r OR push_bit i (val AND m), push_bit 2 m)) ap_shifts (0, 3))"

section \<open>Auxiliary operations\<close>

definition CPU_INTERRUPT_HALT :: u32 where "CPU_INTERRUPT_HALT = 0x20"

definition bad_reg :: "'a comp" where
  "bad_reg = raise Abort"

definition feat :: "arm_feature_id \<Rightarrow> traced \<Rightarrow> bool" where
  "feat f w = arm_feature (cpu w) f"

definition in_user :: "traced \<Rightarrow> bool" where
  "in_user w \<longleftrightarrow> uncached_cpsr (cpu w) AND CPSR_M = ARM_CPU_MODE_USR"

definition set_cp :: "(cp15_state \<Rightarrow> cp15_state) \<Rightarrow> traced \<Rightarrow> traced" where
  "set_cp f w = update_cpu (update_cp15 f) w"

abbreviation cp :: "traced \<Rightarrow> cp15_state" where
  "cp w \<equiv> cp15 (cpu w)"

text \<open>\<open>cpu_interrupt\<close> on the running processor, as far as the state goes.\<close>

definition cpu_interrupt :: "u32 \<Rightarrow> traced \<Rightarrow> traced" where
  "cpu_interrupt m w = update_cpu (\<lambda>e. e\<lparr>interrupt_request := interrupt_request e OR m\<rparr>) w"

section \<open>Writes\<close>

definition set_c0 :: "nat \<Rightarrow> nat \<Rightarrow> nat \<Rightarrow> u32 \<Rightarrow> traced \<Rightarrow> traced comp" where
  "set_c0 op1 op2 crm val w =
     (if feat ARM_FEATURE_XSCALE w then ret w
      else if feat ARM_FEATURE_OMAPCP w then ret w
      else if feat ARM_FEATURE_V7 w \<and> op1 = 2 \<and> crm = 0 \<and> op2 = 0 then ret (set_cp (\<lambda>c. c\<lparr>c0_cssel := val AND 0xF\<rparr>) w)
      else bad_reg)"

definition set_c1_control :: "nat \<Rightarrow> u32 \<Rightarrow> traced \<Rightarrow> traced comp" where
  "set_c1_control op2' val w =
     (let op2 = (if feat ARM_FEATURE_OMAPCP w then 0 else op2') in
      if op2 = 0 then
        ret (update_cpu tlb_flush (if \<not> feat ARM_FEATURE_XSCALE w then set_cp (\<lambda>c. c\<lparr>c1_sys := val\<rparr>) w else w))
      else if op2 = 1 then ret (if feat ARM_FEATURE_XSCALE w then set_cp (\<lambda>c. c\<lparr>c1_xscaleauxcr := val\<rparr>) w else w)
      else if op2 = 2 then
        (if feat ARM_FEATURE_XSCALE w then bad_reg
         else ret (if c1_coproc (cp w) \<noteq> val then tb_flush (set_cp (\<lambda>c. c\<lparr>c1_coproc := val\<rparr>) w) else w))
      else bad_reg)"

definition set_c1_secure :: "nat \<Rightarrow> u32 \<Rightarrow> traced \<Rightarrow> traced comp" where
  "set_c1_secure op2 val w =
     (if \<not> feat ARM_FEATURE_TRUSTZONE w \<or> in_user w then bad_reg
      else if op2 = 0 then (if bit (c1_secfg (cp w)) 0 then bad_reg else ret (set_cp (\<lambda>c. c\<lparr>c1_secfg := val\<rparr>) w))
      else if op2 = 1 then (if bit (c1_secfg (cp w)) 0 then bad_reg else ret (set_cp (\<lambda>c. c\<lparr>c1_sedbg := val\<rparr>) w))
      else if op2 = 2 then (if bit (c1_secfg (cp w)) 0 then bad_reg else ret (set_cp (\<lambda>c. c\<lparr>c1_nseac := val\<rparr>) w))
      else bad_reg)"

definition set_c1 :: "nat \<Rightarrow> nat \<Rightarrow> u32 \<Rightarrow> traced \<Rightarrow> traced comp" where
  "set_c1 op2 crm val w =
     (if crm = 0 then set_c1_control op2 val w else if crm = 1 then set_c1_secure op2 val w else bad_reg)"

definition set_c2 :: "nat \<Rightarrow> u32 \<Rightarrow> traced \<Rightarrow> traced comp" where
  "set_c2 op2 val w =
     (if feat ARM_FEATURE_MPU w then
        (if op2 = 0 then ret (set_cp (\<lambda>c. c\<lparr>c2_data := val\<rparr>) w)
         else if op2 = 1 then ret (set_cp (\<lambda>c. c\<lparr>c2_insn := val\<rparr>) w)
         else bad_reg)
      else if op2 = 0 then ret (set_cp (\<lambda>c. c\<lparr>c2_base0 := val\<rparr>) w)
      else if op2 = 1 then ret (set_cp (\<lambda>c. c\<lparr>c2_base1 := val\<rparr>) w)
      else if op2 = 2 then
        (let v = val AND 7 in
         ret (set_cp (\<lambda>c. c\<lparr>c2_control := v, c2_mask := NOT (drop_bit (unat v) 0xFFFFFFFF),
           c2_base_mask := NOT (drop_bit (unat v) 0x3FFF)\<rparr>) w))
      else bad_reg)"

definition set_c3 :: "u32 \<Rightarrow> traced \<Rightarrow> traced comp" where
  "set_c3 val w = ret (update_cpu tlb_flush (set_cp (\<lambda>c. c\<lparr>c3 := val\<rparr>) w))"

definition set_c5 :: "nat \<Rightarrow> u32 \<Rightarrow> traced \<Rightarrow> traced comp" where
  "set_c5 op2' val w =
     (let op2 = (if feat ARM_FEATURE_OMAPCP w then 0 else op2');
          ext = (if feat ARM_FEATURE_MPU w then extended_mpu_ap_bits val else val)
      in if op2 = 0 then ret (set_cp (\<lambda>c. c\<lparr>c5_data := ext\<rparr>) w)
         else if op2 = 1 then ret (set_cp (\<lambda>c. c\<lparr>c5_insn := ext\<rparr>) w)
         else if op2 = 2 then (if \<not> feat ARM_FEATURE_MPU w then bad_reg else ret (set_cp (\<lambda>c. c\<lparr>c5_data := val\<rparr>) w))
         else if op2 = 3 then (if \<not> feat ARM_FEATURE_MPU w then bad_reg else ret (set_cp (\<lambda>c. c\<lparr>c5_insn := val\<rparr>) w))
         else bad_reg)"

definition set_c6 :: "nat \<Rightarrow> nat \<Rightarrow> u32 \<Rightarrow> traced \<Rightarrow> traced comp" where
  "set_c6 op2' crm val w =
     (if feat ARM_FEATURE_MPU w then
        (if 8 \<le> crm then bad_reg else ret (set_cp (\<lambda>c. c\<lparr>c6_region := (c6_region c)(crm := val)\<rparr>) w))
      else let op2 = (if feat ARM_FEATURE_OMAPCP w then 0 else op2')
           in if op2 = 0 then ret (set_cp (\<lambda>c. c\<lparr>c6_data := val\<rparr>) w)
              else if op2 = 1 \<or> op2 = 2 then ret (set_cp (\<lambda>c. c\<lparr>c6_insn := val\<rparr>) w)
              else bad_reg)"

text \<open>The physical address register after a translation.\<close>

definition par_value :: "bool \<Rightarrow> walk_result \<Rightarrow> u32" where
  "par_value v7 r =
     (case r of
        Translated phys _ page_size \<Rightarrow>
          if page_size = push_bit 24 1 \<and> v7 then (phys AND 0xFF000000) OR push_bit 1 1 else phys AND 0xFFFFF000
      | Fault status \<Rightarrow>
          drop_bit 5 (status AND push_bit 1 10) OR drop_bit 6 (status AND push_bit 1 12) OR
          push_bit 1 (status AND 0xF) OR 1)"

definition set_c7 :: "nat \<Rightarrow> nat \<Rightarrow> nat \<Rightarrow> u32 \<Rightarrow> traced \<Rightarrow> traced comp" where
  "set_c7 op1 op2 crm val w0 =
     (let w = set_cp (\<lambda>c. c\<lparr>c15_i_max := 0, c15_i_min := 0xFF0\<rparr>) w0 in
      if op1 \<noteq> 0 then bad_reg
      else if feat ARM_FEATURE_V6K w then
        (if crm = 4 then
           ret (set_cp (\<lambda>c. c\<lparr>c7_par := val AND (if feat ARM_FEATURE_V7 w then 0xFFFFF6FF else 0xFFFFF1FF)\<rparr>) w)
         else if crm = 8 then
           (if bit op2 2 then bad_reg
            else comp_bind (get_phys_addr (ram w) (cpu w) val (if bit op2 0 then 1 else 0) (bit op2 1)) (\<lambda>r.
                   ret (set_cp (\<lambda>c. c\<lparr>c7_par := par_value (feat ARM_FEATURE_V7 w) r\<rparr>) w)))
         else ret w)
      else ret w)"

text \<open>The TLB maintenance registers; the third flushes the TLB of the emulator only.\<close>

definition set_c8 :: "nat \<Rightarrow> u32 \<Rightarrow> traced \<Rightarrow> traced comp" where
  "set_c8 op2 val w =
     (if op2 = 0 then with_tracer tlbtrace_flush_all (update_cpu tlb_flush w)
      else if op2 = 1 then with_tracer (tlbtrace_flush_entry val) (update_cpu (tlb_flush_page (val AND TARGET_PAGE_MASK)) w)
      else if op2 = 2 then with_tracer (tlbtrace_flush_asid val) (update_cpu tlb_flush w)
      else if op2 = 3 then ret (update_cpu tlb_flush w)
      else bad_reg)"

definition set_c9_monitor :: "nat \<Rightarrow> u32 \<Rightarrow> traced \<Rightarrow> traced comp" where
  "set_c9_monitor op2 val w =
     (if \<not> feat ARM_FEATURE_V7 w then bad_reg
      else if op2 = 0 then (if in_user w then bad_reg else ret (set_cp (\<lambda>c. c\<lparr>c9_useren := val AND 1\<rparr>) w))
      else if op2 = 1 then
        (if in_user w then bad_reg else ret (set_cp (\<lambda>c. c\<lparr>c9_inten := c9_inten c OR (val AND 0xF)\<rparr>) w))
      else if op2 = 2 then
        (if in_user w then bad_reg else ret (set_cp (\<lambda>c. c\<lparr>c9_inten := c9_inten c AND NOT (val AND 0xF)\<rparr>) w))
      else bad_reg)"

definition set_c9 :: "nat \<Rightarrow> nat \<Rightarrow> nat \<Rightarrow> u32 \<Rightarrow> traced \<Rightarrow> traced comp" where
  "set_c9 op1 op2 crm val w =
     (if feat ARM_FEATURE_OMAPCP w then ret w
      else if feat ARM_FEATURE_STRONGARM w then ret w
      else if crm = 0 then
        (if op1 = 0 then
           (if op2 = 0 then ret (set_cp (\<lambda>c. c\<lparr>c9_data := val\<rparr>) w)
            else if op2 = 1 then ret (set_cp (\<lambda>c. c\<lparr>c9_insn := val\<rparr>) w)
            else bad_reg)
         else if op1 = 1 then (if op2 = 0 \<or> op2 = 2 then ret w else bad_reg)
         else bad_reg)
      else if crm = 12 then
        (if feat ARM_FEATURE_V7 w \<and> op2 = 0 then ret (set_cp (\<lambda>c. c\<lparr>c9_pmcr_data := val\<rparr>) w) else bad_reg)
      else if crm = 14 then set_c9_monitor op2 val w
      else bad_reg)"

definition set_c12 :: "nat \<Rightarrow> nat \<Rightarrow> nat \<Rightarrow> u32 \<Rightarrow> traced \<Rightarrow> traced comp" where
  "set_c12 op1 op2 crm val w =
     (if op1 = 0 \<and> crm = 0 \<and> feat ARM_FEATURE_TRUSTZONE w then
        (if op2 = 0 then ret (set_cp (\<lambda>c. c\<lparr>c12_vbar := val AND NOT 0x1F\<rparr>) w)
         else if op2 = 1 then
           ret (if \<not> bit (c1_secfg (cp w)) 0 then set_cp (\<lambda>c. c\<lparr>c12_mvbar := val AND NOT 0x1F\<rparr>) w else w)
         else bad_reg)
      else bad_reg)"

definition set_c13 :: "nat \<Rightarrow> u32 \<Rightarrow> traced \<Rightarrow> traced comp" where
  "set_c13 op2 val w =
     (if op2 = 0 then
        ret (set_cp (\<lambda>c. c\<lparr>c13_fcse := val\<rparr>) (if c13_fcse (cp w) \<noteq> val then update_cpu tlb_flush w else w))
      else if op2 = 1 then
        ret (set_cp (\<lambda>c. c\<lparr>c13_context := val\<rparr>)
          (if c13_context (cp w) \<noteq> val \<and> \<not> feat ARM_FEATURE_MPU w then update_cpu tlb_flush w else w))
      else bad_reg)"

definition set_c15 :: "nat \<Rightarrow> nat \<Rightarrow> u32 \<Rightarrow> traced \<Rightarrow> traced comp" where
  "set_c15 op2 crm val w =
     (if feat ARM_FEATURE_XSCALE w then
        (if op2 = 0 \<and> crm = 1 then
           ret (if c15_cpar (cp w) \<noteq> val AND 0x3FFF then set_cp (\<lambda>c. c\<lparr>c15_cpar := val AND 0x3FFF\<rparr>) (tb_flush w) else w)
         else bad_reg)
      else if feat ARM_FEATURE_OMAPCP w then
        (if crm = 0 then ret w
         else if crm = 1 then
           ret (set_cp (\<lambda>c. c\<lparr>c15_ticonfig := val AND 0xE7,
             c0_cpuid := (if bit val 5 then ARM_CPUID_TI915T else ARM_CPUID_TI925T)\<rparr>) w)
         else if crm = 2 then ret (set_cp (\<lambda>c. c\<lparr>c15_i_max := val\<rparr>) w)
         else if crm = 3 then ret (set_cp (\<lambda>c. c\<lparr>c15_i_min := val\<rparr>) w)
         else if crm = 4 then ret (set_cp (\<lambda>c. c\<lparr>c15_threadid := val AND 0xFFFF\<rparr>) w)
         else if crm = 8 then ret (cpu_interrupt CPU_INTERRUPT_HALT w)
         else bad_reg)
      else ret w)"

text \<open>The fields of the instruction.\<close>

definition insn_op1 :: "u32 \<Rightarrow> nat" where "insn_op1 insn = unat (drop_bit 21 insn AND 7)"
definition insn_op2 :: "u32 \<Rightarrow> nat" where "insn_op2 insn = unat (drop_bit 5 insn AND 7)"
definition insn_crm :: "u32 \<Rightarrow> nat" where "insn_crm insn = unat (insn AND 0xF)"
definition insn_crn :: "u32 \<Rightarrow> nat" where "insn_crn insn = unat (drop_bit 16 insn AND 0xF)"

definition set_cp15 :: "u32 \<Rightarrow> u32 \<Rightarrow> traced \<Rightarrow> traced comp" where
  "set_cp15 insn val w =
     (let op1 = insn_op1 insn; op2 = insn_op2 insn; crm = insn_crm insn; crn = insn_crn insn in
      if crn = 0 then set_c0 op1 op2 crm val w
      else if crn = 1 then set_c1 op2 crm val w
      else if crn = 2 then set_c2 op2 val w
      else if crn = 3 then set_c3 val w
      else if crn = 4 then bad_reg
      else if crn = 5 then set_c5 op2 val w
      else if crn = 6 then set_c6 op2 crm val w
      else if crn = 7 then set_c7 op1 op2 crm val w
      else if crn = 8 then set_c8 op2 val w
      else if crn = 9 then set_c9 op1 op2 crm val w
      else if crn = 10 then ret w
      else if crn = 12 then set_c12 op1 op2 crm val w
      else if crn = 13 then set_c13 op2 val w
      else if crn = 14 then bad_reg
      else if crn = 15 then set_c15 op2 crm val w
      else ret w)"

section \<open>Reads\<close>

definition mpidr :: "traced \<Rightarrow> u32" where
  "mpidr w = (if feat ARM_FEATURE_V7MP w then cpu_index w OR push_bit 31 1 else cpu_index w)"

definition get_c0_id :: "nat \<Rightarrow> nat \<Rightarrow> traced \<Rightarrow> u32 comp" where
  "get_c0_id op2 crm w =
     (if crm = 0 then
        (if op2 = 0 then ret (c0_cpuid (cp w))
         else if op2 = 1 then ret (c0_cachetype (cp w))
         else if op2 = 2 then ret 0
         else if op2 = 3 then ret 0
         else if op2 = 5 \<and> (feat ARM_FEATURE_V7 w \<or> c0_cpuid (cp w) = ARM_CPUID_ARM11MPCORE) then ret (mpidr w)
         else bad_reg)
      else if crm = 1 then (if \<not> feat ARM_FEATURE_V6 w then bad_reg else ret (c0_c1 (cp w) op2))
      else if crm = 2 then (if \<not> feat ARM_FEATURE_V6 w then bad_reg else ret (c0_c2 (cp w) op2))
      else if crm \<in> {3, 4, 5, 6, 7} then ret 0
      else bad_reg)"

definition get_c0 :: "nat \<Rightarrow> nat \<Rightarrow> nat \<Rightarrow> traced \<Rightarrow> u32 comp" where
  "get_c0 op1 op2 crm w =
     (if op1 = 0 then get_c0_id op2 crm w
      else if op1 = 1 then
        (if \<not> feat ARM_FEATURE_V6 w then bad_reg
         else if crm \<noteq> 0 then bad_reg
         else if \<not> feat ARM_FEATURE_V7 w then ret 0
         else if op2 = 0 then ret (c0_ccsid (cp w) (unat (c0_cssel (cp w))))
         else if op2 = 1 then ret (c0_clid (cp w))
         else if op2 = 7 then ret 0
         else bad_reg)
      else if op1 = 2 then (if op2 \<noteq> 0 \<or> crm \<noteq> 0 then bad_reg else ret (c0_cssel (cp w)))
      else bad_reg)"

definition auxiliary_control :: "u32 \<Rightarrow> u32 comp" where
  "auxiliary_control ident =
     (if ident = ARM_CPUID_ARM1026 then ret 1
      else if ident = ARM_CPUID_ARM1136 \<or> ident = ARM_CPUID_ARM1136_R2 then ret 7
      else if ident = ARM_CPUID_ARM11MPCORE then ret 1
      else if ident = ARM_CPUID_CORTEXA8 \<or> ident = ARM_CPUID_CORTEXA8_R2 then ret 2
      else if ident = ARM_CPUID_CORTEXA9 then ret 0
      else bad_reg)"

definition get_c1_control :: "nat \<Rightarrow> traced \<Rightarrow> u32 comp" where
  "get_c1_control op2' w =
     (let op2 = (if feat ARM_FEATURE_OMAPCP w then 0 else op2') in
      if op2 = 0 then ret (c1_sys (cp w))
      else if op2 = 1 then
        (if feat ARM_FEATURE_XSCALE w then ret (c1_xscaleauxcr (cp w))
         else if \<not> feat ARM_FEATURE_AUXCR w then bad_reg
         else auxiliary_control (c0_cpuid (cp w)))
      else if op2 = 2 then (if feat ARM_FEATURE_XSCALE w then bad_reg else ret (c1_coproc (cp w)))
      else bad_reg)"

definition get_c1_secure :: "nat \<Rightarrow> traced \<Rightarrow> u32 comp" where
  "get_c1_secure op2 w =
     (if \<not> feat ARM_FEATURE_TRUSTZONE w \<or> in_user w then bad_reg
      else if op2 = 0 then (if bit (c1_secfg (cp w)) 0 then bad_reg else ret (c1_secfg (cp w)))
      else if op2 = 1 then (if bit (c1_secfg (cp w)) 0 then bad_reg else ret (c1_sedbg (cp w)))
      else if op2 = 2 then ret (c1_nseac (cp w))
      else bad_reg)"

definition get_c1 :: "nat \<Rightarrow> nat \<Rightarrow> traced \<Rightarrow> u32 comp" where
  "get_c1 op2 crm w = (if crm = 0 then get_c1_control op2 w else if crm = 1 then get_c1_secure op2 w else bad_reg)"

definition get_c2 :: "nat \<Rightarrow> traced \<Rightarrow> u32 comp" where
  "get_c2 op2 w =
     (if feat ARM_FEATURE_MPU w then
        (if op2 = 0 then ret (c2_data (cp w)) else if op2 = 1 then ret (c2_insn (cp w)) else bad_reg)
      else if op2 = 0 then ret (c2_base0 (cp w))
      else if op2 = 1 then ret (c2_base1 (cp w))
      else if op2 = 2 then ret (c2_control (cp w))
      else bad_reg)"

definition get_c5 :: "nat \<Rightarrow> traced \<Rightarrow> u32 comp" where
  "get_c5 op2' w =
     (let op2 = (if feat ARM_FEATURE_OMAPCP w then 0 else op2') in
      if op2 = 0 then ret (if feat ARM_FEATURE_MPU w then simple_mpu_ap_bits (c5_data (cp w)) else c5_data (cp w))
      else if op2 = 1 then ret (if feat ARM_FEATURE_MPU w then simple_mpu_ap_bits (c5_data (cp w)) else c5_insn (cp w))
      else if op2 = 2 then (if \<not> feat ARM_FEATURE_MPU w then bad_reg else ret (c5_data (cp w)))
      else if op2 = 3 then (if \<not> feat ARM_FEATURE_MPU w then bad_reg else ret (c5_insn (cp w)))
      else bad_reg)"

definition get_c6 :: "nat \<Rightarrow> nat \<Rightarrow> traced \<Rightarrow> u32 comp" where
  "get_c6 op2' crm w =
     (if feat ARM_FEATURE_MPU w then (if 8 \<le> crm then bad_reg else ret (c6_region (cp w) crm))
      else let op2 = (if feat ARM_FEATURE_OMAPCP w then 0 else op2')
           in if op2 = 0 then ret (c6_data (cp w))
              else if op2 = 1 then ret (if feat ARM_FEATURE_V6 w then 0 else c6_insn (cp w))
              else if op2 = 2 then (if feat ARM_FEATURE_V6 w then ret (c6_insn (cp w)) else bad_reg)
              else bad_reg)"

text \<open>A read of the cache control register clears the \<open>Z\<close> test when its destination is \<open>r15\<close>.\<close>

definition get_c7 :: "u32 \<Rightarrow> nat \<Rightarrow> nat \<Rightarrow> nat \<Rightarrow> traced \<Rightarrow> (u32 \<times> traced) comp" where
  "get_c7 insn op1 op2 crm w =
     (if crm = 4 \<and> op1 = 0 \<and> op2 = 0 then ret (c7_par (cp w), w)
      else ret (0, if drop_bit 12 insn AND 0xF = 0xF then update_cpu (\<lambda>e. e\<lparr>ZF := 0\<rparr>) w else w))"

definition get_c9 :: "nat \<Rightarrow> nat \<Rightarrow> nat \<Rightarrow> traced \<Rightarrow> u32 comp" where
  "get_c9 op1 op2 crm w =
     (if op1 = 0 then
        (if feat ARM_FEATURE_OMAPCP w then ret 0
         else if crm = 0 then
           (if op2 = 0 then ret (c9_data (cp w)) else if op2 = 1 then ret (c9_insn (cp w)) else bad_reg)
         else if crm = 12 then (if op2 = 0 then ret (c9_pmcr_data (cp w)) else bad_reg)
         else if crm = 14 then
           (if \<not> feat ARM_FEATURE_V7 w then bad_reg
            else if op2 = 0 then ret (c9_useren (cp w))
            else if op2 = 1 \<or> op2 = 2 then (if in_user w then bad_reg else ret (c9_inten (cp w)))
            else bad_reg)
         else bad_reg)
      else if op1 = 1 then (if crm \<noteq> 0 then bad_reg else ret 0)
      else bad_reg)"

definition get_c12 :: "nat \<Rightarrow> nat \<Rightarrow> nat \<Rightarrow> traced \<Rightarrow> u32 comp" where
  "get_c12 op1 op2 crm w =
     (if op1 = 0 \<and> crm = 0 \<and> feat ARM_FEATURE_TRUSTZONE w then
        (if op2 = 0 then ret (c12_vbar (cp w)) else if op2 = 1 then ret (c12_mvbar (cp w)) else bad_reg)
      else bad_reg)"

definition get_c15 :: "nat \<Rightarrow> nat \<Rightarrow> traced \<Rightarrow> u32 comp" where
  "get_c15 op2 crm w =
     (if feat ARM_FEATURE_XSCALE w then (if op2 = 0 \<and> crm = 1 then ret (c15_cpar (cp w)) else bad_reg)
      else if feat ARM_FEATURE_OMAPCP w then
        (if crm = 0 then ret 0
         else if crm = 1 then ret (c15_ticonfig (cp w))
         else if crm = 2 then ret (c15_i_max (cp w))
         else if crm = 3 then ret (c15_i_min (cp w))
         else if crm = 4 then ret (c15_threadid (cp w))
         else if crm = 8 then ret 0
         else bad_reg)
      else ret 0)"

definition get_cp15 :: "u32 \<Rightarrow> traced \<Rightarrow> (u32 \<times> traced) comp" where
  "get_cp15 insn w =
     (let op1 = insn_op1 insn; op2 = insn_op2 insn; crm = insn_crm insn; crn = insn_crn insn;
          pure = (\<lambda>c. comp_bind c (\<lambda>v. ret (v, w)))
      in if crn = 0 then pure (get_c0 op1 op2 crm w)
         else if crn = 1 then pure (get_c1 op2 crm w)
         else if crn = 2 then pure (get_c2 op2 w)
         else if crn = 3 then ret (c3 (cp w), w)
         else if crn = 4 then bad_reg
         else if crn = 5 then pure (get_c5 op2 w)
         else if crn = 6 then pure (get_c6 op2 crm w)
         else if crn = 7 then get_c7 insn op1 op2 crm w
         else if crn = 8 then bad_reg
         else if crn = 9 then pure (get_c9 op1 op2 crm w)
         else if crn = 10 then ret (0, w)
         else if crn = 11 \<or> crn = 12 then pure (get_c12 op1 op2 crm w)
         else if crn = 13 then
           (if op2 = 0 then ret (c13_fcse (cp w), w) else if op2 = 1 then ret (c13_context (cp w), w) else bad_reg)
         else if crn = 14 then bad_reg
         else pure (get_c15 op2 crm w))"

end
