(* ===== verification/System_Control.thy ===== *)
theory System_Control
  imports Arm_Cp15
begin

text \<open>
  Properties of the system control coprocessor: registers read back what was written, the registers
  that change translations leave no stale entry in the TLB of the emulator, the maintenance operations
  reach the main TLB of the tracer, the split of the address space between the two translation tables,
  the permission registers of the memory protection unit, and address translation operations.
\<close>

section \<open>Frames\<close>

lemma update_frames [simp, frame_simps]:
  "cpu (set_cp f w) = update_cp15 f (cpu w)" "tracer (set_cp f w) = tracer w" "ram (set_cp f w) = ram w"
  "cpu (update_cpu g w) = g (cpu w)" "tracer (update_cpu g w) = tracer w" "ram (update_cpu g w) = ram w"
  "cp15 (update_cp15 f env) = f (cp15 env)" "features (update_cp15 f env) = features env"
  "uncached_cpsr (update_cp15 f env) = uncached_cpsr env" "tlb_table (update_cp15 f env) = tlb_table env"
  "cp15 (tlb_flush env) = cp15 env" "features (tlb_flush env) = features env"
  "uncached_cpsr (tlb_flush env) = uncached_cpsr env"
  "tracer (tb_flush w) = tracer w" "ram (tb_flush w) = ram w"
  "cp15 (cpu (tb_flush w)) = cp15 (cpu w)" "features (cpu (tb_flush w)) = features (cpu w)"
  "uncached_cpsr (cpu (tb_flush w)) = uncached_cpsr (cpu w)" "tlb_table (cpu (tb_flush w)) = tlb_table (cpu w)"
  by (simp_all add: set_cp_def update_cpu_def update_cp15_def tlb_flush_def map_tlb_def tb_flush_def)

lemma feat_frames [simp]:
  "feat f (set_cp g w) = feat f w" "feat f (update_cpu tlb_flush w) = feat f w" "feat f (tb_flush w) = feat f w"
  by (simp_all add: feat_def arm_feature_def)

section \<open>Reading back\<close>

text \<open>The registers that hold the value written to them.\<close>

definition plain_register :: "u32 \<Rightarrow> traced \<Rightarrow> bool" where
  "plain_register insn w \<longleftrightarrow>
     (let op2 = insn_op2 insn; crm = insn_crm insn; crn = insn_crn insn in
      crn = 1 \<and> crm = 0 \<and> (op2 = 0 \<or> op2 = 2 \<and> \<not> feat ARM_FEATURE_OMAPCP w) \<and> \<not> feat ARM_FEATURE_XSCALE w \<or>
      crn = 2 \<and> (op2 = 0 \<or> op2 = 1) \<or>
      crn = 3 \<or>
      crn = 5 \<and> (op2 = 0 \<or> op2 = 1) \<and> \<not> feat ARM_FEATURE_MPU w \<or>
      crn = 5 \<and> (op2 = 2 \<or> op2 = 3) \<and> feat ARM_FEATURE_MPU w \<and> \<not> feat ARM_FEATURE_OMAPCP w \<or>
      crn = 6 \<and> feat ARM_FEATURE_MPU w \<and> crm < 8 \<or>
      crn = 6 \<and> \<not> feat ARM_FEATURE_MPU w \<and> op2 = 0 \<or>
      crn = 13 \<and> (op2 = 0 \<or> op2 = 1))"

text \<open>
  Every control, table base, domain, fault and process register reads back the value written
  to it, whatever the processor: the control and coprocessor access registers, the translation table bases or
  the cache registers of the MPU, the domain register, the fault status and address registers or the
  permissions and regions of the MPU, and the process and context identifiers.
\<close>

theorem cp15_write_read:
  assumes "plain_register insn w"
  shows "\<exists>w'. set_cp15 insn val w = ret w' \<and> get_cp15 insn w' = ret (val, w')"
  using assms unfolding plain_register_def Let_def
  by (elim disjE conjE)
    (simp_all add: set_cp15_def get_cp15_def set_c1_def set_c1_control_def get_c1_def get_c1_control_def set_c2_def get_c2_def
      set_c3_def set_c5_def get_c5_def set_c6_def get_c6_def set_c13_def Let_def)

section \<open>No stale translations\<close>

lemma update_cp15_tlb [simp]:
  "iotlb (update_cp15 f env) = iotlb env" "tb_jmp_cache (update_cp15 f env) = tb_jmp_cache env"
  by (simp_all add: update_cp15_def)

lemma tlb_flush_jmp_empty: "tb_jmp_cache (tlb_flush env) = (\<lambda>_. None)"
  by (simp add: tlb_flush_def map_tlb_def)

text \<open>
  C26. Which writes to the system control coprocessor drop the translations of the emulator. A write to the control register, to the domain register, or one that changes
  the process identifier or, with an MMU, the context identifier, leaves no address that hits the TLB in either mode, and an empty jump cache. A write to the translation table
  bases and their control register (c2), to the fault status registers or MPU permissions (c5) or to the fault address registers or MPU regions (c6), and a write that leaves the identifier as it was,
  changes no line of the TLB and nothing of the jump cache: after a change of the tables it is the program that has to invalidate the TLB. None of these writes reaches the simulated TLB of the tracer.
\<close>

theorem cp15_writes_flush:
  assumes "set_cp15 insn val w = ret w'"
  shows "(insn_crn insn = 1 \<and> insn_crm insn = 0 \<and> insn_op2 insn = 0 \<or> insn_crn insn = 3 \<or>
      insn_crn insn = 13 \<and> insn_op2 insn = 0 \<and> c13_fcse (cp w) \<noteq> val \<or>
      insn_crn insn = 13 \<and> insn_op2 insn = 1 \<and> c13_context (cp w) \<noteq> val \<and> \<not> feat ARM_FEATURE_MPU w \<longrightarrow>
      (\<forall>a m. m < NB_MMU_MODES \<longrightarrow> no_hit a m (cpu w')) \<and> (\<forall>j. tb_jmp_cache (cpu w') j = None)) \<and>
    (insn_crn insn = 2 \<or> insn_crn insn = 5 \<or> insn_crn insn = 6 \<or>
      insn_crn insn = 13 \<and> insn_op2 insn = 0 \<and> c13_fcse (cp w) = val \<or>
      insn_crn insn = 13 \<and> insn_op2 insn = 1 \<and> (c13_context (cp w) = val \<or> feat ARM_FEATURE_MPU w) \<longrightarrow>
      tlb_table (cpu w') = tlb_table (cpu w) \<and> iotlb (cpu w') = iotlb (cpu w) \<and> tb_jmp_cache (cpu w') = tb_jmp_cache (cpu w)) \<and>
    (insn_crn insn \<in> {1, 2, 3, 5, 6, 13} \<longrightarrow> tracer w' = tracer w)"
proof (intro conjI impI)
  assume "insn_crn insn = 1 \<and> insn_crm insn = 0 \<and> insn_op2 insn = 0 \<or> insn_crn insn = 3 \<or>
      insn_crn insn = 13 \<and> insn_op2 insn = 0 \<and> c13_fcse (cp w) \<noteq> val \<or>
      insn_crn insn = 13 \<and> insn_op2 insn = 1 \<and> c13_context (cp w) \<noteq> val \<and> \<not> feat ARM_FEATURE_MPU w"
  then obtain e :: CPUARMState where e: "tlb_table (cpu w') = tlb_table (tlb_flush e)" "tb_jmp_cache (cpu w') = tb_jmp_cache (tlb_flush e)"
    using assms by (auto simp: set_cp15_def set_c1_def set_c1_control_def set_c3_def set_c13_def split: if_splits)
  have "no_hit a m (cpu w')" if "m < NB_MMU_MODES" for a m
    using tlb_flush_no_hit [OF that, of a e] e(1) by (simp add: no_hit_def entry_at_def)
  then show "\<forall>a m. m < NB_MMU_MODES \<longrightarrow> no_hit a m (cpu w')" by blast
  show "\<forall>j. tb_jmp_cache (cpu w') j = None" by (simp add: e(2) tlb_flush_jmp_empty)
qed (use assms in \<open>auto simp: set_cp15_def set_c1_def set_c1_control_def set_c1_secure_def set_c2_def set_c3_def set_c5_def set_c6_def set_c13_def bad_reg_def Let_def tb_flush_def split: if_splits\<close>)

section \<open>TLB maintenance\<close>

lemma sl_absent:
  assumes "sl_ok s" and "\<And>i. i < length (sl_entries s) \<Longrightarrow> va (sl_entries s ! i) = addr \<Longrightarrow> asid (sl_entries s ! i) \<noteq> a"
  shows "\<not> sl_present addr a ins s"
proof -
  have "last_ins_idx s < length (sl_entries s)" "int (length (sl_entries s)) = tlb_size s"
    using assms(1) by (auto simp: sl_ok_def)
  moreover from this have "i < length (sl_entries s)" if "i \<in> sl_ways addr s" for i
    using that by (auto simp: sl_ways_def dest: ways_bound)
  ultimately show ?thesis using assms(2) by (auto simp: sl_present_def)
qed

lemma page_not_flushed: "(p :: u32) AND 0xFFFFF000 = p \<Longrightarrow> p \<noteq> 0xFFFFFFFF"
proof
  assume "p AND 0xFFFFF000 = p" and "p = 0xFFFFFFFF"
  then have "(0xFFFFFFFF :: u32) AND 0xFFFFF000 = 0xFFFFFFFF" by simp
  then show False by simp
qed

text \<open>What the three flushes of the tracer leave in its main TLB.\<close>

lemma flush_entries_absent:
  assumes "sl_ok s" and "page AND 0xFFFFF000 = page"
    and "\<And>t n i. i < length t \<Longrightarrow> i < n \<Longrightarrow> va (f t n ! i) = 0xFFFFFFFF \<or> \<not> (va (f t n ! i) = page \<and> asid (f t n ! i) = a)"
    and "\<And>t n. length (f t n) = length t"
    and "with_sl_tlb f s = ret s'"
  shows "\<not> sl_present page a ins s'"
proof -
  note w = with_sl_tlb_flush [OF assms(1,4)]
  have s': "s' = s\<lparr>sl_tlb := Some (f (sl_entries s) (nat (tlb_size s)))\<rparr>" using w(1) assms(5) by simp
  have len: "length (sl_entries s) = nat (tlb_size s)" using assms(1) by (auto simp: sl_ok_def)
  show ?thesis
  proof (rule sl_absent)
    show "sl_ok s'" using w(2) s' by simp
    fix i
    assume "i < length (sl_entries s')" and "va (sl_entries s' ! i) = page"
    then show "asid (sl_entries s' ! i) \<noteq> a"
      using assms(3) [of i "sl_entries s" "nat (tlb_size s)"] page_not_flushed [OF assms(2)] len
      by (auto simp: s' assms(4))
  qed
qed

lemma tracer_flushes:
  assumes "sl_ok s" and "started s" and "page AND 0xFFFFF000 = page"
  shows "tlbtrace_flush_all s = ret s' \<Longrightarrow> \<not> sl_present page a ins s'"
    and "tlbtrace_flush_asid a s = ret s' \<Longrightarrow> \<not> sl_present page a ins s'"
    and "page = v AND 0xFFFFF000 \<Longrightarrow> tlbtrace_flush_entry v s = ret s' \<Longrightarrow> \<not> sl_present page (v AND 0xFF) ins s'"
proof -
  have m: "(map g (take n t) @ drop n t) ! i = g (t ! i)" if "i < length t" "i < n" for g and t :: "TLB_ENTRY list" and n i
    using that by (simp add: nth_append)
  show "tlbtrace_flush_all s = ret s' \<Longrightarrow> \<not> sl_present page a ins s'"
    using flush_entries_absent [OF assms(1,3), of FLUSH_TLB a s' ins] assms(2)
    by (simp add: tlbtrace_flush_all_def FLUSH_TLB_def m)
  show "tlbtrace_flush_asid a s = ret s' \<Longrightarrow> \<not> sl_present page a ins s'"
    using flush_entries_absent [OF assms(1,3), of "\<lambda>t n. FLUSH_TLB_ASID t n a" a s' ins] assms(2)
    by (simp add: tlbtrace_flush_asid_def FLUSH_TLB_ASID_def m)
  show "page = v AND 0xFFFFF000 \<Longrightarrow> tlbtrace_flush_entry v s = ret s' \<Longrightarrow> \<not> sl_present page (v AND 0xFF) ins s'"
    using flush_entries_absent [OF assms(1,3), of "\<lambda>t n. FLUSH_TLB_ENTRY t n page (v AND 0xFF)" "v AND 0xFF" s' ins] assms(2)
    by (simp add: tlbtrace_flush_entry_def FLUSH_TLB_ENTRY_def m)
qed

text \<open>
  C25. The TLB maintenance operations keep the emulator and the main TLB of a running tracer in step: after
  \<open>invalidate all\<close> and \<open>invalidate by ASID\<close> nothing hits in the emulator and nothing of any, or of the named, address space is in
  the main TLB; after \<open>invalidate entry\<close> the (1 KB) page misses in the emulator and the (4 KB) page of
  the address space is gone from the main TLB. The fourth operation, \<open>invalidate by MVA\<close>, does
  not reach the tracer.
\<close>

theorem tlb_maintenance:
  assumes "sl_ok (tracer w)" and "started (tracer w)" and "insn_crn insn = 8" and "set_cp15 insn val w = ret w'"
    and "m < NB_MMU_MODES" and "page AND 0xFFFFF000 = page"
  shows "(insn_op2 insn = 0 \<longrightarrow> no_hit a m (cpu w') \<and> \<not> sl_present page as ins (tracer w')) \<and>
    (insn_op2 insn = 1 \<longrightarrow> (a AND TARGET_PAGE_MASK = val AND TARGET_PAGE_MASK \<longrightarrow> no_hit a m (cpu w')) \<and>
       (page = val AND 0xFFFFF000 \<longrightarrow> \<not> sl_present page (val AND 0xFF) ins (tracer w'))) \<and>
    (insn_op2 insn = 2 \<longrightarrow> no_hit a m (cpu w') \<and> \<not> sl_present page val ins (tracer w')) \<and>
    (insn_op2 insn = 3 \<longrightarrow> no_hit a m (cpu w') \<and> tracer w' = tracer w)"
proof (intro conjI impI)
  have c8: "set_c8 (insn_op2 insn) val w = ret w'" using assms(3,4) by (simp add: set_cp15_def)
  note flush = tlb_flush_no_hit [OF assms(5), of a "cpu w"]
  note tr = tracer_flushes [OF assms(1,2,6)]
  { assume "insn_op2 insn = 0"
    with c8 obtain s' where "tlbtrace_flush_all (tracer w) = ret s'" "w' = (update_cpu tlb_flush w)\<lparr>tracer := s'\<rparr>"
      by (auto simp: set_c8_def with_tracer_def dest!: comp_bind_eq_retD)
    with flush tr(1) show "no_hit a m (cpu w')" "\<not> sl_present page as ins (tracer w')" by auto }
  { assume "insn_op2 insn = 1"
    with c8 obtain s' where s': "tlbtrace_flush_entry val (tracer w) = ret s'"
        "w' = (update_cpu (tlb_flush_page (val AND TARGET_PAGE_MASK)) w)\<lparr>tracer := s'\<rparr>"
      by (auto simp: set_c8_def with_tracer_def dest!: comp_bind_eq_retD)
    { assume "a AND TARGET_PAGE_MASK = val AND TARGET_PAGE_MASK"
      then show "no_hit a m (cpu w')"
        using s'(2) tlb_flush_page_no_hit [of a "val AND TARGET_PAGE_MASK" m] assms(5) by (simp add: page_mask_idem) }
    { assume "page = val AND 0xFFFFF000"
      with s' tr(3) show "\<not> sl_present page (val AND 0xFF) ins (tracer w')" by auto } }
  { assume "insn_op2 insn = 2"
    with c8 obtain s' where "tlbtrace_flush_asid val (tracer w) = ret s'" "w' = (update_cpu tlb_flush w)\<lparr>tracer := s'\<rparr>"
      by (auto simp: set_c8_def with_tracer_def dest!: comp_bind_eq_retD)
    with flush tr(2) show "no_hit a m (cpu w')" "\<not> sl_present page val ins (tracer w')" by auto }
  { assume "insn_op2 insn = 3"
    with c8 have "w' = update_cpu tlb_flush w" by (simp add: set_c8_def)
    with flush show "no_hit a m (cpu w')" "tracer w' = tracer w" by auto }
qed

text \<open>
  \<open>Invalidate entry\<close> removes one quarter of a page: an address of the same 4 KB page but of another 1 KB page of
  the emulator keeps its TLB entry, so a translation that was valid before the page table changed still hits.
\<close>

theorem invalidate_entry_leaves_subpages:
  assumes "insn_crn insn = 8" and "insn_op2 insn = 1" and "set_cp15 insn val w = ret w'"
    and "a AND 0xFFFFF000 = val AND 0xFFFFF000" and "a AND TARGET_PAGE_MASK \<noteq> val AND TARGET_PAGE_MASK"
  shows "entry_at a m (cpu w') = entry_at a m (cpu w)"
proof -
  have c: "tlb_table (cpu w') = tlb_table (tlb_flush_page (val AND TARGET_PAGE_MASK) (cpu w))"
    using assms(1-3) by (auto simp: set_cp15_def set_c8_def with_tracer_def dest!: comp_bind_eq_retD)
  have "tlb_index a \<noteq> tlb_index val"
  proof
    assume "tlb_index a = tlb_index val"
    then have i: "drop_bit 10 a AND 0xFF = drop_bit 10 val AND 0xFF"
      by (simp add: tlb_index_def TARGET_PAGE_BITS_def CPU_TLB_SIZE_def word_unat_eq_iff)
    have low: "bit a k = bit val k" if "10 \<le> k" "k < 18" for k
    proof -
      have "bit (drop_bit 10 a AND 0xFF) (k - 10) = bit (drop_bit 10 val AND 0xFF) (k - 10)" using i by simp
      moreover have "(0xFF :: u32) = mask 8" by (simp add: mask_eq_exp_minus_1)
      moreover have "k - 10 < 8" "k - 10 < 32" "10 + (k - 10) = k" using that by auto
      ultimately show ?thesis by (simp add: bit_simps)
    qed
    have high: "bit a k = bit val k" if "12 \<le> k" for k
    proof -
      have "(0xFFFFF000 :: u32) = NOT (mask 12)" by code_simp
      then have "bit (a AND NOT (mask 12)) k = bit (val AND NOT (mask 12)) k" using assms(4) by simp
      then show ?thesis using that by (cases "k < 32") (auto simp: bit_simps dest: bit_imp_le_length)
    qed
    have all: "bit a k = bit val k" if "10 \<le> k" for k
      using low [of k] high [of k] that by (cases "k < 18") auto
    have "a AND TARGET_PAGE_MASK = val AND TARGET_PAGE_MASK"
      unfolding TARGET_PAGE_MASK_eq
      by (rule bit_word_eqI) (auto simp: bit_simps all)
    then show False using assms(5) by simp
  qed
  then show ?thesis
    by (simp add: entry_at_def c tlb_flush_page_table tlb_index_page page_mask_idem)
qed

section \<open>The split of the address space\<close>

lemma drop_bit_all_ones: "drop_bit n (0xFFFFFFFF :: u32) = mask (32 - n)"
proof -
  have e: "(0xFFFFFFFF :: u32) = - 1" by simp
  show ?thesis unfolding e by (rule bit_word_eqI) (auto simp: bit_simps)
qed

lemma drop_bit_table_size: "drop_bit n (0x3FFF :: u32) = mask (14 - n)"
proof -
  have e: "(0x3FFF :: u32) = mask 14" by (simp add: mask_eq_exp_minus_1)
  show ?thesis unfolding e by (rule bit_word_eqI) (auto simp: bit_simps)
qed

lemma and_not_mask_eq_0: "(a :: u32) AND NOT (mask k) = 0 \<longleftrightarrow> drop_bit k a = 0"
proof -
  have "a AND NOT (mask k) = push_bit k (drop_bit k a)"
    by (rule bit_word_eqI) (auto simp: bit_simps)
  moreover have "drop_bit k (push_bit k (drop_bit k a)) = drop_bit k a"
    by (rule bit_word_eqI) (auto simp: bit_simps dest: bit_imp_le_length)
  ultimately show ?thesis by (metis drop_bit_of_0 push_bit_of_0)
qed

text \<open>
  C35. A write of \<open>N\<close> to the translation table base control register of an MMU splits the address space: addresses
  whose upper \<open>N\<close> bits are zero are translated by the table of base 0, which is aligned to \<open>2^(14-N)\<close> bytes, all
  others by the table of base 1; the index is that of a table of one word per megabyte. With \<open>N = 0\<close> base 0 serves all addresses.
\<close>

theorem ttbcr_splits_address_space:
  assumes "\<not> feat ARM_FEATURE_MPU w" and "insn_crn insn = 2" and "insn_op2 insn = 2" and "n = unat (val AND 7)"
  shows "\<exists>w'. set_cp15 insn val w = ret w' \<and> c2_base0 (cp w') = c2_base0 (cp w) \<and> c2_base1 (cp w') = c2_base1 (cp w) \<and>
    get_level1_table_address (cpu w') a =
      (if drop_bit (32 - n) a \<noteq> 0 then c2_base1 (cp w) AND NOT (mask 14) else c2_base0 (cp w) AND NOT (mask (14 - n))) OR
      push_bit 2 (drop_bit 20 a)"
proof -
  have i: "drop_bit 18 a AND 0x3FFC = push_bit 2 (drop_bit 20 a)"
  proof -
    have e: "(0x3FFC :: u32) = mask 14 AND NOT (mask 2)" by code_simp
    show ?thesis unfolding e by (rule bit_word_eqI) (auto simp: bit_simps dest: bit_imp_le_length)
  qed
  have b: "(0xFFFFC000 :: u32) = NOT (mask 14)" by code_simp
  let ?w' = "set_cp (\<lambda>c. c\<lparr>c2_control := val AND 7, c2_mask := NOT (mask (32 - n)), c2_base_mask := NOT (mask (14 - n))\<rparr>) w"
  have "set_cp15 insn val w = ret ?w'"
    using assms unfolding set_cp15_def set_c2_def Let_def
    by (simp only: if_False if_True drop_bit_all_ones drop_bit_table_size) simp
  then show ?thesis
    by (simp add: get_level1_table_address_def i b and_not_mask_eq_0)
qed

section \<open>Permissions of the memory protection unit\<close>

lemma simple_extended: "simple_mpu_ap_bits (extended_mpu_ap_bits val) = val AND 0xFFFF"
  unfolding simple_mpu_ap_bits_def extended_mpu_ap_bits_def ap_shifts_def
  by (rule u32_eqI) (simp_all add: bit_simps)

text \<open>
  Access permissions of the memory protection unit in their basic format: the data permissions
  read back as written, padded to the extended format in between. A read of the instruction permissions,
  however, returns the data permissions, whatever was written to the instruction permissions.
\<close>

theorem mpu_permissions:
  assumes "feat ARM_FEATURE_MPU w" and "\<not> feat ARM_FEATURE_OMAPCP w" and "insn_crn data = 5" and "insn_op2 data = 0"
    and "insn_crn instr = 5" and "insn_op2 instr = 1"
  shows "(\<exists>w'. set_cp15 data val w = ret w' \<and> get_cp15 data w' = ret (val AND 0xFFFF, w')) \<and>
    (\<exists>w'. set_cp15 instr val w = ret w' \<and> get_cp15 instr w' = ret (simple_mpu_ap_bits (c5_data (cp w)), w') \<and>
      simple_mpu_ap_bits (c5_insn (cp w')) = val AND 0xFFFF)"
  using assms by (simp add: set_cp15_def get_cp15_def set_c5_def get_c5_def simple_extended)

section \<open>Translation operations\<close>

lemma get_phys_addr_frame:
  "get_phys_addr mem (update_cp15 (\<lambda>c. c\<lparr>c15_i_max := x, c15_i_min := y\<rparr>) env) a t u = get_phys_addr mem env a t u"
proof -
  let ?env = "update_cp15 (\<lambda>c. c\<lparr>c15_i_max := x, c15_i_min := y\<rparr>) env"
  have f: "arm_feature ?env g = arm_feature env g" for g by (simp add: arm_feature_def)
  have l: "get_level1_table_address ?env a = get_level1_table_address env a" for a
    by (simp add: get_level1_table_address_def)
  have c: "check_ap ?env = check_ap env" by (simp add: check_ap_def fun_eq_iff f)
  have g: "c3 (cp15 ?env) = c3 (cp15 env)" "c1_sys (cp15 ?env) = c1_sys (cp15 env)" "c5_insn (cp15 ?env) = c5_insn (cp15 env)"
    "c5_data (cp15 ?env) = c5_data (cp15 env)" "c6_region (cp15 ?env) = c6_region (cp15 env)" "c13_fcse (cp15 ?env) = c13_fcse (cp15 env)"
    by simp_all
  have fin: "finish_v5 ?env = finish_v5 env" "finish_v6 ?env = finish_v6 env"
    by (intro ext; simp only: finish_v5_def finish_v6_def c g)+
  have lev: "v5_level2 ?env = v5_level2 env" by (intro ext) (simp only: v5_level2_def fin f)
  have 5: "get_phys_addr_v5 mem ?env a t u = get_phys_addr_v5 mem env a t u" for a
    by (simp only: get_phys_addr_v5_def fin lev l g)
  have dom: "v6_domain ?env = v6_domain env" by (intro ext; simp only: v6_domain_def g)
  have 6: "get_phys_addr_v6 mem ?env a t u = get_phys_addr_v6 mem env a t u" for a
    by (simp only: get_phys_addr_v6_def fin dom l)
  show ?thesis by (simp only: get_phys_addr_def get_phys_addr_mpu_def 5 6 f g)
qed

text \<open>
  The translation operations of version 6K with an MMU: the write always completes; a successful translation
  gives the physical page with bit 0 clear (unless it is a supersection on version 7), a fault sets bit 0 and shows the low four bits
  of the status. The upper bits of the fault status, bits 10 and 12, never show: the masks in the code
  select other bits and shift them out.
\<close>

theorem va_to_pa_register:
  assumes "feat ARM_FEATURE_V6K w" and "\<not> feat ARM_FEATURE_MPU w" and "insn_crn insn = 7" and "insn_op1 insn = 0"
    and "insn_crm insn = 8" and "insn_op2 insn < 4"
    and "r = get_phys_addr (ram w) (cpu w) val (if bit (insn_op2 insn) 0 then 1 else 0) (bit (insn_op2 insn) 1)"
  shows "\<exists>w'. set_cp15 insn val w = ret w' \<and>
    (\<forall>status. r = ret (Fault status) \<longrightarrow> c7_par (cp w') = push_bit 1 (status AND 0xF) OR 1) \<and>
    (\<forall>phys prot sz. r = ret (Translated phys prot sz) \<and> (sz \<noteq> 0x1000000 \<or> \<not> feat ARM_FEATURE_V7 w) \<longrightarrow>
      c7_par (cp w') = phys AND 0xFFFFF000)"
proof -
  have "\<not> bit (insn_op2 insn) 2" using assms(6) by (simp add: bit_iff_odd)
  moreover obtain res where "r = ret res"
    using get_phys_addr_sound_walk [of "cpu w" "ram w" val] assms(2,7) by (auto simp: feat_def)
  moreover have "drop_bit 5 (s AND 20) = 0" "drop_bit 6 (s AND 24) = 0" for s :: u32
    by (rule u32_eqI; simp add: bit_simps)+
  moreover have "push_bit 1 (10 :: u32) = 20" "push_bit 1 (12 :: u32) = 24" "push_bit 24 (1 :: u32) = 0x1000000" by code_simp+
  ultimately show ?thesis
    using assms(1-5) assms(7) [symmetric]
    by (cases res) (simp_all add: set_cp15_def set_c7_def Let_def get_phys_addr_frame par_value_def)
qed

section \<open>Examples\<close>

text \<open>Instructions by their fields: \<open>mcr p15, op1, r0, crn, crm, op2\<close>.\<close>

definition mcr :: "u32 \<Rightarrow> u32 \<Rightarrow> u32 \<Rightarrow> u32 \<Rightarrow> u32" where
  "mcr op1 crn crm op2 = push_bit 21 op1 OR push_bit 16 crn OR push_bit 5 op2 OR crm"

lemma mcr_fields:
  "insn_crn (mcr 0 2 0 1) = 2" "insn_op2 (mcr 0 2 0 1) = 1" "insn_crm (mcr 0 2 0 1) = 0"
  "insn_crn (mcr 0 2 0 2) = 2" "insn_op2 (mcr 0 2 0 2) = 2" "insn_crn (mcr 0 3 0 0) = 3"
  "insn_crn (mcr 0 5 0 0) = 5" "insn_op2 (mcr 0 5 0 0) = 0" "insn_crn (mcr 0 5 0 1) = 5" "insn_op2 (mcr 0 5 0 1) = 1"
  "insn_crn (mcr 0 8 7 0) = 8" "insn_op2 (mcr 0 8 7 0) = 0" "insn_crn (mcr 0 8 7 1) = 8" "insn_op2 (mcr 0 8 7 1) = 1"
  "insn_crn (mcr 0 7 8 0) = 7" "insn_op1 (mcr 0 7 8 0) = 0" "insn_crm (mcr 0 7 8 0) = 8" "insn_op2 (mcr 0 7 8 0) = 0"
  by code_simp+

theorem cp15_write_read_witness:
  "\<exists>w'. set_cp15 (mcr 0 2 0 1) 0x4000 traced_example = ret w' \<and> get_cp15 (mcr 0 2 0 1) w' = ret (0x4000, w')"
  by (rule cp15_write_read) (simp add: plain_register_def mcr_fields)

theorem cp15_writes_flush_witness:
  "(\<exists>w'. set_cp15 (mcr 0 3 0 0) 3 traced_example = ret w' \<and> no_hit 0x8412 1 (cpu w')) \<and>
   (\<exists>w'. set_cp15 (mcr 0 2 0 1) 0x8000 traced_example = ret w' \<and> tlb_table (cpu w') = tlb_table (cpu traced_example))"
proof -
  obtain w1 where 1: "set_cp15 (mcr 0 3 0 0) 3 traced_example = ret w1" by (simp add: set_cp15_def mcr_fields set_c3_def)
  have "\<exists>w2. set_cp15 (mcr 0 2 0 1) 0x8000 traced_example = ret w2" by (auto simp: set_cp15_def mcr_fields set_c2_def)
  then obtain w2 where 2: "set_cp15 (mcr 0 2 0 1) 0x8000 traced_example = ret w2" ..
  show ?thesis
    using cp15_writes_flush [OF 1] cp15_writes_flush [OF 2] 1 2 by (auto simp: mcr_fields NB_MMU_MODES_def)
qed

lemma traced_example_ok: "sl_ok (tracer traced_example)" "started (tracer traced_example)"
  by (simp_all add: sl_ok_def traced_example_def)

theorem tlb_maintenance_witness:
  "\<exists>w'. set_cp15 (mcr 0 8 7 0) 0 traced_example = ret w' \<and> no_hit 0x8412 1 (cpu w') \<and> \<not> sl_present 0x8000 0 True (tracer w')"
proof -
  obtain w' where w: "set_cp15 (mcr 0 8 7 0) 0 traced_example = ret w'"
    using traced_example_ok with_sl_tlb_flush(1) [OF traced_example_ok(1), of FLUSH_TLB]
    by (simp add: set_cp15_def mcr_fields set_c8_def with_tracer_def tlbtrace_flush_all_def)
  have "(0x8000 :: u32) AND 0xFFFFF000 = 0x8000" by code_simp
  from tlb_maintenance [OF traced_example_ok mcr_fields(11) w _ this, of 1 "0x8412" 0 True] w show ?thesis
    by (auto simp: mcr_fields NB_MMU_MODES_def)
qed

theorem invalidate_entry_leaves_subpages_witness:
  "\<exists>w'. set_cp15 (mcr 0 8 7 1) 0x8000 traced_example = ret w' \<and> entry_at 0x8412 1 (cpu w') = entry_at 0x8412 1 (cpu traced_example)"
proof -
  obtain w' where w: "set_cp15 (mcr 0 8 7 1) 0x8000 traced_example = ret w'"
    using traced_example_ok with_sl_tlb_flush(1) [OF traced_example_ok(1), of "\<lambda>t n. FLUSH_TLB_ENTRY t n 0x8000 0"]
    by (simp add: set_cp15_def mcr_fields set_c8_def with_tracer_def tlbtrace_flush_entry_def FLUSH_TLB_ENTRY_def)
  have "(0x8412 :: u32) AND 0xFFFFF000 = 0x8000 AND 0xFFFFF000" "0x8412 AND TARGET_PAGE_MASK \<noteq> 0x8000 AND TARGET_PAGE_MASK"
    by code_simp+
  from invalidate_entry_leaves_subpages [OF mcr_fields(13,14) w this, of 1] w show ?thesis by blast
qed

lemma traced_example_mmu:
  "\<not> feat ARM_FEATURE_MPU traced_example" by code_simp

theorem ttbcr_splits_address_space_witness:
  "\<exists>w'. set_cp15 (mcr 0 2 0 2) 1 traced_example = ret w' \<and>
    get_level1_table_address (cpu w') 0x80000000 = (c2_base1 (cp traced_example) AND NOT (mask 14)) OR 0x2000"
proof -
  have "(1 :: nat) = unat ((1 :: u32) AND 7)" "drop_bit (32 - 1) (0x80000000 :: u32) \<noteq> 0"
    "push_bit 2 (drop_bit 20 (0x80000000 :: u32)) = 0x2000" by code_simp+
  with ttbcr_splits_address_space [OF traced_example_mmu mcr_fields(4,5) this(1), of "0x80000000"] show ?thesis by auto
qed

definition traced_mpu :: traced where
  "traced_mpu = traced_example\<lparr>cpu := mpu_env\<rparr>"

theorem mpu_permissions_witness:
  "\<exists>w'. set_cp15 (mcr 0 5 0 1) 0x1234 traced_mpu = ret w' \<and> get_cp15 (mcr 0 5 0 1) w' = ret (2, w') \<and>
    simple_mpu_ap_bits (c5_insn (cp w')) = 0x1234"
proof -
  have "feat ARM_FEATURE_MPU traced_mpu" "\<not> feat ARM_FEATURE_OMAPCP traced_mpu"
    "simple_mpu_ap_bits (c5_data (cp traced_mpu)) = 2" "(0x1234 :: u32) AND 0xFFFF = 0x1234" by code_simp+
  with mpu_permissions [OF this(1,2) mcr_fields(7-10), of "0x1234"] show ?thesis by auto
qed

definition traced_v6k :: traced where
  "traced_v6k = traced_example\<lparr>cpu := set_feature ARM_FEATURE_V6K mmu_env\<rparr>"

theorem va_to_pa_register_witness:
  "\<exists>w'. set_cp15 (mcr 0 7 8 0) 0x9412 traced_v6k = ret w' \<and> c7_par (cp w') = 0"
proof -
  have "feat ARM_FEATURE_V6K traced_v6k" "\<not> feat ARM_FEATURE_MPU traced_v6k" "(0x412 :: u32) AND 0xFFFFF000 = 0"
    "returned (get_phys_addr (ram traced_v6k) (cpu traced_v6k) 0x9412 (if bit (insn_op2 (mcr 0 7 8 0)) 0 then 1 else 0)
      (bit (insn_op2 (mcr 0 7 8 0)) 1)) = Some (Translated 0x412 7 0x1000)" by code_simp+
  with va_to_pa_register [OF this(1,2) mcr_fields(15-17) _ refl, of "0x9412"] show ?thesis
    by (auto simp: mcr_fields(18) returned_Some)
qed

end
