(* ===== verification/Arm_Alu.thy ===== *)
theory Arm_Alu
  imports Arm_Cpu
begin

text \<open>
  Integer arithmetic helpers of the ARM processor (\<open>src/qemu/target-arm/helper.c\<close>,
  \<open>src/qemu/target-arm/op_addsub.h\<close>, \<open>src/qemu/target-arm/op_helper.c\<close>): extension, division and bit reversal, the
  ARMv6 operations on halfwords and bytes, saturation with the sticky flag \<open>Q\<close>, arithmetic and shifts that set the
  flags, and access to the user-mode registers. A helper that changes the processor returns the result with the new state.
\<close>

section \<open>Extension, division, bits\<close>

text \<open>Casts between the integer types: \<open>(int8_t)x\<close> as a word of another width, and so on.\<close>

definition sxtb16 :: "u32 \<Rightarrow> u32" where
  "sxtb16 x = ucast (scast (ucast x :: u8) :: u16) OR push_bit 16 (scast (ucast (drop_bit 16 x) :: u8))"

definition uxtb16 :: "u32 \<Rightarrow> u32" where
  "uxtb16 x = ucast (ucast (ucast x :: u8) :: u16) OR push_bit 16 (ucast (ucast (drop_bit 16 x) :: u8))"

definition clz32 :: "u32 \<Rightarrow> u32" where
  "clz32 x = of_nat (length (takeWhile (\<lambda>i. \<not> bit x i) (rev [0..<32])))"

definition helper_sdiv :: "u32 \<Rightarrow> u32 \<Rightarrow> u32" where
  "helper_sdiv num den =
     (if den = 0 then 0
      else if sint num = - (2 ^ 31) \<and> sint den = - 1 then num
      else word_of_int (sint num sdiv sint den))"

definition helper_udiv :: "u32 \<Rightarrow> u32 \<Rightarrow> u32" where
  "helper_udiv num den = (if den = 0 then 0 else num div den)"

definition rbit :: "u32 \<Rightarrow> u32" where
  "rbit x0 =
     (let x1 = drop_bit 24 (x0 AND 0xFF000000) OR drop_bit 8 (x0 AND 0x00FF0000) OR
               push_bit 8 (x0 AND 0x0000FF00) OR push_bit 24 (x0 AND 0x000000FF);
          x2 = drop_bit 4 (x1 AND 0xF0F0F0F0) OR push_bit 4 (x1 AND 0x0F0F0F0F)
      in drop_bit 3 (x2 AND 0x88888888) OR drop_bit 1 (x2 AND 0x44444444) OR
         push_bit 1 (x2 AND 0x22222222) OR push_bit 3 (x2 AND 0x11111111))"

definition helper_abs :: "u32 \<Rightarrow> u32" where
  "helper_abs x = (if sint x < 0 then - x else x)"

section \<open>Saturation of halfwords and bytes\<close>

definition add16_sat :: "u16 \<Rightarrow> u16 \<Rightarrow> u16" where
  "add16_sat a b =
     (let res = a + b in
      if (res XOR a) AND 0x8000 \<noteq> 0 \<and> (a XOR b) AND 0x8000 = 0
      then (if a AND 0x8000 \<noteq> 0 then 0x8000 else 0x7FFF) else res)"

definition add8_sat :: "u8 \<Rightarrow> u8 \<Rightarrow> u8" where
  "add8_sat a b =
     (let res = a + b in
      if (res XOR a) AND 0x80 \<noteq> 0 \<and> (a XOR b) AND 0x80 = 0
      then (if a AND 0x80 \<noteq> 0 then 0x80 else 0x7F) else res)"

definition sub16_sat :: "u16 \<Rightarrow> u16 \<Rightarrow> u16" where
  "sub16_sat a b =
     (let res = a - b in
      if (res XOR a) AND 0x8000 \<noteq> 0 \<and> (a XOR b) AND 0x8000 \<noteq> 0
      then (if a AND 0x8000 \<noteq> 0 then 0x8000 else 0x7FFF) else res)"

definition sub8_sat :: "u8 \<Rightarrow> u8 \<Rightarrow> u8" where
  "sub8_sat a b =
     (let res = a - b in
      if (res XOR a) AND 0x80 \<noteq> 0 \<and> (a XOR b) AND 0x80 \<noteq> 0
      then (if a AND 0x80 \<noteq> 0 then 0x80 else 0x7F) else res)"

definition add16_usat :: "u16 \<Rightarrow> u16 \<Rightarrow> u16" where
  "add16_usat a b = (let res = a + b in if res < a then 0xFFFF else res)"

definition sub16_usat :: "u16 \<Rightarrow> u16 \<Rightarrow> u16" where
  "sub16_usat a b = (if a > b then a - b else 0)"

definition add8_usat :: "u8 \<Rightarrow> u8 \<Rightarrow> u8" where
  "add8_usat a b = (let res = a + b in if res < a then 0xFF else res)"

definition sub8_usat :: "u8 \<Rightarrow> u8 \<Rightarrow> u8" where
  "sub8_usat a b = (if a > b then a - b else 0)"

section \<open>Operations on halfwords and bytes\<close>

text \<open>
  The macros that \<open>op_addsub.h\<close> is instantiated with: lane operations on the truncated operands, which
  return the lane of the result and whether the \<open>GE\<close> bits of the lane are set.
\<close>

record lane_ops =
  ADD16 :: "u16 \<Rightarrow> u16 \<Rightarrow> u16 \<times> bool"
  SUB16 :: "u16 \<Rightarrow> u16 \<Rightarrow> u16 \<times> bool"
  ADD8 :: "u8 \<Rightarrow> u8 \<Rightarrow> u8 \<times> bool"
  SUB8 :: "u8 \<Rightarrow> u8 \<Rightarrow> u8 \<times> bool"

definition result16 :: "nat \<Rightarrow> u16 \<times> bool \<Rightarrow> u32 \<times> u32 \<Rightarrow> u32 \<times> u32" where
  "result16 n lane acc =
     (fst acc OR push_bit (n * 16) (ucast (fst lane)), if snd lane then snd acc OR push_bit (n * 2) 3 else snd acc)"

definition result8 :: "nat \<Rightarrow> u8 \<times> bool \<Rightarrow> u32 \<times> u32 \<Rightarrow> u32 \<times> u32" where
  "result8 n lane acc =
     (fst acc OR push_bit (n * 8) (ucast (fst lane)), if snd lane then snd acc OR push_bit n 1 else snd acc)"

definition half :: "nat \<Rightarrow> u32 \<Rightarrow> u16" where
  "half n x = ucast (drop_bit (n * 16) x)"

definition byte :: "nat \<Rightarrow> u32 \<Rightarrow> u8" where
  "byte n x = ucast (drop_bit (n * 8) x)"

text \<open>The six functions of \<open>op_addsub.h\<close>: result and \<open>GE\<close> bits (0 where \<open>ARITH_GE\<close> is not defined).\<close>

definition op_add16 :: "lane_ops \<Rightarrow> u32 \<Rightarrow> u32 \<Rightarrow> u32 \<times> u32" where
  "op_add16 f a b = result16 1 (ADD16 f (half 1 a) (half 1 b)) (result16 0 (ADD16 f (half 0 a) (half 0 b)) (0, 0))"

definition op_sub16 :: "lane_ops \<Rightarrow> u32 \<Rightarrow> u32 \<Rightarrow> u32 \<times> u32" where
  "op_sub16 f a b = result16 1 (SUB16 f (half 1 a) (half 1 b)) (result16 0 (SUB16 f (half 0 a) (half 0 b)) (0, 0))"

definition op_add8 :: "lane_ops \<Rightarrow> u32 \<Rightarrow> u32 \<Rightarrow> u32 \<times> u32" where
  "op_add8 f a b = fold (\<lambda>n. result8 n (ADD8 f (byte n a) (byte n b))) [0, 1, 2, 3] (0, 0)"

definition op_sub8 :: "lane_ops \<Rightarrow> u32 \<Rightarrow> u32 \<Rightarrow> u32 \<times> u32" where
  "op_sub8 f a b = fold (\<lambda>n. result8 n (SUB8 f (byte n a) (byte n b))) [0, 1, 2, 3] (0, 0)"

definition op_subaddx :: "lane_ops \<Rightarrow> u32 \<Rightarrow> u32 \<Rightarrow> u32 \<times> u32" where
  "op_subaddx f a b = result16 1 (SUB16 f (half 1 a) (half 0 b)) (result16 0 (ADD16 f (half 0 a) (half 1 b)) (0, 0))"

definition op_addsubx :: "lane_ops \<Rightarrow> u32 \<Rightarrow> u32 \<Rightarrow> u32 \<times> u32" where
  "op_addsubx f a b = result16 1 (ADD16 f (half 1 a) (half 0 b)) (result16 0 (SUB16 f (half 0 a) (half 1 b)) (0, 0))"

text \<open>The instances: signed and unsigned saturating, modulo with \<open>GE\<close>, and halving.\<close>

definition ops_q :: lane_ops where
  "ops_q = \<lparr>ADD16 = (\<lambda>a b. (add16_sat a b, False)), SUB16 = (\<lambda>a b. (sub16_sat a b, False)),
     ADD8 = (\<lambda>a b. (add8_sat a b, False)), SUB8 = (\<lambda>a b. (sub8_sat a b, False))\<rparr>"

definition ops_uq :: lane_ops where
  "ops_uq = \<lparr>ADD16 = (\<lambda>a b. (add16_usat a b, False)), SUB16 = (\<lambda>a b. (sub16_usat a b, False)),
     ADD8 = (\<lambda>a b. (add8_usat a b, False)), SUB8 = (\<lambda>a b. (sub8_usat a b, False))\<rparr>"

definition ops_s :: lane_ops where
  "ops_s = \<lparr>ADD16 = (\<lambda>a b. (word_of_int (sint a + sint b), 0 \<le> sint a + sint b)),
     SUB16 = (\<lambda>a b. (word_of_int (sint a - sint b), 0 \<le> sint a - sint b)),
     ADD8 = (\<lambda>a b. (word_of_int (sint a + sint b), 0 \<le> sint a + sint b)),
     SUB8 = (\<lambda>a b. (word_of_int (sint a - sint b), 0 \<le> sint a - sint b))\<rparr>"

definition ops_u :: lane_ops where
  "ops_u = \<lparr>ADD16 = (\<lambda>a b. let sum = ucast a + ucast b :: u32 in (ucast sum, drop_bit 16 sum = 1)),
     SUB16 = (\<lambda>a b. let sum = ucast a - ucast b :: u32 in (ucast sum, drop_bit 16 sum = 0)),
     ADD8 = (\<lambda>a b. let sum = ucast a + ucast b :: u32 in (ucast sum, drop_bit 8 sum = 1)),
     SUB8 = (\<lambda>a b. let sum = ucast a - ucast b :: u32 in (ucast sum, drop_bit 8 sum = 0))\<rparr>"

definition ops_sh :: lane_ops where
  "ops_sh = \<lparr>ADD16 = (\<lambda>a b. (word_of_int (drop_bit 1 (sint a + sint b)), False)),
     SUB16 = (\<lambda>a b. (word_of_int (drop_bit 1 (sint a - sint b)), False)),
     ADD8 = (\<lambda>a b. (word_of_int (drop_bit 1 (sint a + sint b)), False)),
     SUB8 = (\<lambda>a b. (word_of_int (drop_bit 1 (sint a - sint b)), False))\<rparr>"

definition ops_uh :: lane_ops where
  "ops_uh = \<lparr>ADD16 = (\<lambda>a b. (ucast (drop_bit 1 (ucast a + ucast b :: u32)), False)),
     SUB16 = (\<lambda>a b. (ucast (drop_bit 1 (ucast a - ucast b :: u32)), False)),
     ADD8 = (\<lambda>a b. (ucast (drop_bit 1 (ucast a + ucast b :: u32)), False)),
     SUB8 = (\<lambda>a b. (ucast (drop_bit 1 (ucast a - ucast b :: u32)), False))\<rparr>"

definition do_usad :: "u8 \<Rightarrow> u8 \<Rightarrow> u8" where
  "do_usad a b = (if a > b then a - b else b - a)"

definition usad8 :: "u32 \<Rightarrow> u32 \<Rightarrow> u32" where
  "usad8 a b = ucast (do_usad (byte 0 a) (byte 0 b)) + ucast (do_usad (byte 1 a) (byte 1 b)) +
     ucast (do_usad (byte 2 a) (byte 2 b)) + ucast (do_usad (byte 3 a) (byte 3 b))"

definition sel_flags :: "u32 \<Rightarrow> u32 \<Rightarrow> u32 \<Rightarrow> u32" where
  "sel_flags fl a b =
     (let m = (if bit fl 0 then 0xFF else 0) OR (if bit fl 1 then 0xFF00 else 0) OR
              (if bit fl 2 then 0xFF0000 else 0) OR (if bit fl 3 then 0xFF000000 else 0)
      in (a AND m) OR (b AND NOT m))"

definition logicq_cc :: "u64 \<Rightarrow> u32" where
  "logicq_cc val = ucast (drop_bit 32 val OR of_bool (val \<noteq> 0))"

section \<open>Saturation with the sticky flag\<close>

definition SIGNBIT :: u32 where "SIGNBIT = 0x80000000"

definition set_q :: "'a CPUARMState_scheme \<Rightarrow> 'a CPUARMState_scheme" where
  "set_q env = env\<lparr>QF := 1\<rparr>"

definition add_setq :: "u32 \<Rightarrow> u32 \<Rightarrow> 'a CPUARMState_scheme \<Rightarrow> u32 \<times> 'a CPUARMState_scheme" where
  "add_setq a b env =
     (let res = a + b in
      (res, if (res XOR a) AND SIGNBIT \<noteq> 0 \<and> (a XOR b) AND SIGNBIT = 0 then set_q env else env))"

definition add_saturate :: "u32 \<Rightarrow> u32 \<Rightarrow> 'a CPUARMState_scheme \<Rightarrow> u32 \<times> 'a CPUARMState_scheme" where
  "add_saturate a b env =
     (let res = a + b in
      if (res XOR a) AND SIGNBIT \<noteq> 0 \<and> (a XOR b) AND SIGNBIT = 0
      then (NOT (signed_drop_bit 31 a XOR SIGNBIT), set_q env) else (res, env))"

definition sub_saturate :: "u32 \<Rightarrow> u32 \<Rightarrow> 'a CPUARMState_scheme \<Rightarrow> u32 \<times> 'a CPUARMState_scheme" where
  "sub_saturate a b env =
     (let res = a - b in
      if (res XOR a) AND SIGNBIT \<noteq> 0 \<and> (a XOR b) AND SIGNBIT \<noteq> 0
      then (NOT (signed_drop_bit 31 a XOR SIGNBIT), set_q env) else (res, env))"

definition double_saturate :: "u32 \<Rightarrow> 'a CPUARMState_scheme \<Rightarrow> u32 \<times> 'a CPUARMState_scheme" where
  "double_saturate val env =
     (if 0x40000000 \<le> sint val then (NOT SIGNBIT, set_q env)
      else if sint val \<le> - 0x40000000 then (SIGNBIT, set_q env)
      else (push_bit 1 val, env))"

definition add_usaturate :: "u32 \<Rightarrow> u32 \<Rightarrow> 'a CPUARMState_scheme \<Rightarrow> u32 \<times> 'a CPUARMState_scheme" where
  "add_usaturate a b env = (let res = a + b in if res < a then (- 1, set_q env) else (res, env))"

definition sub_usaturate :: "u32 \<Rightarrow> u32 \<Rightarrow> 'a CPUARMState_scheme \<Rightarrow> u32 \<times> 'a CPUARMState_scheme" where
  "sub_usaturate a b env = (let res = a - b in if a < res then (0, set_q env) else (res, env))"

definition do_ssat :: "u32 \<Rightarrow> nat \<Rightarrow> 'a CPUARMState_scheme \<Rightarrow> u32 \<times> 'a CPUARMState_scheme" where
  "do_ssat val shift env =
     (let top = sint (signed_drop_bit shift val); m = push_bit shift 1 - 1 in
      if 0 < top then (m, set_q env)
      else if top < - 1 then (NOT m, set_q env)
      else (val, env))"

definition do_usat :: "u32 \<Rightarrow> nat \<Rightarrow> 'a CPUARMState_scheme \<Rightarrow> u32 \<times> 'a CPUARMState_scheme" where
  "do_usat val shift env =
     (let mx = push_bit shift 1 - 1 in
      if sint val < 0 then (0, set_q env)
      else if mx < val then (mx, set_q env)
      else (val, env))"

definition ssat :: "u32 \<Rightarrow> u32 \<Rightarrow> 'a CPUARMState_scheme \<Rightarrow> u32 \<times> 'a CPUARMState_scheme" where
  "ssat x shift env = do_ssat x (unat shift) env"

definition ssat16 :: "u32 \<Rightarrow> u32 \<Rightarrow> 'a CPUARMState_scheme \<Rightarrow> u32 \<times> 'a CPUARMState_scheme" where
  "ssat16 x shift env =
     (case do_ssat (scast (ucast x :: u16)) (unat shift) env of (lo, env1) \<Rightarrow>
      case do_ssat (signed_drop_bit 16 x) (unat shift) env1 of (hi, env2) \<Rightarrow>
        (ucast (ucast lo :: u16) OR push_bit 16 hi, env2))"

definition usat :: "u32 \<Rightarrow> u32 \<Rightarrow> 'a CPUARMState_scheme \<Rightarrow> u32 \<times> 'a CPUARMState_scheme" where
  "usat x shift env = do_usat x (unat shift) env"

definition usat16 :: "u32 \<Rightarrow> u32 \<Rightarrow> 'a CPUARMState_scheme \<Rightarrow> u32 \<times> 'a CPUARMState_scheme" where
  "usat16 x shift env =
     (case do_usat (scast (ucast x :: u16)) (unat shift) env of (lo, env1) \<Rightarrow>
      case do_usat (signed_drop_bit 16 x) (unat shift) env1 of (hi, env2) \<Rightarrow>
        (ucast (ucast lo :: u16) OR push_bit 16 hi, env2))"

section \<open>Arithmetic with flags\<close>

definition set_nz :: "u32 \<Rightarrow> 'a CPUARMState_scheme \<Rightarrow> 'a CPUARMState_scheme" where
  "set_nz res env = env\<lparr>NF := res, ZF := res\<rparr>"

definition add_cc :: "u32 \<Rightarrow> u32 \<Rightarrow> 'a CPUARMState_scheme \<Rightarrow> u32 \<times> 'a CPUARMState_scheme" where
  "add_cc a b env =
     (let res = a + b in
      (res, (set_nz res env)\<lparr>CF := of_bool (res < a), VF := (a XOR b XOR - 1) AND (a XOR res)\<rparr>))"

definition adc_cc :: "u32 \<Rightarrow> u32 \<Rightarrow> 'a CPUARMState_scheme \<Rightarrow> u32 \<times> 'a CPUARMState_scheme" where
  "adc_cc a b env =
     (let res = (if CF env = 0 then a + b else a + b + 1);
          c = (if CF env = 0 then res < a else res \<le> a)
      in (res, (set_nz res env)\<lparr>CF := of_bool c, VF := (a XOR b XOR - 1) AND (a XOR res)\<rparr>))"

definition sub_cc :: "u32 \<Rightarrow> u32 \<Rightarrow> 'a CPUARMState_scheme \<Rightarrow> u32 \<times> 'a CPUARMState_scheme" where
  "sub_cc a b env =
     (let res = a - b in
      (res, (set_nz res env)\<lparr>CF := of_bool (b \<le> a), VF := (a XOR b) AND (a XOR res)\<rparr>))"

definition sbc_cc :: "u32 \<Rightarrow> u32 \<Rightarrow> 'a CPUARMState_scheme \<Rightarrow> u32 \<times> 'a CPUARMState_scheme" where
  "sbc_cc a b env =
     (let res = (if CF env = 0 then a - b - 1 else a - b);
          c = (if CF env = 0 then b < a else b \<le> a)
      in (res, (set_nz res env)\<lparr>CF := of_bool c, VF := (a XOR b) AND (a XOR res)\<rparr>))"

section \<open>Shifts by a register\<close>

definition shift_amount :: "u32 \<Rightarrow> nat" where
  "shift_amount i = unat (i AND 0xFF)"

definition shl :: "u32 \<Rightarrow> u32 \<Rightarrow> u32" where
  "shl x i = (if 32 \<le> shift_amount i then 0 else push_bit (shift_amount i) x)"

definition shr :: "u32 \<Rightarrow> u32 \<Rightarrow> u32" where
  "shr x i = (if 32 \<le> shift_amount i then 0 else drop_bit (shift_amount i) x)"

definition sar :: "u32 \<Rightarrow> u32 \<Rightarrow> u32" where
  "sar x i = signed_drop_bit (if 32 \<le> shift_amount i then 31 else shift_amount i) x"

definition shl_cc :: "u32 \<Rightarrow> u32 \<Rightarrow> 'a CPUARMState_scheme \<Rightarrow> u32 \<times> 'a CPUARMState_scheme" where
  "shl_cc x i env =
     (let shift = shift_amount i in
      if 32 \<le> shift then (0, env\<lparr>CF := (if shift = 32 then x AND 1 else 0)\<rparr>)
      else if shift \<noteq> 0 then (push_bit shift x, env\<lparr>CF := drop_bit (32 - shift) x AND 1\<rparr>)
      else (x, env))"

definition shr_cc :: "u32 \<Rightarrow> u32 \<Rightarrow> 'a CPUARMState_scheme \<Rightarrow> u32 \<times> 'a CPUARMState_scheme" where
  "shr_cc x i env =
     (let shift = shift_amount i in
      if 32 \<le> shift then (0, env\<lparr>CF := (if shift = 32 then drop_bit 31 x AND 1 else 0)\<rparr>)
      else if shift \<noteq> 0 then (drop_bit shift x, env\<lparr>CF := drop_bit (shift - 1) x AND 1\<rparr>)
      else (x, env))"

definition sar_cc :: "u32 \<Rightarrow> u32 \<Rightarrow> 'a CPUARMState_scheme \<Rightarrow> u32 \<times> 'a CPUARMState_scheme" where
  "sar_cc x i env =
     (let shift = shift_amount i in
      if 32 \<le> shift then (signed_drop_bit 31 x, env\<lparr>CF := drop_bit 31 x AND 1\<rparr>)
      else if shift \<noteq> 0 then (signed_drop_bit shift x, env\<lparr>CF := drop_bit (shift - 1) x AND 1\<rparr>)
      else (x, env))"

definition ror_cc :: "u32 \<Rightarrow> u32 \<Rightarrow> 'a CPUARMState_scheme \<Rightarrow> u32 \<times> 'a CPUARMState_scheme" where
  "ror_cc x i env =
     (let shift1 = shift_amount i; shift = shift1 mod 32 in
      if shift = 0 then (x, if shift1 \<noteq> 0 then env\<lparr>CF := drop_bit 31 x AND 1\<rparr> else env)
      else (drop_bit shift x OR push_bit (32 - shift) x, env\<lparr>CF := drop_bit (shift - 1) x AND 1\<rparr>))"

section \<open>User-mode registers\<close>

definition get_user_reg :: "nat \<Rightarrow> 'a CPUARMState_scheme \<Rightarrow> u32" where
  "get_user_reg regno env =
     (if regno = 13 then banked_r13 env 0
      else if regno = 14 then banked_r14 env 0
      else if 8 \<le> regno \<and> uncached_cpsr env AND 0x1F = ARM_CPU_MODE_FIQ then usr_regs env (regno - 8)
      else regs env regno)"

definition set_user_reg :: "nat \<Rightarrow> u32 \<Rightarrow> 'a CPUARMState_scheme \<Rightarrow> 'a CPUARMState_scheme" where
  "set_user_reg regno val env =
     (if regno = 13 then env\<lparr>banked_r13 := (banked_r13 env)(0 := val)\<rparr>
      else if regno = 14 then env\<lparr>banked_r14 := (banked_r14 env)(0 := val)\<rparr>
      else if 8 \<le> regno \<and> uncached_cpsr env AND 0x1F = ARM_CPU_MODE_FIQ
        then env\<lparr>usr_regs := (usr_regs env)(regno - 8 := val)\<rparr>
      else env\<lparr>regs := (regs env)(regno := val)\<rparr>)"

end
