(* ===== verification/Arm_Arith.thy ===== *)
theory Arm_Arith
  imports Arm_Alu
begin

text \<open>
  Correctness of the integer arithmetic of the ARM processor against arithmetic on the integers: saturating
  operations clamp, the flags of addition and subtraction are carry and overflow, bit reversal reverses.
\<close>

section \<open>Signed arithmetic\<close>

text \<open>The value of a wrapped sum or difference, by the range of the exact one.\<close>

definition wrap :: "int \<Rightarrow> int \<Rightarrow> int" where
  "wrap m s = (if s < - m then s + 2 * m else if m \<le> s then s - 2 * m else s)"

lemma sint_range: "- (2 ^ (LENGTH('a) - 1)) \<le> sint (a :: 'a::len word)" "sint a < 2 ^ (LENGTH('a) - 1)"
  using sint_greater_eq [of a] sint_less [of a] by auto

lemma sint_word_of_int_wrap:
  assumes "- 2 * 2 ^ (LENGTH('a) - 1) \<le> s" and "s < 2 * 2 ^ (LENGTH('a) - 1)"
  shows "sint (word_of_int s :: 'a::len word) = wrap (2 ^ (LENGTH('a) - 1)) s"
proof -
  let ?m = "2 ^ (LENGTH('a) - 1) :: int"
  have "(2 :: int) ^ LENGTH('a) = 2 * ?m" by (metis len_gt_0 power_eq_if not_gr0)
  then have e: "sint (word_of_int s :: 'a word) = (s + ?m) mod (2 * ?m) - ?m"
    by (simp add: int_word_sint)
  have pos: "0 < ?m" by simp
  consider "s < - ?m" | "- ?m \<le> s" "s < ?m" | "?m \<le> s" by linarith
  then show ?thesis
  proof cases
    case 1
    then have "(s + ?m) mod (2 * ?m) = s + ?m + 2 * ?m" using assms(1) pos by (smt (verit) mod_add_self2 mod_pos_pos_trivial)
    with 1 e show ?thesis by (simp add: wrap_def)
  next
    case 2
    then have "(s + ?m) mod (2 * ?m) = s + ?m" by simp
    with 2 e show ?thesis by (simp add: wrap_def)
  next
    case 3
    then have "(s + ?m) mod (2 * ?m) = s + ?m - 2 * ?m" using assms(2) pos by (smt (verit) minus_mod_self2 mod_pos_pos_trivial)
    moreover have "\<not> s < - ?m" using 3 pos by linarith
    ultimately show ?thesis using 3 e by (simp add: wrap_def)
  qed
qed

lemma sint_add: "sint (a + b :: 'a::len word) = wrap (2 ^ (LENGTH('a) - 1)) (sint a + sint b)"
proof -
  have "a + b = word_of_int (sint a + sint b)" by simp
  then show ?thesis using sint_word_of_int_wrap [of "sint a + sint b", where 'a = 'a] sint_range [of a] sint_range [of b] by simp
qed

lemma sint_sub: "sint (a - b :: 'a::len word) = wrap (2 ^ (LENGTH('a) - 1)) (sint a - sint b)"
proof -
  have "a - b = word_of_int (sint a - sint b)" by simp
  then show ?thesis using sint_word_of_int_wrap [of "sint a - sint b", where 'a = 'a] sint_range [of a] sint_range [of b] by simp
qed

text \<open>The tests of the code look at the sign bit.\<close>

lemma sign_bit:
  "(w :: u8) AND 0x80 = 0 \<longleftrightarrow> 0 \<le> sint w" "(x :: u16) AND 0x8000 = 0 \<longleftrightarrow> 0 \<le> sint x"
  "(y :: u32) AND 0x80000000 = 0 \<longleftrightarrow> 0 \<le> sint y"
proof -
  have e: "(0x80 :: u8) = 2 ^ 7" "(0x8000 :: u16) = 2 ^ 15" "(0x80000000 :: u32) = 2 ^ 31" by simp_all
  show "(w :: u8) AND 0x80 = 0 \<longleftrightarrow> 0 \<le> sint w" "(x :: u16) AND 0x8000 = 0 \<longleftrightarrow> 0 \<le> sint x"
    "(y :: u32) AND 0x80000000 = 0 \<longleftrightarrow> 0 \<le> sint y"
    unfolding e and_exp_eq_0_iff_not_bit using bit_last_iff [of w] bit_last_iff [of x] bit_last_iff [of y] by auto
qed

lemma sign_xor: "0 \<le> sint (a XOR b :: 'a::len word) \<longleftrightarrow> (0 \<le> sint a \<longleftrightarrow> 0 \<le> sint b)"
  using bit_last_iff [of "a XOR b"] bit_last_iff [of a] bit_last_iff [of b] by (auto simp: bit_simps)

section \<open>Saturation\<close>

definition clamp :: "int \<Rightarrow> int \<Rightarrow> int \<Rightarrow> int" where
  "clamp lo hi x = max lo (min hi x)"

text \<open>The overflow test of the saturating operations, for a wrapped result.\<close>

lemma overflow_add:
  assumes "- m \<le> x" and "x < m" and "- m \<le> y" and "y < m"
  shows "(0 \<le> wrap m (x + y) \<longleftrightarrow> 0 \<le> x) \<or> \<not> (0 \<le> x \<longleftrightarrow> 0 \<le> y) \<longleftrightarrow> - m \<le> x + y \<and> x + y < m"
  using assms by (auto simp: wrap_def)

lemma overflow_sub:
  assumes "- m \<le> x" and "x < m" and "- m \<le> y" and "y < m"
  shows "(0 \<le> wrap m (x - y) \<longleftrightarrow> 0 \<le> x) \<or> (0 \<le> x \<longleftrightarrow> 0 \<le> y) \<longleftrightarrow> - m \<le> x - y \<and> x - y < m"
  using assms by (auto simp: wrap_def)

lemma sint_limits:
  "sint (0x80 :: u8) = - 128" "sint (0x7F :: u8) = 127" "sint (0x8000 :: u16) = - 32768" "sint (0x7FFF :: u16) = 32767"
  "sint (0x80000000 :: u32) = - 2147483648" "sint (0x7FFFFFFF :: u32) = 2147483647"
  by code_simp+

lemma add8_sat_clamps: "sint (add8_sat a b) = clamp (- 128) 127 (sint a + sint b)"
  using sint_range [of a] sint_range [of b] overflow_add [of 128 "sint a" "sint b"]
  by (auto simp: add8_sat_def Let_def sign_bit sign_xor sint_add sint_limits clamp_def wrap_def)

lemma sub8_sat_clamps: "sint (sub8_sat a b) = clamp (- 128) 127 (sint a - sint b)"
  using sint_range [of a] sint_range [of b] overflow_sub [of 128 "sint a" "sint b"]
  by (auto simp: sub8_sat_def Let_def sign_bit sign_xor sint_sub sint_limits clamp_def wrap_def)

lemma add16_sat_clamps: "sint (add16_sat a b) = clamp (- 32768) 32767 (sint a + sint b)"
  using sint_range [of a] sint_range [of b] overflow_add [of 32768 "sint a" "sint b"]
  by (auto simp: add16_sat_def Let_def sign_bit sign_xor sint_add sint_limits clamp_def wrap_def)

lemma sub16_sat_clamps: "sint (sub16_sat a b) = clamp (- 32768) 32767 (sint a - sint b)"
  using sint_range [of a] sint_range [of b] overflow_sub [of 32768 "sint a" "sint b"]
  by (auto simp: sub16_sat_def Let_def sign_bit sign_xor sint_sub sint_limits clamp_def wrap_def)

lemma uint_add_cases: "uint (a + b :: 'a::len word) = (if uint a + uint b < 2 ^ LENGTH('a) then uint a + uint b
  else uint a + uint b - 2 ^ LENGTH('a))"
  by (simp add: uint_plus_if_size word_size)

lemma uint_sub_cases: "uint (a - b :: 'a::len word) = (if uint b \<le> uint a then uint a - uint b
  else uint a - uint b + 2 ^ LENGTH('a))"
  by (simp add: uint_sub_if_size word_size)

lemma usat_clamps:
  "uint (add8_usat a8 b8) = min 255 (uint a8 + uint b8)" "uint (sub8_usat a8 b8) = max 0 (uint a8 - uint b8)"
  "uint (add16_usat a16 b16) = min 65535 (uint a16 + uint b16)" "uint (sub16_usat a16 b16) = max 0 (uint a16 - uint b16)"
  using uint_bounded [of a8] uint_bounded [of b8] uint_bounded [of a16] uint_bounded [of b16]
  by (auto simp: add8_usat_def sub8_usat_def add16_usat_def sub16_usat_def Let_def word_less_def uint_add_cases uint_sub_cases
    simp del: uint_word_ariths)

text \<open>The lanes of a packed result are the results of the lanes.\<close>

lemma half_result16:
  "half 0 (fst (result16 1 l1 (result16 0 l0 (0, 0)))) = fst l0"
  "half 1 (fst (result16 1 l1 (result16 0 l0 (0, 0)))) = fst l1"
  by (rule bit_word_eqI; auto simp: half_def result16_def bit_simps dest: bit_imp_le_length)+

lemma byte_result8:
  "byte 0 (fst (result8 3 l3 (result8 2 l2 (result8 1 l1 (result8 0 l0 (0, 0)))))) = fst l0"
  "byte 1 (fst (result8 3 l3 (result8 2 l2 (result8 1 l1 (result8 0 l0 (0, 0)))))) = fst l1"
  "byte 2 (fst (result8 3 l3 (result8 2 l2 (result8 1 l1 (result8 0 l0 (0, 0)))))) = fst l2"
  "byte 3 (fst (result8 3 l3 (result8 2 l2 (result8 1 l1 (result8 0 l0 (0, 0)))))) = fst l3"
  by (rule bit_word_eqI; auto simp: byte_def result8_def bit_simps dest: bit_imp_le_length)+

definition sclamp :: "nat \<Rightarrow> int \<Rightarrow> int" where
  "sclamp n = clamp (- (2 ^ (n - 1))) (2 ^ (n - 1) - 1)"

definition uclamp :: "nat \<Rightarrow> int \<Rightarrow> int" where
  "uclamp n = clamp 0 (2 ^ n - 1)"

lemma clamp_unsigned:
  "clamp 0 255 (uint (a8 :: u8) + uint (b8 :: u8)) = min 255 (uint a8 + uint b8)"
  "clamp 0 255 (uint a8 - uint b8) = max 0 (uint a8 - uint b8)"
  "clamp 0 65535 (uint (a16 :: u16) + uint (b16 :: u16)) = min 65535 (uint a16 + uint b16)"
  "clamp 0 65535 (uint a16 - uint b16) = max 0 (uint a16 - uint b16)"
proof -
  have "clamp 0 hi (x + y) = min hi (x + y)" if "0 \<le> x" "0 \<le> y" "0 \<le> hi" for hi x y :: int using that by (auto simp: clamp_def)
  moreover have "clamp 0 hi (x - y) = max 0 (x - y)" if "x \<le> hi" "0 \<le> y" for hi x y :: int using that by (auto simp: clamp_def)
  ultimately show "clamp 0 255 (uint (a8 :: u8) + uint (b8 :: u8)) = min 255 (uint a8 + uint b8)"
    "clamp 0 255 (uint a8 - uint b8) = max 0 (uint a8 - uint b8)"
    "clamp 0 65535 (uint (a16 :: u16) + uint (b16 :: u16)) = min 65535 (uint a16 + uint b16)"
    "clamp 0 65535 (uint a16 - uint b16) = max 0 (uint a16 - uint b16)"
    using uint_bounded [of a8] uint_bounded [of a16] by simp_all
qed

lemma upt_four: "[0..<4] = [0, 1, 2, 3 :: nat]"
  by (simp add: upt_rec)

lemma saturating_lanes:
  "sint (add8_sat a8 b8) = sclamp 8 (sint a8 + sint b8)" "sint (sub8_sat a8 b8) = sclamp 8 (sint a8 - sint b8)"
  "sint (add16_sat a16 b16) = sclamp 16 (sint a16 + sint b16)" "sint (sub16_sat a16 b16) = sclamp 16 (sint a16 - sint b16)"
  "uint (add8_usat a8 b8) = uclamp 8 (uint a8 + uint b8)" "uint (sub8_usat a8 b8) = uclamp 8 (uint a8 - uint b8)"
  "uint (add16_usat a16 b16) = uclamp 16 (uint a16 + uint b16)" "uint (sub16_usat a16 b16) = uclamp 16 (uint a16 - uint b16)"
  by (simp_all add: sclamp_def uclamp_def add16_sat_clamps sub16_sat_clamps add8_sat_clamps sub8_sat_clamps
    usat_clamps clamp_unsigned)

lemmas lane_defs = op_add16_def op_sub16_def op_add8_def op_sub8_def op_addsubx_def op_subaddx_def ops_q_def ops_uq_def

text \<open>
  The parallel saturating instructions work lane by lane: each halfword or byte of the result is the exact sum or
  difference of the operands' lanes, clamped to the range of the lane, signed (the Q instances) or unsigned (the UQ
  instances); the exchanging instructions pair each halfword with the opposite one.
\<close>

theorem parallel_saturation:
  "map (\<lambda>n. sint (half n (fst (op_add16 ops_q a b)))) [0, 1] = map (\<lambda>n. sclamp 16 (sint (half n a) + sint (half n b))) [0, 1] \<and>
   map (\<lambda>n. sint (half n (fst (op_sub16 ops_q a b)))) [0, 1] = map (\<lambda>n. sclamp 16 (sint (half n a) - sint (half n b))) [0, 1] \<and>
   map (\<lambda>n. sint (half n (fst (op_addsubx ops_q a b)))) [0, 1] =
     [sclamp 16 (sint (half 0 a) - sint (half 1 b)), sclamp 16 (sint (half 1 a) + sint (half 0 b))] \<and>
   map (\<lambda>n. sint (half n (fst (op_subaddx ops_q a b)))) [0, 1] =
     [sclamp 16 (sint (half 0 a) + sint (half 1 b)), sclamp 16 (sint (half 1 a) - sint (half 0 b))] \<and>
   map (\<lambda>n. sint (byte n (fst (op_add8 ops_q a b)))) [0..<4] = map (\<lambda>n. sclamp 8 (sint (byte n a) + sint (byte n b))) [0..<4] \<and>
   map (\<lambda>n. sint (byte n (fst (op_sub8 ops_q a b)))) [0..<4] = map (\<lambda>n. sclamp 8 (sint (byte n a) - sint (byte n b))) [0..<4] \<and>
   map (\<lambda>n. uint (half n (fst (op_add16 ops_uq a b)))) [0, 1] = map (\<lambda>n. uclamp 16 (uint (half n a) + uint (half n b))) [0, 1] \<and>
   map (\<lambda>n. uint (half n (fst (op_sub16 ops_uq a b)))) [0, 1] = map (\<lambda>n. uclamp 16 (uint (half n a) - uint (half n b))) [0, 1] \<and>
   map (\<lambda>n. uint (half n (fst (op_addsubx ops_uq a b)))) [0, 1] =
     [uclamp 16 (uint (half 0 a) - uint (half 1 b)), uclamp 16 (uint (half 1 a) + uint (half 0 b))] \<and>
   map (\<lambda>n. uint (half n (fst (op_subaddx ops_uq a b)))) [0, 1] =
     [uclamp 16 (uint (half 0 a) + uint (half 1 b)), uclamp 16 (uint (half 1 a) - uint (half 0 b))] \<and>
   map (\<lambda>n. uint (byte n (fst (op_add8 ops_uq a b)))) [0..<4] = map (\<lambda>n. uclamp 8 (uint (byte n a) + uint (byte n b))) [0..<4] \<and>
   map (\<lambda>n. uint (byte n (fst (op_sub8 ops_uq a b)))) [0..<4] = map (\<lambda>n. uclamp 8 (uint (byte n a) - uint (byte n b))) [0..<4]"
  unfolding upt_four
  by (simp add: lane_defs half_result16 byte_result8 saturating_lanes del: upt_rec_numeral One_nat_def)

section \<open>Saturation of words\<close>

lemma saturated_word: "sint (NOT (signed_drop_bit 31 a XOR SIGNBIT)) = (if 0 \<le> sint (a :: u32) then 2 ^ 31 - 1 else - (2 ^ 31))"
proof -
  have "bit (signed_drop_bit 31 a) n = bit (if 0 \<le> sint a then 0 else - 1 :: u32) n" if "n < 32" for n
    using bit_last_iff [of a] that by (cases "n = 0") (auto simp: bit_simps)
  then have e: "signed_drop_bit 31 a = (if 0 \<le> sint a then 0 else - 1)" by (intro bit_word_eqI) auto
  have "sint (NOT (0 XOR SIGNBIT)) = 2 ^ 31 - 1" "sint (NOT (- 1 XOR SIGNBIT)) = - (2 ^ 31)" by code_simp+
  then show ?thesis unfolding e by (cases "0 \<le> sint a") simp_all
qed

definition fits :: "nat \<Rightarrow> int \<Rightarrow> bool" where
  "fits n x \<longleftrightarrow> - (2 ^ (n - 1)) \<le> x \<and> x < 2 ^ (n - 1)"

lemma sign_test: "(a XOR b) AND SIGNBIT = 0 \<longleftrightarrow> (0 \<le> sint a \<longleftrightarrow> 0 \<le> sint b)"
  unfolding SIGNBIT_def by (simp only: sign_bit sign_xor)

lemma add_test:
  "((a + b) XOR a) AND SIGNBIT \<noteq> 0 \<and> (a XOR b) AND SIGNBIT = 0 \<longleftrightarrow> \<not> fits 32 (sint a + sint b)"
  using overflow_add [of "2 ^ 31" "sint a" "sint b"] sint_range [of a] sint_range [of b]
  by (simp only: sign_test sint_add fits_def) (simp, blast)

lemma sub_test:
  "((a - b) XOR a) AND SIGNBIT \<noteq> 0 \<and> (a XOR b) AND SIGNBIT \<noteq> 0 \<longleftrightarrow> \<not> fits 32 (sint a - sint b)"
  using overflow_sub [of "2 ^ 31" "sint a" "sint b"] sint_range [of a] sint_range [of b]
  by (simp only: sign_test sint_sub fits_def) (simp, blast)

lemma wrap_fits: "fits n x \<Longrightarrow> wrap (2 ^ (n - 1)) x = x" "fits n x \<Longrightarrow> sclamp n x = x"
  by (auto simp: fits_def wrap_def sclamp_def clamp_def)

lemma sclamp_beyond: "\<not> fits n x \<Longrightarrow> sclamp n x = (if 0 \<le> x then 2 ^ (n - 1) - 1 else - (2 ^ (n - 1)))"
  by (cases "0 \<le> x") (auto simp: fits_def sclamp_def clamp_def intro: order.trans [of _ 0])

lemma add_sign: "\<not> fits 32 (sint a + sint b) \<Longrightarrow> 0 \<le> sint a + sint (b :: u32) \<longleftrightarrow> 0 \<le> sint (a :: u32)"
  using sint_range [of a] sint_range [of b] by (auto simp: fits_def)

lemma sub_sign: "\<not> fits 32 (sint a - sint b) \<Longrightarrow> 0 \<le> sint a - sint (b :: u32) \<longleftrightarrow> 0 \<le> sint (a :: u32)"
  using sint_range [of a] sint_range [of b] by (auto simp: fits_def)

lemma add_saturate_clamps:
  "sint (fst (add_saturate a b env)) = sclamp 32 (sint a + sint b)"
  "snd (add_saturate a b env) = (if fits 32 (sint a + sint b) then env else env\<lparr>QF := 1\<rparr>)"
  unfolding add_saturate_def Let_def add_test
  by (cases "fits 32 (sint a + sint b)"; simp add: set_q_def sint_add wrap_fits [where n = 32, simplified] saturated_word
    sclamp_beyond add_sign)+

lemma sub_saturate_clamps:
  "sint (fst (sub_saturate a b env)) = sclamp 32 (sint a - sint b)"
  "snd (sub_saturate a b env) = (if fits 32 (sint a - sint b) then env else env\<lparr>QF := 1\<rparr>)"
  unfolding sub_saturate_def Let_def sub_test
  by (cases "fits 32 (sint a - sint b)";
    simp only: if_True if_False fst_conv snd_conv simp_thms set_q_def sint_sub wrap_fits [where n = 32, simplified] saturated_word
      sclamp_beyond sub_sign; simp add: wrap_fits [where n = 32, simplified])+

lemma add_setq_flag:
  "add_setq a b env = (a + b, if fits 32 (sint a + sint b) then env else env\<lparr>QF := 1\<rparr>)"
  unfolding add_setq_def Let_def add_test by (simp add: set_q_def)

lemma doubled_limit: "sint (0xC0000000 :: u32) = - (2 ^ 30)"
  by code_simp

lemma if_swap: "(if p then x else if q then x else y) = (if \<not> p \<and> \<not> q then y else x)"
  by simp

lemma double_saturate_clamps:
  "sint (fst (double_saturate a env)) = sclamp 32 (2 * sint a)"
  "snd (double_saturate a env) = (if fits 32 (2 * sint a) \<and> sint a \<noteq> - (2 ^ 30) then env else env\<lparr>QF := 1\<rparr>)"
proof -
  have "push_bit 1 a = a + a" by (simp add: push_bit_eq_mult)
  then have s: "sint (push_bit 1 a) = wrap (2 ^ 31) (2 * sint a)" using sint_add [of a a] by (simp add: mult.commute)
  have l: "sint (NOT SIGNBIT) = 2 ^ 31 - 1" "sint SIGNBIT = - (2 ^ 31)" by code_simp+
  have f: "fits 32 (2 * x) \<and> x \<noteq> - (2 ^ 30) \<longleftrightarrow> \<not> 0x40000000 \<le> x \<and> \<not> x \<le> - 0x40000000" for x by (auto simp: fits_def)
  have c: "sclamp 32 (2 * x) = (if 0x40000000 \<le> x then 2 ^ 31 - 1 else if x \<le> - 0x40000000 then - (2 ^ 31) else wrap (2 ^ 31) (2 * x))"
    for x by (auto simp: sclamp_def clamp_def wrap_def)
  show "sint (fst (double_saturate a env)) = sclamp 32 (2 * sint a)"
    unfolding c double_saturate_def if_distrib [where f = fst] if_distrib [where f = sint] fst_conv s l ..
  show "snd (double_saturate a env) = (if fits 32 (2 * sint a) \<and> sint a \<noteq> - (2 ^ 30) then env else env\<lparr>QF := 1\<rparr>)"
    unfolding f double_saturate_def set_q_def if_distrib [where f = snd] snd_conv by (rule if_swap)
qed

lemma usaturate_clamps:
  "uint (fst (add_usaturate a b env)) = uclamp 32 (uint a + uint b)"
  "snd (add_usaturate a b env) = (if uint a + uint b < 2 ^ 32 then env else env\<lparr>QF := 1\<rparr>)"
  "uint (fst (sub_usaturate a b env)) = uclamp 32 (uint a - uint b)"
  "snd (sub_usaturate a b env) = (if uint b \<le> uint a then env else env\<lparr>QF := 1\<rparr>)"
proof -
  have "uint (- 1 :: u32) = 2 ^ 32 - 1" by code_simp
  moreover have "uint a - uint b < 4294967296" using uint_bounded [of a, simplified] uint_ge_0 [of b] by linarith
  ultimately show "uint (fst (add_usaturate a b env)) = uclamp 32 (uint a + uint b)"
    "snd (add_usaturate a b env) = (if uint a + uint b < 2 ^ 32 then env else env\<lparr>QF := 1\<rparr>)"
    "uint (fst (sub_usaturate a b env)) = uclamp 32 (uint a - uint b)"
    "snd (sub_usaturate a b env) = (if uint b \<le> uint a then env else env\<lparr>QF := 1\<rparr>)"
    using uint_bounded [of a] uint_bounded [of b]
    by (auto simp: add_usaturate_def sub_usaturate_def Let_def word_less_def uint_add_cases uint_sub_cases uclamp_def clamp_def set_q_def
      simp del: uint_word_ariths)
qed

lemma sint_nonneg: "uint (w :: 'a::len word) < 2 ^ (LENGTH('a) - 1) \<Longrightarrow> sint w = uint w"
  by (simp add: sint_uint signed_take_bit_int_eq_self_iff order.trans [OF _ uint_ge_0])

lemma uint_nonneg: "0 \<le> sint (w :: 'a::len word) \<Longrightarrow> uint w = sint w"
  using sint_range [of w] by (simp add: uint_sint take_bit_int_eq_self_iff order.strict_trans2 [OF _ power_increasing])

lemma sint_NOT: "sint (NOT w :: 'a::len word) = - sint w - 1"
proof -
  have "sint (NOT w) = NOT (sint w)" by (rule bit_eqI) (auto simp: bit_simps min_def)
  then show ?thesis by (simp add: not_int_def)
qed

lemma mask_word:
  assumes "n < 32"
  shows "uint (2 ^ n - 1 :: u32) = 2 ^ n - 1" "sint (2 ^ n - 1 :: u32) = 2 ^ n - 1"
proof -
  have "(2 :: int) ^ n \<le> 2 ^ 31" using assms by (intro power_increasing) auto
  moreover have "uint (mask n :: u32) = mask n" using assms by (intro bit_eqI) (auto simp: bit_simps)
  then show u: "uint (2 ^ n - 1 :: u32) = 2 ^ n - 1" by (simp add: mask_eq_exp_minus_1)
  ultimately show "sint (2 ^ n - 1 :: u32) = 2 ^ n - 1" using sint_nonneg [of "2 ^ n - 1 :: u32"] by simp
qed

lemma div_exp_sign: "0 < x div 2 ^ n \<longleftrightarrow> 2 ^ n \<le> x" "x div 2 ^ n < - 1 \<longleftrightarrow> x < - (2 ^ n)" for x :: int
proof -
  have p: "(0 :: int) < 2 ^ n" by simp
  show "0 < x div 2 ^ n \<longleftrightarrow> 2 ^ n \<le> x" using p by (simp add: pos_imp_zdiv_pos_iff)
  have "(x + 2 ^ n) div 2 ^ n = x div 2 ^ n + 1" by (rule div_add_self2) simp
  then have "0 \<le> x div 2 ^ n + 1 \<longleftrightarrow> 0 \<le> x + 2 ^ n" using pos_imp_zdiv_nonneg_iff [OF p, of "x + 2 ^ n"] by metis
  then show "x div 2 ^ n < - 1 \<longleftrightarrow> x < - (2 ^ n)" by linarith
qed

lemma ssat_clamps:
  assumes "n < 32"
  shows "sint (fst (do_ssat a n env)) = sclamp (n + 1) (sint a)"
    and "snd (do_ssat a n env) = (if fits (n + 1) (sint a) then env else env\<lparr>QF := 1\<rparr>)"
  using order_less_trans [of "- (2 ^ n)" 0 "2 ^ n :: int"]
  by (auto simp: do_ssat_def Let_def sint_signed_drop_bit_eq drop_bit_eq_div mask_word [OF assms] sint_NOT div_exp_sign sclamp_def
    clamp_def fits_def set_q_def)

lemma usat_word_clamps:
  assumes "n < 32"
  shows "sint (fst (do_usat a n env)) = uclamp n (sint a)"
    and "snd (do_usat a n env) = (if 0 \<le> sint a \<and> sint a < 2 ^ n then env else env\<lparr>QF := 1\<rparr>)"
  using uint_nonneg [of a]
  by (auto simp: do_usat_def Let_def mask_word [OF assms] word_less_def uclamp_def clamp_def set_q_def)


text \<open>
  Every saturating operation on words returns the exact result clamped to the range of its destination (a signed or an
  unsigned word, or the signed or unsigned range of n bits that SSAT and USAT name), and sets the sticky flag Q when
  it clamps and leaves the processor unchanged otherwise. Doubling is the exception: it also sets Q for the operand
  0xC0000000, whose double is exact.
\<close>

theorem word_saturation:
  fixes env :: "'a CPUARMState_scheme"
  assumes "unat n < 32"
  shows "sint (fst (add_saturate a b env)) = sclamp 32 (sint a + sint b) \<and>
    snd (add_saturate a b env) = (if fits 32 (sint a + sint b) then env else env\<lparr>QF := 1\<rparr>) \<and>
    sint (fst (sub_saturate a b env)) = sclamp 32 (sint a - sint b) \<and>
    snd (sub_saturate a b env) = (if fits 32 (sint a - sint b) then env else env\<lparr>QF := 1\<rparr>) \<and>
    add_setq a b env = (a + b, if fits 32 (sint a + sint b) then env else env\<lparr>QF := 1\<rparr>) \<and>
    sint (fst (double_saturate a env)) = sclamp 32 (2 * sint a) \<and>
    snd (double_saturate a env) = (if fits 32 (2 * sint a) \<and> a \<noteq> 0xC0000000 then env else env\<lparr>QF := 1\<rparr>) \<and>
    uint (fst (add_usaturate a b env)) = uclamp 32 (uint a + uint b) \<and>
    snd (add_usaturate a b env) = (if uint a + uint b < 2 ^ 32 then env else env\<lparr>QF := 1\<rparr>) \<and>
    uint (fst (sub_usaturate a b env)) = uclamp 32 (uint a - uint b) \<and>
    snd (sub_usaturate a b env) = (if uint b \<le> uint a then env else env\<lparr>QF := 1\<rparr>) \<and>
    sint (fst (ssat a n env)) = sclamp (unat n + 1) (sint a) \<and>
    snd (ssat a n env) = (if fits (unat n + 1) (sint a) then env else env\<lparr>QF := 1\<rparr>) \<and>
    sint (fst (usat a n env)) = uclamp (unat n) (sint a) \<and>
    snd (usat a n env) = (if 0 \<le> sint a \<and> sint a < 2 ^ unat n then env else env\<lparr>QF := 1\<rparr>)"
proof -
  have "sint a = - (2 ^ 30) \<longleftrightarrow> a = 0xC0000000" by (metis doubled_limit signed_word_eqI)
  then show ?thesis
    unfolding ssat_def usat_def
    by (intro conjI) (simp_all only: add_saturate_clamps sub_saturate_clamps add_setq_flag double_saturate_clamps usaturate_clamps
      ssat_clamps [OF assms] usat_word_clamps [OF assms])
qed

section \<open>Flags\<close>

text \<open>Flags as the status register shows them; the other fields of the register stay below them.\<close>

definition flag_fields :: "'a CPUARMState_scheme \<Rightarrow> bool" where
  "flag_fields env \<longleftrightarrow> uncached_cpsr env < 2 ^ 28 \<and> QF env < 2 \<and> thumb env < 2 \<and> GE env < 16"

definition nzcv :: "'a CPUARMState_scheme \<Rightarrow> bool list" where
  "nzcv env = map (bit (cpsr_read env)) [31, 30, 29, 28]"

lemma small_bit: "(w :: u32) < 2 ^ n \<Longrightarrow> n \<le> k \<Longrightarrow> \<not> bit w k"
  by (metis bit_take_bit_iff less_mask_eq not_less take_bit_eq_mask)

lemma small_bits:
  assumes "flag_fields env" and "28 \<le> k"
  shows "\<not> bit (uncached_cpsr env) k" "\<not> bit (QF env) (k - 27)" "\<not> bit (thumb env) (k - 5)" "\<not> bit (GE env) (k - 16)"
  using assms small_bit [of "uncached_cpsr env" 28 k] small_bit [of "QF env" 1 "k - 27"] small_bit [of "thumb env" 1 "k - 5"]
    small_bit [of "GE env" 4 "k - 16"]
  by (auto simp: flag_fields_def)

lemma nzcv_flags:
  assumes "flag_fields env" and "CF env = of_bool c"
  shows "nzcv env = [sint (NF env) < 0, ZF env = 0, c, sint (VF env) < 0]"
proof -
  have s: "sint w < 0 \<longleftrightarrow> bit w 31" for w :: u32 using bit_last_iff [of w] by simp
  show ?thesis
    unfolding nzcv_def cpsr_read_def s list.map assms(2)
    using small_bits [OF assms(1), of 31] small_bits [OF assms(1), of 30] small_bits [OF assms(1), of 29] small_bits [OF assms(1), of 28]
    by (simp add: bit_simps)
qed

text \<open>Overflow with a carry or a borrow, and the sign bit of \<open>VF\<close>.\<close>

lemma overflow_adc:
  assumes "- m \<le> x" and "x < m" and "- m \<le> y" and "y < m" and "c = 0 \<or> c = 1"
  shows "(0 \<le> x \<longleftrightarrow> 0 \<le> y) \<and> \<not> (0 \<le> x \<longleftrightarrow> 0 \<le> wrap m (x + y + c)) \<longleftrightarrow> \<not> (- m \<le> x + y + c \<and> x + y + c < m)"
  using assms by (auto simp: wrap_def)

lemma overflow_sbc:
  assumes "- m \<le> x" and "x < m" and "- m \<le> y" and "y < m" and "c = 0 \<or> c = 1"
  shows "\<not> (0 \<le> x \<longleftrightarrow> 0 \<le> y) \<and> \<not> (0 \<le> x \<longleftrightarrow> 0 \<le> wrap m (x - y - c)) \<longleftrightarrow> \<not> (- m \<le> x - y - c \<and> x - y - c < m)"
  using assms by (auto simp: wrap_def)

lemma sint_and: "sint (a AND b :: 'a::len word) < 0 \<longleftrightarrow> sint a < 0 \<and> sint b < 0"
  using bit_last_iff [of "a AND b"] bit_last_iff [of a] bit_last_iff [of b] by (auto simp: bit_simps)

lemma sint_xor: "sint (a XOR b :: 'a::len word) < 0 \<longleftrightarrow> (0 \<le> sint a \<longleftrightarrow> \<not> 0 \<le> sint b)"
  using sign_xor [of a b] by auto

lemma word_range: "- (2 ^ 31) \<le> sint (a :: u32)" "sint (a :: u32) < 2 ^ 31"
  using sint_range [of a] by simp_all

lemma sint_adc: "sint (a + b + of_bool c :: u32) = wrap (2 ^ 31) (sint a + sint b + of_bool c)"
proof -
  have "a + b + of_bool c = word_of_int (sint a + sint b + of_bool c)" by simp
  moreover have "- 2 * 2 ^ 31 \<le> sint a + sint b + of_bool c" "sint a + sint b + of_bool c < 2 * 2 ^ 31"
    using word_range [of a] word_range [of b] by (cases c; simp)+
  ultimately show ?thesis using sint_word_of_int_wrap [of "sint a + sint b + of_bool c", where 'a = 32] by simp
qed

lemma sint_sbc: "sint (a - b - of_bool c :: u32) = wrap (2 ^ 31) (sint a - sint b - of_bool c)"
proof -
  have "a - b - of_bool c = word_of_int (sint a - sint b - of_bool c)" by simp
  moreover have "- 2 * 2 ^ 31 \<le> sint a - sint b - of_bool c" "sint a - sint b - of_bool c < 2 * 2 ^ 31"
    using word_range [of a] word_range [of b] by (cases c; simp)+
  ultimately show ?thesis using sint_word_of_int_wrap [of "sint a - sint b - of_bool c", where 'a = 32] by simp
qed

lemma adc_overflow:
  "sint ((a XOR b XOR - 1) AND (a XOR (a + b + of_bool c))) < 0 \<longleftrightarrow> \<not> fits 32 (sint a + sint b + of_bool c)" for a b :: u32
proof -
  have "0 \<le> sint (b XOR - 1) \<longleftrightarrow> \<not> 0 \<le> sint b" using sign_xor [of b "- 1"] by simp
  moreover have "(of_bool c :: int) = 0 \<or> of_bool c = (1 :: int)" by simp
  note overflow_adc [OF word_range [of a] word_range [of b] this]
  ultimately show ?thesis unfolding sint_and sint_xor sint_adc fits_def by simp
qed

lemma sbc_overflow:
  "sint ((a XOR b) AND (a XOR (a - b - of_bool c))) < 0 \<longleftrightarrow> \<not> fits 32 (sint a - sint b - of_bool c)" for a b :: u32
proof -
  have "(of_bool c :: int) = 0 \<or> of_bool c = (1 :: int)" by simp
  note overflow_sbc [OF word_range [of a] word_range [of b] this]
  then show ?thesis unfolding sint_and sint_xor sint_sbc fits_def by simp
qed

lemma add_carry:
  "a + b < a \<longleftrightarrow> 2 ^ 32 \<le> uint a + uint b" "a + b + 1 \<le> a \<longleftrightarrow> 2 ^ 32 \<le> uint a + uint b + 1" for a b :: u32
proof -
  have u: "uint a < 2 ^ 32" "uint b < 2 ^ 32" using uint_bounded [of a] uint_bounded [of b] by simp_all
  show "a + b < a \<longleftrightarrow> 2 ^ 32 \<le> uint a + uint b" using u by (simp add: word_less_def uint_add_cases)
  have "uint (1 :: u32) = 1" "0 \<le> uint b" "\<not> uint b + 1 \<le> 0" by simp_all (use uint_ge_0 [of b] in linarith)
  then show "a + b + 1 \<le> a \<longleftrightarrow> 2 ^ 32 \<le> uint a + uint b + 1" using u unfolding word_le_def uint_add_cases by simp
qed

text \<open>What an operation with flags promises: the result, the flags shown by the status register, nothing else changed.\<close>

definition sets_flags :: "'a CPUARMState_scheme \<Rightarrow> u32 \<Rightarrow> bool \<Rightarrow> int \<Rightarrow> u32 \<times> 'a CPUARMState_scheme \<Rightarrow> bool" where
  "sets_flags env r carry exact out \<longleftrightarrow>
     fst out = r \<and> nzcv (snd out) = [sint r < 0, r = 0, carry, \<not> fits 32 exact] \<and>
     snd out = env\<lparr>NF := NF (snd out), ZF := ZF (snd out), CF := CF (snd out), VF := VF (snd out)\<rparr>"

lemma sets_flagsI:
  assumes "flag_fields env" and "sint v < 0 \<longleftrightarrow> \<not> fits 32 exact"
  shows "sets_flags env r carry exact (r, (set_nz r env)\<lparr>CF := of_bool carry, VF := v\<rparr>)"
  using assms nzcv_flags [of "(set_nz r env)\<lparr>CF := of_bool carry, VF := v\<rparr>" carry]
  by (simp add: sets_flags_def set_nz_def flag_fields_def)

text \<open>
  C34. The flag-setting additions and subtractions compute the sum with the carry or the difference with the borrow, modulo the
  word, and leave in the status register: N the sign of the result, Z whether it is zero, C the carry out of the unsigned sum or
  the absence of a borrow, V whether the signed result does not fit in a word. Nothing else of the processor changes.
\<close>

theorem arithmetic_flags:
  assumes "flag_fields env" and "c \<longleftrightarrow> CF env \<noteq> 0"
  shows "sets_flags env (a + b) (2 ^ 32 \<le> uint a + uint b) (sint a + sint b) (add_cc a b env) \<and>
    sets_flags env (a + b + of_bool c) (2 ^ 32 \<le> uint a + uint b + of_bool c) (sint a + sint b + of_bool c) (adc_cc a b env) \<and>
    sets_flags env (a - b) (uint b \<le> uint a) (sint a - sint b) (sub_cc a b env) \<and>
    sets_flags env (a - b - of_bool (\<not> c)) (uint b + of_bool (\<not> c) \<le> uint a) (sint a - sint b - of_bool (\<not> c)) (sbc_cc a b env)"
proof (intro conjI)
  note I = sets_flagsI [OF assms(1)]
  note V = adc_overflow [of a b] sbc_overflow [of a b]
  show "sets_flags env (a + b) (2 ^ 32 \<le> uint a + uint b) (sint a + sint b) (add_cc a b env)"
    unfolding add_cc_def Let_def add_carry using I [OF V(1) [of False]] by (simp only: of_bool_eq add_0_right)
  show "sets_flags env (a - b) (uint b \<le> uint a) (sint a - sint b) (sub_cc a b env)"
    unfolding sub_cc_def Let_def word_le_def using I [OF V(2) [of False]] by (simp only: of_bool_eq diff_zero)
  show "sets_flags env (a + b + of_bool c) (2 ^ 32 \<le> uint a + uint b + of_bool c) (sint a + sint b + of_bool c) (adc_cc a b env)"
    unfolding adc_cc_def Let_def using I [OF V(1) [of c]] assms(2)
    by (cases c) (simp_all only: of_bool_eq add_0_right if_True if_False simp_thms add_carry)
  show "sets_flags env (a - b - of_bool (\<not> c)) (uint b + of_bool (\<not> c) \<le> uint a) (sint a - sint b - of_bool (\<not> c)) (sbc_cc a b env)"
    unfolding sbc_cc_def Let_def word_le_def word_less_def using I [OF V(2) [of "\<not> c"]] assms(2)
    by (cases c) (simp_all only: of_bool_eq add_0_right diff_zero if_True if_False simp_thms add1_zle_eq)
qed

theorem arithmetic_flags_witness:
  "sets_flags (reset_env\<lparr>CF := 1\<rparr>) 0 True 0 (adc_cc (- 1) 0 (reset_env\<lparr>CF := 1\<rparr>)) \<and>
   sets_flags (reset_env\<lparr>CF := 1\<rparr>) 0x7FFFFFFF True (- 2147483649) (sbc_cc 0x80000000 1 (reset_env\<lparr>CF := 1\<rparr>))"
proof -
  have "flag_fields (reset_env\<lparr>CF := 1\<rparr>)" "True \<longleftrightarrow> CF (reset_env\<lparr>CF := 1\<rparr>) \<noteq> 0"
    by (simp_all add: flag_fields_def reset_env_def)
  note h = arithmetic_flags [OF this]
  have "uint (- 1 :: u32) = 0xFFFFFFFF" by code_simp
  then show ?thesis using h [of "- 1" 0] h [of "0x80000000" 1] by (simp add: sint_limits)
qed

theorem word_saturation_witness:
  "sint (fst (ssat 0x12345678 7 reset_env)) = 127 \<and> QF (snd (ssat 0x12345678 7 reset_env)) = 1"
proof -
  have "unat (7 :: u32) < 32" by simp
  from word_saturation [OF this, of "0x12345678" 0 reset_env] show ?thesis
    by (simp add: sclamp_def clamp_def fits_def)
qed

end
