(* ===== verification/Soft_Mmu.thy ===== *)
theory Soft_Mmu
  imports Traced_Machine
begin

text \<open>
  Loads and stores of the emulated program (\<open>src/qemu/softmmu_template.h\<close>, \<open>src/qemu/softmmu_header.h\<close>,
  \<open>tlb_fill\<close> of \<open>src/qemu/target-arm/op_helper.c\<close>, the handlers of clean pages in \<open>src/qemu/exec.c\<close>): every access calls the
  tracer, looks the page up in the software TLB and ends in host memory, in the handler of an I/O page, or
  with an exception of the processor. The templates are compiled for 1, 2, 4 and 8 bytes; the size is an argument here, and a
  value is a 64-bit word of which the low bytes count. The emulator runs without instruction counting (\<open>use_icount\<close> is 0, so
  \<open>can_do_io\<close> is true), on a little-endian host, and unaligned accesses are allowed (\<open>ALIGNED_ONLY\<close> is not defined).
\<close>

section \<open>State\<close>

text \<open>
  The traced machine with the memory map, the memory of the host process and the devices. The field \<open>ram\<close> of the traced machine, which
  page-table walks read, is the view of host memory through the page descriptors.
\<close>

record 'd system =
  world :: traced
  mach :: machine
  host :: "u64 \<Rightarrow> u8"
  devices :: 'd
  mem_io_pc :: u64
  mem_io_vaddr :: u32

text \<open>
  What the load and store functions call outside the modelled code: the handlers of the I/O pages, the recovery of the processor
  state from generated code, the invalidation of generated code and the memory checker.
\<close>

record 'd softmmu =
  io_mem_read :: "nat \<Rightarrow> nat \<Rightarrow> u32 \<Rightarrow> 'd system \<Rightarrow> (u32 \<times> 'd system) comp"
  io_mem_write :: "nat \<Rightarrow> nat \<Rightarrow> u32 \<Rightarrow> u32 \<Rightarrow> 'd system \<Rightarrow> 'd system comp"
  cpu_restore_state :: "u64 \<Rightarrow> CPUARMState \<Rightarrow> CPUARMState"
  tb_invalidate_phys_page_fast :: "u64 \<Rightarrow> nat \<Rightarrow> 'd system \<Rightarrow> 'd system comp"
  memcheck_validate_ld :: "u32 \<Rightarrow> nat \<Rightarrow> u64 \<Rightarrow> bool"
  memcheck_validate_st :: "u32 \<Rightarrow> nat \<Rightarrow> u64 \<Rightarrow> u64 \<Rightarrow> bool"

definition put_cpu :: "CPUARMState \<Rightarrow> 'd system \<Rightarrow> 'd system" where
  "put_cpu env s = s\<lparr>world := (world s)\<lparr>cpu := env\<rparr>\<rparr>"

definition page_address :: "machine \<Rightarrow> u32 \<Rightarrow> u64 option" where
  "page_address m paddr =
     (let pd = page_pd m paddr in
      if IO_MEM_ROM < low_bits_u64 pd \<and> pd AND IO_MEM_ROMD = 0 then None
      else returned (qemu_safe_ram_ptr (page_of_u64 pd) (ram_list m)))"

definition phys_view :: "machine \<Rightarrow> (u64 \<Rightarrow> u8) \<Rightarrow> phys_mem" where
  "phys_view m h paddr =
     (case page_address m paddr of None \<Rightarrow> 0 | Some ptr \<Rightarrow> h (ptr + ucast (paddr AND NOT TARGET_PAGE_MASK)))"

definition put_host :: "(u64 \<Rightarrow> u8) \<Rightarrow> 'd system \<Rightarrow> 'd system" where
  "put_host h s = s\<lparr>host := h, world := (world s)\<lparr>ram := phys_view (mach s) h\<rparr>\<rparr>"

section \<open>Host memory\<close>

fun ld_raw :: "nat \<Rightarrow> (u64 \<Rightarrow> u8) \<Rightarrow> u64 \<Rightarrow> u64" where
  "ld_raw 0 h a = 0"
| "ld_raw (Suc n) h a = ucast (h a) OR push_bit 8 (ld_raw n h (a + 1))"

fun st_raw :: "nat \<Rightarrow> u64 \<Rightarrow> u64 \<Rightarrow> (u64 \<Rightarrow> u8) \<Rightarrow> u64 \<Rightarrow> u8" where
  "st_raw 0 a val h = h"
| "st_raw (Suc n) a val h = st_raw n (a + 1) (drop_bit 8 val) (h(a := ucast val))"

section \<open>Clean pages\<close>

definition notdirty_mem_write :: "'d softmmu \<Rightarrow> nat \<Rightarrow> u32 \<Rightarrow> u32 \<Rightarrow> 'd system \<Rightarrow> 'd system comp" where
  "notdirty_mem_write p n ram_addr val s =
     comp_bind (cpu_physical_memory_get_dirty_flags (ucast ram_addr) (ram_list (mach s))) (\<lambda>flags0.
     comp_bind (if flags0 AND CODE_DIRTY_FLAG = 0
         then comp_bind (tb_invalidate_phys_page_fast p (ucast ram_addr) n s) (\<lambda>s1.
              comp_bind (cpu_physical_memory_get_dirty_flags (ucast ram_addr) (ram_list (mach s1))) (\<lambda>flags1. ret (flags1, s1)))
         else ret (flags0, s)) (\<lambda>(flags, s2).
     comp_bind (qemu_get_ram_ptr (ucast ram_addr) (ram_list (mach s2))) (\<lambda>(ptr, rl).
     let s3 = put_host (st_raw n ptr (ucast val) (host s2)) (s2\<lparr>mach := (mach s2)\<lparr>ram_list := rl\<rparr>\<rparr>);
         dirty_flags = flags OR (0xFF AND NOT CODE_DIRTY_FLAG)
     in comp_bind (cpu_physical_memory_set_dirty_flags (ucast ram_addr) dirty_flags rl) (\<lambda>(_, rl').
        let s4 = s3\<lparr>mach := (mach s3)\<lparr>ram_list := rl'\<rparr>\<rparr>
        in ret (if dirty_flags = 0xFF then put_cpu (tlb_set_dirty (mem_io_vaddr s4) (cpu (world s4))) s4 else s4)))))"

section \<open>I/O pages\<close>

definition IO_MEM_SHIFT :: nat where "IO_MEM_SHIFT = 3"

definition IO_MEM_NB_ENTRIES :: u32 where "IO_MEM_NB_ENTRIES = 128"

definition io_index :: "u32 \<Rightarrow> nat" where
  "io_index physaddr = unat (drop_bit IO_MEM_SHIFT physaddr AND (IO_MEM_NB_ENTRIES - 1))"

definition io_address :: "u32 \<Rightarrow> u32 \<Rightarrow> u32" where
  "io_address physaddr addr = (physaddr AND TARGET_PAGE_MASK) + addr"

text \<open>\<open>SHIFT\<close> of the template: the handler is chosen by the binary logarithm of the size.\<close>

definition size_shift :: "nat \<Rightarrow> nat" where
  "size_shift n = (if n = 1 then 0 else if n = 2 then 1 else if n = 4 then 2 else 3)"

definition io_read :: "'d softmmu \<Rightarrow> nat \<Rightarrow> u32 \<Rightarrow> u32 \<Rightarrow> u64 \<Rightarrow> 'd system \<Rightarrow> (u64 option \<times> 'd system) comp" where
  "io_read p n physaddr addr retaddr s =
     (let i = io_index physaddr; paddr = io_address physaddr addr; s1 = s\<lparr>mem_io_pc := retaddr, mem_io_vaddr := addr\<rparr> in
      if n \<noteq> 8 then comp_bind (io_mem_read p i (size_shift n) paddr s1) (\<lambda>(v, s2). ret (Some (take_bit (8 * n) (ucast v)), s2))
      else comp_bind (io_mem_read p i 2 paddr s1) (\<lambda>(lo, s2).
           comp_bind (io_mem_read p i 2 (paddr + 4) s2) (\<lambda>(hi, s3). ret (Some (ucast lo OR push_bit 32 (ucast hi)), s3))))"

definition io_write :: "'d softmmu \<Rightarrow> nat \<Rightarrow> u32 \<Rightarrow> u64 \<Rightarrow> u32 \<Rightarrow> u64 \<Rightarrow> 'd system \<Rightarrow> (unit option \<times> 'd system) comp" where
  "io_write p n physaddr val addr retaddr s =
     (let i = io_index physaddr; paddr = io_address physaddr addr; s1 = s\<lparr>mem_io_vaddr := addr, mem_io_pc := retaddr\<rparr> in
      if n \<noteq> 8 then comp_bind (io_mem_write p i (size_shift n) paddr (ucast (take_bit (8 * n) val)) s1) (\<lambda>s2. ret (Some (), s2))
      else comp_bind (io_mem_write p i 2 paddr (ucast val) s1) (\<lambda>s2.
           comp_bind (io_mem_write p i 2 (paddr + 4) (ucast (drop_bit 32 val)) s2) (\<lambda>s3. ret (Some (), s3))))"

section \<open>Filling the TLB\<close>

text \<open>A fault leaves the access by \<open>longjmp\<close>: no value, and the exception in the processor.\<close>

definition cpu_loop_exit :: "CPUARMState \<Rightarrow> CPUARMState" where
  "cpu_loop_exit env = env\<lparr>current_tb := None\<rparr>"

definition raise_exception :: "int \<Rightarrow> CPUARMState \<Rightarrow> CPUARMState" where
  "raise_exception tt env = cpu_loop_exit (env\<lparr>exception_index := tt\<rparr>)"

definition tlb_fill :: "'d softmmu \<Rightarrow> u32 \<Rightarrow> int \<Rightarrow> nat \<Rightarrow> u64 \<Rightarrow> 'd system \<Rightarrow> (unit option \<times> 'd system) comp" where
  "tlb_fill p addr is_write mmu_idx retaddr s =
     comp_bind (cpu_arm_handle_mmu_fault (ram (world s)) addr is_write mmu_idx (mach s, cpu (world s))) (\<lambda>(r, m, env).
       let s1 = s\<lparr>mach := m\<rparr> in
       if r \<noteq> 0 then
         (let env1 = (if retaddr \<noteq> 0 then cpu_restore_state p retaddr env else env)
          in ret (None, put_cpu (raise_exception (exception_index env1) env1) s1))
       else ret (Some (), put_cpu env s1))"

section \<open>Loads\<close>

definition ADDR_READ :: "bool \<Rightarrow> CPUTLBEntry \<Rightarrow> u32" where
  "ADDR_READ code te = (if code then addr_code te else addr_read te)"

definition READ_ACCESS_TYPE :: "bool \<Rightarrow> int" where
  "READ_ACCESS_TYPE code = (if code then 2 else 0)"

definition tlb_line :: "nat \<Rightarrow> u32 \<Rightarrow> 'd system \<Rightarrow> CPUTLBEntry" where
  "tlb_line mmu_idx addr s = entry_at addr mmu_idx (cpu (world s))"

definition unaligned :: "nat \<Rightarrow> u32 \<Rightarrow> bool" where
  "unaligned n addr \<longleftrightarrow> addr AND (of_nat n - 1) \<noteq> 0"

definition spans_pages :: "nat \<Rightarrow> u32 \<Rightarrow> bool" where
  "spans_pages n addr \<longleftrightarrow> TARGET_PAGE_SIZE \<le> (addr AND NOT TARGET_PAGE_MASK) + of_nat n - 1"

definition combine :: "nat \<Rightarrow> u32 \<Rightarrow> u64 \<Rightarrow> u64 \<Rightarrow> u64" where
  "combine n addr res1 res2 =
     (let shift = unat (addr AND (of_nat n - 1)) * 8
      in take_bit (8 * n) (drop_bit shift res1 OR push_bit (n * 8 - shift) res2))"

partial_function (option) slow_ld ::
  "'d softmmu \<Rightarrow> bool \<Rightarrow> nat \<Rightarrow> nat \<Rightarrow> u64 \<Rightarrow> u32 \<Rightarrow> 'd system \<Rightarrow> (u64 option \<times> 'd system) comp" where
  "slow_ld p code n mmu_idx retaddr addr s =
     (let te = tlb_line mmu_idx addr s; tlb_addr = ADDR_READ code te in
      if tlb_hit addr tlb_addr then
        (if tlb_addr AND NOT TARGET_PAGE_MASK \<noteq> 0 \<and> \<not> unaligned n addr
         then io_read p n (iotlb (cpu (world s)) mmu_idx (tlb_index addr)) addr retaddr s
         else if tlb_addr AND NOT TARGET_PAGE_MASK \<noteq> 0 \<or> spans_pages n addr then
           (let addr1 = addr AND NOT (of_nat n - 1); addr2 = addr1 + of_nat n in
            comp_bind (slow_ld p code n mmu_idx retaddr addr1 s) (\<lambda>(r1, s1).
              case r1 of None \<Rightarrow> ret (None, s1)
              | Some res1 \<Rightarrow>
                  comp_bind (slow_ld p code n mmu_idx retaddr addr2 s1) (\<lambda>(r2, s2).
                    case r2 of None \<Rightarrow> ret (None, s2)
                    | Some res2 \<Rightarrow> ret (Some (combine n addr res1 res2), s2))))
         else ret (Some (ld_raw n (host s) (ucast addr + addend te)), s))
      else comp_bind (tlb_fill p addr (READ_ACCESS_TYPE code) mmu_idx retaddr s) (\<lambda>(r, s1).
        case r of None \<Rightarrow> ret (None, s1) | Some _ \<Rightarrow> slow_ld p code n mmu_idx retaddr addr s1))"

text \<open>The memory checker makes the line miss again; the second line of an access that spans two pages may lie behind the table.\<close>

definition flip_entry :: "CPUTLBEntry \<Rightarrow> CPUTLBEntry" where
  "flip_entry te = te\<lparr>addr_read := addr_read te XOR TARGET_PAGE_MASK, addr_write := addr_write te XOR TARGET_PAGE_MASK\<rparr>"

definition flip_line :: "nat \<Rightarrow> nat \<Rightarrow> CPUARMState \<Rightarrow> CPUARMState" where
  "flip_line mmu_idx i env =
     env\<lparr>tlb_table := (tlb_table env)(mmu_idx := (tlb_table env mmu_idx)(i := flip_entry (tlb_table env mmu_idx i)))\<rparr>"

definition invalidate_cache :: "nat \<Rightarrow> nat \<Rightarrow> nat \<Rightarrow> 'd system \<Rightarrow> 'd system comp" where
  "invalidate_cache k mmu_idx index s =
     (let env = cpu (world s) in
      if k = 0 then ret s
      else if k = 2 \<and> index < unat CPU_TLB_SIZE then
        (if index + 1 < unat CPU_TLB_SIZE then ret (put_cpu (flip_line mmu_idx (index + 1) (flip_line mmu_idx index env)) s)
         else raise OutOfBounds)
      else ret (put_cpu (flip_line mmu_idx index env) s))"

definition finish_access :: "nat \<Rightarrow> nat \<Rightarrow> nat \<Rightarrow> ('v option \<times> 'd system) comp \<Rightarrow> ('v option \<times> 'd system) comp" where
  "finish_access k mmu_idx index c =
     comp_bind c (\<lambda>(r, s). case r of None \<Rightarrow> ret (None, s)
       | Some v \<Rightarrow> comp_bind (invalidate_cache k mmu_idx index s) (\<lambda>s1. ret (Some v, s1)))"

definition checks :: "nat \<Rightarrow> 'd system \<Rightarrow> bool" where
  "checks mmu_idx s \<longleftrightarrow> memcheck_instrument_mmu (mach s) \<and> mmu_idx = 1"

partial_function (option) ld_redo ::
  "'d softmmu \<Rightarrow> bool \<Rightarrow> nat \<Rightarrow> nat \<Rightarrow> u64 \<Rightarrow> u32 \<Rightarrow> 'd system \<Rightarrow> (u64 option \<times> 'd system) comp" where
  "ld_redo p code n mmu_idx retaddr addr s =
     (let te = tlb_line mmu_idx addr s; tlb_addr = ADDR_READ code te; index = tlb_index addr in
      if tlb_hit addr tlb_addr then
        (if tlb_addr AND NOT TARGET_PAGE_MASK \<noteq> 0 then
           (if unaligned n addr then slow_ld p code n mmu_idx retaddr addr s
            else io_read p n (iotlb (cpu (world s)) mmu_idx index) addr retaddr s)
         else if spans_pages n addr then
           finish_access (if \<not> code \<and> checks mmu_idx s \<and> memcheck_validate_ld p addr n retaddr then 2 else 0) mmu_idx index
             (slow_ld p code n mmu_idx retaddr addr s)
         else
           finish_access (if \<not> code \<and> checks mmu_idx s \<and> memcheck_validate_ld p addr n retaddr then 1 else 0) mmu_idx index
             (ret (Some (ld_raw n (host s) (ucast addr + addend te)), s)))
      else comp_bind (tlb_fill p addr (READ_ACCESS_TYPE code) mmu_idx retaddr s) (\<lambda>(r, s1).
        case r of None \<Rightarrow> ret (None, s1) | Some _ \<Rightarrow> ld_redo p code n mmu_idx retaddr addr s1))"

definition trace_access :: "u32 \<Rightarrow> 'd system \<Rightarrow> 'd system comp" where
  "trace_access addr s = comp_bind (tlbtrace_refmem_qemu addr False (world s)) (\<lambda>w. ret (s\<lparr>world := w\<rparr>))"

definition ld_mmu ::
  "'d softmmu \<Rightarrow> bool \<Rightarrow> nat \<Rightarrow> u32 \<Rightarrow> nat \<Rightarrow> u64 \<Rightarrow> 'd system \<Rightarrow> (u64 option \<times> 'd system) comp" where
  "ld_mmu p code n addr mmu_idx retaddr s =
     comp_bind (trace_access addr s) (\<lambda>s1. ld_redo p code n mmu_idx retaddr addr s1)"

section \<open>Stores\<close>

partial_function (option) slow_stb ::
  "'d softmmu \<Rightarrow> nat \<Rightarrow> u64 \<Rightarrow> u32 \<Rightarrow> u64 \<Rightarrow> 'd system \<Rightarrow> (unit option \<times> 'd system) comp" where
  "slow_stb p mmu_idx retaddr addr val s =
     (let te = tlb_line mmu_idx addr s; tlb_addr = addr_write te in
      if tlb_hit addr tlb_addr then
        (if tlb_addr AND NOT TARGET_PAGE_MASK \<noteq> 0 \<and> \<not> unaligned 1 addr
         then io_write p 1 (iotlb (cpu (world s)) mmu_idx (tlb_index addr)) val addr retaddr s
         else if tlb_addr AND NOT TARGET_PAGE_MASK \<noteq> 0 \<or> spans_pages 1 addr then slow_stb p mmu_idx retaddr addr val s
         else ret (Some (), put_host (st_raw 1 (ucast addr + addend te) val (host s)) s))
      else comp_bind (tlb_fill p addr 1 mmu_idx retaddr s) (\<lambda>(r, s1).
        case r of None \<Rightarrow> ret (None, s1) | Some _ \<Rightarrow> slow_stb p mmu_idx retaddr addr val s1))"

text \<open>The loop \<open>for (i = DATA_SIZE - 1; i >= 0; i--)\<close>.\<close>

fun store_bytes :: "'d softmmu \<Rightarrow> nat \<Rightarrow> nat \<Rightarrow> u64 \<Rightarrow> u32 \<Rightarrow> u64 \<Rightarrow> 'd system \<Rightarrow> (unit option \<times> 'd system) comp" where
  "store_bytes p 0 mmu_idx retaddr addr val s = ret (Some (), s)"
| "store_bytes p (Suc i) mmu_idx retaddr addr val s =
     comp_bind (slow_stb p mmu_idx retaddr (addr + of_nat i) (drop_bit (i * 8) val) s) (\<lambda>(r, s1).
       case r of None \<Rightarrow> ret (None, s1) | Some _ \<Rightarrow> store_bytes p i mmu_idx retaddr addr val s1)"

partial_function (option) slow_st ::
  "'d softmmu \<Rightarrow> nat \<Rightarrow> nat \<Rightarrow> u64 \<Rightarrow> u32 \<Rightarrow> u64 \<Rightarrow> 'd system \<Rightarrow> (unit option \<times> 'd system) comp" where
  "slow_st p n mmu_idx retaddr addr val s =
     (let te = tlb_line mmu_idx addr s; tlb_addr = addr_write te in
      if tlb_hit addr tlb_addr then
        (if tlb_addr AND NOT TARGET_PAGE_MASK \<noteq> 0 \<and> \<not> unaligned n addr
         then io_write p n (iotlb (cpu (world s)) mmu_idx (tlb_index addr)) val addr retaddr s
         else if tlb_addr AND NOT TARGET_PAGE_MASK \<noteq> 0 \<or> spans_pages n addr then store_bytes p n mmu_idx retaddr addr val s
         else ret (Some (), put_host (st_raw n (ucast addr + addend te) val (host s)) s))
      else comp_bind (tlb_fill p addr 1 mmu_idx retaddr s) (\<lambda>(r, s1).
        case r of None \<Rightarrow> ret (None, s1) | Some _ \<Rightarrow> slow_st p n mmu_idx retaddr addr val s1))"

partial_function (option) st_redo ::
  "'d softmmu \<Rightarrow> nat \<Rightarrow> nat \<Rightarrow> u64 \<Rightarrow> u32 \<Rightarrow> u64 \<Rightarrow> 'd system \<Rightarrow> (unit option \<times> 'd system) comp" where
  "st_redo p n mmu_idx retaddr addr val s =
     (let te = tlb_line mmu_idx addr s; tlb_addr = addr_write te; index = tlb_index addr in
      if tlb_hit addr tlb_addr then
        (if tlb_addr AND NOT TARGET_PAGE_MASK \<noteq> 0 then
           (if unaligned n addr then slow_st p n mmu_idx retaddr addr val s
            else io_write p n (iotlb (cpu (world s)) mmu_idx index) val addr retaddr s)
         else if spans_pages n addr then
           finish_access (if checks mmu_idx s \<and> memcheck_validate_st p addr n val retaddr then 2 else 0) mmu_idx index
             (slow_st p n mmu_idx retaddr addr val s)
         else
           finish_access (if checks mmu_idx s \<and> memcheck_validate_st p addr n val retaddr then 1 else 0) mmu_idx index
             (ret (Some (), put_host (st_raw n (ucast addr + addend te) val (host s)) s)))
      else comp_bind (tlb_fill p addr 1 mmu_idx retaddr s) (\<lambda>(r, s1).
        case r of None \<Rightarrow> ret (None, s1) | Some _ \<Rightarrow> st_redo p n mmu_idx retaddr addr val s1))"

definition st_mmu ::
  "'d softmmu \<Rightarrow> nat \<Rightarrow> u32 \<Rightarrow> u64 \<Rightarrow> nat \<Rightarrow> u64 \<Rightarrow> 'd system \<Rightarrow> (unit option \<times> 'd system) comp" where
  "st_mmu p n addr val mmu_idx retaddr s =
     comp_bind (trace_access addr s) (\<lambda>s1. st_redo p n mmu_idx retaddr addr val s1)"

section \<open>Inline accesses\<close>

text \<open>The functions of \<open>softmmu_header.h\<close>: one comparison on the TLB line, and the functions above when it fails.\<close>

definition fast_hit :: "nat \<Rightarrow> u32 \<Rightarrow> u32 \<Rightarrow> bool" where
  "fast_hit n addr tlb_addr \<longleftrightarrow> tlb_addr = addr AND (TARGET_PAGE_MASK OR (of_nat n - 1))"

definition ld_mem :: "'d softmmu \<Rightarrow> bool \<Rightarrow> nat \<Rightarrow> u32 \<Rightarrow> nat \<Rightarrow> u64 \<Rightarrow> 'd system \<Rightarrow> (u64 option \<times> 'd system) comp" where
  "ld_mem p code n addr mmu_idx retaddr s =
     (if \<not> fast_hit n addr (ADDR_READ code (tlb_line mmu_idx addr s)) then ld_mmu p code n addr mmu_idx retaddr s
      else comp_bind (trace_access addr s) (\<lambda>s1.
        ret (Some (ld_raw n (host s1) (ucast addr + addend (tlb_line mmu_idx addr s1))), s1)))"

text \<open>\<open>lds\<close>: a loaded byte or halfword with its sign, as an \<open>int\<close>.\<close>

definition lds_mem :: "'d softmmu \<Rightarrow> bool \<Rightarrow> nat \<Rightarrow> u32 \<Rightarrow> nat \<Rightarrow> u64 \<Rightarrow> 'd system \<Rightarrow> (u32 option \<times> 'd system) comp" where
  "lds_mem p code n addr mmu_idx retaddr s =
     comp_bind (ld_mem p code n addr mmu_idx retaddr s) (\<lambda>(r, s1).
       ret (map_option (\<lambda>v. if n = 1 then scast (ucast v :: u8) else scast (ucast v :: u16)) r, s1))"

definition st_mem :: "'d softmmu \<Rightarrow> nat \<Rightarrow> u32 \<Rightarrow> u64 \<Rightarrow> nat \<Rightarrow> u64 \<Rightarrow> 'd system \<Rightarrow> (unit option \<times> 'd system) comp" where
  "st_mem p n addr val mmu_idx retaddr s =
     (if \<not> fast_hit n addr (addr_write (tlb_line mmu_idx addr s)) then st_mmu p n addr val mmu_idx retaddr s
      else comp_bind (trace_access addr s) (\<lambda>s1.
        ret (Some (), put_host (st_raw n (ucast addr + addend (tlb_line mmu_idx addr s1)) val (host s1)) s1)))"

end
