(* ===== verification/Memory_Access.thy ===== *)
theory Memory_Access
  imports Soft_Mmu
begin

text \<open>
  Theorems on the loads and stores of the emulated program: bytes in host memory, accesses inside a page and across pages,
  the inline functions, the tracer and termination.
\<close>

section \<open>Bytes\<close>

text \<open>The little-endian value of the bytes \<open>f 0\<close>, \<open>f 1\<close>, and so on.\<close>

fun ld_bytes :: "nat \<Rightarrow> (nat \<Rightarrow> u8) \<Rightarrow> u64" where
  "ld_bytes 0 f = 0"
| "ld_bytes (Suc n) f = ucast (f 0) OR push_bit 8 (ld_bytes n (\<lambda>i. f (Suc i)))"

lemma ld_raw_bytes: "ld_raw n h a = ld_bytes n (\<lambda>i. h (a + of_nat i))"
  by (induction n arbitrary: a) (simp_all add: add.assoc)

lemma bit_ld_bytes: "n \<le> 8 \<Longrightarrow> bit (ld_bytes n f) i \<longleftrightarrow> i < 8 * n \<and> bit (f (i div 8)) (i mod 8)"
proof (induction n arbitrary: f i)
  case (Suc n)
  show ?case
  proof (cases "i < 8")
    case True
    then show ?thesis by (auto simp: bit_simps)
  next
    case False
    then have i: "i div 8 = Suc ((i - 8) div 8)" "i mod 8 = (i - 8) mod 8" by (simp_all add: div_if mod_if)
    have "bit (ld_bytes (Suc n) f) i \<longleftrightarrow> i < 64 \<and> bit (ld_bytes n (\<lambda>i. f (Suc i))) (i - 8)"
      using False by (auto simp: bit_simps dest: bit_imp_le_length)
    with Suc i False show ?thesis by auto
  qed
qed simp

lemma ld_bytes_cong: "(\<And>i. i < n \<Longrightarrow> f i = g i) \<Longrightarrow> ld_bytes n f = ld_bytes n g"
proof (induction n arbitrary: f g)
  case (Suc n)
  have "f 0 = g 0" using Suc.prems by simp
  moreover have "ld_bytes n (\<lambda>i. f (Suc i)) = ld_bytes n (\<lambda>i. g (Suc i))" by (rule Suc.IH) (simp add: Suc.prems)
  ultimately show ?case by simp
qed simp

lemma ld_bytes_of_value: "n \<le> 8 \<Longrightarrow> ld_bytes n (\<lambda>i. ucast (drop_bit (8 * i) v)) = take_bit (8 * n) v"
proof (rule bit_word_eqI)
  fix i
  assume n: "n \<le> 8" and "i < LENGTH(64)"
  have "8 * (i div 8) + i mod 8 = i" by (rule mult_div_mod_eq)
  moreover have "i mod 8 < LENGTH(8)" by simp
  ultimately have "bit (ucast (drop_bit (8 * (i div 8)) v) :: u8) (i mod 8) = bit v i"
    by (simp only: bit_unsigned_iff possible_bit_word bit_drop_bit_eq comp_def simp_thms)
  then show "bit (ld_bytes n (\<lambda>i. ucast (drop_bit (8 * i) v))) i = bit (take_bit (8 * n) v) i"
    unfolding bit_ld_bytes [OF n] bit_take_bit_iff by (rule arg_cong)
qed

lemma st_raw_other: "(\<And>i. i < n \<Longrightarrow> x \<noteq> a + of_nat i) \<Longrightarrow> st_raw n a v h x = h x"
proof (induction n arbitrary: a v h)
  case (Suc n)
  have "x \<noteq> a" using Suc.prems [of 0] by simp
  moreover have "x \<noteq> a + 1 + of_nat i" if "i < n" for i using Suc.prems [of "Suc i"] that by (simp add: add.assoc)
  ultimately show ?case using Suc.IH by simp
qed simp

lemma st_raw_at: "i < n \<Longrightarrow> n \<le> 8 \<Longrightarrow> st_raw n a v h (a + of_nat i) = ucast (drop_bit (8 * i) v)"
proof (induction n arbitrary: a v h i)
  case (Suc n)
  show ?case
  proof (cases i)
    case 0
    have "a \<noteq> a + 1 + of_nat j" if "j < n" for j
    proof
      assume "a = a + 1 + of_nat j"
      then have "(of_nat (Suc j) :: u64) = 0" by (simp add: add.assoc)
      moreover have "unat (of_nat (Suc j) :: u64) = Suc j" using that Suc.prems by (simp only: unat_of_nat) simp
      ultimately show False by simp
    qed
    then have "st_raw n (a + 1) (drop_bit 8 v) (h(a := ucast v)) a = ucast v" by (subst st_raw_other) auto
    with 0 show ?thesis by simp
  next
    case (Suc j)
    then have "a + of_nat i = a + 1 + of_nat j" by simp
    with Suc.IH [of j "a + 1" "drop_bit 8 v"] Suc.prems Suc show ?thesis by (simp add: drop_bit_drop_bit ac_simps)
  qed
qed simp

section \<open>Pages\<close>

lemma unat_take_bit: "unat (take_bit k w) = unat (w :: u32) mod 2 ^ k"
  by (simp only: unsigned_take_bit_eq) (simp add: take_bit_eq_mod)

lemma page_eq_iff: "a AND TARGET_PAGE_MASK = b AND TARGET_PAGE_MASK \<longleftrightarrow> unat a div 1024 = unat b div 1024"
proof -
  have "x AND TARGET_PAGE_MASK = push_bit 10 (drop_bit 10 x)" for x :: u32
    unfolding TARGET_PAGE_MASK_eq by (rule bit_word_eqI) (auto simp: bit_simps)
  moreover have "drop_bit 10 (x AND TARGET_PAGE_MASK) = drop_bit 10 x" for x :: u32
    by (rule bit_word_eqI) (auto simp: TARGET_PAGE_MASK_eq bit_simps dest: bit_imp_le_length)
  ultimately have "a AND TARGET_PAGE_MASK = b AND TARGET_PAGE_MASK \<longleftrightarrow> drop_bit 10 a = drop_bit 10 b" by metis
  also have "\<dots> \<longleftrightarrow> unat (drop_bit 10 a) = unat (drop_bit 10 b)" by (rule word_unat_eq_iff)
  also have "\<dots> \<longleftrightarrow> unat a div 1024 = unat b div 1024" by (simp add: drop_bit_eq_div unat_div)
  finally show ?thesis .
qed

definition data_size :: "nat \<Rightarrow> bool" where
  "data_size n \<longleftrightarrow> n = 1 \<or> n = 2 \<or> n = 4 \<or> n = 8"

lemma page_offset: "unat (addr AND NOT TARGET_PAGE_MASK) = unat addr mod 1024"
proof -
  have "addr AND NOT TARGET_PAGE_MASK = take_bit 10 addr" by (simp add: TARGET_PAGE_MASK_eq take_bit_eq_mask)
  then show ?thesis by (simp only: unat_take_bit) simp
qed

lemma data_size_pow: "data_size n \<Longrightarrow> \<exists>k\<le>3. n = 2 ^ k \<and> (of_nat n - 1 :: u32) = mask k"
  unfolding data_size_def
  by (elim disjE) (rule exI [of _ 0], simp, rule exI [of _ 1], simp add: mask_eq_exp_minus_1, rule exI [of _ 2], simp add: mask_eq_exp_minus_1,
    rule exI [of _ 3], simp add: mask_eq_exp_minus_1)

lemma unaligned_mod: "data_size n \<Longrightarrow> unaligned n addr \<longleftrightarrow> unat addr mod n \<noteq> 0"
proof -
  assume "data_size n"
  then obtain k where k: "k \<le> 3" "n = 2 ^ k" "(of_nat n - 1 :: u32) = mask k" using data_size_pow by blast
  have "addr AND mask k = 0 \<longleftrightarrow> unat (take_bit k addr) = 0" by (simp add: take_bit_eq_mask unat_eq_zero)
  also have "unat (take_bit k addr) = unat addr mod n" by (simp only: unat_take_bit k(2))
  finally show ?thesis unfolding unaligned_def k(3) by simp
qed

lemma spans_pages_mod: "data_size n \<Longrightarrow> spans_pages n addr \<longleftrightarrow> 1024 < unat addr mod 1024 + n"
proof -
  assume n: "data_size n"
  let ?o = "addr AND NOT TARGET_PAGE_MASK"
  have "unat ?o < 1024" by (simp add: page_offset)
  then have "unat (?o + of_nat (n - 1)) = unat ?o + (n - 1)"
    using n by (subst unat_add_lem [THEN iffD1]) (auto simp: data_size_def unat_of_nat)
  moreover have "?o + of_nat n - 1 = ?o + of_nat (n - 1)" using n by (auto simp: data_size_def)
  ultimately have "unat (?o + of_nat n - 1) = unat addr mod 1024 + (n - 1)" by (simp only: page_offset)
  then show ?thesis using n unfolding spans_pages_def by (auto simp: word_le_nat_alt TARGET_PAGE_SIZE_def data_size_def)
qed

lemma aligned_in_page: "data_size n \<Longrightarrow> \<not> unaligned n addr \<Longrightarrow> \<not> spans_pages n addr"
proof -
  assume n: "data_size n" and "\<not> unaligned n addr"
  then have "unat addr mod n = 0" by (simp add: unaligned_mod)
  moreover have "n dvd 1024" using n by (auto simp: data_size_def)
  ultimately have "n dvd 1024 - unat addr mod 1024" by (metis dvd_diff_nat dvd_mod mod_0_imp_dvd)
  moreover have "0 < 1024 - unat addr mod 1024" by simp
  ultimately have "n \<le> 1024 - unat addr mod 1024" by (rule dvd_imp_le)
  then show ?thesis using n by (simp add: spans_pages_mod)
qed

lemma split_address:
  assumes "data_size n"
  shows "\<not> unaligned n (addr AND NOT (of_nat n - 1))" "\<not> unaligned n ((addr AND NOT (of_nat n - 1)) + of_nat n)"
    "(addr AND NOT (of_nat n - 1)) AND TARGET_PAGE_MASK = addr AND TARGET_PAGE_MASK"
    "unat (addr AND NOT (of_nat n - 1)) = unat addr - unat addr mod n" "unat (addr AND (of_nat n - 1)) = unat addr mod n"
proof -
  obtain k where k: "k \<le> 3" "n = 2 ^ k" "(of_nat n - 1 :: u32) = mask k" using data_size_pow [OF assms] by blast
  show m: "unat (addr AND (of_nat n - 1)) = unat addr mod n"
    unfolding k(3) by (simp only: unat_take_bit k(2) flip: take_bit_eq_mask)
  have "(addr AND NOT (mask k)) AND mask k = 0" by (rule bit_word_eqI) (auto simp: bit_simps)
  then show "\<not> unaligned n (addr AND NOT (of_nat n - 1))" unfolding unaligned_def k(3) by simp
  have "(addr AND NOT (mask k)) + (addr AND mask k) = (addr AND NOT (mask k)) OR (addr AND mask k)"
    by (rule disjunctive_add_eq_or) (rule bit_word_eqI, auto simp: bit_simps)
  also have "\<dots> = addr" by (rule bit_word_eqI) (auto simp: bit_simps)
  finally have "addr AND NOT (mask k) = addr - (addr AND mask k)" by (simp add: algebra_simps)
  then show u: "unat (addr AND NOT (of_nat n - 1)) = unat addr - unat addr mod n"
    using m unfolding k(3) by (simp add: unat_sub word_and_le2)
  have "unat ((addr AND NOT (of_nat n - 1)) + of_nat n) mod n = (unat addr - unat addr mod n + n) mod 2 ^ 32 mod n"
    using assms unfolding unat_word_ariths u by (auto simp: data_size_def)
  also have "\<dots> = (unat addr - unat addr mod n + n) mod n"
    using assms by (intro mod_mod_cancel) (auto simp: data_size_def)
  also have "\<dots> = 0" by (simp add: minus_mod_eq_mult_div)
  finally show "\<not> unaligned n ((addr AND NOT (of_nat n - 1)) + of_nat n)" using assms by (simp add: unaligned_mod)
  show "(addr AND NOT (of_nat n - 1)) AND TARGET_PAGE_MASK = addr AND TARGET_PAGE_MASK"
    unfolding k(3) TARGET_PAGE_MASK_eq by (rule bit_word_eqI) (use k(1) in \<open>auto simp: bit_simps\<close>)
qed

lemma in_page:
  assumes "unat addr mod 1024 + i < 1024"
  shows "(addr + of_nat i) AND TARGET_PAGE_MASK = addr AND TARGET_PAGE_MASK" "unat (addr + of_nat i) = unat addr + i"
    "ucast (addr + of_nat i) = (ucast addr + of_nat i :: u64)"
proof -
  have b: "unat addr < 2 ^ 32" using unsigned_less [of addr] by simp
  then have "unat addr div 1024 < 4194304" by (simp add: div_less_iff_less_mult)
  moreover have "unat addr = unat addr div 1024 * 1024 + unat addr mod 1024" by simp
  ultimately have "unat addr + i < 4294967296" using assms by linarith
  then have l: "unat addr + i < 2 ^ 32" by simp
  have w: "of_nat (unat addr + i) = addr + of_nat i" by simp
  show u: "unat (addr + of_nat i) = unat addr + i" by (rule of_nat_inverse [OF w]) (use l in simp)
  have "unat addr + i = unat addr div 1024 * 1024 + (unat addr mod 1024 + i)" by simp
  with assms have "(unat addr + i) div 1024 = unat addr div 1024"
    by (metis div_mult_self3 div_less add_0_right zero_neq_numeral)
  then show "(addr + of_nat i) AND TARGET_PAGE_MASK = addr AND TARGET_PAGE_MASK" by (simp only: page_eq_iff u)
  have "ucast (addr + of_nat i) = (of_nat (unat (addr + of_nat i)) :: u64)" by (rule of_nat_unat [symmetric])
  then show "ucast (addr + of_nat i) = (ucast addr + of_nat i :: u64)" unfolding u by simp
qed

section \<open>Hits\<close>

text \<open>A line that maps the page of an address to RAM, for loads and for stores of a dirty page.\<close>

lemma exact_hit:
  assumes "t = addr AND TARGET_PAGE_MASK"
  shows "tlb_hit addr t" "t AND NOT TARGET_PAGE_MASK = 0"
proof -
  show "tlb_hit addr t" unfolding assms by (rule tlb_hit_flags(1) [OF page_mask_idem]) simp
  show "t AND NOT TARGET_PAGE_MASK = 0" unfolding assms by (simp add: and.assoc)
qed

definition ram_page :: "bool \<Rightarrow> nat \<Rightarrow> u32 \<Rightarrow> 'd system \<Rightarrow> bool" where
  "ram_page code m addr s \<longleftrightarrow> ADDR_READ code (tlb_line m addr s) = addr AND TARGET_PAGE_MASK"

definition dirty_page :: "nat \<Rightarrow> u32 \<Rightarrow> 'd system \<Rightarrow> bool" where
  "dirty_page m addr s \<longleftrightarrow> addr_write (tlb_line m addr s) = addr AND TARGET_PAGE_MASK"

text \<open>The host address of a byte of the virtual address space.\<close>

definition host_address :: "nat \<Rightarrow> u32 \<Rightarrow> 'd system \<Rightarrow> u64" where
  "host_address m addr s = ucast addr + addend (tlb_line m addr s)"

lemma tlb_line_page: "a AND TARGET_PAGE_MASK = b AND TARGET_PAGE_MASK \<Longrightarrow> tlb_line m a s = tlb_line m b s"
  unfolding tlb_line_def entry_at_def by (drule tlb_index_eq_page) simp

lemma ram_page_cong: "a AND TARGET_PAGE_MASK = b AND TARGET_PAGE_MASK \<Longrightarrow> ram_page code m a s \<longleftrightarrow> ram_page code m b s"
  "a AND TARGET_PAGE_MASK = b AND TARGET_PAGE_MASK \<Longrightarrow> dirty_page m a s \<longleftrightarrow> dirty_page m b s"
  unfolding ram_page_def dirty_page_def by (frule tlb_line_page [of a b m s], simp)+

lemma host_address_in_page:
  "unat addr mod 1024 + i < 1024 \<Longrightarrow> host_address m (addr + of_nat i) s = ucast addr + addend (tlb_line m addr s) + of_nat i"
  unfolding host_address_def tlb_line_page [OF in_page(1)] by (simp add: in_page(3))

text \<open>The value of the bytes of the virtual address space from an address on.\<close>

definition virtual_value :: "nat \<Rightarrow> nat \<Rightarrow> u32 \<Rightarrow> 'd system \<Rightarrow> u64" where
  "virtual_value n m addr s = ld_bytes n (\<lambda>i. host s (host_address m (addr + of_nat i) s))"

lemma raw_value:
  assumes "data_size n" and "\<not> spans_pages n addr"
  shows "ld_raw n (host s) (ucast addr + addend (tlb_line m addr s)) = virtual_value n m addr s"
  unfolding ld_raw_bytes virtual_value_def
  by (rule ld_bytes_cong) (use assms in \<open>simp add: host_address_in_page spans_pages_mod\<close>)

lemma slow_ld_in_page:
  assumes "data_size n" and "ram_page code m addr s" and "\<not> spans_pages n addr"
  shows "slow_ld p code n m retaddr addr s = ret (Some (virtual_value n m addr s), s)"
  using exact_hit [OF assms(2) [unfolded ram_page_def]] assms(3)
  by (subst slow_ld.simps) (simp add: Let_def raw_value assms(1))

lemma address_parts:
  assumes "data_size n"
  shows "(addr :: u32) = (addr AND NOT (of_nat n - 1)) + of_nat (unat addr mod n)"
proof -
  have "unat (addr AND NOT (of_nat n - 1)) + unat addr mod n = unat addr" by (simp only: split_address(4) [OF assms]) simp
  then have "of_nat (unat (addr AND NOT (of_nat n - 1)) + unat addr mod n) = (of_nat (unat addr) :: u32)" by (rule arg_cong)
  then show ?thesis by simp
qed

lemma spanning_offset:
  assumes "data_size n" and "spans_pages n addr"
  shows "0 < unat addr mod n" "unat ((addr AND NOT (of_nat n - 1)) + of_nat n) mod 1024 = 0"
proof -
  show k: "0 < unat addr mod n" using aligned_in_page [OF assms(1)] assms by (auto simp: unaligned_mod)
  obtain r where r: "1024 = n * r" "0 < n" using assms(1) by (auto simp: data_size_def intro: that [of "1024 div n"])
  let ?a = "unat (addr AND NOT (of_nat n - 1))"
  have "?a mod n = 0" using split_address(1) [OF assms(1)] assms(1) by (simp add: unaligned_mod)
  then have "n dvd ?a" by auto
  moreover have "n dvd 1024" unfolding r(1) by simp
  ultimately have "n dvd ?a mod 1024" by (simp add: dvd_mod)
  then obtain q where q: "?a mod 1024 = n * q" by blast
  have "n * q < n * r" using q r(1) by (metis mod_less_divisor zero_less_numeral)
  then have "q < r" by simp
  have "unat addr = ?a + unat addr mod n" by (simp only: split_address(4) [OF assms(1)]) simp
  moreover have "unat addr div 1024 = ?a div 1024" using split_address(3) [OF assms(1), of addr] by (simp only: page_eq_iff)
  ultimately have "unat addr mod 1024 = ?a mod 1024 + unat addr mod n"
    using div_mult_mod_eq [of "unat addr" 1024] div_mult_mod_eq [of ?a 1024] by linarith
  then have "1024 < n * q + unat addr mod n + n" using assms q by (simp add: spans_pages_mod)
  moreover have "unat addr mod n < n" using r(2) by simp
  ultimately have "n * r < n * (q + 2)" using r(1) by simp
  then have "r < q + 2" by (metis nat_mult_less_cancel_disj)
  with \<open>q < r\<close> have "r = q + 1" by simp
  then have e: "(?a mod 1024 + n) mod 1024 = 0" using q r(1) by (simp add: add.commute)
  have "unat ((addr AND NOT (of_nat n - 1)) + of_nat n) mod 1024 = (?a + n) mod 2 ^ 32 mod 1024"
    using assms(1) by (auto simp: unat_word_ariths data_size_def)
  also have "\<dots> = (?a + n) mod 1024" by (rule mod_mod_cancel) simp
  also have "\<dots> = 0" using e by (simp add: mod_simps)
  finally show "unat ((addr AND NOT (of_nat n - 1)) + of_nat n) mod 1024 = 0" .
qed

lemma combine_values:
  assumes "data_size n"
  shows "combine n addr (virtual_value n m (addr AND NOT (of_nat n - 1)) s)
    (virtual_value n m ((addr AND NOT (of_nat n - 1)) + of_nat n) s) = virtual_value n m addr s"
proof (rule bit_word_eqI)
  fix i
  let ?k = "unat addr mod n" and ?a = "addr AND NOT (of_nat n - 1)"
  define f where "f = (\<lambda>j. host s (host_address m (?a + of_nat j) s))"
  have n: "n \<le> 8" "0 < n" using assms by (auto simp: data_size_def)
  have k: "?k < n" using n(2) by simp
  have v1: "virtual_value n m ?a s = ld_bytes n f" by (simp add: virtual_value_def f_def)
  have v2: "virtual_value n m (?a + of_nat n) s = ld_bytes n (\<lambda>j. f (n + j))" by (simp add: virtual_value_def f_def add.assoc)
  have v: "virtual_value n m addr s = ld_bytes n (\<lambda>j. f (?k + j))"
    unfolding virtual_value_def f_def by (subst address_parts [OF assms, of addr]) (simp add: add.assoc)
  assume "i < LENGTH(64)"
  then have i: "i < 64" by simp
  show "bit (combine n addr (virtual_value n m ?a s) (virtual_value n m (?a + of_nat n) s)) i = bit (virtual_value n m addr s) i"
  proof (cases "i < 8 * (n - ?k)")
    case True
    then have "i < 8 * n" "?k * 8 + i < 8 * n" "(?k * 8 + i) div 8 = ?k + i div 8" "\<not> n * 8 - ?k * 8 \<le> i" by auto
    with True show ?thesis
      unfolding combine_def Let_def v1 v2 v split_address(5) [OF assms]
      by (simp add: bit_take_bit_iff bit_or_iff bit_drop_bit_eq bit_push_bit_iff bit_ld_bytes [OF n(1)])
  next
    case False
    then obtain j d where j: "i = 8 * d + j" "n = ?k + d" using k by (metis le_Suc_ex less_imp_le not_less add_diff_cancel_left')
    have e: "\<not> ?k * 8 + i < 8 * n" "n * 8 - ?k * 8 \<le> i" "i - (n * 8 - ?k * 8) = j" "i div 8 = d + j div 8" "i mod 8 = j mod 8"
      "?k + (d + j div 8) = n + j div 8" "i < 8 * n \<Longrightarrow> j < 8 * n"
      using j(2) by (simp_all add: j(1) diff_mult_distrib)
    show ?thesis
      unfolding combine_def Let_def v1 v2 v split_address(5) [OF assms]
      using i e(7)
      by (simp only: bit_take_bit_iff bit_or_iff bit_drop_bit_eq bit_push_bit_iff bit_ld_bytes [OF n(1)] comp_def e(1-6) simp_thms) auto
  qed
qed

lemma slow_ld_ram:
  assumes "data_size n" and "ram_page code m addr s" and "ram_page code m (addr + of_nat (n - 1)) s"
  shows "slow_ld p code n m retaddr addr s = ret (Some (virtual_value n m addr s), s)"
proof (cases "spans_pages n addr")
  case True
  let ?a1 = "addr AND NOT (of_nat n - 1)" let ?a2 = "?a1 + of_nat n"
  have "unat addr mod n + (n - 1) = n + (unat addr mod n - 1)"
    using spanning_offset(1) [OF assms(1) True] assms(1) by (auto simp: data_size_def)
  then have "of_nat (unat addr mod n + (n - 1)) = (of_nat (n + (unat addr mod n - 1)) :: u32)" by (rule arg_cong)
  then have e: "of_nat (unat addr mod n) + of_nat (n - 1) = (of_nat n + of_nat (unat addr mod n - 1) :: u32)" by (simp only: of_nat_add)
  have "addr + of_nat (n - 1) = ?a1 + of_nat (unat addr mod n) + of_nat (n - 1)"
    by (rule arg_cong [OF address_parts [OF assms(1)], where f = "\<lambda>x. x + of_nat (n - 1)"])
  also have "\<dots> = ?a2 + of_nat (unat addr mod n - 1)" by (simp only: e add.assoc)
  finally have a: "addr + of_nat (n - 1) = ?a2 + of_nat (unat addr mod n - 1)" .
  have "unat addr mod n \<le> 8" using assms(1) by (auto simp: data_size_def)
  then have "unat ?a2 mod 1024 + (unat addr mod n - 1) < 1024" using spanning_offset(2) [OF assms(1) True] by simp
  then have "(addr + of_nat (n - 1)) AND TARGET_PAGE_MASK = ?a2 AND TARGET_PAGE_MASK" unfolding a by (rule in_page(1))
  then have "ram_page code m ?a1 s" "ram_page code m ?a2 s"
    using ram_page_cong(1) assms(2,3) split_address(3) [OF assms(1)] by metis+
  moreover have "\<not> spans_pages n ?a1" "\<not> spans_pages n ?a2"
    by (rule aligned_in_page [OF assms(1)], rule split_address [OF assms(1)])+
  ultimately show ?thesis
    using exact_hit [OF assms(2) [unfolded ram_page_def]] True combine_values [OF assms(1), of addr m s]
    by (subst slow_ld.simps) (simp only: Let_def slow_ld_in_page [OF assms(1)] comp_bind_ret prod.case option.case if_True if_False simp_thms)
qed (use assms slow_ld_in_page in blast)

text \<open>The bytes that the byte-wise store writes, last byte first.\<close>

lemma put_host_simps [simp]:
  "host (put_host h s) = h" "mach (put_host h s) = mach s" "cpu (world (put_host h s)) = cpu (world s)"
  "tracer (world (put_host h s)) = tracer (world s)" "tlb_line m addr (put_host h s) = tlb_line m addr s"
  "host_address m addr (put_host h s) = host_address m addr s" "dirty_page m addr (put_host h s) = dirty_page m addr s"
  "ram_page code m addr (put_host h s) = ram_page code m addr s"
  by (simp_all add: put_host_def tlb_line_def host_address_def dirty_page_def ram_page_def)

lemma put_host_twice [simp]: "put_host h' (put_host h s) = put_host h' s"
  by (simp add: put_host_def)

fun store_host :: "nat \<Rightarrow> (nat \<Rightarrow> u64) \<Rightarrow> u64 \<Rightarrow> (u64 \<Rightarrow> u8) \<Rightarrow> u64 \<Rightarrow> u8" where
  "store_host 0 f val h = h"
| "store_host (Suc i) f val h = store_host i f val (h(f i := ucast (drop_bit (i * 8) val)))"

lemma store_host_other: "(\<And>i. i < n \<Longrightarrow> x \<noteq> f i) \<Longrightarrow> store_host n f val h x = h x"
  by (induction n arbitrary: h) auto

lemma store_host_at: "inj_on f {..<n} \<Longrightarrow> i < n \<Longrightarrow> store_host n f val h (f i) = ucast (drop_bit (8 * i) val)"
proof (induction n arbitrary: h)
  case (Suc n)
  then have inj: "inj_on f {..<n}" by (auto simp: inj_on_def)
  show ?case
  proof (cases "i = n")
    case True
    have "f n \<noteq> f j" if "j < n" for j using inj_onD [OF Suc.prems(1), of n j] that by auto
    then show ?thesis using True by (simp add: store_host_other mult.commute)
  next
    case False
    with Suc inj show ?thesis by simp
  qed
qed simp

lemma store_host_cong: "(\<And>i. i < n \<Longrightarrow> f i = g i) \<Longrightarrow> store_host n f val h = store_host n g val h"
  by (induction n arbitrary: h) auto

lemma inj_offsets: "n \<le> 8 \<Longrightarrow> inj_on (\<lambda>i. a + of_nat i :: u64) {..<n}"
proof (rule inj_onI)
  fix i j
  assume "n \<le> 8" and "i \<in> {..<n}" "j \<in> {..<n}" and "a + of_nat i = a + (of_nat j :: u64)"
  then have "unat (of_nat i :: u64) = unat (of_nat j :: u64)" "i < 8" "j < 8" by auto
  then show "i = j" by (simp only: unat_of_nat) simp
qed

lemma st_raw_store_host: "n \<le> 8 \<Longrightarrow> st_raw n a val h = store_host n (\<lambda>i. a + of_nat i) val h"
proof
  fix x
  assume n: "n \<le> 8"
  show "st_raw n a val h x = store_host n (\<lambda>i. a + of_nat i) val h x"
  proof (cases "\<exists>i<n. x = a + of_nat i")
    case True
    with n show ?thesis using st_raw_at store_host_at [OF inj_offsets [OF n]] by metis
  next
    case False
    then show ?thesis by (simp add: st_raw_other store_host_other)
  qed
qed

lemma byte_page:
  assumes "data_size n" and "i < n"
  shows "(addr + of_nat i) AND TARGET_PAGE_MASK = addr AND TARGET_PAGE_MASK \<or>
    (addr + of_nat i) AND TARGET_PAGE_MASK = (addr + of_nat (n - 1)) AND TARGET_PAGE_MASK"
proof (cases "unat addr mod 1024 + i < 1024")
  case False
  have n: "n \<le> 8" using assms(1) by (auto simp: data_size_def)
  have "unat (addr + of_nat i) = (unat addr + i) mod 2 ^ 32" using assms(2) n by (simp add: unat_word_ariths unat_of_nat)
  then have "unat (addr + of_nat i) mod 1024 = (unat addr + i) mod 1024" by (simp add: mod_mod_cancel)
  also have "\<dots> = (unat addr mod 1024 + i) mod 1024" by (simp add: mod_simps)
  also have "\<dots> = unat addr mod 1024 + i - 1024"
    using False assms(2) n mod_less_divisor [of 1024 "unat addr"] by (subst le_mod_geq) (simp_all del: mod_less_divisor)
  finally have "unat (addr + of_nat i) mod 1024 + (n - 1 - i) < 1024"
    using assms(2) n mod_less_divisor [of 1024 "unat addr"] by (simp del: mod_less_divisor)
  from in_page(1) [OF this] have "(addr + of_nat i + of_nat (n - 1 - i)) AND TARGET_PAGE_MASK = (addr + of_nat i) AND TARGET_PAGE_MASK" .
  moreover have "of_nat i + of_nat (n - 1 - i) = (of_nat (n - 1) :: u32)" using assms(2) by (simp flip: of_nat_add)
  ultimately show ?thesis by (simp add: add.assoc)
qed (simp add: in_page(1))

lemma slow_stb_ram:
  assumes "dirty_page m addr s"
  shows "slow_stb p m retaddr addr val s = ret (Some (), put_host ((host s)(host_address m addr s := ucast val)) s)"
proof -
  have "\<not> spans_pages 1 addr" by (rule aligned_in_page) (simp_all add: data_size_def unaligned_def)
  then show ?thesis
    using exact_hit [OF assms [unfolded dirty_page_def]]
    by (subst slow_stb.simps) (simp add: Let_def host_address_def)
qed

text \<open>Page-table walks read what the host memory holds.\<close>

definition coherent :: "'d system \<Rightarrow> bool" where
  "coherent s \<longleftrightarrow> ram (world s) = phys_view (mach s) (host s)"

lemma coherent_put_host [simp]: "coherent (put_host h s)"
  by (simp add: coherent_def put_host_def)

lemma put_host_same: "coherent s \<Longrightarrow> put_host (host s) s = s"
  by (simp add: coherent_def put_host_def)

lemma store_bytes_ram:
  assumes "\<And>i. i < n \<Longrightarrow> dirty_page m (addr + of_nat i) s" and "coherent s"
  shows "store_bytes p n m retaddr addr val s =
    ret (Some (), put_host (store_host n (\<lambda>i. host_address m (addr + of_nat i) s) val (host s)) s)"
  using assms by (induction n arbitrary: s) (simp_all add: slow_stb_ram put_host_same)

text \<open>The state after a store to dirty RAM pages.\<close>

definition stored :: "nat \<Rightarrow> nat \<Rightarrow> u32 \<Rightarrow> u64 \<Rightarrow> 'd system \<Rightarrow> 'd system" where
  "stored n m addr val s = put_host (store_host n (\<lambda>i. host_address m (addr + of_nat i) s) val (host s)) s"

lemma dirty_bytes:
  assumes "data_size n" and "dirty_page m addr s" and "dirty_page m (addr + of_nat (n - 1)) s" and "i < n"
  shows "dirty_page m (addr + of_nat i) s"
  using byte_page [OF assms(1,4), of addr] ram_page_cong(2) [of "addr + of_nat i" addr m s]
    ram_page_cong(2) [of "addr + of_nat i" "addr + of_nat (n - 1)" m s] assms(2,3) by blast

lemma raw_store:
  assumes "data_size n" and "\<not> spans_pages n addr"
  shows "put_host (st_raw n (ucast addr + addend (tlb_line m addr s)) val (host s)) s = stored n m addr val s"
proof -
  have "n \<le> 8" using assms(1) by (auto simp: data_size_def)
  moreover have "store_host n (\<lambda>i. ucast addr + addend (tlb_line m addr s) + of_nat i) val (host s) =
      store_host n (\<lambda>i. host_address m (addr + of_nat i) s) val (host s)"
    by (rule store_host_cong) (use assms in \<open>simp add: host_address_in_page spans_pages_mod\<close>)
  ultimately show ?thesis by (simp add: st_raw_store_host stored_def)
qed

lemma slow_st_ram:
  assumes "data_size n" and "dirty_page m addr s" and "dirty_page m (addr + of_nat (n - 1)) s" and "coherent s"
  shows "slow_st p n m retaddr addr val s = ret (Some (), stored n m addr val s)"
  using exact_hit [OF assms(2) [unfolded dirty_page_def]] store_bytes_ram [OF dirty_bytes [OF assms(1-3)] assms(4)]
  by (subst slow_st.simps) (simp add: Let_def raw_store assms(1) stored_def)

lemma st_redo_ram:
  assumes "data_size n" and "dirty_page m addr s" and "dirty_page m (addr + of_nat (n - 1)) s" and "coherent s" and "\<not> checks m s"
  shows "st_redo p n m retaddr addr val s = ret (Some (), stored n m addr val s)"
  using exact_hit [OF assms(2) [unfolded dirty_page_def]] slow_st_ram [OF assms(1-4)] assms(5)
  by (subst st_redo.simps) (simp add: Let_def raw_store assms(1) finish_access_def invalidate_cache_def)

lemma ld_redo_ram:
  assumes "data_size n" and "ram_page code m addr s" and "ram_page code m (addr + of_nat (n - 1)) s" and "\<not> checks m s"
  shows "ld_redo p code n m retaddr addr s = ret (Some (virtual_value n m addr s), s)"
  using exact_hit [OF assms(2) [unfolded ram_page_def]] slow_ld_ram [OF assms(1-3)] assms(4)
  by (subst ld_redo.simps) (simp add: Let_def raw_value assms(1) finish_access_def invalidate_cache_def)

text \<open>A stored value is loaded again, when the bytes lie at distinct host addresses.\<close>

lemma virtual_value_stored:
  assumes "data_size n" and "inj_on (\<lambda>i. host_address m (addr + of_nat i) s) {..<n}"
  shows "virtual_value n m addr (stored n m addr val s) = take_bit (8 * n) val"
proof -
  have n: "n \<le> 8" using assms(1) by (auto simp: data_size_def)
  have "virtual_value n m addr (stored n m addr val s) = ld_bytes n (\<lambda>i. ucast (drop_bit (8 * i) val))"
    unfolding virtual_value_def by (rule ld_bytes_cong) (simp add: stored_def store_host_at [OF assms(2)])
  then show ?thesis by (simp add: ld_bytes_of_value n)
qed

section \<open>The tracer\<close>

lemma refmem_pwc_keeps:
  "tlbtrace_refmem_pwc addr arg t = ret t' \<Longrightarrow> started t' = started t \<and> my_pte_helper t' = my_pte_helper t"
  unfolding tlbtrace_refmem_pwc_def
  by (auto simp: put_fbuf_def flush_fbuf_def split: option.splits prod.splits if_splits dest!: comp_bind_eq_retD)

lemma refmem_keeps:
  assumes "tracing t" and "sl_systs t + 1 < SYSTS_LIMIT" and "tlbtrace_refmem addr a ins arg t = ret t'"
  shows "started t' = started t \<and> my_pte_helper t' = my_pte_helper t"
proof -
  let ?addr = "addr AND 0xFFFFF000"
  have ok: "sl_ok t" using assms(1) by (simp add: tracing_def)
  obtain t1 where 1: "tlbtrace_refmem_sl ?addr a ins t = ret (sl_present ?addr a ins t, t1)" "same_output t t1"
    using refmem_sl_returns [OF ok assms(2)] by blast
  then have "t' = t1 \<or> tlbtrace_refmem_pwc ?addr arg t1 = ret t'"
    using assms(3) by (auto simp: tlbtrace_refmem_def Let_def split: if_splits)
  with 1(2) show ?thesis using refmem_pwc_keeps [of ?addr arg t1 t'] by (auto simp: same_output_def)
qed

text \<open>A tracer that is off, or that runs with room for more accesses before its limit.\<close>

definition tracer_ready :: "nat \<Rightarrow> traced \<Rightarrow> bool" where
  "tracer_ready k w \<longleftrightarrow> (started (tracer w) \<longrightarrow>
     tracing (tracer w) \<and> my_pte_helper (tracer w) = Some pte_callback \<and> unat (sl_systs (tracer w)) + k < 150000000000)"

text \<open>What one data access adds to the trace.\<close>

definition traced_bytes :: "u32 \<Rightarrow> traced \<Rightarrow> u8 list" where
  "traced_bytes addr w =
     (let page = addr AND 0xFFFFF000 in
      if \<not> started (tracer w) \<or> uncached_cpsr (cpu w) AND CPSR_M \<noteq> ARM_CPU_MODE_USR \<or>
         sl_present page (c13_context (cp15 (cpu w)) AND 0xFF) False (tracer w) then []
      else tuple_bytes (case get_ptes (ram w) (cpu w) page of (r, l1, l2, gpa) \<Rightarrow> (page OR r, l1, l2, gpa)))"

lemma trace_access_ready:
  assumes "tracer_ready (Suc k) (world s)"
  obtains w where "trace_access addr s = ret (s\<lparr>world := w\<rparr>)" and "cpu w = cpu (world s)" and "ram w = ram (world s)"
    and "tracer_ready k w" and "trace_log (tracer w) = trace_log (tracer (world s)) @ traced_bytes addr (world s)"
proof (cases "started (tracer (world s)) \<and> uncached_cpsr (cpu (world s)) AND CPSR_M = ARM_CPU_MODE_USR")
  case False
  then have "tlbtrace_refmem_qemu addr False (world s) = ret (world s)" "traced_bytes addr (world s) = []"
    by (auto simp: tlbtrace_refmem_qemu_def traced_bytes_def)
  moreover have "tracer_ready k (world s)" using assms by (auto simp: tracer_ready_def)
  ultimately show thesis by (intro that [of "world s"]) (simp_all add: trace_access_def)
next
  case True
  let ?t = "tracer (world s)" and ?a = "c13_context (cp15 (cpu (world s))) AND 0xFF"
  have t: "tracing ?t" "my_pte_helper ?t = Some pte_callback" "unat (sl_systs ?t) + Suc k < 150000000000"
    using assms True by (auto simp: tracer_ready_def)
  have l: "sl_systs ?t + 1 < SYSTS_LIMIT" "unat (sl_systs ?t + 1) = unat (sl_systs ?t) + 1"
    using word_less_limit [OF t(3)] by auto
  obtain t' where t': "tlbtrace_refmem addr ?a False (ram (world s), cpu (world s)) ?t = ret t'" "tracing t'"
      "sl_systs t' = sl_systs ?t + 1" "trace_log t' = trace_log ?t @
        (if sl_present (addr AND 0xFFFFF000) ?a False ?t then []
         else tuple_bytes (tuple_of ?t (ram (world s), cpu (world s)) (addr AND 0xFFFFF000)))"
    using refmem_returns [OF t(1) l(1)] by metis
  have k: "started t'" "my_pte_helper t' = Some pte_callback" using refmem_keeps [OF t(1) l(1) t'(1)] t(2) True by auto
  show thesis
  proof (rule that [of "(world s)\<lparr>tracer := t'\<rparr>"])
    show "trace_access addr s = ret (s\<lparr>world := (world s)\<lparr>tracer := t'\<rparr>\<rparr>)"
      using True t'(1) by (simp add: trace_access_def tlbtrace_refmem_qemu_def with_tracer_def Let_def)
    show "tracer_ready k ((world s)\<lparr>tracer := t'\<rparr>)" using t(3) t'(2,3) k l(2) by (simp add: tracer_ready_def)
    show "trace_log (tracer ((world s)\<lparr>tracer := t'\<rparr>)) = trace_log ?t @ traced_bytes addr (world s)"
      using True t'(4) t(2) by (simp add: traced_bytes_def tuple_of_def pte_callback_def Let_def)
  qed simp_all
qed

section \<open>Inline accesses\<close>

text \<open>Bits 0 to 2 of a TLB address are not flags.\<close>

definition tlb_flags_ok :: "u32 \<Rightarrow> bool" where
  "tlb_flags_ok t \<longleftrightarrow> t = - 1 \<or> t AND 7 = 0"

lemma fast_hit_exact:
  assumes "data_size n" and "fast_hit n addr t" and "tlb_flags_ok t"
  shows "t = addr AND TARGET_PAGE_MASK" "\<not> unaligned n addr"
proof -
  obtain k where k: "k \<le> 3" "n = 2 ^ k" "(of_nat n - 1 :: u32) = mask k" using data_size_pow [OF assms(1)] by blast
  have t: "t = addr AND (NOT (mask 10) OR mask k)" using assms(2) by (simp add: fast_hit_def k(3) TARGET_PAGE_MASK_eq)
  then have "\<not> bit t 9" using k(1) by (auto simp: bit_simps)
  then have "t \<noteq> - 1" by (auto simp: bit_simps)
  then have "t AND mask 3 = 0" using assms(3) by (simp add: tlb_flags_ok_def mask_eq_exp_minus_1)
  then have b: "bit (t AND mask 3) i = bit (0 :: u32) i" for i by (rule arg_cong)
  have z: "\<not> bit t i" if "i < 3" for i using b [of i] that by (simp add: bit_simps)
  have "\<not> bit addr i" if "i < k" for i using z [of i] that k(1) by (auto simp: t bit_simps)
  then have a: "addr AND mask k = 0" by (intro bit_word_eqI) (auto simp: bit_simps)
  then show "\<not> unaligned n addr" by (simp add: unaligned_def k(3))
  show "t = addr AND TARGET_PAGE_MASK"
    unfolding t TARGET_PAGE_MASK_eq bit.conj_disj_distrib a by simp
qed

text \<open>
  C31. The inline load and store functions, which compare one TLB word, do the same as the functions they fall back
  to, for every size and every state of the TLB, I/O pages, misses and unaligned addresses included: the same value, the same memory, the
  same trace. TLB addresses carry their flags above bit 2 and the memory checker is off.
\<close>

theorem inline_access_equiv:
  assumes "data_size n" and "\<not> checks m s" and "tracer_ready (Suc k) (world s)"
    and "tlb_flags_ok (ADDR_READ code (tlb_line m addr s))" and "tlb_flags_ok (addr_write (tlb_line m addr s))"
  shows "ld_mem p code n addr m retaddr s = ld_mmu p code n addr m retaddr s \<and>
    st_mem p n addr val m retaddr s = st_mmu p n addr val m retaddr s"
proof -
  obtain w where w: "trace_access addr s = ret (s\<lparr>world := w\<rparr>)" "cpu w = cpu (world s)"
    using trace_access_ready [OF assms(3)] by metis
  let ?s = "s\<lparr>world := w\<rparr>"
  have l: "tlb_line m addr ?s = tlb_line m addr s" "checks m ?s = checks m s" "host ?s = host s"
    by (simp_all add: tlb_line_def w(2) checks_def)
  have "ld_redo p code n m retaddr addr ?s = ret (Some (ld_raw n (host s) (ucast addr + addend (tlb_line m addr s))), ?s)"
    if "fast_hit n addr (ADDR_READ code (tlb_line m addr s))"
    using exact_hit [OF fast_hit_exact(1) [OF assms(1) that assms(4)]] aligned_in_page [OF assms(1) fast_hit_exact(2) [OF assms(1) that assms(4)]] assms(2)
    by (subst ld_redo.simps) (simp add: Let_def l finish_access_def invalidate_cache_def)
  moreover have "st_redo p n m retaddr addr val ?s =
      ret (Some (), put_host (st_raw n (ucast addr + addend (tlb_line m addr s)) val (host s)) ?s)"
    if "fast_hit n addr (addr_write (tlb_line m addr s))"
    using exact_hit [OF fast_hit_exact(1) [OF assms(1) that assms(5)]] aligned_in_page [OF assms(1) fast_hit_exact(2) [OF assms(1) that assms(5)]] assms(2)
    by (subst st_redo.simps) (simp add: Let_def l finish_access_def invalidate_cache_def)
  ultimately show ?thesis
    using w(1) by (auto simp: ld_mem_def st_mem_def ld_mmu_def st_mmu_def l)
qed

text \<open>
  C9. A program reads back what it wrote: a store of 1, 2, 4 or 8 bytes at any address, also across two pages, followed by a
  load of the same size at the same address, returns the value that was stored. In between, host memory differs exactly in the bytes
  that the TLB maps the addresses to, and page-table walks see the new memory. Each of the two accesses is recorded by the
  tracer once, for the page of its first byte only. The pages are RAM, mapped for loads and stores, and the bytes have distinct
  host addresses.
\<close>

theorem store_then_load:
  assumes "data_size n" and "coherent s" and "\<not> checks m s" and "tracer_ready (Suc (Suc k)) (world s)"
    and "ram_page False m addr s" and "ram_page False m (addr + of_nat (n - 1)) s"
    and "dirty_page m addr s" and "dirty_page m (addr + of_nat (n - 1)) s"
    and "inj_on (\<lambda>i. host_address m (addr + of_nat i) s) {..<n}"
  shows "\<exists>s1 s2. st_mmu p n addr val m retaddr s = ret (Some (), s1) \<and>
    ld_mmu p False n addr m retaddr s1 = ret (Some (take_bit (8 * n) val), s2) \<and>
    host s2 = host s1 \<and> coherent s1 \<and> mach s1 = mach s \<and> cpu (world s1) = cpu (world s) \<and>
    (\<forall>i<n. host s1 (host_address m (addr + of_nat i) s) = ucast (drop_bit (8 * i) val)) \<and>
    (\<forall>x. (\<forall>i<n. x \<noteq> host_address m (addr + of_nat i) s) \<longrightarrow> host s1 x = host s x) \<and>
    trace_log (tracer (world s1)) = trace_log (tracer (world s)) @ traced_bytes addr (world s) \<and>
    trace_log (tracer (world s2)) = trace_log (tracer (world s1)) @ traced_bytes addr (world s1)"
proof -
  obtain w where w: "trace_access addr s = ret (s\<lparr>world := w\<rparr>)" "cpu w = cpu (world s)" "ram w = ram (world s)"
      "tracer_ready (Suc k) w" "trace_log (tracer w) = trace_log (tracer (world s)) @ traced_bytes addr (world s)"
    using trace_access_ready [OF assms(4)] by metis
  let ?s = "s\<lparr>world := w\<rparr>"
  let ?s1 = "stored n m addr val ?s"
  have line: "tlb_line m a ?s = tlb_line m a s" for a by (simp add: tlb_line_def w(2))
  have same: "dirty_page m a ?s = dirty_page m a s" "ram_page False m a ?s = ram_page False m a s"
    "host_address m a ?s = host_address m a s" for a by (simp_all add: dirty_page_def ram_page_def host_address_def line)
  have ok: "coherent ?s" "\<not> checks m ?s" using assms(2,3) by (simp_all add: coherent_def w(3) checks_def)
  have st: "st_mmu p n addr val m retaddr s = ret (Some (), ?s1)"
    using w(1) st_redo_ram [OF assms(1), of m addr ?s] assms(7,8) ok by (simp add: st_mmu_def same)
  have s1: "cpu (world ?s1) = cpu w" "tracer (world ?s1) = tracer w" "mach ?s1 = mach s" "coherent ?s1"
    by (simp_all add: stored_def)
  have "tracer_ready (Suc k) (world ?s1)" using w(4) by (simp add: tracer_ready_def s1(2))
  then obtain w' where w': "trace_access addr ?s1 = ret (?s1\<lparr>world := w'\<rparr>)" "cpu w' = cpu (world ?s1)"
      "trace_log (tracer w') = trace_log (tracer (world ?s1)) @ traced_bytes addr (world ?s1)"
    using trace_access_ready by metis
  let ?s2 = "?s1\<lparr>world := w'\<rparr>"
  have line2: "tlb_line m a ?s2 = tlb_line m a s" for a by (simp add: tlb_line_def w'(2) s1(1) w(2))
  then have same2: "ram_page False m a ?s2 = ram_page False m a s" "host_address m a ?s2 = host_address m a s" for a
    by (simp_all add: ram_page_def host_address_def)
  have "virtual_value n m addr ?s2 = virtual_value n m addr ?s1"
    unfolding virtual_value_def same2 by (simp add: stored_def same)
  also have "\<dots> = take_bit (8 * n) val" using assms(1,9) by (intro virtual_value_stored) (simp_all add: same)
  finally have v: "virtual_value n m addr ?s2 = take_bit (8 * n) val" .
  have "\<not> checks m ?s2" using assms(3) by (simp add: checks_def stored_def put_host_def)
  then have ld: "ld_mmu p False n addr m retaddr ?s1 = ret (Some (take_bit (8 * n) val), ?s2)"
    using w'(1) ld_redo_ram [OF assms(1), of False m addr ?s2] assms(5,6) v by (simp add: ld_mmu_def same2)
  have h: "host ?s1 = store_host n (\<lambda>i. host_address m (addr + of_nat i) s) val (host s)" by (simp add: stored_def same)
  show ?thesis
    using st ld s1 w(2,5) w'(3) store_host_at [OF assms(9)] store_host_other
    by (intro exI [of _ ?s1] exI [of _ ?s2]) (simp add: h)
qed

text \<open>A user program with two mapped pages, on a traced processor.\<close>

definition running_example :: "unit system" where
  "running_example =
     \<lparr>world = traced_example\<lparr>cpu := (cpu traced_example)\<lparr>tlb_table := (\<lambda>m i. \<lparr>addr_read = of_nat i * 0x400,
          addr_write = of_nat i * 0x400, addr_code = - 1, addend = 0x7000\<rparr>)\<rparr>, ram := phys_view small_machine (\<lambda>_. 0)\<rparr>,
      mach = small_machine, host = (\<lambda>_. 0), devices = (), mem_io_pc = 0, mem_io_vaddr = 0\<rparr>"

definition no_io :: "'d softmmu" where
  "no_io = \<lparr>io_mem_read = (\<lambda>_ _ _ s. ret (0, s)), io_mem_write = (\<lambda>_ _ _ _ s. ret s), cpu_restore_state = (\<lambda>_ env. env),
     tb_invalidate_phys_page_fast = (\<lambda>_ _ s. ret s), memcheck_validate_ld = (\<lambda>_ _ _. False), memcheck_validate_st = (\<lambda>_ _ _ _. False)\<rparr>"

lemma running_example_ready: "tracer_ready k (world running_example)" if "k < 100"
  using that by (simp add: tracer_ready_def running_example_def traced_example_def tracing_def sl_ok_def FBUF_WORDS_def)

lemma running_example_ok: "coherent running_example" "\<not> checks m running_example"
  by (simp_all add: coherent_def running_example_def checks_def small_machine_def)

theorem store_then_load_witness:
  "\<exists>s1 s2. st_mmu no_io 4 0x83FE 0x12345678 1 0 running_example = ret (Some (), s1) \<and>
    ld_mmu no_io False 4 0x83FE 1 0 s1 = ret (Some 0x12345678, s2)"
proof -
  let ?s = running_example
  have "ram_page False 1 0x83FE ?s" "ram_page False 1 0x8401 ?s" "dirty_page 1 0x83FE ?s" "dirty_page 1 0x8401 ?s" by code_simp+
  moreover have "distinct (map (\<lambda>i. host_address 1 (0x83FE + of_nat i) ?s) [0..<4])" by code_simp
  then have "inj_on (\<lambda>i. host_address 1 (0x83FE + of_nat i) ?s) {..<4}" by (simp add: distinct_map lessThan_atLeast0)
  moreover have "data_size 4" by (simp add: data_size_def)
  ultimately show ?thesis
    using store_then_load [of 4 ?s 1 0 "0x83FE" no_io "0x12345678" 0] running_example_ok running_example_ready
    by (auto simp: take_bit_eq_mod)
qed

theorem inline_access_equiv_witness:
  "ld_mem no_io False 4 0x8404 1 0 running_example = ld_mmu no_io False 4 0x8404 1 0 running_example"
proof -
  let ?s = running_example
  have "tlb_flags_ok (ADDR_READ False (tlb_line 1 0x8404 ?s))" "tlb_flags_ok (addr_write (tlb_line 1 0x8404 ?s))" by code_simp+
  then show ?thesis
    using inline_access_equiv [of 4 1 ?s 0 False "0x8404" no_io 0 0] running_example_ok running_example_ready
    by (simp add: data_size_def)
qed

end
