(* ===== verification/Io_Memory.thy ===== *)
theory Io_Memory
  imports Memory_Access
begin

text \<open>
  The table of I/O handlers (\<open>src/qemu/exec.c\<close>): registration, release, the handlers of unassigned and clean pages, and
  what the loads and stores rely on; with it every access of the program ends.
\<close>

section \<open>Registration\<close>

type_synonym 'd read_fn = "u32 \<Rightarrow> 'd system \<Rightarrow> (u32 \<times> 'd system) comp"
type_synonym 'd write_fn = "u32 \<Rightarrow> u32 \<Rightarrow> 'd system \<Rightarrow> 'd system comp"

text \<open>
  \<open>io_mem_read\<close>, \<open>io_mem_write\<close> and \<open>io_mem_used\<close>; the argument \<open>opaque\<close> of a handler is part of the handler, and a null
  pointer is \<open>None\<close>.
\<close>

record ('r, 'w) io_registry =
  zone_read :: "nat \<Rightarrow> nat \<Rightarrow> 'r option"
  zone_write :: "nat \<Rightarrow> nat \<Rightarrow> 'w option"
  io_mem_used :: "nat \<Rightarrow> bool"

type_synonym 'd io_table = "('d read_fn, 'd write_fn) io_registry"

definition IO_MEM_SUBWIDTH :: int where "IO_MEM_SUBWIDTH = 4"

definition nb_entries :: nat where
  "nb_entries = unat IO_MEM_NB_ENTRIES"

definition get_free_io_mem_idx :: "('r, 'w) io_registry \<Rightarrow> int \<times> ('r, 'w) io_registry" where
  "get_free_io_mem_idx r =
     (case find (\<lambda>i. \<not> io_mem_used r i) [0..<nb_entries] of
        None \<Rightarrow> (- 1, r) | Some i \<Rightarrow> (int i, r\<lparr>io_mem_used := (io_mem_used r)(i := True)\<rparr>))"

definition set_zone :: "nat \<Rightarrow> (nat \<Rightarrow> 'r option) \<Rightarrow> (nat \<Rightarrow> 'w option) \<Rightarrow> ('r, 'w) io_registry \<Rightarrow> ('r, 'w) io_registry" where
  "set_zone i rd wr r =
     r\<lparr>zone_read := (zone_read r)(i := (\<lambda>k. if k < 3 then rd k else zone_read r i k)),
       zone_write := (zone_write r)(i := (\<lambda>k. if k < 3 then wr k else zone_write r i k))\<rparr>"

definition subwidth :: "(nat \<Rightarrow> 'r option) \<Rightarrow> (nat \<Rightarrow> 'w option) \<Rightarrow> int" where
  "subwidth rd wr = (if list_ex (\<lambda>k. rd k = None \<or> wr k = None) [0, 1, 2] then IO_MEM_SUBWIDTH else 0)"

definition cpu_register_io_memory_fixed ::
  "int \<Rightarrow> (nat \<Rightarrow> 'r option) \<Rightarrow> (nat \<Rightarrow> 'w option) \<Rightarrow> ('r, 'w) io_registry \<Rightarrow> int \<times> ('r, 'w) io_registry" where
  "cpu_register_io_memory_fixed zone rd wr r =
     (case (if zone \<le> 0 then get_free_io_mem_idx r
            else if int nb_entries \<le> drop_bit IO_MEM_SHIFT zone then (- 1, r)
            else (drop_bit IO_MEM_SHIFT zone, r)) of (i, r1) \<Rightarrow>
        if i = - 1 then (- 1, r1)
        else (push_bit IO_MEM_SHIFT i OR subwidth rd wr, set_zone (nat i) rd wr r1))"

definition cpu_register_io_memory ::
  "(nat \<Rightarrow> 'r option) \<Rightarrow> (nat \<Rightarrow> 'w option) \<Rightarrow> ('r, 'w) io_registry \<Rightarrow> int \<times> ('r, 'w) io_registry" where
  "cpu_register_io_memory rd wr r = cpu_register_io_memory_fixed 0 rd wr r"

section \<open>Handlers of the emulator\<close>

definition unassigned_mem_read :: "nat \<Rightarrow> 'd read_fn option" where
  "unassigned_mem_read k = Some (\<lambda>a s. ret (0, s))"

definition unassigned_mem_write :: "nat \<Rightarrow> 'd write_fn option" where
  "unassigned_mem_write k = Some (\<lambda>a v s. ret s)"

definition error_mem_read :: "nat \<Rightarrow> 'd read_fn option" where
  "error_mem_read k = None"

text \<open>The three functions of \<open>notdirty_mem_write\<close>, for 1, 2 and 4 bytes.\<close>

definition notdirty_handlers :: "'d softmmu \<Rightarrow> nat \<Rightarrow> 'd write_fn option" where
  "notdirty_handlers p k = Some (\<lambda>a v s. notdirty_mem_write p (2 ^ k) a v s)"

definition cpu_unregister_io_memory :: "int \<Rightarrow> 'd io_table \<Rightarrow> 'd io_table" where
  "cpu_unregister_io_memory io_table_address r =
     (let i = nat (drop_bit IO_MEM_SHIFT io_table_address)
      in (set_zone i unassigned_mem_read unassigned_mem_write r)\<lparr>io_mem_used := (io_mem_used r)(i := False)\<rparr>)"

definition io_mem_init ::
  "'d softmmu \<Rightarrow> (nat \<Rightarrow> 'd read_fn option) \<Rightarrow> (nat \<Rightarrow> 'd write_fn option) \<Rightarrow> 'd io_table \<Rightarrow> int \<times> 'd io_table" where
  "io_mem_init p watch_mem_read watch_mem_write r =
     (let r1 = snd (cpu_register_io_memory_fixed (uint IO_MEM_ROM) error_mem_read unassigned_mem_write r);
          r2 = snd (cpu_register_io_memory_fixed (uint IO_MEM_UNASSIGNED) unassigned_mem_read unassigned_mem_write r1);
          r3 = snd (cpu_register_io_memory_fixed (uint IO_MEM_NOTDIRTY) error_mem_read (notdirty_handlers p) r2);
          r4 = r3\<lparr>io_mem_used := (\<lambda>i. i < 5 \<or> io_mem_used r3 i)\<rparr>
      in cpu_register_io_memory watch_mem_read watch_mem_write r4)"

definition empty_registry :: "'d io_table" where
  "empty_registry = \<lparr>zone_read = (\<lambda>_ _. None), zone_write = (\<lambda>_ _. None), io_mem_used = (\<lambda>_. False)\<rparr>"

text \<open>Calls through the table.\<close>

definition with_registry :: "'d io_table \<Rightarrow> 'd softmmu \<Rightarrow> 'd softmmu" where
  "with_registry r p =
     p\<lparr>io_mem_read := (\<lambda>i k a s. case zone_read r i k of None \<Rightarrow> raise NullDeref | Some f \<Rightarrow> f a s),
       io_mem_write := (\<lambda>i k a v s. case zone_write r i k of None \<Rightarrow> raise NullDeref | Some f \<Rightarrow> f a v s)\<rparr>"

section \<open>Dispatch\<close>

lemma find_free:
  "find (\<lambda>i. \<not> P i) [0..<n] = None \<longleftrightarrow> (\<forall>i<n. P i)"
  "find (\<lambda>i. \<not> P i) [0..<n] = Some i \<Longrightarrow> i < n \<and> \<not> P i"
  by (auto simp: find_None_iff find_Some_iff)

lemma zone_code:
  assumes "z < 128" and "w = 0 \<or> w = 4"
  shows "push_bit 3 (int z) OR w = int (8 * z) + w" "nat (drop_bit 3 (push_bit 3 (int z) OR w)) = z"
proof -
  have "push_bit 3 (int z) AND w = 0"
  proof -
    have "\<not> bit w n" if "3 \<le> n" for n using assms(2) that bit_exp_iff [of 2 n, where 'a = int] by auto
    then show ?thesis by (intro bit_eqI) (auto simp: bit_simps)
  qed
  then have "push_bit 3 (int z) OR w = push_bit 3 (int z) + w" by (simp add: disjunctive_add_eq_or)
  then show 1: "push_bit 3 (int z) OR w = int (8 * z) + w" by (simp add: push_bit_eq_mult)
  show "nat (drop_bit 3 (push_bit 3 (int z) OR w)) = z" unfolding 1 using assms(2) by (auto simp: drop_bit_eq_div)
qed

lemma io_index_mod: "io_index x = unat x mod 1024 div 8"
proof -
  have "drop_bit IO_MEM_SHIFT x AND (IO_MEM_NB_ENTRIES - 1) = take_bit 7 (drop_bit 3 x)"
    by (simp add: IO_MEM_SHIFT_def IO_MEM_NB_ENTRIES_def take_bit_eq_mask mask_eq_exp_minus_1)
  also have "\<dots> = drop_bit 3 (take_bit 10 x)" by (simp add: drop_bit_take_bit)
  finally show ?thesis unfolding io_index_def
    by (simp add: drop_bit_eq_div unat_div) (simp only: unat_take_bit, simp)
qed

lemma register_cases:
  obtains (full) "cpu_register_io_memory rd wr r = (- 1, r)" and "\<And>z. z < 128 \<Longrightarrow> io_mem_used r z"
  | (zone) z where "z < 128" and "\<not> io_mem_used r z"
    and "cpu_register_io_memory rd wr r =
      (push_bit 3 (int z) OR subwidth rd wr, set_zone z rd wr (r\<lparr>io_mem_used := (io_mem_used r)(z := True)\<rparr>))"
proof (cases "find (\<lambda>i. \<not> io_mem_used r i) [0..<nb_entries]")
  case None
  then have "\<forall>i<nb_entries. io_mem_used r i" by (simp only: find_free(1))
  moreover have "get_free_io_mem_idx r = (- 1, r)" using None by (simp add: get_free_io_mem_idx_def)
  ultimately show thesis
    by (intro full) (simp_all add: cpu_register_io_memory_def cpu_register_io_memory_fixed_def nb_entries_def IO_MEM_NB_ENTRIES_def)
next
  case (Some z)
  from find_free(2) [OF this] have "z < 128" "\<not> io_mem_used r z" by (simp_all add: nb_entries_def IO_MEM_NB_ENTRIES_def)
  moreover have "get_free_io_mem_idx r = (int z, r\<lparr>io_mem_used := (io_mem_used r)(z := True)\<rparr>)"
    using Some by (simp add: get_free_io_mem_idx_def)
  ultimately show thesis
    by (intro zone [of z]) (simp_all add: cpu_register_io_memory_def cpu_register_io_memory_fixed_def IO_MEM_SHIFT_def)
qed

lemma registered_index:
  assumes "z < 128" and "w = 0 \<or> w = 4" and "region AND NOT TARGET_PAGE_MASK = 0"
  shows "io_index (region + of_int (push_bit 3 (int z) OR w)) = z"
    "(region + of_int (push_bit 3 (int z) OR w)) AND TARGET_PAGE_MASK = region"
proof -
  define i where "i = 8 * z + nat w"
  have i: "push_bit 3 (int z) OR w = int i" "i < 1024" "i div 8 = z"
    using assms(1,2) by (auto simp: zone_code i_def)
  have "unat region mod 1024 = 0" using assms(3) page_offset [of region] by simp
  then have r: "unat region mod 1024 + i < 1024" using i(2) by simp
  note p = in_page [OF r]
  have "unat (region + of_nat i) mod 1024 = i" unfolding p(2) using \<open>unat region mod 1024 = 0\<close> i(2) by (simp add: mod_add_eq [symmetric])
  then show "io_index (region + of_int (push_bit 3 (int z) OR w)) = z" by (simp add: io_index_mod i)
  have "region = (region AND TARGET_PAGE_MASK) OR (region AND NOT TARGET_PAGE_MASK)"
    by (rule bit_word_eqI) (auto simp: bit_simps)
  then have "region AND TARGET_PAGE_MASK = region" using assms(3) by simp
  then show "(region + of_int (push_bit 3 (int z) OR w)) AND TARGET_PAGE_MASK = region"
    using p(1) by (simp add: i)
qed

lemma subwidth_values: "subwidth rd wr = 0 \<or> subwidth rd wr = 4"
  by (simp add: subwidth_def IO_MEM_SUBWIDTH_def)

lemma set_zone_simps [simp]:
  "k < 3 \<Longrightarrow> zone_read (set_zone z rd wr r) z k = rd k" "k < 3 \<Longrightarrow> zone_write (set_zone z rd wr r) z k = wr k"
  "z' \<noteq> z \<Longrightarrow> zone_read (set_zone z rd wr r) z' = zone_read r z'" "z' \<noteq> z \<Longrightarrow> zone_write (set_zone z rd wr r) z' = zone_write r z'"
  "io_mem_used (set_zone z rd wr r) = io_mem_used r"
  by (simp_all add: set_zone_def)

lemma size_shift_small: "n \<in> {1, 2, 4} \<Longrightarrow> size_shift n < 3 \<and> n \<noteq> 8"
  by (auto simp: size_shift_def)

text \<open>
  Registering the functions of a device takes a zone that was free, or fails with -1 and changes nothing when all 128 are in use; no
  other zone changes. An access to a page with the returned code calls the function for its size, with the address in the
  region, and a zone whose function is missing is a null call. Releasing the code makes the zone free again, reading as 0.
\<close>

theorem io_registration:
  assumes "cpu_register_io_memory rd wr r = (i, r')" and "region AND NOT TARGET_PAGE_MASK = 0" and "n \<in> {1, 2, 4}"
  shows "i = - 1 \<and> r' = r \<and> (\<forall>z<128. io_mem_used r z) \<or>
    (\<exists>z<128. \<not> io_mem_used r z \<and> io_mem_used r' = (io_mem_used r)(z := True) \<and>
      (\<forall>z'. z' \<noteq> z \<longrightarrow> zone_read r' z' = zone_read r z' \<and> zone_write r' z' = zone_write r z') \<and>
      io_read (with_registry r' p) n (region + of_int i) addr retaddr s =
        (case rd (size_shift n) of None \<Rightarrow> raise NullDeref
         | Some f \<Rightarrow> comp_bind (f (region + addr) (s\<lparr>mem_io_pc := retaddr, mem_io_vaddr := addr\<rparr>))
                      (\<lambda>(v, s'). ret (Some (take_bit (8 * n) (ucast v)), s'))) \<and>
      io_write (with_registry r' p) n (region + of_int i) val addr retaddr s =
        (case wr (size_shift n) of None \<Rightarrow> raise NullDeref
         | Some f \<Rightarrow> comp_bind (f (region + addr) (ucast (take_bit (8 * n) val)) (s\<lparr>mem_io_vaddr := addr, mem_io_pc := retaddr\<rparr>))
                      (\<lambda>s'. ret (Some (), s'))) \<and>
      io_mem_used (cpu_unregister_io_memory i r') = io_mem_used r \<and>
      io_read (with_registry (cpu_unregister_io_memory i r') p) n (region + of_int i) addr retaddr s =
        ret (Some 0, s\<lparr>mem_io_pc := retaddr, mem_io_vaddr := addr\<rparr>))"
proof (rule register_cases [of rd wr r])
  fix z
  assume z: "z < 128" "\<not> io_mem_used r z" and eq: "cpu_register_io_memory rd wr r =
    (push_bit 3 (int z) OR subwidth rd wr, set_zone z rd wr (r\<lparr>io_mem_used := (io_mem_used r)(z := True)\<rparr>))"
  have i: "i = push_bit 3 (int z) OR subwidth rd wr" and r': "r' = set_zone z rd wr (r\<lparr>io_mem_used := (io_mem_used r)(z := True)\<rparr>)"
    using eq assms(1) by simp_all
  note idx = registered_index [OF z(1) subwidth_values assms(2), of rd wr, folded i]
  have n: "size_shift n < 3" "n \<noteq> 8" using size_shift_small [OF assms(3)] by simp_all
  have u: "(io_mem_used r)(z := False) = io_mem_used r" using z(2) by (intro ext) simp
  have un: "cpu_unregister_io_memory i r' = (set_zone z unassigned_mem_read unassigned_mem_write r')\<lparr>io_mem_used := io_mem_used r\<rparr>"
    unfolding cpu_unregister_io_memory_def IO_MEM_SHIFT_def i zone_code(2) [OF z(1) subwidth_values] Let_def by (simp add: r' u)
  have "io_read (with_registry r' p) n (region + of_int i) addr retaddr s =
      (case rd (size_shift n) of None \<Rightarrow> raise NullDeref
       | Some f \<Rightarrow> comp_bind (f (region + addr) (s\<lparr>mem_io_pc := retaddr, mem_io_vaddr := addr\<rparr>))
                    (\<lambda>(v, s'). ret (Some (take_bit (8 * n) (ucast v)), s')))"
    unfolding io_read_def io_address_def idx Let_def with_registry_def by (simp add: r' n split: option.split)
  moreover have "io_write (with_registry r' p) n (region + of_int i) val addr retaddr s =
      (case wr (size_shift n) of None \<Rightarrow> raise NullDeref
       | Some f \<Rightarrow> comp_bind (f (region + addr) (ucast (take_bit (8 * n) val)) (s\<lparr>mem_io_vaddr := addr, mem_io_pc := retaddr\<rparr>))
                    (\<lambda>s'. ret (Some (), s')))"
    unfolding io_write_def io_address_def idx Let_def with_registry_def by (simp add: r' n split: option.split)
  moreover have "io_read (with_registry (cpu_unregister_io_memory i r') p) n (region + of_int i) addr retaddr s =
      ret (Some 0, s\<lparr>mem_io_pc := retaddr, mem_io_vaddr := addr\<rparr>)"
    unfolding un io_read_def io_address_def idx Let_def with_registry_def by (simp add: n unassigned_mem_read_def)
  moreover have "io_mem_used (cpu_unregister_io_memory i r') = io_mem_used r" by (simp add: un)
  moreover have "io_mem_used r' = (io_mem_used r)(z := True)"
    "\<forall>z'. z' \<noteq> z \<longrightarrow> zone_read r' z' = zone_read r z' \<and> zone_write r' z' = zone_write r z'" by (simp_all add: r')
  ultimately show ?thesis using z by blast
qed (use assms(1) in simp)

lemma take_bit_of_u32: "take_bit 32 (ucast (w :: u32) :: u64) = ucast w"
  by (rule bit_word_eqI) (auto simp: bit_simps dest: bit_imp_le_length)

text \<open>A device with one register, on the table that the emulator starts with.\<close>

definition register_read :: "nat \<Rightarrow> u32 read_fn option" where
  "register_read k = Some (\<lambda>a s. ret (devices s, s))"

definition register_write :: "nat \<Rightarrow> u32 write_fn option" where
  "register_write k = Some (\<lambda>a v s. ret (s\<lparr>devices := v\<rparr>))"

theorem io_registration_witness:
  "\<exists>i r'. cpu_register_io_memory register_read register_write
      (snd (io_mem_init no_io unassigned_mem_read unassigned_mem_write empty_registry)) = (i, r') \<and> i = 48 \<and>
    (\<forall>s. io_read (with_registry r' no_io) 4 (0x10000 + 48) 0x400 0 s =
      ret (Some (ucast (devices s)), s\<lparr>mem_io_pc := 0, mem_io_vaddr := 0x400\<rparr>))"
proof -
  let ?r = "snd (io_mem_init no_io unassigned_mem_read unassigned_mem_write empty_registry)"
  let ?c = "cpu_register_io_memory register_read register_write ?r"
  obtain i r' where c: "?c = (i, r')" by fastforce
  have "fst ?c = 48" by code_simp
  then have i: "i = 48" by (simp add: c)
  have "(0x10000 :: u32) AND NOT TARGET_PAGE_MASK = 0" by (simp add: TARGET_PAGE_MASK_def)
  then have "io_read (with_registry r' no_io) 4 (0x10000 + 48) 0x400 0 s =
      ret (Some (ucast (devices s)), s\<lparr>mem_io_pc := 0, mem_io_vaddr := 0x400\<rparr>)" for s
    using io_registration [OF c, of "0x10000" 4 no_io "0x400" 0 s 0]
    by (auto simp: i register_read_def size_shift_def take_bit_of_u32)
  with c i show ?thesis by blast
qed

end
