(* ===== verification/Access_Ends.thy ===== *)
theory Access_Ends
  imports Io_Memory
begin

text \<open>
  Every load and store of the program ends: the loops of the load and store functions (\<open>goto redo\<close> after a refill, the recursion
  on unaligned addresses) return once the handlers of the I/O pages do. The laws that the handlers have to keep are a locale; the
  handlers that the emulator installs at start keep them.
\<close>

section \<open>Processors whose refills succeed or fault\<close>

text \<open>No memory protection unit, and the memory checker is off.\<close>

definition plain :: "'d system \<Rightarrow> bool" where
  "plain s \<longleftrightarrow> \<not> arm_feature (cpu (world s)) ARM_FEATURE_MPU \<and> \<not> memcheck_instrument_mmu (mach s)"

text \<open>An access that returns a value leaves such a processor; an access that raises an exception may leave any.\<close>

definition keeps_plain :: "'v option \<times> 'd system \<Rightarrow> bool" where
  "keeps_plain r \<longleftrightarrow> fst r = None \<or> plain (snd r)"

lemma plain_simps [simp]:
  "plain (put_host h s) = plain s" "plain (s\<lparr>mem_io_pc := a\<rparr>) = plain s" "plain (s\<lparr>mem_io_vaddr := v\<rparr>) = plain s"
  "plain (s\<lparr>devices := d\<rparr>) = plain s"
  by (simp_all add: plain_def put_host_def)

lemma keeps_plain_simps [simp]: "keeps_plain (None, s)" "keeps_plain (Some v, s) = plain s"
  by (simp_all add: keeps_plain_def)

section \<open>Refills\<close>

lemma tlb_set_page_exec_ends: "ends (\<lambda>(r, m', e'). memcheck_instrument_mmu m' = memcheck_instrument_mmu m) (tlb_set_page_exec vaddr paddr prot i sm (m, env))"
  unfolding tlb_set_page_exec_def
  by (auto simp: Let_def qemu_get_ram_ptr_def cpu_physical_memory_is_dirty_def cpu_physical_memory_get_dirty_flags_def split: option.split)

lemma handle_mmu_fault_ends:
  assumes "\<not> arm_feature env ARM_FEATURE_MPU"
  shows "ends (\<lambda>(r, m', e'). memcheck_instrument_mmu m' = memcheck_instrument_mmu m) (cpu_arm_handle_mmu_fault mem address acc i (m, env))"
proof -
  obtain w where "get_phys_addr mem env address acc (i = MMU_USER_IDX) = ret w"
    using get_phys_addr_sound_walk [OF assms] by blast
  then show ?thesis
    by (cases w) (auto simp: cpu_arm_handle_mmu_fault_def tlb_set_page_def intro!: ends_bind [OF tlb_set_page_exec_ends])
qed

lemma tlb_fill_ends:
  assumes "plain s"
  shows "ends (\<lambda>(r, s'). r \<noteq> None \<longrightarrow> plain s' \<and> access_hits addr acc (tlb_line m addr s')) (tlb_fill p addr acc m retaddr s)"
  unfolding tlb_fill_def
proof (rule ends_bind)
  let ?c = "cpu_arm_handle_mmu_fault (ram (world s)) addr acc m (mach s, cpu (world s))"
  have p: "\<not> arm_feature (cpu (world s)) ARM_FEATURE_MPU" "\<not> memcheck_instrument_mmu (mach s)" using assms by (simp_all add: plain_def)
  show "ends (\<lambda>x. ?c = ret x \<and> (case x of (r, m', e') \<Rightarrow> memcheck_instrument_mmu m' = memcheck_instrument_mmu (mach s))) ?c"
    using handle_mmu_fault_ends [OF p(1)] by (simp add: ends_def)
  fix x
  assume x: "?c = ret x \<and> (case x of (r, m', e') \<Rightarrow> memcheck_instrument_mmu m' = memcheck_instrument_mmu (mach s))"
  obtain r m' e' where [simp]: "x = (r, m', e')" by (cases x)
  have "access_hits addr acc (entry_at addr m e') \<and> (\<exists>io tt. e' = (cpu (world s))\<lparr>iotlb := io, tlb_table := tt\<rparr>)" if "r = 0"
    using handle_mmu_fault_cases [OF p, of "ram (world s)" addr acc m r m' e'] x that by auto
  then show "ends (\<lambda>(r, s'). r \<noteq> None \<longrightarrow> plain s' \<and> access_hits addr acc (tlb_line m addr s'))
    (case x of (r, m', env) \<Rightarrow> let s1 = s\<lparr>mach := m'\<rparr> in if r \<noteq> 0 then
         (let env1 = (if retaddr \<noteq> 0 then cpu_restore_state p retaddr env else env)
          in ret (None, put_cpu (raise_exception (exception_index env1) env1) s1))
       else ret (Some (), put_cpu env s1))"
    using x assms by (auto simp: Let_def plain_def put_cpu_def tlb_line_def arm_feature_def)
qed

section \<open>The contract of the I/O handlers\<close>

locale io_handlers =
  fixes p :: "'d softmmu"
  assumes read_ends: "plain s \<Longrightarrow> ends (\<lambda>(_, s'). plain s') (io_mem_read p i k a s)"
    and write_ends: "plain s \<Longrightarrow> ends plain (io_mem_write p i k a v s)"
begin

lemma io_read_ends: "plain s \<Longrightarrow> ends keeps_plain (io_read p n physaddr addr retaddr s)"
  unfolding io_read_def Let_def by (auto intro!: ends_bind [OF read_ends])

lemma io_write_ends: "plain s \<Longrightarrow> ends keeps_plain (io_write p n physaddr val addr retaddr s)"
  unfolding io_write_def Let_def by (auto intro!: ends_bind [OF write_ends])

text \<open>A loop that ends on a hit ends: the refill makes the access hit, or leaves with an exception.\<close>

lemma refill_ends:
  assumes "plain s" and "\<And>s'. plain s' \<Longrightarrow> access_hits addr acc (tlb_line m addr s') \<Longrightarrow> ends keeps_plain (f s')"
  shows "ends keeps_plain (comp_bind (tlb_fill p addr acc m retaddr s) (\<lambda>(r, s1). case r of None \<Rightarrow> ret (None, s1) | Some _ \<Rightarrow> f s1))"
  by (rule ends_bind [OF tlb_fill_ends [OF assms(1)]]) (auto split: option.split intro: assms(2))

lemma finish_access_ends: "ends keeps_plain c \<Longrightarrow> ends keeps_plain (finish_access 0 m index c)"
  unfolding finish_access_def
  by (erule ends_bind) (auto simp: keeps_plain_def invalidate_cache_def split: option.split)

lemma load_hit: "access_hits addr (READ_ACCESS_TYPE code) te \<longleftrightarrow> tlb_hit addr (ADDR_READ code te)"
  by (simp add: access_hits_def READ_ACCESS_TYPE_def ADDR_READ_def)

lemma store_hit: "access_hits addr 1 te \<longleftrightarrow> tlb_hit addr (addr_write te)"
  by (simp add: access_hits_def)

lemma slow_ld_aligned:
  assumes "data_size n" and "\<not> unaligned n addr" and "plain s"
  shows "ends keeps_plain (slow_ld p code n m retaddr addr s)"
proof -
  have hit: "ends keeps_plain (slow_ld p code n m retaddr addr s')" if "plain s'" "tlb_hit addr (ADDR_READ code (tlb_line m addr s'))" for s'
    using that assms(2) aligned_in_page [OF assms(1,2)] by (subst slow_ld.simps) (auto simp: Let_def io_read_ends)
  show ?thesis
  proof (cases "tlb_hit addr (ADDR_READ code (tlb_line m addr s))")
    case False
    then show ?thesis
      by (subst slow_ld.simps) (auto simp: Let_def load_hit intro!: refill_ends hit assms(3))
  qed (use hit assms(3) in blast)
qed

lemma slow_ld_ends:
  assumes "data_size n" and "plain s"
  shows "ends keeps_plain (slow_ld p code n m retaddr addr s)"
proof -
  note al = slow_ld_aligned [OF assms(1)]
  have hit: "ends keeps_plain (slow_ld p code n m retaddr addr s')" if "plain s'" "tlb_hit addr (ADDR_READ code (tlb_line m addr s'))" for s'
  proof -
    have split: "ends keeps_plain (comp_bind (slow_ld p code n m retaddr (addr AND NOT (of_nat n - 1)) s') (\<lambda>(r1, s1).
        case r1 of None \<Rightarrow> ret (None, s1)
        | Some res1 \<Rightarrow>
            comp_bind (slow_ld p code n m retaddr ((addr AND NOT (of_nat n - 1)) + of_nat n) s1) (\<lambda>(r2, s2).
              case r2 of None \<Rightarrow> ret (None, s2)
              | Some res2 \<Rightarrow> ret (Some (combine n addr res1 res2), s2))))"
      by (rule ends_bind [OF al [OF split_address(1) [OF assms(1)] that(1)]])
        (auto simp: keeps_plain_def split: option.split intro!: ends_bind [OF al [OF split_address(2) [OF assms(1)]]])
    show ?thesis using that split by (subst slow_ld.simps) (simp add: Let_def io_read_ends)
  qed
  show ?thesis
  proof (cases "tlb_hit addr (ADDR_READ code (tlb_line m addr s))")
    case False
    then show ?thesis
      by (subst slow_ld.simps) (auto simp: Let_def load_hit intro!: refill_ends hit assms(2))
  qed (use hit assms(2) in blast)
qed

lemma ld_redo_ends:
  assumes "data_size n" and "plain s"
  shows "ends keeps_plain (ld_redo p code n m retaddr addr s)"
proof -
  have hit: "ends keeps_plain (ld_redo p code n m retaddr addr s')" if "plain s'" "tlb_hit addr (ADDR_READ code (tlb_line m addr s'))" for s'
    using that by (subst ld_redo.simps)
      (auto simp: Let_def io_read_ends slow_ld_ends assms(1) checks_def plain_def intro!: finish_access_ends)
  show ?thesis
  proof (cases "tlb_hit addr (ADDR_READ code (tlb_line m addr s))")
    case False
    then show ?thesis
      by (subst ld_redo.simps) (auto simp: Let_def load_hit intro!: refill_ends hit assms(2))
  qed (use hit assms(2) in blast)
qed

lemma slow_stb_ends:
  assumes "plain s"
  shows "ends keeps_plain (slow_stb p m retaddr addr val s)"
proof -
  have 1: "\<not> unaligned 1 addr" "\<not> spans_pages 1 addr" by (simp_all add: unaligned_def aligned_in_page data_size_def)
  have hit: "ends keeps_plain (slow_stb p m retaddr addr val s')" if "plain s'" "tlb_hit addr (addr_write (tlb_line m addr s'))" for s'
    using that 1 by (subst slow_stb.simps) (auto simp: Let_def io_write_ends)
  show ?thesis
  proof (cases "tlb_hit addr (addr_write (tlb_line m addr s))")
    case False
    then show ?thesis
      by (subst slow_stb.simps) (auto simp: Let_def store_hit intro!: refill_ends hit assms)
  qed (use hit assms in blast)
qed

lemma store_bytes_ends: "plain s \<Longrightarrow> ends keeps_plain (store_bytes p n m retaddr addr val s)"
proof (induction n arbitrary: s)
  case (Suc n)
  show ?case
    by (simp, rule ends_bind [OF slow_stb_ends [OF Suc.prems]]) (auto simp: Suc.IH split: option.split)
qed simp

lemma slow_st_ends:
  assumes "plain s"
  shows "ends keeps_plain (slow_st p n m retaddr addr val s)"
proof -
  have hit: "ends keeps_plain (slow_st p n m retaddr addr val s')" if "plain s'" "tlb_hit addr (addr_write (tlb_line m addr s'))" for s'
    using that by (subst slow_st.simps) (auto simp: Let_def io_write_ends store_bytes_ends)
  show ?thesis
  proof (cases "tlb_hit addr (addr_write (tlb_line m addr s))")
    case False
    then show ?thesis
      by (subst slow_st.simps) (auto simp: Let_def store_hit intro!: refill_ends hit assms)
  qed (use hit assms in blast)
qed

lemma st_redo_ends:
  assumes "plain s"
  shows "ends keeps_plain (st_redo p n m retaddr addr val s)"
proof -
  have hit: "ends keeps_plain (st_redo p n m retaddr addr val s')" if "plain s'" "tlb_hit addr (addr_write (tlb_line m addr s'))" for s'
    using that by (subst st_redo.simps)
      (auto simp: Let_def io_write_ends slow_st_ends checks_def plain_def intro!: finish_access_ends)
  show ?thesis
  proof (cases "tlb_hit addr (addr_write (tlb_line m addr s))")
    case False
    then show ?thesis
      by (subst st_redo.simps) (auto simp: Let_def store_hit intro!: refill_ends hit assms)
  qed (use hit assms in blast)
qed

end

section \<open>The handlers of the emulator\<close>

lemma free_zone: "(\<And>i. i < n \<Longrightarrow> P i) \<Longrightarrow> \<not> P n \<Longrightarrow> n < m \<Longrightarrow> find (\<lambda>i. \<not> P i) [0..<m] = Some n"
  by (auto simp: find_Some_iff)

text \<open>The table after start: zone 1 is ROM, 2 unassigned memory, 3 clean pages and 5 watchpoints.\<close>

definition start_registry :: "'d softmmu \<Rightarrow> (nat \<Rightarrow> 'd read_fn option) \<Rightarrow> (nat \<Rightarrow> 'd write_fn option) \<Rightarrow> 'd io_table" where
  "start_registry p rd wr = snd (io_mem_init p rd wr empty_registry)"

lemma start_registry_eq:
  fixes p :: "'d softmmu"
  shows "start_registry p rd wr = set_zone 5 rd wr ((set_zone 3 error_mem_read (notdirty_handlers p)
     (set_zone 2 unassigned_mem_read unassigned_mem_write (set_zone 1 error_mem_read unassigned_mem_write empty_registry)))
       \<lparr>io_mem_used := (\<lambda>i. i < 6)\<rparr>)"
proof -
  have less6: "(\<lambda>i::nat. i < 5)(5 := True) = (\<lambda>i. i < 6)" by (intro ext) auto
  have "get_free_io_mem_idx (r\<lparr>io_mem_used := (\<lambda>i. i < 5)\<rparr>) = (5, r\<lparr>io_mem_used := (\<lambda>i. i < 6)\<rparr>)" for r :: "'d io_table"
    using free_zone [of 5 "\<lambda>i. i < 5" nb_entries]
    by (simp add: get_free_io_mem_idx_def less6 nb_entries_def IO_MEM_NB_ENTRIES_def)
  then show ?thesis
    by (simp add: start_registry_def io_mem_init_def cpu_register_io_memory_def cpu_register_io_memory_fixed_def Let_def
      IO_MEM_ROM_def IO_MEM_UNASSIGNED_def IO_MEM_NOTDIRTY_def IO_MEM_SHIFT_def nb_entries_def IO_MEM_NB_ENTRIES_def
      empty_registry_def)
qed

text \<open>
  What the handlers of clean pages and watchpoints call: the invalidation of generated code and the watchpoint functions, which are
  not modelled.
\<close>

locale emulator_handlers =
  fixes p :: "'d softmmu" and watch_read :: "nat \<Rightarrow> 'd read_fn option" and watch_write :: "nat \<Rightarrow> 'd write_fn option"
  assumes invalidate_ends: "plain s \<Longrightarrow> ends plain (tb_invalidate_phys_page_fast p ra n s)"
    and watch_read_ends: "watch_read k = Some f \<Longrightarrow> plain s \<Longrightarrow> ends (\<lambda>(_, s'). plain s') (f a s)"
    and watch_write_ends: "watch_write k = Some g \<Longrightarrow> plain s \<Longrightarrow> ends plain (g a v s)"
begin

lemma notdirty_ends:
  assumes "plain s"
  shows "ends plain (notdirty_mem_write p n a v s)"
  unfolding notdirty_mem_write_def
proof (rule ends_bind [where Q = "\<lambda>_. True"], goal_cases)
  case 1
  show ?case by (simp add: cpu_physical_memory_get_dirty_flags_def)
next
  case (2 f)
  show ?case
  proof (rule ends_bind [where Q = "\<lambda>(_, s'). plain s'"], goal_cases)
    case 1
    show ?case using assms
      by (auto intro!: ends_bind [OF invalidate_ends] simp: cpu_physical_memory_get_dirty_flags_def)
  next
    case (2 x)
    then show ?case
      by (cases x) (auto simp: Let_def qemu_get_ram_ptr_def cpu_physical_memory_set_dirty_flags_def
        cpu_physical_memory_get_dirty_flags_def plain_def put_host_def put_cpu_def tlb_set_dirty_def map_line_def arm_feature_def split: option.split)
  qed
qed

end

sublocale emulator_handlers \<subseteq> start: io_handlers "with_registry (start_registry p watch_read watch_write) p"
proof (unfold_locales, goal_cases)
  case (1 s i k a)
  then show ?case
    by (auto simp: with_registry_def start_registry_eq set_zone_def empty_registry_def error_mem_read_def unassigned_mem_read_def
      watch_read_ends split: option.split)
next
  case (2 s i k a v)
  then show ?case
    by (auto simp: with_registry_def start_registry_eq set_zone_def empty_registry_def notdirty_handlers_def unassigned_mem_write_def
      notdirty_ends watch_write_ends split: option.split)
qed

section \<open>Properties\<close>

text \<open>
  C10. Every load and every store of 1, 2, 4 or 8 bytes ends, at any address, with any contents of the TLB and of the page tables: in
  memory, in an I/O handler, with an exception of the processor or with an error of the emulator. The functions of I/O
  devices have to end and to leave the memory protection unit and the memory checker off.
\<close>

theorem access_ends:
  assumes "\<And>i k a s. plain s \<Longrightarrow> ends (\<lambda>(_, s'). plain s') (io_mem_read p i k a s)"
    and "\<And>i k a v s. plain s \<Longrightarrow> ends plain (io_mem_write p i k a v s)"
    and "plain s" and "tracer_ready (Suc k) (world s)" and "data_size n"
  shows "ld_mmu p code n addr m retaddr s \<noteq> None \<and> st_mmu p n addr val m retaddr s \<noteq> None \<and>
    ld_mem p code n addr m retaddr s \<noteq> None \<and> st_mem p n addr val m retaddr s \<noteq> None"
proof -
  have io: "io_handlers p" by unfold_locales (rule assms(1), assumption, rule assms(2), assumption)
  obtain w where w: "trace_access addr s = ret (s\<lparr>world := w\<rparr>)" "cpu w = cpu (world s)"
    using trace_access_ready [OF assms(4)] by metis
  have pl: "plain (s\<lparr>world := w\<rparr>)" using assms(3) by (simp add: plain_def w(2))
  note ends_not_None [OF io_handlers.ld_redo_ends [OF io assms(5) pl]] ends_not_None [OF io_handlers.st_redo_ends [OF io pl]]
  then show ?thesis by (simp add: ld_mmu_def st_mmu_def ld_mem_def st_mem_def w(1) del: not_None_eq)
qed

lemma no_io_handlers: "emulator_handlers (no_io :: unit softmmu) unassigned_mem_read unassigned_mem_write"
  by unfold_locales (auto simp: no_io_def unassigned_mem_read_def unassigned_mem_write_def)

interpretation at_start: emulator_handlers "no_io :: unit softmmu" unassigned_mem_read unassigned_mem_write
  by (rule no_io_handlers)

theorem access_ends_witness:
  "let p = with_registry (start_registry no_io unassigned_mem_read unassigned_mem_write) no_io
   in ld_mmu p False 4 0x83FE 1 0 running_example \<noteq> None \<and> st_mmu p 4 0xFFFFFFFE 7 1 0 running_example \<noteq> None"
proof -
  let ?p = "with_registry (start_registry no_io unassigned_mem_read unassigned_mem_write) no_io"
  have "\<not> arm_feature (cpu (world running_example)) ARM_FEATURE_MPU" by code_simp
  then have "plain running_example" by (simp add: plain_def running_example_def small_machine_def)
  then show ?thesis
    using access_ends [of ?p running_example 0 4 False "0x83FE" 1 0] access_ends [of ?p running_example 0 4 False "0xFFFFFFFE" 1 0 7]
      at_start.start.read_ends at_start.start.write_ends running_example_ready [of 1]
    by (simp add: data_size_def)
qed

text \<open>A page that the memory protection unit makes read-only, in RAM that the emulator knows.\<close>

definition read_only_region :: "u32 \<Rightarrow> nat \<Rightarrow> CPUARMState \<Rightarrow> bool" where
  "read_only_region address m env \<longleftrightarrow> arm_feature env ARM_FEATURE_MPU \<and> bit (c1_sys (cp15 env)) 0 \<and>
     (case mpu_region (c6_region (cp15 env)) (modified_va env address) 8 of None \<Rightarrow> False
      | Some n \<Rightarrow> drop_bit (n * 4) (c5_data (cp15 env)) AND 0xF = 6 \<or>
          drop_bit (n * 4) (c5_data (cp15 env)) AND 0xF = 2 \<and> m = MMU_USER_IDX)"

definition backed :: "u32 \<Rightarrow> machine \<Rightarrow> bool" where
  "backed paddr mc \<longleftrightarrow> list_ex (in_block (page_of_u64 (page_pd mc (paddr AND TARGET_PAGE_MASK)))) (blocks (ram_list mc))"

definition stuck :: "nat \<Rightarrow> u32 \<Rightarrow> 'd system \<Rightarrow> bool" where
  "stuck m addr s \<longleftrightarrow> \<not> memcheck_instrument_mmu (mach s) \<and> read_only_region addr m (cpu (world s)) \<and>
     backed (modified_va (cpu (world s)) addr) (mach s) \<and> \<not> tlb_hit addr (addr_write (tlb_line m addr s))"

lemma set_page_read_only:
  assumes "backed paddr mc" and "prot AND PAGE_WRITE = 0" and "paddr AND TARGET_PAGE_MASK = page"
  shows "\<exists>r m' e'. tlb_set_page_exec vaddr page prot m sm (mc, env) = ret (r, m', e') \<and> backed paddr m' \<and>
    memcheck_instrument_mmu m' = memcheck_instrument_mmu mc"
proof -
  let ?P = "in_block (page_of_u64 (page_pd mc page))" and ?bs = "blocks (ram_list mc)"
  have "find ?P ?bs \<noteq> None" using assms(1,3) by (auto simp: backed_def find_None_iff list_ex_iff)
  then obtain b where b: "find ?P ?bs = Some b" by blast
  then have "b \<in> set ?bs" "?P b" using find_Some_mem by fastforce+
  then have "list_ex ?P (b # remove1 b ?bs)" by simp
  moreover have "page_pd (mc\<lparr>ram_list := rl\<rparr>) page = page_pd mc page" for rl by (simp add: page_pd_def)
  ultimately show ?thesis
    using b assms by (simp add: tlb_set_page_exec_def qemu_get_ram_ptr_def Let_def backed_def)
qed

lemma stuck_fill:
  assumes "stuck m addr s"
  shows "\<exists>s'. tlb_fill p addr 1 m retaddr s = ret (Some (), s') \<and> stuck m addr s'"
proof -
  let ?env = "cpu (world s)" and ?mem = "ram (world s)"
  have ro: "read_only_region addr m ?env" "\<not> memcheck_instrument_mmu (mach s)" "backed (modified_va ?env addr) (mach s)"
    using assms by (simp_all add: stuck_def)
  obtain j where j: "arm_feature ?env ARM_FEATURE_MPU" "bit (c1_sys (cp15 ?env)) 0"
      "mpu_region (c6_region (cp15 ?env)) (modified_va ?env addr) 8 = Some j"
      "drop_bit (j * 4) (c5_data (cp15 ?env)) AND 0xF = 6 \<or> drop_bit (j * 4) (c5_data (cp15 ?env)) AND 0xF = 2 \<and> m = MMU_USER_IDX"
    using ro(1) unfolding read_only_region_def
    by (cases "mpu_region (c6_region (cp15 ?env)) (modified_va ?env addr) 8") auto
  then have g: "get_phys_addr ?mem ?env addr 1 (m = MMU_USER_IDX) =
      ret (Translated (modified_va ?env addr) (PAGE_READ OR PAGE_EXEC) TARGET_PAGE_SIZE)"
    by (auto simp: get_phys_addr_def get_phys_addr_mpu_def modified_va_def Let_def)
  have w: "(PAGE_READ OR PAGE_EXEC) AND PAGE_WRITE = 0" by (simp add: page_defs)
  let ?set = "tlb_set_page_exec (addr AND TARGET_PAGE_MASK) (modified_va ?env addr AND TARGET_PAGE_MASK)
      (PAGE_READ OR PAGE_EXEC) m (TARGET_PAGE_SIZE \<noteq> 0) (mach s, ?env)"
  obtain r m' e' where e: "?set = ret (r, m', e')" "backed (modified_va ?env addr) m'" "\<not> memcheck_instrument_mmu m'"
    using set_page_read_only [OF ro(3) w refl, of "addr AND TARGET_PAGE_MASK" m "TARGET_PAGE_SIZE \<noteq> 0" ?env] ro(2) by auto
  have x: "(PAGE_READ OR PAGE_EXEC) AND PAGE_READ \<noteq> 0" "(PAGE_READ OR PAGE_EXEC) OR PAGE_EXEC = PAGE_READ OR PAGE_EXEC"
    by (simp_all add: page_defs)
  have h: "cpu_arm_handle_mmu_fault ?mem addr 1 m (mach s, ?env) = ret (0, m', e')"
    unfolding cpu_arm_handle_mmu_fault_def page_of_address tlb_set_page_def by (simp only: prod.case g comp_bind_ret walk_result.case x if_True e(1) simp_thms)
  from handle_mmu_fault_translated [OF g ro(2) h]
  obtain io tt where e': "e' = ?env\<lparr>iotlb := io, tlb_table := tt\<rparr>" and miss: "\<not> tlb_hit addr (addr_write (entry_at addr m e'))"
    unfolding Let_def w by blast
  have va: "modified_va e' addr = modified_va ?env addr" by (simp add: e' modified_va_def)
  have "cp15 e' = cp15 ?env" "arm_feature e' f = arm_feature ?env f" for f by (simp_all add: e' arm_feature_def)
  then have "read_only_region addr m e'" using j by (simp add: read_only_region_def va)
  with va have "stuck m addr (put_cpu e' (s\<lparr>mach := m'\<rparr>))"
    using e(2,3) miss by (simp add: stuck_def put_cpu_def tlb_line_def)
  then show ?thesis using h by (simp add: tlb_fill_def Let_def)
qed

lemma st_redo_not_stuck: "st_redo p n m retaddr addr val s = Some y \<Longrightarrow> \<not> stuck m addr s"
proof (rule st_redo.raw_induct [where P = "\<lambda>p n m retaddr addr val s y. \<not> stuck m addr s", rotated], assumption, goal_cases)
  case (1 f p n m retaddr addr val s y)
  show ?case
  proof
    assume st: "stuck m addr s"
    then obtain s' where s': "tlb_fill p addr 1 m retaddr s = ret (Some (), s')" "stuck m addr s'" using stuck_fill by blast
    have "\<not> tlb_hit addr (addr_write (tlb_line m addr s))" using st by (simp add: stuck_def)
    then have "f p n m retaddr addr val s' = Some y" using 1(3) s'(1) by (simp add: Let_def)
    then show False using 1(2) s'(2) by blast
  qed
qed

lemma st_redo_stuck: "stuck m addr s \<Longrightarrow> st_redo p n m retaddr addr val s = None"
  using st_redo_not_stuck by (meson not_None_eq)

text \<open>
  With a memory protection unit a store to a read-only region does not end: the handler of the miss answers that the store is
  allowed, the TLB still refuses it, and the store function asks again for ever. No abort reaches the program.
\<close>

theorem mpu_store_never_ends:
  assumes "read_only_region addr m (cpu (world s))" and "backed (modified_va (cpu (world s)) addr) (mach s)"
    and "\<not> memcheck_instrument_mmu (mach s)" and "\<not> tlb_hit addr (addr_write (tlb_line m addr s))"
    and "tracer_ready (Suc k) (world s)"
  shows "st_mmu p n addr val m retaddr s = None"
proof -
  obtain w where w: "trace_access addr s = ret (s\<lparr>world := w\<rparr>)" "cpu w = cpu (world s)"
    using trace_access_ready [OF assms(5)] by metis
  have "stuck m addr (s\<lparr>world := w\<rparr>)" using assms(1-4) by (simp add: stuck_def w(2) tlb_line_def)
  then show ?thesis by (simp add: st_mmu_def w(1) st_redo_stuck)
qed

theorem mpu_store_never_ends_witness:
  "let s = running_example\<lparr>world := (world running_example)\<lparr>cpu := mpu_env, tracer := (tracer traced_example)\<lparr>started := False\<rparr>\<rparr>\<rparr>
   in st_mmu no_io 4 0x400 7 1 0 s = None"
proof -
  let ?s = "running_example\<lparr>world := (world running_example)\<lparr>cpu := mpu_env, tracer := (tracer traced_example)\<lparr>started := False\<rparr>\<rparr>\<rparr>"
  have "read_only_region 0x400 1 (cpu (world ?s))" "backed (modified_va (cpu (world ?s)) 0x400) (mach ?s)"
    "\<not> memcheck_instrument_mmu (mach ?s)" "\<not> tlb_hit 0x400 (addr_write (tlb_line 1 0x400 ?s))" by code_simp+
  moreover have "tracer_ready 1 (world ?s)" by (simp add: tracer_ready_def)
  ultimately show ?thesis using mpu_store_never_ends [of "0x400" 1 ?s 0 no_io 4 7 0] by (simp add: Let_def)
qed

end
