(* ===== verification/Goldfish_Int.thy ===== *)
theory Goldfish_Int
  imports Arm_Cp15
begin

text \<open>
  Interrupt lines of the board: \<open>qemu_irq\<close> (\<open>src/qemu/hw/irq.c\<close>), the two inputs of the processor
  (\<open>src/qemu/hw/arm_pic.c\<close>) and the interrupt controller (\<open>src/qemu/hw/goldfish_interrupt.c\<close>).
\<close>

section \<open>Inputs of the processor\<close>

definition CPU_INTERRUPT_HARD :: u32 where "CPU_INTERRUPT_HARD = 2"
definition CPU_INTERRUPT_FIQ :: u32 where "CPU_INTERRUPT_FIQ = 0x10"
definition ARM_PIC_CPU_IRQ :: nat where "ARM_PIC_CPU_IRQ = 0"
definition ARM_PIC_CPU_FIQ :: nat where "ARM_PIC_CPU_FIQ = 1"

definition cpu_reset_interrupt :: "u32 \<Rightarrow> traced \<Rightarrow> traced" where
  "cpu_reset_interrupt m w = update_cpu (\<lambda>e. e\<lparr>interrupt_request := interrupt_request e AND NOT m\<rparr>) w"

definition arm_pic_cpu_handler :: "nat \<Rightarrow> bool \<Rightarrow> traced \<Rightarrow> traced comp" where
  "arm_pic_cpu_handler irq lev w =
     (if irq = ARM_PIC_CPU_IRQ then
        ret (if lev then cpu_interrupt CPU_INTERRUPT_HARD w else cpu_reset_interrupt CPU_INTERRUPT_HARD w)
      else if irq = ARM_PIC_CPU_FIQ then
        ret (if lev then cpu_interrupt CPU_INTERRUPT_FIQ w else cpu_reset_interrupt CPU_INTERRUPT_FIQ w)
      else raise Abort)"

text \<open>A line is an input of the processor, or not connected.\<close>

definition qemu_set_irq :: "nat option \<Rightarrow> bool \<Rightarrow> traced \<Rightarrow> traced comp" where
  "qemu_set_irq irq lev w = (case irq of None \<Rightarrow> ret w | Some n \<Rightarrow> arm_pic_cpu_handler n lev w)"

section \<open>The interrupt controller\<close>

record goldfish_int_state =
  int_level :: u32
  pending_count :: u32
  irq_enabled :: u32
  fiq_enabled :: u32
  parent_irq :: "nat option"
  parent_fiq :: "nat option"

definition INTERRUPT_STATUS :: u32 where "INTERRUPT_STATUS = 0x00"
definition INTERRUPT_NUMBER :: u32 where "INTERRUPT_NUMBER = 0x04"
definition INTERRUPT_DISABLE_ALL :: u32 where "INTERRUPT_DISABLE_ALL = 0x08"
definition INTERRUPT_DISABLE :: u32 where "INTERRUPT_DISABLE = 0x0C"
definition INTERRUPT_ENABLE :: u32 where "INTERRUPT_ENABLE = 0x10"

text \<open>\<open>1U << n\<close>, which C defines for less than 32.\<close>

definition line_mask :: "nat \<Rightarrow> u32 comp" where
  "line_mask n = (if n < 32 then ret (2 ^ n) else raise IntOverflow)"

type_synonym int_world = "goldfish_int_state \<times> traced"

definition goldfish_int_update :: "int_world \<Rightarrow> int_world comp" where
  "goldfish_int_update st =
     (case st of (s, w) \<Rightarrow>
        comp_bind (qemu_set_irq (parent_irq s) (int_level s AND irq_enabled s \<noteq> 0) w) (\<lambda>w1.
        comp_bind (qemu_set_irq (parent_fiq s) (int_level s AND fiq_enabled s \<noteq> 0) w1) (\<lambda>w2. ret (s, w2))))"

definition goldfish_int_set_irq :: "nat \<Rightarrow> bool \<Rightarrow> int_world \<Rightarrow> int_world comp" where
  "goldfish_int_set_irq irq lev st =
     (case st of (s, w) \<Rightarrow>
        comp_bind (line_mask irq) (\<lambda>m.
          let s1 = (if lev then
                      (if int_level s AND m = 0 then
                         (if irq_enabled s AND m \<noteq> 0 then s\<lparr>pending_count := pending_count s + 1\<rparr> else s)
                           \<lparr>int_level := int_level s OR m\<rparr>
                       else s)
                    else
                      (if int_level s AND m \<noteq> 0 then
                         (if irq_enabled s AND m \<noteq> 0 then s\<lparr>pending_count := pending_count s - 1\<rparr> else s)
                           \<lparr>int_level := int_level s AND NOT m\<rparr>
                       else s))
          in goldfish_int_update (s1, w)))"

text \<open>The loop over the 32 lines; no pending line reads as 0.\<close>

definition goldfish_int_read :: "u32 \<Rightarrow> goldfish_int_state \<Rightarrow> u32 comp" where
  "goldfish_int_read off s =
     (if off = INTERRUPT_STATUS then ret (pending_count s)
      else if off = INTERRUPT_NUMBER then
        ret (case find (\<lambda>i. (int_level s AND irq_enabled s) AND 2 ^ i \<noteq> 0) [0..<32] of None \<Rightarrow> 0 | Some i \<Rightarrow> of_nat i)
      else raise Abort)"

definition goldfish_int_write :: "u32 \<Rightarrow> u32 \<Rightarrow> int_world \<Rightarrow> int_world comp" where
  "goldfish_int_write off val st =
     (case st of (s, w) \<Rightarrow>
        comp_bind (line_mask (unat val)) (\<lambda>m.
          if off = INTERRUPT_DISABLE_ALL then goldfish_int_update (s\<lparr>pending_count := 0, int_level := 0\<rparr>, w)
          else if off = INTERRUPT_DISABLE then
            goldfish_int_update
              (if irq_enabled s AND m \<noteq> 0 then
                 (if int_level s AND m \<noteq> 0 then s\<lparr>pending_count := pending_count s - 1\<rparr> else s)
                   \<lparr>irq_enabled := irq_enabled s AND NOT m\<rparr>
               else s, w)
          else if off = INTERRUPT_ENABLE then
            goldfish_int_update
              (if irq_enabled s AND m = 0 then
                 (let s1 = s\<lparr>irq_enabled := irq_enabled s OR m\<rparr>
                  in if int_level s1 AND m \<noteq> 0 then s1\<lparr>pending_count := pending_count s1 + 1\<rparr> else s1)
               else s, w)
          else raise Abort))"

definition goldfish_interrupt_init :: "nat option \<Rightarrow> nat option \<Rightarrow> goldfish_int_state" where
  "goldfish_interrupt_init irq fiq =
     \<lparr>int_level = 0, pending_count = 0, irq_enabled = 0, fiq_enabled = 0, parent_irq = irq, parent_fiq = fiq\<rparr>"

section \<open>Lines as sets\<close>

definition lines :: "u32 \<Rightarrow> nat set" where
  "lines w = {i. bit w i}"

lemma lines_simps:
  "lines 0 = {}" "lines (a AND b) = lines a \<inter> lines b" "lines (a OR b) = lines a \<union> lines b"
  "n < 32 \<Longrightarrow> lines (2 ^ n) = {n}" "n < 32 \<Longrightarrow> lines (NOT (2 ^ n)) = {..<32} - {n}"
  by (auto simp: lines_def bit_simps dest: bit_imp_le_length)

lemma line_less: "i \<in> lines w \<Longrightarrow> i < 32"
  by (auto simp: lines_def dest: bit_imp_le_length)

lemma lines_finite [simp]: "finite (lines w)"
  by (rule finite_subset [of _ "{..<32}"]) (auto simp: lines_def dest: bit_imp_le_length)

lemma lines_empty [simp]: "lines w = {} \<longleftrightarrow> w = 0"
  by (auto simp: lines_def intro: bit_word_eqI)

lemma and_mask: "n < 32 \<Longrightarrow> a AND 2 ^ n = 0 \<longleftrightarrow> n \<notin> lines a"
  unfolding lines_empty [symmetric] lines_simps by auto

section \<open>The controller and the processor agree\<close>

text \<open>
  The count is the number of enabled lines that are high, and the two requests of the processor are up exactly
  when an enabled line is high.
\<close>

definition wired :: "int_world \<Rightarrow> bool" where
  "wired st \<longleftrightarrow> (case st of (s, w) \<Rightarrow>
     parent_irq s = Some ARM_PIC_CPU_IRQ \<and> parent_fiq s = Some ARM_PIC_CPU_FIQ \<and>
     pending_count s = of_nat (card (lines (int_level s) \<inter> lines (irq_enabled s))) \<and>
     (interrupt_request (cpu w) AND CPU_INTERRUPT_HARD \<noteq> 0 \<longleftrightarrow> lines (int_level s) \<inter> lines (irq_enabled s) \<noteq> {}) \<and>
     (interrupt_request (cpu w) AND CPU_INTERRUPT_FIQ \<noteq> 0 \<longleftrightarrow> lines (int_level s) \<inter> lines (fiq_enabled s) \<noteq> {}))"

text \<open>The request word with the two inputs set to given levels.\<close>

definition request :: "bool \<Rightarrow> bool \<Rightarrow> u32 \<Rightarrow> u32" where
  "request irq fiq r = (r AND NOT (CPU_INTERRUPT_HARD OR CPU_INTERRUPT_FIQ)) OR
     (if irq then CPU_INTERRUPT_HARD else 0) OR (if fiq then CPU_INTERRUPT_FIQ else 0)"

lemma interrupt_pow: "CPU_INTERRUPT_HARD = 2 ^ 1" "CPU_INTERRUPT_FIQ = 2 ^ 4"
  by (simp_all add: CPU_INTERRUPT_HARD_def CPU_INTERRUPT_FIQ_def)

lemma interrupt_bits: "bit CPU_INTERRUPT_HARD i \<longleftrightarrow> i = Suc 0" "bit CPU_INTERRUPT_FIQ i \<longleftrightarrow> i = 4"
  unfolding interrupt_pow bit_exp_iff by auto

lemma requested: "r AND CPU_INTERRUPT_HARD = 0 \<longleftrightarrow> \<not> bit r (Suc 0)" "r AND CPU_INTERRUPT_FIQ = 0 \<longleftrightarrow> \<not> bit r 4"
  unfolding interrupt_pow and_single_bit by simp_all

lemma request_bits:
  "bit (request irq fiq r) (Suc 0) \<longleftrightarrow> irq" "bit (request irq fiq r) 4 \<longleftrightarrow> fiq"
  by (auto simp: request_def bit_simps interrupt_bits)

lemma int_update_eq:
  assumes "parent_irq s = Some ARM_PIC_CPU_IRQ" and "parent_fiq s = Some ARM_PIC_CPU_FIQ"
  shows "goldfish_int_update (s, w) = ret (s, update_cpu (\<lambda>e. e\<lparr>interrupt_request :=
    request (lines (int_level s) \<inter> lines (irq_enabled s) \<noteq> {}) (lines (int_level s) \<inter> lines (fiq_enabled s) \<noteq> {}) (interrupt_request e)\<rparr>) w)"
proof -
  have r: "(r OR CPU_INTERRUPT_HARD) OR CPU_INTERRUPT_FIQ = request True True r"
    "(r OR CPU_INTERRUPT_HARD) AND NOT CPU_INTERRUPT_FIQ = request True False r"
    "(r AND NOT CPU_INTERRUPT_HARD) OR CPU_INTERRUPT_FIQ = request False True r"
    "(r AND NOT CPU_INTERRUPT_HARD) AND NOT CPU_INTERRUPT_FIQ = request False False r" for r
    unfolding request_def by (rule bit_word_eqI, auto simp: bit_simps interrupt_bits)+
  have "lines (int_level s) \<inter> lines e = {} \<longleftrightarrow> int_level s AND e = 0" for e
    unfolding lines_empty [symmetric] lines_simps ..
  then show ?thesis
    using assms by (auto simp: goldfish_int_update_def qemu_set_irq_def arm_pic_cpu_handler_def ARM_PIC_CPU_IRQ_def ARM_PIC_CPU_FIQ_def
      cpu_interrupt_def cpu_reset_interrupt_def update_cpu_def r)
qed

text \<open>A world that differs in the two requests only.\<close>

definition only_requests :: "traced \<Rightarrow> traced \<Rightarrow> bool" where
  "only_requests w w' \<longleftrightarrow> (\<exists>irq fiq. w' = update_cpu (\<lambda>e. e\<lparr>interrupt_request := request irq fiq (interrupt_request e)\<rparr>) w)"

lemma wired_update:
  assumes "parent_irq s = Some ARM_PIC_CPU_IRQ" and "parent_fiq s = Some ARM_PIC_CPU_FIQ"
    and "pending_count s = of_nat (card (lines (int_level s) \<inter> lines (irq_enabled s)))"
  shows "\<exists>w'. goldfish_int_update (s, w) = ret (s, w') \<and> wired (s, w') \<and> only_requests w w'"
proof -
  let ?w = "update_cpu (\<lambda>e. e\<lparr>interrupt_request := request (lines (int_level s) \<inter> lines (irq_enabled s) \<noteq> {})
    (lines (int_level s) \<inter> lines (fiq_enabled s) \<noteq> {}) (interrupt_request e)\<rparr>) w"
  have "wired (s, ?w)" using assms by (simp add: wired_def requested request_bits update_cpu_def)
  then show ?thesis using int_update_eq [OF assms(1,2), of w] unfolding only_requests_def by blast
qed

lemma card_insert_line: "finite A \<Longrightarrow> n \<notin> A \<Longrightarrow> (of_nat (card (insert n A)) :: u32) = of_nat (card A) + 1"
  by (simp add: add.commute)

lemma card_remove_line: "finite A \<Longrightarrow> n \<in> A \<Longrightarrow> (of_nat (card (A - {n})) :: u32) = of_nat (card A) - 1"
  by (simp only: card.remove [of A n]) simp

lemma line_mask_ret [simp]: "n < 32 \<Longrightarrow> line_mask n = ret (2 ^ n)"
  by (simp add: line_mask_def)

lemma set_irq_wired:
  assumes "wired (s, w)" and "n < 32"
  shows "\<exists>s' w'. goldfish_int_set_irq n lev (s, w) = ret (s', w') \<and> wired (s', w') \<and> only_requests w w' \<and>
    lines (int_level s') = (if lev then insert n (lines (int_level s)) else lines (int_level s) - {n}) \<and>
    irq_enabled s' = irq_enabled s \<and> fiq_enabled s' = fiq_enabled s"
proof -
  define s1 where "s1 = (if lev then
      (if int_level s AND 2 ^ n = 0 then
         (if irq_enabled s AND 2 ^ n \<noteq> 0 then s\<lparr>pending_count := pending_count s + 1\<rparr> else s)
           \<lparr>int_level := int_level s OR 2 ^ n\<rparr>
       else s)
    else
      (if int_level s AND 2 ^ n \<noteq> 0 then
         (if irq_enabled s AND 2 ^ n \<noteq> 0 then s\<lparr>pending_count := pending_count s - 1\<rparr> else s)
           \<lparr>int_level := int_level s AND NOT (2 ^ n)\<rparr>
       else s))"
  let ?A = "lines (int_level s)" and ?E = "lines (irq_enabled s)"
  have w: "parent_irq s = Some ARM_PIC_CPU_IRQ" "parent_fiq s = Some ARM_PIC_CPU_FIQ" "pending_count s = of_nat (card (?A \<inter> ?E))"
    using assms(1) by (simp_all add: wired_def)
  have f: "lines (int_level s1) = (if lev then insert n ?A else ?A - {n})" "irq_enabled s1 = irq_enabled s" "fiq_enabled s1 = fiq_enabled s"
    "parent_irq s1 = Some ARM_PIC_CPU_IRQ" "parent_fiq s1 = Some ARM_PIC_CPU_FIQ"
    using assms(2) w(1,2) by (auto simp: s1_def and_mask lines_simps dest: line_less)
  have "pending_count s1 = of_nat (card (lines (int_level s1) \<inter> lines (irq_enabled s1)))"
  proof (cases "n \<in> ?E")
    case True
    have i: "insert n ?A \<inter> ?E = insert n (?A \<inter> ?E)" and r: "(?A - {n}) \<inter> ?E = (?A \<inter> ?E) - {n}" using True by auto
    have "n \<in> ?A \<Longrightarrow> insert n (?A \<inter> ?E) = ?A \<inter> ?E" "n \<notin> ?A \<Longrightarrow> (?A \<inter> ?E) - {n} = ?A \<inter> ?E" using True by auto
    then show ?thesis
      using True assms(2) card_insert_line [of "?A \<inter> ?E" n] card_remove_line [of "?A \<inter> ?E" n]
      unfolding f(1,2) by (cases lev; cases "n \<in> ?A") (simp_all add: i r s1_def and_mask w(3) del: card_Diff_singleton card_insert_disjoint)
  next
    case False
    then have "insert n ?A \<inter> ?E = ?A \<inter> ?E" "(?A - {n}) \<inter> ?E = ?A \<inter> ?E" by auto
    then show ?thesis using False assms(2) unfolding f(1,2) by (simp add: s1_def and_mask w(3))
  qed
  from wired_update [OF f(4,5) this] obtain w' where "goldfish_int_update (s1, w) = ret (s1, w')" "wired (s1, w')" "only_requests w w'"
    by blast
  moreover have "goldfish_int_set_irq n lev (s, w) = goldfish_int_update (s1, w)"
    using assms(2) by (simp add: goldfish_int_set_irq_def Let_def s1_def)
  ultimately show ?thesis using f by (intro exI [of _ s1] exI [of _ w']) simp
qed

lemma enable_wired:
  assumes "wired (s, w)" and "unat v < 32"
  shows "\<exists>s' w'. goldfish_int_write INTERRUPT_ENABLE v (s, w) = ret (s', w') \<and> wired (s', w') \<and> only_requests w w' \<and>
    lines (irq_enabled s') = insert (unat v) (lines (irq_enabled s)) \<and> int_level s' = int_level s \<and> fiq_enabled s' = fiq_enabled s"
proof -
  let ?n = "unat v" and ?A = "lines (int_level s)" and ?E = "lines (irq_enabled s)"
  define s1 where "s1 = (if irq_enabled s AND 2 ^ ?n = 0 then
     (let s1 = s\<lparr>irq_enabled := irq_enabled s OR 2 ^ ?n\<rparr>
      in if int_level s1 AND 2 ^ ?n \<noteq> 0 then s1\<lparr>pending_count := pending_count s1 + 1\<rparr> else s1) else s)"
  have w: "parent_irq s = Some ARM_PIC_CPU_IRQ" "parent_fiq s = Some ARM_PIC_CPU_FIQ" "pending_count s = of_nat (card (?A \<inter> ?E))"
    using assms(1) by (simp_all add: wired_def)
  have f: "lines (irq_enabled s1) = insert ?n ?E" "int_level s1 = int_level s" "fiq_enabled s1 = fiq_enabled s"
    "parent_irq s1 = Some ARM_PIC_CPU_IRQ" "parent_fiq s1 = Some ARM_PIC_CPU_FIQ"
    using assms(2) w(1,2) by (auto simp: s1_def and_mask lines_simps Let_def)
  have "?A \<inter> insert ?n ?E = (if ?n \<in> ?A then insert ?n (?A \<inter> ?E) else ?A \<inter> ?E)" by auto
  then have "pending_count s1 = of_nat (card (lines (int_level s1) \<inter> lines (irq_enabled s1)))"
    using assms(2) unfolding f(1,2) by (simp add: s1_def and_mask w(3) card_insert_line insert_absorb Let_def)
  from wired_update [OF f(4,5) this] obtain w' where "goldfish_int_update (s1, w) = ret (s1, w')" "wired (s1, w')" "only_requests w w'"
    by blast
  moreover have "goldfish_int_write INTERRUPT_ENABLE v (s, w) = goldfish_int_update (s1, w)"
    using assms(2) by (simp add: goldfish_int_write_def s1_def INTERRUPT_ENABLE_def INTERRUPT_DISABLE_def INTERRUPT_DISABLE_ALL_def)
  ultimately show ?thesis using f by (intro exI [of _ s1] exI [of _ w']) simp
qed

lemma disable_wired:
  assumes "wired (s, w)" and "unat v < 32"
  shows "\<exists>s' w'. goldfish_int_write INTERRUPT_DISABLE v (s, w) = ret (s', w') \<and> wired (s', w') \<and> only_requests w w' \<and>
    lines (irq_enabled s') = lines (irq_enabled s) - {unat v} \<and> int_level s' = int_level s \<and> fiq_enabled s' = fiq_enabled s"
proof -
  let ?n = "unat v" and ?A = "lines (int_level s)" and ?E = "lines (irq_enabled s)"
  define s1 where "s1 = (if irq_enabled s AND 2 ^ ?n \<noteq> 0 then
     (if int_level s AND 2 ^ ?n \<noteq> 0 then s\<lparr>pending_count := pending_count s - 1\<rparr> else s)
       \<lparr>irq_enabled := irq_enabled s AND NOT (2 ^ ?n)\<rparr> else s)"
  have w: "parent_irq s = Some ARM_PIC_CPU_IRQ" "parent_fiq s = Some ARM_PIC_CPU_FIQ" "pending_count s = of_nat (card (?A \<inter> ?E))"
    using assms(1) by (simp_all add: wired_def)
  have f: "lines (irq_enabled s1) = ?E - {?n}" "int_level s1 = int_level s" "fiq_enabled s1 = fiq_enabled s"
    "parent_irq s1 = Some ARM_PIC_CPU_IRQ" "parent_fiq s1 = Some ARM_PIC_CPU_FIQ"
    using assms(2) w(1,2) by (auto simp: s1_def and_mask lines_simps dest: line_less)
  have "?A \<inter> (?E - {?n}) = (if ?n \<in> ?A \<inter> ?E then (?A \<inter> ?E) - {?n} else ?A \<inter> ?E)" by auto
  then have "pending_count s1 = of_nat (card (lines (int_level s1) \<inter> lines (irq_enabled s1)))"
    using assms(2) card_remove_line [of "?A \<inter> ?E" ?n] unfolding f(1,2) by (simp add: s1_def and_mask w(3) del: card_Diff_singleton)
  from wired_update [OF f(4,5) this] obtain w' where "goldfish_int_update (s1, w) = ret (s1, w')" "wired (s1, w')" "only_requests w w'"
    by blast
  moreover have "goldfish_int_write INTERRUPT_DISABLE v (s, w) = goldfish_int_update (s1, w)"
    using assms(2) by (simp add: goldfish_int_write_def s1_def INTERRUPT_DISABLE_def INTERRUPT_DISABLE_ALL_def)
  ultimately show ?thesis using f by (intro exI [of _ s1] exI [of _ w']) simp
qed

lemma disable_all_wired:
  assumes "wired (s, w)" and "unat v < 32"
  shows "\<exists>s' w'. goldfish_int_write INTERRUPT_DISABLE_ALL v (s, w) = ret (s', w') \<and> wired (s', w') \<and> only_requests w w' \<and>
    lines (int_level s') = {} \<and> irq_enabled s' = irq_enabled s \<and> fiq_enabled s' = fiq_enabled s"
proof -
  let ?s = "s\<lparr>pending_count := 0, int_level := 0\<rparr>"
  have "parent_irq ?s = Some ARM_PIC_CPU_IRQ" "parent_fiq ?s = Some ARM_PIC_CPU_FIQ"
    "pending_count ?s = of_nat (card (lines (int_level ?s) \<inter> lines (irq_enabled ?s)))"
    using assms(1) by (simp_all add: wired_def lines_simps)
  from wired_update [OF this] obtain w' where "goldfish_int_update (?s, w) = ret (?s, w')" "wired (?s, w')" "only_requests w w'" by blast
  with assms(2) show ?thesis by (intro exI [of _ ?s] exI [of _ w']) (simp add: goldfish_int_write_def)
qed

lemma int_number:
  "goldfish_int_read INTERRUPT_NUMBER s =
     ret (if lines (int_level s) \<inter> lines (irq_enabled s) = {} then 0 else of_nat (Min (lines (int_level s) \<inter> lines (irq_enabled s))))"
proof -
  let ?P = "\<lambda>i. (int_level s AND irq_enabled s) AND 2 ^ i \<noteq> 0" and ?L = "lines (int_level s) \<inter> lines (irq_enabled s)"
  have P: "?P i \<longleftrightarrow> i \<in> ?L" if "i < 32" for i using that by (simp add: and_mask lines_simps)
  show ?thesis
  proof (cases "find ?P [0..<32]")
    case None
    then have "\<forall>i<32. i \<notin> ?L" using P by (simp add: find_None_iff)
    then have "?L = {}" using line_less by blast
    with None show ?thesis by (simp add: goldfish_int_read_def INTERRUPT_NUMBER_def INTERRUPT_STATUS_def)
  next
    case (Some i)
    then have i: "i < 32" "?P i" "\<forall>j<i. \<not> ?P j" by (auto simp: find_Some_iff)
    then have "i \<in> ?L" "\<And>j. j \<in> ?L \<Longrightarrow> i \<le> j" using P by (blast, meson le_less_linear less_trans)
    then have "Min ?L = i" by (intro Min_eqI) auto
    with Some \<open>i \<in> ?L\<close> show ?thesis by (auto simp: goldfish_int_read_def INTERRUPT_NUMBER_def INTERRUPT_STATUS_def)
  qed
qed

text \<open>
  C23. The interrupt controller and the processor stay in agreement: after a change of a line and after every write to
  a register, the pending count is the number of enabled lines that are high, and the IRQ request of the processor is up
  exactly when there is such a line; no other state of the machine changes. The status register reads as the count and the number
  register as the lowest such line. Disabling all interrupts forgets the levels of the lines and leaves every line enabled.
\<close>

theorem interrupt_controller_agrees:
  assumes "wired (s, w)" and "n < 32" and "unat v < 32"
  shows "(\<exists>s' w'. goldfish_int_set_irq n lev (s, w) = ret (s', w') \<and> wired (s', w') \<and> only_requests w w' \<and>
      lines (int_level s') = (if lev then insert n (lines (int_level s)) else lines (int_level s) - {n}) \<and>
      irq_enabled s' = irq_enabled s) \<and>
    (\<exists>s' w'. goldfish_int_write INTERRUPT_ENABLE v (s, w) = ret (s', w') \<and> wired (s', w') \<and> only_requests w w' \<and>
      lines (irq_enabled s') = insert (unat v) (lines (irq_enabled s)) \<and> int_level s' = int_level s) \<and>
    (\<exists>s' w'. goldfish_int_write INTERRUPT_DISABLE v (s, w) = ret (s', w') \<and> wired (s', w') \<and> only_requests w w' \<and>
      lines (irq_enabled s') = lines (irq_enabled s) - {unat v} \<and> int_level s' = int_level s) \<and>
    (\<exists>s' w'. goldfish_int_write INTERRUPT_DISABLE_ALL v (s, w) = ret (s', w') \<and> wired (s', w') \<and> only_requests w w' \<and>
      lines (int_level s') = {} \<and> irq_enabled s' = irq_enabled s) \<and>
    goldfish_int_read INTERRUPT_STATUS s = ret (of_nat (card (lines (int_level s) \<inter> lines (irq_enabled s)))) \<and>
    goldfish_int_read INTERRUPT_NUMBER s =
      ret (if lines (int_level s) \<inter> lines (irq_enabled s) = {} then 0 else of_nat (Min (lines (int_level s) \<inter> lines (irq_enabled s))))"
proof -
  have "goldfish_int_read INTERRUPT_STATUS s = ret (of_nat (card (lines (int_level s) \<inter> lines (irq_enabled s))))"
    using assms(1) by (simp add: goldfish_int_read_def wired_def)
  with set_irq_wired [OF assms(1,2), of lev] enable_wired [OF assms(1,3)] disable_wired [OF assms(1,3)] disable_all_wired [OF assms(1,3)]
  show ?thesis unfolding int_number by blast
qed

theorem interrupt_controller_agrees_witness:
  "let s = goldfish_interrupt_init (Some ARM_PIC_CPU_IRQ) (Some ARM_PIC_CPU_FIQ)
   in wired (s, traced_example) \<and>
     (\<exists>s' w'. goldfish_int_write INTERRUPT_ENABLE 5 (s, traced_example) = ret (s', w') \<and> wired (s', w') \<and> lines (irq_enabled s') = {5})"
proof -
  let ?s = "goldfish_interrupt_init (Some ARM_PIC_CPU_IRQ) (Some ARM_PIC_CPU_FIQ)"
  have "interrupt_request (cpu traced_example) = 0" by code_simp
  then have "wired (?s, traced_example)" by (simp add: wired_def goldfish_interrupt_init_def lines_simps(1))
  then show ?thesis
    using interrupt_controller_agrees [of ?s traced_example 5 5 True] by (auto simp: goldfish_interrupt_init_def lines_simps(1))
qed

end
