(* ===== verification/Cpu_Exec.thy ===== *)
theory Cpu_Exec
  imports Goldfish_Int Exception_Entry Soft_Mmu
begin

text \<open>
  The main loop of the emulated processor (\<open>cpu_exec\<close> in \<open>src/qemu/cpu-exec.c\<close>) up to the execution of generated
  code: entry, delivery of a pending exception, and the test for interrupts before each block. The debugger hook that a debug exception calls on the way out and blocks are
  not modelled: blocks are generated code. A \<open>longjmp\<close> back to the loop is the outcome \<open>LoopExit\<close>. Without KVM.
\<close>

section \<open>State and constants\<close>

record 'n exec_state =
  ecpu :: CPUARMState
  emem :: phys_mem
  envic :: 'n
  exit_request :: bool
  singlestep_enabled :: u32

datatype exec_outcome = Proceed | LoopExit | Leave int

definition EXCP_INTERRUPT :: int where "EXCP_INTERRUPT = 0x10000"
definition EXCP_HLT :: int where "EXCP_HLT = 0x10001"
definition EXCP_DEBUG :: int where "EXCP_DEBUG = 0x10002"
definition EXCP_HALTED :: int where "EXCP_HALTED = 0x10003"
definition CPU_INTERRUPT_DEBUG :: u32 where "CPU_INTERRUPT_DEBUG = 0x80"
definition CPU_INTERRUPT_SSTEP_MASK :: u32 where "CPU_INTERRUPT_SSTEP_MASK = 0x125A"
definition SSTEP_NOIRQ :: u32 where "SSTEP_NOIRQ = 2"

definition on_cpu :: "(CPUARMState \<Rightarrow> CPUARMState) \<Rightarrow> 'n exec_state \<Rightarrow> 'n exec_state" where
  "on_cpu f e = e\<lparr>ecpu := f (ecpu e)\<rparr>"

definition cpu_has_work :: "CPUARMState \<Rightarrow> bool" where
  "cpu_has_work env \<longleftrightarrow> interrupt_request env AND (CPU_INTERRUPT_FIQ OR CPU_INTERRUPT_HARD OR CPU_INTERRUPT_EXITTB) \<noteq> 0"

text \<open>\<open>env->exception_index = excp; do_interrupt(env)\<close>.\<close>

definition take_exception :: "'n platform \<Rightarrow> int \<Rightarrow> 'n exec_state \<Rightarrow> 'n exec_state comp" where
  "take_exception p excp e =
     comp_bind (do_interrupt p ((ecpu e)\<lparr>exception_index := excp\<rparr>, emem e, envic e)) (\<lambda>(env, mem, nvic).
       ret (e\<lparr>ecpu := env, emem := mem, envic := nvic\<rparr>))"

section \<open>The loop\<close>

text \<open>A halted processor leaves at once unless it has work. \<open>global_exit\<close>: the global \<open>exit_request\<close>.\<close>

definition cpu_exec_enter :: "bool \<Rightarrow> 'n exec_state \<Rightarrow> exec_outcome \<times> 'n exec_state" where
  "cpu_exec_enter global_exit e =
     (if halted (ecpu e) \<noteq> 0 \<and> \<not> cpu_has_work (ecpu e) then (Leave EXCP_HALTED, e)
      else let e1 = on_cpu (\<lambda>env. env\<lparr>halted := 0\<rparr>) e;
               e2 = (if global_exit then e1\<lparr>exit_request := True\<rparr> else e1)
           in (Proceed, on_cpu (\<lambda>env. env\<lparr>exception_index := - 1\<rparr>) e2))"

text \<open>The part after \<open>setjmp\<close>: an exit request of the loop leaves, any other exception is entered.\<close>

definition pending_exception :: "'n platform \<Rightarrow> 'n exec_state \<Rightarrow> (exec_outcome \<times> 'n exec_state) comp" where
  "pending_exception p e =
     (if exception_index (ecpu e) < 0 then ret (Proceed, e)
      else if EXCP_INTERRUPT \<le> exception_index (ecpu e) then ret (Leave (exception_index (ecpu e)), e)
      else comp_bind (take_exception p (exception_index (ecpu e)) e) (\<lambda>e1.
        ret (Proceed, on_cpu (\<lambda>env. env\<lparr>exception_index := - 1\<rparr>) e1)))"

definition loop_exit :: "int \<Rightarrow> 'n exec_state \<Rightarrow> exec_outcome \<times> 'n exec_state" where
  "loop_exit excp e = (LoopExit, on_cpu (\<lambda>env. cpu_loop_exit (env\<lparr>exception_index := excp\<rparr>)) e)"

text \<open>FIQ first, then IRQ; the tests of the second use the processor after the first.\<close>

definition take_fiq :: "'n platform \<Rightarrow> u32 \<Rightarrow> 'n exec_state \<Rightarrow> 'n exec_state comp" where
  "take_fiq p req e =
     (if req AND CPU_INTERRUPT_FIQ \<noteq> 0 \<and> uncached_cpsr (ecpu e) AND CPSR_F = 0 then take_exception p EXCP_FIQ e else ret e)"

definition take_irq :: "'n platform \<Rightarrow> u32 \<Rightarrow> 'n exec_state \<Rightarrow> 'n exec_state comp" where
  "take_irq p req e =
     (if req AND CPU_INTERRUPT_HARD \<noteq> 0 \<and>
         (IS_M (ecpu e) \<and> regs (ecpu e) 15 < 0xFFFFFFF0 \<or> uncached_cpsr (ecpu e) AND CPSR_I = 0)
      then take_exception p EXCP_IRQ e else ret e)"

definition end_of_poll :: "'n exec_state \<Rightarrow> exec_outcome \<times> 'n exec_state" where
  "end_of_poll e = (if exit_request e then loop_exit EXCP_INTERRUPT (e\<lparr>exit_request := False\<rparr>) else (Proceed, e))"

definition poll_interrupts :: "'n platform \<Rightarrow> 'n exec_state \<Rightarrow> (exec_outcome \<times> 'n exec_state) comp" where
  "poll_interrupts p e =
     (let req0 = interrupt_request (ecpu e);
          req = (if singlestep_enabled e AND SSTEP_NOIRQ \<noteq> 0 then req0 AND NOT CPU_INTERRUPT_SSTEP_MASK else req0)
      in if req0 = 0 then ret (end_of_poll e)
         else if req AND CPU_INTERRUPT_DEBUG \<noteq> 0 then
           ret (loop_exit EXCP_DEBUG (on_cpu (\<lambda>env. env\<lparr>interrupt_request := interrupt_request env AND NOT CPU_INTERRUPT_DEBUG\<rparr>) e))
         else if req AND CPU_INTERRUPT_HALT \<noteq> 0 then
           ret (loop_exit EXCP_HLT
             (on_cpu (\<lambda>env. env\<lparr>interrupt_request := interrupt_request env AND NOT CPU_INTERRUPT_HALT, halted := 1\<rparr>) e))
         else comp_bind (take_fiq p req e) (\<lambda>e1.
              comp_bind (take_irq p req e1) (\<lambda>e2.
              ret (end_of_poll (on_cpu (\<lambda>env. env\<lparr>interrupt_request := interrupt_request env AND NOT CPU_INTERRUPT_EXITTB\<rparr>) e2)))))"

section \<open>Delivery of interrupts\<close>

text \<open>The processor has entered an exception: mode, vector and offset of the return address are given.\<close>

definition entered :: "u32 \<Rightarrow> u32 \<Rightarrow> CPUARMState \<Rightarrow> CPUARMState \<Rightarrow> bool" where
  "entered mode vec env env' \<longleftrightarrow>
     uncached_cpsr env' AND CPSR_M = mode \<and> uncached_cpsr env' AND CPSR_I \<noteq> 0 \<and> spsr env' = cpsr_read env \<and>
     regs env' 14 = regs env 15 + 4 \<and>
     regs env' 15 = vector_address env \<lparr>new_mode = mode, vector = vec, exc_mask = 0, lr_offset = 4\<rparr> \<and>
     (\<forall>i<8. regs env' i = regs env i)"

definition interruptible :: "'n exec_state \<Rightarrow> bool" where
  "interruptible e \<longleftrightarrow> \<not> IS_M (ecpu e) \<and> valid_mode (uncached_cpsr (ecpu e) AND CPSR_M) \<and>
     singlestep_enabled e AND SSTEP_NOIRQ = 0 \<and> \<not> exit_request e \<and>
     interrupt_request (ecpu e) AND (CPU_INTERRUPT_DEBUG OR CPU_INTERRUPT_HALT) = 0"

lemma entered_simps [simp]:
  "entered m v env (env'\<lparr>interrupt_request := r\<rparr>) = entered m v env env'"
  "vector_address (env\<lparr>exception_index := x\<rparr>) t = vector_address env t"
  "cpsr_read (env\<lparr>exception_index := x\<rparr>) = cpsr_read env"
  by (simp_all add: entered_def vector_address_def arm_feature_def cpsr_read_def)

lemma vector_address_mask: "vector_address env \<lparr>new_mode = m, vector = v, exc_mask = a, lr_offset = b\<rparr> =
    vector_address env \<lparr>new_mode = m, vector = v, exc_mask = 0, lr_offset = 4\<rparr>"
  by (simp add: vector_address_def)

lemma enter_exception_features:
  assumes "valid_mode (uncached_cpsr env AND CPSR_M)" and "valid_mode (new_mode t)" and "enter_exception t env = ret env'"
  shows "features env' = features env"
proof -
  obtain env1 where "switch_mode (new_mode t) env = ret env1" "same_status env env1" using switch_mode_status [OF assms(1,2)] by blast
  then show ?thesis using assms(3) by (auto simp: enter_exception_def Let_def set_reg_def same_status_def split: if_splits)
qed

lemma take_interrupt:
  assumes "\<not> IS_M (ecpu e)" and "valid_mode (uncached_cpsr (ecpu e) AND CPSR_M)"
    and "excp = EXCP_FIQ \<and> mode = ARM_CPU_MODE_FIQ \<and> vec = 0x1C \<or> excp = EXCP_IRQ \<and> mode = ARM_CPU_MODE_IRQ \<and> vec = 0x18"
  shows "\<exists>env'. take_exception p excp e = ret (e\<lparr>ecpu := env'\<rparr>) \<and> entered mode vec (ecpu e) env' \<and> \<not> IS_M env'"
proof -
  let ?env = "(ecpu e)\<lparr>exception_index := excp\<rparr>"
  have m: "\<not> IS_M ?env" "valid_mode (uncached_cpsr ?env AND CPSR_M)" using assms(1,2) by (simp_all add: IS_M_def arm_feature_def)
  obtain a where t: "exception_target p ?env = ret (Inr (?env, \<lparr>new_mode = mode, vector = vec, exc_mask = a, lr_offset = 4\<rparr>))"
    using assms(3) by (auto simp: exception_target_def EXCP_UDEF_def EXCP_SWI_def EXCP_PREFETCH_ABORT_def EXCP_DATA_ABORT_def
      EXCP_IRQ_def EXCP_FIQ_def EXCP_BKPT_def)
  from do_interrupt_enters [OF m t, of "emem e" "envic e"] obtain env' where
      d: "do_interrupt p (?env, emem e, envic e) = ret (env', emem e, envic e)" and "entered mode vec (ecpu e) env'"
    unfolding entered_def using vector_address_mask [of "ecpu e" mode vec a 4] by auto
  moreover have "enter_exception \<lparr>new_mode = mode, vector = vec, exc_mask = a, lr_offset = 4\<rparr> ?env = ret env'"
    using d m(1) t by (auto simp: do_interrupt_def dest!: comp_bind_eq_retD)
  then have "features env' = features ?env"
    using assms(3) by (intro enter_exception_features [OF m(2)]) (auto simp: valid_mode_def mode_defs)
  then have "\<not> IS_M env'" using assms(1) by (simp add: IS_M_def arm_feature_def)
  ultimately show ?thesis by (auto simp: take_exception_def)
qed

lemma debug_halt: "r AND (CPU_INTERRUPT_DEBUG OR CPU_INTERRUPT_HALT) = 0 \<Longrightarrow> r AND CPU_INTERRUPT_DEBUG = 0 \<and> r AND CPU_INTERRUPT_HALT = 0"
  by (simp add: bit.conj_disj_distrib or_eq_0_iff)

text \<open>
  C22. Delivery of an interrupt, from the lines of the interrupt controller to the processor: before a block is executed, a processor
  that is wired to the controller enters FIQ mode when an FIQ line is up and not masked, otherwise IRQ mode when an enabled line is up
  and not masked, with the old status in SPSR, the return address in \<open>r14\<close>, the vector in \<open>pc\<close> and IRQs masked; otherwise the
  program goes on. An FIQ is never overtaken by an IRQ of the same test. Memory does not change.
\<close>

theorem interrupt_delivery:
  assumes "wired (s, w)" and "cpu w = ecpu e" and "interruptible e"
  shows "\<exists>env'. poll_interrupts p e = ret (Proceed, e\<lparr>ecpu := env'\<rparr>) \<and>
    (if lines (int_level s) \<inter> lines (fiq_enabled s) \<noteq> {} \<and> uncached_cpsr (ecpu e) AND CPSR_F = 0
     then entered ARM_CPU_MODE_FIQ 0x1C (ecpu e) env'
     else if lines (int_level s) \<inter> lines (irq_enabled s) \<noteq> {} \<and> uncached_cpsr (ecpu e) AND CPSR_I = 0
     then entered ARM_CPU_MODE_IRQ 0x18 (ecpu e) env'
     else env' = (ecpu e)\<lparr>interrupt_request := interrupt_request (ecpu e) AND NOT CPU_INTERRUPT_EXITTB\<rparr>)"
proof -
  let ?req = "interrupt_request (ecpu e)"
  let ?done = "\<lambda>e. ret (end_of_poll (on_cpu (\<lambda>env. env\<lparr>interrupt_request := interrupt_request env AND NOT CPU_INTERRUPT_EXITTB\<rparr>) e))"
  have i: "\<not> IS_M (ecpu e)" "valid_mode (uncached_cpsr (ecpu e) AND CPSR_M)" "singlestep_enabled e AND SSTEP_NOIRQ = 0" "\<not> exit_request e"
    "?req AND CPU_INTERRUPT_DEBUG = 0" "?req AND CPU_INTERRUPT_HALT = 0"
    using assms(3) debug_halt by (auto simp: interruptible_def)
  have irq: "?req AND CPU_INTERRUPT_HARD \<noteq> 0 \<longleftrightarrow> lines (int_level s) \<inter> lines (irq_enabled s) \<noteq> {}"
    and fiq: "?req AND CPU_INTERRUPT_FIQ \<noteq> 0 \<longleftrightarrow> lines (int_level s) \<inter> lines (fiq_enabled s) \<noteq> {}"
    using assms(1,2) by (simp_all add: wired_def)
  have none: "poll_interrupts p e = comp_bind (take_fiq p ?req e) (\<lambda>e1. comp_bind (take_irq p ?req e1) ?done)"
  proof (cases "?req = 0")
    case True
    then have "on_cpu (\<lambda>env. env\<lparr>interrupt_request := interrupt_request env AND NOT CPU_INTERRUPT_EXITTB\<rparr>) e = e"
      by (cases e) (auto simp: on_cpu_def)
    with True show ?thesis by (simp add: poll_interrupts_def take_fiq_def take_irq_def)
  qed (simp add: poll_interrupts_def i Let_def)
  consider (fiq) "lines (int_level s) \<inter> lines (fiq_enabled s) \<noteq> {}" "uncached_cpsr (ecpu e) AND CPSR_F = 0"
    | (irq) "\<not> (lines (int_level s) \<inter> lines (fiq_enabled s) \<noteq> {} \<and> uncached_cpsr (ecpu e) AND CPSR_F = 0)"
        "lines (int_level s) \<inter> lines (irq_enabled s) \<noteq> {}" "uncached_cpsr (ecpu e) AND CPSR_I = 0"
    | (no) "\<not> (lines (int_level s) \<inter> lines (fiq_enabled s) \<noteq> {} \<and> uncached_cpsr (ecpu e) AND CPSR_F = 0)"
        "\<not> (lines (int_level s) \<inter> lines (irq_enabled s) \<noteq> {} \<and> uncached_cpsr (ecpu e) AND CPSR_I = 0)" by blast
  then show ?thesis
  proof cases
    case fiq': fiq
    obtain env' where "take_exception p EXCP_FIQ e = ret (e\<lparr>ecpu := env'\<rparr>)" and en: "entered ARM_CPU_MODE_FIQ 0x1C (ecpu e) env'" "\<not> IS_M env'"
      using take_interrupt [OF i(1,2), of EXCP_FIQ ARM_CPU_MODE_FIQ "0x1C" p] by blast
    then have f: "take_fiq p ?req e = ret (e\<lparr>ecpu := env'\<rparr>)" using fiq' fiq by (simp add: take_fiq_def)
    have "take_irq p ?req (e\<lparr>ecpu := env'\<rparr>) = ret (e\<lparr>ecpu := env'\<rparr>)" using en by (simp add: take_irq_def entered_def)
    then show ?thesis using f none fiq' en i(4)
      by (intro exI [of _ "env'\<lparr>interrupt_request := interrupt_request env' AND NOT CPU_INTERRUPT_EXITTB\<rparr>"]) (simp add: end_of_poll_def on_cpu_def)
  next
    case irq': irq
    obtain env' where "take_exception p EXCP_IRQ e = ret (e\<lparr>ecpu := env'\<rparr>)" and en: "entered ARM_CPU_MODE_IRQ 0x18 (ecpu e) env'"
      using take_interrupt [OF i(1,2), of EXCP_IRQ ARM_CPU_MODE_IRQ "0x18" p] by blast
    moreover have "take_fiq p ?req e = ret e" using irq'(1) fiq by (auto simp: take_fiq_def)
    ultimately show ?thesis using none irq' irq i(4)
      by (intro exI [of _ "env'\<lparr>interrupt_request := interrupt_request env' AND NOT CPU_INTERRUPT_EXITTB\<rparr>"])
        (auto simp: take_irq_def end_of_poll_def on_cpu_def)
  next
    case no
    then have "take_fiq p ?req e = ret e" "take_irq p ?req e = ret e" using irq fiq i(1) by (auto simp: take_fiq_def take_irq_def)
    then show ?thesis using none no i(4) by (auto simp: end_of_poll_def on_cpu_def)
  qed
qed

text \<open>A user program with line 3 of the controller enabled and up.\<close>

definition one_line :: goldfish_int_state where
  "one_line = (goldfish_interrupt_init (Some ARM_PIC_CPU_IRQ) (Some ARM_PIC_CPU_FIQ))\<lparr>int_level := 8, irq_enabled := 8, pending_count := 1\<rparr>"

definition interrupted :: "nat exec_state" where
  "interrupted = \<lparr>ecpu = (cpu traced_example)\<lparr>interrupt_request := CPU_INTERRUPT_HARD\<rparr>, emem = ram traced_example, envic = 0,
     exit_request = False, singlestep_enabled = 0\<rparr>"

lemma one_line_wired: "wired (one_line, traced_example\<lparr>cpu := ecpu interrupted\<rparr>)"
proof -
  have 8: "lines 8 = {3}" using lines_simps(4) [of 3] by simp
  have "CPU_INTERRUPT_HARD AND CPU_INTERRUPT_HARD \<noteq> 0" "CPU_INTERRUPT_HARD AND CPU_INTERRUPT_FIQ = 0" by code_simp+
  then show ?thesis by (simp add: wired_def one_line_def goldfish_interrupt_init_def interrupted_def 8 lines_simps(1))
qed

theorem interrupt_delivery_witness:
  "\<exists>env'. poll_interrupts quiet_platform interrupted = ret (Proceed, interrupted\<lparr>ecpu := env'\<rparr>) \<and>
     entered ARM_CPU_MODE_IRQ 0x18 (ecpu interrupted) env'"
proof -
  have 8: "lines 8 = {3}" using lines_simps(4) [of 3] by simp
  have "interruptible interrupted" "uncached_cpsr (ecpu interrupted) AND CPSR_I = 0" by code_simp+
  then show ?thesis
    using interrupt_delivery [OF one_line_wired, of interrupted quiet_platform]
    by (simp add: one_line_def goldfish_interrupt_init_def 8 lines_simps(1))
qed

end
