(* ===== verification/Goldfish_Events.thy ===== *)
theory Goldfish_Events
  imports Goldfish_Int
begin

text \<open>
  The input device of the board (\<open>src/qemu/hw/goldfish_events_device.c\<close>): the queue of input events between the user interface and the
  kernel of the emulated system, the pages that describe which events the device sends, and its registers. The interrupt
  of the device is a line of the interrupt controller.
\<close>

section \<open>State\<close>

definition MAX_EVENTS :: u32 where "MAX_EVENTS = 1024"

definition REG_READ :: u32 where "REG_READ = 0x00"
definition REG_SET_PAGE :: u32 where "REG_SET_PAGE = 0x00"
definition REG_LEN :: u32 where "REG_LEN = 0x04"
definition REG_DATA :: u32 where "REG_DATA = 0x08"

definition EV_SYN :: nat where "EV_SYN = 0"
definition EV_KEY :: nat where "EV_KEY = 1"
definition EV_REL :: nat where "EV_REL = 2"
definition EV_ABS :: nat where "EV_ABS = 3"
definition EV_SW :: nat where "EV_SW = 5"
definition EV_MAX :: nat where "EV_MAX = 0x1F"

definition PAGE_NAME :: int where "PAGE_NAME = 0"
definition PAGE_EVBITS :: int where "PAGE_EVBITS = 0x10000"
definition PAGE_ABSDATA :: int where "PAGE_ABSDATA = 0x20003"

datatype driver_state = STATE_INIT | STATE_BUFFERED | STATE_LIVE

text \<open>\<open>ev_bits\<close>: an empty list is the null pointer with length 0; \<open>abs_info\<close> likewise.\<close>

record events_state =
  ev_irq :: nat
  ev_page :: int
  events :: "u32 list"
  first :: u32
  last_word :: u32
  driver :: driver_state
  ev_name :: string
  ev_bits :: "nat \<Rightarrow> u8 list"
  abs_info :: "u32 list"

type_synonym events_world = "events_state \<times> int_world"

section \<open>The queue\<close>

definition next_index :: "u32 \<Rightarrow> u32" where
  "next_index i = (i + 1) AND (MAX_EVENTS - 1)"

definition put_event :: "u32 \<Rightarrow> events_state \<Rightarrow> events_state comp" where
  "put_event v s =
     (if unat (last_word s) < length (events s)
      then ret (s\<lparr>events := (events s)[unat (last_word s) := v], last_word := next_index (last_word s)\<rparr>)
      else raise OutOfBounds)"

definition enqueued :: "events_state \<Rightarrow> int" where
  "enqueued s = (let d = sint (last_word s - first s) in if d < 0 then d + uint MAX_EVENTS else d)"

definition enqueue_event :: "u32 \<Rightarrow> u32 \<Rightarrow> u32 \<Rightarrow> events_world \<Rightarrow> events_world comp" where
  "enqueue_event type code val st =
     (case st of (s, iw) \<Rightarrow>
        if uint MAX_EVENTS < enqueued s + 3 then ret st
        else comp_bind
          (if first s = last_word s then
             (if driver s = STATE_LIVE then comp_bind (goldfish_int_set_irq (ev_irq s) True iw) (\<lambda>iw1. ret (s, iw1))
              else ret (s\<lparr>driver := STATE_BUFFERED\<rparr>, iw))
           else ret (s, iw)) (\<lambda>(s1, iw1).
        comp_bind (put_event type s1) (\<lambda>s2.
        comp_bind (put_event code s2) (\<lambda>s3.
        comp_bind (put_event val s3) (\<lambda>s4. ret (s4, iw1))))))"

definition dequeue_event :: "events_world \<Rightarrow> (u32 \<times> events_world) comp" where
  "dequeue_event st =
     (case st of (s, iw) \<Rightarrow>
        if first s = last_word s then ret (0, st)
        else if length (events s) \<le> unat (first s) then raise OutOfBounds
        else let s1 = s\<lparr>first := next_index (first s)\<rparr>
             in comp_bind (if first s1 = last_word s1 then goldfish_int_set_irq (ev_irq s) False iw else ret iw)
               (\<lambda>iw1. ret (events s ! unat (first s), (s1, iw1))))"

section \<open>Registers\<close>

definition get_page_len :: "events_state \<Rightarrow> int" where
  "get_page_len s =
     (if ev_page s = PAGE_NAME then int (length (ev_name s))
      else if PAGE_EVBITS \<le> ev_page s \<and> ev_page s \<le> PAGE_EVBITS + int EV_MAX
      then int (length (ev_bits s (nat (ev_page s - PAGE_EVBITS))))
      else if ev_page s = PAGE_ABSDATA then int (length (abs_info s) * 4)
      else 0)"

text \<open>\<open>name[offset]\<close> reads the terminating zero at the end; other arrays end at their length.\<close>

definition get_page_data :: "events_state \<Rightarrow> nat \<Rightarrow> u32 comp" where
  "get_page_data s off =
     (if get_page_len s < int off then ret 0
      else if ev_page s = PAGE_NAME then
        ret (if off < length (ev_name s) then scast (of_nat (of_char (ev_name s ! off)) :: u8) else 0)
      else if PAGE_EVBITS \<le> ev_page s \<and> ev_page s \<le> PAGE_EVBITS + int EV_MAX then
        (let bits = ev_bits s (nat (ev_page s - PAGE_EVBITS))
         in if bits = [] then raise NullDeref else if off < length bits then ret (ucast (bits ! off)) else raise OutOfBounds)
      else if ev_page s = PAGE_ABSDATA then
        (if abs_info s = [] then raise NullDeref
         else if off div 4 < length (abs_info s) then ret (abs_info s ! (off div 4)) else raise OutOfBounds)
      else ret 0)"

definition events_read :: "u32 \<Rightarrow> events_world \<Rightarrow> (u32 \<times> events_world) comp" where
  "events_read off st =
     (case st of (s, iw) \<Rightarrow>
        comp_bind
          (if off = REG_LEN \<and> ev_page s = PAGE_ABSDATA then
             comp_bind (if driver s = STATE_BUFFERED then goldfish_int_set_irq (ev_irq s) True iw else ret iw)
               (\<lambda>iw1. ret (s\<lparr>driver := STATE_LIVE\<rparr>, iw1))
           else ret (s, iw)) (\<lambda>(s1, iw1).
        if off = REG_READ then dequeue_event (s1, iw1)
        else if off = REG_LEN then ret (of_int (get_page_len s1), (s1, iw1))
        else if sint REG_DATA \<le> sint off then
          comp_bind (get_page_data s1 (unat (off - REG_DATA))) (\<lambda>v. ret (v, (s1, iw1)))
        else ret (0, (s1, iw1))))"

definition events_write :: "u32 \<Rightarrow> u32 \<Rightarrow> events_world \<Rightarrow> events_world" where
  "events_write off val st = (case st of (s, iw) \<Rightarrow> (if off = REG_SET_PAGE then s\<lparr>ev_page := sint val\<rparr> else s, iw))"

section \<open>Events of the user interface\<close>

definition BTN_TOUCH :: u32 where "BTN_TOUCH = 0x14A"

fun enqueue_all :: "(u32 \<times> u32 \<times> u32) list \<Rightarrow> events_world \<Rightarrow> events_world comp" where
  "enqueue_all [] st = ret st"
| "enqueue_all ((t, c, v) # es) st = comp_bind (enqueue_event t c v st) (enqueue_all es)"

definition events_put_keycode :: "u32 \<Rightarrow> events_world \<Rightarrow> events_world comp" where
  "events_put_keycode keycode st = enqueue_event (of_nat EV_KEY) (keycode AND 0x1FF) (if keycode AND 0x200 \<noteq> 0 then 1 else 0) st"

text \<open>Touch screen (\<open>dz\<close> is 0) and trackball.\<close>

definition mouse_events :: "u32 \<Rightarrow> u32 \<Rightarrow> u32 \<Rightarrow> u32 \<Rightarrow> (u32 \<times> u32 \<times> u32) list" where
  "mouse_events dx dy dz buttons =
     (if dz = 0 then [(of_nat EV_ABS, 0, dx), (of_nat EV_ABS, 1, dy), (of_nat EV_ABS, 2, dz), (of_nat EV_KEY, BTN_TOUCH, buttons AND 1)]
      else [(of_nat EV_REL, 0, dx), (of_nat EV_REL, 1, dy)]) @ [(of_nat EV_SYN, 0, 0)]"

definition events_put_mouse :: "u32 \<Rightarrow> u32 \<Rightarrow> u32 \<Rightarrow> u32 \<Rightarrow> events_world \<Rightarrow> events_world comp" where
  "events_put_mouse dx dy dz buttons st = enqueue_all (mouse_events dx dy dz buttons) st"

definition events_put_generic :: "u32 \<Rightarrow> u32 \<Rightarrow> u32 \<Rightarrow> events_world \<Rightarrow> events_world comp" where
  "events_put_generic type code val st = enqueue_event type code val st"

section \<open>The pages of event codes\<close>

fun fill_bytes :: "nat \<Rightarrow> nat \<Rightarrow> u8 list \<Rightarrow> u8 list" where
  "fill_bytes i 0 bits = bits"
| "fill_bytes i (Suc n) bits = fill_bytes (i + 1) n (bits[i := 0xFF])"

definition set_bits :: "nat \<Rightarrow> nat \<Rightarrow> u8 list \<Rightarrow> u8 list" where
  "set_bits bitl bith bits0 =
     (let il = bitl div 8; ih = bith div 8;
          bits = (if length bits0 \<le> ih then bits0 @ replicate (ih + 1 - length bits0) 0 else bits0);
          maskl = push_bit (bitl mod 8) 0xFF :: u8; maskh = drop_bit (7 - bith mod 8) 0xFF :: u8
      in if ih \<le> il then bits[ih := bits ! ih OR (maskh AND maskl)]
         else let bits1 = fill_bytes (il + 1) (ih - il - 1) (bits[il := bits ! il OR maskl])
              in bits1[ih := bits1 ! ih OR maskh])"

definition events_set_bits :: "nat \<Rightarrow> nat \<Rightarrow> nat \<Rightarrow> events_state \<Rightarrow> events_state" where
  "events_set_bits type bitl bith s = s\<lparr>ev_bits := (ev_bits s)(type := set_bits bitl bith (ev_bits s type))\<rparr>"

definition events_set_bit :: "nat \<Rightarrow> nat \<Rightarrow> events_state \<Rightarrow> events_state" where
  "events_set_bit type b s = events_set_bits type b b s"

definition events_clr_bit :: "nat \<Rightarrow> nat \<Rightarrow> events_state \<Rightarrow> events_state" where
  "events_clr_bit type b s =
     (let bits = ev_bits s type in
      if b div 8 < length bits
      then s\<lparr>ev_bits := (ev_bits s)(type := bits[b div 8 := bits ! (b div 8) AND NOT (push_bit (b mod 8) 1)])\<rparr> else s)"

text \<open>The hardware configuration, as far as the device uses it.\<close>

record hw_config =
  hw_dPad :: bool
  hw_trackBall :: bool
  hw_touchScreen :: bool
  hw_camera :: bool
  hw_keyboard :: bool
  hw_keyboard_lid :: bool
  hw_lcd_width :: u32
  hw_lcd_height :: u32
  hw_keyboard_charmap :: string

definition dpad_keys :: "nat list" where
  "dpad_keys = [108, 103, 105, 106, 232]"

definition common_keys :: "nat list" where
  "common_keys = [102, 158, 231, 107, 229, 115, 114, 230, 116, 217]"

definition events_dev_init :: "hw_config \<Rightarrow> nat \<Rightarrow> events_state" where
  "events_dev_init config irq =
     (let s0 = \<lparr>ev_irq = irq, ev_page = 0, events = replicate (unat MAX_EVENTS) 0, first = 0, last_word = 0, driver = STATE_INIT,
                ev_name = hw_keyboard_charmap config, ev_bits = (\<lambda>_. []), abs_info = []\<rparr>;
          s1 = fold (events_set_bit EV_KEY) common_keys (events_set_bit EV_SYN EV_KEY s0);
          s2 = (if hw_dPad config then fold (events_set_bit EV_KEY) dpad_keys s1 else s1);
          s3 = (if hw_trackBall config then events_set_bit EV_KEY 0x110 s2 else s2);
          s4 = (if hw_touchScreen config then events_set_bit EV_KEY (unat BTN_TOUCH) s3 else s3);
          s5 = (if hw_camera config then events_set_bit EV_KEY 212 s4 else s4);
          s6 = (if hw_keyboard config then
                  (let s = events_set_bits EV_KEY 0x160 0x1FF (events_set_bits EV_KEY 1 0xFF s5)
                   in if \<not> hw_dPad config then fold (events_clr_bit EV_KEY) dpad_keys s else s)
                else s5);
          s7 = (if hw_trackBall config then events_set_bits EV_REL 0 1 (events_set_bit EV_SYN EV_REL s6) else s6);
          s8 = (if hw_touchScreen config then
                  (events_set_bits EV_ABS 0 2 (events_set_bit EV_SYN EV_ABS s7))
                    \<lparr>abs_info := [0, hw_lcd_width config - 1, 0, 0, 0, hw_lcd_height config - 1, 0, 0, 0, 1, 0, 0]\<rparr>
                else s7)
      in if hw_keyboard config \<and> hw_keyboard_lid config then events_set_bit EV_SW 0 (events_set_bit EV_SYN EV_SW s8) else s8)"

section \<open>The queue as a list\<close>

lemma mod_cancel: "(a + x) mod n = (a + y) mod n \<longleftrightarrow> x mod n = (y :: nat) mod n"
proof -
  have "int ((a + x) mod n) = int ((a + y) mod n) \<longleftrightarrow> int (x mod n) = int (y mod n)" by (simp only: zmod_int mod_eq_dvd_iff) simp
  then show ?thesis by simp
qed

definition queue_ok :: "events_state \<Rightarrow> bool" where
  "queue_ok s \<longleftrightarrow> length (events s) = 1024 \<and> unat (first s) < 1024 \<and> unat (last_word s) < 1024"

definition queued :: "events_state \<Rightarrow> nat" where
  "queued s = (unat (last_word s) + 1024 - unat (first s)) mod 1024"

definition contents :: "events_state \<Rightarrow> u32 list" where
  "contents s = map (\<lambda>i. events s ! ((unat (first s) + i) mod 1024)) [0..<queued s]"

lemma length_contents [simp]: "length (contents s) = queued s"
  by (simp add: contents_def)

lemma unat_next_index: "unat (next_index i) = (unat i + 1) mod 1024"
proof -
  have "next_index i = take_bit 10 (i + 1)" by (simp add: next_index_def MAX_EVENTS_def take_bit_eq_mask mask_eq_exp_minus_1)
  then have "unat (next_index i) = unat (i + 1) mod 1024" by (simp add: unsigned_take_bit_eq) (simp add: take_bit_eq_mod)
  also have "\<dots> = (unat i + 1) mod 2 ^ 32 mod 1024" by (simp add: unat_word_ariths)
  also have "\<dots> = (unat i + 1) mod 1024" by (rule mod_mod_cancel) simp
  finally show ?thesis .
qed

lemma wrap_diff:
  fixes l f :: nat
  assumes "l < 1024" and "f < 1024"
  shows "(if int l - int f < 0 then int l - int f + 1024 else int l - int f) = int ((l + 1024 - f) mod 1024)"
proof (cases "l < f")
  case True
  then have "(l + 1024 - f) mod 1024 = l + 1024 - f" by (intro mod_less) linarith
  moreover have "int (l + 1024 - f) = int l - int f + 1024" "int l - int f < 0" using True assms by linarith+
  ultimately show ?thesis by (simp only: if_True)
next
  case False
  then have "l + 1024 - f = (l - f) + 1024" by linarith
  then have "(l + 1024 - f) mod 1024 = (l - f) mod 1024" by (simp only: mod_add_self2)
  also have "\<dots> = l - f" using assms by (intro mod_less) linarith
  finally have "(l + 1024 - f) mod 1024 = l - f" .
  moreover have "int (l - f) = int l - int f" "\<not> int l - int f < 0" using False by linarith+
  ultimately show ?thesis by (simp only: if_False)
qed

lemma enqueued_eq:
  assumes "queue_ok s"
  shows "enqueued s = int (queued s)"
proof -
  let ?l = "unat (last_word s)" and ?f = "unat (first s)"
  have b: "?l < 1024" "?f < 1024" using assms by (simp_all add: queue_ok_def)
  have "last_word s - first s = word_of_int (int ?l - int ?f)" by simp
  then have "sint (last_word s - first s) = signed_take_bit 31 (int ?l - int ?f)" by (simp only: sint_sbintrunc') simp
  also have "\<dots> = int ?l - int ?f"
  proof -
    have "- 2147483648 \<le> int ?l - int ?f" "int ?l - int ?f < 2147483648" using b by linarith+
    then show ?thesis using signed_take_bit_int_eq_self [of 31 "int ?l - int ?f"] by simp
  qed
  finally have d: "sint (last_word s - first s) = int ?l - int ?f" .
  have u: "uint MAX_EVENTS = 1024" by (simp add: MAX_EVENTS_def)
  have e: "enqueued s = (if int ?l - int ?f < 0 then int ?l - int ?f + 1024 else int ?l - int ?f)"
    unfolding enqueued_def d Let_def u ..
  show ?thesis unfolding e queued_def by (rule wrap_diff [OF b])
qed

lemma queued_less [simp]: "queued s < 1024"
  by (simp add: queued_def)

lemma last_index: "queue_ok s \<Longrightarrow> (unat (first s) + queued s) mod 1024 = unat (last_word s)"
proof -
  assume ok: "queue_ok s"
  have "(unat (first s) + queued s) mod 1024 = (unat (first s) + (unat (last_word s) + 1024 - unat (first s))) mod 1024"
    unfolding queued_def by (rule mod_add_right_eq)
  also have "unat (first s) + (unat (last_word s) + 1024 - unat (first s)) = unat (last_word s) + 1024" using ok by (simp add: queue_ok_def)
  finally show ?thesis using ok by (simp add: queue_ok_def)
qed

lemma queued_zero: "queue_ok s \<Longrightarrow> first s = last_word s \<longleftrightarrow> queued s = 0"
proof -
  assume ok: "queue_ok s"
  show ?thesis
  proof
    assume "queued s = 0"
    with last_index [OF ok] ok show "first s = last_word s" by (simp add: queue_ok_def word_unat_eq_iff)
  qed (simp add: queued_def)
qed

text \<open>One more word; a full queue cannot be told from an empty one.\<close>

lemma put_event_ok:
  assumes "queue_ok s"
  shows "\<exists>s'. put_event v s = ret s' \<and> queue_ok s' \<and> contents s' = (if queued s < 1023 then contents s @ [v] else []) \<and>
    driver s' = driver s \<and> ev_irq s' = ev_irq s \<and> first s' = first s"
proof -
  let ?l = "unat (last_word s)" and ?f = "unat (first s)"
  let ?s = "s\<lparr>events := (events s)[?l := v], last_word := next_index (last_word s)\<rparr>"
  have ok: "length (events s) = 1024" "?f < 1024" "?l < 1024" using assms by (simp_all add: queue_ok_def)
  have ok': "queue_ok ?s" using ok by (simp add: queue_ok_def unat_next_index)
  have "queued ?s = ((?l + 1) mod 1024 + (1024 - ?f)) mod 1024"
    using diff_add_assoc [of ?f 1024 "(?l + 1) mod 1024"] ok(2) by (simp add: queued_def unat_next_index)
  also have "\<dots> = (?l + 1 + (1024 - ?f)) mod 1024" by (rule mod_add_left_eq)
  also have "?l + 1 + (1024 - ?f) = (?l + 1024 - ?f) + 1" using ok(2) by simp
  also have "\<dots> mod 1024 = (queued s + 1) mod 1024" unfolding queued_def by (rule mod_add_left_eq [symmetric])
  finally have q: "queued ?s = (queued s + 1) mod 1024" .
  have "contents ?s = contents s @ [v]" if "queued s < 1023"
  proof -
    have ne: "(?f + i) mod 1024 \<noteq> ?l" if i: "i < queued s" for i
    proof
      assume "(?f + i) mod 1024 = ?l"
      then have "(?f + i) mod 1024 = (?f + queued s) mod 1024" using last_index [OF assms] by simp
      then have "i mod 1024 = queued s mod 1024" by (simp only: mod_cancel)
      then show False using i queued_less [of s] by simp
    qed
    have "map (\<lambda>i. (events s)[?l := v] ! ((?f + i) mod 1024)) [0..<queued s] = contents s"
      unfolding contents_def by (rule map_cong) (simp_all add: ne [THEN not_sym])
    then show ?thesis
      using that q ok last_index [OF assms] by (simp add: contents_def [of ?s])
  qed
  moreover have "contents ?s = []" if "\<not> queued s < 1023"
  proof -
    have "queued s = 1023" using that queued_less [of s] by linarith
    then show ?thesis using q by (simp add: contents_def)
  qed
  ultimately show ?thesis using ok ok' by (intro exI [of _ ?s]) (simp add: put_event_def)
qed

lemma dequeue_contents:
  assumes "queue_ok s" and "first s \<noteq> last_word s"
  shows "queue_ok (s\<lparr>first := next_index (first s)\<rparr>)"
    "contents s = events s ! unat (first s) # contents (s\<lparr>first := next_index (first s)\<rparr>)"
proof -
  let ?s = "s\<lparr>first := next_index (first s)\<rparr>" and ?f = "unat (first s)" and ?l = "unat (last_word s)"
  have ok: "length (events s) = 1024" "?f < 1024" "?l < 1024" using assms by (simp_all add: queue_ok_def)
  show ok': "queue_ok ?s" using ok by (simp add: queue_ok_def unat_next_index)
  have pos: "0 < queued s" using assms queued_zero by simp
  have "queued ?s = queued s - 1"
  proof -
    have 1: "((?f + 1) mod 1024 + queued ?s) mod 1024 = ?l" using last_index [OF ok'] by (simp add: unat_next_index)
    have "(?f + 1 + (queued s - 1)) mod 1024 = ?l" using last_index [OF assms(1)] pos by simp
    with 1 have "(?f + 1 + queued ?s) mod 1024 = (?f + 1 + (queued s - 1)) mod 1024" by (simp add: mod_add_left_eq)
    then have "queued ?s mod 1024 = (queued s - 1) mod 1024" by (simp only: mod_cancel)
    then show ?thesis using queued_less [of ?s] queued_less [of s] by simp
  qed
  moreover have "((?f + 1) mod 1024 + i) mod 1024 = (?f + Suc i) mod 1024" for i by (simp add: mod_add_left_eq)
  moreover have "[0..<queued s] = 0 # map Suc [0..<queued s - 1]" using pos by (simp add: upt_conv_Cons map_Suc_upt)
  ultimately show "contents s = events s ! ?f # contents ?s"
    using ok(2) by (simp add: contents_def unat_next_index)
qed

section \<open>The device as a queue\<close>

text \<open>
  The contract of a bounded queue of words into which whole messages are put: \<open>wrds\<close> are the words of a message, and \<open>limit\<close>
  is a length that the queue never reaches.
\<close>

locale message_queue =
  fixes ok :: "'s \<Rightarrow> bool" and abs_queue :: "'s \<Rightarrow> 'w list" and limit :: nat and wrds :: "'m \<Rightarrow> 'w list"
    and put_message :: "'m \<Rightarrow> 's \<Rightarrow> 's comp" and get_word :: "'s \<Rightarrow> ('w \<times> 's) comp"
  assumes put_law: "ok s \<Longrightarrow> length (abs_queue s) + length (wrds m) < limit \<Longrightarrow>
      \<exists>s'. put_message m s = ret s' \<and> ok s' \<and> abs_queue s' = abs_queue s @ wrds m"
    and get_law: "ok s \<Longrightarrow> abs_queue s = w # ws \<Longrightarrow> \<exists>s'. get_word s = ret (w, s') \<and> ok s' \<and> abs_queue s' = ws"
begin

lemma put_all:
  "ok s \<Longrightarrow> length (abs_queue s) + length (concat (map wrds ms)) < limit \<Longrightarrow>
     \<exists>s'. fold (\<lambda>m c. comp_bind c (put_message m)) ms (ret s) = ret s' \<and> ok s' \<and>
       abs_queue s' = abs_queue s @ concat (map wrds ms)"
proof (induction ms arbitrary: s)
  case (Cons m ms)
  then obtain s1 where "put_message m s = ret s1" "ok s1" "abs_queue s1 = abs_queue s @ wrds m"
    using put_law [of s m] by auto
  with Cons.IH [of s1] Cons.prems show ?case by auto
qed auto

text \<open>Reading as many words as there are empties the queue, in order.\<close>

fun get_words :: "nat \<Rightarrow> 's \<Rightarrow> ('w list \<times> 's) comp" where
  "get_words 0 s = ret ([], s)"
| "get_words (Suc n) s = comp_bind (get_word s) (\<lambda>(w, s1). comp_bind (get_words n s1) (\<lambda>(ws, s2). ret (w # ws, s2)))"

lemma get_all:
  "ok s \<Longrightarrow> abs_queue s = ws @ rest \<Longrightarrow>
     \<exists>s'. get_words (length ws) s = ret (ws, s') \<and> ok s' \<and> abs_queue s' = rest"
proof (induction ws arbitrary: s)
  case (Cons w ws)
  then obtain s1 where "get_word s = ret (w, s1)" "ok s1" "abs_queue s1 = ws @ rest" using get_law [of s w "ws @ rest"] by auto
  with Cons.IH [of s1] show ?case by auto
qed auto

end

text \<open>A driver that is listening: the line of the device is up exactly when there is something to read.\<close>

definition events_live :: "events_world \<Rightarrow> bool" where
  "events_live st \<longleftrightarrow> (case st of (s, iw) \<Rightarrow> queue_ok s \<and> ev_irq s < 32 \<and> wired iw \<and> driver s = STATE_LIVE \<and>
     (ev_irq s \<in> lines (int_level (fst iw)) \<longleftrightarrow> contents s \<noteq> []))"

definition event_words :: "u32 \<times> u32 \<times> u32 \<Rightarrow> u32 list" where
  "event_words m = (case m of (t, c, v) \<Rightarrow> [t, c, v])"

lemma put_three:
  assumes "queue_ok s"
  shows "\<exists>s'. (\<forall>x :: int_world.
      comp_bind (put_event a s) (\<lambda>s2. comp_bind (put_event b s2) (\<lambda>s3. comp_bind (put_event c s3) (\<lambda>s4. ret (s4, x)))) = ret (s', x)) \<and>
    queue_ok s' \<and> driver s' = driver s \<and> ev_irq s' = ev_irq s \<and>
    (queued s + 3 < 1024 \<longrightarrow> contents s' = contents s @ [a, b, c]) \<and> (queued s = 1021 \<longrightarrow> contents s' = [])"
proof -
  obtain s1 where 1: "put_event a s = ret s1" "queue_ok s1" "contents s1 = (if queued s < 1023 then contents s @ [a] else [])"
      "driver s1 = driver s" "ev_irq s1 = ev_irq s" using put_event_ok [OF assms] by blast
  obtain s2 where 2: "put_event b s1 = ret s2" "queue_ok s2" "contents s2 = (if queued s1 < 1023 then contents s1 @ [b] else [])"
      "driver s2 = driver s1" "ev_irq s2 = ev_irq s1" using put_event_ok [OF 1(2)] by blast
  obtain s3 where 3: "put_event c s2 = ret s3" "queue_ok s3" "contents s3 = (if queued s2 < 1023 then contents s2 @ [c] else [])"
      "driver s3 = driver s2" "ev_irq s3 = ev_irq s2" using put_event_ok [OF 2(2)] by blast
  have l1: "queued s1 = queued s + 1" if "queued s < 1023" using arg_cong [OF 1(3), of length] that by simp
  have l2: "queued s2 = queued s1 + 1" if "queued s1 < 1023" using arg_cong [OF 2(3), of length] that by simp
  show ?thesis using 1 2 3 l1 l2 by (intro exI [of _ s3]) auto
qed

lemma enqueue_live:
  assumes "events_live (s, iw)"
  shows "\<exists>s' iw'. enqueue_event t c v (s, iw) = ret (s', iw') \<and> ev_irq s' = ev_irq s \<and> queue_ok s' \<and>
    (queued s + 3 < 1024 \<longrightarrow> events_live (s', iw') \<and> contents s' = contents s @ [t, c, v]) \<and>
    (queued s = 1021 \<longrightarrow> contents s' = [] \<and> iw' = iw) \<and> (1021 < queued s \<longrightarrow> s' = s \<and> iw' = iw)"
proof -
  have l: "queue_ok s" "ev_irq s < 32" "wired iw" "driver s = STATE_LIVE" "ev_irq s \<in> lines (int_level (fst iw)) \<longleftrightarrow> contents s \<noteq> []"
    using assms by (simp_all add: events_live_def)
  have u: "uint MAX_EVENTS = 1024" by (simp add: MAX_EVENTS_def)
  have empty: "contents s = [] \<longleftrightarrow> queued s = 0" by (simp flip: length_contents)
  obtain s' where s': "\<And>x. comp_bind (put_event t s) (\<lambda>s2. comp_bind (put_event c s2) (\<lambda>s3. comp_bind (put_event v s3) (\<lambda>s4. ret (s4, x)))) =
      ret (s', x :: int_world)" "queue_ok s'" "driver s' = driver s" "ev_irq s' = ev_irq s"
      "queued s + 3 < 1024 \<longrightarrow> contents s' = contents s @ [t, c, v]" "queued s = 1021 \<longrightarrow> contents s' = []"
    using put_three [OF l(1), of t c v] by metis
  consider "1021 < queued s" | "queued s \<le> 1021" "queued s \<noteq> 0" | "queued s = 0" by linarith
  then show ?thesis
  proof cases
    case 1
    then show ?thesis using l(1) by (auto simp: enqueue_event_def enqueued_eq [OF l(1)] u)
  next
    case 2
    then have "first s \<noteq> last_word s" using queued_zero [OF l(1)] by simp
    then have "enqueue_event t c v (s, iw) = ret (s', iw)" using 2 s'(1) by (simp add: enqueue_event_def enqueued_eq [OF l(1)] u)
    with 2 s' l empty show ?thesis by (auto simp: events_live_def)
  next
    case 3
    obtain p w where iw: "iw = (p, w)" by fastforce
    obtain p' w' where i: "goldfish_int_set_irq (ev_irq s) True (p, w) = ret (p', w')" "wired (p', w')"
        "lines (int_level p') = insert (ev_irq s) (lines (int_level p))"
      using set_irq_wired [of p w "ev_irq s" True] l(2,3) iw by auto
    have "first s = last_word s" using queued_zero [OF l(1)] 3 by simp
    then have "enqueue_event t c v (s, iw) = ret (s', (p', w'))"
      using 3 s'(1) l(4) i(1) by (simp add: enqueue_event_def enqueued_eq [OF l(1)] u iw)
    with 3 s' l i show ?thesis by (auto simp: events_live_def)
  qed
qed

lemma dequeue_live:
  assumes "events_live (s, iw)" and "contents s = x # xs"
  shows "\<exists>s' iw'. dequeue_event (s, iw) = ret (x, (s', iw')) \<and> events_live (s', iw') \<and> contents s' = xs \<and> ev_irq s' = ev_irq s"
proof -
  let ?s = "s\<lparr>first := next_index (first s)\<rparr>"
  have l: "queue_ok s" "ev_irq s < 32" "wired iw" "driver s = STATE_LIVE" "ev_irq s \<in> lines (int_level (fst iw))"
    using assms by (simp_all add: events_live_def)
  have "queued s \<noteq> 0" using arg_cong [OF assms(2), of length] by simp
  then have ne: "first s \<noteq> last_word s" using queued_zero [OF l(1)] by simp
  have d: "queue_ok ?s" "x = events s ! unat (first s)" "contents ?s = xs" using dequeue_contents [OF l(1) ne] assms(2) by simp_all
  have b: "unat (first s) < length (events s)" using l(1) by (simp add: queue_ok_def)
  have z: "next_index (first s) = last_word s \<longleftrightarrow> xs = []"
    using queued_zero [OF d(1)] arg_cong [OF d(3), of length] by auto
  obtain p w where iw: "iw = (p, w)" by fastforce
  show ?thesis
  proof (cases "xs = []")
    case True
    obtain p' w' where i: "goldfish_int_set_irq (ev_irq s) False (p, w) = ret (p', w')" "wired (p', w')"
        "lines (int_level p') = lines (int_level p) - {ev_irq s}"
      using set_irq_wired [of p w "ev_irq s" False] l(2,3) iw by auto
    then have "dequeue_event (s, iw) = ret (x, (?s, (p', w')))" using ne b z True d(2) by (simp add: dequeue_event_def iw)
    with True l d i show ?thesis by (auto simp: events_live_def)
  next
    case False
    then have "dequeue_event (s, iw) = ret (x, (?s, iw))" using ne b z d(2) by (simp add: dequeue_event_def)
    with False l d show ?thesis by (auto simp: events_live_def)
  qed
qed

interpretation ev: message_queue events_live "\<lambda>st. contents (fst st)" 1024 event_words
  "\<lambda>(t, c, v). enqueue_event t c v" dequeue_event
proof (unfold_locales, goal_cases)
  case (1 st m)
  then show ?case using enqueue_live [of "fst st" "snd st"] by (cases m; cases st) (fastforce simp: event_words_def)
next
  case (2 st w ws)
  then show ?case using dequeue_live [of "fst st" "snd st"] by (cases st) fastforce
qed

section \<open>Properties\<close>

text \<open>What the kernel gets by reading the event register a number of times.\<close>

fun read_events :: "nat \<Rightarrow> events_world \<Rightarrow> (u32 list \<times> events_world) comp" where
  "read_events 0 st = ret ([], st)"
| "read_events (Suc n) st =
     comp_bind (events_read REG_READ st) (\<lambda>(w, st1). comp_bind (read_events n st1) (\<lambda>(ws, st2). ret (w # ws, st2)))"

lemma events_read_dequeues: "events_read REG_READ st = dequeue_event st"
  by (cases st) (simp add: events_read_def REG_READ_def REG_LEN_def)

lemma read_events_words: "read_events n st = ev.get_words n st"
  by (induction n arbitrary: st) (simp_all add: events_read_dequeues)

lemma enqueue_all_fold: "fold (\<lambda>m c. comp_bind c (case m of (t, c, v) \<Rightarrow> enqueue_event t c v)) ms c = comp_bind c (enqueue_all ms)"
proof (induction ms arbitrary: c)
  case Nil
  show ?case by (cases c rule: comp_cases) auto
next
  case (Cons m ms)
  then show ?case by (cases m) (simp add: comp_bind_assoc)
qed

text \<open>
  C24. The kernel gets every event, in order: events put into the queue of a listening driver while fewer than 1024 words are in it
  follow those that were there, and reading the event register once per word returns all of them in the order in which they were put,
  leaves the queue empty and lowers the interrupt line of the device, which is up as long as there is something to read.
\<close>

theorem event_queue_order:
  assumes "events_live (s, iw)" and "queued s + 3 * length ms < 1024"
  shows "\<exists>st' s'' iw''. enqueue_all ms (s, iw) = ret st' \<and> events_live st' \<and>
    contents (fst st') = contents s @ concat (map event_words ms) \<and>
    read_events (queued s + 3 * length ms) st' = ret (contents s @ concat (map event_words ms), (s'', iw'')) \<and>
    contents s'' = [] \<and> events_live (s'', iw'') \<and> ev_irq s'' \<notin> lines (int_level (fst iw''))"
proof -
  have l: "length (concat (map event_words ms)) = 3 * length ms" by (induction ms) (auto simp: event_words_def)
  obtain st' where st': "enqueue_all ms (s, iw) = ret st'" "events_live st'"
      "contents (fst st') = contents s @ concat (map event_words ms)"
    using ev.put_all [OF assms(1), of ms] assms(2) l enqueue_all_fold [of ms "ret (s, iw)"] by auto
  have "length (contents s @ concat (map event_words ms)) = queued s + 3 * length ms" using l by simp
  then obtain st'' where "read_events (queued s + 3 * length ms) st' = ret (contents s @ concat (map event_words ms), st'')"
      "events_live st''" "contents (fst st'') = []"
    using ev.get_all [OF st'(2), of "contents s @ concat (map event_words ms)" "[]"] st'(3) by (auto simp: read_events_words)
  then show ?thesis using st' by (cases st'') (auto simp: events_live_def)
qed

definition listening :: events_world where
  "listening = ((events_dev_init \<lparr>hw_dPad = True, hw_trackBall = False, hw_touchScreen = True, hw_camera = False, hw_keyboard = True,
     hw_keyboard_lid = False, hw_lcd_width = 320, hw_lcd_height = 480, hw_keyboard_charmap = ''qwerty2''\<rparr> 10)\<lparr>driver := STATE_LIVE\<rparr>,
     goldfish_interrupt_init (Some ARM_PIC_CPU_IRQ) (Some ARM_PIC_CPU_FIQ), traced_example)"

lemma listening_live: "events_live listening" "contents (fst listening) = []" "queued (fst listening) = 0"
proof -
  have f: "first (fst listening) = 0" "last_word (fst listening) = 0" "length (events (fst listening)) = 1024" "ev_irq (fst listening) = 10"
    "driver (fst listening) = STATE_LIVE" "interrupt_request (cpu traced_example) = 0" by code_simp+
  show c: "contents (fst listening) = []" "queued (fst listening) = 0" by (simp_all add: contents_def queued_def f)
  have "snd listening = (goldfish_interrupt_init (Some ARM_PIC_CPU_IRQ) (Some ARM_PIC_CPU_FIQ), traced_example)"
    by (simp add: listening_def)
  then have "events_live (fst listening, snd listening)"
    using c(1) f by (simp add: events_live_def queue_ok_def wired_def goldfish_interrupt_init_def lines_simps(1))
  then show "events_live listening" by simp
qed

theorem event_queue_order_witness:
  "\<exists>st' st''. enqueue_all [(1, 102, 1), (1, 102, 0)] listening = ret st' \<and> read_events 6 st' = ret ([1, 102, 1, 1, 102, 0], st'')"
proof -
  have "events_live (fst listening, snd listening)" using listening_live(1) by simp
  from event_queue_order [OF this, of "[(1, 102, 1), (1, 102, 0)]"] listening_live(2,3) show ?thesis
    by (simp add: event_words_def del: enqueue_all.simps) blast
qed

text \<open>
  One event too many empties the queue: the test for room compares with the size of the array, but a queue of that size looks
  empty. When 1021 words are queued, the next event is accepted and all 1024 words are lost, with the interrupt line still up; a
  read then returns 0 and does not lower the line. With more words queued the event is dropped, as intended.
\<close>

theorem event_queue_overflow:
  assumes "events_live (s, iw)"
  shows "(queued s = 1021 \<longrightarrow> (\<exists>s'. enqueue_event t c v (s, iw) = ret (s', iw) \<and> contents s' = [] \<and>
      ev_irq s' \<in> lines (int_level (fst iw)) \<and> events_read REG_READ (s', iw) = ret (0, (s', iw)))) \<and>
    (1021 < queued s \<longrightarrow> enqueue_event t c v (s, iw) = ret (s, iw))"
proof -
  obtain s' iw' where e: "enqueue_event t c v (s, iw) = ret (s', iw')" "ev_irq s' = ev_irq s" "queue_ok s'"
      "queued s = 1021 \<longrightarrow> contents s' = [] \<and> iw' = iw" "1021 < queued s \<longrightarrow> s' = s \<and> iw' = iw"
    using enqueue_live [OF assms, of t c v] by blast
  have "ev_irq s \<in> lines (int_level (fst iw))" if "queued s = 1021"
  proof -
    have "contents s \<noteq> []" using that length_contents [of s] by (cases "contents s") simp_all
    then show ?thesis using assms by (simp add: events_live_def)
  qed
  moreover have "events_read REG_READ (s', iw) = ret (0, (s', iw))" if "queued s = 1021"
  proof -
    have "queued s' = 0" using e(4) that length_contents [of s'] by simp
    then show ?thesis using queued_zero [OF e(3)] by (simp add: events_read_dequeues dequeue_event_def)
  qed
  ultimately show ?thesis using e by auto
qed

definition nearly_full :: events_world where
  "nearly_full = ((fst listening)\<lparr>last_word := 1021\<rparr>,
     (goldfish_interrupt_init (Some ARM_PIC_CPU_IRQ) (Some ARM_PIC_CPU_FIQ))\<lparr>int_level := 0x400\<rparr>, traced_example)"

theorem event_queue_overflow_witness:
  "\<exists>s'. enqueue_event 1 102 1 nearly_full = ret (s', snd nearly_full) \<and> contents s' = [] \<and> contents (fst nearly_full) \<noteq> []"
proof -
  let ?s = "fst nearly_full" and ?iw = "snd nearly_full"
  have f: "first ?s = 0" "last_word ?s = 1021" "length (events ?s) = 1024" "ev_irq ?s = 10" "driver ?s = STATE_LIVE"
    "interrupt_request (cpu traced_example) = 0" by code_simp+
  have q: "queued ?s = 1021" by (simp add: queued_def f)
  then have c: "contents ?s \<noteq> []" using length_contents [of ?s] by (cases "contents ?s") simp_all
  have 400: "lines 0x400 = {10}" using lines_simps(4) [of 10] by simp
  have "?iw = ((goldfish_interrupt_init (Some ARM_PIC_CPU_IRQ) (Some ARM_PIC_CPU_FIQ))\<lparr>int_level := 0x400\<rparr>, traced_example)"
    by (simp add: nearly_full_def)
  then have "events_live (?s, ?iw)"
    using c f by (simp add: events_live_def queue_ok_def wired_def goldfish_interrupt_init_def lines_simps(1) 400)
  from event_queue_overflow [OF this, of 1 102 1] q c show ?thesis by auto
qed

section \<open>Event codes\<close>

definition has_code :: "u8 list \<Rightarrow> nat \<Rightarrow> bool" where
  "has_code bits j \<longleftrightarrow> j div 8 < length bits \<and> bit (bits ! (j div 8)) (j mod 8)"

lemma fill_bytes_nth:
  "i + n \<le> length bits \<Longrightarrow> length (fill_bytes i n bits) = length bits \<and>
     (\<forall>k<length bits. fill_bytes i n bits ! k = (if i \<le> k \<and> k < i + n then 0xFF else bits ! k))"
  by (induction i n bits rule: fill_bytes.induct) (auto simp: nth_list_update)

lemma mask_bits: "l < 8 \<Longrightarrow> k < 8 \<Longrightarrow> bit (push_bit l 0xFF :: u8) k \<longleftrightarrow> l \<le> k"
  "h < 8 \<Longrightarrow> k < 8 \<Longrightarrow> bit (drop_bit (7 - h) 0xFF :: u8) k \<longleftrightarrow> k \<le> h" "k < 8 \<Longrightarrow> bit (0xFF :: u8) k"
proof -
  have ff: "(0xFF :: u8) = mask 8" by (simp add: mask_eq_exp_minus_1)
  show "l < 8 \<Longrightarrow> k < 8 \<Longrightarrow> bit (push_bit l 0xFF :: u8) k \<longleftrightarrow> l \<le> k"
    "h < 8 \<Longrightarrow> k < 8 \<Longrightarrow> bit (drop_bit (7 - h) 0xFF :: u8) k \<longleftrightarrow> k \<le> h" "k < 8 \<Longrightarrow> bit (0xFF :: u8) k"
    unfolding ff by (auto simp: bit_simps)
qed

lemma le_div_mod_8: "(x :: nat) \<le> y \<longleftrightarrow> x div 8 < y div 8 \<or> x div 8 = y div 8 \<and> x mod 8 \<le> y mod 8"
proof -
  have "8 * p + r \<le> 8 * q + t \<longleftrightarrow> p < q \<or> p = q \<and> r \<le> t" if "r < 8" "t < 8" for p q r t :: nat using that by linarith
  from this [of "x mod 8" "y mod 8" "x div 8" "y div 8"] show ?thesis by simp
qed

text \<open>Room for more bytes does not add codes.\<close>

lemma has_code_zeros: "has_code (bits @ replicate n 0) j \<longleftrightarrow> has_code bits j"
  by (auto simp: has_code_def nth_append)

text \<open>The bytes that \<open>set_bits\<close> writes: the first, those between, and the last.\<close>

lemma set_bits_bytes:
  fixes bits :: "u8 list"
  assumes "b < length bits" and "a \<le> b" and "l < 8" and "h < 8" and "r < 8"
  defines "maskl \<equiv> push_bit l 0xFF :: u8" and "maskh \<equiv> drop_bit (7 - h) 0xFF :: u8"
  defines "bits1 \<equiv> fill_bytes (a + 1) (b - a - 1) (bits[a := bits ! a OR maskl])"
  defines "res \<equiv> (if b \<le> a then bits[b := bits ! b OR (maskh AND maskl)] else bits1[b := bits1 ! b OR maskh])"
  shows "q < length res \<and> bit (res ! q) r \<longleftrightarrow>
    q < length bits \<and> bit (bits ! q) r \<or> (a < q \<or> a = q \<and> l \<le> r) \<and> (q < b \<or> q = b \<and> r \<le> h)"
proof -
  have m: "bit maskl r \<longleftrightarrow> l \<le> r" "bit maskh r \<longleftrightarrow> r \<le> h" "bit (0xFF :: u8) r"
    unfolding maskl_def maskh_def using assms(3-5) by (simp_all only: mask_bits)
  show ?thesis
  proof (cases "b \<le> a")
    case True
    then have ab: "a = b" using assms(2) by simp
    have "length res = length bits" "q < length bits \<Longrightarrow> res ! q = (if q = b then bits ! b OR (maskh AND maskl) else bits ! q)"
      using True by (simp_all add: res_def nth_list_update)
    then show ?thesis using assms(1) m by (cases "q = b") (auto simp: ab bit_or_iff bit_and_iff)
  next
    case False
    then have ab: "a < b" "a + 1 + (b - a - 1) = b" by simp_all
    have f: "length bits1 = length bits"
        "k < length bits \<Longrightarrow> bits1 ! k = (if a < k \<and> k < b then 0xFF else if k = a then bits ! a OR maskl else bits ! k)" for k
      unfolding bits1_def using fill_bytes_nth [of "a + 1" "b - a - 1" "bits[a := bits ! a OR maskl]"] assms(1) ab
      by (auto simp: nth_list_update)
    have r: "length res = length bits" "q < length bits \<Longrightarrow> res ! q = (if q = b then bits1 ! b OR maskh else bits1 ! q)"
      using False f(1) by (simp_all add: res_def nth_list_update)
    consider "q < a" | "q = a" | "a < q" "q < b" | "q = b" | "b < q" by linarith
    then show ?thesis using r f(2) [of q] f(2) [of b] assms(1) ab(1) m by cases (auto simp: bit_or_iff)
  qed
qed

lemma set_bits_has_code:
  assumes "bitl \<le> bith"
  shows "has_code (set_bits bitl bith bits0) j \<longleftrightarrow> has_code bits0 j \<or> bitl \<le> j \<and> j \<le> bith"
proof -
  define bits where "bits = (if length bits0 \<le> bith div 8 then bits0 @ replicate (bith div 8 + 1 - length bits0) 0 else bits0)"
  have len: "bith div 8 < length bits" by (simp add: bits_def)
  have codes: "has_code bits j = has_code bits0 j" by (simp add: bits_def has_code_zeros)
  have il: "bitl div 8 \<le> bith div 8" using assms by (rule div_le_mono)
  have "has_code (set_bits bitl bith bits0) j \<longleftrightarrow> has_code bits j \<or>
      (bitl div 8 < j div 8 \<or> bitl div 8 = j div 8 \<and> bitl mod 8 \<le> j mod 8) \<and>
      (j div 8 < bith div 8 \<or> j div 8 = bith div 8 \<and> j mod 8 \<le> bith mod 8)"
    unfolding has_code_def set_bits_def Let_def bits_def [symmetric]
    by (rule set_bits_bytes [OF len il]) simp_all
  then show ?thesis by (simp only: codes le_div_mod_8 [of bitl j] le_div_mod_8 [of j bith])
qed

lemma clr_bit_has_code:
  "has_code (ev_bits (events_clr_bit ty b s) ty) j \<longleftrightarrow> has_code (ev_bits s ty) j \<and> j \<noteq> b"
proof -
  define q r q' r' where d: "q = j div 8" "r = j mod 8" "q' = b div 8" "r' = b mod 8"
  have e: "j = b \<longleftrightarrow> q = q' \<and> r = r'" unfolding d by (metis div_mult_mod_eq)
  have r: "r < 8" "r' < 8" by (simp_all add: d)
  have "bit (w AND NOT (push_bit r' 1) :: u8) r \<longleftrightarrow> bit w r \<and> r \<noteq> r'" for w using r by (auto simp: bit_simps)
  then show ?thesis
    unfolding events_clr_bit_def has_code_def Let_def e d [symmetric] by (simp add: nth_list_update)
qed

text \<open>
  The pages that announce event codes: \<open>events_set_bits\<close> adds exactly the codes of its range to the page of its type,
  \<open>events_clr_bit\<close> removes exactly one, and no other page changes. The kernel reads the length of a page and then its bytes; one
  read further, at the length itself, is not caught and leaves the array (or follows a null pointer when the page is empty), beyond
  that reads return 0.
\<close>

theorem event_code_pages:
  assumes "ty \<le> EV_MAX" and "bitl \<le> bith"
  shows "(\<forall>j. has_code (ev_bits (events_set_bits ty bitl bith s) ty) j \<longleftrightarrow> has_code (ev_bits s ty) j \<or> bitl \<le> j \<and> j \<le> bith) \<and>
    (\<forall>j. has_code (ev_bits (events_clr_bit ty b s) ty) j \<longleftrightarrow> has_code (ev_bits s ty) j \<and> j \<noteq> b) \<and>
    (\<forall>t. t \<noteq> ty \<longrightarrow> ev_bits (events_set_bits ty bitl bith s) t = ev_bits s t \<and> ev_bits (events_clr_bit ty b s) t = ev_bits s t) \<and>
    (let s' = s\<lparr>ev_page := PAGE_EVBITS + int ty\<rparr>; bits = ev_bits s ty in
     get_page_len s' = int (length bits) \<and> (\<forall>i<length bits. get_page_data s' i = ret (ucast (bits ! i))) \<and>
     get_page_data s' (length bits) = raise (if bits = [] then NullDeref else OutOfBounds) \<and>
     (\<forall>i>length bits. get_page_data s' i = ret 0))"
proof -
  let ?s = "s\<lparr>ev_page := PAGE_EVBITS + int ty\<rparr>" and ?bits = "ev_bits s ty"
  have pg: "ev_page ?s \<noteq> PAGE_NAME" "PAGE_EVBITS \<le> ev_page ?s \<and> ev_page ?s \<le> PAGE_EVBITS + int EV_MAX"
      "nat (ev_page ?s - PAGE_EVBITS) = ty"
    using assms(1) by (simp_all add: PAGE_EVBITS_def PAGE_NAME_def)
  have len: "get_page_len ?s = int (length ?bits)" using pg by (simp add: get_page_len_def)
  have data: "get_page_data ?s i = (if length ?bits < i then ret 0 else if ?bits = [] then raise NullDeref
      else if i < length ?bits then ret (ucast (?bits ! i)) else raise OutOfBounds)" for i
    using pg by (simp add: get_page_data_def len Let_def)
  have "\<forall>t. t \<noteq> ty \<longrightarrow> ev_bits (events_set_bits ty bitl bith s) t = ev_bits s t \<and> ev_bits (events_clr_bit ty b s) t = ev_bits s t"
    by (simp add: events_set_bits_def events_clr_bit_def Let_def)
  moreover have "has_code (ev_bits (events_set_bits ty bitl bith s) ty) j \<longleftrightarrow> has_code (ev_bits s ty) j \<or> bitl \<le> j \<and> j \<le> bith" for j
    by (simp add: events_set_bits_def set_bits_has_code [OF assms(2)])
  ultimately show ?thesis using clr_bit_has_code len data by (auto simp: Let_def)
qed

theorem event_code_pages_witness:
  "(\<forall>j. has_code (ev_bits (events_set_bits EV_KEY 1 0xFF (fst listening)) EV_KEY) j \<longleftrightarrow> has_code (ev_bits (fst listening) EV_KEY) j \<or> 1 \<le> j \<and> j \<le> 0xFF) \<and>
   has_code (ev_bits (fst listening) EV_KEY) 102 \<and> \<not> has_code (ev_bits (fst listening) EV_KEY) 0x110"
proof -
  have "has_code (ev_bits (fst listening) EV_KEY) 102" "\<not> has_code (ev_bits (fst listening) EV_KEY) 0x110" by code_simp+
  then show ?thesis using event_code_pages [of EV_KEY 1 "0xFF" "fst listening" 0] by (simp add: EV_KEY_def EV_MAX_def)
qed

end
