(* ===== verification/Phys_Map.thy ===== *)
theory Phys_Map
  imports Io_Memory
begin

text \<open>
  The map of the physical address space (\<open>src/qemu/exec.c\<close>): the two-level table of page descriptors, the registration of RAM
  and I/O regions, and the pages shared by several regions (\<open>subpage_t\<close>). Without KVM; \<open>log_dirty\<close>, which the code does not use, is
  left out.
\<close>

section \<open>Page descriptors\<close>

definition L2_BITS :: nat where "L2_BITS = 10"
definition L1_BITS :: nat where "L1_BITS = 32 - L2_BITS - TARGET_PAGE_BITS"
definition L1_SIZE :: u32 where "L1_SIZE = push_bit L1_BITS 1"
definition L2_SIZE :: u32 where "L2_SIZE = push_bit L2_BITS 1"

type_synonym phys_table = "nat \<Rightarrow> (nat \<Rightarrow> PhysPageDesc) option"

definition l1_index :: "u32 \<Rightarrow> nat" where
  "l1_index index = unat (drop_bit L2_BITS index AND (L1_SIZE - 1))"

definition l2_index :: "u32 \<Rightarrow> nat" where
  "l2_index index = unat (index AND (L2_SIZE - 1))"

definition new_descs :: "u32 \<Rightarrow> nat \<Rightarrow> PhysPageDesc" where
  "new_descs index i = \<lparr>phys_offset = IO_MEM_UNASSIGNED, region_offset = ucast (push_bit TARGET_PAGE_BITS (index + of_nat i))\<rparr>"

text \<open>The returned pointer is the descriptor of \<open>index\<close> in the returned table.\<close>

definition phys_page_find_alloc :: "u32 \<Rightarrow> bool \<Rightarrow> phys_table \<Rightarrow> PhysPageDesc option \<times> phys_table" where
  "phys_page_find_alloc index alloc l1 =
     (case l1 (l1_index index) of
        Some pd \<Rightarrow> (Some (pd (l2_index index)), l1)
      | None \<Rightarrow> if \<not> alloc then (None, l1)
                else (Some (new_descs index (l2_index index)), l1(l1_index index \<mapsto> new_descs index)))"

definition find_page :: "phys_table \<Rightarrow> u32 \<Rightarrow> PhysPageDesc option" where
  "find_page l1 index = fst (phys_page_find_alloc index False l1)"

text \<open>A write through the pointer that \<open>phys_page_find\<close> returned.\<close>

definition put_page :: "u32 \<Rightarrow> PhysPageDesc \<Rightarrow> phys_table \<Rightarrow> phys_table" where
  "put_page index d l1 = (case l1 (l1_index index) of None \<Rightarrow> l1 | Some pd \<Rightarrow> l1(l1_index index \<mapsto> pd(l2_index index := d)))"

section \<open>Pages shared by several regions\<close>

definition IO_MEM_SUBPAGE :: u64 where "IO_MEM_SUBPAGE = 2"

text \<open>
  An entry of \<open>mem_read\<close> or \<open>mem_write\<close> points to a slot of the I/O table: the zone, with the region offset. Its function and
  its \<open>opaque\<close> are those of the zone.
\<close>

record subpage_t =
  sub_base :: u32
  mem_read :: "nat \<Rightarrow> nat \<Rightarrow> (nat \<times> u64) option"
  mem_write :: "nat \<Rightarrow> nat \<Rightarrow> (nat \<times> u64) option"

text \<open>A function of the I/O table is that of a device or that of a shared page, with the page as its \<open>opaque\<close>.\<close>

datatype 'f handler = Device 'f | Subpage nat

record 'd memory_map =
  l1_phys_map :: phys_table
  registry :: "('d read_fn handler, 'd write_fn handler) io_registry"
  subpages :: "subpage_t list"

definition SUBPAGE_IDX :: "u32 \<Rightarrow> nat" where
  "SUBPAGE_IDX addr = unat (addr AND NOT TARGET_PAGE_MASK)"

definition subpage_register :: "u32 \<Rightarrow> u32 \<Rightarrow> u64 \<Rightarrow> u64 \<Rightarrow> ('r, 'w) io_registry \<Rightarrow> subpage_t \<Rightarrow> subpage_t comp" where
  "subpage_register start end_addr memory region r mmio =
     (if TARGET_PAGE_SIZE \<le> start \<or> TARGET_PAGE_SIZE \<le> end_addr then ret mmio
      else let idx = SUBPAGE_IDX start; eidx = SUBPAGE_IDX end_addr; m = unat (drop_bit IO_MEM_SHIFT memory) in
        if idx \<le> eidx \<and> nb_entries \<le> m then raise OutOfBounds
        else ret (mmio
          \<lparr>mem_read := (\<lambda>j i. if idx \<le> j \<and> j \<le> eidx \<and> i < 4 \<and> zone_read r m i \<noteq> None then Some (m, region) else mem_read mmio j i),
           mem_write := (\<lambda>j i. if idx \<le> j \<and> j \<le> eidx \<and> i < 4 \<and> zone_write r m i \<noteq> None then Some (m, region) else mem_write mmio j i)\<rparr>))"

text \<open>The new page, the code for its descriptor and the map; the code is -1 when no zone is free.\<close>

definition subpage_init :: "u32 \<Rightarrow> u64 \<Rightarrow> u64 \<Rightarrow> 'd memory_map \<Rightarrow> (nat \<times> u64 \<times> 'd memory_map) comp" where
  "subpage_init base orig_memory region mm =
     (let sp = length (subpages mm);
          (code, r) = cpu_register_io_memory (\<lambda>_. Some (Subpage sp)) (\<lambda>_. Some (Subpage sp)) (registry mm)
      in comp_bind (subpage_register 0 (TARGET_PAGE_SIZE - 1) orig_memory region r
             \<lparr>sub_base = base, mem_read = (\<lambda>_ _. None), mem_write = (\<lambda>_ _. None)\<rparr>) (\<lambda>mmio.
         ret (sp, of_int code OR IO_MEM_SUBPAGE, mm\<lparr>registry := r, subpages := subpages mm @ [mmio]\<rparr>)))"

definition with_subpage :: "nat \<Rightarrow> (subpage_t \<Rightarrow> subpage_t comp) \<Rightarrow> 'd memory_map \<Rightarrow> 'd memory_map comp" where
  "with_subpage sp f mm = comp_bind (f (subpages mm ! sp)) (\<lambda>mmio. ret (mm\<lparr>subpages := (subpages mm)[sp := mmio]\<rparr>))"

text \<open>
  \<open>io_mem_opaque\<close> of the zone of a descriptor. A zone that is not one of a shared page has the state of a device there; its bytes
  would be overwritten.
\<close>

definition subpage_of_code :: "u64 \<Rightarrow> 'd memory_map \<Rightarrow> nat comp" where
  "subpage_of_code code mm =
     (case zone_read (registry mm) (unat (drop_bit IO_MEM_SHIFT (low_bits_u64 code))) 0 of
        Some (Subpage sp) \<Rightarrow> ret sp | _ \<Rightarrow> raise OutOfBounds)"

section \<open>Registration\<close>

definition CHECK_SUBPAGE :: "u32 \<Rightarrow> u32 \<Rightarrow> u64 \<Rightarrow> u32 \<times> u32 \<times> bool" where
  "CHECK_SUBPAGE addr start_addr orig_size =
     (let (start2, need1) = (if start_addr < addr then (0, False)
            else let s = start_addr AND NOT TARGET_PAGE_MASK in (s, 0 < s));
          (end2, need2) = (if ucast TARGET_PAGE_SIZE \<le> (ucast start_addr + orig_size) - ucast addr then (TARGET_PAGE_SIZE - 1, False)
            else let e = ucast (low_bits_u64 (ucast start_addr + orig_size - 1)) in (e, e < TARGET_PAGE_SIZE - 1))
      in (start2, end2, need1 \<or> need2))"

definition is_memory :: "u64 \<Rightarrow> bool" where
  "is_memory pd \<longleftrightarrow> low_bits_u64 pd \<le> IO_MEM_ROM \<or> pd AND IO_MEM_ROMD \<noteq> 0"

text \<open>The region becomes part of the shared page \<open>sp\<close>, and the descriptor its code.\<close>

definition share_page :: "u32 \<Rightarrow> u32 \<Rightarrow> u64 \<Rightarrow> u64 \<Rightarrow> u32 \<Rightarrow> nat \<times> u64 \<times> 'd memory_map \<Rightarrow> 'd memory_map comp" where
  "share_page start2 end2 offs region index st =
     (case st of (sp, code, mm) \<Rightarrow>
        comp_bind (with_subpage sp (subpage_register start2 end2 offs region (registry mm)) mm) (\<lambda>mm1.
          ret (mm1\<lparr>l1_phys_map := put_page index \<lparr>phys_offset = code, region_offset = 0\<rparr> (l1_phys_map mm1)\<rparr>)))"

definition next_offset :: "u64 \<Rightarrow> u64" where
  "next_offset offs = (if is_memory offs then offs + ucast TARGET_PAGE_SIZE else offs)"

text \<open>A page without a region.\<close>

definition assign_page :: "u32 \<Rightarrow> u64 \<Rightarrow> u32 \<Rightarrow> u64 \<Rightarrow> u64 \<Rightarrow> 'd memory_map \<Rightarrow> (u64 \<times> 'd memory_map) comp" where
  "assign_page start_addr orig_size addr offs region mm =
     (let index = drop_bit TARGET_PAGE_BITS addr;
          l1 = snd (phys_page_find_alloc index True (l1_phys_map mm));
          mm1 = mm\<lparr>l1_phys_map := put_page index \<lparr>phys_offset = offs, region_offset = region\<rparr> l1\<rparr>;
          (start2, end2, need) = CHECK_SUBPAGE addr start_addr orig_size
      in if is_memory offs \<or> \<not> need then ret (next_offset offs, mm1)
         else comp_bind (comp_bind (subpage_init (addr AND TARGET_PAGE_MASK) IO_MEM_UNASSIGNED (ucast (addr AND TARGET_PAGE_MASK)) mm1)
                (share_page start2 end2 offs region index)) (\<lambda>mm2. ret (offs, mm2)))"

text \<open>One round of the loop: the offset for the next page and the map. A page that is assigned keeps its region offset.\<close>

definition register_page :: "u32 \<Rightarrow> u64 \<Rightarrow> u32 \<Rightarrow> u64 \<Rightarrow> u64 \<Rightarrow> 'd memory_map \<Rightarrow> (u64 \<times> 'd memory_map) comp" where
  "register_page start_addr orig_size addr offs region mm =
     (let index = drop_bit TARGET_PAGE_BITS addr;
          (start2, end2, need) = CHECK_SUBPAGE addr start_addr orig_size
      in case find_page (l1_phys_map mm) index of
           Some p \<Rightarrow>
             if phys_offset p \<noteq> IO_MEM_UNASSIGNED then
               (if need then
                  comp_bind (comp_bind
                    (if phys_offset p AND IO_MEM_SUBPAGE = 0
                     then subpage_init (addr AND TARGET_PAGE_MASK) (phys_offset p) (region_offset p) mm
                     else comp_bind (subpage_of_code (phys_offset p) mm) (\<lambda>sp. ret (sp, phys_offset p, mm)))
                    (share_page start2 end2 offs region index)) (\<lambda>mm1. ret (offs, mm1))
                else ret (next_offset offs, mm\<lparr>l1_phys_map := put_page index (p\<lparr>phys_offset := offs\<rparr>) (l1_phys_map mm)\<rparr>))
             else assign_page start_addr orig_size addr offs region mm
         | None \<Rightarrow> assign_page start_addr orig_size addr offs region mm)"

partial_function (option) register_pages ::
  "u32 \<Rightarrow> u64 \<Rightarrow> u32 \<Rightarrow> u32 \<Rightarrow> u64 \<Rightarrow> u64 \<Rightarrow> 'd memory_map \<Rightarrow> 'd memory_map comp" where
  "register_pages start_addr orig_size end_addr addr offs region mm =
     comp_bind (register_page start_addr orig_size addr offs region mm) (\<lambda>r.
       case r of (offs1, mm1) \<Rightarrow>
         if addr + TARGET_PAGE_SIZE = end_addr then ret mm1
         else register_pages start_addr orig_size end_addr (addr + TARGET_PAGE_SIZE) offs1 (region + ucast TARGET_PAGE_SIZE) mm1)"

definition cpu_register_physical_memory_offset :: "u32 \<Rightarrow> u64 \<Rightarrow> u64 \<Rightarrow> u64 \<Rightarrow> 'd memory_map \<Rightarrow> 'd memory_map comp" where
  "cpu_register_physical_memory_offset start_addr sz offs region mm =
     (let region1 = page_of_u64 (if offs = IO_MEM_UNASSIGNED then ucast start_addr else region);
          size1 = page_of_u64 (sz + ucast TARGET_PAGE_SIZE - 1)
      in register_pages start_addr sz (start_addr + ucast size1) start_addr offs region1 mm)"

text \<open>The system sees the new map; every processor flushes its TLB.\<close>

definition use_map :: "'d memory_map \<Rightarrow> 'd system \<Rightarrow> 'd system" where
  "use_map mm s =
     (let s1 = s\<lparr>mach := (mach s)\<lparr>phys_page_find := find_page (l1_phys_map mm)\<rparr>\<rparr>
      in put_host (system.host s) (put_cpu (tlb_flush (cpu (world s))) s1))"

definition cpu_register_physical_memory_log ::
  "u32 \<Rightarrow> u64 \<Rightarrow> u64 \<Rightarrow> u64 \<Rightarrow> 'd memory_map \<times> 'd system \<Rightarrow> ('d memory_map \<times> 'd system) comp" where
  "cpu_register_physical_memory_log start_addr sz offs region st =
     (case st of (mm, s) \<Rightarrow>
        comp_bind (cpu_register_physical_memory_offset start_addr sz offs region mm) (\<lambda>mm1. ret (mm1, use_map mm1 s)))"

definition cpu_register_physical_memory :: "u32 \<Rightarrow> u64 \<Rightarrow> u64 \<Rightarrow> 'd memory_map \<times> 'd system \<Rightarrow> ('d memory_map \<times> 'd system) comp" where
  "cpu_register_physical_memory start_addr sz offs st = cpu_register_physical_memory_log start_addr sz offs 0 st"

definition cpu_get_physical_page_desc :: "u32 \<Rightarrow> 'd memory_map \<Rightarrow> u64" where
  "cpu_get_physical_page_desc addr mm =
     (case find_page (l1_phys_map mm) (drop_bit TARGET_PAGE_BITS addr) of None \<Rightarrow> IO_MEM_UNASSIGNED | Some p \<Rightarrow> phys_offset p)"

section \<open>Calls through the table\<close>

partial_function (option) read_zone :: "'d memory_map \<Rightarrow> nat \<Rightarrow> nat \<Rightarrow> u32 \<Rightarrow> 'd system \<Rightarrow> (u32 \<times> 'd system) comp" where
  "read_zone mm z k a s =
     (case zone_read (registry mm) z k of
        None \<Rightarrow> raise NullDeref
      | Some h \<Rightarrow> (case h of
          Device f \<Rightarrow> f a s
        | Subpage sp \<Rightarrow> (case mem_read (subpages mm ! sp) (SUBPAGE_IDX a) k of
            None \<Rightarrow> raise NullDeref
          | Some e \<Rightarrow> read_zone mm (fst e) k (a + ucast (snd e)) s)))"

partial_function (option) write_zone :: "'d memory_map \<Rightarrow> nat \<Rightarrow> nat \<Rightarrow> u32 \<Rightarrow> u32 \<Rightarrow> 'd system \<Rightarrow> 'd system comp" where
  "write_zone mm z k a v s =
     (case zone_write (registry mm) z k of
        None \<Rightarrow> raise NullDeref
      | Some h \<Rightarrow> (case h of
          Device f \<Rightarrow> f a v s
        | Subpage sp \<Rightarrow> (case mem_write (subpages mm ! sp) (SUBPAGE_IDX a) k of
            None \<Rightarrow> raise NullDeref
          | Some e \<Rightarrow> write_zone mm (fst e) k (a + ucast (snd e)) v s)))"

definition with_map :: "'d memory_map \<Rightarrow> 'd softmmu \<Rightarrow> 'd softmmu" where
  "with_map mm p = p\<lparr>io_mem_read := read_zone mm, io_mem_write := write_zone mm\<rparr>"

section \<open>The table as a map\<close>

text \<open>Indices of pages of a 32-bit address space.\<close>

definition page_no :: "u32 \<Rightarrow> bool" where
  "page_no i \<longleftrightarrow> unat i < 2 ^ 22"

definition assigned :: "PhysPageDesc \<Rightarrow> PhysPageDesc option" where
  "assigned p = (if phys_offset p = IO_MEM_UNASSIGNED then None else Some p)"

text \<open>The abstract map: the pages with a region. A missing descriptor and an unassigned one are the same.\<close>

definition page_at :: "phys_table \<Rightarrow> u32 \<Rightarrow> PhysPageDesc option" where
  "page_at l1 i = Option.bind (find_page l1 i) assigned"

lemma index_nat: "l1_index i = unat i div 1024 mod 4096" "l2_index i = unat i mod 1024"
proof -
  have "drop_bit L2_BITS i AND (L1_SIZE - 1) = take_bit 12 (drop_bit 10 i)" "i AND (L2_SIZE - 1) = take_bit 10 i"
    by (simp_all add: L1_SIZE_def L1_BITS_def L2_SIZE_def L2_BITS_def TARGET_PAGE_BITS_def take_bit_eq_mask mask_eq_exp_minus_1)
  then show "l1_index i = unat i div 1024 mod 4096" "l2_index i = unat i mod 1024"
    unfolding l1_index_def l2_index_def by (simp_all only: unat_take_bit unat_drop_bit_eq drop_bit_eq_div) (simp_all add: unat_div)
qed

lemma same_index:
  assumes "page_no i" and "page_no j" and "l1_index i = l1_index j" and "l2_index i = l2_index j"
  shows "i = j"
proof -
  have "unat i div 1024 < 4096" "unat j div 1024 < 4096" using assms(1,2) by (simp_all add: page_no_def div_less_iff_less_mult)
  then have "unat i div 1024 = unat j div 1024" "unat i mod 1024 = unat j mod 1024" using assms(3,4) by (simp_all add: index_nat)
  then show ?thesis by (metis div_mult_mod_eq word_unat_eq_iff)
qed

lemma page_no_addr [simp]: "page_no (drop_bit TARGET_PAGE_BITS (a :: u32))"
proof -
  have "unat a < 2 ^ 32" using unsigned_less [of a] by simp
  then show ?thesis by (simp add: page_no_def TARGET_PAGE_BITS_def drop_bit_eq_div unat_div div_less_iff_less_mult)
qed

lemma find_page_eq: "find_page l1 i = map_option (\<lambda>pd. pd (l2_index i)) (l1 (l1_index i))"
  by (simp add: find_page_def phys_page_find_alloc_def split: option.split)

lemma find_put:
  assumes "page_no i" and "page_no j" and "find_page l1 i \<noteq> None"
  shows "find_page (put_page i d l1) j = (if i = j then Some d else find_page l1 j)"
proof -
  obtain pd where pd: "l1 (l1_index i) = Some pd" using assms(3) by (cases "l1 (l1_index i)") (simp_all add: find_page_eq)
  show ?thesis
  proof (cases "i = j")
    case False
    then have "l1_index i \<noteq> l1_index j \<or> l2_index i \<noteq> l2_index j" using same_index [OF assms(1,2)] by blast
    with False pd show ?thesis by (auto simp: find_page_eq put_page_def)
  qed (use pd in \<open>auto simp: find_page_eq put_page_def\<close>)
qed

lemma find_alloc:
  "find_page (snd (phys_page_find_alloc i True l1)) i \<noteq> None"
  "page_at (snd (phys_page_find_alloc i True l1)) j = page_at l1 j"
  by (auto simp: page_at_def find_page_eq phys_page_find_alloc_def new_descs_def assigned_def split: option.split)

text \<open>A round of the loop for a whole page.\<close>

definition whole_page :: "u32 \<Rightarrow> u64 \<Rightarrow> u64 \<Rightarrow> phys_table \<Rightarrow> phys_table" where
  "whole_page i offs region l1 =
     (case page_at l1 i of
        Some p \<Rightarrow> put_page i (p\<lparr>phys_offset := offs\<rparr>) l1
      | None \<Rightarrow> put_page i \<lparr>phys_offset = offs, region_offset = region\<rparr> (snd (phys_page_find_alloc i True l1)))"

lemma page_at_Some: "page_at l1 i = Some p \<longleftrightarrow> find_page l1 i = Some p \<and> phys_offset p \<noteq> IO_MEM_UNASSIGNED"
  by (auto simp: page_at_def assigned_def bind_eq_Some_conv split: if_splits)

lemma register_page_whole:
  assumes "\<not> snd (snd (CHECK_SUBPAGE addr start_addr sz))"
  shows "register_page start_addr sz addr offs region mm =
    ret (next_offset offs, mm\<lparr>l1_phys_map := whole_page (drop_bit TARGET_PAGE_BITS addr) offs region (l1_phys_map mm)\<rparr>)"
  using assms
  by (cases "CHECK_SUBPAGE addr start_addr sz")
     (auto simp: register_page_def assign_page_def whole_page_def page_at_def assigned_def Let_def split: option.split)

lemma page_at_whole:
  assumes "page_no i" and "page_no j"
  shows "page_at (whole_page i offs region l1) j =
    (if j = i then assigned \<lparr>phys_offset = offs, region_offset = (case page_at l1 i of Some p \<Rightarrow> region_offset p | None \<Rightarrow> region)\<rparr>
     else page_at l1 j)"
proof (cases "page_at l1 i")
  case None
  have "page_at (put_page i d (snd (phys_page_find_alloc i True l1))) j = (if j = i then assigned d else page_at l1 j)" for d
    using find_put [OF assms find_alloc(1)] find_alloc(2) [of i l1 j] by (simp add: page_at_def)
  with None show ?thesis by (simp add: whole_page_def)
next
  case (Some p)
  then have f: "find_page l1 i \<noteq> None" by (simp add: page_at_Some)
  show ?thesis using Some find_put [OF assms f] by (cases p) (auto simp: whole_page_def page_at_def)
qed

lemma unat_1024: "unat (1024 :: u32) = 1024"
  by simp

lemma unat_page: "unat (drop_bit TARGET_PAGE_BITS (a :: u32)) = unat a div 1024"
  by (simp add: TARGET_PAGE_BITS_def drop_bit_eq_div unat_div)

text \<open>The next page of a range of \<open>n\<close> pages.\<close>

lemma addr_step:
  assumes "unat addr + 1024 * Suc n \<le> 2 ^ 32" and "0 < n"
  shows "unat (addr + TARGET_PAGE_SIZE) = unat addr + 1024" "addr + TARGET_PAGE_SIZE \<noteq> addr + 1024 * of_nat (Suc n)"
    "unat (drop_bit TARGET_PAGE_BITS (addr + TARGET_PAGE_SIZE)) = Suc (unat (drop_bit TARGET_PAGE_BITS addr))"
proof -
  show 1: "unat (addr + TARGET_PAGE_SIZE) = unat addr + 1024"
    using assms by (simp add: TARGET_PAGE_SIZE_def unat_word_ariths)
  show "unat (drop_bit TARGET_PAGE_BITS (addr + TARGET_PAGE_SIZE)) = Suc (unat (drop_bit TARGET_PAGE_BITS addr))"
    by (simp add: unat_page 1)
  have m: "(1024 * of_nat (Suc n) :: u32) = of_nat (1024 * Suc n)" by simp
  have "unat (of_nat (1024 * Suc n) :: u32) = 1024 * Suc n mod 2 ^ 32" by (simp only: unat_of_nat) simp
  moreover have "1024 * Suc n mod 2 ^ 32 \<noteq> 1024"
  proof (cases "1024 * Suc n = 2 ^ 32")
    case False
    with assms(1) have "1024 * Suc n < 2 ^ 32" by linarith
    then show ?thesis using assms(2) by simp
  qed simp
  ultimately have "(1024 :: u32) \<noteq> 1024 * of_nat (Suc n)" unfolding m by (metis unat_1024)
  then show "addr + TARGET_PAGE_SIZE \<noteq> addr + 1024 * of_nat (Suc n)" by (simp only: TARGET_PAGE_SIZE_def add_left_cancel) simp
qed

definition offset_at :: "u64 \<Rightarrow> nat \<Rightarrow> u64" where
  "offset_at offs k = (if is_memory offs then offs + of_nat k * 1024 else offs)"

lemma is_memory_next: "is_memory (next_offset offs) \<longleftrightarrow> is_memory offs"
proof -
  have "unat (offs + 1024) mod 1024 = unat offs mod 1024" by (simp add: unat_word_ariths mod_mod_cancel)
  then have "unat (take_bit 10 (offs + 1024)) = unat (take_bit 10 offs)" by (simp only: unsigned_take_bit_eq take_bit_eq_mod) (simp add: unat_mod)
  then have "take_bit 10 (offs + 1024) = take_bit 10 offs" by (simp only: word_unat_eq_iff)
  then have "low_bits_u64 (offs + 1024) = low_bits_u64 offs" by (simp add: low_bits_u64_def TARGET_PAGE_BITS_def take_bit_eq_mask)
  moreover have "(offs + 1024) AND 1 = offs AND 1" by (simp add: and_one_eq mod_2_eq_odd)
  ultimately show ?thesis by (simp add: next_offset_def is_memory_def IO_MEM_ROMD_def TARGET_PAGE_SIZE_def)
qed

lemma offset_at_next: "offset_at (next_offset offs) k = offset_at offs (Suc k)"
proof (cases "is_memory offs")
  case True
  have "(offs + 1024) + of_nat k * 1024 = offs + of_nat (Suc k) * 1024" by (simp add: distrib_right add.assoc)
  with True show ?thesis unfolding offset_at_def is_memory_next by (simp add: next_offset_def TARGET_PAGE_SIZE_def)
next
  case False
  then show ?thesis unfolding offset_at_def is_memory_next by (simp add: next_offset_def)
qed

lemma put_l1: "l1_phys_map (mm\<lparr>l1_phys_map := l\<rparr>) = l" "mm\<lparr>l1_phys_map := l, l1_phys_map := l'\<rparr> = mm\<lparr>l1_phys_map := l'\<rparr>"
  by simp_all

text \<open>The abstract map after the registration of \<open>n\<close> whole pages from page \<open>i\<close> on.\<close>

definition region_map ::
  "nat \<Rightarrow> nat \<Rightarrow> u64 \<Rightarrow> u64 \<Rightarrow> (u32 \<Rightarrow> PhysPageDesc option) \<Rightarrow> u32 \<Rightarrow> PhysPageDesc option" where
  "region_map i n offs region A j =
     (let k = unat j - i in
      if i \<le> unat j \<and> unat j < i + n
      then assigned \<lparr>phys_offset = offset_at offs k, region_offset = (case A j of Some p \<Rightarrow> region_offset p | None \<Rightarrow> region + of_nat k * 1024)\<rparr>
      else A j)"

lemma region_map_Suc:
  assumes "A' j = (if j = a then assigned \<lparr>phys_offset = offs, region_offset = (case A a of Some p \<Rightarrow> region_offset p | None \<Rightarrow> region)\<rparr> else A j)"
  shows "region_map (unat a) (Suc n) offs region A j = region_map (Suc (unat a)) n (next_offset offs) (region + 1024) A' j"
proof (cases "j = a")
  case True
  then show ?thesis using assms by (simp add: region_map_def offset_at_def split: option.split)
next
  case False
  then have neq: "unat j \<noteq> unat a" and A: "A' j = A j" using assms by (simp_all add: word_unat_eq_iff)
  show ?thesis
  proof (cases "unat a \<le> unat j \<and> unat j < unat a + Suc n")
    case True
    with neq have c: "Suc (unat a) \<le> unat j \<and> unat j < Suc (unat a) + n" by simp
    then obtain k where k: "unat j = Suc (unat a) + k" using le_Suc_ex by blast
    show ?thesis using True c by (simp add: region_map_def A k offset_at_next add.assoc distrib_right split: option.split)
  next
    case out: False
    then have "\<not> (Suc (unat a) \<le> unat j \<and> unat j < Suc (unat a) + n)" using neq by linarith
    then show ?thesis unfolding region_map_def Let_def A using out by (simp only: if_False)
  qed
qed

lemma region_map_0: "region_map i 0 offs region A j = A j"
  by (auto simp: region_map_def Let_def)

lemma register_whole_pages:
  assumes "\<And>k. k < n \<Longrightarrow> \<not> snd (snd (CHECK_SUBPAGE (addr + 1024 * of_nat k) start_addr sz))"
    and "unat addr + 1024 * n \<le> 2 ^ 32" and "0 < n"
  shows "\<exists>l1. register_pages start_addr sz (addr + 1024 * of_nat n) addr offs region mm = ret (mm\<lparr>l1_phys_map := l1\<rparr>) \<and>
    (\<forall>j. page_no j \<longrightarrow> page_at l1 j = region_map (unat (drop_bit TARGET_PAGE_BITS addr)) n offs region (page_at (l1_phys_map mm)) j)"
  using assms
proof (induction n arbitrary: addr offs region mm)
  case (Suc n)
  let ?i = "drop_bit TARGET_PAGE_BITS addr" and ?a = "addr + TARGET_PAGE_SIZE"
  let ?l = "whole_page ?i offs region (l1_phys_map mm)"
  have 0: "\<not> snd (snd (CHECK_SUBPAGE addr start_addr sz))" using Suc.prems(1) [of 0] by simp
  note step = register_pages.simps [of start_addr sz "addr + 1024 * of_nat (Suc n)" addr, unfolded register_page_whole [OF 0]]
  have at: "region_map (unat ?i) (Suc n) offs region (page_at (l1_phys_map mm)) j =
      region_map (Suc (unat ?i)) n (next_offset offs) (region + 1024) (page_at ?l) j" if "page_no j" for n j
    using page_at_whole [OF page_no_addr that] by (rule region_map_Suc)
  show ?case
  proof (cases "n = 0")
    case True
    have "register_pages start_addr sz (addr + 1024 * of_nat (Suc n)) addr offs region mm = ret (mm\<lparr>l1_phys_map := ?l\<rparr>)"
      unfolding step by (simp add: True TARGET_PAGE_SIZE_def)
    with True show ?thesis using at [where n = 0] by (auto simp: region_map_0)
  next
    case False
    then have n: "0 < n" by simp
    note nx = addr_step [OF Suc.prems(2) n]
    have e: "addr + 1024 * of_nat (Suc n) = ?a + 1024 * of_nat n" for n by (simp add: TARGET_PAGE_SIZE_def algebra_simps)
    have "\<not> snd (snd (CHECK_SUBPAGE (?a + 1024 * of_nat k) start_addr sz))" if "k < n" for k
      using Suc.prems(1) [of "Suc k"] that by (simp only: e) simp
    moreover have "unat ?a + 1024 * n \<le> 2 ^ 32" using Suc.prems(2) by (simp add: nx(1))
    ultimately obtain l1 where "register_pages start_addr sz (?a + 1024 * of_nat n) ?a (next_offset offs) (region + 1024)
        (mm\<lparr>l1_phys_map := ?l\<rparr>) = ret (mm\<lparr>l1_phys_map := l1\<rparr>)"
      and "\<And>j. page_no j \<Longrightarrow> page_at l1 j = region_map (Suc (unat ?i)) n (next_offset offs) (region + 1024) (page_at ?l) j"
      using Suc.IH [of ?a "next_offset offs" "region + 1024" "mm\<lparr>l1_phys_map := ?l\<rparr>", unfolded put_l1 nx(3)] n by blast
    moreover from this(1) have "register_pages start_addr sz (addr + 1024 * of_nat (Suc n)) addr offs region mm = ret (mm\<lparr>l1_phys_map := l1\<rparr>)"
      unfolding step using nx(2) by (simp add: e TARGET_PAGE_SIZE_def add.assoc)
    ultimately show ?thesis using at [where n = n] by (intro exI [of _ l1]) auto
  qed
qed simp

lemma unat_addr_step:
  assumes "unat start_addr + 1024 * k < 2 ^ 32"
  shows "unat (start_addr + 1024 * of_nat k :: u32) = unat start_addr + 1024 * k"
proof -
  have "start_addr + 1024 * of_nat k = of_nat (unat start_addr + 1024 * k)" by simp
  then show ?thesis using assms by (simp only: unat_of_nat) simp
qed

lemma unat_wide: "unat (ucast (a :: u32) :: u64) = unat a"
  by (simp add: unsigned_ucast_eq) (rule take_bit_nat_eq_self, rule less_le_trans [OF unsigned_less], simp)

text \<open>The bytes of a region from an address on.\<close>

lemma rest_of_region:
  assumes "unat (a :: u32) \<le> unat (start_addr :: u32) + unat (sz :: u64)" and "unat start_addr + unat sz \<le> 2 ^ 32"
  shows "unat ((ucast start_addr + sz) - ucast a :: u64) = unat start_addr + unat sz - unat a"
proof -
  have s: "unat (ucast start_addr + sz :: u64) = unat start_addr + unat sz"
    using assms(2) by (simp add: unat_word_ariths unat_wide)
  have "(ucast a :: u64) \<le> ucast start_addr + sz" using assms(1) s by (simp add: word_le_nat_alt unat_wide)
  from unat_sub [OF this] show ?thesis by (simp add: s unat_wide)
qed

lemma check_whole:
  assumes "unat start_addr mod 1024 = 0" and "unat sz mod 1024 = 0" and "unat start_addr + unat sz \<le> 2 ^ 32" and "k < unat sz div 1024"
  shows "\<not> snd (snd (CHECK_SUBPAGE (start_addr + 1024 * of_nat k) start_addr sz))"
proof -
  let ?a = "start_addr + 1024 * of_nat k"
  have k: "1024 * k + 1024 \<le> unat sz" using assms(4) by (metis Suc_leI add.commute mult.commute mult_Suc times_div_less_eq_dividend nat_mult_le_cancel_disj order_trans)
  then have a: "unat ?a = unat start_addr + 1024 * k" using assms(3) by (intro unat_addr_step) linarith
  have "unat ((ucast start_addr + sz) - ucast ?a :: u64) = unat sz - 1024 * k"
    using k assms(3) by (subst rest_of_region) (simp_all add: a)
  then have "(ucast TARGET_PAGE_SIZE :: u64) \<le> (ucast start_addr + sz) - ucast ?a"
    using k by (simp add: word_le_nat_alt TARGET_PAGE_SIZE_def)
  moreover have "start_addr AND NOT TARGET_PAGE_MASK = 0" using page_offset [of start_addr] assms(1) by (simp add: word_unat_eq_iff)
  ultimately show ?thesis by (simp add: CHECK_SUBPAGE_def)
qed

lemma unat_page_of_u64: "unat (page_of_u64 w) = unat w div 1024 * 1024"
proof -
  define x where "x = drop_bit 10 w"
  have x: "unat x = unat w div 1024" by (simp add: x_def drop_bit_eq_div unat_div)
  have "page_of_u64 w = push_bit 10 x"
    by (rule bit_word_eqI) (auto simp: x_def page_of_u64_def TARGET_PAGE_BITS_def bit_simps)
  then have "unat (page_of_u64 w) = unat x * 1024 mod 2 ^ 64" by (simp add: push_bit_eq_mult unat_word_ariths)
  moreover have "unat w div 1024 * 1024 \<le> unat w" by simp
  moreover have "unat w < 2 ^ 64" using unsigned_less [of w] by simp
  ultimately show ?thesis by (simp add: x)
qed

text \<open>The end address of the loop; a size of 0 wraps around the whole address space.\<close>

definition rounds :: "u64 \<Rightarrow> nat" where
  "rounds sz = unat (page_of_u64 (sz + ucast TARGET_PAGE_SIZE - 1)) div 1024"

lemma end_rounds: "start_addr + ucast (page_of_u64 (sz + ucast TARGET_PAGE_SIZE - 1)) = (start_addr :: u32) + 1024 * of_nat (rounds sz)"
proof -
  let ?p = "page_of_u64 (sz + ucast TARGET_PAGE_SIZE - 1)"
  have "unat ?p = rounds sz * 1024" by (simp add: rounds_def unat_page_of_u64)
  moreover have "(ucast ?p :: u32) = of_nat (unat ?p)" by simp
  ultimately have "(ucast ?p :: u32) = of_nat (rounds sz * 1024)" by simp
  then show ?thesis by (simp add: mult.commute)
qed

lemma rounds_whole:
  assumes "unat sz mod 1024 = 0" and "unat sz \<le> 2 ^ 32"
  shows "rounds sz = unat sz div 1024"
proof -
  have "unat (sz + ucast TARGET_PAGE_SIZE - 1) = unat sz + 1023"
    using assms(2) by (simp add: TARGET_PAGE_SIZE_def unat_word_ariths)
  moreover obtain m where "unat sz = 1024 * m" using assms(1) by auto
  ultimately show ?thesis by (simp add: rounds_def unat_page_of_u64)
qed

lemma subpage_register_ends: "ends (\<lambda>_. True) (subpage_register a b c d r x)"
  by (simp add: subpage_register_def Let_def)

lemma share_page_ends: "ends (\<lambda>_. True) (share_page a b c d i st)"
  by (cases st) (auto simp: share_page_def with_subpage_def intro!: ends_bind [OF ends_bind [OF subpage_register_ends]])

lemma subpage_init_ends: "ends (\<lambda>_. True) (subpage_init a b c mm)"
  unfolding subpage_init_def Let_def
  by (cases "cpu_register_io_memory (\<lambda>_. Some (Subpage (length (subpages mm)))) (\<lambda>_. Some (Subpage (length (subpages mm)))) (registry mm)")
     (simp add: ends_bind [OF subpage_register_ends])

lemma subpage_of_code_ends: "ends (\<lambda>_. True) (subpage_of_code c mm)"
  by (simp add: subpage_of_code_def split: option.split handler.split)

lemma shared_ends: "ends (\<lambda>_. True) c \<Longrightarrow> ends (\<lambda>_. True) (comp_bind (comp_bind c (share_page a b d e i)) (\<lambda>mm. ret (offs, mm)))"
  by (rule ends_bind [of "\<lambda>_. True"], erule ends_bind) (simp_all add: share_page_ends)

lemma assign_page_ends: "ends (\<lambda>_. True) (assign_page start_addr sz addr offs region mm)"
  by (cases "CHECK_SUBPAGE addr start_addr sz") (simp add: assign_page_def Let_def shared_ends subpage_init_ends)

lemma register_page_ends: "ends (\<lambda>_. True) (register_page start_addr sz addr offs region mm)"
proof (cases "CHECK_SUBPAGE addr start_addr sz")
  case (fields s e need)
  have "ends (\<lambda>_. True) (comp_bind (subpage_of_code c mm) (\<lambda>sp. ret (sp, c, mm)))" for c by (rule ends_bind [OF subpage_of_code_ends]) simp
  then show ?thesis
    by (simp add: register_page_def Let_def fields assign_page_ends shared_ends subpage_init_ends split: option.split)
qed

lemma register_pages_end:
  assumes "0 < n" and "end_addr = addr + 1024 * of_nat n"
  shows "ends (\<lambda>_. True) (register_pages start_addr sz end_addr addr offs region (mm :: 'a memory_map))"
  using assms
proof (induction n arbitrary: addr offs region mm)
  case (Suc n)
  have e: "addr + 1024 * of_nat (Suc n) = (addr + TARGET_PAGE_SIZE) + 1024 * of_nat n" by (simp add: TARGET_PAGE_SIZE_def algebra_simps)
  have "ends (\<lambda>_. True) (register_pages start_addr sz end_addr (addr + TARGET_PAGE_SIZE) offs' region' mm')"
    if "addr + TARGET_PAGE_SIZE \<noteq> end_addr" for offs' region' and mm' :: "'a memory_map"
  proof (rule Suc.IH)
    show "0 < n" using that Suc.prems(2) by (cases n) (simp_all add: TARGET_PAGE_SIZE_def)
  qed (simp only: Suc.prems(2) e)
  then show ?case by (subst register_pages.simps) (auto intro!: ends_bind [OF register_page_ends] split: prod.split)
qed simp

text \<open>
  C14. The registration of a region always ends, whatever the size, the alignment and the map: at most the \<open>2 ^ 22\<close> pages of the address
  space are visited.
\<close>

theorem registration_ends: "cpu_register_physical_memory_log start_addr sz offs region (mm, s) \<noteq> None"
proof -
  have "(1024 * of_nat (2 ^ 22) :: u32) = 0" by simp
  then have "\<exists>n>0. start_addr + 1024 * of_nat (rounds sz) = start_addr + 1024 * of_nat n"
    by (cases "rounds sz = 0") (auto intro: exI [of _ "2 ^ 22"])
  then obtain n where "0 < n" "start_addr + 1024 * of_nat (rounds sz) = start_addr + 1024 * of_nat n" by blast
  from register_pages_end [OF this] have "ends (\<lambda>_. True) (cpu_register_physical_memory_offset start_addr sz offs region mm)"
    by (simp only: cpu_register_physical_memory_offset_def Let_def end_rounds)
  then have "ends (\<lambda>_. True) (cpu_register_physical_memory_log start_addr sz offs region (mm, s))"
    unfolding cpu_register_physical_memory_log_def prod.case by (rule ends_bind) simp
  then show ?thesis by (rule ends_not_None)
qed

lemma register_region:
  assumes "unat start_addr mod 1024 = 0" and "unat sz mod 1024 = 0" and "0 < unat sz" and "unat start_addr + unat sz \<le> 2 ^ 32"
  shows "\<exists>l1. cpu_register_physical_memory_offset start_addr sz offs region mm = ret (mm\<lparr>l1_phys_map := l1\<rparr>) \<and>
    (\<forall>j. page_no j \<longrightarrow> page_at l1 j = region_map (unat start_addr div 1024) (unat sz div 1024) offs
      (page_of_u64 (if offs = IO_MEM_UNASSIGNED then ucast start_addr else region)) (page_at (l1_phys_map mm)) j)"
proof -
  let ?n = "unat sz div 1024"
  have n: "0 < ?n" "1024 * ?n = unat sz" using assms(2,3) by (auto elim!: dvdE)
  note check = check_whole [OF assms(1,2,4)]
  have "unat start_addr + 1024 * ?n \<le> 2 ^ 32" using assms(4) n(2) by simp
  note pages = register_whole_pages [where addr = start_addr and start_addr = start_addr and n = ?n and sz = sz, OF check this n(1), unfolded unat_page]
  have "rounds sz = ?n" using assms(2,4) by (intro rounds_whole) simp_all
  then show ?thesis
    unfolding cpu_register_physical_memory_offset_def Let_def end_rounds by (simp only:) (rule pages)
qed

lemma register_effect:
  assumes "unat start_addr mod 1024 = 0" and "unat sz mod 1024 = 0" and "0 < unat sz" and "unat start_addr + unat sz \<le> 2 ^ 32"
  shows "\<exists>mm' s'. cpu_register_physical_memory_log start_addr sz offs region (mm, s) = ret (mm', s') \<and>
    registry mm' = registry mm \<and> subpages mm' = subpages mm \<and>
    phys_page_find (mach s') = find_page (l1_phys_map mm') \<and> ram (world s') = phys_view (mach s') (system.host s) \<and>
    (\<forall>j. page_no j \<longrightarrow> page_at (l1_phys_map mm') j = region_map (unat start_addr div 1024) (unat sz div 1024) offs
      (page_of_u64 (if offs = IO_MEM_UNASSIGNED then ucast start_addr else region)) (page_at (l1_phys_map mm)) j) \<and>
    (\<forall>a. \<forall>m<NB_MMU_MODES. no_hit a m (cpu (world s')))"
proof -
  obtain l1 where l1: "cpu_register_physical_memory_offset start_addr sz offs region mm = ret (mm\<lparr>l1_phys_map := l1\<rparr>)"
    and at: "\<forall>j. page_no j \<longrightarrow> page_at l1 j = region_map (unat start_addr div 1024) (unat sz div 1024) offs
      (page_of_u64 (if offs = IO_MEM_UNASSIGNED then ucast start_addr else region)) (page_at (l1_phys_map mm)) j"
    using register_region [OF assms] by blast
  let ?mm = "mm\<lparr>l1_phys_map := l1\<rparr>"
  show ?thesis
  proof (intro exI conjI)
    show "cpu_register_physical_memory_log start_addr sz offs region (mm, s) = ret (?mm, use_map ?mm s)"
      by (simp add: cpu_register_physical_memory_log_def l1)
    show "\<forall>j. page_no j \<longrightarrow> page_at (l1_phys_map ?mm) j = region_map (unat start_addr div 1024) (unat sz div 1024) offs
      (page_of_u64 (if offs = IO_MEM_UNASSIGNED then ucast start_addr else region)) (page_at (l1_phys_map mm)) j"
      using at by simp
  qed (simp_all add: use_map_def put_host_def put_cpu_def tlb_flush_no_hit Let_def)
qed

text \<open>The pages of a region are free afterwards exactly when the region is one of unassigned memory.\<close>

lemma offset_at_memory: "is_memory offs \<Longrightarrow> is_memory (offset_at offs k)"
proof (induction k arbitrary: offs)
  case (Suc k)
  then show ?case using is_memory_next offset_at_next by metis
qed (simp add: offset_at_def)

lemma offset_at_unassigned: "offset_at offs k = IO_MEM_UNASSIGNED \<longleftrightarrow> offs = IO_MEM_UNASSIGNED"
proof -
  have u: "\<not> is_memory IO_MEM_UNASSIGNED" by code_simp
  show ?thesis
  proof (cases "is_memory offs")
    case True
    then have "is_memory (offset_at offs k)" by (rule offset_at_memory)
    with True u show ?thesis by metis
  qed (simp add: offset_at_def)
qed

lemma region_map_pages:
  "region_map i n offs region A j =
     (if i \<le> unat j \<and> unat j < i + n then
        (if offs = IO_MEM_UNASSIGNED then None
         else Some \<lparr>phys_offset = offset_at offs (unat j - i),
                region_offset = (case A j of Some p \<Rightarrow> region_offset p | None \<Rightarrow> region + of_nat (unat j - i) * 1024)\<rparr>)
      else A j)"
  by (simp add: region_map_def assigned_def offset_at_unassigned Let_def)

text \<open>
  C12. The registration of a region of whole pages changes the map at the pages of the region only. Afterwards the pages are free when the region is one of unassigned memory; otherwise
  each has the offset of the region, advancing page by page for memory (RAM, ROM and ROM devices), and each page that was free before has the region offset of the registration, advancing page by page, so that
  the I/O functions are called with the offset from the start of the region plus the region offset.
  No I/O zone is taken, the system uses the new map, and no TLB entry of the processor hits, so that no stale translation is used. (The region offset of a page that already belonged to
  another region is not part of this statement.)
\<close>

theorem region_registered:
  assumes "unat start_addr mod 1024 = 0" and "unat sz mod 1024 = 0" and "0 < unat sz" and "unat start_addr + unat sz \<le> 2 ^ 32"
  shows "\<exists>mm' s'. cpu_register_physical_memory_log start_addr sz offs region (mm, s) = ret (mm', s') \<and>
    registry mm' = registry mm \<and> subpages mm' = subpages mm \<and>
    phys_page_find (mach s') = find_page (l1_phys_map mm') \<and> ram (world s') = phys_view (mach s') (system.host s) \<and>
    (\<forall>j. page_no j \<longrightarrow>
      (let k = unat j - unat start_addr div 1024; old = page_at (l1_phys_map mm) j; new = page_at (l1_phys_map mm') j in
       if unat start_addr div 1024 \<le> unat j \<and> unat j < unat start_addr div 1024 + unat sz div 1024 then
         (if offs = IO_MEM_UNASSIGNED then new = None
          else \<exists>p. new = Some p \<and> phys_offset p = (if is_memory offs then offs + of_nat k * 1024 else offs) \<and>
            (old = None \<longrightarrow> region_offset p = page_of_u64 region + of_nat k * 1024))
       else new = old)) \<and>
    (\<forall>a. \<forall>m<NB_MMU_MODES. no_hit a m (cpu (world s')))"
proof -
  obtain mm' s' where r: "cpu_register_physical_memory_log start_addr sz offs region (mm, s) = ret (mm', s')"
      "registry mm' = registry mm" "subpages mm' = subpages mm"
      "phys_page_find (mach s') = find_page (l1_phys_map mm')" "ram (world s') = phys_view (mach s') (system.host s)"
    and at: "\<And>j. page_no j \<Longrightarrow> page_at (l1_phys_map mm') j = region_map (unat start_addr div 1024) (unat sz div 1024) offs
      (page_of_u64 (if offs = IO_MEM_UNASSIGNED then ucast start_addr else region)) (page_at (l1_phys_map mm)) j"
    and miss: "\<forall>a. \<forall>m<NB_MMU_MODES. no_hit a m (cpu (world s'))"
    using register_effect [OF assms] by blast
  show ?thesis
    using r miss by (intro exI [of _ mm'] exI [of _ s'] conjI allI impI) (auto simp: at region_map_pages offset_at_def Let_def)
qed

text \<open>
  A region over an assigned page: the page gets the offset of the new region and keeps the region offset of the old one.
\<close>

theorem assigned_page_keeps_region_offset:
  assumes "unat start_addr mod 1024 = 0" and "unat sz mod 1024 = 0" and "0 < unat sz" and "unat start_addr + unat sz \<le> 2 ^ 32"
    and "page_no j" and "unat start_addr div 1024 \<le> unat j" and "unat j < unat start_addr div 1024 + unat sz div 1024"
    and "page_at (l1_phys_map mm) j = Some p" and "offs \<noteq> IO_MEM_UNASSIGNED"
    and "cpu_register_physical_memory_log start_addr sz offs region (mm, s) = ret (mm', s')"
  shows "\<exists>p'. page_at (l1_phys_map mm') j = Some p' \<and> region_offset p' = region_offset p"
  using register_effect [OF assms(1-4), of offs region mm s] assms(5-10) by (auto simp: region_map_pages)

text \<open>Two pages of RAM on the empty map.\<close>

definition empty_map :: "'d memory_map" where
  "empty_map = \<lparr>l1_phys_map = (\<lambda>_. None), registry = \<lparr>zone_read = (\<lambda>_ _. None), zone_write = (\<lambda>_ _. None), io_mem_used = (\<lambda>i. i < 6)\<rparr>,
     subpages = []\<rparr>"

theorem region_registered_witness:
  "\<forall>s :: unit system. \<exists>mm' s'. cpu_register_physical_memory_log 0x10000 0x800 0x4000 0 (empty_map, s) = ret (mm', s') \<and>
     page_at (l1_phys_map mm') 0x41 = Some \<lparr>phys_offset = 0x4400, region_offset = 0x400\<rparr> \<and> page_at (l1_phys_map mm') 0x42 = None"
proof
  fix s :: "unit system"
  let ?e = "empty_map :: unit memory_map"
  have e: "page_at (l1_phys_map ?e) j = None" for j by (simp add: page_at_def find_page_eq empty_map_def)
  have m: "is_memory 0x4000" "page_of_u64 0 = 0" by code_simp+
  obtain mm' s' where r: "cpu_register_physical_memory_log 0x10000 0x800 0x4000 0 (?e, s) = ret (mm', s')"
    and at: "\<forall>j. page_no j \<longrightarrow> (let k = unat j - 64; new = page_at (l1_phys_map mm') j in
       if 64 \<le> unat j \<and> unat j < 66 then \<exists>p. new = Some p \<and> phys_offset p = 0x4000 + of_nat k * 1024 \<and> region_offset p = of_nat k * 1024
       else new = None)"
    using region_registered [of "0x10000" "0x800" "0x4000" 0 ?e s] by (auto simp: IO_MEM_UNASSIGNED_def Let_def e m cong: if_cong)
  have "\<exists>p. page_at (l1_phys_map mm') 0x41 = Some p \<and> phys_offset p = 0x4400 \<and> region_offset p = 0x400" "page_at (l1_phys_map mm') 0x42 = None"
    using at [rule_format, of "0x41"] at [rule_format, of "0x42"] by (simp_all add: page_no_def Let_def)
  with r show "\<exists>mm' s'. cpu_register_physical_memory_log 0x10000 0x800 0x4000 0 (?e, s) = ret (mm', s') \<and>
     page_at (l1_phys_map mm') 0x41 = Some \<lparr>phys_offset = 0x4400, region_offset = 0x400\<rparr> \<and> page_at (l1_phys_map mm') 0x42 = None" by auto
qed

text \<open>Two regions on the same page.\<close>

theorem assigned_page_keeps_region_offset_witness:
  "\<forall>s :: unit system. \<exists>mm1 s1 mm2 s2 p. cpu_register_physical_memory_log 0x10000 0x400 0x40 0x800 (empty_map, s) = ret (mm1, s1) \<and>
     cpu_register_physical_memory_log 0x10000 0x400 0x48 0 (mm1, s1) = ret (mm2, s2) \<and>
     page_at (l1_phys_map mm2) 0x40 = Some p \<and> region_offset p = 0x800"
proof
  fix s :: "unit system"
  let ?e = "empty_map :: unit memory_map"
  have e: "page_at (l1_phys_map ?e) j = None" for j by (simp add: page_at_def find_page_eq empty_map_def)
  have m: "\<not> is_memory 0x40" "page_of_u64 0x800 = 0x800" "(0x48 :: u64) \<noteq> IO_MEM_UNASSIGNED" "(0x40 :: u64) \<noteq> IO_MEM_UNASSIGNED" by code_simp+
  have no: "page_no 0x40" by (simp add: page_no_def)
  have k: "unat (0x10000 :: u32) mod 1024 = 0" "unat (0x400 :: u64) mod 1024 = 0" "0 < unat (0x400 :: u64)" "unat (0x10000 :: u32) + unat (0x400 :: u64) \<le> 2 ^ 32"
    and n: "unat (0x10000 :: u32) div 1024 = 64" "unat (0x400 :: u64) div 1024 = 1" by simp_all
  obtain mm1 s1 where 1: "cpu_register_physical_memory_log 0x10000 0x400 0x40 0x800 (?e, s) = ret (mm1, s1)"
    and at: "\<forall>j. page_no j \<longrightarrow> page_at (l1_phys_map mm1) j = region_map 64 1 0x40 0x800 (page_at (l1_phys_map ?e)) j"
    using register_effect [OF k, of "0x40" "0x800" ?e s, unfolded n if_not_P [OF m(4)] m(2)] by blast
  have p: "page_at (l1_phys_map mm1) 0x40 = Some \<lparr>phys_offset = 0x40, region_offset = 0x800\<rparr>"
    unfolding at [rule_format, OF no] region_map_pages using m(1,4) by (simp add: e offset_at_def)
  obtain mm2 s2 where 2: "cpu_register_physical_memory_log 0x10000 0x400 0x48 0 (mm1, s1) = ret (mm2, s2)"
    using register_effect [OF k, of "0x48" 0 mm1 s1] by blast
  have "\<exists>p'. page_at (l1_phys_map mm2) 0x40 = Some p' \<and> region_offset p' = 0x800"
    using assigned_page_keeps_region_offset [OF k no _ _ p m(3) 2] by simp
  with 1 2 show "\<exists>mm1 s1 mm2 s2 p. cpu_register_physical_memory_log 0x10000 0x400 0x40 0x800 (?e, s) = ret (mm1, s1) \<and>
     cpu_register_physical_memory_log 0x10000 0x400 0x48 0 (mm1, s1) = ret (mm2, s2) \<and>
     page_at (l1_phys_map mm2) 0x40 = Some p \<and> region_offset p = 0x800" by blast
qed

end
