(* ===== verification/Phys_Access.thy ===== *)
theory Phys_Access
  imports Phys_Map
begin

text \<open>
  Accesses of devices and debuggers to physical and virtual memory (\<open>cpu_physical_memory_rw\<close> to \<open>cpu_memory_rw_debug\<close> in
  \<open>src/qemu/exec.c\<close>). A buffer is a list of bytes; the target is little-endian. The invalidation of the generated code of a page
  (\<open>tb_invalidate_phys_page_range\<close>) is a parameter.
\<close>

section \<open>Host memory\<close>

type_synonym 'd invalidate = "u64 \<Rightarrow> u64 \<Rightarrow> 'd system \<Rightarrow> 'd system comp"

fun put_bytes :: "u64 \<Rightarrow> u8 list \<Rightarrow> (u64 \<Rightarrow> u8) \<Rightarrow> u64 \<Rightarrow> u8" where
  "put_bytes ptr [] h = h"
| "put_bytes ptr (b # bs) h = put_bytes (ptr + 1) bs (h(ptr := b))"

definition get_bytes :: "nat \<Rightarrow> u64 \<Rightarrow> (u64 \<Rightarrow> u8) \<Rightarrow> u8 list" where
  "get_bytes n ptr h = map (\<lambda>i. h (ptr + of_nat i)) [0..<n]"

fun value_of_bytes :: "u8 list \<Rightarrow> u32" where
  "value_of_bytes [] = 0"
| "value_of_bytes (b # bs) = ucast b OR push_bit 8 (value_of_bytes bs)"

definition bytes_of_value :: "nat \<Rightarrow> u32 \<Rightarrow> u8 list" where
  "bytes_of_value n v = map (\<lambda>i. ucast (drop_bit (8 * i) v)) [0..<n]"

definition put_ram_list :: "RAMList \<Rightarrow> 'd system \<Rightarrow> 'd system" where
  "put_ram_list rl s = s\<lparr>mach := (mach s)\<lparr>ram_list := rl\<rparr>\<rparr>"

definition ram_ptr :: "u64 \<Rightarrow> 'd system \<Rightarrow> (u64 \<times> 'd system) comp" where
  "ram_ptr addr s = comp_bind (qemu_get_ram_ptr addr (ram_list (mach s))) (\<lambda>(ptr, rl). ret (ptr, put_ram_list rl s))"

section \<open>Buffers\<close>

definition low_addr :: "u32 \<Rightarrow> u64" where
  "low_addr addr = ucast (addr AND NOT TARGET_PAGE_MASK)"

text \<open>The part of a transfer that lies in the page of \<open>addr\<close>.\<close>

definition page_part :: "u32 \<Rightarrow> nat \<Rightarrow> nat" where
  "page_part addr len = (let l = unat ((addr AND TARGET_PAGE_MASK) + TARGET_PAGE_SIZE - addr) in if len < l then len else l)"

definition io_region_address :: "machine \<Rightarrow> u32 \<Rightarrow> u32" where
  "io_region_address m addr =
     (case phys_page_find m (drop_bit TARGET_PAGE_BITS addr) of
        None \<Rightarrow> addr | Some p \<Rightarrow> (addr AND NOT TARGET_PAGE_MASK) + ucast (region_offset p))"

definition io_width :: "u32 \<Rightarrow> nat \<Rightarrow> nat" where
  "io_width addr1 l = (if 4 \<le> l \<and> addr1 AND 3 = 0 then 4 else if 2 \<le> l \<and> addr1 AND 1 = 0 then 2 else 1)"

text \<open>A page that was written: its code is invalid and it becomes dirty.\<close>

definition mark_written :: "'d invalidate \<Rightarrow> u64 \<Rightarrow> nat \<Rightarrow> 'd system \<Rightarrow> 'd system comp" where
  "mark_written tbi addr1 l s =
     comp_bind (cpu_physical_memory_is_dirty addr1 (ram_list (mach s))) (\<lambda>d.
       if d then ret s
       else comp_bind (tbi addr1 (addr1 + of_nat l) s) (\<lambda>s1.
            comp_bind (cpu_physical_memory_set_dirty_flags addr1 (0xFF AND NOT CODE_DIRTY_FLAG) (ram_list (mach s1))) (\<lambda>(_, rl).
              ret (put_ram_list rl s1))))"

definition write_part :: "'d invalidate \<Rightarrow> 'd softmmu \<Rightarrow> u32 \<Rightarrow> u8 list \<Rightarrow> 'd system \<Rightarrow> (nat \<times> 'd system) comp" where
  "write_part tbi p addr buf s =
     (let l = page_part addr (length buf); pd = page_pd (mach s) addr in
      if low_bits_u64 pd \<noteq> IO_MEM_RAM then
        (let addr1 = io_region_address (mach s) addr; w = io_width addr1 l
         in comp_bind (io_mem_write p (io_index (ucast pd)) (size_shift w) addr1 (value_of_bytes (take w buf)) s) (\<lambda>s1. ret (w, s1)))
      else
        (let addr1 = page_of_u64 pd + low_addr addr
         in comp_bind (ram_ptr addr1 s) (\<lambda>(ptr, s1).
            comp_bind (mark_written tbi addr1 l (put_host (put_bytes ptr (take l buf) (system.host s1)) s1)) (\<lambda>s2. ret (l, s2)))))"

definition read_part :: "'d softmmu \<Rightarrow> u32 \<Rightarrow> nat \<Rightarrow> 'd system \<Rightarrow> (u8 list \<times> 'd system) comp" where
  "read_part p addr len s =
     (let l = page_part addr len; pd = page_pd (mach s) addr in
      if IO_MEM_ROM < low_bits_u64 pd \<and> pd AND IO_MEM_ROMD = 0 then
        (let addr1 = io_region_address (mach s) addr; w = io_width addr1 l
         in comp_bind (io_mem_read p (io_index (ucast pd)) (size_shift w) addr1 s) (\<lambda>(v, s1). ret (bytes_of_value w v, s1)))
      else comp_bind (ram_ptr (page_of_u64 pd) s) (\<lambda>(ptr, s1). ret (get_bytes l (ptr + low_addr addr) (system.host s1), s1)))"

partial_function (option) physical_write :: "'d invalidate \<Rightarrow> 'd softmmu \<Rightarrow> u32 \<Rightarrow> u8 list \<Rightarrow> 'd system \<Rightarrow> 'd system comp" where
  "physical_write tbi p addr buf s =
     (if buf = [] then ret s
      else comp_bind (write_part tbi p addr buf s) (\<lambda>r. physical_write tbi p (addr + of_nat (fst r)) (drop (fst r) buf) (snd r)))"

partial_function (option) physical_read :: "'d softmmu \<Rightarrow> u32 \<Rightarrow> nat \<Rightarrow> 'd system \<Rightarrow> (u8 list \<times> 'd system) comp" where
  "physical_read p addr len s =
     (if len = 0 then ret ([], s)
      else comp_bind (read_part p addr len s) (\<lambda>r.
           comp_bind (physical_read p (addr + of_nat (length (fst r))) (len - length (fst r)) (snd r)) (\<lambda>r'.
             ret (fst r @ fst r', snd r'))))"

text \<open>The buffer after the call.\<close>

definition cpu_physical_memory_rw ::
  "'d invalidate \<Rightarrow> 'd softmmu \<Rightarrow> u32 \<Rightarrow> u8 list \<Rightarrow> bool \<Rightarrow> 'd system \<Rightarrow> (u8 list \<times> 'd system) comp" where
  "cpu_physical_memory_rw tbi p addr buf is_write s =
     (if is_write then comp_bind (physical_write tbi p addr buf s) (\<lambda>s1. ret (buf, s1))
      else physical_read p addr (length buf) s)"

section \<open>Writes that reach ROM\<close>

definition rom_part :: "u32 \<Rightarrow> u8 list \<Rightarrow> 'd system \<Rightarrow> 'd system comp" where
  "rom_part addr buf s =
     (let pd = page_pd (mach s) addr in
      if low_bits_u64 pd \<noteq> IO_MEM_RAM \<and> low_bits_u64 pd \<noteq> IO_MEM_ROM \<and> pd AND IO_MEM_ROMD = 0 then ret s
      else comp_bind (ram_ptr (page_of_u64 pd + low_addr addr) s) (\<lambda>(ptr, s1).
           ret (put_host (put_bytes ptr buf (system.host s1)) s1)))"

partial_function (option) cpu_physical_memory_write_rom :: "u32 \<Rightarrow> u8 list \<Rightarrow> 'd system \<Rightarrow> 'd system comp" where
  "cpu_physical_memory_write_rom addr buf s =
     (if buf = [] then ret s
      else let l = page_part addr (length buf) in
        comp_bind (rom_part addr (take l buf) s) (\<lambda>s1. cpu_physical_memory_write_rom (addr + of_nat l) (drop l buf) s1))"

section \<open>Words\<close>

definition phys_io :: "u64 \<Rightarrow> bool" where
  "phys_io pd \<longleftrightarrow> IO_MEM_ROM < low_bits_u64 pd \<and> pd AND IO_MEM_ROMD = 0"

definition ldl_physical :: "'d softmmu \<Rightarrow> u32 \<Rightarrow> 'd system \<Rightarrow> (u32 \<times> 'd system) comp" where
  "ldl_physical p addr s =
     (let pd = page_pd (mach s) addr in
      if phys_io pd then io_mem_read p (io_index (ucast pd)) 2 (io_region_address (mach s) addr) s
      else comp_bind (ram_ptr (page_of_u64 pd) s) (\<lambda>(ptr, s1). ret (ucast (ld_raw 4 (system.host s1) (ptr + low_addr addr)), s1)))"

definition ldq_phys :: "'d softmmu \<Rightarrow> u32 \<Rightarrow> 'd system \<Rightarrow> (u64 \<times> 'd system) comp" where
  "ldq_phys p addr s =
     (let pd = page_pd (mach s) addr; a = io_region_address (mach s) addr; i = io_index (ucast pd) in
      if phys_io pd then
        comp_bind (io_mem_read p i 2 a s) (\<lambda>(lo, s1).
        comp_bind (io_mem_read p i 2 (a + 4) s1) (\<lambda>(hi, s2). ret (ucast lo OR push_bit 32 (ucast hi), s2)))
      else comp_bind (ram_ptr (page_of_u64 pd) s) (\<lambda>(ptr, s1). ret (ld_raw 8 (system.host s1) (ptr + low_addr addr), s1)))"

definition ldub_phys :: "'d softmmu \<Rightarrow> u32 \<Rightarrow> 'd system \<Rightarrow> (u32 \<times> 'd system) comp" where
  "ldub_phys p addr s = comp_bind (physical_read p addr 1 s) (\<lambda>(bs, s1). ret (value_of_bytes bs, s1))"

definition lduw_phys :: "'d softmmu \<Rightarrow> u32 \<Rightarrow> 'd system \<Rightarrow> (u32 \<times> 'd system) comp" where
  "lduw_phys p addr s = comp_bind (physical_read p addr 2 s) (\<lambda>(bs, s1). ret (value_of_bytes bs, s1))"

text \<open>A store of a word; \<open>mark\<close>: what happens to the page afterwards.\<close>

definition store_word ::
  "'d softmmu \<Rightarrow> (u64 \<Rightarrow> nat \<Rightarrow> 'd system \<Rightarrow> 'd system comp) \<Rightarrow> u32 \<Rightarrow> u32 \<Rightarrow> 'd system \<Rightarrow> 'd system comp" where
  "store_word p mark addr val s =
     (let pd = page_pd (mach s) addr in
      if low_bits_u64 pd \<noteq> IO_MEM_RAM then io_mem_write p (io_index (ucast pd)) 2 (io_region_address (mach s) addr) val s
      else let addr1 = page_of_u64 pd + low_addr addr in
           comp_bind (ram_ptr addr1 s) (\<lambda>(ptr, s1). mark addr1 4 (put_host (st_raw 4 ptr (ucast val) (system.host s1)) s1)))"

definition stl_phys_notdirty :: "'d invalidate \<Rightarrow> 'd softmmu \<Rightarrow> bool \<Rightarrow> u32 \<Rightarrow> u32 \<Rightarrow> 'd system \<Rightarrow> 'd system comp" where
  "stl_phys_notdirty tbi p in_migration addr val s =
     store_word p (if in_migration then mark_written tbi else (\<lambda>_ _ s. ret s)) addr val s"

definition stl_physical :: "'d invalidate \<Rightarrow> 'd softmmu \<Rightarrow> u32 \<Rightarrow> u32 \<Rightarrow> 'd system \<Rightarrow> 'd system comp" where
  "stl_physical tbi p addr val s = store_word p (mark_written tbi) addr val s"

definition stq_phys_notdirty :: "'d softmmu \<Rightarrow> u32 \<Rightarrow> u64 \<Rightarrow> 'd system \<Rightarrow> 'd system comp" where
  "stq_phys_notdirty p addr val s =
     (let pd = page_pd (mach s) addr; a = io_region_address (mach s) addr; i = io_index (ucast pd) in
      if low_bits_u64 pd \<noteq> IO_MEM_RAM then
        comp_bind (io_mem_write p i 2 a (ucast val) s) (\<lambda>s1. io_mem_write p i 2 (a + 4) (ucast (drop_bit 32 val)) s1)
      else comp_bind (ram_ptr (page_of_u64 pd) s) (\<lambda>(ptr, s1).
           ret (put_host (st_raw 8 (ptr + low_addr addr) val (system.host s1)) s1)))"

definition stb_phys :: "'d invalidate \<Rightarrow> 'd softmmu \<Rightarrow> u32 \<Rightarrow> u32 \<Rightarrow> 'd system \<Rightarrow> 'd system comp" where
  "stb_phys tbi p addr val s = physical_write tbi p addr (bytes_of_value 1 val) s"

definition stw_phys :: "'d invalidate \<Rightarrow> 'd softmmu \<Rightarrow> u32 \<Rightarrow> u32 \<Rightarrow> 'd system \<Rightarrow> 'd system comp" where
  "stw_phys tbi p addr val s = physical_write tbi p addr (bytes_of_value 2 val) s"

definition stq_phys :: "'d invalidate \<Rightarrow> 'd softmmu \<Rightarrow> u32 \<Rightarrow> u64 \<Rightarrow> 'd system \<Rightarrow> 'd system comp" where
  "stq_phys tbi p addr val s = physical_write tbi p addr (bytes_of_value 4 (ucast val) @ bytes_of_value 4 (ucast (drop_bit 32 val))) s"

section \<open>Virtual addresses, for the debugger\<close>

text \<open>The return value and the buffer; an unmapped page ends the transfer with -1.\<close>

partial_function (option) debug_write :: "u32 \<Rightarrow> u8 list \<Rightarrow> 'd system \<Rightarrow> (int \<times> 'd system) comp" where
  "debug_write addr buf s =
     (if buf = [] then ret (0, s)
      else comp_bind (cpu_get_phys_page_debug (ram (world s)) (cpu (world s)) (addr AND TARGET_PAGE_MASK)) (\<lambda>phys.
        if phys = - 1 then ret (- 1, s)
        else let l = page_part addr (length buf) in
          comp_bind (cpu_physical_memory_write_rom (phys + (addr AND NOT TARGET_PAGE_MASK)) (take l buf) s) (\<lambda>s1.
            debug_write (addr + of_nat l) (drop l buf) s1)))"

partial_function (option) debug_read :: "'d softmmu \<Rightarrow> u32 \<Rightarrow> nat \<Rightarrow> 'd system \<Rightarrow> (int \<times> u8 list \<times> 'd system) comp" where
  "debug_read p addr len s =
     (if len = 0 then ret (0, [], s)
      else comp_bind (cpu_get_phys_page_debug (ram (world s)) (cpu (world s)) (addr AND TARGET_PAGE_MASK)) (\<lambda>phys.
        if phys = - 1 then ret (- 1, [], s)
        else let l = page_part addr len in
          comp_bind (physical_read p (phys + (addr AND NOT TARGET_PAGE_MASK)) l s) (\<lambda>r.
          comp_bind (debug_read p (addr + of_nat l) (len - l) (snd r)) (\<lambda>r'.
            ret (fst r', fst r @ fst (snd r'), snd (snd r'))))))"

text \<open>A read that fails leaves the rest of the buffer as it was.\<close>

definition cpu_memory_rw_debug :: "'d softmmu \<Rightarrow> u32 \<Rightarrow> u8 list \<Rightarrow> bool \<Rightarrow> 'd system \<Rightarrow> (int \<times> u8 list \<times> 'd system) comp" where
  "cpu_memory_rw_debug p addr buf is_write s =
     (if is_write then comp_bind (debug_write addr buf s) (\<lambda>(r, s1). ret (r, buf, s1))
      else comp_bind (debug_read p addr (length buf) s) (\<lambda>(r, bs, s1). ret (r, bs @ drop (length bs) buf, s1)))"

section \<open>RAM seen through the map\<close>

text \<open>
  The byte at a physical address is in a page of RAM that lies in one block and has a dirty byte; its host address is given.
\<close>

definition ram_byte_at :: "machine \<Rightarrow> u32 \<Rightarrow> u64 \<Rightarrow> bool" where
  "ram_byte_at m a x \<longleftrightarrow>
     (let pd = page_pd m a; page = page_of_u64 pd in
      low_bits_u64 pd = IO_MEM_RAM \<and> page_index pd < length (phys_dirty (ram_list m)) \<and>
      (\<exists>b\<in>set (blocks (ram_list m)). unat (page - offset b) + 1024 \<le> unat (blength b) \<and> x = RAMBlock.host b + (page - offset b) + low_addr a))"

text \<open>The same map and the same RAM, up to the order of the blocks and the dirty bytes.\<close>

definition same_map :: "machine \<Rightarrow> machine \<Rightarrow> bool" where
  "same_map m m' \<longleftrightarrow> phys_page_find m' = phys_page_find m \<and> set (blocks (ram_list m')) = set (blocks (ram_list m)) \<and>
     length (phys_dirty (ram_list m')) = length (phys_dirty (ram_list m))"

definition keeps_memory :: "'d invalidate \<Rightarrow> bool" where
  "keeps_memory tbi \<longleftrightarrow> (\<forall>a b s. \<exists>s'. tbi a b s = ret s' \<and> mach s' = mach s \<and> system.host s' = system.host s)"

lemma same_map_refl [simp]: "same_map m m"
  by (simp add: same_map_def)

lemma same_map_trans [trans]: "same_map m m' \<Longrightarrow> same_map m' m'' \<Longrightarrow> same_map m m''"
  by (simp add: same_map_def)

lemma same_map_keeps:
  assumes "same_map m m'"
  shows "page_pd m' a = page_pd m a" "ram_byte_at m' a x \<longleftrightarrow> ram_byte_at m a x"
    "disjoint_blocks (blocks (ram_list m')) \<longleftrightarrow> disjoint_blocks (blocks (ram_list m))"
proof -
  show pd: "page_pd m' a = page_pd m a" using assms by (simp add: same_map_def page_pd_def)
  show "ram_byte_at m' a x \<longleftrightarrow> ram_byte_at m a x" using assms by (simp add: ram_byte_at_def pd same_map_def)
  show "disjoint_blocks (blocks (ram_list m')) \<longleftrightarrow> disjoint_blocks (blocks (ram_list m))"
    using assms by (simp add: same_map_def disjoint_blocks_def)
qed

lemma unat_low_addr: "unat (low_addr a) = unat a mod 1024"
  by (simp add: low_addr_def unat_wide page_offset)

lemma page_part_eq: "page_part addr len = min len (1024 - unat addr mod 1024)"
proof -
  have "addr = (addr AND TARGET_PAGE_MASK) + (addr AND NOT TARGET_PAGE_MASK)"
  proof -
    have "(addr AND TARGET_PAGE_MASK) AND (addr AND NOT TARGET_PAGE_MASK) = 0" by (rule bit_word_eqI) (simp add: bit_simps)
    then have "(addr AND TARGET_PAGE_MASK) + (addr AND NOT TARGET_PAGE_MASK) = (addr AND TARGET_PAGE_MASK) OR (addr AND NOT TARGET_PAGE_MASK)"
      by (simp add: disjunctive_add_eq_or)
    also have "\<dots> = addr" by (rule bit_word_eqI) (auto simp: bit_simps)
    finally show ?thesis by simp
  qed
  then have "(addr AND TARGET_PAGE_MASK) + TARGET_PAGE_SIZE - addr = TARGET_PAGE_SIZE - (addr AND NOT TARGET_PAGE_MASK)" by (simp add: algebra_simps)
  moreover have "unat (TARGET_PAGE_SIZE - (addr AND NOT TARGET_PAGE_MASK)) = 1024 - unat addr mod 1024"
    by (subst unat_sub) (simp_all add: word_le_nat_alt page_offset TARGET_PAGE_SIZE_def less_imp_le)
  ultimately have l: "unat ((addr AND TARGET_PAGE_MASK) + TARGET_PAGE_SIZE - addr) = 1024 - unat addr mod 1024" by (simp only:)
  show ?thesis unfolding page_part_def Let_def l by simp
qed

text \<open>The pointer to a byte of the page.\<close>

lemma in_block_page:
  assumes "unat (page - offset b) + 1024 \<le> unat (blength b)" and "unat o' < 1024"
  shows "in_block (page + o') b" "(page + o') - offset b = (page - offset b) + o'"
proof -
  show e: "(page + o') - offset b = (page - offset b) + o'" by simp
  have "unat (blength b) < 2 ^ 64" using unsigned_less [of "blength b"] by simp
  then have "unat ((page - offset b) + o') = unat (page - offset b) + unat o'"
    using assms by (simp add: unat_word_ariths)
  then show "in_block (page + o') b" unfolding in_block_def e using assms by (simp add: word_less_nat_alt)
qed

lemma ram_ptr_at:
  assumes "disjoint_blocks (blocks (ram_list (mach s)))" and "b \<in> set (blocks (ram_list (mach s)))"
    and "unat (page - offset b) + 1024 \<le> unat (blength b)" and "unat o' < 1024"
  shows "\<exists>s'. ram_ptr (page + o') s = ret (RAMBlock.host b + (page - offset b) + o', s') \<and> same_map (mach s) (mach s') \<and>
    system.host s' = system.host s \<and> phys_dirty (ram_list (mach s')) = phys_dirty (ram_list (mach s))"
proof -
  note p = in_block_page [OF assms(3,4)]
  have f: "find (in_block (page + o')) (blocks (ram_list (mach s))) = Some b" by (rule find_in_block [OF assms(1,2) p(1)])
  have "set (b # remove1 b (blocks (ram_list (mach s)))) = set (blocks (ram_list (mach s)))"
    using assms(2) set_remove1_subset [of b "blocks (ram_list (mach s))"] by auto (metis in_set_remove1)
  then show ?thesis
    by (simp add: ram_ptr_def qemu_get_ram_ptr_def f p(2) put_ram_list_def same_map_def add.assoc)
qed


lemma low_of_page: "low_bits_u64 pd = IO_MEM_RAM \<Longrightarrow> page_of_u64 pd = pd"
proof -
  assume "low_bits_u64 pd = IO_MEM_RAM"
  then have z: "pd AND mask TARGET_PAGE_BITS = 0" by (simp add: low_bits_u64_def IO_MEM_RAM_def)
  have "pd = (pd AND NOT (mask TARGET_PAGE_BITS)) OR (pd AND mask TARGET_PAGE_BITS)" by (rule bit_word_eqI) (auto simp: bit_simps)
  then show ?thesis by (simp add: z page_of_u64_def)
qed

lemma page_index_low:
  assumes "low_bits_u64 pd = IO_MEM_RAM" and "unat o' < 1024"
  shows "page_index (pd + o') = page_index pd"
proof -
  have "unat pd = unat pd div 1024 * 1024" using unat_page_of_u64 [of pd] low_of_page [OF assms(1)] by simp
  moreover have "unat pd < 2 ^ 64" using unsigned_less [of pd] by simp
  ultimately obtain q where q: "unat pd = q * 1024" "q * 1024 < 2 ^ 64" by metis
  then have "q * 1024 + unat o' < 2 ^ 64" using assms(2) by simp
  then have "unat (pd + o') = q * 1024 + unat o'" using q by (simp add: unat_word_ariths)
  then show ?thesis using q assms(2) by (simp add: page_index_def TARGET_PAGE_BITS_def drop_bit_eq_div unat_div)
qed

lemma mark_written_keeps:
  assumes "keeps_memory tbi" and "page_index a < length (phys_dirty (ram_list (mach s)))"
  shows "\<exists>s'. mark_written tbi a l s = ret s' \<and> same_map (mach s) (mach s') \<and> system.host s' = system.host s"
proof -
  obtain s1 where s1: "tbi a (a + of_nat l) s = ret s1" "mach s1 = mach s" "system.host s1 = system.host s"
    using assms(1) unfolding keeps_memory_def by blast
  show ?thesis
    using assms(2) by (simp add: mark_written_def cpu_physical_memory_is_dirty_def cpu_physical_memory_get_dirty_flags_def
      cpu_physical_memory_set_dirty_flags_def s1 put_ram_list_def same_map_def)
qed

lemma same_page:
  assumes "unat addr mod 1024 + i < 1024"
  shows "page_pd m (addr + of_nat i) = page_pd m addr" "low_addr (addr + of_nat i) = low_addr addr + of_nat i"
proof -
  have "unat (addr + of_nat i) div 1024 = unat addr div 1024"
    using in_page(1) [OF assms] by (simp only: page_eq_iff)
  then have "drop_bit TARGET_PAGE_BITS (addr + of_nat i) = drop_bit TARGET_PAGE_BITS addr"
    by (simp add: word_unat_eq_iff unat_page)
  then show "page_pd m (addr + of_nat i) = page_pd m addr" by (simp add: page_pd_def)
  have "unat (low_addr (addr + of_nat i)) = unat addr mod 1024 + i"
    unfolding unat_low_addr in_page(2) [OF assms] using assms by (metis mod_add_left_eq mod_less)
  moreover have "unat (low_addr addr + of_nat i) = unat addr mod 1024 + i"
    using assms by (simp add: unat_word_ariths unat_low_addr unat_of_nat)
  ultimately show "low_addr (addr + of_nat i) = low_addr addr + of_nat i" by (simp only: word_unat_eq_iff)
qed

lemma bytes_of_page:
  assumes "disjoint_blocks (blocks (ram_list m))" and "ram_byte_at m addr x" and "ram_byte_at m (addr + of_nat i) y"
    and "unat addr mod 1024 + i < 1024"
  shows "y = x + of_nat i"
proof -
  let ?page = "page_of_u64 (page_pd m addr)"
  obtain b where b: "b \<in> set (blocks (ram_list m))" "unat (?page - offset b) + 1024 \<le> unat (blength b)"
      "x = RAMBlock.host b + (?page - offset b) + low_addr addr"
    using assms(2) by (auto simp: ram_byte_at_def Let_def)
  obtain b' where b': "b' \<in> set (blocks (ram_list m))" "unat (?page - offset b') + 1024 \<le> unat (blength b')"
      "y = RAMBlock.host b' + (?page - offset b') + low_addr (addr + of_nat i)"
    using assms(3) by (auto simp: ram_byte_at_def Let_def same_page(1) [OF assms(4)])
  have "in_block ?page b" "in_block ?page b'" using in_block_page(1) [OF b(2), of 0] in_block_page(1) [OF b'(2), of 0] by simp_all
  then have "b = b'" using assms(1) b(1) b'(1) by (auto simp: disjoint_blocks_def block_range_def)
  with b(3) b'(3) show ?thesis by (simp add: same_page(2) [OF assms(4)])
qed


section \<open>Transfers on RAM\<close>

lemma put_bytes_other: "(\<And>i. i < length bs \<Longrightarrow> x \<noteq> a + of_nat i) \<Longrightarrow> put_bytes a bs h x = h x"
proof (induction bs arbitrary: a h)
  case (Cons b bs)
  have "x \<noteq> a + 1 + of_nat i" if "i < length bs" for i using Cons.prems [of "Suc i"] that by (simp add: add.assoc)
  moreover have "x \<noteq> a" using Cons.prems [of 0] by simp
  ultimately show ?case using Cons.IH by simp
qed simp

lemma put_bytes_at: "i < length bs \<Longrightarrow> length bs \<le> 1024 \<Longrightarrow> put_bytes a bs h (a + of_nat i) = bs ! i"
proof (induction bs arbitrary: a h i)
  case (Cons b bs)
  show ?case
  proof (cases i)
    case 0
    have "a \<noteq> a + 1 + of_nat j" if "j < length bs" for j
    proof -
      have "unat (of_nat (Suc j) :: u64) = Suc j" using that Cons.prems(2) by (simp only: unat_of_nat) simp
      then have "of_nat (Suc j) \<noteq> (0 :: u64)" by force
      then show ?thesis by (simp add: add.assoc)
    qed
    then have "put_bytes (a + 1) bs (h(a := b)) a = b" by (subst put_bytes_other) auto
    with 0 show ?thesis by simp
  next
    case (Suc j)
    then have "put_bytes (a + 1) bs (h(a := b)) (a + 1 + of_nat j) = bs ! j" using Cons by simp
    with Suc show ?thesis by (simp add: add.assoc)
  qed
qed simp

text \<open>A write to the host addresses \<open>f\<close> stores the bytes there and nowhere else.\<close>

definition written :: "(nat \<Rightarrow> u64) \<Rightarrow> u8 list \<Rightarrow> (u64 \<Rightarrow> u8) \<Rightarrow> (u64 \<Rightarrow> u8) \<Rightarrow> bool" where
  "written f buf h h' \<longleftrightarrow> (\<forall>i<length buf. h' (f i) = buf ! i) \<and> (\<forall>x. x \<notin> f ` {..<length buf} \<longrightarrow> h' x = h x)"

lemma written_append:
  assumes "written f (take l buf) h h1" and "written (\<lambda>i. f (i + l)) (drop l buf) h1 h2" and "l \<le> length buf"
    and "inj_on f {..<length buf}"
  shows "written f buf h h2"
proof -
  have out: "f i \<notin> (\<lambda>i. f (i + l)) ` {..<length (drop l buf)}" if "i < l" for i
    using inj_onD [OF assms(4)] that assms(3) by fastforce
  have "h2 (f i) = buf ! i" if "i < length buf" for i
  proof (cases "i < l")
    case True
    then have "h2 (f i) = h1 (f i)" using assms(2) out by (auto simp: written_def)
    with True assms(1,3) show ?thesis by (simp add: written_def)
  next
    case False
    moreover have "i - l < length (drop l buf) \<longrightarrow> h2 (f (i - l + l)) = drop l buf ! (i - l)"
      using assms(2) unfolding written_def by blast
    ultimately show ?thesis using that by (simp add: less_diff_conv)
  qed
  moreover have "h2 x = h x" if x: "x \<notin> f ` {..<length buf}" for x
  proof -
    have "x \<notin> (\<lambda>i. f (i + l)) ` {..<length (drop l buf)}" "x \<notin> f ` {..<length (take l buf)}"
      using x assms(3) by auto
    then show ?thesis using assms(1,2) by (auto simp: written_def)
  qed
  ultimately show ?thesis by (auto simp: written_def)
qed

lemma write_part_ram:
  assumes "keeps_memory tbi" and "disjoint_blocks (blocks (ram_list (mach s)))" and "buf \<noteq> []"
    and "\<And>i. i < length buf \<Longrightarrow> ram_byte_at (mach s) (addr + of_nat i) (f i)"
  shows "\<exists>s'. write_part tbi p addr buf s = ret (page_part addr (length buf), s') \<and> same_map (mach s) (mach s') \<and>
    written f (take (page_part addr (length buf)) buf) (system.host s) (system.host s')"
proof -
  let ?l = "page_part addr (length buf)" and ?pd = "page_pd (mach s) addr"
  have r0: "ram_byte_at (mach s) addr (f 0)" using assms(4) [of 0] assms(3) by simp
  then obtain b where b: "b \<in> set (blocks (ram_list (mach s)))" "unat (page_of_u64 ?pd - offset b) + 1024 \<le> unat (blength b)"
      "f 0 = RAMBlock.host b + (page_of_u64 ?pd - offset b) + low_addr addr" and pd: "low_bits_u64 ?pd = IO_MEM_RAM"
      "page_index ?pd < length (phys_dirty (ram_list (mach s)))"
    by (auto simp: ram_byte_at_def Let_def)
  have low: "unat (low_addr addr) < 1024" by (simp add: unat_low_addr)
  obtain s1 where s1: "ram_ptr (page_of_u64 ?pd + low_addr addr) s = ret (f 0, s1)" "same_map (mach s) (mach s1)"
      "system.host s1 = system.host s" "phys_dirty (ram_list (mach s1)) = phys_dirty (ram_list (mach s))"
    using ram_ptr_at [OF assms(2) b(1,2) low] b(3) by auto
  let ?h = "put_bytes (f 0) (take ?l buf) (system.host s)"
  have "page_index (page_of_u64 ?pd + low_addr addr) < length (phys_dirty (ram_list (mach (put_host ?h s1))))"
    using pd(2) low by (simp add: low_of_page [OF pd(1)] page_index_low [OF pd(1)] s1(4))
  from mark_written_keeps [OF assms(1) this, of ?l] obtain s2 where
    s2: "mark_written tbi (page_of_u64 ?pd + low_addr addr) ?l (put_host ?h s1) = ret s2" "same_map (mach s1) (mach s2)" "system.host s2 = ?h"
    by auto
  have l: "?l \<le> length buf" "?l \<le> 1024" "unat addr mod 1024 + i < 1024" if "i < ?l" for i using that by (auto simp: page_part_eq)
  have f: "f i = f 0 + of_nat i" if "i < ?l" for i
    using that l(1) [OF that] by (intro bytes_of_page [OF assms(2) r0 assms(4) l(3) [OF that]]) simp
  have "written f (take ?l buf) (system.host s) ?h"
    unfolding written_def
  proof (intro conjI allI impI)
    fix i
    assume i: "i < length (take ?l buf)"
    then have "i < ?l" by simp
    note e = f [OF this]
    have "length (take ?l buf) \<le> 1024" using l(2) [OF \<open>i < ?l\<close>] by simp
    then show "?h (f i) = take ?l buf ! i" unfolding e by (intro put_bytes_at [OF i])
  next
    fix x
    assume "x \<notin> f ` {..<length (take ?l buf)}"
    then have "x \<noteq> f i" if "i < length (take ?l buf)" for i using that by blast
    then have "x \<noteq> f 0 + of_nat i" if "i < length (take ?l buf)" for i using that f [of i] by fastforce
    then show "?h x = system.host s x" by (rule put_bytes_other)
  qed
  then show ?thesis
    using s1(1,3) s2(1,3) pd(1) same_map_trans [OF s1(2) s2(2)] by (simp add: write_part_def Let_def)
qed


lemma page_part_bounds: "0 < n \<Longrightarrow> 0 < page_part addr n \<and> page_part addr n \<le> n"
  by (simp add: page_part_eq)

lemma physical_write_ram:
  assumes "keeps_memory tbi" and "disjoint_blocks (blocks (ram_list (mach s)))"
    and "\<And>i. i < length buf \<Longrightarrow> ram_byte_at (mach s) (addr + of_nat i) (f i)" and "inj_on f {..<length buf}"
  shows "\<exists>s'. physical_write tbi p addr buf s = ret s' \<and> same_map (mach s) (mach s') \<and> written f buf (system.host s) (system.host s')"
  using assms(2-)
proof (induction "length buf" arbitrary: buf addr f s rule: less_induct)
  case less
  show ?case
  proof (cases "buf = []")
    case True
    then show ?thesis by (subst physical_write.simps) (simp add: written_def)
  next
    case False
    let ?l = "page_part addr (length buf)"
    have l: "0 < ?l" "?l \<le> length buf" using False page_part_bounds [of "length buf" addr] by simp_all
    obtain s1 where s1: "write_part tbi p addr buf s = ret (?l, s1)" "same_map (mach s) (mach s1)"
        "written f (take ?l buf) (system.host s) (system.host s1)"
      using write_part_ram [OF assms(1) less.prems(1) False less.prems(2)] by blast
    have "ram_byte_at (mach s1) (addr + of_nat ?l + of_nat i) (f (i + ?l))" if "i < length (drop ?l buf)" for i
      using less.prems(2) [of "i + ?l"] that by (simp add: same_map_keeps [OF s1(2)] algebra_simps)
    moreover have "inj_on (\<lambda>i. f (i + ?l)) {..<length (drop ?l buf)}"
      using less.prems(3) by (auto intro!: inj_onI dest!: inj_onD)
    moreover have "length (drop ?l buf) < length buf" using l by simp
    ultimately obtain s2 where s2: "physical_write tbi p (addr + of_nat ?l) (drop ?l buf) s1 = ret s2" "same_map (mach s1) (mach s2)"
        "written (\<lambda>i. f (i + ?l)) (drop ?l buf) (system.host s1) (system.host s2)"
      using less.hyps [of "drop ?l buf" s1 "addr + of_nat ?l" "\<lambda>i. f (i + ?l)"] less.prems(1) same_map_keeps(3) [OF s1(2)] by blast
    show ?thesis
      using False s1(1) s2(1) same_map_trans [OF s1(2) s2(2)] written_append [OF s1(3) s2(3) l(2) less.prems(3)]
      by (subst physical_write.simps) simp
  qed
qed

lemma read_part_ram:
  assumes "disjoint_blocks (blocks (ram_list (mach s)))" and "0 < n"
    and "\<And>i. i < n \<Longrightarrow> ram_byte_at (mach s) (addr + of_nat i) (f i)"
  shows "\<exists>s'. read_part p addr n s = ret (map (\<lambda>i. system.host s (f i)) [0..<page_part addr n], s') \<and> same_map (mach s) (mach s') \<and>
    system.host s' = system.host s"
proof -
  let ?l = "page_part addr n" and ?pd = "page_pd (mach s) addr"
  have r0: "ram_byte_at (mach s) addr (f 0)" using assms(3) [of 0] assms(2) by simp
  then obtain b where b: "b \<in> set (blocks (ram_list (mach s)))" "unat (page_of_u64 ?pd - offset b) + 1024 \<le> unat (blength b)"
      "f 0 = RAMBlock.host b + (page_of_u64 ?pd - offset b) + low_addr addr" and pd: "low_bits_u64 ?pd = IO_MEM_RAM"
    by (auto simp: ram_byte_at_def Let_def)
  obtain s1 where s1: "ram_ptr (page_of_u64 ?pd) s = ret (RAMBlock.host b + (page_of_u64 ?pd - offset b), s1)" "same_map (mach s) (mach s1)"
      "system.host s1 = system.host s"
    using ram_ptr_at [OF assms(1) b(1,2), of 0] by auto
  have f: "f i = f 0 + of_nat i" if "i < ?l" for i
    using that by (intro bytes_of_page [OF assms(1) r0 assms(3)]) (auto simp: page_part_eq)
  have "system.host s (f 0 + of_nat i) = system.host s (f i)" if "i < ?l" for i using f [OF that] by (simp only:)
  then have "get_bytes ?l (f 0) (system.host s) = map (\<lambda>i. system.host s (f i)) [0..<?l]" by (simp add: get_bytes_def)
  then show ?thesis
    using s1 pd by (simp add: read_part_def Let_def b(3) IO_MEM_RAM_def IO_MEM_ROM_def)
qed

lemma physical_read_ram:
  assumes "disjoint_blocks (blocks (ram_list (mach s)))" and "\<And>i. i < n \<Longrightarrow> ram_byte_at (mach s) (addr + of_nat i) (f i)"
  shows "\<exists>s'. physical_read p addr n s = ret (map (\<lambda>i. system.host s (f i)) [0..<n], s') \<and> same_map (mach s) (mach s') \<and>
    system.host s' = system.host s"
  using assms
proof (induction n arbitrary: addr f s rule: less_induct)
  case (less n)
  show ?case
  proof (cases "n = 0")
    case True
    then show ?thesis by (subst physical_read.simps) simp
  next
    case False
    let ?l = "page_part addr n"
    have l: "0 < ?l" "?l \<le> n" using False page_part_bounds [of n addr] by simp_all
    obtain s1 where s1: "read_part p addr n s = ret (map (\<lambda>i. system.host s (f i)) [0..<?l], s1)" "same_map (mach s) (mach s1)"
        "system.host s1 = system.host s"
      using read_part_ram [OF less.prems(1) _ less.prems(2)] False by blast
    have "ram_byte_at (mach s1) (addr + of_nat ?l + of_nat i) (f (i + ?l))" if "i < n - ?l" for i
      using less.prems(2) [of "i + ?l"] that by (simp add: same_map_keeps [OF s1(2)] algebra_simps)
    then obtain s2 where s2: "physical_read p (addr + of_nat ?l) (n - ?l) s1 = ret (map (\<lambda>i. system.host s (f (i + ?l))) [0..<n - ?l], s2)"
        "same_map (mach s1) (mach s2)" "system.host s2 = system.host s"
      using less.IH [of "n - ?l" s1 "addr + of_nat ?l" "\<lambda>i. f (i + ?l)"] less.prems(1) l False by (auto simp: same_map_keeps [OF s1(2)] s1(3))
    have "map (\<lambda>i. system.host s (f i)) [0..<?l] @ map (\<lambda>i. system.host s (f (i + ?l))) [0..<n - ?l] = map (\<lambda>i. system.host s (f i)) [0..<n]"
      using l(2) by (intro nth_equalityI) (auto simp: nth_append)
    then show ?thesis
      using False s1 s2 same_map_trans [OF s1(2) s2(2)] by (subst physical_read.simps) simp
  qed
qed


text \<open>
  C13. A device reads back what a device wrote to RAM: \<open>cpu_physical_memory_rw\<close> stores a buffer of any length, across any number of
  pages and blocks, and reading the same range returns it. Host memory changes exactly in the bytes of the range, which have distinct host
  addresses; the map and the blocks stay the same up to the order of the blocks and the dirty bytes. The invalidation of generated code
  is assumed to leave memory alone.
\<close>

theorem physical_write_then_read:
  assumes "keeps_memory tbi" and "disjoint_blocks (blocks (ram_list (mach s)))"
    and "\<forall>i<length buf. ram_byte_at (mach s) (addr + of_nat i) (f i)" and "inj_on f {..<length buf}" and "length buf' = length buf"
  shows "\<exists>s1 s2. cpu_physical_memory_rw tbi p addr buf True s = ret (buf, s1) \<and>
    cpu_physical_memory_rw tbi p addr buf' False s1 = ret (buf, s2) \<and>
    written f buf (system.host s) (system.host s1) \<and> system.host s2 = system.host s1 \<and> same_map (mach s) (mach s2)"
proof -
  obtain s1 where s1: "physical_write tbi p addr buf s = ret s1" "same_map (mach s) (mach s1)" "written f buf (system.host s) (system.host s1)"
    using physical_write_ram [OF assms(1,2) _ assms(4), of addr p] assms(3) by blast
  have "ram_byte_at (mach s1) (addr + of_nat i) (f i)" if "i < length buf" for i
    using assms(3) that by (simp add: same_map_keeps [OF s1(2)])
  moreover have "disjoint_blocks (blocks (ram_list (mach s1)))" using assms(2) by (simp add: same_map_keeps [OF s1(2)])
  ultimately obtain s2 where s2: "physical_read p addr (length buf) s1 = ret (map (\<lambda>i. system.host s1 (f i)) [0..<length buf], s2)"
      "same_map (mach s1) (mach s2)" "system.host s2 = system.host s1"
    using physical_read_ram by blast
  have "map (\<lambda>i. system.host s1 (f i)) [0..<length buf] = buf"
    using s1(3) by (intro nth_equalityI) (simp_all add: written_def)
  then show ?thesis
    using s1 s2 same_map_trans [OF s1(2) s2(2)] assms(5) by (auto simp: cpu_physical_memory_rw_def)
qed

theorem physical_write_then_read_witness:
  "\<exists>s1 s2. cpu_physical_memory_rw (\<lambda>_ _ s. ret s) no_io 0x3FE [1, 2, 3, 4] True running_example = ret ([1, 2, 3, 4], s1) \<and>
     cpu_physical_memory_rw (\<lambda>_ _ s. ret s) no_io 0x3FE [0, 0, 0, 0] False s1 = ret ([1, 2, 3, 4], s2)"
proof -
  let ?f = "\<lambda>i. 0x73FE + of_nat i :: u64" and ?m = "mach running_example"
  have k: "keeps_memory (\<lambda>_ _ (s :: unit system). ret s)" by (simp add: keeps_memory_def)
  have "ram_byte_at ?m 0x3FE 0x73FE" "ram_byte_at ?m 0x3FF 0x73FF" "ram_byte_at ?m 0x400 0x7400" "ram_byte_at ?m 0x401 0x7401" by code_simp+
  then have r: "\<forall>i<4. ram_byte_at ?m (0x3FE + of_nat i) (?f i)" by (auto simp: less_Suc_eq numeral_eq_Suc)
  have d: "disjoint_blocks (blocks (ram_list ?m))" using two_blocks_disjoint by (simp add: running_example_def small_machine_def)
  have n: "length ([1, 2, 3, 4] :: u8 list) = 4" by simp
  have "inj_on ?f {..<4}" using inj_offsets [of 4] by simp
  from physical_write_then_read [OF k d, of "[1, 2, 3, 4]" "0x3FE" ?f "[0, 0, 0, 0]" no_io, unfolded n, OF r this] show ?thesis by auto
qed

end
