(* ===== verification/Goldfish_Bus.thy ===== *)
theory Goldfish_Bus
  imports Goldfish_Int Phys_Access
begin

text \<open>
  The device bus of the board (\<open>src/qemu/hw/goldfish_device.c\<close>): the list of devices, the assignment of addresses and interrupt lines, and
  the registers through which the kernel of the emulated system enumerates the devices.
\<close>

section \<open>State\<close>

record goldfish_device =
  reported_state :: u32
  dev_name :: string
  dev_id :: u32
  dev_base :: u32
  dev_size :: u32
  dev_irq :: u32
  dev_irq_count :: u32

text \<open>
  The list from \<open>first_device\<close> to \<open>last_device\<close>; the device of the enumeration is a position in it (\<open>None\<close> is the null pointer).
\<close>

record bus_state =
  devs :: "goldfish_device list"
  current :: "nat option"
  bus_dev :: goldfish_device
  goldfish_free_base :: u32
  goldfish_free_irq :: u32

type_synonym bus_world = "bus_state \<times> int_world"

definition GFD_MAX_IRQ :: u32 where "GFD_MAX_IRQ = 32"

definition PDEV_BUS_OP_DONE :: u32 where "PDEV_BUS_OP_DONE = 0x00"
definition PDEV_BUS_OP_ADD_DEV :: u32 where "PDEV_BUS_OP_ADD_DEV = 0x08"
definition PDEV_BUS_OP_INIT :: u32 where "PDEV_BUS_OP_INIT = 0x00"
definition PDEV_BUS_OP :: u32 where "PDEV_BUS_OP = 0x00"
definition PDEV_BUS_GET_NAME :: u32 where "PDEV_BUS_GET_NAME = 0x04"
definition PDEV_BUS_NAME_LEN :: u32 where "PDEV_BUS_NAME_LEN = 0x08"
definition PDEV_BUS_ID :: u32 where "PDEV_BUS_ID = 0x0C"
definition PDEV_BUS_IO_BASE :: u32 where "PDEV_BUS_IO_BASE = 0x10"
definition PDEV_BUS_IO_SIZE :: u32 where "PDEV_BUS_IO_SIZE = 0x14"
definition PDEV_BUS_IRQ :: u32 where "PDEV_BUS_IRQ = 0x18"
definition PDEV_BUS_IRQ_COUNT :: u32 where "PDEV_BUS_IRQ_COUNT = 0x1C"

section \<open>Lines and addresses\<close>

definition goldfish_device_set_irq :: "goldfish_device \<Rightarrow> u32 \<Rightarrow> bool \<Rightarrow> int_world \<Rightarrow> int_world comp" where
  "goldfish_device_set_irq dev irq lev iw =
     (if dev_irq_count dev \<le> irq then raise Abort
      else if GFD_MAX_IRQ \<le> dev_irq dev + irq then raise OutOfBounds
      else goldfish_int_set_irq (unat (dev_irq dev + irq)) lev iw)"

definition goldfish_add_device_no_io :: "goldfish_device \<Rightarrow> bus_state \<Rightarrow> bus_state comp" where
  "goldfish_add_device_no_io dev b =
     (let dev1 = (if dev_base dev = 0 then dev\<lparr>dev_base := goldfish_free_base b\<rparr> else dev);
          b1 = (if dev_base dev = 0 then b\<lparr>goldfish_free_base := goldfish_free_base b + dev_size dev\<rparr> else b);
          auto_irq = (dev_irq dev1 = 0 \<and> 0 < dev_irq_count dev1);
          dev2 = (if auto_irq then dev1\<lparr>dev_irq := goldfish_free_irq b1\<rparr> else dev1);
          b2 = (if auto_irq then b1\<lparr>goldfish_free_irq := goldfish_free_irq b1 + dev_irq_count dev1\<rparr> else b1)
      in if auto_irq \<and> GFD_MAX_IRQ \<le> goldfish_free_irq b2 then raise Exit
         else ret (b2\<lparr>devs := devs b2 @ [dev2]\<rparr>))"

text \<open>The device, its functions and its region; a failed registration of the functions (-1) is not noticed.\<close>

definition goldfish_device_add ::
  "goldfish_device \<Rightarrow> (nat \<Rightarrow> 'd read_fn option) \<Rightarrow> (nat \<Rightarrow> 'd write_fn option) \<Rightarrow>
   bus_state \<times> 'd memory_map \<times> 'd system \<Rightarrow> (bus_state \<times> 'd memory_map \<times> 'd system) comp" where
  "goldfish_device_add dev rd wr st =
     (case st of (b, mm, s) \<Rightarrow>
        comp_bind (goldfish_add_device_no_io dev b) (\<lambda>b1.
          let d = last (devs b1);
              (iomemtype, r) = cpu_register_io_memory (map_option Device \<circ> rd) (map_option Device \<circ> wr) (registry mm)
          in comp_bind (cpu_register_physical_memory (dev_base d) (ucast (dev_size d)) (of_int iomemtype) (mm\<lparr>registry := r\<rparr>, s))
               (\<lambda>(mm1, s1). ret (b1, mm1, s1))))"

section \<open>Registers\<close>

text \<open>The loop over devices that were reported, from a position on.\<close>

definition skip_reported :: "goldfish_device list \<Rightarrow> nat option \<Rightarrow> nat option" where
  "skip_reported ds pos =
     (case pos of None \<Rightarrow> None | Some i \<Rightarrow> find (\<lambda>k. reported_state (ds ! k) \<noteq> 1) [i..<length ds])"

definition advance :: "bus_state \<Rightarrow> bus_state" where
  "advance b =
     (let b1 = (case current b of
          Some i \<Rightarrow> b\<lparr>devs := (devs b)[i := (devs b ! i)\<lparr>reported_state := 1\<rparr>],
                      current := (if i + 1 < length (devs b) then Some (i + 1) else None)\<rparr>
        | None \<Rightarrow> b\<lparr>current := (if devs b = [] then None else Some 0)\<rparr>)
      in b1\<lparr>current := skip_reported (devs b1) (current b1)\<rparr>)"

definition field_of_current :: "(goldfish_device \<Rightarrow> u32) \<Rightarrow> bus_state \<Rightarrow> u32" where
  "field_of_current f b = (case current b of None \<Rightarrow> 0 | Some i \<Rightarrow> f (devs b ! i))"

definition goldfish_bus_read :: "u32 \<Rightarrow> bus_world \<Rightarrow> (u32 \<times> bus_world) comp" where
  "goldfish_bus_read off st =
     (case st of (b, iw) \<Rightarrow>
        if off = PDEV_BUS_OP then
          (let b1 = advance b in
           if current b1 \<noteq> None then ret (PDEV_BUS_OP_ADD_DEV, (b1, iw))
           else comp_bind (goldfish_device_set_irq (bus_dev b1) 0 False iw) (\<lambda>iw1. ret (PDEV_BUS_OP_DONE, (b1, iw1))))
        else if off = PDEV_BUS_NAME_LEN then ret (field_of_current (\<lambda>d. of_nat (length (dev_name d))) b, st)
        else if off = PDEV_BUS_ID then ret (field_of_current dev_id b, st)
        else if off = PDEV_BUS_IO_BASE then ret (field_of_current dev_base b, st)
        else if off = PDEV_BUS_IO_SIZE then ret (field_of_current dev_size b, st)
        else if off = PDEV_BUS_IRQ then ret (field_of_current dev_irq b, st)
        else if off = PDEV_BUS_IRQ_COUNT then ret (field_of_current dev_irq_count b, st)
        else raise Abort)"

definition goldfish_bus_op_init :: "bus_world \<Rightarrow> bus_world comp" where
  "goldfish_bus_op_init st =
     (case st of (b, iw) \<Rightarrow>
        let b1 = b\<lparr>devs := map (\<lambda>d. d\<lparr>reported_state := 0\<rparr>) (devs b), current := None\<rparr>
        in comp_bind (goldfish_device_set_irq (bus_dev b1) 0 (devs b1 \<noteq> []) iw) (\<lambda>iw1. ret (b1, iw1)))"

text \<open>The name of a device is written to the virtual address that the kernel gives; errors of the write are ignored.\<close>

definition goldfish_bus_write ::
  "u32 \<Rightarrow> u32 \<Rightarrow> bus_state \<times> goldfish_int_state \<times> 'd system \<Rightarrow> (bus_state \<times> goldfish_int_state \<times> 'd system) comp" where
  "goldfish_bus_write off val st =
     (case st of (b, p, s) \<Rightarrow>
        if off = PDEV_BUS_OP then
          (if val = PDEV_BUS_OP_INIT
           then comp_bind (goldfish_bus_op_init (b, p, world s)) (\<lambda>(b1, p1, w1). ret (b1, p1, s\<lparr>world := w1\<rparr>)) else raise Abort)
        else if off = PDEV_BUS_GET_NAME then
          (case current b of
             None \<Rightarrow> ret st
           | Some i \<Rightarrow> comp_bind (debug_write val (map of_char (dev_name (devs b ! i))) s) (\<lambda>(_, s1). ret (b, p, s1)))
        else raise Abort)"

definition goldfish_device_init :: "u32 \<Rightarrow> u32 \<Rightarrow> bus_state \<Rightarrow> bus_state" where
  "goldfish_device_init base irq b = b\<lparr>goldfish_free_base := base, goldfish_free_irq := irq\<rparr>"

definition initial_bus :: bus_state where
  "initial_bus = \<lparr>devs = [], current = None,
     bus_dev = \<lparr>reported_state = 0, dev_name = ''goldfish_device_bus'', dev_id = - 1, dev_base = 0x10001000, dev_size = 0x1000,
       dev_irq = 1, dev_irq_count = 1\<rparr>, goldfish_free_base = 0, goldfish_free_irq = 0\<rparr>"

text \<open>The bus enters itself into the list.\<close>

definition goldfish_device_bus_init ::
  "(nat \<Rightarrow> 'd read_fn option) \<Rightarrow> (nat \<Rightarrow> 'd write_fn option) \<Rightarrow> u32 \<Rightarrow> u32 \<Rightarrow>
   bus_state \<times> 'd memory_map \<times> 'd system \<Rightarrow> (bus_state \<times> 'd memory_map \<times> 'd system) comp" where
  "goldfish_device_bus_init readfn writefn base irq st =
     (case st of (b, mm, s) \<Rightarrow>
        let d = (bus_dev b)\<lparr>dev_base := base, dev_irq := irq\<rparr>
        in comp_bind (goldfish_device_add d readfn writefn (b\<lparr>bus_dev := d\<rparr>, mm, s)) (\<lambda>(b1, mm1, s1).
             ret (b1\<lparr>bus_dev := last (devs b1)\<rparr>, mm1, s1)))"

section \<open>Enumeration\<close>

text \<open>What the kernel does: read the operation register, and the registers of a device as long as it announces one.\<close>

definition device_registers :: "goldfish_device \<Rightarrow> u32 list" where
  "device_registers d = [dev_id d, dev_base d, dev_size d, dev_irq d, dev_irq_count d, of_nat (length (dev_name d))]"

fun read_regs :: "u32 list \<Rightarrow> bus_world \<Rightarrow> (u32 list \<times> bus_world) comp" where
  "read_regs [] st = ret ([], st)"
| "read_regs (r # rs) st =
     comp_bind (goldfish_bus_read r st) (\<lambda>(v, st1). comp_bind (read_regs rs st1) (\<lambda>(vs, st2). ret (v # vs, st2)))"

fun scan_bus :: "nat \<Rightarrow> bus_world \<Rightarrow> (u32 list list \<times> bus_world) comp" where
  "scan_bus 0 st = ret ([], st)"
| "scan_bus (Suc n) st =
     comp_bind (goldfish_bus_read PDEV_BUS_OP st) (\<lambda>(v, st1).
       if v = PDEV_BUS_OP_ADD_DEV then
         comp_bind (read_regs [PDEV_BUS_ID, PDEV_BUS_IO_BASE, PDEV_BUS_IO_SIZE, PDEV_BUS_IRQ, PDEV_BUS_IRQ_COUNT, PDEV_BUS_NAME_LEN] st1)
           (\<lambda>(d, st2). comp_bind (scan_bus n st2) (\<lambda>(ds, st3). ret (d # ds, st3)))
       else ret ([], st1))"

lemmas bus_register_defs = PDEV_BUS_OP_def PDEV_BUS_NAME_LEN_def PDEV_BUS_ID_def PDEV_BUS_IO_BASE_def PDEV_BUS_IO_SIZE_def
  PDEV_BUS_IRQ_def PDEV_BUS_IRQ_COUNT_def

definition mark :: "u32 \<Rightarrow> goldfish_device \<Rightarrow> goldfish_device" where
  "mark v d = d\<lparr>reported_state := v\<rparr>"

lemma mark_simps [simp]: "reported_state (mark v d) = v" "device_registers (mark v d) = device_registers d"
  by (simp_all add: mark_def device_registers_def)

text \<open>The first \<open>k\<close> devices have been reported.\<close>

definition reported :: "nat \<Rightarrow> goldfish_device list \<Rightarrow> goldfish_device list" where
  "reported k ds = map (mark 1) (take k ds) @ map (mark 0) (drop k ds)"

lemma reported_nth: "i < length ds \<Longrightarrow> reported k ds ! i = mark (if i < k then 1 else 0) (ds ! i)"
  by (auto simp: reported_def nth_append min_def)

lemma length_reported [simp]: "length (reported k ds) = length ds"
  by (simp add: reported_def)

lemma report_next: "k < length ds \<Longrightarrow> (reported k ds)[k := (reported k ds ! k)\<lparr>reported_state := 1\<rparr>] = reported (Suc k) ds"
  by (rule nth_equalityI) (auto simp: reported_nth nth_list_update mark_def)

lemma skip_to_next: "k < length ds \<Longrightarrow> skip_reported (reported k ds) (Some k) = Some k"
  by (simp add: skip_reported_def reported_nth upt_conv_Cons)

text \<open>The position before the first device, or after \<open>k\<close> of them.\<close>

lemma advance_start: "devs b = reported 0 ds \<Longrightarrow> current b = None \<Longrightarrow> ds \<noteq> [] \<Longrightarrow> advance b = b\<lparr>current := Some 0\<rparr>"
  using skip_to_next [of 0 ds] by (auto simp: advance_def reported_def)

lemma advance_next:
  assumes "devs b = reported k ds" and "current b = Some k" and "k < length ds"
  shows "advance b = b\<lparr>devs := reported (Suc k) ds, current := (if Suc k < length ds then Some (Suc k) else None)\<rparr>"
  using assms report_next [OF assms(3)] skip_to_next [of "Suc k" ds]
  by (simp add: advance_def skip_reported_def Let_def)

lemma read_regs_current:
  assumes "current b = Some k" and "k < length (devs b)"
  shows "read_regs [PDEV_BUS_ID, PDEV_BUS_IO_BASE, PDEV_BUS_IO_SIZE, PDEV_BUS_IRQ, PDEV_BUS_IRQ_COUNT, PDEV_BUS_NAME_LEN] (b, iw) =
    ret (device_registers (devs b ! k), (b, iw))"
  using assms by (simp add: goldfish_bus_read_def bus_register_defs field_of_current_def device_registers_def)

lemma scan_rest:
  assumes "devs b = reported k ds" and "current b = Some k" and "k + n < length ds"
  shows "\<exists>b'. scan_bus n (b, iw) = ret (map device_registers (take n (drop (Suc k) ds)), (b', iw)) \<and>
    devs b' = reported (k + n) ds \<and> current b' = Some (k + n) \<and> bus_dev b' = bus_dev b"
  using assms
proof (induction n arbitrary: b k)
  case (Suc n)
  let ?b = "b\<lparr>devs := reported (Suc k) ds, current := Some (Suc k)\<rparr>"
  have a: "advance b = ?b" using advance_next [OF Suc.prems(1,2)] Suc.prems(3) by simp
  have r: "read_regs [PDEV_BUS_ID, PDEV_BUS_IO_BASE, PDEV_BUS_IO_SIZE, PDEV_BUS_IRQ, PDEV_BUS_IRQ_COUNT, PDEV_BUS_NAME_LEN] (?b, iw) =
      ret (device_registers (ds ! Suc k), (?b, iw))"
    using read_regs_current [of ?b "Suc k" iw] Suc.prems(3) by (simp add: reported_nth del: read_regs.simps)
  obtain b' where "scan_bus n (?b, iw) = ret (map device_registers (take n (drop (Suc (Suc k)) ds)), (b', iw))"
      "devs b' = reported (k + Suc n) ds" "current b' = Some (k + Suc n)" "bus_dev b' = bus_dev b"
    using Suc.IH [of ?b "Suc k"] Suc.prems(3) by auto
  moreover have "take (Suc n) (drop (Suc k) ds) = ds ! Suc k # take n (drop (Suc (Suc k)) ds)"
    using Suc.prems(3) by (subst Cons_nth_drop_Suc [symmetric]) simp_all
  moreover have "goldfish_bus_read PDEV_BUS_OP (b, iw) = ret (PDEV_BUS_OP_ADD_DEV, (?b, iw))"
    by (simp add: goldfish_bus_read_def a)
  ultimately show ?case using r by (simp del: read_regs.simps)
qed simp

lemma bus_irq:
  assumes "wired iw" and "unat (dev_irq d) < 32" and "0 < dev_irq_count d"
  shows "\<exists>iw'. goldfish_device_set_irq d 0 lev iw = ret iw' \<and> wired iw' \<and>
    lines (int_level (fst iw')) = (if lev then insert (unat (dev_irq d)) (lines (int_level (fst iw))) else lines (int_level (fst iw)) - {unat (dev_irq d)})"
proof -
  obtain p w where iw: "iw = (p, w)" by fastforce
  have "\<not> GFD_MAX_IRQ \<le> dev_irq d" using assms(2) by (simp add: GFD_MAX_IRQ_def word_le_nat_alt not_le)
  moreover have "\<not> dev_irq_count d \<le> 0" using assms(3) by (simp add: not_le)
  ultimately show ?thesis
    using set_irq_wired [of p w "unat (dev_irq d)" lev] assms(1,2) by (auto simp: goldfish_device_set_irq_def iw)
qed

text \<open>
  C27. The kernel finds every device: after the operation \<open>INIT\<close> the line of the bus is up, and reading the operation register announces each
  device of the list once, in the order in which the devices were added, with its identifier, address range, lines and length of
  its name in the registers; the read after the last device answers \<open>DONE\<close> and lowers the line.
\<close>

theorem bus_enumeration:
  assumes "wired (p, world s)" and "unat (dev_irq (bus_dev b)) < 32" and "0 < dev_irq_count (bus_dev b)" and "devs b \<noteq> []"
  shows "\<exists>b1 p1 s1 iw1 b2 b3 iw3. goldfish_bus_write PDEV_BUS_OP PDEV_BUS_OP_INIT (b, p, s) = ret (b1, p1, s1) \<and> iw1 = (p1, world s1) \<and>
    unat (dev_irq (bus_dev b)) \<in> lines (int_level (fst iw1)) \<and>
    scan_bus (length (devs b)) (b1, iw1) = ret (map device_registers (devs b), (b2, iw1)) \<and>
    goldfish_bus_read PDEV_BUS_OP (b2, iw1) = ret (PDEV_BUS_OP_DONE, (b3, iw3)) \<and>
    unat (dev_irq (bus_dev b)) \<notin> lines (int_level (fst iw3)) \<and> wired iw3 \<and>
    map device_registers (devs b3) = map device_registers (devs b)"
proof -
  let ?ds = "devs b" and ?iw = "(p, world s)"
  let ?b1 = "b\<lparr>devs := reported 0 ?ds, current := None\<rparr>"
  obtain iw1 where i1: "goldfish_device_set_irq (bus_dev b) 0 True ?iw = ret iw1" "wired iw1"
      "lines (int_level (fst iw1)) = insert (unat (dev_irq (bus_dev b))) (lines (int_level p))"
    using bus_irq [OF assms(1-3), of True] by auto
  obtain iw3 where i3: "goldfish_device_set_irq (bus_dev b) 0 False iw1 = ret iw3" "wired iw3"
      "lines (int_level (fst iw3)) = lines (int_level (fst iw1)) - {unat (dev_irq (bus_dev b))}"
    using bus_irq [OF i1(2) assms(2,3), of False] by auto
  have m: "map (\<lambda>d. d\<lparr>reported_state := 0\<rparr>) ?ds = reported 0 ?ds" by (simp add: reported_def mark_def)
  let ?s1 = "s\<lparr>world := snd iw1\<rparr>"
  have init: "goldfish_bus_write PDEV_BUS_OP PDEV_BUS_OP_INIT (b, p, s) = ret (?b1, fst iw1, ?s1)" "iw1 = (fst iw1, world ?s1)"
    using i1(1) assms(4) by (cases iw1, simp_all add: goldfish_bus_write_def goldfish_bus_op_init_def m reported_def)
  let ?c = "?b1\<lparr>current := Some 0\<rparr>"
  have op: "goldfish_bus_read PDEV_BUS_OP (?b1, iw1) = ret (PDEV_BUS_OP_ADD_DEV, (?c, iw1))"
    using advance_start [of ?b1 ?ds] assms(4) by (simp add: goldfish_bus_read_def)
  obtain n where n: "length ?ds = Suc n" using assms(4) by (cases ?ds) auto
  have rr: "read_regs [PDEV_BUS_ID, PDEV_BUS_IO_BASE, PDEV_BUS_IO_SIZE, PDEV_BUS_IRQ, PDEV_BUS_IRQ_COUNT, PDEV_BUS_NAME_LEN] (?c, iw1) =
      ret (device_registers (?ds ! 0), (?c, iw1))"
    using read_regs_current [of ?c 0 iw1] n by (simp add: reported_nth del: read_regs.simps)
  obtain b2 where b2: "scan_bus n (?c, iw1) = ret (map device_registers (take n (drop 1 ?ds)), (b2, iw1))"
      "devs b2 = reported n ?ds" "current b2 = Some n" "bus_dev b2 = bus_dev b"
    using scan_rest [of ?c 0 ?ds n iw1] n by auto
  have "device_registers (?ds ! 0) # map device_registers (take n (drop 1 ?ds)) = map device_registers ?ds"
    using n by (cases ?ds) simp_all
  then have scan: "scan_bus (length ?ds) (?b1, iw1) = ret (map device_registers ?ds, (b2, iw1))"
    unfolding n scan_bus.simps op comp_bind_ret prod.case rr b2(1) by simp
  have a: "advance b2 = b2\<lparr>devs := reported (Suc n) ?ds, current := None\<rparr>" using advance_next [OF b2(2,3)] n by simp
  then have "goldfish_bus_read PDEV_BUS_OP (b2, iw1) = ret (PDEV_BUS_OP_DONE, (advance b2, iw3))"
    using i3(1) b2(4) by (simp add: goldfish_bus_read_def)
  moreover have "map device_registers (devs (advance b2)) = map device_registers ?ds"
    using n by (simp add: a reported_def o_def)
  ultimately show ?thesis using init scan i1(3) i3 by blast
qed

definition two_devices :: bus_state where
  "two_devices = initial_bus\<lparr>devs := [(bus_dev initial_bus)\<lparr>dev_base := 0xFF001000\<rparr>,
     \<lparr>reported_state = 1, dev_name = ''goldfish_tty'', dev_id = 0, dev_base = 0xFF002000, dev_size = 0x1000, dev_irq = 4, dev_irq_count = 1\<rparr>]\<rparr>"

theorem bus_enumeration_witness:
  "\<exists>b1 p1 s1 b2. goldfish_bus_write PDEV_BUS_OP PDEV_BUS_OP_INIT
      (two_devices, goldfish_interrupt_init (Some ARM_PIC_CPU_IRQ) (Some ARM_PIC_CPU_FIQ), running_example) = ret (b1, p1, s1) \<and>
    scan_bus 2 (b1, p1, world s1) = ret ([[- 1, 0xFF001000, 0x1000, 1, 1, 19], [0, 0xFF002000, 0x1000, 4, 1, 12]], (b2, p1, world s1))"
proof -
  let ?iw = "(goldfish_interrupt_init (Some ARM_PIC_CPU_IRQ) (Some ARM_PIC_CPU_FIQ), world running_example)"
  have "interrupt_request (cpu (world running_example)) = 0" by code_simp
  then have w: "wired ?iw" by (simp add: wired_def goldfish_interrupt_init_def lines_simps(1))
  have d: "unat (dev_irq (bus_dev two_devices)) < 32" "0 < dev_irq_count (bus_dev two_devices)" "devs two_devices \<noteq> []"
    "map device_registers (devs two_devices) = [[- 1, 0xFF001000, 0x1000, 1, 1, 19], [0, 0xFF002000, 0x1000, 4, 1, 12]]"
    "length (devs two_devices) = 2" by code_simp+
  show ?thesis using bus_enumeration [OF w d(1-3), unfolded d(4,5)] by metis
qed

section \<open>Addresses and lines\<close>

fun add_devices :: "goldfish_device list \<Rightarrow> bus_state \<Rightarrow> bus_state comp" where
  "add_devices [] b = ret b"
| "add_devices (d # ds) b = comp_bind (goldfish_add_device_no_io d b) (add_devices ds)"

text \<open>Devices one after the other, from a free address and a free line on.\<close>

fun place :: "u32 \<Rightarrow> u32 \<Rightarrow> goldfish_device list \<Rightarrow> goldfish_device list" where
  "place fb fi [] = []"
| "place fb fi (d # ds) = d\<lparr>dev_base := fb, dev_irq := fi\<rparr> # place (fb + dev_size d) (fi + dev_irq_count d) ds"

definition sizes :: "goldfish_device list \<Rightarrow> nat" where
  "sizes ds = sum_list (map (\<lambda>d. unat (dev_size d)) ds)"

definition irqs :: "goldfish_device list \<Rightarrow> nat" where
  "irqs ds = sum_list (map (\<lambda>d. unat (dev_irq_count d)) ds)"

definition unplaced :: "goldfish_device \<Rightarrow> bool" where
  "unplaced d \<longleftrightarrow> dev_base d = 0 \<and> dev_irq d = 0 \<and> 0 < dev_irq_count d"

lemma unat_add_less: "unat a + unat b < 2 ^ 32 \<Longrightarrow> unat (a + b :: u32) = unat a + unat b"
  by (simp add: unat_word_ariths)

lemma add_devices_place:
  assumes "\<forall>d\<in>set ds. unplaced d" and "unat (goldfish_free_irq b) + irqs ds < 32"
  shows "\<exists>b'. add_devices ds b = ret b' \<and> devs b' = devs b @ place (goldfish_free_base b) (goldfish_free_irq b) ds"
  using assms
proof (induction ds arbitrary: b)
  case (Cons d ds)
  let ?b = "b\<lparr>goldfish_free_base := goldfish_free_base b + dev_size d, goldfish_free_irq := goldfish_free_irq b + dev_irq_count d,
    devs := devs b @ [d\<lparr>dev_base := goldfish_free_base b, dev_irq := goldfish_free_irq b\<rparr>]\<rparr>"
  have d: "dev_base d = 0" "dev_irq d = 0" "0 < dev_irq_count d" using Cons.prems(1) by (simp_all add: unplaced_def)
  have l: "unat (goldfish_free_irq b) + unat (dev_irq_count d) + irqs ds < 32" using Cons.prems(2) by (simp add: irqs_def)
  then have u: "unat (goldfish_free_irq b + dev_irq_count d) = unat (goldfish_free_irq b) + unat (dev_irq_count d)"
    by (intro unat_add_less) simp
  then have "\<not> GFD_MAX_IRQ \<le> goldfish_free_irq b + dev_irq_count d" using l by (simp add: GFD_MAX_IRQ_def word_le_nat_alt)
  then have "goldfish_add_device_no_io d b = ret ?b" using d by (simp add: goldfish_add_device_no_io_def Let_def)
  moreover have "\<exists>b'. add_devices ds ?b = ret b' \<and> devs b' = devs ?b @ place (goldfish_free_base ?b) (goldfish_free_irq ?b) ds"
    using Cons.prems(1) l u by (intro Cons.IH) simp_all
  ultimately show ?case by simp
qed simp

lemma place_nth:
  assumes "unat fb + sizes ds < 2 ^ 32" and "unat fi + irqs ds < 2 ^ 32" and "k < length ds"
  shows "place fb fi ds ! k = (ds ! k)\<lparr>dev_base := dev_base (place fb fi ds ! k), dev_irq := dev_irq (place fb fi ds ! k)\<rparr> \<and>
    unat (dev_base (place fb fi ds ! k)) = unat fb + sizes (take k ds) \<and>
    unat (dev_irq (place fb fi ds ! k)) = unat fi + irqs (take k ds)"
  using assms
proof (induction ds arbitrary: fb fi k)
  case (Cons d ds)
  have s: "sizes (d # ds) = unat (dev_size d) + sizes ds" "irqs (d # ds) = unat (dev_irq_count d) + irqs ds" for ds
    by (simp_all add: sizes_def irqs_def)
  show ?case
  proof (cases k)
    case 0
    then show ?thesis by (simp add: sizes_def irqs_def)
  next
    case (Suc j)
    have "unat (fb + dev_size d) = unat fb + unat (dev_size d)" "unat (fi + dev_irq_count d) = unat fi + unat (dev_irq_count d)"
      using Cons.prems(1,2) by (auto simp: s intro!: unat_add_less)
    then show ?thesis using Cons.IH [of "fb + dev_size d" "fi + dev_irq_count d" j] Cons.prems Suc by (simp add: s)
  qed
qed simp

lemma length_place [simp]: "length (place fb fi ds) = length ds"
  by (induction ds arbitrary: fb fi) simp_all

lemma sizes_take: "i < j \<Longrightarrow> j \<le> length ds \<Longrightarrow> sizes (take i ds) + unat (dev_size (ds ! i)) \<le> sizes (take j ds)"
  "i < j \<Longrightarrow> j \<le> length ds \<Longrightarrow> irqs (take i ds) + unat (dev_irq_count (ds ! i)) \<le> irqs (take j ds)"
proof -
  assume ij: "i < j" "j \<le> length ds"
  then have t: "take j ds = take i ds @ ds ! i # take (j - Suc i) (drop (Suc i) ds)"
    by (metis Cons_nth_drop_Suc add_diff_inverse_nat less_imp_le less_le_trans not_less take_Suc_Cons take_add Suc_diff_Suc)
  show "sizes (take i ds) + unat (dev_size (ds ! i)) \<le> sizes (take j ds)" "irqs (take i ds) + unat (dev_irq_count (ds ! i)) \<le> irqs (take j ds)"
    unfolding t by (simp_all add: sizes_def irqs_def)
qed

text \<open>
  C32. Devices that leave their address and lines to the bus are placed one after the other: as long as fewer than 32 lines and
  the address space suffice, their address ranges and their lines are disjoint, every line is one of the controller, and nothing else
  of a device changes.
\<close>

theorem devices_placed:
  assumes "\<forall>d\<in>set ds. unplaced d" and "unat (goldfish_free_irq b) + irqs ds < 32" and "unat (goldfish_free_base b) + sizes ds < 2 ^ 32"
  shows "\<exists>b' ps. add_devices ds b = ret b' \<and> devs b' = devs b @ ps \<and> length ps = length ds \<and>
    (\<forall>i<length ds. ps ! i = (ds ! i)\<lparr>dev_base := dev_base (ps ! i), dev_irq := dev_irq (ps ! i)\<rparr> \<and>
      unat (goldfish_free_base b) \<le> unat (dev_base (ps ! i)) \<and> unat (dev_irq (ps ! i)) + unat (dev_irq_count (ps ! i)) < 32 \<and>
      (\<forall>j<length ds. i < j \<longrightarrow> unat (dev_base (ps ! i)) + unat (dev_size (ps ! i)) \<le> unat (dev_base (ps ! j)) \<and>
        unat (dev_irq (ps ! i)) + unat (dev_irq_count (ps ! i)) \<le> unat (dev_irq (ps ! j))))"
proof -
  let ?ps = "place (goldfish_free_base b) (goldfish_free_irq b) ds"
  obtain b' where b': "add_devices ds b = ret b'" "devs b' = devs b @ ?ps" using add_devices_place [OF assms(1,2)] by blast
  have n: "?ps ! k = (ds ! k)\<lparr>dev_base := dev_base (?ps ! k), dev_irq := dev_irq (?ps ! k)\<rparr>"
      "unat (dev_base (?ps ! k)) = unat (goldfish_free_base b) + sizes (take k ds)"
      "unat (dev_irq (?ps ! k)) = unat (goldfish_free_irq b) + irqs (take k ds)" if "k < length ds" for k
    using place_nth [OF assms(3) _ that] assms(2) by auto
  have sz: "dev_size (?ps ! k) = dev_size (ds ! k)" "dev_irq_count (?ps ! k) = dev_irq_count (ds ! k)" if "k < length ds" for k
    by (subst n(1) [OF that], simp)+
  have "unat (dev_irq (?ps ! i)) + unat (dev_irq_count (?ps ! i)) < 32" if "i < length ds" for i
    using sizes_take(2) [of i "length ds" ds] that assms(2) n(3) [OF that] sz(2) [OF that] by simp
  moreover have "unat (dev_base (?ps ! i)) + unat (dev_size (?ps ! i)) \<le> unat (dev_base (?ps ! j)) \<and>
      unat (dev_irq (?ps ! i)) + unat (dev_irq_count (?ps ! i)) \<le> unat (dev_irq (?ps ! j))" if "i < j" "j < length ds" for i j
    using sizes_take [of i j ds] that n(2,3) [of i] n(2,3) [of j] sz [of i] by simp
  ultimately show ?thesis using b' n by (intro exI [of _ b'] exI [of _ ?ps]) simp
qed

theorem devices_placed_witness:
  "let d = \<lparr>reported_state = 0, dev_name = ''goldfish_events'', dev_id = 0, dev_base = 0, dev_size = 0x1000, dev_irq = 0, dev_irq_count = 1\<rparr>
   in \<exists>b'. add_devices [d, d] (goldfish_device_init 0xFF010000 10 initial_bus) = ret b' \<and> length (devs b') = 2"
proof -
  let ?d = "\<lparr>reported_state = 0, dev_name = ''goldfish_events'', dev_id = 0, dev_base = 0, dev_size = 0x1000, dev_irq = 0, dev_irq_count = 1\<rparr>"
  let ?b = "goldfish_device_init 0xFF010000 10 initial_bus"
  have "\<forall>d\<in>set [?d, ?d]. unplaced d" "unat (goldfish_free_irq ?b) + irqs [?d, ?d] < 32" "unat (goldfish_free_base ?b) + sizes [?d, ?d] < 2 ^ 32"
    "devs ?b = []" by (simp_all add: unplaced_def irqs_def sizes_def goldfish_device_init_def initial_bus_def)
  then show ?thesis using devices_placed [of "[?d, ?d]" ?b] by (auto simp: Let_def)
qed

end
