(* ===== verification/Device_Access.thy ===== *)
theory Device_Access
  imports Goldfish_Bus
begin

text \<open>
  From the registration of a device to the accesses that reach it: the bus, the I/O table, the physical map, the TLB and the transfers of
  \<open>src/qemu/hw/goldfish_device.c\<close>, \<open>src/qemu/exec.c\<close> and \<open>src/qemu/softmmu_template.h\<close> together.
\<close>

section \<open>The zone of a new device\<close>

text \<open>A device with a function for each size.\<close>

definition complete :: "(nat \<Rightarrow> 'd read_fn option) \<Rightarrow> (nat \<Rightarrow> 'd write_fn option) \<Rightarrow> bool" where
  "complete rd wr \<longleftrightarrow> (\<forall>k<3. rd k \<noteq> None \<and> wr k \<noteq> None)"

lemma complete_subwidth: "complete rd wr \<Longrightarrow> subwidth (map_option Device \<circ> rd) (map_option Device \<circ> wr) = 0"
  by (auto simp: complete_def subwidth_def numeral_eq_Suc)

lemma ucast_of_nat_down: "(ucast (of_nat n :: u64) :: u32) = of_nat n"
  by (simp add: word_unat_eq_iff unsigned_ucast_eq unsigned_of_nat take_bit_eq_mod mod_mod_cancel)

text \<open>The code of a zone, as the offset of a page.\<close>

lemma zone_offset:
  assumes "6 \<le> z" and "z < 128"
  shows "unat (of_int (push_bit 3 (int z)) :: u64) = 8 * z" "low_bits_u64 (of_int (push_bit 3 (int z))) = of_int (push_bit 3 (int z))"
    "\<not> is_memory (of_int (push_bit 3 (int z)))" "(of_int (push_bit 3 (int z)) :: u64) \<noteq> IO_MEM_UNASSIGNED"
    "low_bits_u64 (of_int (push_bit 3 (int z))) \<noteq> IO_MEM_RAM" "io_index (ucast (of_int (push_bit 3 (int z)) :: u64)) = z"
proof -
  let ?w = "of_int (push_bit 3 (int z)) :: u64"
  have e: "?w = of_nat (8 * z)" by (simp add: push_bit_eq_mult)
  show u: "unat ?w = 8 * z" unfolding e using assms by (simp only: unat_of_nat) simp
  have "unat (low_bits_u64 ?w) = unat ?w mod 1024"
    unfolding low_bits_u64_def TARGET_PAGE_BITS_def take_bit_eq_mask [symmetric] by (simp only: unsigned_take_bit_eq take_bit_eq_mod) (simp add: unat_mod)
  then show l: "low_bits_u64 ?w = ?w" using u assms by (simp add: word_unat_eq_iff)
  have "?w AND IO_MEM_ROMD = 0"
  proof -
    have "even (8 * z)" by simp
    then have "even ?w" unfolding e by (simp only: even_of_nat_iff)
    then show ?thesis by (simp add: IO_MEM_ROMD_def and_one_eq even_iff_mod_2_eq_zero)
  qed
  then show "\<not> is_memory ?w" using u assms by (simp add: is_memory_def l IO_MEM_ROM_def word_le_nat_alt)
  show "?w \<noteq> IO_MEM_UNASSIGNED" "low_bits_u64 ?w \<noteq> IO_MEM_RAM"
    unfolding l using u assms by (auto simp: IO_MEM_UNASSIGNED_def IO_MEM_RAM_def word_unat_eq_iff)
  have "unat (ucast ?w :: u32) = 8 * z" unfolding e ucast_of_nat_down using assms by (simp only: unat_of_nat) simp
  then show "io_index (ucast ?w) = z" using assms(2) by (simp add: io_index_mod)
qed


text \<open>Devices take their zones behind those of the emulator, and one is left.\<close>

definition zones_left :: "('r, 'w) io_registry \<Rightarrow> bool" where
  "zones_left r \<longleftrightarrow> (\<forall>z<6. io_mem_used r z) \<and> (\<exists>z<128. \<not> io_mem_used r z)"

lemma new_zone:
  assumes "zones_left r" and "complete rd wr"
  obtains z where "6 \<le> z" and "z < 128" and "cpu_register_io_memory (map_option Device \<circ> rd) (map_option Device \<circ> wr) r =
    (push_bit 3 (int z), set_zone z (map_option Device \<circ> rd) (map_option Device \<circ> wr) (r\<lparr>io_mem_used := (io_mem_used r)(z := True)\<rparr>))"
proof (rule register_cases [of "map_option Device \<circ> rd" "map_option Device \<circ> wr" r])
  fix z
  assume z: "z < 128" "\<not> io_mem_used r z" and eq: "cpu_register_io_memory (map_option Device \<circ> rd) (map_option Device \<circ> wr) r =
    (push_bit 3 (int z) OR subwidth (map_option Device \<circ> rd) (map_option Device \<circ> wr),
     set_zone z (map_option Device \<circ> rd) (map_option Device \<circ> wr) (r\<lparr>io_mem_used := (io_mem_used r)(z := True)\<rparr>))"
  have "6 \<le> z" using z(2) assms(1) by (meson not_le zones_left_def)
  then show thesis using that [of z] z(1) eq by (simp add: complete_subwidth [OF assms(2)])
qed (use assms(1) in \<open>auto simp: zones_left_def\<close>)

lemma zone_calls:
  assumes "zone_read (registry mm) z k = Some (Device f)"
  shows "read_zone mm z k a s = f a s"
  using assms by (subst read_zone.simps) simp

lemma zone_write_calls:
  assumes "zone_write (registry mm) z k = Some (Device g)"
  shows "write_zone mm z k a v s = g a v s"
  using assms by (subst write_zone.simps) simp

section \<open>The pages of a device\<close>

text \<open>The system uses the map: its descriptors are those of the table.\<close>

definition uses_map :: "'d memory_map \<Rightarrow> 'd system \<Rightarrow> bool" where
  "uses_map mm t \<longleftrightarrow> phys_page_find (mach t) = find_page (l1_phys_map mm)"

text \<open>Every page of the region belongs to the zone, at its place in the region.\<close>

definition device_pages :: "nat \<Rightarrow> u32 \<Rightarrow> u32 \<Rightarrow> 'd memory_map \<Rightarrow> bool" where
  "device_pages z base sz mm \<longleftrightarrow>
     (\<forall>a. unat base \<le> unat a \<and> unat a < unat base + unat sz \<longrightarrow>
        find_page (l1_phys_map mm) (drop_bit TARGET_PAGE_BITS a) =
          Some \<lparr>phys_offset = of_int (push_bit 3 (int z)), region_offset = of_nat (unat a div 1024 - unat base div 1024) * 1024\<rparr>)"

lemma device_address:
  assumes "device_pages z base sz mm" and "uses_map mm t" and "unat base mod 1024 = 0" and "unat off < unat sz"
    and "unat base + unat sz \<le> 2 ^ 32"
  shows "page_pd (mach t) (base + off) = of_int (push_bit 3 (int z))" "io_region_address (mach t) (base + off) = off"
proof -
  have a: "unat (base + off) = unat base + unat off" using assms(4,5) by (simp add: unat_word_ariths)
  then have f: "phys_page_find (mach t) (drop_bit TARGET_PAGE_BITS (base + off)) =
      Some \<lparr>phys_offset = of_int (push_bit 3 (int z)), region_offset = of_nat (unat off div 1024) * 1024\<rparr>"
    using assms by (auto simp: device_pages_def uses_map_def div_add1_eq)
  show "page_pd (mach t) (base + off) = of_int (push_bit 3 (int z))" by (simp add: page_pd_def f)
  have "unat ((base + off) AND NOT TARGET_PAGE_MASK) = unat off mod 1024"
    using assms(3) by (simp add: page_offset a mod_add_eq [of "unat base", symmetric])
  moreover have "(base + off) AND NOT TARGET_PAGE_MASK = of_nat (unat ((base + off) AND NOT TARGET_PAGE_MASK))" by simp
  ultimately have "(base + off) AND NOT TARGET_PAGE_MASK = of_nat (unat off mod 1024)" by (simp only:)
  moreover have "(ucast (of_nat (unat off div 1024) * 1024 :: u64) :: u32) = of_nat (unat off div 1024 * 1024)"
    using ucast_of_nat_down [of "unat off div 1024 * 1024"] by simp
  ultimately have "io_region_address (mach t) (base + off) = of_nat (unat off mod 1024) + of_nat (unat off div 1024 * 1024)"
    unfolding io_region_address_def f by (simp only: option.case PhysPageDesc.select_convs)
  also have "\<dots> = of_nat (unat off mod 1024 + unat off div 1024 * 1024)" by (simp only: of_nat_add)
  also have "unat off mod 1024 + unat off div 1024 * 1024 = unat off" by simp
  also have "of_nat (unat off) = off" by simp
  finally show "io_region_address (mach t) (base + off) = off" .
qed


lemma device_registered:
  assumes "zones_left (registry mm)" and "complete rd wr" and "goldfish_add_device_no_io dev b = ret b1" and "d = last (devs b1)"
    and "unat (dev_base d) mod 1024 = 0" and "unat (dev_size d) mod 1024 = 0" and "0 < dev_size d" and "unat (dev_base d) + unat (dev_size d) \<le> 2 ^ 32"
    and "\<And>j. page_no j \<Longrightarrow> unat (dev_base d) div 1024 \<le> unat j \<Longrightarrow> unat j < (unat (dev_base d) + unat (dev_size d)) div 1024 \<Longrightarrow> page_at (l1_phys_map mm) j = None"
  shows "\<exists>z mm' s'. goldfish_device_add dev rd wr (b, mm, s) = ret (b1, mm', s') \<and> uses_map mm' s' \<and>
    6 \<le> z \<and> z < 128 \<and> device_pages z (dev_base d) (dev_size d) mm' \<and>
    (\<forall>k<3. zone_read (registry mm') z k = map_option Device (rd k) \<and> zone_write (registry mm') z k = map_option Device (wr k))"
proof -
  let ?base = "dev_base d" and ?sz = "ucast (dev_size d) :: u64"
  obtain z where z: "6 \<le> z" "z < 128" and reg: "cpu_register_io_memory (map_option Device \<circ> rd) (map_option Device \<circ> wr) (registry mm) =
    (push_bit 3 (int z), set_zone z (map_option Device \<circ> rd) (map_option Device \<circ> wr) ((registry mm)\<lparr>io_mem_used := (io_mem_used (registry mm))(z := True)\<rparr>))"
    using new_zone [OF assms(1,2)] by blast
  let ?code = "of_int (push_bit 3 (int z)) :: u64"
  let ?mm = "mm\<lparr>registry := set_zone z (map_option Device \<circ> rd) (map_option Device \<circ> wr)
    ((registry mm)\<lparr>io_mem_used := (io_mem_used (registry mm))(z := True)\<rparr>)\<rparr>"
  note zo = zone_offset [OF z]
  have sz: "unat ?sz = unat (dev_size d)" by (simp add: unat_wide)
  have "0 < unat ?sz" using assms(7) by (simp add: sz word_less_nat_alt)
  then obtain mm' s' where r: "cpu_register_physical_memory_log ?base ?sz ?code 0 (?mm, s) = ret (mm', s')" "registry mm' = registry ?mm"
      "phys_page_find (mach s') = find_page (l1_phys_map mm')"
    and at: "\<And>j. page_no j \<Longrightarrow> page_at (l1_phys_map mm') j = region_map (unat ?base div 1024) (unat ?sz div 1024) ?code (page_of_u64 0) (page_at (l1_phys_map mm)) j"
    using register_effect [of ?base ?sz ?code 0 ?mm s] assms(5,6,8) zo(4) unfolding sz by (auto simp: sz)
  have "device_pages z ?base (dev_size d) mm'"
    unfolding device_pages_def
  proof (intro allI impI)
    fix a :: u32
    assume a: "unat ?base \<le> unat a \<and> unat a < unat ?base + unat (dev_size d)"
    let ?j = "drop_bit TARGET_PAGE_BITS a"
    obtain q m where q: "unat ?base = 1024 * q" "unat (dev_size d) = 1024 * m" using assms(5,6) by (auto elim!: dvdE)
    have j: "unat ?base div 1024 \<le> unat ?j" "unat ?j < unat ?base div 1024 + unat ?sz div 1024" "unat ?j < (unat ?base + unat (dev_size d)) div 1024"
      using a unfolding unat_page sz q by (simp_all add: less_eq_div_iff_mult_less_eq div_less_iff_less_mult mult.commute)
    have "page_at (l1_phys_map mm') ?j = assigned \<lparr>phys_offset = ?code, region_offset = of_nat (unat a div 1024 - unat ?base div 1024) * 1024\<rparr>"
      using at [OF page_no_addr, of a] j assms(9) [OF page_no_addr j(1,3)] zo(3)
      by (simp add: region_map_def offset_at_def unat_page page_of_u64_def)
    then show "find_page (l1_phys_map mm') ?j = Some \<lparr>phys_offset = ?code, region_offset = of_nat (unat a div 1024 - unat ?base div 1024) * 1024\<rparr>"
      using zo(4) page_at_Some [of "l1_phys_map mm'" ?j] by (simp add: assigned_def)
  qed
  moreover have "goldfish_device_add dev rd wr (b, mm, s) = ret (b1, mm', s')"
    using assms(3,4) r(1) by (simp add: goldfish_device_add_def reg cpu_register_physical_memory_def Let_def)
  ultimately show ?thesis using r z by (intro exI [of _ z] exI [of _ mm'] exI [of _ s']) (simp add: uses_map_def)
qed


section \<open>Accesses\<close>

lemma word_aligned: "unat off mod 4 = 0 \<Longrightarrow> off AND 3 = (0 :: u32)"
proof -
  assume "unat off mod 4 = 0"
  moreover have "off AND 3 = take_bit 2 off" by (simp add: take_bit_eq_mask mask_eq_exp_minus_1)
  ultimately show ?thesis by (simp only: word_unat_eq_iff unat_take_bit) simp
qed

text \<open>A word of a device register is transferred by one call.\<close>

lemma word_transfer:
  assumes "device_pages z base sz mm" and "uses_map mm t" and "6 \<le> z" and "z < 128"
    and "unat base mod 1024 = 0" and "unat off < unat sz" and "unat base + unat sz \<le> 2 ^ 32" and "unat off mod 4 = 0"
    and "zone_read (registry mm) z 2 = Some (Device f)" and "zone_write (registry mm) z 2 = Some (Device g)" and "length buf = 4"
  shows "cpu_physical_memory_rw tbi (with_map mm p) (base + off) buf True t = comp_bind (g off (value_of_bytes buf) t) (\<lambda>t1. ret (buf, t1))"
    "cpu_physical_memory_rw tbi (with_map mm p) (base + off) buf False t = comp_bind (f off t) (\<lambda>(v, t1). ret (bytes_of_value 4 v, t1))"
proof -
  note da = device_address [OF assms(1,2,5-7)]
  note zo = zone_offset [OF assms(3,4)]
  have a: "unat (base + off) = unat base + unat off" using assms(6,7) by (simp add: unat_word_ariths)
  obtain q r where q: "unat base = 1024 * q" "unat off = 4 * r" using assms(5,8) by (auto elim!: dvdE)
  have "(1024 * q + 4 * r) mod 1024 = 4 * (r mod 256)" using mult_mod_right [of 4 r 256] by (simp add: mod_mult_self4)
  then have "unat (base + off) mod 1024 \<le> 1020" by (simp add: a q)
  then have l: "page_part (base + off) 4 = 4" by (simp add: page_part_eq)
  have w: "io_width off 4 = 4" "size_shift 4 = 2" using word_aligned [OF assms(8)] by (simp_all add: io_width_def size_shift_def)
  have not_mem: "low_bits_u64 (of_int (push_bit 3 (int z))) \<noteq> IO_MEM_RAM" "IO_MEM_ROM < low_bits_u64 (of_int (push_bit 3 (int z))) \<and> of_int (push_bit 3 (int z)) AND IO_MEM_ROMD = 0"
    using zo(3,5) by (simp_all add: is_memory_def not_le)
  have wp: "write_part tbi (with_map mm p) (base + off) buf t = comp_bind (g off (value_of_bytes buf) t) (\<lambda>t1. ret (4, t1))"
    unfolding write_part_def da zo(6) Let_def assms(11) l w using not_mem(1) assms(11)
    by (simp add: with_map_def zone_write_calls [OF assms(10)])
  have ne: "buf \<noteq> []" using assms(11) by auto
  have "physical_write tbi (with_map mm p) (base + off) buf t = g off (value_of_bytes buf) t"
    unfolding physical_write.simps [of _ _ "base + off" buf] wp using ne assms(11)
    by (cases "g off (value_of_bytes buf) t" rule: comp_cases) (simp_all add: physical_write.simps [where buf = "[]"])
  then show "cpu_physical_memory_rw tbi (with_map mm p) (base + off) buf True t = comp_bind (g off (value_of_bytes buf) t) (\<lambda>t1. ret (buf, t1))"
    by (simp add: cpu_physical_memory_rw_def)
  have rp: "read_part (with_map mm p) (base + off) 4 t = comp_bind (f off t) (\<lambda>(v, t1). ret (bytes_of_value 4 v, t1))"
    unfolding read_part_def da zo(6) Let_def l w using not_mem(2) by (simp add: with_map_def zone_calls [OF assms(9)])
  have "physical_read (with_map mm p) (base + off) 4 t = comp_bind (f off t) (\<lambda>(v, t1). ret (bytes_of_value 4 v, t1))"
    unfolding physical_read.simps [of _ "base + off" 4] rp
    by (cases "f off t" rule: comp_cases) (auto simp: bytes_of_value_def physical_read.simps [where len = 0])
  then show "cpu_physical_memory_rw tbi (with_map mm p) (base + off) buf False t = comp_bind (f off t) (\<lambda>(v, t1). ret (bytes_of_value 4 v, t1))"
    by (simp add: cpu_physical_memory_rw_def assms(11))
qed


lemma page_aligned_iff: "x AND NOT TARGET_PAGE_MASK = 0 \<longleftrightarrow> 1024 dvd unat x"
  using page_offset [of x] by (simp add: word_unat_eq_iff dvd_eq_mod_eq_0)

lemma of_nat_unat_u32: "of_nat (unat (x :: u32)) = x"
  by simp

lemma page_multiple: "(1024 * w) AND NOT TARGET_PAGE_MASK = 0"
proof -
  have "unat (1024 * w) = 1024 * unat w mod 2 ^ 32" by (simp add: unat_word_ariths)
  moreover have "1024 dvd (2 ^ 32 :: nat)" by (simp add: dvd_eq_mod_eq_0)
  ultimately show ?thesis unfolding page_aligned_iff by (simp only: dvd_mod_iff dvd_triv_left)
qed

lemma page_aligned_diff:
  assumes "x AND NOT TARGET_PAGE_MASK = 0" and "y AND NOT TARGET_PAGE_MASK = 0"
  shows "(x - y) AND NOT TARGET_PAGE_MASK = 0"
proof -
  obtain a b where "unat x = 1024 * a" "unat y = 1024 * b" using assms by (auto simp: page_aligned_iff elim!: dvdE)
  then have "x = of_nat (1024 * a)" "y = of_nat (1024 * b)" by (metis of_nat_unat_u32)+
  then have "x - y = 1024 * (of_nat a - of_nat b)" by (simp add: algebra_simps)
  then show ?thesis by (simp only: page_multiple)
qed

text \<open>The I/O word of a device page leads to the zone of the device and to the offset in its region.\<close>

lemma device_io_word:
  assumes "device_pages z base sz mm" and "uses_map mm t" and "6 \<le> z" and "z < 128"
    and "unat base mod 1024 = 0" and "unat off < unat sz" and "unat base + unat sz \<le> 2 ^ 32"
    and "v AND NOT TARGET_PAGE_MASK = (base + off) AND NOT TARGET_PAGE_MASK"
    and "io = iotlb_value (mach t) (page_pd (mach t) (base + off)) ((base + off) AND TARGET_PAGE_MASK) - (v AND TARGET_PAGE_MASK)"
  shows "io_index io = z" "io_address io v = off"
proof -
  note da = device_address [OF assms(1,2,5-7)]
  note zo = zone_offset [OF assms(3,4)]
  let ?a = "base + off"
  define region where "region = io_region_address (mach t) ?a - (?a AND NOT TARGET_PAGE_MASK)"
  have "unat base \<le> unat ?a \<and> unat ?a < unat base + unat sz" using assms(6,7) by (simp add: unat_word_ariths)
  then obtain d where d: "phys_page_find (mach t) (drop_bit TARGET_PAGE_BITS ?a) = Some d"
      and k: "region_offset d = of_nat (unat ?a div 1024 - unat base div 1024) * 1024"
    using assms(1,2) unfolding device_pages_def uses_map_def by (metis PhysPageDesc.select_convs(2))
  then have region: "region = ucast (region_offset d)" by (simp add: region_def io_region_address_def)
  have code: "(ucast (of_int (push_bit 3 (int z)) :: u64) :: u32) = of_int (push_bit 3 (int z))"
    using ucast_of_nat_down [of "z * 8"] by (simp add: push_bit_eq_mult)
  have word: "iotlb_value (mach t) (page_pd (mach t) ?a) (?a AND TARGET_PAGE_MASK) = of_int (push_bit 3 (int z)) + region"
    unfolding da(1) iotlb_value_def drop_page_bits d using zo(3) by (simp add: region zo(2) code is_memory_def)
  have off: "off = region + (?a AND NOT TARGET_PAGE_MASK)" by (simp add: region_def da(2))
  have "region AND NOT TARGET_PAGE_MASK = 0"
  proof -
    obtain k where "region_offset d = of_nat k * 1024" using k by (rule that)
    then have "region = 1024 * of_nat k" using ucast_of_nat_down [of "k * 1024"] by (simp add: region mult.commute)
    then show ?thesis by (simp only: page_multiple)
  qed
  then have r: "(region - (v AND TARGET_PAGE_MASK)) AND NOT TARGET_PAGE_MASK = 0" by (rule page_aligned_diff) (rule bit_word_eqI, simp add: bit_simps)
  note idx = registered_index [OF assms(4) disjI1 [OF refl] r, unfolded or.right_neutral]
  have e: "io = region - (v AND TARGET_PAGE_MASK) + of_int (push_bit 3 (int z))" unfolding assms(9) word by simp
  have "region + (v AND NOT TARGET_PAGE_MASK) = off" unfolding assms(8) by (rule off [symmetric])
  moreover have "region - (v AND TARGET_PAGE_MASK) + ((v AND TARGET_PAGE_MASK) + (v AND NOT TARGET_PAGE_MASK)) = region + (v AND NOT TARGET_PAGE_MASK)"
    by simp
  ultimately have addr: "region - (v AND TARGET_PAGE_MASK) + v = off" by (simp only: page_split)
  show "io_index io = z" "io_address io v = off" unfolding e io_address_def idx addr by simp_all
qed

text \<open>What the tracer leaves alone.\<close>

lemma trace_access_frame:
  assumes "trace_access a s = ret s1"
  obtains w where "s1 = s\<lparr>world := w\<rparr>" and "cpu w = cpu (world s)" and "ram w = ram (world s)"
proof (rule that [of "world s1"])
  show "s1 = s\<lparr>world := world s1\<rparr>" "cpu (world s1) = cpu (world s)" "ram (world s1) = ram (world s)"
    using assms unfolding trace_access_def tlbtrace_refmem_qemu_def with_tracer_def
    by (auto simp: Let_def split: if_splits dest!: comp_bind_eq_retD)
qed

text \<open>
  An access of the program that misses the TLB and whose page the tables map to the physical address \<open>a\<close>: no memory protection unit, no memory checker, no
  watchpoint on the page, and a RAM block at offset 0, whose address the refill asks for also on device pages.
\<close>

definition misses_onto :: "u32 \<Rightarrow> int \<Rightarrow> nat \<Rightarrow> u32 \<Rightarrow> 'd system \<Rightarrow> bool" where
  "misses_onto v access_type m a t \<longleftrightarrow> \<not> access_hits v access_type (tlb_line m v t) \<and>
     (\<exists>prot sz. get_phys_addr (ram (world t)) (cpu (world t)) v access_type (m = MMU_USER_IDX) = ret (Translated a prot sz)) \<and>
     \<not> arm_feature (cpu (world t)) ARM_FEATURE_MPU \<and> \<not> memcheck_instrument_mmu (mach t) \<and>
     \<not> watched (v AND TARGET_PAGE_MASK) (watchpoints (cpu (world t))) \<and> (\<exists>h. qemu_safe_ram_ptr 0 (ram_list (mach t)) = ret h)"

lemma misses_onto_traced:
  assumes "trace_access v' t = ret t1"
  shows "misses_onto v access_type m a t1 = misses_onto v access_type m a t" "uses_map mm t1 = uses_map mm t"
  by (rule trace_access_frame [OF assms], simp add: misses_onto_def tlb_line_def uses_map_def)+

text \<open>The refill of such an access on a device page.\<close>

lemma device_fill:
  assumes "device_pages z base sz mm" and "uses_map mm t" and "6 \<le> z" and "z < 128"
    and "unat base mod 1024 = 0" and "unat off < unat sz" and "unat base + unat sz \<le> 2 ^ 32"
    and "v AND NOT TARGET_PAGE_MASK = (base + off) AND NOT TARGET_PAGE_MASK" and "misses_onto v acc m (base + off) t"
  obtains t2 where "tlb_fill p v acc m ra t = ret (Some (), t2)" and "access_hits v acc (tlb_line m v t2)"
    and "access_field acc (tlb_line m v t2) AND NOT TARGET_PAGE_MASK \<noteq> 0"
    and "io_index (iotlb (cpu (world t2)) m (tlb_index v)) = z" and "io_address (iotlb (cpu (world t2)) m (tlb_index v)) v = off"
proof -
  let ?a = "base + off" and ?env = "cpu (world t)"
  note pd = device_address(1) [OF assms(1,2,5-7)]
  note zo = zone_offset [OF assms(3,4)]
  obtain prot psz h where g: "get_phys_addr (ram (world t)) ?env v acc (m = MMU_USER_IDX) = ret (Translated ?a prot psz)"
    and c: "\<not> arm_feature ?env ARM_FEATURE_MPU" "\<not> memcheck_instrument_mmu (mach t)" "\<not> watched (v AND TARGET_PAGE_MASK) (watchpoints ?env)"
    and h: "qemu_safe_ram_ptr 0 (ram_list (mach t)) = ret h"
    using assms(9) unfolding misses_onto_def by blast
  have io: "IO_MEM_ROM < low_bits_u64 (page_pd (mach t) ?a)" "page_pd (mach t) ?a AND IO_MEM_ROMD = 0"
    using zo(3) by (simp_all add: pd is_memory_def not_le)
  have "page_of_u64 (page_pd (mach t) ?a) = 0"
  proof -
    have "of_int (push_bit 3 (int z)) AND mask TARGET_PAGE_BITS = (of_int (push_bit 3 (int z)) :: u64)" using zo(2) by (simp add: low_bits_u64_def)
    then have "page_of_u64 (of_int (push_bit 3 (int z))) = (of_int (push_bit 3 (int z)) AND mask TARGET_PAGE_BITS) AND NOT (mask TARGET_PAGE_BITS)"
      by (simp only: page_of_u64_def)
    then show ?thesis by (simp add: pd and.assoc)
  qed
  then have b: "page_backed (mach t) ?a" using h zo(5) by (simp add: page_backed_def pd)
  obtain mach' env' where f: "cpu_arm_handle_mmu_fault (ram (world t)) v acc m (mach t, ?env) = ret (0, mach', env')"
    and word: "iotlb env' m (tlb_index v) + (v AND TARGET_PAGE_MASK) = iotlb_value (mach t) (page_pd (mach t) ?a) (?a AND TARGET_PAGE_MASK)"
    by (rule handle_mmu_fault_fills [OF g c(2) b]) (use c(3) in simp)
  have "iotlb env' m (tlb_index v) = iotlb_value (mach t) (page_pd (mach t) ?a) (?a AND TARGET_PAGE_MASK) - (v AND TARGET_PAGE_MASK)"
    using word by (simp add: eq_diff_eq)
  note dw = device_io_word [OF assms(1-8) this]
  have "tlb_fill p v acc m ra t = ret (Some (), put_cpu env' (t\<lparr>mach := mach'\<rparr>))" by (simp add: tlb_fill_def f Let_def)
  moreover have "access_hits v acc (entry_at v m env')" using handle_mmu_fault_cases [OF c(1,2) f] by auto
  ultimately show thesis
    using that dw handle_mmu_fault_mmio [OF g c(1,2) io f] by (simp add: tlb_line_def put_cpu_def)
qed

text \<open>A load and a store of the program that refill the TLB from a page of the device.\<close>

lemma program_load_calls:
  assumes "device_pages z base sz mm" and "uses_map mm t" and "6 \<le> z" and "z < 128"
    and "unat base mod 1024 = 0" and "unat off < unat sz" and "unat base + unat sz \<le> 2 ^ 32"
    and "v AND NOT TARGET_PAGE_MASK = (base + off) AND NOT TARGET_PAGE_MASK" and "n \<in> {1, 2, 4}" and "\<not> unaligned n v"
    and "zone_read (registry mm) z (size_shift n) = Some (Device f)"
    and "misses_onto v 0 m (base + off) t" and "trace_access v t = ret t1"
  shows "\<exists>t2. tlb_fill (with_map mm p) v 0 m ra t1 = ret (Some (), t2) \<and>
    ld_mmu (with_map mm p) False n v m ra t =
      comp_bind (f off (t2\<lparr>mem_io_pc := ra, mem_io_vaddr := v\<rparr>)) (\<lambda>(x, t3). ret (Some (take_bit (8 * n) (ucast x)), t3))"
proof -
  have t1: "misses_onto v 0 m (base + off) t1" "uses_map mm t1" using assms(2,12) misses_onto_traced [OF assms(13)] by simp_all
  obtain t2 where fill: "tlb_fill (with_map mm p) v 0 m ra t1 = ret (Some (), t2)"
    and hit: "tlb_hit v (addr_read (tlb_line m v t2))" "addr_read (tlb_line m v t2) AND NOT TARGET_PAGE_MASK \<noteq> 0"
    and io: "io_index (iotlb (cpu (world t2)) m (tlb_index v)) = z" "io_address (iotlb (cpu (world t2)) m (tlb_index v)) v = off"
    by (rule device_fill [OF assms(1) t1(2) assms(3-8) t1(1), of "with_map mm p" ra]) (auto simp: access_hits_def access_field_def)
  have "\<not> tlb_hit v (addr_read (tlb_line m v t1))" using t1(1) by (simp add: misses_onto_def access_hits_def)
  then have "ld_mmu (with_map mm p) False n v m ra t = ld_redo (with_map mm p) False n m ra v t2"
    unfolding ld_mmu_def assms(13) comp_bind_ret
    by (subst ld_redo.simps) (simp add: Let_def ADDR_READ_def READ_ACCESS_TYPE_def fill)
  also have "\<dots> = io_read (with_map mm p) n (iotlb (cpu (world t2)) m (tlb_index v)) v ra t2"
    using hit assms(10) by (subst ld_redo.simps) (simp add: Let_def ADDR_READ_def)
  also have "\<dots> = comp_bind (f off (t2\<lparr>mem_io_pc := ra, mem_io_vaddr := v\<rparr>)) (\<lambda>(x, t3). ret (Some (take_bit (8 * n) (ucast x)), t3))"
    unfolding io_read_def io Let_def using size_shift_small [OF assms(9)] by (simp add: with_map_def zone_calls [OF assms(11)])
  finally show ?thesis using fill by blast
qed

lemma program_store_calls:
  assumes "device_pages z base sz mm" and "uses_map mm t" and "6 \<le> z" and "z < 128"
    and "unat base mod 1024 = 0" and "unat off < unat sz" and "unat base + unat sz \<le> 2 ^ 32"
    and "v AND NOT TARGET_PAGE_MASK = (base + off) AND NOT TARGET_PAGE_MASK" and "n \<in> {1, 2, 4}" and "\<not> unaligned n v"
    and "zone_write (registry mm) z (size_shift n) = Some (Device g)"
    and "misses_onto v 1 m (base + off) t" and "trace_access v t = ret t1"
  shows "\<exists>t2. tlb_fill (with_map mm p) v 1 m ra t1 = ret (Some (), t2) \<and>
    st_mmu (with_map mm p) n v val m ra t =
      comp_bind (g off (ucast (take_bit (8 * n) val)) (t2\<lparr>mem_io_vaddr := v, mem_io_pc := ra\<rparr>)) (\<lambda>t3. ret (Some (), t3))"
proof -
  have t1: "misses_onto v 1 m (base + off) t1" "uses_map mm t1" using assms(2,12) misses_onto_traced [OF assms(13)] by simp_all
  obtain t2 where fill: "tlb_fill (with_map mm p) v 1 m ra t1 = ret (Some (), t2)"
    and hit: "tlb_hit v (addr_write (tlb_line m v t2))" "addr_write (tlb_line m v t2) AND NOT TARGET_PAGE_MASK \<noteq> 0"
    and io: "io_index (iotlb (cpu (world t2)) m (tlb_index v)) = z" "io_address (iotlb (cpu (world t2)) m (tlb_index v)) v = off"
    by (rule device_fill [OF assms(1) t1(2) assms(3-8) t1(1), of "with_map mm p" ra]) (auto simp: access_hits_def access_field_def)
  have "\<not> tlb_hit v (addr_write (tlb_line m v t1))" using t1(1) by (simp add: misses_onto_def access_hits_def)
  then have "st_mmu (with_map mm p) n v val m ra t = st_redo (with_map mm p) n m ra v val t2"
    unfolding st_mmu_def assms(13) comp_bind_ret
    by (subst st_redo.simps) (simp add: Let_def fill)
  also have "\<dots> = io_write (with_map mm p) n (iotlb (cpu (world t2)) m (tlb_index v)) val v ra t2"
    using hit assms(10) by (subst st_redo.simps) (simp add: Let_def)
  also have "\<dots> = comp_bind (g off (ucast (take_bit (8 * n) val)) (t2\<lparr>mem_io_vaddr := v, mem_io_pc := ra\<rparr>)) (\<lambda>t3. ret (Some (), t3))"
    unfolding io_write_def io Let_def using size_shift_small [OF assms(9)] by (simp add: with_map_def zone_write_calls [OF assms(11)])
  finally show ?thesis using fill by blast
qed

text \<open>A region of free pages for the device.\<close>

definition room_for :: "goldfish_device \<Rightarrow> 'd memory_map \<Rightarrow> bool" where
  "room_for d mm \<longleftrightarrow> unat (dev_base d) mod 1024 = 0 \<and> unat (dev_size d) mod 1024 = 0 \<and> 0 < dev_size d \<and>
     unat (dev_base d) + unat (dev_size d) \<le> 2 ^ 32 \<and>
     (\<forall>j. page_no j \<longrightarrow> unat (dev_base d) div 1024 \<le> unat j \<longrightarrow> unat j < (unat (dev_base d) + unat (dev_size d)) div 1024 \<longrightarrow>
        page_at (l1_phys_map mm) j = None)"

text \<open>
  C11. A device that is added to the bus can be reached at its address. Adding it registers its functions and its region of free pages; from then on, in
  every system that uses the map, a transfer of one aligned word at \<open>base + off\<close> is one call of its function for words with the address \<open>off\<close> and the
  value. An aligned load or store of 1, 2 or 4 bytes by the program at a virtual address that misses the TLB and that the page tables map to \<open>base + off\<close>, after
  the tracer has seen it, refills the TLB and then is one call of the function for this size with the address \<open>off\<close>; a load returns what the function returns, cut to the size,
  and a store passes the value, cut to the size. (The processor has no memory protection unit, the memory checker is off, no watchpoint is on the page, the page tables keep the
  offset in the 1 KB page, and there is a RAM block at offset 0, whose address the refill takes even for a device page.)
\<close>

theorem device_reachable:
  assumes "zones_left (registry mm)" and "complete rd wr" and "goldfish_add_device_no_io dev b = ret b1" and "d = last (devs b1)"
    and "room_for d mm" and "unat off < unat (dev_size d)" and "n \<in> {1, 2, 4}" and "\<not> unaligned n v"
    and "v AND NOT TARGET_PAGE_MASK = (dev_base d + off) AND NOT TARGET_PAGE_MASK"
  shows "\<exists>mm' s'. goldfish_device_add dev rd wr (b, mm, s) = ret (b1, mm', s') \<and> uses_map mm' s' \<and>
    (\<forall>t. uses_map mm' t \<longrightarrow>
      (unat off mod 4 = 0 \<and> length buf = 4 \<longrightarrow>
        cpu_physical_memory_rw tbi (with_map mm' p) (dev_base d + off) buf True t =
          comp_bind (the (wr 2) off (value_of_bytes buf) t) (\<lambda>t1. ret (buf, t1)) \<and>
        cpu_physical_memory_rw tbi (with_map mm' p) (dev_base d + off) buf False t =
          comp_bind (the (rd 2) off t) (\<lambda>(x, t1). ret (bytes_of_value 4 x, t1))) \<and>
      (\<forall>t1. misses_onto v 0 m (dev_base d + off) t \<and> trace_access v t = ret t1 \<longrightarrow>
        (\<exists>t2. tlb_fill (with_map mm' p) v 0 m ra t1 = ret (Some (), t2) \<and>
          ld_mmu (with_map mm' p) False n v m ra t =
            comp_bind (the (rd (size_shift n)) off (t2\<lparr>mem_io_pc := ra, mem_io_vaddr := v\<rparr>)) (\<lambda>(x, t3). ret (Some (take_bit (8 * n) (ucast x)), t3)))) \<and>
      (\<forall>t1. misses_onto v 1 m (dev_base d + off) t \<and> trace_access v t = ret t1 \<longrightarrow>
        (\<exists>t2. tlb_fill (with_map mm' p) v 1 m ra t1 = ret (Some (), t2) \<and>
          st_mmu (with_map mm' p) n v val m ra t =
            comp_bind (the (wr (size_shift n)) off (ucast (take_bit (8 * n) val)) (t2\<lparr>mem_io_vaddr := v, mem_io_pc := ra\<rparr>)) (\<lambda>t3. ret (Some (), t3)))))"
proof -
  have room: "unat (dev_base d) mod 1024 = 0" "unat (dev_size d) mod 1024 = 0" "0 < dev_size d" "unat (dev_base d) + unat (dev_size d) \<le> 2 ^ 32"
    using assms(5) unfolding room_for_def by blast+
  obtain z mm' s' where add: "goldfish_device_add dev rd wr (b, mm, s) = ret (b1, mm', s')" "uses_map mm' s'"
    and z: "6 \<le> z" "z < 128" "device_pages z (dev_base d) (dev_size d) mm'"
    and h: "\<And>k. k < 3 \<Longrightarrow> zone_read (registry mm') z k = map_option Device (rd k) \<and> zone_write (registry mm') z k = map_option Device (wr k)"
    using device_registered [OF assms(1-4) room, of s] assms(5) unfolding room_for_def by blast
  have fn: "zone_read (registry mm') z k = Some (Device (the (rd k)))" "zone_write (registry mm') z k = Some (Device (the (wr k)))" if "k < 3" for k
    using h [OF that] assms(2) that by (auto simp: complete_def)
  have k: "size_shift n < 3" using size_shift_small [OF assms(7)] by simp
  note tr = word_transfer [OF z(3) _ z(1,2) room(1) assms(6) room(4) _ fn(1) fn(2), where buf = buf]
    and ld = program_load_calls [OF z(3) _ z(1,2) room(1) assms(6) room(4) assms(9,7,8) fn(1) [OF k]]
    and st = program_store_calls [OF z(3) _ z(1,2) room(1) assms(6) room(4) assms(9,7,8) fn(2) [OF k]]
  show ?thesis
  proof (rule exI [of _ mm'], rule exI [of _ s'], intro conjI allI impI add, goal_cases)
    case (1 t) then show ?case using tr(1) [of t] by simp
  next
    case (2 t) then show ?case using tr(2) [of t] by simp
  next
    case (3 t t1) then show ?case by (elim conjE) (rule ld)
  next
    case (4 t t1) then show ?case by (elim conjE) (rule st)
  qed
qed

text \<open>A register at 0xFF013000, in a system without other regions.\<close>

definition register_device :: goldfish_device where
  "register_device = \<lparr>reported_state = 0, dev_name = ''register'', dev_id = 0, dev_base = 0xFF013000, dev_size = 0x1000, dev_irq = 7, dev_irq_count = 1\<rparr>"

text \<open>A kernel that maps the section at 0xC0000000 to the devices.\<close>

definition kernel_system :: "u32 memory_map \<Rightarrow> u32 system" where
  "kernel_system mm = \<lparr>world = traced_example\<lparr>cpu := mmu_env, ram := stl_phys 0x7000 0xFF000C02 (\<lambda>_. 0)\<rparr>,
     mach = small_machine\<lparr>phys_page_find := find_page (l1_phys_map mm)\<rparr>, host = (\<lambda>_. 0), devices = 0x2A, mem_io_pc = 0, mem_io_vaddr = 0\<rparr>"

lemma kernel_system_misses: "access_type \<in> {0, 1} \<Longrightarrow> misses_onto 0xC0013408 access_type 0 0xFF013408 (kernel_system mm)"
proof -
  assume a: "access_type \<in> {0, 1}"
  let ?mem = "stl_phys 0x7000 0xFF000C02 (\<lambda>_. 0)"
  have "returned (get_phys_addr ?mem mmu_env 0xC0013408 0 (0 = MMU_USER_IDX)) = Some (Translated 0xFF013408 7 0x100000)"
    "returned (get_phys_addr ?mem mmu_env 0xC0013408 1 (0 = MMU_USER_IDX)) = Some (Translated 0xFF013408 7 0x100000)" by code_simp+
  then have g: "\<exists>prot sz. get_phys_addr ?mem mmu_env 0xC0013408 access_type (0 = MMU_USER_IDX) = ret (Translated 0xFF013408 prot sz)"
    using a by (auto simp: returned_Some)
  have "\<not> tlb_hit 0xC0013408 (addr_read (entry_at 0xC0013408 0 mmu_env))" "\<not> tlb_hit 0xC0013408 (addr_write (entry_at 0xC0013408 0 mmu_env))"
    "watchpoints mmu_env = []" by code_simp+
  then have n: "\<not> access_hits 0xC0013408 access_type (entry_at 0xC0013408 0 mmu_env)" "\<not> watched (0xC0013408 AND TARGET_PAGE_MASK) (watchpoints mmu_env)"
    using a by (auto simp: access_hits_def watched_def)
  have "returned (qemu_safe_ram_ptr 0 (ram_list small_machine)) = Some 0x7000" by code_simp
  then have "qemu_safe_ram_ptr 0 (ram_list small_machine) = ret 0x7000" by (simp only: returned_Some)
  then show ?thesis
    using g n mmu_env_no_mpu small_machine_unchecked by (simp add: misses_onto_def kernel_system_def tlb_line_def traced_example_def)
qed

theorem device_reachable_witness:
  "\<forall>s. \<exists>b1 mm' s'. goldfish_device_add register_device register_read register_write (initial_bus, empty_map, s) = ret (b1, mm', s') \<and>
     cpu_physical_memory_rw (\<lambda>_ _ t. ret t) (with_map mm' no_io) 0xFF013408 [1, 2, 0, 0] True s' = ret ([1, 2, 0, 0], s'\<lparr>devices := 0x201\<rparr>) \<and>
     (\<exists>t. ld_mmu (with_map mm' no_io) False 4 0xC0013408 0 0 (kernel_system mm') = ret (Some (ucast (devices t)), t)) \<and>
     (\<exists>t. st_mmu (with_map mm' no_io) 4 0xC0013408 7 0 0 (kernel_system mm') = ret (Some (), t) \<and> devices t = 7)"
proof
  fix s
  let ?d = register_device and ?e = "empty_map :: u32 memory_map"
  let ?b = "initial_bus\<lparr>devs := [?d]\<rparr>"
  have z: "zones_left (registry ?e)" unfolding zones_left_def empty_map_def by (auto intro: exI [of _ 6])
  have c: "complete register_read register_write" by (simp add: complete_def register_read_def register_write_def)
  have a: "goldfish_add_device_no_io ?d initial_bus = ret ?b" by (simp add: goldfish_add_device_no_io_def register_device_def initial_bus_def)
  have d: "?d = last (devs ?b)" by simp
  have r: "room_for ?d ?e" by (simp add: room_for_def register_device_def page_at_def find_page_eq empty_map_def)
  have v: "(0xC0013408 :: u32) AND NOT TARGET_PAGE_MASK = (dev_base ?d + 0x408) AND NOT TARGET_PAGE_MASK" "dev_base ?d + 0x408 = 0xFF013408"
    by (simp_all add: register_device_def TARGET_PAGE_MASK_def)
  have o: "unat (0x408 :: u32) < unat (dev_size ?d)" "(4 :: nat) \<in> {1, 2, 4}" "\<not> unaligned 4 0xC0013408"
    by (simp_all add: register_device_def unaligned_def)
  have val: "value_of_bytes [1, 2, 0, 0] = 0x201" by code_simp
  obtain mm' s' where add: "goldfish_device_add ?d register_read register_write (initial_bus, ?e, s) = ret (?b, mm', s')" and u: "uses_map mm' s'"
    and all: "\<And>t. uses_map mm' t \<Longrightarrow>
      (unat (0x408 :: u32) mod 4 = 0 \<and> length [1, 2, 0, 0 :: u8] = 4 \<longrightarrow>
        cpu_physical_memory_rw (\<lambda>_ _ t. ret t) (with_map mm' no_io) 0xFF013408 [1, 2, 0, 0] True t =
          comp_bind (the (register_write 2) 0x408 0x201 t) (\<lambda>t1. ret ([1, 2, 0, 0], t1))) \<and>
      (\<forall>t1. misses_onto 0xC0013408 0 0 0xFF013408 t \<and> trace_access 0xC0013408 t = ret t1 \<longrightarrow>
        (\<exists>t2. ld_mmu (with_map mm' no_io) False 4 0xC0013408 0 0 t =
            comp_bind (the (register_read (size_shift 4)) 0x408 (t2\<lparr>mem_io_pc := 0, mem_io_vaddr := 0xC0013408\<rparr>)) (\<lambda>(x, t3). ret (Some (take_bit (8 * 4) (ucast x)), t3)))) \<and>
      (\<forall>t1. misses_onto 0xC0013408 1 0 0xFF013408 t \<and> trace_access 0xC0013408 t = ret t1 \<longrightarrow>
        (\<exists>t2. st_mmu (with_map mm' no_io) 4 0xC0013408 7 0 0 t =
            comp_bind (the (register_write (size_shift 4)) 0x408 (ucast (take_bit (8 * 4) (7 :: u64))) (t2\<lparr>mem_io_vaddr := 0xC0013408, mem_io_pc := 0\<rparr>)) (\<lambda>t3. ret (Some (), t3))))"
    using device_reachable [OF z c a d r o v(1), of s "[1, 2, 0, 0]" "\<lambda>_ _ t. ret t" no_io 0 0 7, unfolded v(2) val] by blast
  let ?k = "kernel_system mm'"
  have k: "uses_map mm' ?k" by (simp add: uses_map_def kernel_system_def)
  have "uncached_cpsr mmu_env AND CPSR_M \<noteq> ARM_CPU_MODE_USR" by code_simp
  then have t: "trace_access 0xC0013408 ?k = ret ?k" by (simp add: trace_access_def tlbtrace_refmem_qemu_def kernel_system_def)
  have "\<exists>t. ld_mmu (with_map mm' no_io) False 4 0xC0013408 0 0 ?k = ret (Some (ucast (devices t)), t)"
    using all [OF k] kernel_system_misses [of 0 mm'] t by (auto simp: register_read_def take_bit_of_u32)
  moreover have "\<exists>t. st_mmu (with_map mm' no_io) 4 0xC0013408 7 0 0 ?k = ret (Some (), t) \<and> devices t = 7"
    using all [OF k] kernel_system_misses [of 1 mm'] t by (auto simp: register_write_def take_bit_eq_mod)
  moreover have "cpu_physical_memory_rw (\<lambda>_ _ t. ret t) (with_map mm' no_io) 0xFF013408 [1, 2, 0, 0] True s' = ret ([1, 2, 0, 0], s'\<lparr>devices := 0x201\<rparr>)"
    using all [OF u] by (simp add: register_write_def)
  ultimately show "\<exists>b1 mm' s'. goldfish_device_add ?d register_read register_write (initial_bus, ?e, s) = ret (b1, mm', s') \<and>
     cpu_physical_memory_rw (\<lambda>_ _ t. ret t) (with_map mm' no_io) 0xFF013408 [1, 2, 0, 0] True s' = ret ([1, 2, 0, 0], s'\<lparr>devices := 0x201\<rparr>) \<and>
     (\<exists>t. ld_mmu (with_map mm' no_io) False 4 0xC0013408 0 0 (kernel_system mm') = ret (Some (ucast (devices t)), t)) \<and>
     (\<exists>t. st_mmu (with_map mm' no_io) 4 0xC0013408 7 0 0 (kernel_system mm') = ret (Some (), t) \<and> devices t = 7)"
    using add by blast
qed

end
