(* ===== verification/Qemu_File.thy ===== *)
theory Qemu_File
  imports Prelude
begin

unbundle bit_operations_syntax

text \<open>
  The buffered file of snapshots and migration (\<open>QEMUFile\<close>, savevm.c and qemu_file.h): one buffer of \<open>IO_BUF_SIZE\<close> bytes
  between the code that saves the machine and a back end that moves whole buffers, the big-endian encodings of the machine
  integers, and the tables of fields (\<open>QField\<close>) with which the devices describe what they save.

  What the file promises its clients is stated as a locale: an operation that puts a value appends its code to what was
  written, and the operation that gets it takes the code off what is left to read. Every encoding is an interpretation of it,
  and the lists of values and the tables of fields are treated once, inside it.
\<close>

section \<open>The file\<close>

definition IO_BUF_SIZE :: nat where "IO_BUF_SIZE = 32768"
definition EAGAIN :: int where "EAGAIN = 11"

text \<open>
  The function pointers of the back end are fields that may be \<open>NULL\<close> (\<open>None\<close>). \<open>put_buffer\<close> takes the bytes of the
  buffer and their place in the stream, \<open>get_buffer\<close> the place and the most bytes it may deliver; its result and the bytes it
  stored at the start of the buffer are what it returns. \<open>buf_offset\<close> counts bytes moved and stays far below \<open>2\<^sup>63\<close>.
\<close>

record 'o QEMUFile =
  put_buffer :: "(u8 list \<Rightarrow> int \<Rightarrow> 'o \<Rightarrow> int \<times> 'o) option"
  get_buffer :: "(int \<Rightarrow> nat \<Rightarrow> 'o \<Rightarrow> int \<times> u8 list \<times> 'o) option"
  close :: "('o \<Rightarrow> int \<times> 'o) option"
  rate_limit :: "('o \<Rightarrow> int) option"
  set_rate_limit :: "(int \<Rightarrow> 'o \<Rightarrow> int \<times> 'o) option"
  get_rate_limit :: "('o \<Rightarrow> int) option"
  opaque :: 'o
  is_write :: bool
  buf_offset :: int
  buf_index :: nat
  buf_size :: nat
  buf :: "nat \<Rightarrow> u8"
  has_error :: bool

text \<open>\<open>memcpy\<close> into the buffer at an index, and out of it.\<close>

definition copy_in :: "nat \<Rightarrow> u8 list \<Rightarrow> (nat \<Rightarrow> u8) \<Rightarrow> nat \<Rightarrow> u8" where
  "copy_in i bs b = (\<lambda>k. if i \<le> k \<and> k < i + length bs then bs ! (k - i) else b k)"

definition copy_out :: "nat \<Rightarrow> nat \<Rightarrow> (nat \<Rightarrow> u8) \<Rightarrow> u8 list" where
  "copy_out i n b = map b [i..<i + n]"

definition qemu_fopen_ops :: "'o \<Rightarrow> (u8 list \<Rightarrow> int \<Rightarrow> 'o \<Rightarrow> int \<times> 'o) option \<Rightarrow> (int \<Rightarrow> nat \<Rightarrow> 'o \<Rightarrow> int \<times> u8 list \<times> 'o) option \<Rightarrow>
    ('o \<Rightarrow> int \<times> 'o) option \<Rightarrow> ('o \<Rightarrow> int) option \<Rightarrow> (int \<Rightarrow> 'o \<Rightarrow> int \<times> 'o) option \<Rightarrow> ('o \<Rightarrow> int) option \<Rightarrow> 'o QEMUFile" where
  "qemu_fopen_ops op put get cl rl srl grl =
     \<lparr>put_buffer = put, get_buffer = get, close = cl, rate_limit = rl, set_rate_limit = srl, get_rate_limit = grl,
      opaque = op, is_write = False, buf_offset = 0, buf_index = 0, buf_size = 0, buf = (\<lambda>_. 0), has_error = False\<rparr>"

definition qemu_file_has_error :: "'o QEMUFile \<Rightarrow> bool" where
  "qemu_file_has_error f = has_error f"

definition qemu_file_set_error :: "'o QEMUFile \<Rightarrow> 'o QEMUFile" where
  "qemu_file_set_error f = f\<lparr>has_error := True\<rparr>"

definition qemu_fflush :: "'o QEMUFile \<Rightarrow> 'o QEMUFile" where
  "qemu_fflush f =
     (case put_buffer f of
        None \<Rightarrow> f
      | Some put \<Rightarrow>
          if is_write f \<and> 0 < buf_index f then
            let (len, op) = put (copy_out 0 (buf_index f) (buf f)) (buf_offset f) (opaque f);
                f1 = (if 0 < len then f\<lparr>buf_offset := buf_offset f + int (buf_index f)\<rparr> else f\<lparr>has_error := True\<rparr>)
            in f1\<lparr>opaque := op, buf_index := 0\<rparr>
          else f)"

definition qemu_fill_buffer :: "'o QEMUFile \<Rightarrow> 'o QEMUFile comp" where
  "qemu_fill_buffer f =
     (case get_buffer f of
        None \<Rightarrow> ret f
      | Some get \<Rightarrow>
          if is_write f then raise Abort
          else let (len, bs, op) = get (buf_offset f) IO_BUF_SIZE (opaque f);
                   f1 = f\<lparr>buf := copy_in 0 bs (buf f), opaque := op\<rparr>
               in if 0 < len then ret (f1\<lparr>buf_index := 0, buf_size := nat len, buf_offset := buf_offset f + len\<rparr>)
                  else if len \<noteq> - EAGAIN then ret (f1\<lparr>has_error := True\<rparr>) else ret f1)"

definition qemu_fclose :: "'o QEMUFile \<Rightarrow> int \<times> 'o" where
  "qemu_fclose f =
     (let f1 = qemu_fflush f in case close f1 of None \<Rightarrow> (0, opaque f1) | Some cl \<Rightarrow> cl (opaque f1))"

definition qemu_file_put_notify :: "'o QEMUFile \<Rightarrow> 'o QEMUFile comp" where
  "qemu_file_put_notify f =
     (case put_buffer f of None \<Rightarrow> raise NullDeref | Some put \<Rightarrow> ret (f\<lparr>opaque := snd (put [] 0 (opaque f))\<rparr>))"

text \<open>Writing while a read buffer is not empty aborts.\<close>

definition not_reading :: "'o QEMUFile \<Rightarrow> bool" where
  "not_reading f \<longleftrightarrow> \<not> (\<not> has_error f \<and> \<not> is_write f \<and> 0 < buf_index f)"

text \<open>
  The loop of \<open>qemu_put_buffer\<close>. With a full buffer that \<open>qemu_fflush\<close> does not empty (no \<open>put_buffer\<close>) it copies nothing
  and does not end.
\<close>

partial_function (option) put_loop :: "u8 list \<Rightarrow> 'o QEMUFile \<Rightarrow> 'o QEMUFile comp" where
  "put_loop bs f =
     (if has_error f \<or> bs = [] then ret f
      else let l = min (IO_BUF_SIZE - buf_index f) (length bs);
               f1 = f\<lparr>buf := copy_in (buf_index f) (take l bs) (buf f), is_write := True, buf_index := buf_index f + l\<rparr>
           in put_loop (drop l bs) (if IO_BUF_SIZE \<le> buf_index f1 then qemu_fflush f1 else f1))"

definition qemu_put_buffer :: "u8 list \<Rightarrow> 'o QEMUFile \<Rightarrow> 'o QEMUFile comp" where
  "qemu_put_buffer bs f = (if not_reading f then put_loop bs f else raise Abort)"

definition qemu_put_byte :: "u32 \<Rightarrow> 'o QEMUFile \<Rightarrow> 'o QEMUFile comp" where
  "qemu_put_byte v f =
     (if \<not> not_reading f then raise Abort
      else if IO_BUF_SIZE \<le> buf_index f then raise OutOfBounds
      else let f1 = f\<lparr>buf := (buf f)(buf_index f := ucast v), buf_index := buf_index f + 1, is_write := True\<rparr>
           in ret (if IO_BUF_SIZE \<le> buf_index f1 then qemu_fflush f1 else f1))"

text \<open>The loop of \<open>qemu_get_buffer\<close>: it ends, for a round that copies nothing leaves it. A negative difference would be the
  length of a copy.\<close>

function get_loop :: "nat \<Rightarrow> 'o QEMUFile \<Rightarrow> (u8 list \<times> 'o QEMUFile) comp" where
  "get_loop n f =
     (if n = 0 then ret ([], f)
      else comp_bind (if buf_size f = buf_index f then qemu_fill_buffer f else ret f) (\<lambda>f1.
        if buf_size f1 < buf_index f1 then raise OutOfBounds
        else if buf_size f1 = buf_index f1 then ret ([], f1)
        else let l = min (buf_size f1 - buf_index f1) n
             in comp_bind (get_loop (n - l) (f1\<lparr>buf_index := buf_index f1 + l\<rparr>)) (\<lambda>(bs, f2).
                  ret (copy_out (buf_index f1) l (buf f1) @ bs, f2))))"
  by pat_completeness auto
termination by (relation "measure fst") auto

declare get_loop.simps [simp del]

definition qemu_get_buffer :: "nat \<Rightarrow> 'o QEMUFile \<Rightarrow> (u8 list \<times> 'o QEMUFile) comp" where
  "qemu_get_buffer n f = (if is_write f then raise Abort else get_loop n f)"

definition qemu_get_byte :: "'o QEMUFile \<Rightarrow> (u32 \<times> 'o QEMUFile) comp" where
  "qemu_get_byte f =
     (if is_write f then raise Abort
      else comp_bind (if buf_size f \<le> buf_index f then qemu_fill_buffer f else ret f) (\<lambda>f1.
        if buf_size f1 \<le> buf_index f1 then ret (0, f1)
        else ret (ucast (buf f1 (buf_index f1)), f1\<lparr>buf_index := buf_index f1 + 1\<rparr>)))"

definition qemu_ftell :: "'o QEMUFile \<Rightarrow> int" where
  "qemu_ftell f = buf_offset f - int (buf_size f) + int (buf_index f)"

datatype whence = SEEK_SET | SEEK_CUR | SEEK_END

definition qemu_fseek :: "int \<Rightarrow> whence \<Rightarrow> 'o QEMUFile \<Rightarrow> int \<times> 'o QEMUFile" where
  "qemu_fseek pos w f =
     (if w = SEEK_END then (- 1, f)
      else let p = (if w = SEEK_CUR then pos + qemu_ftell f else pos)
           in (p, case put_buffer f of
                    Some _ \<Rightarrow> (qemu_fflush f)\<lparr>buf_offset := p\<rparr>
                  | None \<Rightarrow> f\<lparr>buf_offset := p, buf_index := 0, buf_size := 0\<rparr>))"

definition qemu_file_rate_limit :: "'o QEMUFile \<Rightarrow> int" where
  "qemu_file_rate_limit f = (case rate_limit f of Some r \<Rightarrow> r (opaque f) | None \<Rightarrow> 0)"

definition qemu_file_get_rate_limit :: "'o QEMUFile \<Rightarrow> int" where
  "qemu_file_get_rate_limit f = (case get_rate_limit f of Some r \<Rightarrow> r (opaque f) | None \<Rightarrow> 0)"

text \<open>A migration that failed or is over has no file any more (\<open>None\<close>).\<close>

definition qemu_file_set_rate_limit :: "'o QEMUFile option \<Rightarrow> int \<Rightarrow> int \<times> 'o QEMUFile option" where
  "qemu_file_set_rate_limit g rate =
     (case g of
        None \<Rightarrow> (0, None)
      | Some f \<Rightarrow>
          (case set_rate_limit f of
             None \<Rightarrow> (0, g)
           | Some r \<Rightarrow> let (v, op) = r rate (opaque f) in (v, Some (f\<lparr>opaque := op\<rparr>))))"

section \<open>Big-endian integers\<close>

definition qemu_put_be16 :: "u32 \<Rightarrow> 'o QEMUFile \<Rightarrow> 'o QEMUFile comp" where
  "qemu_put_be16 v f = comp_bind (qemu_put_byte (drop_bit 8 v) f) (qemu_put_byte v)"

definition qemu_put_be32 :: "u32 \<Rightarrow> 'o QEMUFile \<Rightarrow> 'o QEMUFile comp" where
  "qemu_put_be32 v f =
     comp_bind (qemu_put_byte (drop_bit 24 v) f) (\<lambda>f1.
     comp_bind (qemu_put_byte (drop_bit 16 v) f1) (\<lambda>f2.
     comp_bind (qemu_put_byte (drop_bit 8 v) f2) (qemu_put_byte v)))"

definition qemu_put_be64 :: "u64 \<Rightarrow> 'o QEMUFile \<Rightarrow> 'o QEMUFile comp" where
  "qemu_put_be64 v f = comp_bind (qemu_put_be32 (ucast (drop_bit 32 v)) f) (qemu_put_be32 (ucast v))"

definition qemu_get_be16 :: "'o QEMUFile \<Rightarrow> (u32 \<times> 'o QEMUFile) comp" where
  "qemu_get_be16 f =
     comp_bind (qemu_get_byte f) (\<lambda>(a, f1).
     comp_bind (qemu_get_byte f1) (\<lambda>(b, f2). ret (push_bit 8 a OR b, f2)))"

definition qemu_get_be32 :: "'o QEMUFile \<Rightarrow> (u32 \<times> 'o QEMUFile) comp" where
  "qemu_get_be32 f =
     comp_bind (qemu_get_byte f) (\<lambda>(a, f1).
     comp_bind (qemu_get_byte f1) (\<lambda>(b, f2).
     comp_bind (qemu_get_byte f2) (\<lambda>(c, f3).
     comp_bind (qemu_get_byte f3) (\<lambda>(d, f4).
       ret (push_bit 24 a OR push_bit 16 b OR push_bit 8 c OR d, f4)))))"

definition qemu_get_be64 :: "'o QEMUFile \<Rightarrow> (u64 \<times> 'o QEMUFile) comp" where
  "qemu_get_be64 f =
     comp_bind (qemu_get_be32 f) (\<lambda>(a, f1).
     comp_bind (qemu_get_be32 f1) (\<lambda>(b, f2). ret (push_bit 32 (ucast a) OR ucast b, f2)))"

section \<open>Tables of fields\<close>

text \<open>
  An entry of a table names a field by its offset in the structure; here by how its value is read from and stored into the
  structure. A buffer is followed by two entries that hold the halves of its size; the address of a buffer gives its first
  \<open>n\<close> bytes.
\<close>

datatype 's QField =
    Q_FIELD_END
  | Q_FIELD_BYTE "'s \<Rightarrow> u8" "u8 \<Rightarrow> 's \<Rightarrow> 's"
  | Q_FIELD_INT16 "'s \<Rightarrow> u16" "u16 \<Rightarrow> 's \<Rightarrow> 's"
  | Q_FIELD_INT32 "'s \<Rightarrow> u32" "u32 \<Rightarrow> 's \<Rightarrow> 's"
  | Q_FIELD_INT64 "'s \<Rightarrow> u64" "u64 \<Rightarrow> 's \<Rightarrow> 's"
  | Q_FIELD_BUFFER "nat \<Rightarrow> 's \<Rightarrow> u8 list" "u8 list \<Rightarrow> 's \<Rightarrow> 's"
  | Q_FIELD_BUFFER_SIZE u16

definition buffer_size :: "u16 \<Rightarrow> u16 \<Rightarrow> u32" where
  "buffer_size hi lo = push_bit 16 (ucast hi) OR ucast lo"

text \<open>The size is passed as an \<open>int\<close>; the loops do nothing for a negative one.\<close>

definition int_size :: "u32 \<Rightarrow> nat" where
  "int_size w = nat (sint w)"

fun qemu_put_struct :: "'s QField list \<Rightarrow> 's \<Rightarrow> 'o QEMUFile \<Rightarrow> 'o QEMUFile comp" where
  "qemu_put_struct [] s f = raise OutOfBounds"
| "qemu_put_struct (Q_FIELD_END # qs) s f = ret f"
| "qemu_put_struct (Q_FIELD_BYTE g _ # qs) s f = comp_bind (qemu_put_byte (ucast (g s)) f) (qemu_put_struct qs s)"
| "qemu_put_struct (Q_FIELD_INT16 g _ # qs) s f = comp_bind (qemu_put_be16 (ucast (g s)) f) (qemu_put_struct qs s)"
| "qemu_put_struct (Q_FIELD_INT32 g _ # qs) s f = comp_bind (qemu_put_be32 (g s) f) (qemu_put_struct qs s)"
| "qemu_put_struct (Q_FIELD_INT64 g _ # qs) s f = comp_bind (qemu_put_be64 (g s) f) (qemu_put_struct qs s)"
| "qemu_put_struct (Q_FIELD_BUFFER g _ # Q_FIELD_BUFFER_SIZE hi # Q_FIELD_BUFFER_SIZE lo # qs) s f =
     comp_bind (qemu_put_buffer (g (int_size (buffer_size hi lo)) s) f) (qemu_put_struct qs s)"
| "qemu_put_struct [Q_FIELD_BUFFER _ _] s f = raise OutOfBounds"
| "qemu_put_struct [Q_FIELD_BUFFER _ _, Q_FIELD_BUFFER_SIZE _] s f = raise OutOfBounds"
| "qemu_put_struct (Q_FIELD_BUFFER _ _ # _ # _) s f = raise Exit"
| "qemu_put_struct (Q_FIELD_BUFFER_SIZE _ # qs) s f = raise Exit"

fun qemu_get_struct :: "'s QField list \<Rightarrow> 's \<Rightarrow> 'o QEMUFile \<Rightarrow> (int \<times> 's \<times> 'o QEMUFile) comp" where
  "qemu_get_struct [] s f = raise OutOfBounds"
| "qemu_get_struct (Q_FIELD_END # qs) s f = ret (0, s, f)"
| "qemu_get_struct (Q_FIELD_BYTE _ p # qs) s f =
     comp_bind (qemu_get_byte f) (\<lambda>(v, f1). qemu_get_struct qs (p (ucast v) s) f1)"
| "qemu_get_struct (Q_FIELD_INT16 _ p # qs) s f =
     comp_bind (qemu_get_be16 f) (\<lambda>(v, f1). qemu_get_struct qs (p (ucast v) s) f1)"
| "qemu_get_struct (Q_FIELD_INT32 _ p # qs) s f =
     comp_bind (qemu_get_be32 f) (\<lambda>(v, f1). qemu_get_struct qs (p v s) f1)"
| "qemu_get_struct (Q_FIELD_INT64 _ p # qs) s f =
     comp_bind (qemu_get_be64 f) (\<lambda>(v, f1). qemu_get_struct qs (p v s) f1)"
| "qemu_get_struct (Q_FIELD_BUFFER _ p # Q_FIELD_BUFFER_SIZE hi # Q_FIELD_BUFFER_SIZE lo # qs) s f =
     comp_bind (qemu_get_buffer (int_size (buffer_size hi lo)) f) (\<lambda>(bs, f1).
       if of_nat (length bs) \<noteq> buffer_size hi lo then ret (- 1, p bs s, f1)
       else qemu_get_struct qs (p bs s) f1)"
| "qemu_get_struct [Q_FIELD_BUFFER _ _] s f = raise OutOfBounds"
| "qemu_get_struct [Q_FIELD_BUFFER _ _, Q_FIELD_BUFFER_SIZE _] s f = raise OutOfBounds"
| "qemu_get_struct (Q_FIELD_BUFFER _ _ # _ # _) s f = ret (- 1, s, f)"
| "qemu_get_struct (Q_FIELD_BUFFER_SIZE _ # qs) s f = raise Exit"

section \<open>Files of the host\<close>

text \<open>
  An open file (\<open>FILE *\<close>) of a disk that holds at most \<open>disk_size\<close> bytes of it: what does not fit is not written, and
  \<open>fwrite\<close> returns how many bytes it wrote. Seeking beyond the end is allowed; a later write fills the gap with zeros.
\<close>

record FILE =
  file_bytes :: "u8 list"
  file_pos :: nat
  disk_size :: nat

definition c_fseek_set :: "int \<Rightarrow> FILE \<Rightarrow> FILE" where
  "c_fseek_set pos fp = (if pos < 0 then fp else fp\<lparr>file_pos := nat pos\<rparr>)"

definition c_fwrite :: "u8 list \<Rightarrow> FILE \<Rightarrow> nat \<times> FILE" where
  "c_fwrite bs fp =
     (let n = min (length bs) (disk_size fp - file_pos fp);
          old = file_bytes fp @ replicate (file_pos fp - length (file_bytes fp)) 0
      in (n, fp\<lparr>file_bytes := (if n = 0 then file_bytes fp else take (file_pos fp) old @ take n bs @ drop (file_pos fp + n) old),
                file_pos := file_pos fp + n\<rparr>))"

definition c_fread :: "nat \<Rightarrow> FILE \<Rightarrow> u8 list \<times> FILE" where
  "c_fread n fp =
     (let bs = take n (drop (file_pos fp) (file_bytes fp)) in (bs, fp\<lparr>file_pos := file_pos fp + length bs\<rparr>))"

definition stdio_put_buffer :: "u8 list \<Rightarrow> int \<Rightarrow> FILE \<Rightarrow> int \<times> FILE" where
  "stdio_put_buffer bs pos fp = (let (n, fp1) = c_fwrite bs fp in (int n, fp1))"

text \<open>Reading a regular file is not interrupted, so the loop of \<open>stdio_get_buffer\<close> reads once.\<close>

definition stdio_get_buffer :: "int \<Rightarrow> nat \<Rightarrow> FILE \<Rightarrow> int \<times> u8 list \<times> FILE" where
  "stdio_get_buffer pos n fp = (let (bs, fp1) = c_fread n fp in (int (length bs), bs, fp1))"

definition stdio_fclose :: "FILE \<Rightarrow> int \<times> FILE" where
  "stdio_fclose fp = (0, fp)"

definition file_put_buffer :: "u8 list \<Rightarrow> int \<Rightarrow> FILE \<Rightarrow> int \<times> FILE" where
  "file_put_buffer bs pos fp = (let (n, fp1) = c_fwrite bs (c_fseek_set pos fp) in (int n, fp1))"

definition file_get_buffer :: "int \<Rightarrow> nat \<Rightarrow> FILE \<Rightarrow> int \<times> u8 list \<times> FILE" where
  "file_get_buffer pos n fp = (let (bs, fp1) = c_fread n (c_fseek_set pos fp) in (int (length bs), bs, fp1))"

definition valid_mode_string :: "string \<Rightarrow> bool" where
  "valid_mode_string mode \<longleftrightarrow> mode = ''rb'' \<or> mode = ''wb''"

text \<open>\<open>fopen\<close>: the directory holds the bytes of the files; opening for writing creates the file or empties it.\<close>

definition c_fopen :: "(string \<rightharpoonup> u8 list) \<Rightarrow> nat \<Rightarrow> string \<Rightarrow> string \<Rightarrow> FILE option" where
  "c_fopen dir space name mode =
     (if hd mode = CHR ''r''
      then map_option (\<lambda>bs. \<lparr>file_bytes = bs, file_pos = 0, disk_size = space\<rparr>) (dir name)
      else Some \<lparr>file_bytes = [], file_pos = 0, disk_size = space\<rparr>)"

definition qemu_fdopen :: "FILE option \<Rightarrow> string \<Rightarrow> FILE QEMUFile option" where
  "qemu_fdopen stream mode =
     (if \<not> valid_mode_string mode then None
      else map_option (\<lambda>fp.
             if hd mode = CHR ''r''
             then qemu_fopen_ops fp None (Some stdio_get_buffer) (Some stdio_fclose) None None None
             else qemu_fopen_ops fp (Some stdio_put_buffer) None (Some stdio_fclose) None None None) stream)"

definition qemu_fopen :: "(string \<rightharpoonup> u8 list) \<Rightarrow> nat \<Rightarrow> string \<Rightarrow> string \<Rightarrow> FILE QEMUFile option" where
  "qemu_fopen dir space name mode =
     (if \<not> valid_mode_string mode then None
      else map_option (\<lambda>fp.
             if hd mode = CHR ''w''
             then qemu_fopen_ops fp (Some file_put_buffer) None (Some stdio_fclose) None None None
             else qemu_fopen_ops fp None (Some file_get_buffer) (Some stdio_fclose) None None None)
           (c_fopen dir space name mode))"

text \<open>Loops that put the values of a list, and that store what they get into a state.\<close>

fun put_each :: "('v \<Rightarrow> 'f \<Rightarrow> 'f comp) \<Rightarrow> 'v list \<Rightarrow> 'f \<Rightarrow> 'f comp" where
  "put_each put [] f = ret f"
| "put_each put (v # vs) f = comp_bind (put v f) (put_each put vs)"

fun get_each :: "('f \<Rightarrow> ('v \<times> 'f) comp) \<Rightarrow> ('v \<Rightarrow> 's \<Rightarrow> 's) list \<Rightarrow> 's \<Rightarrow> 'f \<Rightarrow> ('s \<times> 'f) comp" where
  "get_each get [] s f = ret (s, f)"
| "get_each get (p # ps) s f = comp_bind (get f) (\<lambda>(v, f1). get_each get ps (p v s) f1)"

lemma comp_bind_ret_right: "comp_bind c ret = c" "comp_bind c (\<lambda>x. ret x) = c"
  by (cases c rule: comp_cases; simp)+

section \<open>The contract of the file\<close>

text \<open>
  \<open>sink f bs r\<close>: the bytes \<open>bs\<close> were put into the file and \<open>r\<close> more fit. \<open>source f bs\<close>: the bytes \<open>bs\<close> are left to get.
  The values that keep their meaning in the file satisfy \<open>ok\<close>.
\<close>

fun store_each :: "('v \<Rightarrow> 's \<Rightarrow> 's) list \<Rightarrow> 'v list \<Rightarrow> 's \<Rightarrow> 's" where
  "store_each (p # ps) (v # vs) s = store_each ps vs (p v s)"
| "store_each _ _ s = s"

text \<open>An operation that puts the bytes \<open>cs\<close>, and one that gets the value \<open>v\<close> from the bytes \<open>cs\<close>; both compose.\<close>

definition puts :: "('f \<Rightarrow> u8 list \<Rightarrow> nat \<Rightarrow> bool) \<Rightarrow> ('f \<Rightarrow> 'f comp) \<Rightarrow> u8 list \<Rightarrow> bool" where
  "puts sink act cs \<longleftrightarrow> (\<forall>f bs r. sink f bs (length cs + r) \<longrightarrow> (\<exists>f'. act f = ret f' \<and> sink f' (bs @ cs) r))"

definition gets :: "('f \<Rightarrow> u8 list \<Rightarrow> bool) \<Rightarrow> ('f \<Rightarrow> ('v \<times> 'f) comp) \<Rightarrow> u8 list \<Rightarrow> 'v \<Rightarrow> bool" where
  "gets source act cs v \<longleftrightarrow> (\<forall>f bs. source f (cs @ bs) \<longrightarrow> (\<exists>f'. act f = ret (v, f') \<and> source f' bs))"

lemma puts_ret: "puts sink ret []" "puts sink (\<lambda>f. ret f) []"
  by (simp_all add: puts_def)

lemma puts_bind: "puts sink a cs \<Longrightarrow> puts sink b ds \<Longrightarrow> puts sink (\<lambda>f. comp_bind (a f) b) (cs @ ds)"
  unfolding puts_def by (fastforce simp: add.assoc)

lemma puts_if: "(c \<Longrightarrow> puts sink a cs) \<Longrightarrow> puts sink (\<lambda>f. if c then a f else ret f) (if c then cs else [])"
  by (simp add: puts_ret)

lemma gets_ret: "gets source (\<lambda>f. ret (v, f)) [] v"
  by (simp add: gets_def)

lemma gets_bind:
  "gets source a cs v \<Longrightarrow> gets source (b v) ds w \<Longrightarrow> gets source (\<lambda>f. comp_bind (a f) (\<lambda>(x, f1). b x f1)) (cs @ ds) w"
  unfolding gets_def by fastforce

lemma gets_map: "gets source a cs v \<Longrightarrow> gets source (\<lambda>f. comp_bind (a f) (\<lambda>(x, f1). ret (h x, f1))) cs (h v)"
  unfolding gets_def by fastforce

lemma gets_if:
  "(c \<Longrightarrow> gets source a cs v) \<Longrightarrow> gets source (\<lambda>f. if c then a f else ret (w, f)) (if c then cs else []) (if c then v else w)"
  by (simp add: gets_ret)

lemma putsD: "puts sink act cs \<Longrightarrow> sink f bs (length cs + r) \<Longrightarrow> \<exists>f'. act f = ret f' \<and> sink f' (bs @ cs) r"
  by (simp add: puts_def)

lemma getsD: "gets source act cs v \<Longrightarrow> source f (cs @ bs) \<Longrightarrow> \<exists>f'. act f = ret (v, f') \<and> source f' bs"
  by (simp add: gets_def)

locale field_codec =
  fixes put :: "'v \<Rightarrow> 'f \<Rightarrow> 'f comp" and get :: "'f \<Rightarrow> ('v \<times> 'f) comp" and code :: "'v \<Rightarrow> u8 list" and ok :: "'v \<Rightarrow> bool"
    and sink :: "'f \<Rightarrow> u8 list \<Rightarrow> nat \<Rightarrow> bool" and source :: "'f \<Rightarrow> u8 list \<Rightarrow> bool"
  assumes put_code: "sink f bs (length (code v) + r) \<Longrightarrow> \<exists>f'. put v f = ret f' \<and> sink f' (bs @ code v) r"
    and get_code: "ok v \<Longrightarrow> source f (code v @ bs) \<Longrightarrow> \<exists>f'. get f = ret (v, f') \<and> source f' bs"
begin

lemma put_each_code:
  "sink f bs (length (concat (map code vs)) + r) \<Longrightarrow> \<exists>f'. put_each put vs f = ret f' \<and> sink f' (bs @ concat (map code vs)) r"
proof (induction vs arbitrary: f bs)
  case (Cons v vs)
  then obtain f1 where 1: "put v f = ret f1" "sink f1 (bs @ code v) (length (concat (map code vs)) + r)"
    using put_code [of f bs v "length (concat (map code vs)) + r"] by (auto simp: add.assoc)
  show ?case using Cons.IH [OF 1(2)] 1(1) by simp
qed simp

lemma get_each_code:
  "source f (concat (map code vs) @ bs) \<Longrightarrow> list_all ok vs \<Longrightarrow> length ps = length vs \<Longrightarrow>
   \<exists>f'. get_each get ps s f = ret (store_each ps vs s, f') \<and> source f' bs"
proof (induction vs arbitrary: f ps s)
  case (Cons v vs)
  then obtain p qs where ps: "ps = p # qs" by (cases ps) auto
  from Cons.prems obtain f1 where 1: "get f = ret (v, f1)" "source f1 (concat (map code vs) @ bs)"
    using get_code [of v f "concat (map code vs) @ bs"] by auto
  show ?case using Cons.IH [OF 1(2), of qs "p v s"] Cons.prems 1(1) ps by simp
qed simp

lemma puts_one: "puts sink (put v) (code v)"
  by (simp add: puts_def put_code)

lemma gets_one: "ok v \<Longrightarrow> gets source get (code v) v"
  by (simp add: gets_def get_code)

lemma puts_each: "puts sink (put_each put vs) (concat (map code vs))"
  by (simp add: puts_def put_each_code)

lemma gets_each:
  "list_all ok vs \<Longrightarrow> length ps = length vs \<Longrightarrow> gets source (get_each get ps s) (concat (map code vs)) (store_each ps vs s)"
  by (simp add: gets_def get_each_code)

end

text \<open>
  What the file needs of a back end: bytes put at the end of the stream are appended to it, and bytes are got from where
  the last ones ended, as many as there are and are asked for. \<open>holds op bs r\<close>: the stream written so far is \<open>bs\<close> and \<open>r\<close>
  more bytes fit; \<open>left op p bs\<close>: \<open>p\<close> bytes were read and \<open>bs\<close> are left.
\<close>

definition writing :: "(u8 list \<Rightarrow> int \<Rightarrow> 'o \<Rightarrow> int \<times> 'o) \<Rightarrow> ('o \<Rightarrow> int \<times> 'o) \<Rightarrow> ('o \<Rightarrow> u8 list \<Rightarrow> nat \<Rightarrow> bool) \<Rightarrow> 'o QEMUFile \<Rightarrow> u8 list \<Rightarrow> nat \<Rightarrow> bool" where
  "writing put cl holds f bs r \<longleftrightarrow>
     put_buffer f = Some put \<and> close f = Some cl \<and> rate_limit f = None \<and> \<not> has_error f \<and> (is_write f \<or> buf_index f = 0) \<and> buf_index f < IO_BUF_SIZE \<and>
     (\<exists>ds. buf_offset f = int (length ds) \<and> bs = ds @ copy_out 0 (buf_index f) (buf f) \<and> holds (opaque f) ds (buf_index f + r))"

definition reading :: "(int \<Rightarrow> nat \<Rightarrow> 'o \<Rightarrow> int \<times> u8 list \<times> 'o) \<Rightarrow> ('o \<Rightarrow> nat \<Rightarrow> u8 list \<Rightarrow> bool) \<Rightarrow> bool \<Rightarrow> 'o QEMUFile \<Rightarrow> u8 list \<Rightarrow> bool" where
  "reading get left e f bs \<longleftrightarrow>
     get_buffer f = Some get \<and> has_error f = e \<and> \<not> is_write f \<and> buf_index f \<le> buf_size f \<and>
     (\<exists>p ds. buf_offset f = int p \<and> left (opaque f) p ds \<and>
        bs = copy_out (buf_index f) (buf_size f - buf_index f) (buf f) @ ds)"

definition be16 :: "u32 \<Rightarrow> u8 list" where
  "be16 v = [ucast (drop_bit 8 v), ucast v]"

definition be32 :: "u32 \<Rightarrow> u8 list" where
  "be32 v = [ucast (drop_bit 24 v), ucast (drop_bit 16 v), ucast (drop_bit 8 v), ucast v]"

definition be64 :: "u64 \<Rightarrow> u8 list" where
  "be64 v = be32 (ucast (drop_bit 32 v)) @ be32 (ucast v)"

lemma copy_out_Suc: "copy_out i (Suc n) (b(i + n := x)) = copy_out i n b @ [x]"
  by (simp add: copy_out_def)

lemma length_copy_out [simp]: "length (copy_out i n b) = n"
  by (simp add: copy_out_def)

lemma copy_out_0 [simp]: "copy_out i 0 b = []"
  by (simp add: copy_out_def)

lemma copy_out_copy_in: "copy_out 0 (i + length bs) (copy_in i bs b) = copy_out 0 i b @ bs"
  by (rule nth_equalityI) (auto simp: copy_out_def copy_in_def nth_append)

lemma copy_out_split: "l \<le> n \<Longrightarrow> copy_out i n b = copy_out i l b @ copy_out (i + l) (n - l) b"
  by (rule nth_equalityI) (auto simp: copy_out_def nth_append)

lemma copy_out_filled: "copy_out 0 (length bs) (copy_in 0 bs b) = bs"
  using copy_out_copy_in [of 0 bs b] by simp

locale back_end =
  fixes put :: "u8 list \<Rightarrow> int \<Rightarrow> 'o \<Rightarrow> int \<times> 'o" and get :: "int \<Rightarrow> nat \<Rightarrow> 'o \<Rightarrow> int \<times> u8 list \<times> 'o"
    and cl :: "'o \<Rightarrow> int \<times> 'o" and holds :: "'o \<Rightarrow> u8 list \<Rightarrow> nat \<Rightarrow> bool" and left :: "'o \<Rightarrow> nat \<Rightarrow> u8 list \<Rightarrow> bool"
  assumes put_appends: "holds op bs (length ds + r) \<Longrightarrow>
      \<exists>op'. put ds (int (length bs)) op = (int (length ds), op') \<and> holds op' (bs @ ds) r"
    and get_delivers: "left op p bs \<Longrightarrow>
      \<exists>op'. get (int p) n op = (int (length (take n bs)), take n bs, op') \<and> left op' (p + length (take n bs)) (drop n bs)"
begin

lemma flush_full:
  assumes "put_buffer f = Some put" "close f = Some cl \<and> rate_limit f = None" "\<not> has_error f" "is_write f" "0 < buf_index f" "buf_offset f = int (length ds)"
    and "holds (opaque f) ds (buf_index f + r)"
  shows "writing put cl holds (qemu_fflush f) (ds @ copy_out 0 (buf_index f) (buf f)) r" "buf_index (qemu_fflush f) = 0"
    "close (qemu_fflush f) = close f" "holds (opaque (qemu_fflush f)) (ds @ copy_out 0 (buf_index f) (buf f)) r"
proof -
  obtain op where op: "put (copy_out 0 (buf_index f) (buf f)) (int (length ds)) (opaque f) = (int (buf_index f), op)"
      "holds op (ds @ copy_out 0 (buf_index f) (buf f)) r"
    using put_appends [of "opaque f" ds "copy_out 0 (buf_index f) (buf f)" r] assms(7) by auto
  have eq: "qemu_fflush f = f\<lparr>buf_offset := int (length ds) + int (buf_index f), opaque := op, buf_index := 0\<rparr>"
    using assms op(1) by (simp add: qemu_fflush_def)
  show "writing put cl holds (qemu_fflush f) (ds @ copy_out 0 (buf_index f) (buf f)) r" "buf_index (qemu_fflush f) = 0"
    "close (qemu_fflush f) = close f" "holds (opaque (qemu_fflush f)) (ds @ copy_out 0 (buf_index f) (buf f)) r"
    using assms op(2) unfolding eq writing_def IO_BUF_SIZE_def by auto
qed

lemma put_byte_code:
  assumes "writing put cl holds f bs (length [ucast v :: u8] + r)"
  shows "\<exists>f'. qemu_put_byte v f = ret f' \<and> writing put cl holds f' (bs @ [ucast v]) r"
proof -
  from assms obtain ds where w: "put_buffer f = Some put" "close f = Some cl \<and> rate_limit f = None" "\<not> has_error f" "is_write f \<or> buf_index f = 0"
      "buf_index f < IO_BUF_SIZE" "buf_offset f = int (length ds)" "bs = ds @ copy_out 0 (buf_index f) (buf f)"
      "holds (opaque f) ds (Suc (buf_index f) + r)"
    by (auto simp: writing_def)
  let ?f = "f\<lparr>buf := (buf f)(buf_index f := ucast v), buf_index := Suc (buf_index f), is_write := True\<rparr>"
  have bytes: "ds @ copy_out 0 (buf_index ?f) (buf ?f) = bs @ [ucast v]"
    using w(7) copy_out_Suc [of 0 "buf_index f" "buf f" "ucast v"] by simp
  have nr: "not_reading f" using w(4) by (auto simp: not_reading_def)
  show ?thesis
  proof (cases "IO_BUF_SIZE \<le> Suc (buf_index f)")
    case True
    then have "qemu_put_byte v f = ret (qemu_fflush ?f)" using w(5) nr by (simp add: qemu_put_byte_def)
    with flush_full(1) [of ?f ds r] w bytes show ?thesis by simp
  next
    case False
    then have "qemu_put_byte v f = ret ?f" using w(5) nr by (simp add: qemu_put_byte_def)
    moreover have "writing put cl holds ?f (bs @ [ucast v]) r"
      using False w bytes unfolding writing_def by auto
    ultimately show ?thesis by simp
  qed
qed

lemma put_loop_code:
  "writing put cl holds f bs (length data + r) \<Longrightarrow> \<exists>f'. put_loop data f = ret f' \<and> writing put cl holds f' (bs @ data) r"
proof (induction "length data" arbitrary: data f bs rule: less_induct)
  case less
  from less.prems obtain ds where w: "put_buffer f = Some put" "close f = Some cl \<and> rate_limit f = None" "\<not> has_error f" "is_write f \<or> buf_index f = 0"
      "buf_index f < IO_BUF_SIZE" "buf_offset f = int (length ds)" "bs = ds @ copy_out 0 (buf_index f) (buf f)"
      "holds (opaque f) ds (buf_index f + (length data + r))"
    by (auto simp: writing_def)
  define l where "l = min (IO_BUF_SIZE - buf_index f) (length data)"
  define g where "g = f\<lparr>buf := copy_in (buf_index f) (take l data) (buf f), is_write := True, buf_index := buf_index f + l\<rparr>"
  define h where "h = (if IO_BUF_SIZE \<le> buf_index g then qemu_fflush g else g)"
  have "length (take l data) = l" by (simp add: l_def)
  then have bytes: "ds @ copy_out 0 (buf_index g) (buf g) = bs @ take l data"
    using w(7) copy_out_copy_in [of "buf_index f" "take l data" "buf f"] by (simp add: g_def)
  have room: "holds (opaque g) ds (buf_index g + (length (drop l data) + r))"
    using w(8) by (simp add: g_def l_def min_def add.assoc split: if_splits)
  show ?case
  proof (cases "data = []")
    case True
    with less.prems w(3) show ?thesis by (simp add: put_loop.simps)
  next
    case False
    have l: "0 < l" using False w(5) by (simp add: l_def)
    have "writing put cl holds h (bs @ take l data) (length (drop l data) + r)"
    proof (cases "IO_BUF_SIZE \<le> buf_index g")
      case True
      then show ?thesis
        using flush_full(1) [of g ds "length (drop l data) + r"] w room l unfolding bytes h_def by (simp add: g_def)
    next
      case False
      then show ?thesis unfolding h_def writing_def using w bytes [symmetric] room by (auto simp: g_def)
    qed
    moreover have "length (drop l data) < length data" unfolding length_drop using l False by simp
    ultimately have "\<exists>f'. put_loop (drop l data) h = ret f' \<and> writing put cl holds f' ((bs @ take l data) @ drop l data) r"
      by (rule less.hyps [rotated])
    then obtain f' where "put_loop (drop l data) h = ret f'" "writing put cl holds f' (bs @ data) r" by auto
    moreover have "put_loop data f = put_loop (drop l data) h"
      using False w(3) unfolding put_loop.simps [of data f] Let_def h_def g_def l_def by (simp only: simp_thms if_False)
    ultimately show ?thesis by simp
  qed
qed

lemma put_buffer_code:
  assumes "writing put cl holds f bs (length data + r)"
  shows "\<exists>f'. qemu_put_buffer data f = ret f' \<and> writing put cl holds f' (bs @ data) r"
proof -
  have "not_reading f" using assms by (auto simp: writing_def not_reading_def)
  with put_loop_code [OF assms] show ?thesis by (simp add: qemu_put_buffer_def)
qed

text \<open>Closing the file moves what is left in the buffer to the back end.\<close>

lemma fclose_stores:
  assumes "writing put cl holds f bs r"
  shows "\<exists>op. holds op bs r \<and> qemu_fclose f = cl op"
proof -
  from assms obtain ds where w: "put_buffer f = Some put" "close f = Some cl \<and> rate_limit f = None" "\<not> has_error f" "is_write f \<or> buf_index f = 0"
      "buf_offset f = int (length ds)" "bs = ds @ copy_out 0 (buf_index f) (buf f)" "holds (opaque f) ds (buf_index f + r)"
    by (auto simp: writing_def)
  show ?thesis
  proof (cases "buf_index f = 0")
    case True
    then have "qemu_fflush f = f" using w(1) by (simp add: qemu_fflush_def)
    with True w show ?thesis by (auto simp: qemu_fclose_def)
  next
    case False
    with w have "is_write f" "0 < buf_index f" by simp_all
    from flush_full(3,4) [OF w(1,2,3) this w(5,7)] w(2,6) show ?thesis by (auto simp: qemu_fclose_def)
  qed
qed

lemma fill_empty:
  assumes "reading get left e f bs" and "buf_size f = buf_index f" and "bs \<noteq> []"
  shows "\<exists>f'. qemu_fill_buffer f = ret f' \<and> reading get left e f' bs \<and> buf_index f' < buf_size f'"
proof -
  from assms obtain p where w: "get_buffer f = Some get" "has_error f = e" "\<not> is_write f" "buf_offset f = int p"
      "left (opaque f) p bs"
    by (auto simp: reading_def)
  define n where "n = length (take IO_BUF_SIZE bs)"
  obtain op where op: "get (int p) IO_BUF_SIZE (opaque f) = (int n, take IO_BUF_SIZE bs, op)"
      "left op (p + n) (drop IO_BUF_SIZE bs)"
    using get_delivers [OF w(5), of IO_BUF_SIZE] unfolding n_def by blast
  have n: "0 < n" using assms(3) by (simp add: n_def IO_BUF_SIZE_def)
  let ?f = "f\<lparr>buf := copy_in 0 (take IO_BUF_SIZE bs) (buf f), opaque := op, buf_index := 0, buf_size := n,
    buf_offset := int p + int n\<rparr>"
  have "qemu_fill_buffer f = ret ?f"
    using w op(1) n by (simp add: qemu_fill_buffer_def)
  moreover have "reading get left e ?f bs"
    using w(1-3) op(2) copy_out_filled [of "take IO_BUF_SIZE bs" "buf f"]
    by (auto simp: reading_def n_def intro!: exI [of _ "p + length (take IO_BUF_SIZE bs)"])
  ultimately show ?thesis using n by auto
qed

text \<open>At the end of the stream the file records an error, and keeps what it has.\<close>

lemma fill_at_end:
  assumes "reading get left e f []"
  shows "\<exists>f'. qemu_fill_buffer f = ret f' \<and> reading get left True f' [] \<and> buf_index f' = buf_size f'"
proof -
  from assms obtain p where w: "get_buffer f = Some get" "\<not> is_write f" "buf_offset f = int p" "left (opaque f) p []"
      "buf_index f = buf_size f"
    by (auto simp: reading_def copy_out_def)
  from get_delivers [OF w(4), of IO_BUF_SIZE] obtain op where "get (int p) IO_BUF_SIZE (opaque f) = (0, [], op)" "left op p []"
    by auto
  then show ?thesis using w by (auto simp: qemu_fill_buffer_def EAGAIN_def reading_def)
qed

text \<open>A buffer with bytes in it: the next of them are the next of the stream.\<close>

lemma take_buffered:
  assumes "reading get left e f bs" and "l \<le> buf_size f - buf_index f"
  shows "copy_out (buf_index f) l (buf f) = take l bs" "reading get left e (f\<lparr>buf_index := buf_index f + l\<rparr>) (drop l bs)"
proof -
  from assms(1) obtain p ds where w: "get_buffer f = Some get" "has_error f = e" "\<not> is_write f" "buf_index f \<le> buf_size f"
      "buf_offset f = int p" "left (opaque f) p ds" "bs = copy_out (buf_index f) (buf_size f - buf_index f) (buf f) @ ds"
    by (auto simp: reading_def)
  have s: "bs = copy_out (buf_index f) l (buf f) @ copy_out (buf_index f + l) (buf_size f - (buf_index f + l)) (buf f) @ ds"
    using w(7) copy_out_split [OF assms(2), of "buf_index f" "buf f"] by simp
  show "copy_out (buf_index f) l (buf f) = take l bs" unfolding s by simp
  show "reading get left e (f\<lparr>buf_index := buf_index f + l\<rparr>) (drop l bs)"
    unfolding reading_def using w assms(2) by (auto simp: s)
qed

text \<open>A buffer that is empty is filled, if there is something left to read.\<close>

lemma refill:
  assumes "reading get left e f bs" and "bs \<noteq> []"
  shows "\<exists>f'. (if buf_size f = buf_index f then qemu_fill_buffer f else ret f) = ret f' \<and>
    reading get left e f' bs \<and> buf_index f' < buf_size f'"
proof -
  have "buf_index f \<le> buf_size f" using assms(1) by (simp add: reading_def)
  with fill_empty [OF assms(1) _ assms(2)] assms(1) show ?thesis by (cases "buf_size f = buf_index f") auto
qed

lemma get_byte_code:
  assumes "reading get left e f (b # bs)"
  shows "\<exists>f'. qemu_get_byte f = ret (ucast b, f') \<and> reading get left e f' bs"
proof -
  from refill [OF assms] obtain f1 where 1: "(if buf_size f = buf_index f then qemu_fill_buffer f else ret f) = ret f1"
      "reading get left e f1 (b # bs)" "buf_index f1 < buf_size f1" by auto
  have le: "buf_size f \<le> buf_index f \<longleftrightarrow> buf_size f = buf_index f" "\<not> is_write f" using assms by (auto simp: reading_def)
  from take_buffered [OF 1(2), of 1] 1(3) have "buf f1 (buf_index f1) = b" "reading get left e (f1\<lparr>buf_index := buf_index f1 + 1\<rparr>) bs"
    by (simp_all add: copy_out_def)
  with 1 le show ?thesis by (simp add: qemu_get_byte_def)
qed

lemma get_loop_any:
  "reading get left e f bs \<Longrightarrow>
   \<exists>f'. get_loop n f = ret (take n bs, f') \<and> reading get left (e \<or> length bs < n) f' (drop n bs)"
proof (induction n arbitrary: f bs rule: less_induct)
  case (less n)
  consider (none) "n = 0" | (empty) "0 < n" "bs = []" | (more) "0 < n" "bs \<noteq> []" by auto
  then show ?case
  proof cases
    case none
    with less.prems show ?thesis by (simp add: get_loop.simps)
  next
    case empty
    moreover from empty less.prems have "buf_size f = buf_index f" by (auto simp: reading_def copy_out_def)
    moreover obtain g where "qemu_fill_buffer f = ret g" "reading get left True g []" "buf_index g = buf_size g"
      using fill_at_end less.prems empty by blast
    ultimately show ?thesis by (subst get_loop.simps) simp
  next
    case more
    then obtain g where g: "(if buf_size f = buf_index f then qemu_fill_buffer f else ret f) = ret g"
        "reading get left e g bs" "buf_index g < buf_size g" using refill [OF less.prems] by auto
    define l where "l = min (buf_size g - buf_index g) n"
    have l: "0 < l" "l \<le> n" "l \<le> buf_size g - buf_index g" using g(3) more by (simp_all add: l_def)
    note t = take_buffered [OF g(2) l(3)]
    have len: "l \<le> length bs" using arg_cong [OF t(1), of length] by (simp add: min_def split: if_splits)
    from less.IH [OF _ t(2), of "n - l"] l obtain f' where
      f': "get_loop (n - l) (g\<lparr>buf_index := buf_index g + l\<rparr>) = ret (take (n - l) (drop l bs), f')"
        "reading get left (e \<or> length (drop l bs) < n - l) f' (drop (n - l) (drop l bs))"
      by auto
    have "take l bs @ take (n - l) (drop l bs) = take n bs" using l(2) by (simp flip: take_add)
    then have "get_loop n f = ret (take n bs, f')"
      using more g f'(1) t(1) l by (subst get_loop.simps) (simp add: Let_def l_def [symmetric])
    moreover have "length (drop l bs) < n - l \<longleftrightarrow> length bs < n" using l len by auto
    ultimately show ?thesis using f'(2) l(2) by simp
  qed
qed

lemma get_buffer_any:
  assumes "reading get left e f bs"
  shows "\<exists>f'. qemu_get_buffer n f = ret (take n bs, f') \<and> reading get left (e \<or> length bs < n) f' (drop n bs)"
proof -
  have "\<not> is_write f" using assms by (simp add: reading_def)
  with get_loop_any [OF assms] show ?thesis by (simp add: qemu_get_buffer_def)
qed

lemma get_buffer_code:
  "reading get left e f (data @ bs) \<Longrightarrow> \<exists>f'. qemu_get_buffer (length data) f = ret (data, f') \<and> reading get left e f' bs"
  using get_buffer_any [of e f "data @ bs" "length data"] by simp

end

section \<open>The encodings satisfy the contract\<close>

lemma put_each_fun: "put_each put [v] = put v" "put_each put (v # w # vs) = (\<lambda>f. comp_bind (put v f) (put_each put (w # vs)))"
proof -
  have "put_each put [] = ret" by (rule ext) simp
  then show "put_each put [v] = put v" by (auto simp: comp_bind_ret_right)
qed (rule ext, simp)

lemma u32_small: "unat v < 2 ^ k \<Longrightarrow> take_bit k v = (v :: u32)"
  by (simp add: word_unat_eq_iff unsigned_take_bit_eq take_bit_nat_eq_self)

lemma u8_u32_inverse: "v < 256 \<Longrightarrow> ucast (ucast v :: u8) = (v :: u32)"
  using u32_small [of v 8] by (simp add: word_less_nat_alt word_unat_eq_iff unsigned_ucast_eq unsigned_take_bit_eq)

lemma be16_inverse:
  assumes "v < 65536" shows "push_bit 8 (ucast (ucast (drop_bit 8 v) :: u8)) OR ucast (ucast v :: u8) = (v :: u32)"
proof (rule bit_word_eqI)
  fix n :: nat
  have "bit v n \<Longrightarrow> n < 16" using u32_small [of v 16] assms by (auto simp: word_less_nat_alt dest: arg_cong [of _ _ "\<lambda>w. bit w n"] simp: bit_simps)
  then show "bit (push_bit 8 (ucast (ucast (drop_bit 8 v) :: u8)) OR ucast (ucast v :: u8) :: u32) n = bit v n"
    by (cases "n < 8"; cases "n < 16") (auto simp: bit_simps)
qed

lemma be32_inverse: "push_bit 24 (ucast (ucast (drop_bit 24 v) :: u8)) OR push_bit 16 (ucast (ucast (drop_bit 16 v) :: u8)) OR
    push_bit 8 (ucast (ucast (drop_bit 8 v) :: u8)) OR ucast (ucast v :: u8) = (v :: u32)"
  using u32_of_bytes_inverse [of v] by (simp add: u32_of_bytes_def ac_simps)

lemma be64_inverse: "push_bit 32 (ucast (ucast (drop_bit 32 v) :: u32)) OR ucast (ucast v :: u32) = (v :: u64)"
proof (rule bit_word_eqI)
  fix n :: nat assume "n < LENGTH(64)"
  then show "bit (push_bit 32 (ucast (ucast (drop_bit 32 v) :: u32)) OR ucast (ucast v :: u32) :: u64) n = bit v n"
    by (cases "n < 32") (auto simp: bit_simps)
qed

lemma length_be [simp]: "length (be16 v) = 2" "length (be32 v) = 4" "length (be64 w) = 8"
  by (simp_all add: be16_def be32_def be64_def)

sublocale back_end \<subseteq> byte: field_codec qemu_put_byte qemu_get_byte "\<lambda>v. [ucast v]" "\<lambda>v. v < 256" "writing put cl holds" "reading get left False"
proof
  fix f bs r and v :: u32 assume "writing put cl holds f bs (length [ucast v :: u8] + r)"
  then show "\<exists>f'. qemu_put_byte v f = ret f' \<and> writing put cl holds f' (bs @ [ucast v]) r" by (rule put_byte_code)
next
  fix v :: u32 and f bs assume v: "v < 256" and "reading get left False f ([ucast v] @ bs)"
  with get_byte_code [where f = f and b = "ucast v" and bs = bs] show "\<exists>f'. qemu_get_byte f = ret (v, f') \<and> reading get left False f' bs"
    by (simp add: u8_u32_inverse)
qed

context back_end
begin

lemma put_be16_code: "writing put cl holds f bs (length (be16 v) + r) \<Longrightarrow> \<exists>f'. qemu_put_be16 v f = ret f' \<and> writing put cl holds f' (bs @ be16 v) r"
  using byte.put_each_code [of f bs "[drop_bit 8 v, v]" r] by (simp add: qemu_put_be16_def be16_def put_each_fun)

lemma put_be32_code: "writing put cl holds f bs (length (be32 v) + r) \<Longrightarrow> \<exists>f'. qemu_put_be32 v f = ret f' \<and> writing put cl holds f' (bs @ be32 v) r"
  using byte.put_each_code [of f bs "[drop_bit 24 v, drop_bit 16 v, drop_bit 8 v, v]" r]
  by (simp add: qemu_put_be32_def be32_def put_each_fun)

lemma get_be16_code:
  assumes "v < 65536" and "reading get left e f (be16 v @ bs)"
  shows "\<exists>f'. qemu_get_be16 f = ret (v, f') \<and> reading get left e f' bs"
proof -
  have "reading get left e f (ucast (drop_bit 8 v) # ucast v # bs)" using assms(2) by (simp add: be16_def)
  then obtain f1 where 1: "qemu_get_byte f = ret (ucast (ucast (drop_bit 8 v) :: u8), f1)" "reading get left e f1 (ucast v # bs)"
    using get_byte_code by blast
  then obtain f2 where "qemu_get_byte f1 = ret (ucast (ucast v :: u8), f2)" "reading get left e f2 bs"
    using get_byte_code by blast
  with 1 be16_inverse [OF assms(1)] show ?thesis by (simp add: qemu_get_be16_def)
qed

lemma get_be32_code:
  assumes "reading get left e f (be32 v @ bs)"
  shows "\<exists>f'. qemu_get_be32 f = ret (v, f') \<and> reading get left e f' bs"
proof -
  from assms obtain f1 where 1: "qemu_get_byte f = ret (ucast (ucast (drop_bit 24 v) :: u8), f1)"
      "reading get left e f1 (ucast (drop_bit 16 v) # ucast (drop_bit 8 v) # ucast v # bs)"
    using get_byte_code [where f = f and b = "ucast (drop_bit 24 v)"] by (auto simp: be32_def)
  then obtain f2 where 2: "qemu_get_byte f1 = ret (ucast (ucast (drop_bit 16 v) :: u8), f2)"
      "reading get left e f2 (ucast (drop_bit 8 v) # ucast v # bs)"
    using get_byte_code by blast
  then obtain f3 where 3: "qemu_get_byte f2 = ret (ucast (ucast (drop_bit 8 v) :: u8), f3)" "reading get left e f3 (ucast v # bs)"
    using get_byte_code by blast
  then obtain f4 where "qemu_get_byte f3 = ret (ucast (ucast v :: u8), f4)" "reading get left e f4 bs"
    using get_byte_code by blast
  with 1 2 3 be32_inverse [of v] show ?thesis by (simp add: qemu_get_be32_def)
qed

end

sublocale back_end \<subseteq> be16: field_codec qemu_put_be16 qemu_get_be16 be16 "\<lambda>v. v < 65536" "writing put cl holds" "reading get left False"
  by unfold_locales (fact put_be16_code get_be16_code)+

sublocale back_end \<subseteq> be32: field_codec qemu_put_be32 qemu_get_be32 be32 "\<lambda>_. True" "writing put cl holds" "reading get left False"
  by unfold_locales (fact put_be32_code, rule get_be32_code)

context back_end
begin

lemma get_be64_code:
  assumes "reading get left e f (be64 v @ bs)"
  shows "\<exists>f'. qemu_get_be64 f = ret (v, f') \<and> reading get left e f' bs"
proof -
  from assms obtain f1 where 1: "qemu_get_be32 f = ret (ucast (drop_bit 32 v), f1)" "reading get left e f1 (be32 (ucast v) @ bs)"
    using get_be32_code [where f = f and v = "ucast (drop_bit 32 v)"] by (fastforce simp: be64_def)
  then obtain f2 where "qemu_get_be32 f1 = ret (ucast v, f2)" "reading get left e f2 bs" using get_be32_code by blast
  with 1 be64_inverse [of v] show ?thesis by (simp add: qemu_get_be64_def)
qed

end

sublocale back_end \<subseteq> be64: field_codec qemu_put_be64 qemu_get_be64 be64 "\<lambda>_. True" "writing put cl holds" "reading get left False"
proof
  fix f bs v r assume "writing put cl holds f bs (length (be64 v) + r)"
  with be32.put_each_code [of f bs "[ucast (drop_bit 32 v), ucast v]" r]
  show "\<exists>f'. qemu_put_be64 v f = ret f' \<and> writing put cl holds f' (bs @ be64 v) r"
    by (simp add: qemu_put_be64_def be64_def put_each_fun)
qed (rule get_be64_code)

section \<open>Structures\<close>

text \<open>
  A table is well formed for a structure when it ends with \<open>Q_FIELD_END\<close> and every buffer is followed by its size. The bytes
  that a table stands for, and what loading them stores.
\<close>

fun table_ok :: "'s QField list \<Rightarrow> 's \<Rightarrow> bool" where
  "table_ok (Q_FIELD_BUFFER g _ # Q_FIELD_BUFFER_SIZE hi # Q_FIELD_BUFFER_SIZE lo # qs) s \<longleftrightarrow>
     unat (buffer_size hi lo) < 2147483648 \<and> length (g (unat (buffer_size hi lo)) s) = unat (buffer_size hi lo) \<and> table_ok qs s"
| "table_ok (Q_FIELD_END # _) s \<longleftrightarrow> True"
| "table_ok (Q_FIELD_BUFFER _ _ # _) s \<longleftrightarrow> False"
| "table_ok (Q_FIELD_BUFFER_SIZE _ # _) s \<longleftrightarrow> False"
| "table_ok (_ # qs) s \<longleftrightarrow> table_ok qs s"
| "table_ok [] s \<longleftrightarrow> False"

fun struct_code :: "'s QField list \<Rightarrow> 's \<Rightarrow> u8 list" where
  "struct_code (Q_FIELD_BYTE g _ # qs) s = g s # struct_code qs s"
| "struct_code (Q_FIELD_INT16 g _ # qs) s = be16 (ucast (g s)) @ struct_code qs s"
| "struct_code (Q_FIELD_INT32 g _ # qs) s = be32 (g s) @ struct_code qs s"
| "struct_code (Q_FIELD_INT64 g _ # qs) s = be64 (g s) @ struct_code qs s"
| "struct_code (Q_FIELD_BUFFER g _ # Q_FIELD_BUFFER_SIZE hi # Q_FIELD_BUFFER_SIZE lo # qs) s =
     g (unat (buffer_size hi lo)) s @ struct_code qs s"
| "struct_code _ s = []"

fun struct_store :: "'s QField list \<Rightarrow> 's \<Rightarrow> 's \<Rightarrow> 's" where
  "struct_store (Q_FIELD_BYTE g p # qs) s t = struct_store qs s (p (g s) t)"
| "struct_store (Q_FIELD_INT16 g p # qs) s t = struct_store qs s (p (g s) t)"
| "struct_store (Q_FIELD_INT32 g p # qs) s t = struct_store qs s (p (g s) t)"
| "struct_store (Q_FIELD_INT64 g p # qs) s t = struct_store qs s (p (g s) t)"
| "struct_store (Q_FIELD_BUFFER g p # Q_FIELD_BUFFER_SIZE hi # Q_FIELD_BUFFER_SIZE lo # qs) s t =
     struct_store qs s (p (g (unat (buffer_size hi lo)) s) t)"
| "struct_store _ s t = t"

lemma int_size_small:
  assumes "unat w < 2147483648" shows "int_size w = unat w"
proof -
  have n: "uint w = int (unat w)" by simp
  from assms have "int (unat w) < int 2147483648" by (rule of_nat_less_iff [THEN iffD2])
  then have "uint w < 2 ^ 31" unfolding n by simp
  moreover have "- (2 ^ 31) \<le> uint w" by (rule order_trans [OF _ unsigned_greater_eq]) simp
  ultimately have "signed_take_bit 31 (uint w) = uint w" by (rule signed_take_bit_int_eq_self [rotated])
  then have "sint w = uint w" by (simp only: sint_uint) simp
  then show ?thesis by (simp only: int_size_def n nat_int)
qed

lemma ucast_u8_small: "ucast (b :: u8) < (256 :: u32)" "ucast (ucast b :: u32) = b"
proof -
  have "unat b < 2 ^ LENGTH(8)" by (rule unsigned_less)
  then show "ucast b < (256 :: u32)" by (simp add: word_less_nat_alt unsigned_ucast_eq take_bit_nat_eq_self)
  show "ucast (ucast b :: u32) = b" by (rule bit_word_eqI) (simp add: bit_simps)
qed

lemma ucast_u16_small: "ucast (b :: u16) < (65536 :: u32)" "ucast (ucast b :: u32) = b"
proof -
  have "unat b < 2 ^ LENGTH(16)" by (rule unsigned_less)
  then show "ucast b < (65536 :: u32)" by (simp add: word_less_nat_alt unsigned_ucast_eq take_bit_nat_eq_self)
  show "ucast (ucast b :: u32) = b" by (rule bit_word_eqI) (simp add: bit_simps)
qed

context back_end
begin

lemma put_struct_code:
  "table_ok qs s \<Longrightarrow> writing put cl holds f bs (length (struct_code qs s) + r) \<Longrightarrow>
   \<exists>f'. qemu_put_struct qs s f = ret f' \<and> writing put cl holds f' (bs @ struct_code qs s) r"
proof (induction qs s f arbitrary: bs rule: qemu_put_struct.induct)
  case (3 g p qs s f)
  from 3(3) obtain f1 where 1: "qemu_put_byte (ucast (g s)) f = ret f1" "writing put cl holds f1 (bs @ [g s]) (length (struct_code qs s) + r)"
    using put_byte_code [of f bs "ucast (g s)" "length (struct_code qs s) + r"] by (auto simp: ucast_u8_small)
  from 3(1) [OF _ 1(2)] 3(2) 1(1) show ?case by simp
next
  case (4 g p qs s f)
  from 4(3) obtain f1 where 1: "qemu_put_be16 (ucast (g s)) f = ret f1"
      "writing put cl holds f1 (bs @ be16 (ucast (g s))) (length (struct_code qs s) + r)"
    using put_be16_code [of f bs "ucast (g s)" "length (struct_code qs s) + r"] by auto
  from 4(1) [OF _ 1(2)] 4(2) 1(1) show ?case by simp
next
  case (5 g p qs s f)
  from 5(3) obtain f1 where 1: "qemu_put_be32 (g s) f = ret f1" "writing put cl holds f1 (bs @ be32 (g s)) (length (struct_code qs s) + r)"
    using put_be32_code [of f bs "g s" "length (struct_code qs s) + r"] by (auto simp: add.assoc)
  from 5(1) [OF _ 1(2)] 5(2) 1(1) show ?case by simp
next
  case (6 g p qs s f)
  from 6(3) obtain f1 where 1: "qemu_put_be64 (g s) f = ret f1" "writing put cl holds f1 (bs @ be64 (g s)) (length (struct_code qs s) + r)"
    using be64.put_code [of f bs "g s" "length (struct_code qs s) + r"] by (auto simp: add.assoc)
  from 6(1) [OF _ 1(2)] 6(2) 1(1) show ?case by simp
next
  case (7 g p hi lo qs s f)
  let ?data = "g (unat (buffer_size hi lo)) s"
  from 7(3) obtain f1 where 1: "qemu_put_buffer ?data f = ret f1" "writing put cl holds f1 (bs @ ?data) (length (struct_code qs s) + r)"
    using put_buffer_code [of f bs ?data "length (struct_code qs s) + r"] by (auto simp: add.assoc)
  from 7(1) [OF _ 1(2)] 7(2) 1(1) show ?case by (simp add: int_size_small)
qed auto

lemma get_struct_code:
  "table_ok qs s \<Longrightarrow> reading get left e f (struct_code qs s @ bs) \<Longrightarrow>
   \<exists>f'. qemu_get_struct qs t f = ret (0, struct_store qs s t, f') \<and> reading get left e f' bs"
proof (induction qs s t arbitrary: f rule: struct_store.induct)
  case (1 g p qs s t)
  then obtain f1 where f1: "qemu_get_byte f = ret (ucast (g s), f1)" "reading get left e f1 (struct_code qs s @ bs)"
    using get_byte_code by fastforce
  from 1(1) [OF _ f1(2)] 1(2) f1(1) show ?case by (simp add: ucast_u8_small)
next
  case (2 g p qs s t)
  then obtain f1 where f1: "qemu_get_be16 f = ret (ucast (g s), f1)" "reading get left e f1 (struct_code qs s @ bs)"
    using get_be16_code [OF ucast_u16_small(1)] by fastforce
  from 2(1) [OF _ f1(2)] 2(2) f1(1) show ?case by (simp add: ucast_u16_small)
next
  case (3 g p qs s t)
  then obtain f1 where f1: "qemu_get_be32 f = ret (g s, f1)" "reading get left e f1 (struct_code qs s @ bs)"
    using get_be32_code by fastforce
  from 3(1) [OF _ f1(2)] 3(2) f1(1) show ?case by simp
next
  case (4 g p qs s t)
  then obtain f1 where f1: "qemu_get_be64 f = ret (g s, f1)" "reading get left e f1 (struct_code qs s @ bs)"
    using get_be64_code by fastforce
  from 4(1) [OF _ f1(2)] 4(2) f1(1) show ?case by simp
next
  case (5 g p hi lo qs s t)
  let ?data = "g (unat (buffer_size hi lo)) s"
  from 5(2) have len: "length ?data = unat (buffer_size hi lo)" "unat (buffer_size hi lo) < 2147483648" by simp_all
  from 5(3) obtain f1 where f1: "qemu_get_buffer (length ?data) f = ret (?data, f1)" "reading get left e f1 (struct_code qs s @ bs)"
    using get_buffer_code [of e f ?data] by auto
  have "of_nat (length ?data) = buffer_size hi lo" using len by simp
  with 5(1) [OF _ f1(2)] 5(2) f1(1) len show ?case by (simp add: int_size_small)
qed auto

text \<open>A file that ends too early: what is missing is read as zeros, and the error stays recorded.\<close>

lemma get_byte_any:
  assumes "reading get left e f bs"
  shows "\<exists>v f'. qemu_get_byte f = ret (v, f') \<and> reading get left (e \<or> length bs < 1) f' (drop 1 bs)"
proof (cases bs)
  case Nil
  then have "buf_size f \<le> buf_index f" "\<not> is_write f" using assms by (auto simp: reading_def copy_out_def)
  moreover obtain g where "qemu_fill_buffer f = ret g" "reading get left True g []" "buf_index g = buf_size g"
    using fill_at_end assms Nil by blast
  ultimately show ?thesis using Nil by (simp add: qemu_get_byte_def)
next
  case (Cons b ds)
  with get_byte_code [of e f b ds] assms show ?thesis by auto
qed

lemma get_be16_any:
  assumes "reading get left e f bs"
  shows "\<exists>v f'. qemu_get_be16 f = ret (v, f') \<and> reading get left (e \<or> length bs < 2) f' (drop 2 bs)"
proof -
  obtain v1 f1 where 1: "qemu_get_byte f = ret (v1, f1)" "reading get left (e \<or> length bs < 1) f1 (drop 1 bs)"
    using get_byte_any [OF assms] by blast
  obtain v2 f2 where 2: "qemu_get_byte f1 = ret (v2, f2)"
      "reading get left ((e \<or> length bs < 1) \<or> length (drop 1 bs) < 1) f2 (drop 1 (drop 1 bs))"
    using get_byte_any [OF 1(2)] by blast
  moreover have "((e \<or> length bs < 1) \<or> length (drop 1 bs) < 1) = (e \<or> length bs < 2)" by auto
  ultimately show ?thesis using 1(1) by (simp add: qemu_get_be16_def numeral_2_eq_2)
qed

lemma get_be32_any:
  assumes "reading get left e f bs"
  shows "\<exists>v f'. qemu_get_be32 f = ret (v, f') \<and> reading get left (e \<or> length bs < 4) f' (drop 4 bs)"
proof -
  obtain v1 f1 where 1: "qemu_get_byte f = ret (v1, f1)" "reading get left (e \<or> length bs < 1) f1 (drop 1 bs)"
    using get_byte_any [OF assms] by blast
  obtain v2 f2 where 2: "qemu_get_byte f1 = ret (v2, f2)"
      "reading get left ((e \<or> length bs < 1) \<or> length (drop 1 bs) < 1) f2 (drop 1 (drop 1 bs))"
    using get_byte_any [OF 1(2)] by blast
  obtain v3 f3 where 3: "qemu_get_byte f2 = ret (v3, f3)"
      "reading get left (((e \<or> length bs < 1) \<or> length (drop 1 bs) < 1) \<or> length (drop 1 (drop 1 bs)) < 1) f3 (drop 1 (drop 1 (drop 1 bs)))"
    using get_byte_any [OF 2(2)] by blast
  obtain v4 f4 where 4: "qemu_get_byte f3 = ret (v4, f4)"
      "reading get left ((((e \<or> length bs < 1) \<or> length (drop 1 bs) < 1) \<or> length (drop 1 (drop 1 bs)) < 1) \<or>
         length (drop 1 (drop 1 (drop 1 bs))) < 1) f4 (drop 1 (drop 1 (drop 1 (drop 1 bs))))"
    using get_byte_any [OF 3(2)] by blast
  moreover have "((((e \<or> length bs < 1) \<or> length (drop 1 bs) < 1) \<or> length (drop 1 (drop 1 bs)) < 1) \<or>
    length (drop 1 (drop 1 (drop 1 bs))) < 1) = (e \<or> length bs < 4)" by auto
  ultimately show ?thesis using 1(1) 2(1) 3(1) by (simp add: qemu_get_be32_def eval_nat_numeral)
qed

lemma get_be64_any:
  assumes "reading get left e f bs"
  shows "\<exists>v f'. qemu_get_be64 f = ret (v, f') \<and> reading get left (e \<or> length bs < 8) f' (drop 8 bs)"
proof -
  obtain v1 f1 where 1: "qemu_get_be32 f = ret (v1, f1)" "reading get left (e \<or> length bs < 4) f1 (drop 4 bs)"
    using get_be32_any [OF assms] by blast
  obtain v2 f2 where 2: "qemu_get_be32 f1 = ret (v2, f2)"
      "reading get left ((e \<or> length bs < 4) \<or> length (drop 4 bs) < 4) f2 (drop 4 (drop 4 bs))"
    using get_be32_any [OF 1(2)] by blast
  moreover have "((e \<or> length bs < 4) \<or> length (drop 4 bs) < 4) = (e \<or> length bs < 8)" by auto
  ultimately show ?thesis using 1(1) by (simp add: qemu_get_be64_def)
qed

lemma get_struct_short:
  "table_ok qs s \<Longrightarrow> reading get left e f bs \<Longrightarrow> e \<or> length bs < length (struct_code qs s) \<Longrightarrow>
   \<exists>rc t' f'. qemu_get_struct qs t f = ret (rc, t', f') \<and> has_error f'"
proof (induction qs s arbitrary: t e f bs rule: struct_code.induct)
  case (1 g p qs s)
  obtain v f1 where f1: "qemu_get_byte f = ret (v, f1)" "reading get left (e \<or> length bs < 1) f1 (drop 1 bs)"
    using get_byte_any [OF 1(3)] by blast
  have "(e \<or> length bs < 1) \<or> length (drop 1 bs) < length (struct_code qs s)" using 1(4) by (cases bs) auto
  from 1(1) [OF _ f1(2) this] 1(2) f1(1) show ?case by simp
next
  case (2 g p qs s)
  obtain v f1 where f1: "qemu_get_be16 f = ret (v, f1)" "reading get left (e \<or> length bs < 2) f1 (drop 2 bs)"
    using get_be16_any [OF 2(3)] by blast
  have "(e \<or> length bs < 2) \<or> length (drop 2 bs) < length (struct_code qs s)" using 2(4) by auto
  from 2(1) [OF _ f1(2) this] 2(2) f1(1) show ?case by simp
next
  case (3 g p qs s)
  obtain v f1 where f1: "qemu_get_be32 f = ret (v, f1)" "reading get left (e \<or> length bs < 4) f1 (drop 4 bs)"
    using get_be32_any [OF 3(3)] by blast
  have "(e \<or> length bs < 4) \<or> length (drop 4 bs) < length (struct_code qs s)" using 3(4) by auto
  from 3(1) [OF _ f1(2) this] 3(2) f1(1) show ?case by simp
next
  case (4 g p qs s)
  obtain v f1 where f1: "qemu_get_be64 f = ret (v, f1)" "reading get left (e \<or> length bs < 8) f1 (drop 8 bs)"
    using get_be64_any [OF 4(3)] by blast
  have "(e \<or> length bs < 8) \<or> length (drop 8 bs) < length (struct_code qs s)" using 4(4) by auto
  from 4(1) [OF _ f1(2) this] 4(2) f1(1) show ?case by simp
next
  case (5 g p hi lo qs s)
  let ?n = "unat (buffer_size hi lo)"
  from 5(2) have n: "length (g ?n s) = ?n" "int_size (buffer_size hi lo) = ?n" by (simp_all add: int_size_small)
  obtain f1 where f1: "qemu_get_buffer ?n f = ret (take ?n bs, f1)" "reading get left (e \<or> length bs < ?n) f1 (drop ?n bs)"
    using get_buffer_any [OF 5(3)] by blast
  show ?case
  proof (cases "of_nat (length (take ?n bs)) = buffer_size hi lo")
    case True
    have "(e \<or> length bs < ?n) \<or> length (drop ?n bs) < length (struct_code qs s)" using 5(4) n(1) by auto
    with True 5(1) [OF _ f1(2) this] 5(2) f1(1) n show ?thesis by simp
  next
    case False
    then have "length bs < ?n" by (cases "length bs < ?n") auto
    with False f1 n show ?thesis by (simp add: reading_def)
  qed
qed (auto simp: reading_def)

end

section \<open>The two kinds of host files\<close>

definition file_holds :: "FILE \<Rightarrow> u8 list \<Rightarrow> nat \<Rightarrow> bool" where
  "file_holds fp bs r \<longleftrightarrow> file_bytes fp = bs \<and> length bs + r \<le> disk_size fp"

definition file_left :: "FILE \<Rightarrow> nat \<Rightarrow> u8 list \<Rightarrow> bool" where
  "file_left fp p bs \<longleftrightarrow> p \<le> length (file_bytes fp) \<and> bs = drop p (file_bytes fp)"

definition stream_holds :: "FILE \<Rightarrow> u8 list \<Rightarrow> nat \<Rightarrow> bool" where
  "stream_holds fp bs r \<longleftrightarrow> file_holds fp bs r \<and> file_pos fp = length bs"

definition stream_left :: "FILE \<Rightarrow> nat \<Rightarrow> u8 list \<Rightarrow> bool" where
  "stream_left fp p bs \<longleftrightarrow> file_left fp p bs \<and> file_pos fp = p"

lemma fwrite_at_end:
  "file_holds fp bs (length ds + r) \<Longrightarrow> file_pos fp = length bs \<Longrightarrow>
   \<exists>fp'. c_fwrite ds fp = (length ds, fp') \<and> file_holds fp' (bs @ ds) r \<and> file_pos fp' = length (bs @ ds)"
  by (auto simp: c_fwrite_def file_holds_def Let_def)

lemma fread_from:
  "file_left fp p bs \<Longrightarrow> file_pos fp = p \<Longrightarrow>
   \<exists>fp'. c_fread n fp = (take n bs, fp') \<and> file_left fp' (p + length (take n bs)) (drop n bs) \<and>
     file_pos fp' = p + length (take n bs)"
  by (auto simp: c_fread_def file_left_def Let_def min_def drop_drop add.commute)

interpretation seekable: back_end file_put_buffer file_get_buffer stdio_fclose file_holds file_left
proof
  fix op bs r and ds :: "u8 list" assume "file_holds op bs (length ds + r)"
  then have "file_holds (c_fseek_set (int (length bs)) op) bs (length ds + r)" "file_pos (c_fseek_set (int (length bs)) op) = length bs"
    by (simp_all add: file_holds_def c_fseek_set_def)
  from fwrite_at_end [OF this]
  show "\<exists>op'. file_put_buffer ds (int (length bs)) op = (int (length ds), op') \<and> file_holds op' (bs @ ds) r"
    by (auto simp: file_put_buffer_def)
next
  fix op p bs n assume "file_left op p bs"
  then have "file_left (c_fseek_set (int p) op) p bs" "file_pos (c_fseek_set (int p) op) = p"
    by (simp_all add: file_left_def c_fseek_set_def)
  from fread_from [OF this, of n]
  show "\<exists>op'. file_get_buffer (int p) n op = (int (length (take n bs)), take n bs, op') \<and>
      file_left op' (p + length (take n bs)) (drop n bs)"
    by (auto simp: file_get_buffer_def)
qed

interpretation streamed: back_end stdio_put_buffer stdio_get_buffer stdio_fclose stream_holds stream_left
proof
  fix op bs r and ds :: "u8 list" assume "stream_holds op bs (length ds + r)"
  with fwrite_at_end [of op bs ds r]
  show "\<exists>op'. stdio_put_buffer ds (int (length bs)) op = (int (length ds), op') \<and> stream_holds op' (bs @ ds) r"
    by (auto simp: stdio_put_buffer_def stream_holds_def)
next
  fix op p bs n assume "stream_left op p bs"
  with fread_from [of op p bs n]
  show "\<exists>op'. stdio_get_buffer (int p) n op = (int (length (take n bs)), take n bs, op') \<and>
      stream_left op' (p + length (take n bs)) (drop n bs)"
    by (auto simp: stdio_get_buffer_def stream_left_def)
qed

text \<open>The files that \<open>qemu_fopen\<close> opens.\<close>

abbreviation saving :: "FILE QEMUFile \<Rightarrow> u8 list \<Rightarrow> nat \<Rightarrow> bool" where
  "saving \<equiv> writing file_put_buffer stdio_fclose file_holds"

abbreviation loading :: "bool \<Rightarrow> FILE QEMUFile \<Rightarrow> u8 list \<Rightarrow> bool" where
  "loading \<equiv> reading file_get_buffer file_left"

lemma fopen_wb:
  "r \<le> space \<Longrightarrow> \<exists>f. qemu_fopen dir space name ''wb'' = Some f \<and> saving f [] r"
  by (simp add: qemu_fopen_def valid_mode_string_def c_fopen_def qemu_fopen_ops_def writing_def file_holds_def IO_BUF_SIZE_def)

lemma fopen_rb:
  "dir name = Some bs \<Longrightarrow> \<exists>f. qemu_fopen dir space name ''rb'' = Some f \<and> loading False f bs"
  by (simp add: qemu_fopen_def valid_mode_string_def c_fopen_def qemu_fopen_ops_def reading_def file_left_def)

text \<open>A file that is written, closed and opened again delivers the bytes that were put into it.\<close>

lemma fclose_then_fopen:
  assumes "saving f bs r"
  obtains fp g where "qemu_fclose f = (0, fp)" "file_bytes fp = bs" "qemu_fopen (dir(name \<mapsto> file_bytes fp)) space name ''rb'' = Some g"
    "loading False g bs"
  using seekable.fclose_stores [OF assms] fopen_rb [of "dir(name \<mapsto> bs)" name bs space]
  by (auto simp: stdio_fclose_def file_holds_def)

section \<open>Properties\<close>

text \<open>
  A structure described by a table of fields comes back from a file: saved into a new file of the disk, which has room for
  it, closed, opened again and loaded over another structure of the same type, every field of the table has the value it was
  saved with, the other fields are untouched, and no error is recorded - whatever the number of buffers the bytes take.
\<close>

theorem struct_file_roundtrip:
  assumes "table_ok qs s" and "length (struct_code qs s) \<le> space"
  shows "\<exists>f f1 fp g g1. qemu_fopen dir space name ''wb'' = Some f \<and> qemu_put_struct qs s f = ret f1 \<and> qemu_fclose f1 = (0, fp) \<and>
    qemu_fopen (dir(name \<mapsto> file_bytes fp)) space name ''rb'' = Some g \<and>
    qemu_get_struct qs t g = ret (0, struct_store qs s t, g1) \<and> \<not> has_error g1"
proof -
  obtain f where f: "qemu_fopen dir space name ''wb'' = Some f" "saving f [] (length (struct_code qs s) + 0)"
    using fopen_wb [of "length (struct_code qs s) + 0" space] assms(2) by auto
  obtain f1 where f1: "qemu_put_struct qs s f = ret f1" "saving f1 ([] @ struct_code qs s) 0"
    using seekable.put_struct_code [OF assms(1) f(2)] by blast
  obtain fp g where g: "qemu_fclose f1 = (0, fp)" "qemu_fopen (dir(name \<mapsto> file_bytes fp)) space name ''rb'' = Some g"
      "loading False g (struct_code qs s @ [])"
    using fclose_then_fopen [OF f1(2)] by (metis append.left_neutral append_Nil2)
  from seekable.get_struct_code [OF assms(1) g(3), of t] f(1) f1(1) g(1,2) show ?thesis
    by (auto simp: reading_def)
qed

definition pair_table :: "(u32 \<times> u8) QField list" where
  "pair_table = [Q_FIELD_INT32 fst (\<lambda>v s. (v, snd s)), Q_FIELD_BYTE snd (\<lambda>v s. (fst s, v)), Q_FIELD_END]"

theorem struct_file_roundtrip_witness:
  "\<exists>f f1 fp g g1. qemu_fopen Map.empty 5 ''snap'' ''wb'' = Some f \<and> qemu_put_struct pair_table (0x12345678, 9) f = ret f1 \<and>
    qemu_fclose f1 = (0, fp) \<and> qemu_fopen (Map.empty(''snap'' \<mapsto> file_bytes fp)) 5 ''snap'' ''rb'' = Some g \<and>
    qemu_get_struct pair_table (0, 0) g = ret (0, (0x12345678, 9), g1) \<and> \<not> has_error g1"
  using struct_file_roundtrip [of pair_table "(0x12345678, 9)" 5 Map.empty "''snap''" "(0, 0)"] by (simp add: pair_table_def)

text \<open>
  A file that is too short for the table is noticed: loading ends and the error is recorded in the file, where
  \<open>qemu_loadvm_state\<close> looks for it, although \<open>qemu_get_struct\<close> itself returns 0 when no buffer is cut.
\<close>

theorem truncated_struct_detected:
  assumes "table_ok qs s" and "dir name = Some bs" and "length bs < length (struct_code qs s)"
  shows "\<exists>f rc t' f'. qemu_fopen dir space name ''rb'' = Some f \<and> qemu_get_struct qs t f = ret (rc, t', f') \<and> qemu_file_has_error f'"
proof -
  obtain f where f: "qemu_fopen dir space name ''rb'' = Some f" "loading False f bs" using fopen_rb assms(2) by blast
  from seekable.get_struct_short [OF assms(1) f(2)] assms(3) f(1) show ?thesis
    by (auto simp: qemu_file_has_error_def)
qed

theorem truncated_struct_detected_witness:
  "\<exists>f rc t' f'. qemu_fopen (Map.empty(''snap'' \<mapsto> [1, 2])) 0 ''snap'' ''rb'' = Some f \<and>
     qemu_get_struct pair_table (0, 0) f = ret (rc, t', f') \<and> qemu_file_has_error f'"
  by (rule truncated_struct_detected [where s = "(0, 0)" and bs = "[1, 2]"]) (simp_all add: pair_table_def)

text \<open>
  A disk that is full is not always noticed: \<open>qemu_fflush\<close> takes a write of fewer bytes than it asked for as done. With room for
  one byte, two bytes are put, no error is recorded, closing succeeds, and one byte is in the file.
\<close>

theorem short_write_unnoticed:
  "\<exists>f f1 f2. qemu_fopen dir 1 name ''wb'' = Some f \<and> qemu_put_byte 7 f = ret f1 \<and> qemu_put_byte 8 f1 = ret f2 \<and>
     \<not> qemu_file_has_error (qemu_fflush f2) \<and> fst (qemu_fclose f2) = 0 \<and> file_bytes (snd (qemu_fclose f2)) = [7]"
  by (simp add: qemu_fopen_def valid_mode_string_def c_fopen_def qemu_fopen_ops_def qemu_put_byte_def not_reading_def
      IO_BUF_SIZE_def qemu_fclose_def qemu_fflush_def file_put_buffer_def c_fwrite_def c_fseek_set_def copy_out_def
      stdio_fclose_def qemu_file_has_error_def upt_rec)

end
