(* ===== verification/Cpu_Snapshot.thy ===== *)
theory Cpu_Snapshot
  imports Qemu_File Arm_Modes Goldfish_Int
begin

unbundle bit_operations_syntax

text \<open>
  The processor and the interrupt controller in a snapshot: \<open>cpu_save\<close> and \<open>cpu_load\<close> (target-arm/machine.c) write and read the
  registers one after the other, the coprocessors according to the features of the processor;
  \<open>goldfish_int_save\<close> and \<open>goldfish_int_load\<close> use a table of fields. The theorems say what of the processor comes back, and what
  does not: registers 16 to 31 of a VFPv3 unit are loaded into registers 0 to 15.
\<close>

definition CPU_SAVE_VERSION :: int where "CPU_SAVE_VERSION = 3"
definition EINVAL :: int where "EINVAL = 22"

section \<open>Saving the processor\<close>

abbreviation put32s :: "u32 list \<Rightarrow> 'o QEMUFile \<Rightarrow> 'o QEMUFile comp" where
  "put32s \<equiv> put_each qemu_put_be32"

text \<open>The fields of the system control coprocessor, in the order in which they are saved.\<close>

definition cp15_saved :: "cp15_state \<Rightarrow> u32 list" where
  "cp15_saved c =
     [c0_cpuid c, c0_cachetype c, c0_cssel c, c1_sys c, c1_coproc c, c1_xscaleauxcr c, c1_secfg c, c1_sedbg c, c1_nseac c,
      c2_base0 c, c2_base1 c, c2_control c, c2_mask c, c2_base_mask c, c2_data c, c2_insn c, c3 c, c5_insn c, c5_data c] @
     map (c6_region c) [0..<8] @
     [c6_insn c, c6_data c, c7_par c, c9_insn c, c9_data c, c9_pmcr_data c, c9_useren c, c9_inten c,
      c13_fcse c, c13_context c, c13_tls1 c, c13_tls2 c, c13_tls3 c, c15_cpar c]"

text \<open>A double-precision register is saved as two words, the upper one first.\<close>

definition doubles :: "(nat \<Rightarrow> u64) \<Rightarrow> nat list \<Rightarrow> u32 list" where
  "doubles r is = concat (map (\<lambda>i. [ucast (drop_bit 32 (r i)), ucast (r i)]) is)"

definition core_saved :: "CPUARMState \<Rightarrow> u32 list" where
  "core_saved env =
     map (regs env) [0..<16] @ [cpsr_read env, spsr env] @
     concat (map (\<lambda>i. [banked_spsr env i, banked_r13 env i, banked_r14 env i]) [0..<6]) @
     concat (map (\<lambda>i. [usr_regs env i, fiq_regs env i]) [0..<5])"

definition vfp_save :: "CPUARMState \<Rightarrow> 'o QEMUFile \<Rightarrow> 'o QEMUFile comp" where
  "vfp_save env f =
     (if arm_feature env ARM_FEATURE_VFP then
        comp_bind (put32s (doubles (vregs (vfp env)) [0..<16] @ map (xregs (vfp env)) [0..<16] @
                           [vec_len (vfp env), vec_stride (vfp env)]) f) (\<lambda>f1.
          if arm_feature env ARM_FEATURE_VFP3 then put32s (doubles (vregs (vfp env)) [16..<32]) f1 else ret f1)
      else ret f)"

definition iwmmxt_save :: "CPUARMState \<Rightarrow> 'o QEMUFile \<Rightarrow> 'o QEMUFile comp" where
  "iwmmxt_save env f =
     (if arm_feature env ARM_FEATURE_IWMMXT then
        comp_bind (put_each qemu_put_be64 (map (iw_regs (iwmmxt env)) [0..<16]) f)
          (put32s (map (iw_cregs (iwmmxt env)) [0..<16]))
      else ret f)"

definition v7m_saved :: "v7m_state \<Rightarrow> u32 list" where
  "v7m_saved m = [other_sp m, vecbase m, basepri m, control m, word_of_int (current_sp m), exception m]"

definition cpu_save :: "CPUARMState \<Rightarrow> 'o QEMUFile \<Rightarrow> 'o QEMUFile comp" where
  "cpu_save env f =
     comp_bind (put32s (core_saved env) f) (\<lambda>f1.
     comp_bind (put32s (cp15_saved (cp15 env)) f1) (\<lambda>f2.
     comp_bind (put32s [cp14_dbgdidr env, features env] f2) (\<lambda>f3.
     comp_bind (vfp_save env f3) (\<lambda>f4.
     comp_bind (iwmmxt_save env f4) (\<lambda>f5.
     comp_bind (if arm_feature env ARM_FEATURE_M then put32s (v7m_saved (v7m env)) f5 else ret f5) (\<lambda>f6.
       if arm_feature env ARM_FEATURE_THUMB2EE then put32s [teecr env, teehbr env] f6 else ret f6))))))"

section \<open>Loading the processor\<close>

abbreviation get32s :: "(u32 \<Rightarrow> 's \<Rightarrow> 's) list \<Rightarrow> 's \<Rightarrow> 'o QEMUFile \<Rightarrow> ('s \<times> 'o QEMUFile) comp" where
  "get32s \<equiv> get_each qemu_get_be32"

text \<open>The assignments of the loops and of the statements that follow each other.\<close>

definition element :: "nat \<Rightarrow> 'v \<Rightarrow> (nat \<Rightarrow> 'v) \<Rightarrow> nat \<Rightarrow> 'v" where
  "element i v a = a(i := v)"

definition core_loads_1 :: "(u32 \<Rightarrow> u32_array \<Rightarrow> u32_array) list" where
  "core_loads_1 = map element [0..<16]"

definition core_loads_2 :: "(u32 \<Rightarrow> CPUARMState \<Rightarrow> CPUARMState) list" where
  "core_loads_2 =
     (\<lambda>v env. env\<lparr>spsr := v\<rparr>) #
     concat (map (\<lambda>i. [\<lambda>v env. env\<lparr>banked_spsr := element i v (banked_spsr env)\<rparr>,
                       \<lambda>v env. env\<lparr>banked_r13 := element i v (banked_r13 env)\<rparr>,
                       \<lambda>v env. env\<lparr>banked_r14 := element i v (banked_r14 env)\<rparr>]) [0..<6]) @
     concat (map (\<lambda>i. [\<lambda>v env. env\<lparr>usr_regs := element i v (usr_regs env)\<rparr>,
                       \<lambda>v env. env\<lparr>fiq_regs := element i v (fiq_regs env)\<rparr>]) [0..<5])"

definition cp15_loads :: "(u32 \<Rightarrow> cp15_state \<Rightarrow> cp15_state) list" where
  "cp15_loads =
     [\<lambda>v c. c\<lparr>c0_cpuid := v\<rparr>, \<lambda>v c. c\<lparr>c0_cachetype := v\<rparr>, \<lambda>v c. c\<lparr>c0_cssel := v\<rparr>,
      \<lambda>v c. c\<lparr>c1_sys := v\<rparr>, \<lambda>v c. c\<lparr>c1_coproc := v\<rparr>, \<lambda>v c. c\<lparr>c1_xscaleauxcr := v\<rparr>,
      \<lambda>v c. c\<lparr>c1_secfg := v\<rparr>, \<lambda>v c. c\<lparr>c1_sedbg := v\<rparr>, \<lambda>v c. c\<lparr>c1_nseac := v\<rparr>,
      \<lambda>v c. c\<lparr>c2_base0 := v\<rparr>, \<lambda>v c. c\<lparr>c2_base1 := v\<rparr>, \<lambda>v c. c\<lparr>c2_control := v\<rparr>,
      \<lambda>v c. c\<lparr>c2_mask := v\<rparr>, \<lambda>v c. c\<lparr>c2_base_mask := v\<rparr>, \<lambda>v c. c\<lparr>c2_data := v\<rparr>,
      \<lambda>v c. c\<lparr>c2_insn := v\<rparr>, \<lambda>v c. c\<lparr>c3 := v\<rparr>, \<lambda>v c. c\<lparr>c5_insn := v\<rparr>, \<lambda>v c. c\<lparr>c5_data := v\<rparr>] @
     map (\<lambda>i v c. c\<lparr>c6_region := element i v (c6_region c)\<rparr>) [0..<8] @
     [\<lambda>v c. c\<lparr>c6_insn := v\<rparr>, \<lambda>v c. c\<lparr>c6_data := v\<rparr>, \<lambda>v c. c\<lparr>c7_par := v\<rparr>,
      \<lambda>v c. c\<lparr>c9_insn := v\<rparr>, \<lambda>v c. c\<lparr>c9_data := v\<rparr>, \<lambda>v c. c\<lparr>c9_pmcr_data := v\<rparr>,
      \<lambda>v c. c\<lparr>c9_useren := v\<rparr>, \<lambda>v c. c\<lparr>c9_inten := v\<rparr>, \<lambda>v c. c\<lparr>c13_fcse := v\<rparr>,
      \<lambda>v c. c\<lparr>c13_context := v\<rparr>, \<lambda>v c. c\<lparr>c13_tls1 := v\<rparr>, \<lambda>v c. c\<lparr>c13_tls2 := v\<rparr>,
      \<lambda>v c. c\<lparr>c13_tls3 := v\<rparr>, \<lambda>v c. c\<lparr>c15_cpar := v\<rparr>]"

text \<open>A double is put together from its two halves (\<open>CPU_DoubleU\<close>).\<close>

definition get_double :: "'o QEMUFile \<Rightarrow> (u64 \<times> 'o QEMUFile) comp" where
  "get_double f =
     comp_bind (qemu_get_be32 f) (\<lambda>(upper, f1).
     comp_bind (qemu_get_be32 f1) (\<lambda>(lower, f2). ret (push_bit 32 (ucast upper) OR ucast lower, f2)))"

definition core_load :: "CPUARMState \<Rightarrow> 'o QEMUFile \<Rightarrow> (CPUARMState \<times> 'o QEMUFile) comp" where
  "core_load env f =
     comp_bind (get32s core_loads_1 (regs env) f) (\<lambda>(r, f1).
     comp_bind (qemu_get_be32 f1) (\<lambda>(val, f2).
     comp_bind (cpsr_write val 0xFFFFFFFF (env\<lparr>regs := r, uncached_cpsr := val AND CPSR_M\<rparr>)) (\<lambda>env1.
       get32s core_loads_2 env1 f2)))"

definition vfp_load :: "CPUARMState \<Rightarrow> 'o QEMUFile \<Rightarrow> (CPUARMState \<times> 'o QEMUFile) comp" where
  "vfp_load env f =
     (if arm_feature env ARM_FEATURE_VFP then
        comp_bind (get_each get_double (map element [0..<16]) (vregs (vfp env)) f) (\<lambda>(r, f1).
        comp_bind (get32s (map element [0..<16]) (xregs (vfp env)) f1) (\<lambda>(x, f2).
        comp_bind (get32s [\<lambda>v s. s\<lparr>vec_len := v\<rparr>, \<lambda>v s. s\<lparr>vec_stride := v\<rparr>] ((vfp env)\<lparr>vregs := r, xregs := x\<rparr>) f2) (\<lambda>(s, f3).
          if arm_feature env ARM_FEATURE_VFP3 then
            comp_bind (get_each get_double (map element [0..<16]) (vregs s) f3) (\<lambda>(r', f4).
              ret (env\<lparr>vfp := s\<lparr>vregs := r'\<rparr>\<rparr>, f4))
          else ret (env\<lparr>vfp := s\<rparr>, f3))))
      else ret (env, f))"

definition iwmmxt_load :: "CPUARMState \<Rightarrow> 'o QEMUFile \<Rightarrow> (CPUARMState \<times> 'o QEMUFile) comp" where
  "iwmmxt_load env f =
     (if arm_feature env ARM_FEATURE_IWMMXT then
        comp_bind (get_each qemu_get_be64 (map element [0..<16]) (iw_regs (iwmmxt env)) f) (\<lambda>(r, f1).
        comp_bind (get32s (map element [0..<16]) (iw_cregs (iwmmxt env)) f1) (\<lambda>(x, f2).
          ret (env\<lparr>iwmmxt := (iwmmxt env)\<lparr>iw_regs := r, iw_cregs := x\<rparr>\<rparr>, f2)))
      else ret (env, f))"

definition v7m_loads :: "(u32 \<Rightarrow> v7m_state \<Rightarrow> v7m_state) list" where
  "v7m_loads =
     [\<lambda>v m. m\<lparr>other_sp := v\<rparr>, \<lambda>v m. m\<lparr>vecbase := v\<rparr>, \<lambda>v m. m\<lparr>basepri := v\<rparr>, \<lambda>v m. m\<lparr>control := v\<rparr>,
      \<lambda>v m. m\<lparr>current_sp := sint v\<rparr>, \<lambda>v m. m\<lparr>exception := v\<rparr>]"

definition v7m_load :: "CPUARMState \<Rightarrow> 'o QEMUFile \<Rightarrow> (CPUARMState \<times> 'o QEMUFile) comp" where
  "v7m_load env f =
     (if arm_feature env ARM_FEATURE_M
      then comp_bind (get32s v7m_loads (v7m env) f) (\<lambda>(m, f1). ret (env\<lparr>v7m := m\<rparr>, f1))
      else ret (env, f))"

definition thumb2ee_load :: "CPUARMState \<Rightarrow> 'o QEMUFile \<Rightarrow> (CPUARMState \<times> 'o QEMUFile) comp" where
  "thumb2ee_load env f =
     (if arm_feature env ARM_FEATURE_THUMB2EE
      then get32s [\<lambda>v env. env\<lparr>teecr := v\<rparr>, \<lambda>v env. env\<lparr>teehbr := v\<rparr>] env f
      else ret (env, f))"

definition cpu_load_fields :: "CPUARMState \<Rightarrow> 'o QEMUFile \<Rightarrow> (CPUARMState \<times> 'o QEMUFile) comp" where
  "cpu_load_fields env f =
     comp_bind (core_load env f) (\<lambda>(env1, f1).
     comp_bind (get32s cp15_loads (cp15 env1) f1) (\<lambda>(c, f2).
     comp_bind (get32s [\<lambda>v env. env\<lparr>cp14_dbgdidr := v\<rparr>, \<lambda>v env. env\<lparr>features := v\<rparr>] (env1\<lparr>cp15 := c\<rparr>) f2) (\<lambda>(env2, f3).
     comp_bind (vfp_load env2 f3) (\<lambda>(env3, f4).
     comp_bind (iwmmxt_load env3 f4) (\<lambda>(env4, f5).
     comp_bind (v7m_load env4 f5) (\<lambda>(env5, f6). thumb2ee_load env5 f6))))))"

definition cpu_load :: "CPUARMState \<Rightarrow> int \<Rightarrow> 'o QEMUFile \<Rightarrow> (int \<times> CPUARMState \<times> 'o QEMUFile) comp" where
  "cpu_load env version_id f =
     (if version_id \<noteq> CPU_SAVE_VERSION then ret (- EINVAL, env, f)
      else comp_bind (cpu_load_fields env f) (\<lambda>(env', f'). ret (0, env', f')))"

section \<open>The interrupt controller\<close>

definition GOLDFISH_INT_SAVE_VERSION :: int where "GOLDFISH_INT_SAVE_VERSION = 1"

definition goldfish_int_fields :: "goldfish_int_state QField list" where
  "goldfish_int_fields =
     [Q_FIELD_INT32 int_level (\<lambda>v s. s\<lparr>int_level := v\<rparr>), Q_FIELD_INT32 pending_count (\<lambda>v s. s\<lparr>pending_count := v\<rparr>),
      Q_FIELD_INT32 irq_enabled (\<lambda>v s. s\<lparr>irq_enabled := v\<rparr>), Q_FIELD_INT32 fiq_enabled (\<lambda>v s. s\<lparr>fiq_enabled := v\<rparr>), Q_FIELD_END]"

definition goldfish_int_save :: "goldfish_int_state \<Rightarrow> 'o QEMUFile \<Rightarrow> 'o QEMUFile comp" where
  "goldfish_int_save s f = qemu_put_struct goldfish_int_fields s f"

definition goldfish_int_load :: "goldfish_int_state \<Rightarrow> int \<Rightarrow> 'o QEMUFile \<Rightarrow> (int \<times> goldfish_int_state \<times> 'o QEMUFile) comp" where
  "goldfish_int_load s version_id f =
     (if version_id \<noteq> GOLDFISH_INT_SAVE_VERSION then ret (- 1, s, f) else qemu_get_struct goldfish_int_fields s f)"

section \<open>The bytes of a processor\<close>

definition vfp_code :: "CPUARMState \<Rightarrow> u8 list" where
  "vfp_code env =
     (if arm_feature env ARM_FEATURE_VFP then
        (concat (map be64 (map (vregs (vfp env)) [0..<16])) @ concat (map be32 (map (xregs (vfp env)) [0..<16])) @
         concat (map be32 [vec_len (vfp env), vec_stride (vfp env)])) @
        (if arm_feature env ARM_FEATURE_VFP3 then concat (map be64 (map (vregs (vfp env)) [16..<32])) else [])
      else [])"

definition iwmmxt_code :: "CPUARMState \<Rightarrow> u8 list" where
  "iwmmxt_code env =
     (if arm_feature env ARM_FEATURE_IWMMXT
      then concat (map be64 (map (iw_regs (iwmmxt env)) [0..<16])) @ concat (map be32 (map (iw_cregs (iwmmxt env)) [0..<16]))
      else [])"

definition cpu_code :: "CPUARMState \<Rightarrow> u8 list" where
  "cpu_code env =
     concat (map be32 (core_saved env)) @ concat (map be32 (cp15_saved (cp15 env))) @
     concat (map be32 [cp14_dbgdidr env, features env]) @ vfp_code env @ iwmmxt_code env @
     (if arm_feature env ARM_FEATURE_M then concat (map be32 (v7m_saved (v7m env))) else []) @
     (if arm_feature env ARM_FEATURE_THUMB2EE then concat (map be32 [teecr env, teehbr env]) else [])"

lemma doubles_code: "concat (map be32 (doubles r is)) = concat (map be64 (map r is))"
  by (induction "is") (simp_all add: doubles_def be64_def)

lemma get_double_be64: "get_double = qemu_get_be64"
  by (rule ext) (simp add: get_double_def qemu_get_be64_def)

context back_end
begin

lemma vfp_save_puts: "puts (writing put cl holds) (vfp_save env) (vfp_code env)"
proof -
  note d = be32.puts_each [of "doubles (vregs (vfp env)) [0..<16] @ map (xregs (vfp env)) [0..<16] @ [vec_len (vfp env), vec_stride (vfp env)]"]
  note e = be32.puts_each [of "doubles (vregs (vfp env)) [16..<32]"]
  from d e show ?thesis unfolding vfp_save_def vfp_code_def
    by (intro puts_if puts_bind) (simp_all only: map_append concat_append doubles_code)
qed

lemma cpu_save_puts: "puts (writing put cl holds) (cpu_save env) (cpu_code env)"
  unfolding cpu_save_def cpu_code_def iwmmxt_save_def iwmmxt_code_def
  by (intro puts_if puts_bind be32.puts_each be64.puts_each vfp_save_puts)

end

section \<open>What loading stores\<close>

lemma store_each_append: "length ps = length vs \<Longrightarrow> store_each (ps @ qs) (vs @ ws) s = store_each qs ws (store_each ps vs s)"
  by (induction ps vs arbitrary: s rule: list_induct2) auto

lemma store_array: "store_each (map element [0..<n]) (map r [0..<n]) a = (\<lambda>i. if i < n then r i else a i)"
proof (induction n)
  case (Suc n)
  then show ?case by (auto simp: store_each_append element_def)
qed simp

lemma store_high: "store_each (map element [0..<16]) (map r [16..<32]) a = (\<lambda>i. if i < 16 then r (i + 16) else a i)"
proof -
  have "[16..<32] = map (\<lambda>i. i + 16) [0..<16]" using map_add_upt [of 16 16] by simp
  then have "map r [16..<32] = map (\<lambda>i. r (i + 16)) [0..<16]" by (simp add: comp_def del: upt_rec_numeral)
  then show ?thesis by (simp only: store_array)
qed

text \<open>The status register is loaded without a change of mode.\<close>

lemma cpsr_reload:
  "\<exists>env'. cpsr_write val 0xFFFFFFFF (env\<lparr>uncached_cpsr := val AND CPSR_M\<rparr>) = ret env' \<and> cpsr_read env' = val \<and>
     env'\<lparr>uncached_cpsr := 0, NF := 0, ZF := 0, CF := 0, VF := 0, QF := 0, thumb := 0, condexec_bits := 0, GE := 0\<rparr> =
     env\<lparr>uncached_cpsr := 0, NF := 0, ZF := 0, CF := 0, VF := 0, QF := 0, thumb := 0, condexec_bits := 0, GE := 0\<rparr>"
proof -
  let ?c = "condexec_bits env AND NOT 3 OR drop_bit 25 val AND 3" and ?u = "val AND CPSR_M"
  let ?env4 = "env\<lparr>uncached_cpsr := ?u, ZF := NOT val AND CPSR_Z, NF := val, CF := drop_bit 29 val AND 1,
    VF := push_bit 3 val AND 0x80000000, QF := of_bool (val AND CPSR_Q \<noteq> 0), thumb := of_bool (val AND CPSR_T \<noteq> 0),
    condexec_bits := ((?c) AND 3) OR (drop_bit 8 val AND 0xFC), GE := drop_bit 16 val AND 0xF\<rparr>"
  let ?env' = "?env4\<lparr>uncached_cpsr := (?u AND CACHED_CPSR_BITS) OR (val AND NOT CACHED_CPSR_BITS)\<rparr>"
  have same: "(?u XOR val) AND CPSR_M = 0" by (auto simp: bit_eq_iff bit_simps)
  have m: "(0xFFFFFFFF :: u32) = - 1" by simp
  have "cpsr_write val (- 1) (env\<lparr>uncached_cpsr := ?u\<rparr>) = ret ?env'"
    using cpsr_masks_nonzero same by (simp add: cpsr_write_def write_nzcv_def write_q_def write_it_def Let_def)
  moreover have "?u AND CACHED_CPSR_BITS = 0"
    by (simp add: CPSR_M_def CACHED_CPSR_BITS_def cpsr_masks and.assoc)
  then have "cpsr_read ?env' = val"
    unfolding cpsr_read_def using cpsr_value_roundtrip [of ?u val "condexec_bits env"] by (simp only: or.assoc) simp
  ultimately show ?thesis unfolding m by (intro exI [of _ ?env']) simp
qed

text \<open>What of the processor comes back: the state saved, the state before loading, the state after it.\<close>

definition core_restored :: "CPUARMState \<Rightarrow> CPUARMState \<Rightarrow> bool" where
  "core_restored saved after \<longleftrightarrow>
     (\<forall>i<16. regs after i = regs saved i) \<and> cpsr_read after = cpsr_read saved \<and> spsr after = spsr saved \<and>
     (\<forall>i<6. banked_spsr after i = banked_spsr saved i \<and> banked_r13 after i = banked_r13 saved i \<and> banked_r14 after i = banked_r14 saved i) \<and>
     (\<forall>i<5. usr_regs after i = usr_regs saved i \<and> fiq_regs after i = fiq_regs saved i)"

text \<open>The rest of the state, which loading the core registers leaves as it was.\<close>

definition same_rest :: "CPUARMState \<Rightarrow> CPUARMState \<Rightarrow> bool" where
  "same_rest before after \<longleftrightarrow> cp15 after = cp15 before \<and> v7m after = v7m before \<and> vfp after = vfp before \<and>
     iwmmxt after = iwmmxt before \<and> teecr after = teecr before \<and> teehbr after = teehbr before \<and>
     halted after = halted before \<and> interrupt_request after = interrupt_request before \<and> tlb_table after = tlb_table before"

lemma store_core_2:
  assumes "core_saved saved = map (regs saved) [0..<16] @ cpsr_read saved # vs"
  shows "store_each core_loads_2 vs env = env\<lparr>spsr := spsr saved,
      banked_spsr := (\<lambda>i. if i < 6 then banked_spsr saved i else banked_spsr env i),
      banked_r13 := (\<lambda>i. if i < 6 then banked_r13 saved i else banked_r13 env i),
      banked_r14 := (\<lambda>i. if i < 6 then banked_r14 saved i else banked_r14 env i),
      usr_regs := (\<lambda>i. if i < 5 then usr_regs saved i else usr_regs env i),
      fiq_regs := (\<lambda>i. if i < 5 then fiq_regs saved i else fiq_regs env i)\<rparr>" "length core_loads_2 = length vs"
proof -
  have vs: "vs = spsr saved # concat (map (\<lambda>i. [banked_spsr saved i, banked_r13 saved i, banked_r14 saved i]) [0..<6]) @
     concat (map (\<lambda>i. [usr_regs saved i, fiq_regs saved i]) [0..<5])"
    using assms by (simp add: core_saved_def)
  have up: "[0..<6] = [0, 1, 2, 3, 4, 5]" "[0..<5] = [0, 1, 2, 3, 4]" by (simp_all add: upt_rec)
  have six: "(\<lambda>i. if i < 6 then g i else h i) = h(0 := g 0, 1 := g 1, 2 := g 2, 3 := g 3, 4 := g 4, 5 := g 5)"
    for g h :: "nat \<Rightarrow> u32" by (auto simp: fun_eq_iff less_Suc_eq eval_nat_numeral)
  have five: "(\<lambda>i. if i < 5 then g i else h i) = h(0 := g 0, 1 := g 1, 2 := g 2, 3 := g 3, 4 := g 4)"
    for g h :: "nat \<Rightarrow> u32" by (auto simp: fun_eq_iff less_Suc_eq eval_nat_numeral)
  show "store_each core_loads_2 vs env = env\<lparr>spsr := spsr saved,
      banked_spsr := (\<lambda>i. if i < 6 then banked_spsr saved i else banked_spsr env i),
      banked_r13 := (\<lambda>i. if i < 6 then banked_r13 saved i else banked_r13 env i),
      banked_r14 := (\<lambda>i. if i < 6 then banked_r14 saved i else banked_r14 env i),
      usr_regs := (\<lambda>i. if i < 5 then usr_regs saved i else usr_regs env i),
      fiq_regs := (\<lambda>i. if i < 5 then fiq_regs saved i else fiq_regs env i)\<rparr>"
    unfolding vs core_loads_2_def six five up by (simp add: element_def)
  show "length core_loads_2 = length vs" unfolding vs core_loads_2_def up by simp
qed

lemma store_cp15:
  "store_each cp15_loads (cp15_saved c) c0 = c\<lparr>c0_ccsid := c0_ccsid c0, c0_clid := c0_clid c0, c0_c1 := c0_c1 c0, c0_c2 := c0_c2 c0,
     c6_region := (\<lambda>i. if i < 8 then c6_region c i else c6_region c0 i), c12_vbar := c12_vbar c0, c12_mvbar := c12_mvbar c0,
     c15_ticonfig := c15_ticonfig c0, c15_i_max := c15_i_max c0, c15_i_min := c15_i_min c0, c15_threadid := c15_threadid c0\<rparr>"
  "length cp15_loads = length (cp15_saved c)"
proof -
  have up: "[0..<8] = [0, 1, 2, 3, 4, 5, 6, 7]" by (simp add: upt_rec)
  have eight: "(\<lambda>i. if i < 8 then g i else h i) = h(0 := g 0, 1 := g 1, 2 := g 2, 3 := g 3, 4 := g 4, 5 := g 5, 6 := g 6, 7 := g 7)"
    for g h :: "nat \<Rightarrow> u32" by (auto simp: fun_eq_iff less_Suc_eq eval_nat_numeral)
  show "store_each cp15_loads (cp15_saved c) c0 = c\<lparr>c0_ccsid := c0_ccsid c0, c0_clid := c0_clid c0, c0_c1 := c0_c1 c0, c0_c2 := c0_c2 c0,
     c6_region := (\<lambda>i. if i < 8 then c6_region c i else c6_region c0 i), c12_vbar := c12_vbar c0, c12_mvbar := c12_mvbar c0,
     c15_ticonfig := c15_ticonfig c0, c15_i_max := c15_i_max c0, c15_i_min := c15_i_min c0, c15_threadid := c15_threadid c0\<rparr>"
    unfolding eight by (cases c0; cases c) (simp add: cp15_loads_def cp15_saved_def element_def up)
  show "length cp15_loads = length (cp15_saved c)" by (simp add: cp15_loads_def cp15_saved_def)
qed

definition vfp_restored :: "CPUARMState \<Rightarrow> CPUARMState \<Rightarrow> CPUARMState" where
  "vfp_restored saved env =
     (if arm_feature saved ARM_FEATURE_VFP
      then env\<lparr>vfp := (vfp env)\<lparr>
             vregs := (\<lambda>i. if i < 16 then vregs (vfp saved) (if arm_feature saved ARM_FEATURE_VFP3 then i + 16 else i) else vregs (vfp env) i),
             xregs := (\<lambda>i. if i < 16 then xregs (vfp saved) i else xregs (vfp env) i),
             vec_len := vec_len (vfp saved), vec_stride := vec_stride (vfp saved)\<rparr>\<rparr>
      else env)"

definition iwmmxt_restored :: "CPUARMState \<Rightarrow> CPUARMState \<Rightarrow> CPUARMState" where
  "iwmmxt_restored saved env =
     (if arm_feature saved ARM_FEATURE_IWMMXT
      then env\<lparr>iwmmxt := (iwmmxt env)\<lparr>
             iw_regs := (\<lambda>i. if i < 16 then iw_regs (iwmmxt saved) i else iw_regs (iwmmxt env) i),
             iw_cregs := (\<lambda>i. if i < 16 then iw_cregs (iwmmxt saved) i else iw_cregs (iwmmxt env) i)\<rparr>\<rparr>
      else env)"

definition v7m_restored :: "CPUARMState \<Rightarrow> CPUARMState \<Rightarrow> CPUARMState" where
  "v7m_restored saved env =
     (if arm_feature saved ARM_FEATURE_M
      then env\<lparr>v7m := (v7m saved)\<lparr>pending_exception := pending_exception (v7m env)\<rparr>\<rparr> else env)"

definition thumb2ee_restored :: "CPUARMState \<Rightarrow> CPUARMState \<Rightarrow> CPUARMState" where
  "thumb2ee_restored saved env =
     (if arm_feature saved ARM_FEATURE_THUMB2EE then env\<lparr>teecr := teecr saved, teehbr := teehbr saved\<rparr> else env)"

lemma arm_feature_cong: "features env = features saved \<Longrightarrow> arm_feature env x = arm_feature saved x"
  by (simp add: arm_feature_def)

lemma restored_features [simp]:
  "features (vfp_restored saved env) = features env" "features (iwmmxt_restored saved env) = features env"
  "features (v7m_restored saved env) = features env"
  by (simp_all add: vfp_restored_def iwmmxt_restored_def v7m_restored_def)

lemma store_v7m:
  assumes "- (2 ^ 31) \<le> current_sp m" and "current_sp m < 2 ^ 31"
  shows "store_each v7m_loads (v7m_saved m) m0 = m\<lparr>pending_exception := pending_exception m0\<rparr>"
proof -
  have "sint (word_of_int (current_sp m) :: u32) = current_sp m"
    using assms by (simp add: int_word_sint)
  then show ?thesis by (cases m; cases m0) (simp add: v7m_loads_def v7m_saved_def)
qed

text \<open>
  The whole processor after loading: everything saved has its saved value, except that the doubles of a VFPv3 unit are those of
  \<open>vfp_restored\<close>; what is not saved is as it was before.
\<close>

definition cpu_restored :: "CPUARMState \<Rightarrow> CPUARMState \<Rightarrow> CPUARMState \<Rightarrow> bool" where
  "cpu_restored saved before after \<longleftrightarrow>
     core_restored saved after \<and>
     cp15 after = (cp15 saved)\<lparr>c0_ccsid := c0_ccsid (cp15 before), c0_clid := c0_clid (cp15 before),
       c0_c1 := c0_c1 (cp15 before), c0_c2 := c0_c2 (cp15 before),
       c6_region := (\<lambda>i. if i < 8 then c6_region (cp15 saved) i else c6_region (cp15 before) i),
       c12_vbar := c12_vbar (cp15 before), c12_mvbar := c12_mvbar (cp15 before), c15_ticonfig := c15_ticonfig (cp15 before),
       c15_i_max := c15_i_max (cp15 before), c15_i_min := c15_i_min (cp15 before), c15_threadid := c15_threadid (cp15 before)\<rparr> \<and>
     cp14_dbgdidr after = cp14_dbgdidr saved \<and> features after = features saved \<and>
     vfp after = vfp (vfp_restored saved before) \<and> iwmmxt after = iwmmxt (iwmmxt_restored saved before) \<and>
     v7m after = v7m (v7m_restored saved before) \<and>
     teecr after = teecr (thumb2ee_restored saved before) \<and> teehbr after = teehbr (thumb2ee_restored saved before) \<and>
     halted after = halted before \<and> interrupt_request after = interrupt_request before \<and> tlb_table after = tlb_table before"

lemma core_restored_frame [simp]:
  "core_restored saved (env\<lparr>cp15 := c\<rparr>) = core_restored saved env" "core_restored saved (env\<lparr>cp14_dbgdidr := w\<rparr>) = core_restored saved env"
  "core_restored saved (env\<lparr>features := w\<rparr>) = core_restored saved env" "core_restored saved (env\<lparr>vfp := v\<rparr>) = core_restored saved env"
  "core_restored saved (env\<lparr>iwmmxt := x\<rparr>) = core_restored saved env" "core_restored saved (env\<lparr>v7m := m\<rparr>) = core_restored saved env"
  "core_restored saved (env\<lparr>teecr := w\<rparr>) = core_restored saved env" "core_restored saved (env\<lparr>teehbr := w\<rparr>) = core_restored saved env"
  by (simp_all add: core_restored_def cpsr_read_def)

lemma vfp_frame [simp]:
  "core_restored s (vfp_restored saved env) = core_restored s env" "cp15 (vfp_restored saved env) = cp15 env"
  "cp14_dbgdidr (vfp_restored saved env) = cp14_dbgdidr env" "iwmmxt (vfp_restored saved env) = iwmmxt env"
  "v7m (vfp_restored saved env) = v7m env" "teecr (vfp_restored saved env) = teecr env" "teehbr (vfp_restored saved env) = teehbr env"
  "halted (vfp_restored saved env) = halted env" "interrupt_request (vfp_restored saved env) = interrupt_request env"
  "tlb_table (vfp_restored saved env) = tlb_table env"
  by (simp_all add: vfp_restored_def)

lemma iwmmxt_frame [simp]:
  "core_restored s (iwmmxt_restored saved env) = core_restored s env" "cp15 (iwmmxt_restored saved env) = cp15 env"
  "cp14_dbgdidr (iwmmxt_restored saved env) = cp14_dbgdidr env" "vfp (iwmmxt_restored saved env) = vfp env"
  "v7m (iwmmxt_restored saved env) = v7m env" "teecr (iwmmxt_restored saved env) = teecr env" "teehbr (iwmmxt_restored saved env) = teehbr env"
  "halted (iwmmxt_restored saved env) = halted env" "interrupt_request (iwmmxt_restored saved env) = interrupt_request env"
  "tlb_table (iwmmxt_restored saved env) = tlb_table env"
  by (simp_all add: iwmmxt_restored_def)

lemma v7m_frame [simp]:
  "core_restored s (v7m_restored saved env) = core_restored s env" "cp15 (v7m_restored saved env) = cp15 env"
  "cp14_dbgdidr (v7m_restored saved env) = cp14_dbgdidr env" "vfp (v7m_restored saved env) = vfp env"
  "iwmmxt (v7m_restored saved env) = iwmmxt env" "teecr (v7m_restored saved env) = teecr env" "teehbr (v7m_restored saved env) = teehbr env"
  "halted (v7m_restored saved env) = halted env" "interrupt_request (v7m_restored saved env) = interrupt_request env"
  "tlb_table (v7m_restored saved env) = tlb_table env"
  by (simp_all add: v7m_restored_def)

lemma thumb2ee_frame [simp]:
  "core_restored s (thumb2ee_restored saved env) = core_restored s env" "cp15 (thumb2ee_restored saved env) = cp15 env"
  "cp14_dbgdidr (thumb2ee_restored saved env) = cp14_dbgdidr env" "vfp (thumb2ee_restored saved env) = vfp env"
  "iwmmxt (thumb2ee_restored saved env) = iwmmxt env" "v7m (thumb2ee_restored saved env) = v7m env"
  "features (thumb2ee_restored saved env) = features env"
  "halted (thumb2ee_restored saved env) = halted env" "interrupt_request (thumb2ee_restored saved env) = interrupt_request env"
  "tlb_table (thumb2ee_restored saved env) = tlb_table env"
  by (simp_all add: thumb2ee_restored_def)

lemma restored_cong:
  "vfp env = vfp env' \<Longrightarrow> vfp (vfp_restored saved env) = vfp (vfp_restored saved env')"
  "iwmmxt env = iwmmxt env' \<Longrightarrow> iwmmxt (iwmmxt_restored saved env) = iwmmxt (iwmmxt_restored saved env')"
  "v7m env = v7m env' \<Longrightarrow> v7m (v7m_restored saved env) = v7m (v7m_restored saved env')"
  "teecr env = teecr env' \<Longrightarrow> teecr (thumb2ee_restored saved env) = teecr (thumb2ee_restored saved env')"
  "teehbr env = teehbr env' \<Longrightarrow> teehbr (thumb2ee_restored saved env) = teehbr (thumb2ee_restored saved env')"
  by (simp_all add: vfp_restored_def iwmmxt_restored_def v7m_restored_def thumb2ee_restored_def cong: if_cong)

lemma cpu_restoredI:
  assumes "core_restored saved env1" and "same_rest before env1"
  shows "cpu_restored saved before (thumb2ee_restored saved (v7m_restored saved (iwmmxt_restored saved (vfp_restored saved
    (env1\<lparr>cp15 := store_each cp15_loads (cp15_saved (cp15 saved)) (cp15 env1), cp14_dbgdidr := cp14_dbgdidr saved, features := features saved\<rparr>)))))"
  using assms unfolding cpu_restored_def same_rest_def store_cp15
  by (auto intro!: restored_cong cong: if_cong)

context back_end
begin

abbreviation source where "source \<equiv> reading get left False"

lemma core_load_gets:
  "\<exists>env1. gets source (core_load env0) (concat (map be32 (core_saved saved))) env1 \<and> core_restored saved env1 \<and> same_rest env0 env1"
proof -
  obtain vs where vs: "core_saved saved = map (regs saved) [0..<16] @ cpsr_read saved # vs"
    by (simp add: core_saved_def)
  let ?r = "\<lambda>i. if i < 16 then regs saved i else regs env0 i"
  obtain env1 where e: "cpsr_write (cpsr_read saved) 0xFFFFFFFF (env0\<lparr>regs := ?r, uncached_cpsr := cpsr_read saved AND CPSR_M\<rparr>) = ret env1"
      "cpsr_read env1 = cpsr_read saved"
      "env1\<lparr>uncached_cpsr := 0, NF := 0, ZF := 0, CF := 0, VF := 0, QF := 0, thumb := 0, condexec_bits := 0, GE := 0\<rparr> =
       env0\<lparr>regs := ?r, uncached_cpsr := 0, NF := 0, ZF := 0, CF := 0, VF := 0, QF := 0, thumb := 0, condexec_bits := 0, GE := 0\<rparr>"
    using cpsr_reload [of "cpsr_read saved" "env0\<lparr>regs := ?r\<rparr>"] by auto
  have "gets source (get32s core_loads_1 (regs env0)) (concat (map be32 (map (regs saved) [0..<16]))) ?r"
    using be32.gets_each [of "map (regs saved) [0..<16]" core_loads_1 "regs env0"] store_array [of 16 "regs saved" "regs env0"]
    by (simp add: core_loads_1_def list_all_iff del: upt_rec_numeral)
  moreover have "gets source (get32s core_loads_2 env1) (concat (map be32 vs)) (store_each core_loads_2 vs env1)"
    using store_core_2(2) [OF vs] by (intro be32.gets_each) (simp_all add: list_all_iff)
  ultimately have "gets source (core_load env0) (concat (map be32 (map (regs saved) [0..<16])) @ be32 (cpsr_read saved) @ concat (map be32 vs))
      (store_each core_loads_2 vs env1)"
    unfolding core_load_def
    by (intro gets_bind [where v = ?r] gets_bind [where v = "cpsr_read saved"] be32.gets_one) (simp_all add: e(1))
  moreover have "core_restored saved (store_each core_loads_2 vs env1)" "same_rest env0 (store_each core_loads_2 vs env1)"
    using e(2) arg_cong [OF e(3), of regs] arg_cong [OF e(3), of cp15] arg_cong [OF e(3), of v7m] arg_cong [OF e(3), of vfp]
      arg_cong [OF e(3), of iwmmxt] arg_cong [OF e(3), of teecr] arg_cong [OF e(3), of teehbr]
      arg_cong [OF e(3), of halted] arg_cong [OF e(3), of interrupt_request] arg_cong [OF e(3), of tlb_table]
    unfolding store_core_2(1) [OF vs] by (simp_all add: core_restored_def same_rest_def cpsr_read_def)
  ultimately show ?thesis by (auto simp: vs)
qed

lemma gets_array:
  "gets source (get32s (map element [0..<n]) a) (concat (map be32 (map r [0..<n]))) (\<lambda>i. if i < n then r i else a i)"
  "gets source (get_each qemu_get_be64 (map element [0..<n]) b) (concat (map be64 (map w [0..<n]))) (\<lambda>i. if i < n then w i else b i)"
  using be32.gets_each [of "map r [0..<n]" "map element [0..<n]" a] be64.gets_each [of "map w [0..<n]" "map element [0..<n]" b]
  by (simp_all add: store_array list_all_iff)

lemma gets_high:
  "gets source (get_each qemu_get_be64 (map element [0..<16]) b) (concat (map be64 (map w [16..<32]))) (\<lambda>i. if i < 16 then w (i + 16) else b i)"
  using be64.gets_each [of "map w [16..<32]" "map element [0..<16]" b] unfolding store_high
  by (simp add: list_all_iff del: upt_rec_numeral)

lemma vfp_load_gets:
  assumes "features env = features saved"
  shows "gets source (vfp_load env) (vfp_code saved) (vfp_restored saved env)"
proof -
  let ?r = "\<lambda>i. if i < 16 then vregs (vfp saved) i else vregs (vfp env) i"
  let ?x = "\<lambda>i. if i < 16 then xregs (vfp saved) i else xregs (vfp env) i"
  let ?s = "(vfp env)\<lparr>vregs := ?r, xregs := ?x, vec_len := vec_len (vfp saved), vec_stride := vec_stride (vfp saved)\<rparr>"
  let ?r' = "\<lambda>i. if i < 16 then vregs (vfp saved) (i + 16) else vregs ?s i"
  have len: "gets source (get32s [\<lambda>v s. s\<lparr>vec_len := v\<rparr>, \<lambda>v s. s\<lparr>vec_stride := v\<rparr>] ((vfp env)\<lparr>vregs := ?r, xregs := ?x\<rparr>))
      (concat (map be32 [vec_len (vfp saved), vec_stride (vfp saved)])) ?s"
    using be32.gets_each [of "[vec_len (vfp saved), vec_stride (vfp saved)]"
        "[\<lambda>v s. s\<lparr>vec_len := v\<rparr>, \<lambda>v s. s\<lparr>vec_stride := v\<rparr>]" "(vfp env)\<lparr>vregs := ?r, xregs := ?x\<rparr>"] by simp
  have high: "gets source (\<lambda>f. if arm_feature saved ARM_FEATURE_VFP3
        then comp_bind (get_each qemu_get_be64 (map element [0..<16]) (vregs ?s) f) (\<lambda>(r', f4). ret (env\<lparr>vfp := ?s\<lparr>vregs := r'\<rparr>\<rparr>, f4))
        else ret (env\<lparr>vfp := ?s\<rparr>, f))
      (if arm_feature saved ARM_FEATURE_VFP3 then concat (map be64 (map (vregs (vfp saved)) [16..<32])) else [])
      (if arm_feature saved ARM_FEATURE_VFP3 then env\<lparr>vfp := ?s\<lparr>vregs := ?r'\<rparr>\<rparr> else env\<lparr>vfp := ?s\<rparr>)"
    by (intro gets_if gets_map [where h = "\<lambda>r'. env\<lparr>vfp := ?s\<lparr>vregs := r'\<rparr>\<rparr>"] gets_high)
  have "gets source (vfp_load env) (vfp_code saved) (if arm_feature saved ARM_FEATURE_VFP
      then if arm_feature saved ARM_FEATURE_VFP3 then env\<lparr>vfp := ?s\<lparr>vregs := ?r'\<rparr>\<rparr> else env\<lparr>vfp := ?s\<rparr> else env)"
    unfolding vfp_load_def vfp_code_def get_double_be64 arm_feature_cong [OF assms] append.assoc
    by (intro gets_if gets_bind [where v = ?r] gets_bind [where v = ?x] gets_bind [where v = ?s] gets_array len high)
  moreover have "(if arm_feature saved ARM_FEATURE_VFP
      then if arm_feature saved ARM_FEATURE_VFP3 then env\<lparr>vfp := ?s\<lparr>vregs := ?r'\<rparr>\<rparr> else env\<lparr>vfp := ?s\<rparr> else env) = vfp_restored saved env"
    by (auto simp: vfp_restored_def fun_eq_iff)
  ultimately show ?thesis by simp
qed

lemma iwmmxt_load_gets:
  assumes "features env = features saved"
  shows "gets source (iwmmxt_load env) (iwmmxt_code saved) (iwmmxt_restored saved env)"
  unfolding iwmmxt_load_def iwmmxt_code_def iwmmxt_restored_def arm_feature_cong [OF assms]
  by (intro gets_if gets_bind [where v = "\<lambda>i. if i < 16 then iw_regs (iwmmxt saved) i else iw_regs (iwmmxt env) i"] gets_array
      gets_map [where h = "\<lambda>x. env\<lparr>iwmmxt := (iwmmxt env)\<lparr>iw_regs := _, iw_cregs := x\<rparr>\<rparr>"])

lemma v7m_load_gets:
  assumes "features env = features saved" and "- (2 ^ 31) \<le> current_sp (v7m saved)" and "current_sp (v7m saved) < 2 ^ 31"
  shows "gets source (v7m_load env) (if arm_feature saved ARM_FEATURE_M then concat (map be32 (v7m_saved (v7m saved))) else [])
    (v7m_restored saved env)"
proof -
  have "gets source (get32s v7m_loads (v7m env)) (concat (map be32 (v7m_saved (v7m saved))))
      ((v7m saved)\<lparr>pending_exception := pending_exception (v7m env)\<rparr>)"
    using be32.gets_each [of "v7m_saved (v7m saved)" v7m_loads "v7m env"] store_v7m [OF assms(2,3)]
    by (simp add: v7m_loads_def v7m_saved_def)
  then show ?thesis unfolding v7m_load_def v7m_restored_def arm_feature_cong [OF assms(1)]
    by (intro gets_if gets_map [where h = "\<lambda>m. env\<lparr>v7m := m\<rparr>"])
qed

lemma thumb2ee_load_gets:
  assumes "features env = features saved"
  shows "gets source (thumb2ee_load env) (if arm_feature saved ARM_FEATURE_THUMB2EE then concat (map be32 [teecr saved, teehbr saved]) else [])
    (thumb2ee_restored saved env)"
proof -
  have "gets source (get32s [\<lambda>v env. env\<lparr>teecr := v\<rparr>, \<lambda>v env. env\<lparr>teehbr := v\<rparr>] env) (concat (map be32 [teecr saved, teehbr saved]))
      (env\<lparr>teecr := teecr saved, teehbr := teehbr saved\<rparr>)"
    using be32.gets_each [of "[teecr saved, teehbr saved]" "[\<lambda>v env. env\<lparr>teecr := v\<rparr>, \<lambda>v env. env\<lparr>teehbr := v\<rparr>]" env] by simp
  then show ?thesis unfolding thumb2ee_load_def thumb2ee_restored_def arm_feature_cong [OF assms] by (intro gets_if)
qed

lemma cpu_load_code:
  assumes "source f (cpu_code saved @ bs)" and "- (2 ^ 31) \<le> current_sp (v7m saved)" and "current_sp (v7m saved) < 2 ^ 31"
  shows "\<exists>env' f'. cpu_load env0 CPU_SAVE_VERSION f = ret (0, env', f') \<and> source f' bs \<and> cpu_restored saved env0 env'"
proof -
  obtain env1 where core: "gets source (core_load env0) (concat (map be32 (core_saved saved))) env1"
      and same: "core_restored saved env1" "same_rest env0 env1"
    using core_load_gets by blast
  define c where "c = store_each cp15_loads (cp15_saved (cp15 saved)) (cp15 env1)"
  define env2 where "env2 = env1\<lparr>cp15 := c, cp14_dbgdidr := cp14_dbgdidr saved, features := features saved\<rparr>"
  have f2: "features env2 = features saved" by (simp add: env2_def)
  have cp15: "gets source (get32s cp15_loads (cp15 env1)) (concat (map be32 (cp15_saved (cp15 saved)))) c"
    unfolding c_def using store_cp15(2) by (intro be32.gets_each) (simp_all add: list_all_iff)
  have feat: "gets source (get32s [\<lambda>v env. env\<lparr>cp14_dbgdidr := v\<rparr>, \<lambda>v env. env\<lparr>features := v\<rparr>] (env1\<lparr>cp15 := c\<rparr>))
      (concat (map be32 [cp14_dbgdidr saved, features saved])) env2"
    using be32.gets_each [of "[cp14_dbgdidr saved, features saved]"
        "[\<lambda>v env. env\<lparr>cp14_dbgdidr := v\<rparr>, \<lambda>v env. env\<lparr>features := v\<rparr>]" "env1\<lparr>cp15 := c\<rparr>"] by (simp add: env2_def)
  let ?env3 = "vfp_restored saved env2" let ?env4 = "iwmmxt_restored saved ?env3" let ?env5 = "v7m_restored saved ?env4"
  have "gets source (cpu_load_fields env0) (cpu_code saved) (thumb2ee_restored saved ?env5)"
    unfolding cpu_load_fields_def cpu_code_def using f2 assms(2,3)
    by (intro gets_bind [where v = env1] gets_bind [where v = c] gets_bind [where v = env2]
        gets_bind [where v = ?env3] gets_bind [where v = ?env4] gets_bind [where v = ?env5]
        core cp15 feat vfp_load_gets iwmmxt_load_gets v7m_load_gets thumb2ee_load_gets) simp_all
  from getsD [OF this assms(1)] cpu_restoredI [OF same] show ?thesis
    by (auto simp: cpu_load_def env2_def c_def)
qed

end

section \<open>Properties\<close>

lemma length_cpu_code: "length (cpu_code env) \<le> 908"
  by (simp add: cpu_code_def vfp_code_def iwmmxt_code_def core_saved_def cp15_saved_def v7m_saved_def
      length_concat comp_def sum_list_triv)

lemma cpu_through_file:
  assumes "908 \<le> space" and "- (2 ^ 31) \<le> current_sp (v7m env)" and "current_sp (v7m env) < 2 ^ 31"
  shows "\<exists>f f1 fp g g1 env'. qemu_fopen dir space name ''wb'' = Some f \<and> cpu_save env f = ret f1 \<and> qemu_fclose f1 = (0, fp) \<and>
    qemu_fopen (dir(name \<mapsto> file_bytes fp)) space name ''rb'' = Some g \<and>
    cpu_load env0 CPU_SAVE_VERSION g = ret (0, env', g1) \<and> \<not> qemu_file_has_error g1 \<and> cpu_restored env env0 env'"
proof -
  obtain f where f: "qemu_fopen dir space name ''wb'' = Some f" "saving f [] (length (cpu_code env) + 0)"
    using fopen_wb [of "length (cpu_code env) + 0" space] length_cpu_code [of env] assms(1) by auto
  obtain f1 where f1: "cpu_save env f = ret f1" "saving f1 ([] @ cpu_code env) 0"
    using putsD [OF seekable.cpu_save_puts f(2)] by blast
  obtain fp g where g: "qemu_fclose f1 = (0, fp)" "qemu_fopen (dir(name \<mapsto> file_bytes fp)) space name ''rb'' = Some g"
      "loading False g (cpu_code env @ [])"
    using fclose_then_fopen [OF f1(2)] by (metis append.left_neutral append_Nil2)
  obtain env' g1 where l: "cpu_load env0 CPU_SAVE_VERSION g = ret (0, env', g1)" "loading False g1 []" "cpu_restored env env0 env'"
    using seekable.cpu_load_code [OF g(3) assms(2,3), of env0] by blast
  have "\<not> qemu_file_has_error g1" using l(2) by (simp add: reading_def qemu_file_has_error_def)
  with f(1) f1(1) g(1,2) l(1,3) show ?thesis by auto
qed

text \<open>
  C18. A processor comes back from a snapshot: saved into a file with room for it, closed, opened and loaded over a processor in any
  state, it has the general registers, the status registers, the banked registers, the saved registers of the coprocessors and
  the features it was saved with. What is not saved keeps its value from before: in the system control coprocessor the base of the exception
  vectors (\<open>c12_vbar\<close>, \<open>c12_mvbar\<close>) and the identification and OMAP registers. The double registers come back unless the unit is a VFPv3 unit.
\<close>

theorem cpu_snapshot_roundtrip:
  assumes "908 \<le> space" and "- (2 ^ 31) \<le> current_sp (v7m env)" and "current_sp (v7m env) < 2 ^ 31"
  shows "\<exists>f f1 fp g g1 env'. qemu_fopen dir space name ''wb'' = Some f \<and> cpu_save env f = ret f1 \<and> qemu_fclose f1 = (0, fp) \<and>
    qemu_fopen (dir(name \<mapsto> file_bytes fp)) space name ''rb'' = Some g \<and>
    cpu_load env0 CPU_SAVE_VERSION g = ret (0, env', g1) \<and> \<not> qemu_file_has_error g1 \<and> cpu_restored env env0 env'"
  by (rule cpu_through_file [OF assms])

theorem cpu_snapshot_roundtrip_witness:
  "\<exists>f f1 fp g g1 env'. qemu_fopen Map.empty 1000 ''snap'' ''wb'' = Some f \<and> cpu_save reset_env f = ret f1 \<and> qemu_fclose f1 = (0, fp) \<and>
    qemu_fopen (Map.empty(''snap'' \<mapsto> file_bytes fp)) 1000 ''snap'' ''rb'' = Some g \<and>
    cpu_load reset_env CPU_SAVE_VERSION g = ret (0, env', g1) \<and> \<not> qemu_file_has_error g1 \<and> cpu_restored reset_env reset_env env'"
  by (rule cpu_snapshot_roundtrip) (simp_all add: reset_env_def zero_v7m_def)

text \<open>
  C38. The doubles of a VFPv3 unit do not come back: registers 16 to 31 are saved last and loaded into registers 0 to 15, which loses
  the values those had, and registers 16 to 31 keep the values they had before loading.
\<close>

theorem vfp3_snapshot_misplaced:
  assumes "arm_feature env ARM_FEATURE_VFP" and "arm_feature env ARM_FEATURE_VFP3" and "908 \<le> space"
    and "- (2 ^ 31) \<le> current_sp (v7m env)" and "current_sp (v7m env) < 2 ^ 31"
  shows "\<exists>f f1 fp g g1 env'. qemu_fopen dir space name ''wb'' = Some f \<and> cpu_save env f = ret f1 \<and> qemu_fclose f1 = (0, fp) \<and>
    qemu_fopen (dir(name \<mapsto> file_bytes fp)) space name ''rb'' = Some g \<and> cpu_load env0 CPU_SAVE_VERSION g = ret (0, env', g1) \<and>
    (\<forall>i<16. vregs (vfp env') i = vregs (vfp env) (i + 16)) \<and> (\<forall>i\<ge>16. vregs (vfp env') i = vregs (vfp env0) i)"
proof -
  have "cpu_restored env env0 env' \<Longrightarrow>
      (\<forall>i<16. vregs (vfp env') i = vregs (vfp env) (i + 16)) \<and> (\<forall>i\<ge>16. vregs (vfp env') i = vregs (vfp env0) i)" for env'
    using assms(1,2) by (simp add: cpu_restored_def vfp_restored_def)
  with cpu_through_file [OF assms(3-5), of dir name env0] show ?thesis by blast
qed

theorem vfp3_snapshot_misplaced_witness:
  "\<exists>f f1 fp g g1 env'. qemu_fopen Map.empty 1000 ''snap'' ''wb'' = Some f \<and> cpu_save (reset_env\<lparr>features := 0x201\<rparr>) f = ret f1 \<and>
    qemu_fclose f1 = (0, fp) \<and> qemu_fopen (Map.empty(''snap'' \<mapsto> file_bytes fp)) 1000 ''snap'' ''rb'' = Some g \<and>
    cpu_load reset_env CPU_SAVE_VERSION g = ret (0, env', g1) \<and>
    (\<forall>i<16. vregs (vfp env') i = vregs (vfp (reset_env\<lparr>features := 0x201\<rparr>)) (i + 16)) \<and>
    (\<forall>i\<ge>16. vregs (vfp env') i = vregs (vfp reset_env) i)"
  by (rule vfp3_snapshot_misplaced) (simp_all add: reset_env_def zero_v7m_def arm_feature_def)

end
