(* ===== verification/Savevm.thy ===== *)
theory Savevm
  imports Cpu_Snapshot
begin

unbundle bit_operations_syntax

text \<open>
  The snapshot of the whole machine (savevm.c): every part of the machine registers an entry with the functions that save and
  load it; \<open>qemu_savevm_state\<close> writes a header and one section after the other, \<open>qemu_loadvm_state\<close> reads the sections and
  finds the entry of each by its name and instance number.

  An entry is a contract between the machine and the part: what its save function puts, its load function must take. The contract
  is the locale \<open>snapshot_section\<close>; the processor and the interrupt controller interpret it, and the theorem on the whole snapshot
  holds for every list of entries that satisfy it.
\<close>

section \<open>The list of entries\<close>

definition EIO :: int where "EIO = 5"
definition ENOTSUP :: int where "ENOTSUP = 95"

text \<open>
  The object that an entry saves (\<open>opaque\<close>) is a part of the machine state of type \<open>'w\<close>: its functions take and return the whole state.
  \<open>se_opaque\<close> is its address, by which \<open>unregister_savevm\<close> tells entries of the same name apart.
\<close>

record ('w, 'o) SaveStateEntry =
  idstr :: string
  instance_id :: int
  version_id :: int
  section_id :: int
  save_live_state :: "(int \<Rightarrow> 'w \<Rightarrow> 'o QEMUFile \<Rightarrow> (int \<times> 'w \<times> 'o QEMUFile) comp) option"
  save_state :: "('w \<Rightarrow> 'o QEMUFile \<Rightarrow> 'o QEMUFile comp) option"
  load_state :: "'w \<Rightarrow> int \<Rightarrow> 'o QEMUFile \<Rightarrow> (int \<times> 'w \<times> 'o QEMUFile) comp"
  se_opaque :: nat

record ('w, 'o) savevm_list =
  first_se :: "('w, 'o) SaveStateEntry list"
  global_section_id :: int

text \<open>The instance number for a part that has none of its own (\<open>-1\<close>): the loop over the list raises it above those in use.\<close>

definition free_instance :: "int \<Rightarrow> string \<Rightarrow> ('w, 'o) SaveStateEntry list \<Rightarrow> int \<Rightarrow> int" where
  "free_instance req name ses i0 =
     fold (\<lambda>e i. if req = - 1 \<and> name = idstr e \<and> i \<le> instance_id e then instance_id e + 1 else i) ses i0"

definition register_savevm_live ::
  "string \<Rightarrow> int \<Rightarrow> int \<Rightarrow> (int \<Rightarrow> 'w \<Rightarrow> 'o QEMUFile \<Rightarrow> (int \<times> 'w \<times> 'o QEMUFile) comp) option \<Rightarrow>
   ('w \<Rightarrow> 'o QEMUFile \<Rightarrow> 'o QEMUFile comp) option \<Rightarrow> ('w \<Rightarrow> int \<Rightarrow> 'o QEMUFile \<Rightarrow> (int \<times> 'w \<times> 'o QEMUFile) comp) \<Rightarrow> nat \<Rightarrow>
   ('w, 'o) savevm_list \<Rightarrow> int \<times> ('w, 'o) savevm_list" where
  "register_savevm_live name inst ver live save load op sl =
     (let ident = take 255 name;
          se = \<lparr>idstr = ident, instance_id = free_instance inst ident (first_se sl) (if inst = - 1 then 0 else inst),
                version_id = ver, section_id = global_section_id sl, save_live_state = live, save_state = save,
                load_state = load, se_opaque = op\<rparr>
      in (0, sl\<lparr>first_se := first_se sl @ [se], global_section_id := global_section_id sl + 1\<rparr>))"

definition register_savevm ::
  "string \<Rightarrow> int \<Rightarrow> int \<Rightarrow> ('w \<Rightarrow> 'o QEMUFile \<Rightarrow> 'o QEMUFile comp) option \<Rightarrow> ('w \<Rightarrow> int \<Rightarrow> 'o QEMUFile \<Rightarrow> (int \<times> 'w \<times> 'o QEMUFile) comp) \<Rightarrow>
   nat \<Rightarrow> ('w, 'o) savevm_list \<Rightarrow> int \<times> ('w, 'o) savevm_list" where
  "register_savevm name inst ver save load op sl = register_savevm_live name inst ver None save load op sl"

definition unregister_savevm :: "string \<Rightarrow> nat \<Rightarrow> ('w, 'o) savevm_list \<Rightarrow> ('w, 'o) savevm_list" where
  "unregister_savevm name op sl = sl\<lparr>first_se := filter (\<lambda>e. \<not> (idstr e = name \<and> se_opaque e = op)) (first_se sl)\<rparr>"

section \<open>Saving\<close>

definition QEMU_VM_FILE_MAGIC :: u32 where "QEMU_VM_FILE_MAGIC = 0x5145564D"
definition QEMU_VM_FILE_VERSION_COMPAT :: u32 where "QEMU_VM_FILE_VERSION_COMPAT = 2"
definition QEMU_VM_FILE_VERSION :: u32 where "QEMU_VM_FILE_VERSION = 3"
definition QEMU_VM_EOF :: u32 where "QEMU_VM_EOF = 0"
definition QEMU_VM_SECTION_START :: u32 where "QEMU_VM_SECTION_START = 1"
definition QEMU_VM_SECTION_PART :: u32 where "QEMU_VM_SECTION_PART = 2"
definition QEMU_VM_SECTION_END :: u32 where "QEMU_VM_SECTION_END = 3"
definition QEMU_VM_SECTION_FULL :: u32 where "QEMU_VM_SECTION_FULL = 4"

definition string_bytes :: "string \<Rightarrow> u8 list" where
  "string_bytes s = map (\<lambda>c. word_of_nat (of_char c)) s"

text \<open>The string that starts at the bytes read, up to a zero byte.\<close>

definition bytes_string :: "u8 list \<Rightarrow> string" where
  "bytes_string bs = map (\<lambda>b. char_of (unat b)) (takeWhile (\<lambda>b. b \<noteq> 0) bs)"

definition put_section_header :: "u32 \<Rightarrow> ('w, 'o) SaveStateEntry \<Rightarrow> 'o QEMUFile \<Rightarrow> 'o QEMUFile comp" where
  "put_section_header ty se f =
     comp_bind (qemu_put_byte ty f) (\<lambda>f1.
     comp_bind (qemu_put_be32 (word_of_int (section_id se)) f1) (\<lambda>f2.
     comp_bind (qemu_put_byte (of_nat (length (idstr se))) f2) (\<lambda>f3.
     comp_bind (qemu_put_buffer (string_bytes (idstr se)) f3) (\<lambda>f4.
     comp_bind (qemu_put_be32 (word_of_int (instance_id se)) f4) (qemu_put_be32 (word_of_int (version_id se)))))))"

definition put_part_header :: "u32 \<Rightarrow> ('w, 'o) SaveStateEntry \<Rightarrow> 'o QEMUFile \<Rightarrow> 'o QEMUFile comp" where
  "put_part_header ty se f = comp_bind (qemu_put_byte ty f) (qemu_put_be32 (word_of_int (section_id se)))"

text \<open>
  The loops over the entries with a live handler: the header of the section and the call of the handler with the stage. The number
  returned is the conjunction of what the handlers return, as \<open>qemu_savevm_state_iterate\<close> computes it.
\<close>

fun live_sections :: "(('w, 'o) SaveStateEntry \<Rightarrow> 'o QEMUFile \<Rightarrow> 'o QEMUFile comp) \<Rightarrow> int \<Rightarrow> ('w, 'o) SaveStateEntry list \<Rightarrow>
    'w \<Rightarrow> 'o QEMUFile \<Rightarrow> (bool \<times> 'w \<times> 'o QEMUFile) comp" where
  "live_sections header stage [] w f = ret (True, w, f)"
| "live_sections header stage (se # ses) w f =
     (case save_live_state se of
        None \<Rightarrow> live_sections header stage ses w f
      | Some live \<Rightarrow>
          comp_bind (header se f) (\<lambda>f1.
          comp_bind (live stage w f1) (\<lambda>(rc, w1, f2).
          comp_bind (live_sections header stage ses w1 f2) (\<lambda>(all, w2, f3). ret (rc \<noteq> 0 \<and> all, w2, f3)))))"

definition qemu_savevm_state_begin :: "('w, 'o) SaveStateEntry list \<Rightarrow> 'w \<Rightarrow> 'o QEMUFile \<Rightarrow> (int \<times> 'w \<times> 'o QEMUFile) comp" where
  "qemu_savevm_state_begin ses w f =
     comp_bind (qemu_put_be32 QEMU_VM_FILE_MAGIC f) (\<lambda>f1.
     comp_bind (qemu_put_be32 QEMU_VM_FILE_VERSION f1) (\<lambda>f2.
     comp_bind (live_sections (put_section_header QEMU_VM_SECTION_START) 1 ses w f2) (\<lambda>(_, w1, f3).
       ret (if qemu_file_has_error f3 then - EIO else 0, w1, f3))))"

definition qemu_savevm_state_iterate :: "('w, 'o) SaveStateEntry list \<Rightarrow> 'w \<Rightarrow> 'o QEMUFile \<Rightarrow> (int \<times> 'w \<times> 'o QEMUFile) comp" where
  "qemu_savevm_state_iterate ses w f =
     comp_bind (live_sections (put_part_header QEMU_VM_SECTION_PART) 2 ses w f) (\<lambda>(all, w1, f1).
       ret (if all then 1 else if qemu_file_has_error f1 then - EIO else 0, w1, f1))"

fun full_sections :: "('w, 'o) SaveStateEntry list \<Rightarrow> 'w \<Rightarrow> 'o QEMUFile \<Rightarrow> 'o QEMUFile comp" where
  "full_sections [] w f = ret f"
| "full_sections (se # ses) w f =
     (case save_state se of
        None \<Rightarrow> full_sections ses w f
      | Some save \<Rightarrow>
          comp_bind (put_section_header QEMU_VM_SECTION_FULL se f) (\<lambda>f1. comp_bind (save w f1) (full_sections ses w)))"

definition qemu_savevm_state_complete :: "('w, 'o) SaveStateEntry list \<Rightarrow> 'w \<Rightarrow> 'o QEMUFile \<Rightarrow> (int \<times> 'w \<times> 'o QEMUFile) comp" where
  "qemu_savevm_state_complete ses w f =
     comp_bind (live_sections (put_part_header QEMU_VM_SECTION_END) 3 ses w f) (\<lambda>(_, w1, f1).
     comp_bind (full_sections ses w1 f1) (\<lambda>f2.
     comp_bind (qemu_put_byte QEMU_VM_EOF f2) (\<lambda>f3.
       ret (if qemu_file_has_error f3 then - EIO else 0, w1, f3))))"

text \<open>The loop over the rounds of live sections; it ends with a round in which every handler reports that it is done.\<close>

partial_function (option) iterate_loop :: "('w, 'o) SaveStateEntry list \<Rightarrow> 'w \<Rightarrow> 'o QEMUFile \<Rightarrow> (int \<times> 'w \<times> 'o QEMUFile) comp" where
  "iterate_loop ses w f =
     comp_bind (qemu_savevm_state_iterate ses w f) (\<lambda>(rc, w1, f1).
       if rc = 0 then iterate_loop ses w1 f1 else ret (rc, w1, f1))"

text \<open>Stopping and starting the processor and flushing the disks are functions on the machine state.\<close>

record 'w run_state =
  vm_running :: "'w \<Rightarrow> bool"
  vm_stop :: "'w \<Rightarrow> 'w"
  vm_start :: "'w \<Rightarrow> 'w"
  bdrv_flush_all :: "'w \<Rightarrow> 'w"

definition qemu_savevm_state :: "'w run_state \<Rightarrow> ('w, 'o) SaveStateEntry list \<Rightarrow> 'w \<Rightarrow> 'o QEMUFile \<Rightarrow> (int \<times> 'w \<times> 'o QEMUFile) comp" where
  "qemu_savevm_state rs ses w f =
     (let w0 = bdrv_flush_all rs (vm_stop rs w) in
      comp_bind (comp_bind (qemu_savevm_state_begin ses w0 f) (\<lambda>(rc, w1, f1).
        if rc < 0 then ret (rc, w1, f1)
        else comp_bind (iterate_loop ses w1 f1) (\<lambda>(rc, w2, f2).
          if rc < 0 then ret (rc, w2, f2) else qemu_savevm_state_complete ses w2 f2))) (\<lambda>(rc, w3, f3).
        let rc' = (if qemu_file_has_error f3 then - EIO else rc)
        in ret (rc', if rc' = 0 \<and> vm_running rs w then vm_start rs w3 else w3, f3)))"

section \<open>Loading\<close>

definition find_se :: "('w, 'o) SaveStateEntry list \<Rightarrow> string \<Rightarrow> int \<Rightarrow> ('w, 'o) SaveStateEntry option" where
  "find_se ses name inst = find (\<lambda>e. idstr e = name \<and> inst = instance_id e) ses"

record ('w, 'o) LoadStateEntry =
  le_se :: "('w, 'o) SaveStateEntry"
  le_section_id :: u32
  le_version_id :: u32

text \<open>
  The header of a section. Bytes that a file that is cut does not deliver are not initialised in the buffer for the name; the
  model takes the name to end there (the error of the file is reported in any case).
\<close>

definition get_section_header :: "'o QEMUFile \<Rightarrow> ((u32 \<times> string \<times> u32 \<times> u32) \<times> 'o QEMUFile) comp" where
  "get_section_header f =
     comp_bind (qemu_get_be32 f) (\<lambda>(sid, f1).
     comp_bind (qemu_get_byte f1) (\<lambda>(len, f2).
     comp_bind (qemu_get_buffer (unat len) f2) (\<lambda>(name, f3).
     comp_bind (qemu_get_be32 f3) (\<lambda>(inst, f4).
     comp_bind (qemu_get_be32 f4) (\<lambda>(ver, f5).
       ret ((sid, bytes_string name, inst, ver), f5))))))"

partial_function (option) load_sections ::
  "('w, 'o) SaveStateEntry list \<Rightarrow> ('w, 'o) LoadStateEntry list \<Rightarrow> 'w \<Rightarrow> 'o QEMUFile \<Rightarrow> (int \<times> 'w \<times> 'o QEMUFile) comp" where
  "load_sections ses les w f =
     comp_bind (qemu_get_byte f) (\<lambda>(ty, f1).
       if ty = QEMU_VM_EOF then ret (0, w, f1)
       else if ty = QEMU_VM_SECTION_START \<or> ty = QEMU_VM_SECTION_FULL then
         comp_bind (get_section_header f1) (\<lambda>((sid, name, inst, ver), f2).
           case find_se ses name (sint inst) of
             None \<Rightarrow> ret (- EINVAL, w, f2)
           | Some se \<Rightarrow>
               if word_of_int (version_id se) < ver then ret (- EINVAL, w, f2)
               else comp_bind (load_state se w (sint ver) f2) (\<lambda>(rc, w1, f3).
                 if rc \<noteq> 0 then ret (- EINVAL, w1, f3)
                 else load_sections ses (\<lparr>le_se = se, le_section_id = sid, le_version_id = ver\<rparr> # les) w1 f3))
       else if ty = QEMU_VM_SECTION_PART \<or> ty = QEMU_VM_SECTION_END then
         comp_bind (qemu_get_be32 f1) (\<lambda>(sid, f2).
           case find (\<lambda>le. le_section_id le = sid) les of
             None \<Rightarrow> ret (- EINVAL, w, f2)
           | Some le \<Rightarrow>
               comp_bind (load_state (le_se le) w (sint (le_version_id le)) f2) (\<lambda>(_, w1, f3). load_sections ses les w1 f3))
       else ret (- EINVAL, w, f1))"

text \<open>The older format: a total length, and records with their length, after each of which the file is set to its end.\<close>

definition c_int64 :: "int \<Rightarrow> int comp" where
  "c_int64 x = (if - (2 ^ 63) \<le> x \<and> x < 2 ^ 63 then ret x else raise IntOverflow)"

partial_function (option) load_records ::
  "('w, 'o) SaveStateEntry list \<Rightarrow> int \<Rightarrow> 'w \<Rightarrow> 'o QEMUFile \<Rightarrow> (int \<times> 'w \<times> 'o QEMUFile) comp" where
  "load_records ses end_pos w f =
     (if end_pos \<le> qemu_ftell f then ret (if qemu_file_has_error f then - EIO else 0, w, f)
      else comp_bind (qemu_get_byte f) (\<lambda>(len, f1).
           comp_bind (qemu_get_buffer (unat len) f1) (\<lambda>(name, f2).
           comp_bind (qemu_get_be32 f2) (\<lambda>(inst, f3).
           comp_bind (qemu_get_be32 f3) (\<lambda>(ver, f4).
           comp_bind (qemu_get_be32 f4) (\<lambda>(record_len, f5).
           comp_bind (c_int64 (qemu_ftell f5 + sint record_len)) (\<lambda>next_pos.
           comp_bind (case find_se ses (bytes_string name) (sint inst) of
                        None \<Rightarrow> ret (0, w, f5)
                      | Some se \<Rightarrow> load_state se w (sint ver) f5) (\<lambda>(rc, w1, f6).
             if rc < 0 then ret (rc, w1, f6)
             else load_records ses end_pos w1 (snd (qemu_fseek next_pos SEEK_SET f6))))))))))"

definition qemu_loadvm_state_v2 :: "('w, 'o) SaveStateEntry list \<Rightarrow> 'w \<Rightarrow> 'o QEMUFile \<Rightarrow> (int \<times> 'w \<times> 'o QEMUFile) comp" where
  "qemu_loadvm_state_v2 ses w f =
     comp_bind (qemu_get_be64 f) (\<lambda>(total_len, f1).
     comp_bind (c_int64 (sint total_len + qemu_ftell f1)) (\<lambda>end_pos. load_records ses end_pos w f1))"

definition qemu_loadvm_state :: "('w, 'o) SaveStateEntry list \<Rightarrow> 'w \<Rightarrow> 'o QEMUFile \<Rightarrow> (int \<times> 'w \<times> 'o QEMUFile) comp" where
  "qemu_loadvm_state ses w f =
     comp_bind (qemu_get_be32 f) (\<lambda>(v, f1).
       if v \<noteq> QEMU_VM_FILE_MAGIC then ret (- EINVAL, w, f1)
       else comp_bind (qemu_get_be32 f1) (\<lambda>(v, f2).
         if v = QEMU_VM_FILE_VERSION_COMPAT then qemu_loadvm_state_v2 ses w f2
         else if v \<noteq> QEMU_VM_FILE_VERSION then ret (- ENOTSUP, w, f2)
         else comp_bind (load_sections ses [] w f2) (\<lambda>(rc, w1, f3).
           ret (if qemu_file_has_error f3 then - EIO else rc, w1, f3))))"

section \<open>The entries of the processor and the interrupt controller\<close>

definition CPU_COMMON_SAVE_VERSION :: int where "CPU_COMMON_SAVE_VERSION = 1"

definition cpu_common_save :: "CPUARMState \<Rightarrow> 'o QEMUFile \<Rightarrow> 'o QEMUFile comp" where
  "cpu_common_save env f = comp_bind (qemu_put_be32 (halted env) f) (qemu_put_be32 (interrupt_request env))"

definition cpu_common_load :: "CPUARMState \<Rightarrow> int \<Rightarrow> 'o QEMUFile \<Rightarrow> (int \<times> CPUARMState \<times> 'o QEMUFile) comp" where
  "cpu_common_load env ver f =
     (if ver \<noteq> CPU_COMMON_SAVE_VERSION then ret (- EINVAL, env, f)
      else comp_bind (qemu_get_be32 f) (\<lambda>(h, f1).
           comp_bind (qemu_get_be32 f1) (\<lambda>(ir, f2).
             ret (0, tlb_flush (env\<lparr>halted := h, interrupt_request := ir AND NOT 1\<rparr>), f2))))"

text \<open>A machine with one processor and its interrupt controller; the functions of an entry work on their part of it.\<close>

type_synonym board = "CPUARMState \<times> goldfish_int_state"

definition cpu_part :: "(CPUARMState \<Rightarrow> int \<Rightarrow> 'o QEMUFile \<Rightarrow> (int \<times> CPUARMState \<times> 'o QEMUFile) comp) \<Rightarrow>
    board \<Rightarrow> int \<Rightarrow> 'o QEMUFile \<Rightarrow> (int \<times> board \<times> 'o QEMUFile) comp" where
  "cpu_part load w ver f = comp_bind (load (fst w) ver f) (\<lambda>(rc, env, f1). ret (rc, (env, snd w), f1))"

definition int_part :: "(goldfish_int_state \<Rightarrow> int \<Rightarrow> 'o QEMUFile \<Rightarrow> (int \<times> goldfish_int_state \<times> 'o QEMUFile) comp) \<Rightarrow>
    board \<Rightarrow> int \<Rightarrow> 'o QEMUFile \<Rightarrow> (int \<times> board \<times> 'o QEMUFile) comp" where
  "int_part load w ver f = comp_bind (load (snd w) ver f) (\<lambda>(rc, p, f1). ret (rc, (fst w, p), f1))"

text \<open>What \<open>cpu_exec_init\<close> registers for a processor, and \<open>goldfish_int\<close> for itself.\<close>

definition register_cpu :: "int \<Rightarrow> nat \<Rightarrow> (board, 'o) savevm_list \<Rightarrow> (board, 'o) savevm_list" where
  "register_cpu idx env_addr sl =
     snd (register_savevm ''cpu'' idx CPU_SAVE_VERSION (Some (\<lambda>w. cpu_save (fst w))) (cpu_part cpu_load) env_addr
       (snd (register_savevm ''cpu_common'' idx CPU_COMMON_SAVE_VERSION (Some (\<lambda>w. cpu_common_save (fst w)))
          (cpu_part cpu_common_load) env_addr sl)))"

definition register_int :: "nat \<Rightarrow> (board, 'o) savevm_list \<Rightarrow> (board, 'o) savevm_list" where
  "register_int addr sl =
     snd (register_savevm ''goldfish_int'' 0 GOLDFISH_INT_SAVE_VERSION (Some (\<lambda>w. goldfish_int_save (snd w))) (int_part goldfish_int_load) addr sl)"

definition board_entries :: "(board, 'o) SaveStateEntry list" where
  "board_entries = first_se (register_int 2 (register_cpu 0 1 \<lparr>first_se = [], global_section_id = 0\<rparr>))"

section \<open>Headers\<close>

definition header_ok :: "('w, 'o) SaveStateEntry \<Rightarrow> bool" where
  "header_ok se \<longleftrightarrow> length (idstr se) < 256 \<and> CHR 0x00 \<notin> set (idstr se) \<and>
     - (2 ^ 31) \<le> instance_id se \<and> instance_id se < 2 ^ 31 \<and> - (2 ^ 31) \<le> version_id se \<and> version_id se < 2 ^ 31"

definition header_code :: "('w, 'o) SaveStateEntry \<Rightarrow> u8 list" where
  "header_code se = be32 (word_of_int (section_id se)) @ [of_nat (length (idstr se))] @ string_bytes (idstr se) @
     be32 (word_of_int (instance_id se)) @ be32 (word_of_int (version_id se))"

lemma sint_u32: "- (2 ^ 31) \<le> i \<Longrightarrow> i < 2 ^ 31 \<Longrightarrow> sint (word_of_int i :: u32) = i"
  by (simp add: int_word_sint)

lemma of_char_u8: "unat (word_of_nat (of_char c) :: u8) = of_char c"
proof -
  have "(of_char c :: nat) < 256" using of_char_mod_256 [of c, where 'a = nat] by (metis mod_less_divisor zero_less_numeral)
  then show ?thesis by (simp add: unsigned_of_nat take_bit_nat_eq_self)
qed

lemma string_bytes_roundtrip: "CHR 0x00 \<notin> set s \<Longrightarrow> bytes_string (string_bytes s) = s"
proof (induction s)
  case (Cons c s)
  have "(word_of_nat (of_char c) :: u8) \<noteq> 0"
  proof
    assume "(word_of_nat (of_char c) :: u8) = 0"
    then have "(of_char c :: nat) = 0" using of_char_u8 [of c] by simp
    then have "char_of (of_char c :: nat) = CHR 0x00" by (simp add: char_of_def)
    with Cons.prems show False by simp
  qed
  with Cons show ?case by (simp add: bytes_string_def string_bytes_def of_char_u8)
qed (simp add: bytes_string_def string_bytes_def)

lemma length_string_bytes [simp]: "length (string_bytes s) = length s"
  by (simp add: string_bytes_def)

lemma u8_of_length: "n < 256 \<Longrightarrow> ucast (of_nat n :: u32) = (of_nat n :: u8)" "n < 256 \<Longrightarrow> ucast (of_nat n :: u8) = (of_nat n :: u32)"
  "n < 256 \<Longrightarrow> unat (of_nat n :: u32) = n"
  by (auto simp: word_unat_eq_iff unsigned_ucast_eq unsigned_of_nat take_bit_nat_eq_self)

context back_end
begin

lemma section_header_puts:
  assumes "header_ok se"
  shows "puts (writing put cl holds) (put_section_header ty se) (ucast ty # header_code se)"
proof -
  have "puts (writing put cl holds) (put_section_header ty se)
    ([ucast ty] @ be32 (word_of_int (section_id se)) @ [ucast (of_nat (length (idstr se)) :: u32)] @ string_bytes (idstr se) @
     be32 (word_of_int (instance_id se)) @ be32 (word_of_int (version_id se)))"
    unfolding put_section_header_def
    by (intro puts_bind byte.puts_one be32.puts_one) (simp add: puts_def put_buffer_code)
  then show ?thesis using assms by (simp add: header_ok_def header_code_def u8_of_length)
qed

lemma section_header_gets:
  assumes "header_ok se"
  shows "gets source get_section_header (header_code se)
    (word_of_int (section_id se), idstr se, word_of_int (instance_id se), word_of_int (version_id se))"
proof -
  have n: "unat (of_nat (length (idstr se)) :: u32) = length (string_bytes (idstr se))" "(of_nat (length (idstr se)) :: u32) < 256"
    using assms by (simp_all add: header_ok_def u8_of_length word_less_nat_alt)
  have name: "gets source (qemu_get_buffer (unat (of_nat (length (idstr se)) :: u32))) (string_bytes (idstr se)) (string_bytes (idstr se))"
    unfolding n(1) gets_def by (blast intro: get_buffer_code)
  have "gets source get_section_header
      (be32 (word_of_int (section_id se)) @ [ucast (of_nat (length (idstr se)) :: u32)] @ string_bytes (idstr se) @
       be32 (word_of_int (instance_id se)) @ be32 (word_of_int (version_id se)) @ [])
      (word_of_int (section_id se), bytes_string (string_bytes (idstr se)), word_of_int (instance_id se), word_of_int (version_id se))"
    unfolding get_section_header_def
    by (intro gets_bind [where v = "word_of_int (section_id se)"] gets_bind [where v = "of_nat (length (idstr se))"]
      gets_bind [where v = "string_bytes (idstr se)"] gets_bind [where v = "word_of_int (instance_id se)"]
      gets_bind [where v = "word_of_int (version_id se)"] gets_ret be32.gets_one byte.gets_one n(2) name TrueI)
  then show ?thesis using assms by (simp add: header_ok_def header_code_def string_bytes_roundtrip u8_of_length)
qed

end

section \<open>The contract of an entry\<close>

text \<open>
  An entry that is saved in one piece: from a good state it puts the bytes \<open>code\<close>, and loading them in a machine of any state
  takes them, returns 0 and gives a state that \<open>restored\<close> relates to the saved one and the one before.
\<close>

locale snapshot_section =
  fixes sink :: "'o QEMUFile \<Rightarrow> u8 list \<Rightarrow> nat \<Rightarrow> bool" and source :: "'o QEMUFile \<Rightarrow> u8 list \<Rightarrow> bool" and good :: "'w \<Rightarrow> bool"
    and code :: "'w \<Rightarrow> u8 list" and restored :: "'w \<Rightarrow> 'w \<Rightarrow> 'w \<Rightarrow> bool" and se :: "('w, 'o) SaveStateEntry"
  assumes header: "header_ok se"
    and not_live: "save_live_state se = None"
    and saves: "\<exists>save. save_state se = Some save \<and> (\<forall>w. good w \<longrightarrow> puts sink (save w) (code w))"
    and loads: "good w \<Longrightarrow> source f (code w @ bs) \<Longrightarrow>
      \<exists>w' f'. load_state se v (version_id se) f = ret (0, w', f') \<and> source f' bs \<and> restored w v w'"

text \<open>The states that loading the entries of a list one after the other leads to.\<close>

fun restored_all :: "(('w, 'o) SaveStateEntry \<Rightarrow> 'w \<Rightarrow> 'w \<Rightarrow> 'w \<Rightarrow> bool) \<Rightarrow> ('w, 'o) SaveStateEntry list \<Rightarrow> 'w \<Rightarrow> 'w \<Rightarrow> 'w \<Rightarrow> bool" where
  "restored_all restored [] w v v' \<longleftrightarrow> v' = v"
| "restored_all restored (se # ses) w v v' \<longleftrightarrow> (\<exists>u. restored se w v u \<and> restored_all restored ses w u v')"

definition full_code :: "('w, 'o) SaveStateEntry \<Rightarrow> u8 list \<Rightarrow> u8 list" where
  "full_code se cs = ucast QEMU_VM_SECTION_FULL # header_code se @ cs"

definition vm_code :: "(('w, 'o) SaveStateEntry \<Rightarrow> 'w \<Rightarrow> u8 list) \<Rightarrow> ('w, 'o) SaveStateEntry list \<Rightarrow> 'w \<Rightarrow> u8 list" where
  "vm_code code ses w = concat (map (\<lambda>se. full_code se (code se w)) ses)"

lemma find_se_distinct:
  "distinct (map (\<lambda>e. (idstr e, instance_id e)) ses) \<Longrightarrow> se \<in> set ses \<Longrightarrow> find_se ses (idstr se) (instance_id se) = Some se"
  unfolding find_se_def by (induction ses) (auto simp: image_iff)

lemmas vm_types = QEMU_VM_EOF_def QEMU_VM_SECTION_START_def QEMU_VM_SECTION_PART_def QEMU_VM_SECTION_END_def QEMU_VM_SECTION_FULL_def

lemma live_sections_none:
  "list_all (\<lambda>se. save_live_state se = None) ses \<Longrightarrow> live_sections header stage ses w f = ret (True, w, f)"
  by (induction ses) auto

context back_end
begin

text \<open>One section that is whole: the loader takes it, calls the load function and goes on.\<close>

lemma load_whole_section:
  assumes "ty = QEMU_VM_SECTION_START \<or> ty = QEMU_VM_SECTION_FULL" and "header_ok se" and "find_se ses (idstr se) (instance_id se) = Some se"
    and "source f (ucast ty # header_code se @ cs)"
    and "\<And>f2. source f2 cs \<Longrightarrow> \<exists>w' f'. load_state se v (version_id se) f2 = ret (0, w', f') \<and> source f' rest \<and> P w'"
  shows "\<exists>w' f' le. load_sections ses les v f = load_sections ses (le # les) w' f' \<and> source f' rest \<and> P w' \<and>
    le = \<lparr>le_se = se, le_section_id = word_of_int (section_id se), le_version_id = word_of_int (version_id se)\<rparr>"
proof -
  have ty: "ty < 256" "ty \<noteq> QEMU_VM_EOF" using assms(1) by (auto simp: vm_types)
  from assms(4) ty(1) obtain f1 where 1: "qemu_get_byte f = ret (ty, f1)" "source f1 (header_code se @ cs)"
    using byte.get_code [of ty f "header_code se @ cs"] by auto
  from getsD [OF section_header_gets [OF assms(2)] 1(2)] obtain f2 where
    2: "get_section_header f1 = ret ((word_of_int (section_id se), idstr se, word_of_int (instance_id se), word_of_int (version_id se)), f2)"
      "source f2 cs" by blast
  from assms(5) [OF 2(2)] obtain w' f' where 3: "load_state se v (version_id se) f2 = ret (0, w', f')" "source f' rest" "P w'" by blast
  have i: "sint (word_of_int (instance_id se) :: u32) = instance_id se" "sint (word_of_int (version_id se) :: u32) = version_id se"
    using assms(2) by (simp_all add: header_ok_def sint_u32)
  show ?thesis using 1(1) 2(1) 3 assms(1,3) ty(2) by (subst load_sections.simps) (auto simp: i)
qed

lemma load_end:
  assumes "source f [ucast QEMU_VM_EOF]" shows "\<exists>f'. load_sections ses les v f = ret (0, v, f') \<and> source f' []"
proof -
  obtain f' where "qemu_get_byte f = ret (QEMU_VM_EOF, f')" "source f' []"
    using byte.get_code [of QEMU_VM_EOF f "[]"] assms by (auto simp: vm_types)
  then show ?thesis by (subst load_sections.simps) simp
qed

lemma full_sections_put:
  assumes "list_all (\<lambda>se. snapshot_section (writing put cl holds) source good (code se) (restored se) se) ses" and "good w"
  shows "puts (writing put cl holds) (full_sections ses w) (vm_code code ses w)"
  using assms(1)
proof (induction ses)
  case Nil
  have "full_sections [] w = ret" by (rule ext) simp
  then show ?case by (simp add: vm_code_def puts_ret)
next
  case (Cons se ses)
  then have se: "snapshot_section (writing put cl holds) source good (code se) (restored se) se" by simp
  from snapshot_section.saves [OF se] assms(2) obtain save where save: "save_state se = Some save" "puts (writing put cl holds) (save w) (code se w)"
    by blast
  have "puts (writing put cl holds) (full_sections (se # ses) w)
      ((ucast QEMU_VM_SECTION_FULL # header_code se) @ code se w @ vm_code code ses w)"
    unfolding full_sections.simps save(1) option.case
    using Cons by (intro puts_bind section_header_puts snapshot_section.header [OF se] save(2)) simp_all
  then show ?case by (simp add: vm_code_def full_code_def del: full_sections.simps)
qed

lemma full_sections_load:
  assumes "list_all (\<lambda>se. snapshot_section (writing put cl holds) source good (code se) (restored se) se) ses" and "good w"
    and "\<forall>se\<in>set ses. find_se all (idstr se) (instance_id se) = Some se"
    and "source f (vm_code code ses w @ [ucast QEMU_VM_EOF])"
  shows "\<exists>v' f'. load_sections all les v f = ret (0, v', f') \<and> source f' [] \<and> restored_all restored ses w v v'"
  using assms(1,3,4)
proof (induction ses arbitrary: les v f)
  case Nil
  then show ?case using load_end by (simp add: vm_code_def)
next
  case (Cons se ses)
  then have se: "snapshot_section (writing put cl holds) source good (code se) (restored se) se" by simp
  from Cons.prems(3) have f: "source f (ucast QEMU_VM_SECTION_FULL # header_code se @ code se w @ vm_code code ses w @ [ucast QEMU_VM_EOF])"
    by (simp add: vm_code_def full_code_def)
  obtain w' f' le where 1: "load_sections all les v f = load_sections all (le # les) w' f'"
      "source f' (vm_code code ses w @ [ucast QEMU_VM_EOF])" "restored se w v w'"
    using load_whole_section [OF _ snapshot_section.header [OF se] _ f, of all v "vm_code code ses w @ [ucast QEMU_VM_EOF]" "restored se w v" les]
      snapshot_section.loads [OF se assms(2)] Cons.prems(2) by auto
  with Cons.IH [OF _ _ 1(2), of "le # les" w'] Cons.prems(1,2) show ?case by auto
qed

end

section \<open>A snapshot through a file\<close>

definition snapshot_code :: "(('w, 'o) SaveStateEntry \<Rightarrow> 'w \<Rightarrow> u8 list) \<Rightarrow> ('w, 'o) SaveStateEntry list \<Rightarrow> 'w \<Rightarrow> u8 list" where
  "snapshot_code code ses w = be32 QEMU_VM_FILE_MAGIC @ be32 QEMU_VM_FILE_VERSION @ vm_code code ses w @ [ucast QEMU_VM_EOF]"

context back_end
begin

abbreviation section_ok where "section_ok good code restored \<equiv> (\<lambda>se. snapshot_section (writing put cl holds) source good (code se) (restored se) se)"

lemma sections_not_live: "list_all (section_ok good code restored) ses \<Longrightarrow> list_all (\<lambda>se. save_live_state se = None) ses"
  by (induction ses) (auto dest: snapshot_section.not_live)

lemma savevm_writes:
  assumes "list_all (section_ok good code restored) ses" and "good (bdrv_flush_all rs (vm_stop rs w))"
    and "writing put cl holds f bs (length (snapshot_code code ses (bdrv_flush_all rs (vm_stop rs w))) + r)"
  shows "\<exists>w' f'. qemu_savevm_state rs ses w f = ret (0, w', f') \<and>
    writing put cl holds f' (bs @ snapshot_code code ses (bdrv_flush_all rs (vm_stop rs w))) r"
proof -
  let ?w = "bdrv_flush_all rs (vm_stop rs w)"
  note none = live_sections_none [OF sections_not_live [OF assms(1)]]
  have loop: "iterate_loop ses v g = ret (1, v, g)" for v g
    by (subst iterate_loop.simps) (simp add: qemu_savevm_state_iterate_def none)
  have err: "writing put cl holds g ds k \<Longrightarrow> \<not> qemu_file_has_error g" for g ds k
    by (simp add: writing_def qemu_file_has_error_def)
  have head: "puts (writing put cl holds) (\<lambda>f. comp_bind (qemu_put_be32 QEMU_VM_FILE_MAGIC f) (qemu_put_be32 QEMU_VM_FILE_VERSION))
      (be32 QEMU_VM_FILE_MAGIC @ be32 QEMU_VM_FILE_VERSION)"
    by (intro puts_bind be32.puts_one)
  have tail: "puts (writing put cl holds) (\<lambda>f. comp_bind (full_sections ses ?w f) (qemu_put_byte QEMU_VM_EOF))
      (vm_code code ses ?w @ [ucast QEMU_VM_EOF])"
    by (intro puts_bind byte.puts_one full_sections_put [OF assms(1,2)])
  obtain f1 where f1: "comp_bind (qemu_put_be32 QEMU_VM_FILE_MAGIC f) (qemu_put_be32 QEMU_VM_FILE_VERSION) = ret f1"
      "writing put cl holds f1 (bs @ be32 QEMU_VM_FILE_MAGIC @ be32 QEMU_VM_FILE_VERSION) (length (vm_code code ses ?w @ [ucast QEMU_VM_EOF]) + r)"
    using putsD [OF head, of f bs "length (vm_code code ses ?w @ [ucast QEMU_VM_EOF]) + r"] assms(3)
    by (auto simp: snapshot_code_def add.assoc)
  obtain f2 where f2: "comp_bind (full_sections ses ?w f1) (qemu_put_byte QEMU_VM_EOF) = ret f2"
      "writing put cl holds f2 (bs @ snapshot_code code ses ?w) r"
    using putsD [OF tail f1(2)] by (auto simp: snapshot_code_def)
  from f1(1) have b: "qemu_savevm_state_begin ses ?w f = ret (0, ?w, f1)"
    using err [OF f1(2)] by (auto simp: qemu_savevm_state_begin_def none dest!: comp_bind_eq_retD)
  from f2(1) have c: "qemu_savevm_state_complete ses ?w f1 = ret (0, ?w, f2)"
    using err [OF f2(2)] by (auto simp: qemu_savevm_state_complete_def none dest!: comp_bind_eq_retD)
  show ?thesis using err [OF f2(2)] f2(2) by (simp add: qemu_savevm_state_def b c loop Let_def)
qed

lemma loadvm_reads:
  assumes "list_all (section_ok good code restored) ses" and "good w" and "distinct (map (\<lambda>e. (idstr e, instance_id e)) ses)"
    and "source f (snapshot_code code ses w)"
  shows "\<exists>v' f'. qemu_loadvm_state ses v f = ret (0, v', f') \<and> source f' [] \<and> restored_all restored ses w v v'"
proof -
  from assms(4) obtain f1 where 1: "qemu_get_be32 f = ret (QEMU_VM_FILE_MAGIC, f1)"
      "source f1 (be32 QEMU_VM_FILE_VERSION @ vm_code code ses w @ [ucast QEMU_VM_EOF])"
    unfolding snapshot_code_def using get_be32_code by blast
  then obtain f2 where 2: "qemu_get_be32 f1 = ret (QEMU_VM_FILE_VERSION, f2)" "source f2 (vm_code code ses w @ [ucast QEMU_VM_EOF])"
    using get_be32_code by blast
  from full_sections_load [OF assms(1,2) _ 2(2), of ses "[]" v] find_se_distinct [OF assms(3)] obtain v' f3 where
    3: "load_sections ses [] v f2 = ret (0, v', f3)" "source f3 []" "restored_all restored ses w v v'" by auto
  have "\<not> qemu_file_has_error f3" using 3(2) by (simp add: reading_def qemu_file_has_error_def)
  with 1 2 3 show ?thesis by (simp add: qemu_loadvm_state_def QEMU_VM_FILE_VERSION_def QEMU_VM_FILE_VERSION_COMPAT_def)
qed

end

text \<open>The whole way: a snapshot of a machine with any entries that keep the contract, saved into a file and loaded from it.\<close>

lemma snapshot_through_file:
  assumes "list_all (seekable.section_ok good code restored) ses" and "good (bdrv_flush_all rs (vm_stop rs w))"
    and "distinct (map (\<lambda>e. (idstr e, instance_id e)) ses)"
    and "length (snapshot_code code ses (bdrv_flush_all rs (vm_stop rs w))) \<le> space"
  shows "\<exists>f w' f1 fp g v' g1. qemu_fopen dir space name ''wb'' = Some f \<and> qemu_savevm_state rs ses w f = ret (0, w', f1) \<and>
    qemu_fclose f1 = (0, fp) \<and> qemu_fopen (dir(name \<mapsto> file_bytes fp)) space name ''rb'' = Some g \<and>
    qemu_loadvm_state ses v g = ret (0, v', g1) \<and> restored_all restored ses (bdrv_flush_all rs (vm_stop rs w)) v v'"
proof -
  let ?code = "snapshot_code code ses (bdrv_flush_all rs (vm_stop rs w))"
  obtain f where f: "qemu_fopen dir space name ''wb'' = Some f" "saving f [] (length ?code + 0)"
    using fopen_wb [of "length ?code + 0" space] assms(4) by auto
  obtain w' f1 where f1: "qemu_savevm_state rs ses w f = ret (0, w', f1)" "saving f1 ([] @ ?code) 0"
    using seekable.savevm_writes [OF assms(1,2) f(2)] by blast
  obtain fp g where g: "qemu_fclose f1 = (0, fp)" "qemu_fopen (dir(name \<mapsto> file_bytes fp)) space name ''rb'' = Some g"
      "loading False g ?code"
    using fclose_then_fopen [OF f1(2)] by (metis append.left_neutral)
  from seekable.loadvm_reads [OF assms(1,2,3) g(3), of v] f(1) f1(1) g(1,2) show ?thesis by blast
qed

section \<open>The entries of the board keep the contract\<close>

definition board_good :: "board \<Rightarrow> bool" where
  "board_good w \<longleftrightarrow> - (2 ^ 31) \<le> current_sp (v7m (fst w)) \<and> current_sp (v7m (fst w)) < 2 ^ 31"

definition common_entry :: "(board, 'o) SaveStateEntry" where
  "common_entry = \<lparr>idstr = ''cpu_common'', instance_id = 0, version_id = CPU_COMMON_SAVE_VERSION, section_id = 0, save_live_state = None,
     save_state = Some (\<lambda>w. cpu_common_save (fst w)), load_state = cpu_part cpu_common_load, se_opaque = 1\<rparr>"

definition cpu_entry :: "(board, 'o) SaveStateEntry" where
  "cpu_entry = \<lparr>idstr = ''cpu'', instance_id = 0, version_id = CPU_SAVE_VERSION, section_id = 1, save_live_state = None,
     save_state = Some (\<lambda>w. cpu_save (fst w)), load_state = cpu_part cpu_load, se_opaque = 1\<rparr>"

definition int_entry :: "(board, 'o) SaveStateEntry" where
  "int_entry = \<lparr>idstr = ''goldfish_int'', instance_id = 0, version_id = GOLDFISH_INT_SAVE_VERSION, section_id = 2, save_live_state = None,
     save_state = Some (\<lambda>w. goldfish_int_save (snd w)), load_state = int_part goldfish_int_load, se_opaque = 2\<rparr>"

lemmas entry_defs = common_entry_def cpu_entry_def int_entry_def

lemma board_entries_eq: "board_entries = [common_entry, cpu_entry, int_entry]"
  by (simp add: board_entries_def register_int_def register_cpu_def register_savevm_def register_savevm_live_def free_instance_def
      entry_defs Let_def)

definition common_restored :: "board \<Rightarrow> board \<Rightarrow> board \<Rightarrow> bool" where
  "common_restored w v v' \<longleftrightarrow>
     v' = (tlb_flush ((fst v)\<lparr>halted := halted (fst w), interrupt_request := interrupt_request (fst w) AND NOT 1\<rparr>), snd v)"

definition cpu_part_restored :: "board \<Rightarrow> board \<Rightarrow> board \<Rightarrow> bool" where
  "cpu_part_restored w v v' \<longleftrightarrow> cpu_restored (fst w) (fst v) (fst v') \<and> snd v' = snd v"

definition int_restored :: "board \<Rightarrow> board \<Rightarrow> board \<Rightarrow> bool" where
  "int_restored w v v' \<longleftrightarrow>
     v' = (fst v, (snd w)\<lparr>parent_irq := parent_irq (snd v), parent_fiq := parent_fiq (snd v)\<rparr>)"

definition common_code :: "board \<Rightarrow> u8 list" where
  "common_code w = be32 (halted (fst w)) @ be32 (interrupt_request (fst w))"

lemma int_table_ok: "table_ok goldfish_int_fields p"
  by (simp add: goldfish_int_fields_def)

lemma int_store: "struct_store goldfish_int_fields p q = p\<lparr>parent_irq := parent_irq q, parent_fiq := parent_fiq q\<rparr>"
  by (cases p; cases q) (simp add: goldfish_int_fields_def)

context back_end
begin

lemma common_section: "snapshot_section (writing put cl holds) source board_good common_code common_restored common_entry"
proof
  show "header_ok common_entry" by (simp add: header_ok_def common_entry_def CPU_COMMON_SAVE_VERSION_def)
  show "save_live_state common_entry = None" by (simp add: common_entry_def)
  have "puts (writing put cl holds) (cpu_common_save (fst w)) (common_code w)" for w
    unfolding cpu_common_save_def common_code_def by (intro puts_bind be32.puts_one)
  then show "\<exists>save. save_state common_entry = Some save \<and> (\<forall>w. board_good w \<longrightarrow> puts (writing put cl holds) (save w) (common_code w))"
    by (simp add: common_entry_def del: split_paired_All)
next
  fix w v :: board and f :: "'o QEMUFile" and bs
  assume "source f (common_code w @ bs)"
  then obtain f1 where 1: "qemu_get_be32 f = ret (halted (fst w), f1)" "source f1 (be32 (interrupt_request (fst w)) @ bs)"
    using get_be32_code [of False f "halted (fst w)"] by (auto simp: common_code_def)
  then obtain f2 where "qemu_get_be32 f1 = ret (interrupt_request (fst w), f2)" "source f2 bs" using get_be32_code by blast
  with 1 show "\<exists>w' f'. load_state common_entry v (version_id common_entry) f = ret (0, w', f') \<and> source f' bs \<and> common_restored w v w'"
    by (simp add: common_entry_def cpu_part_def cpu_common_load_def common_restored_def)
qed

lemma cpu_section: "snapshot_section (writing put cl holds) source board_good (\<lambda>w. cpu_code (fst w)) cpu_part_restored cpu_entry"
proof
  show "header_ok cpu_entry" by (simp add: header_ok_def cpu_entry_def CPU_SAVE_VERSION_def)
  show "save_live_state cpu_entry = None" by (simp add: cpu_entry_def)
  show "\<exists>save. save_state cpu_entry = Some save \<and> (\<forall>w. board_good w \<longrightarrow> puts (writing put cl holds) (save w) (cpu_code (fst w)))"
    by (simp add: cpu_entry_def cpu_save_puts)
next
  fix w v :: board and f :: "'o QEMUFile" and bs
  assume "board_good w" "source f (cpu_code (fst w) @ bs)"
  with cpu_load_code [of f "fst w" bs "fst v"]
  show "\<exists>w' f'. load_state cpu_entry v (version_id cpu_entry) f = ret (0, w', f') \<and> source f' bs \<and> cpu_part_restored w v w'"
    by (auto simp: board_good_def cpu_entry_def cpu_part_def cpu_part_restored_def)
qed

lemma int_section: "snapshot_section (writing put cl holds) source board_good (\<lambda>w. struct_code goldfish_int_fields (snd w)) int_restored int_entry"
proof
  show "header_ok int_entry" by (simp add: header_ok_def int_entry_def GOLDFISH_INT_SAVE_VERSION_def)
  show "save_live_state int_entry = None" by (simp add: int_entry_def)
  show "\<exists>save. save_state int_entry = Some save \<and>
      (\<forall>w. board_good w \<longrightarrow> puts (writing put cl holds) (save w) (struct_code goldfish_int_fields (snd w)))"
    by (simp add: int_entry_def goldfish_int_save_def puts_def put_struct_code [OF int_table_ok])
next
  fix w v :: board and f :: "'o QEMUFile" and bs
  assume "source f (struct_code goldfish_int_fields (snd w) @ bs)"
  from get_struct_code [OF int_table_ok this, of "snd v"]
  show "\<exists>w' f'. load_state int_entry v (version_id int_entry) f = ret (0, w', f') \<and> source f' bs \<and> int_restored w v w'"
    by (auto simp: int_entry_def int_part_def goldfish_int_load_def int_restored_def int_store)
qed

end

interpretation board_common: snapshot_section saving "loading False" board_good common_code common_restored common_entry
  by (rule seekable.common_section)

interpretation board_cpu: snapshot_section saving "loading False" board_good "\<lambda>w. cpu_code (fst w)" cpu_part_restored cpu_entry
  by (rule seekable.cpu_section)

interpretation board_int: snapshot_section saving "loading False" board_good "\<lambda>w. struct_code goldfish_int_fields (snd w)" int_restored int_entry
  by (rule seekable.int_section)

definition board_code :: "(board, 'o) SaveStateEntry \<Rightarrow> board \<Rightarrow> u8 list" where
  "board_code se = (if idstr se = ''cpu_common'' then common_code
     else if idstr se = ''cpu'' then (\<lambda>w. cpu_code (fst w)) else (\<lambda>w. struct_code goldfish_int_fields (snd w)))"

definition board_restored :: "(board, 'o) SaveStateEntry \<Rightarrow> board \<Rightarrow> board \<Rightarrow> board \<Rightarrow> bool" where
  "board_restored se = (if idstr se = ''cpu_common'' then common_restored
     else if idstr se = ''cpu'' then cpu_part_restored else int_restored)"

lemma board_parts [simp]:
  "board_code common_entry = common_code" "board_code cpu_entry = (\<lambda>w. cpu_code (fst w))"
  "board_code int_entry = (\<lambda>w. struct_code goldfish_int_fields (snd w))"
  "board_restored common_entry = common_restored" "board_restored cpu_entry = cpu_part_restored" "board_restored int_entry = int_restored"
  by (simp_all add: board_code_def board_restored_def entry_defs)

lemma board_sections: "list_all (seekable.section_ok board_good board_code board_restored) board_entries"
  by (simp add: board_entries_eq board_common.snapshot_section_axioms board_cpu.snapshot_section_axioms board_int.snapshot_section_axioms)

lemma board_distinct: "distinct (map (\<lambda>e. (idstr e, instance_id e)) board_entries)"
  by (simp add: board_entries_eq entry_defs)

lemma board_length: "length (snapshot_code board_code board_entries w) \<le> 1011"
  using length_cpu_code [of "fst w"]
  by (simp add: snapshot_code_def vm_code_def full_code_def header_code_def board_entries_eq common_code_def entry_defs
      board_code_def goldfish_int_fields_def)

lemma flushed_tlb:
  "tlb_table env' = tlb_table (tlb_flush env) \<Longrightarrow> m < NB_MMU_MODES \<Longrightarrow> j < unat CPU_TLB_SIZE \<Longrightarrow>
   addr_read (tlb_table env' m j) = - 1 \<and> addr_write (tlb_table env' m j) = - 1 \<and> addr_code (tlb_table env' m j) = - 1"
  by (simp add: tlb_flush_def map_tlb_def invalid_entry_def)

section \<open>Properties\<close>

text \<open>
  C17. A snapshot of the board comes back: \<open>qemu_savevm_state\<close> saves the machine into a file, the file is closed and opened again, and
  \<open>qemu_loadvm_state\<close> finds every section and returns 0 on a machine in any state. The processor has its saved registers
  (\<open>cpu_restored\<close>), whether it is halted and its pending interrupts come back, the interrupt controller has its saved state and
  keeps its wires, and no translation of the machine that was there before is left in the software TLB.
\<close>

theorem board_snapshot_roundtrip:
  assumes "1011 \<le> space" and "board_good (bdrv_flush_all rs (vm_stop rs w))"
    and "bdrv_flush_all rs (vm_stop rs w) = (env, p)"
  shows "\<exists>f w' f1 fp g env' g1. qemu_fopen dir space name ''wb'' = Some f \<and> qemu_savevm_state rs board_entries w f = ret (0, w', f1) \<and>
    qemu_fclose f1 = (0, fp) \<and> qemu_fopen (dir(name \<mapsto> file_bytes fp)) space name ''rb'' = Some g \<and>
    qemu_loadvm_state board_entries (env0, p0) g = ret (0, (env', p\<lparr>parent_irq := parent_irq p0, parent_fiq := parent_fiq p0\<rparr>), g1) \<and>
    cpu_restored env (tlb_flush (env0\<lparr>halted := halted env, interrupt_request := interrupt_request env AND NOT 1\<rparr>)) env' \<and>
    halted env' = halted env \<and> interrupt_request env' = interrupt_request env AND NOT 1 \<and>
    (\<forall>m j. m < NB_MMU_MODES \<and> j < unat CPU_TLB_SIZE \<longrightarrow>
       addr_read (tlb_table env' m j) = - 1 \<and> addr_write (tlb_table env' m j) = - 1 \<and> addr_code (tlb_table env' m j) = - 1)"
proof -
  let ?env1 = "tlb_flush (env0\<lparr>halted := halted env, interrupt_request := interrupt_request env AND NOT 1\<rparr>)"
  have restored: "\<exists>env'. v' = (env', p\<lparr>parent_irq := parent_irq p0, parent_fiq := parent_fiq p0\<rparr>) \<and> cpu_restored env ?env1 env'"
    if "restored_all board_restored board_entries (env, p) (env0, p0) v'" for v'
    using that by (auto simp: board_entries_eq common_restored_def cpu_part_restored_def int_restored_def)
  have "length (snapshot_code board_code board_entries (bdrv_flush_all rs (vm_stop rs w))) \<le> space"
    using board_length assms(1) by (rule le_trans)
  from snapshot_through_file [OF board_sections assms(2) board_distinct this, of dir name "(env0, p0)", unfolded assms(3)]
  obtain f w' f1 fp g env' g1 where r: "qemu_fopen dir space name ''wb'' = Some f" "qemu_savevm_state rs board_entries w f = ret (0, w', f1)"
      "qemu_fclose f1 = (0, fp)" "qemu_fopen (dir(name \<mapsto> file_bytes fp)) space name ''rb'' = Some g"
      "qemu_loadvm_state board_entries (env0, p0) g = ret (0, (env', p\<lparr>parent_irq := parent_irq p0, parent_fiq := parent_fiq p0\<rparr>), g1)"
      "cpu_restored env ?env1 env'"
    using restored by blast
  have h: "halted ?env1 = halted env" "interrupt_request ?env1 = interrupt_request env AND NOT 1" by (simp_all add: tlb_flush_def map_tlb_def)
  from r(6) have t: "halted env' = halted ?env1" "interrupt_request env' = interrupt_request ?env1" "tlb_table env' = tlb_table ?env1"
    by (simp_all only: cpu_restored_def)
  show ?thesis using r t(1,2) h flushed_tlb [OF t(3)] by auto
qed

definition still :: "'w run_state" where
  "still = \<lparr>vm_running = (\<lambda>_. False), vm_stop = (\<lambda>w. w), vm_start = (\<lambda>w. w), bdrv_flush_all = (\<lambda>w. w)\<rparr>"

definition quiet_int :: goldfish_int_state where
  "quiet_int = \<lparr>int_level = 4, pending_count = 1, irq_enabled = 4, fiq_enabled = 0, parent_irq = Some 0, parent_fiq = Some 1\<rparr>"

theorem board_snapshot_roundtrip_witness:
  "\<exists>f w' f1 fp g env' g1. qemu_fopen Map.empty 2000 ''snap'' ''wb'' = Some f \<and>
    qemu_savevm_state still board_entries (reset_env, quiet_int) f = ret (0, w', f1) \<and>
    qemu_fclose f1 = (0, fp) \<and> qemu_fopen (Map.empty(''snap'' \<mapsto> file_bytes fp)) 2000 ''snap'' ''rb'' = Some g \<and>
    qemu_loadvm_state board_entries (reset_env\<lparr>halted := 1\<rparr>, quiet_int\<lparr>int_level := 0\<rparr>) g =
      ret (0, (env', quiet_int\<lparr>parent_irq := parent_irq (quiet_int\<lparr>int_level := 0\<rparr>), parent_fiq := parent_fiq (quiet_int\<lparr>int_level := 0\<rparr>)\<rparr>), g1) \<and>
    cpu_restored reset_env (tlb_flush (reset_env\<lparr>halted := 1, halted := halted reset_env, interrupt_request := interrupt_request reset_env AND NOT 1\<rparr>)) env' \<and>
    halted env' = halted reset_env \<and> interrupt_request env' = interrupt_request reset_env AND NOT 1 \<and>
    (\<forall>m j. m < NB_MMU_MODES \<and> j < unat CPU_TLB_SIZE \<longrightarrow>
       addr_read (tlb_table env' m j) = - 1 \<and> addr_write (tlb_table env' m j) = - 1 \<and> addr_code (tlb_table env' m j) = - 1)"
  by (rule board_snapshot_roundtrip) (simp_all add: still_def board_good_def reset_env_def zero_v7m_def)

text \<open>The entries of a well-formed list differ in name or instance, and in their section numbers, which are below the next one.\<close>

definition list_ok :: "('w, 'o) savevm_list \<Rightarrow> bool" where
  "list_ok sl \<longleftrightarrow> distinct (map (\<lambda>e. (idstr e, instance_id e)) (first_se sl)) \<and> distinct (map section_id (first_se sl)) \<and>
     (\<forall>e\<in>set (first_se sl). section_id e < global_section_id sl)"

lemma free_instance_ge: "i \<le> free_instance (- 1) name ses i"
proof (induction ses arbitrary: i)
  case (Cons e ses)
  from Cons.IH [of "if name = idstr e \<and> i \<le> instance_id e then instance_id e + 1 else i"] show ?case
    by (auto simp: free_instance_def split: if_splits)
qed (simp add: free_instance_def)

lemma free_instance_above: "e \<in> set ses \<Longrightarrow> idstr e = name \<Longrightarrow> instance_id e < free_instance (- 1) name ses i"
proof (induction ses arbitrary: i)
  case (Cons d ses)
  let ?i = "if name = idstr d \<and> i \<le> instance_id d then instance_id d + 1 else i"
  have step: "free_instance (- 1) name (d # ses) i = free_instance (- 1) name ses ?i" by (simp add: free_instance_def)
  show ?case
  proof (cases "e \<in> set ses")
    case True
    then show ?thesis unfolding step using Cons by blast
  next
    case False
    with Cons.prems have "instance_id e < ?i" by (auto split: if_splits)
    also have "?i \<le> free_instance (- 1) name ses ?i" by (rule free_instance_ge)
    finally show ?thesis unfolding step .
  qed
qed simp

lemma free_instance_given: "req \<noteq> - 1 \<Longrightarrow> free_instance req name ses i = i"
  unfolding free_instance_def by (induction ses) auto

text \<open>
  Registering keeps the list well formed, so that a section finds its own entry when it is loaded: a part that asks for an instance
  number (\<open>-1\<close>) gets one that no entry of its name has, and one with a number of its own must not repeat it.
\<close>

theorem register_keeps_distinct:
  assumes "list_ok sl" and "inst \<noteq> - 1 \<longrightarrow> (\<forall>e\<in>set (first_se sl). (idstr e, instance_id e) \<noteq> (take 255 name, inst))"
  shows "list_ok (snd (register_savevm_live name inst ver live save load op sl))"
proof -
  let ?i = "free_instance inst (take 255 name) (first_se sl) (if inst = - 1 then 0 else inst)"
  have "(idstr e, instance_id e) \<noteq> (take 255 name, ?i)" if "e \<in> set (first_se sl)" for e
  proof (cases "inst = - 1")
    case True
    with free_instance_above [OF that, of "take 255 name" 0] show ?thesis by auto
  next
    case False
    with assms(2) that show ?thesis by (auto simp: free_instance_given)
  qed
  with assms(1) show ?thesis by (force simp: list_ok_def register_savevm_live_def Let_def)
qed

theorem register_keeps_distinct_witness:
  "list_ok (snd (register_savevm_live ''cpu'' (- 1) 3 None None (\<lambda>w ver f. ret (0, w, f)) 5
     (\<lparr>first_se = [cpu_entry, common_entry], global_section_id = 2\<rparr> :: (board, FILE) savevm_list)))"
  by (rule register_keeps_distinct) (simp_all add: list_ok_def entry_defs)

text \<open>
  A file that is not a snapshot, or is one of an unknown version, is refused, and the machine is as it was.
\<close>

theorem foreign_file_refused:
  assumes "dir name = Some (be32 magic @ be32 ver @ bs)"
    and "magic \<noteq> QEMU_VM_FILE_MAGIC \<or> ver \<notin> {QEMU_VM_FILE_VERSION, QEMU_VM_FILE_VERSION_COMPAT}"
  shows "\<exists>g rc g1. qemu_fopen dir space name ''rb'' = Some g \<and> qemu_loadvm_state ses w g = ret (rc, w, g1) \<and> rc < 0"
proof -
  obtain g where g: "qemu_fopen dir space name ''rb'' = Some g" "loading False g (be32 magic @ be32 ver @ bs)"
    using fopen_rb [of dir name] assms(1) by blast
  then obtain g1 where 1: "qemu_get_be32 g = ret (magic, g1)" "loading False g1 (be32 ver @ bs)" using seekable.get_be32_code by blast
  then obtain g2 where "qemu_get_be32 g1 = ret (ver, g2)" using seekable.get_be32_code by blast
  with 1(1) g(1) assms(2) show ?thesis by (auto simp: qemu_loadvm_state_def EINVAL_def ENOTSUP_def)
qed

theorem foreign_file_refused_witness:
  "\<exists>g rc g1. qemu_fopen (Map.empty(''snap'' \<mapsto> be32 0x7F454C46 @ be32 0x01010100 @ [])) 0 ''snap'' ''rb'' = Some g \<and>
     qemu_loadvm_state board_entries (reset_env, quiet_int) g = ret (rc, (reset_env, quiet_int), g1) \<and> rc < 0"
  by (rule foreign_file_refused [where magic = "0x7F454C46" and ver = "0x01010100" and bs = "[]"]) (simp_all add: QEMU_VM_FILE_MAGIC_def)

end
