(* ===== verification/Ram_Snapshot.thy ===== *)
theory Ram_Snapshot
  imports Savevm
begin

unbundle bit_operations_syntax

text \<open>
  RAM in a snapshot (arch_init.c). \<open>ram_save_live\<close> writes the list of blocks and then the pages whose dirty flag for migration is set, each as its
  bytes or, when they are all equal, as one byte; \<open>ram_load\<close> reads the records back into the blocks of the same names. The theorem says
  that the contents of RAM come back, on a machine whose blocks may be elsewhere in the memory of the host.
\<close>

section \<open>State\<close>

definition MIGRATION_DIRTY_FLAG :: u8 where "MIGRATION_DIRTY_FLAG = 8"
definition RAM_SAVE_FLAG_COMPRESS :: u64 where "RAM_SAVE_FLAG_COMPRESS = 2"
definition RAM_SAVE_FLAG_MEM_SIZE :: u64 where "RAM_SAVE_FLAG_MEM_SIZE = 4"
definition RAM_SAVE_FLAG_PAGE :: u64 where "RAM_SAVE_FLAG_PAGE = 8"
definition RAM_SAVE_FLAG_EOS :: u64 where "RAM_SAVE_FLAG_EOS = 0x10"
definition RAM_SAVE_FLAG_CONTINUE :: u64 where "RAM_SAVE_FLAG_CONTINUE = 0x20"

text \<open>The size of a page as a RAM address.\<close>

definition PAGE64 :: u64 where "PAGE64 = 2 ^ TARGET_PAGE_BITS"

text \<open>
  The host: which system call the build uses for advice on memory (\<open>CONFIG_MADVISE\<close>, \<open>CONFIG_POSIX_MADVISE\<close> or neither, as on Windows), what the calls with the
  advice "don't need" do to the memory of the process, and the size of a page of the host.
\<close>

datatype madvise_build = CONFIG_MADVISE | CONFIG_POSIX_MADVISE | NO_MADVISE

record host_os =
  advice_build :: madvise_build
  madvise_dontneed :: "u64 \<Rightarrow> nat \<Rightarrow> (u64 \<Rightarrow> u8) \<Rightarrow> u64 \<Rightarrow> u8"
  posix_madvise_dontneed :: "u64 \<Rightarrow> nat \<Rightarrow> (u64 \<Rightarrow> u8) \<Rightarrow> u64 \<Rightarrow> u8"
  getpagesize :: nat

text \<open>\<open>qemu_madvise\<close> of osdep.c with \<open>QEMU_MADV_DONTNEED\<close>: its effect on memory; \<open>ram_load\<close> ignores what it returns.\<close>

definition qemu_madvise :: "host_os \<Rightarrow> u64 \<Rightarrow> nat \<Rightarrow> (u64 \<Rightarrow> u8) \<Rightarrow> u64 \<Rightarrow> u8" where
  "qemu_madvise os addr len h =
     (case advice_build os of
        CONFIG_MADVISE \<Rightarrow> madvise_dontneed os addr len h
      | CONFIG_POSIX_MADVISE \<Rightarrow> posix_madvise_dontneed os addr len h
      | NO_MADVISE \<Rightarrow> h)"

text \<open>
  The machine, the memory of the host, and the static variables: the page that was sent last, the count of bytes, whether dirty
  pages are tracked, and the block of the record that was loaded last.
\<close>

record ram_vm =
  vm_os :: host_os
  vm_mach :: machine
  vm_cpus :: "CPUARMState list"
  vm_host :: "u64 \<Rightarrow> u8"
  last_block :: "RAMBlock option"
  last_offset :: u64
  bytes_transferred :: u64
  in_migration :: bool
  stream_block :: "RAMBlock option"

abbreviation vm_blocks :: "ram_vm \<Rightarrow> RAMBlock list" where
  "vm_blocks vm \<equiv> blocks (ram_list (vm_mach vm))"

text \<open>
  The clock of the host: the nanoseconds that the sending loop of a round takes, by the stage and the state the round starts from; the integer that the host makes of a number that is
  not a number, which C leaves open; and the allowed time.
\<close>

record migration_clock =
  round_ns :: "int \<Rightarrow> ram_vm \<Rightarrow> nat"
  nan_as_u64 :: u64
  migrate_max_downtime :: u64

text \<open>
  How long the rest will take, from the bytes that remain, the bytes sent in this round and its time. The code computes with \<open>double\<close>, and here with exact quotients: the bandwidth is \<open>sent / ns\<close>, or
  a millionth when that is 0; without any time it is infinite, or not a number when nothing was sent.
\<close>

definition expected_time :: "migration_clock \<Rightarrow> u64 \<Rightarrow> u64 \<Rightarrow> nat \<Rightarrow> u64" where
  "expected_time mc remaining sent ns =
     (if ns = 0 then if sent = 0 then nan_as_u64 mc else 0
      else if sent = 0 then of_nat (unat remaining * 1000000)
      else of_nat (unat remaining * ns div unat sent))"

section \<open>Saving\<close>

definition host_word :: "(u64 \<Rightarrow> u8) \<Rightarrow> u64 \<Rightarrow> u32" where
  "host_word h p = u32_of_bytes (h p) (h (p + 1)) (h (p + 2)) (h (p + 3))"

definition is_dup_page :: "(u64 \<Rightarrow> u8) \<Rightarrow> u64 \<Rightarrow> u8 \<Rightarrow> bool" where
  "is_dup_page h p ch =
     (let val = push_bit 24 (ucast ch) OR push_bit 16 (ucast ch) OR push_bit 8 (ucast ch) OR ucast ch
      in list_all (\<lambda>i. host_word h (p + 4 * of_nat i) = val) [0..<2 ^ TARGET_PAGE_BITS div 4])"

definition page_bytes :: "(u64 \<Rightarrow> u8) \<Rightarrow> u64 \<Rightarrow> u8 list" where
  "page_bytes h p = map (\<lambda>i. h (p + of_nat i)) [0..<2 ^ TARGET_PAGE_BITS]"

definition put_block_id :: "RAMBlock \<Rightarrow> 'o QEMUFile \<Rightarrow> 'o QEMUFile comp" where
  "put_block_id b f =
     comp_bind (qemu_put_byte (of_nat (length (RAMBlock.idstr b))) f) (qemu_put_buffer (string_bytes (RAMBlock.idstr b)))"

text \<open>The record of one page: where it is, the name of the block unless it is that of the page before, and its bytes.\<close>

definition send_page :: "RAMBlock \<Rightarrow> u64 \<Rightarrow> ram_vm \<Rightarrow> 'o QEMUFile \<Rightarrow> (int \<times> 'o QEMUFile) comp" where
  "send_page b off vm f =
     (let p = RAMBlock.host b + off;
          cont = (if last_block vm = Some b then RAM_SAVE_FLAG_CONTINUE else 0);
          dup = is_dup_page (vm_host vm) p (vm_host vm p)
      in comp_bind (qemu_put_be64 (off OR cont OR (if dup then RAM_SAVE_FLAG_COMPRESS else RAM_SAVE_FLAG_PAGE)) f) (\<lambda>f1.
         comp_bind (if cont = 0 then put_block_id b f1 else ret f1) (\<lambda>f2.
         if dup then comp_bind (qemu_put_byte (ucast (vm_host vm p)) f2) (\<lambda>f3. ret (1, f3))
         else comp_bind (qemu_put_buffer (page_bytes (vm_host vm) p) f2) (\<lambda>f3. ret (2 ^ TARGET_PAGE_BITS, f3)))))"

definition next_block :: "RAMBlock \<Rightarrow> RAMBlock list \<Rightarrow> RAMBlock" where
  "next_block b bs = (case dropWhile (\<lambda>c. c \<noteq> b) bs of _ # c # _ \<Rightarrow> c | _ \<Rightarrow> hd bs)"

definition next_page :: "RAMBlock list \<Rightarrow> RAMBlock \<times> u64 \<Rightarrow> RAMBlock \<times> u64" where
  "next_page bs p = (let (b, off) = p; off' = off + PAGE64 in if blength b \<le> off' then (next_block b bs, 0) else (b, off'))"

text \<open>
  The search for a dirty page, round the list of blocks until it is back at the page sent last. Its result is the page where it stopped, and whether
  that is dirty.
\<close>

partial_function (option) find_dirty :: "ram_vm \<Rightarrow> RAMBlock \<times> u64 \<Rightarrow> (bool \<times> RAMBlock \<times> u64) comp" where
  "find_dirty vm p =
     comp_bind (cpu_physical_memory_get_dirty (offset (fst p) + snd p) MIGRATION_DIRTY_FLAG (ram_list (vm_mach vm))) (\<lambda>d.
       if d \<noteq> 0 then ret (True, p)
       else let q = next_page (vm_blocks vm) p
            in case last_block vm of
                 None \<Rightarrow> raise NullDeref
               | Some lb \<Rightarrow>
                   if offset (fst q) + snd q \<noteq> offset lb + last_offset vm then find_dirty vm q else ret (False, q))"

definition ram_save_block :: "ram_vm \<Rightarrow> 'o QEMUFile \<Rightarrow> (int \<times> ram_vm \<times> 'o QEMUFile) comp" where
  "ram_save_block vm f =
     (if last_block vm = None \<and> vm_blocks vm = [] then raise NullDeref
      else comp_bind (find_dirty vm (case last_block vm of Some b \<Rightarrow> b | None \<Rightarrow> hd (vm_blocks vm), last_offset vm)) (\<lambda>(dirty, b, off).
        if dirty then
          comp_bind (cpu_physical_memory_reset_dirty (offset b + off) (offset b + off + PAGE64) MIGRATION_DIRTY_FLAG
              (vm_mach vm) (vm_cpus vm)) (\<lambda>(mach1, cpus1).
          comp_bind (send_page b off vm f) (\<lambda>(sent, f1).
            ret (sent, vm\<lparr>vm_mach := mach1, vm_cpus := cpus1, last_block := Some b, last_offset := off\<rparr>, f1)))
        else ret (0, vm\<lparr>last_block := Some b, last_offset := off\<rparr>, f)))"

text \<open>The addresses of the pages of a block: the loop from its start by pages until its end.\<close>

definition page_addrs :: "RAMBlock \<Rightarrow> u64 list" where
  "page_addrs b = map (\<lambda>k. offset b + PAGE64 * of_nat k) [0..<(unat (blength b) + (2 ^ TARGET_PAGE_BITS - 1)) div 2 ^ TARGET_PAGE_BITS]"

fun count_dirty :: "RAMList \<Rightarrow> u64 list \<Rightarrow> u64 comp" where
  "count_dirty rl [] = ret 0"
| "count_dirty rl (a # as) =
     comp_bind (cpu_physical_memory_get_dirty a MIGRATION_DIRTY_FLAG rl) (\<lambda>d.
     comp_bind (count_dirty rl as) (\<lambda>n. ret (if d \<noteq> 0 then n + 1 else n)))"

definition ram_save_remaining :: "ram_vm \<Rightarrow> u64 comp" where
  "ram_save_remaining vm = count_dirty (ram_list (vm_mach vm)) (concat (map page_addrs (vm_blocks vm)))"

definition ram_bytes_remaining :: "ram_vm \<Rightarrow> u64 comp" where
  "ram_bytes_remaining vm = comp_bind (ram_save_remaining vm) (\<lambda>n. ret (n * PAGE64))"

definition ram_bytes_transferred :: "ram_vm \<Rightarrow> u64" where
  "ram_bytes_transferred vm = bytes_transferred vm"

definition ram_bytes_total :: "ram_vm \<Rightarrow> u64" where
  "ram_bytes_total vm = sum_list (map blength (vm_blocks vm))"

definition sort_ram_list :: "ram_vm \<Rightarrow> ram_vm" where
  "sort_ram_list vm =
     vm\<lparr>vm_mach := (vm_mach vm)\<lparr>ram_list := (ram_list (vm_mach vm))\<lparr>blocks := sort_key offset (vm_blocks vm)\<rparr>\<rparr>\<rparr>"

fun set_all_dirty :: "u64 list \<Rightarrow> RAMList \<Rightarrow> RAMList comp" where
  "set_all_dirty [] rl = ret rl"
| "set_all_dirty (a # as) rl =
     comp_bind (cpu_physical_memory_get_dirty a MIGRATION_DIRTY_FLAG rl) (\<lambda>d.
     comp_bind (if d = 0 then cpu_physical_memory_set_dirty a rl else ret rl) (set_all_dirty as))"

text \<open>\<open>cpu_physical_memory_set_dirty_tracking\<close> without KVM.\<close>

definition cpu_physical_memory_set_dirty_tracking :: "bool \<Rightarrow> ram_vm \<Rightarrow> ram_vm" where
  "cpu_physical_memory_set_dirty_tracking enable vm = vm\<lparr>in_migration := enable\<rparr>"

definition put_block_entry :: "RAMBlock \<Rightarrow> 'o QEMUFile \<Rightarrow> 'o QEMUFile comp" where
  "put_block_entry b f = comp_bind (put_block_id b f) (qemu_put_be64 (blength b))"

definition ram_save_start :: "ram_vm \<Rightarrow> 'o QEMUFile \<Rightarrow> (ram_vm \<times> 'o QEMUFile) comp" where
  "ram_save_start vm f =
     (let vm1 = sort_ram_list (vm\<lparr>bytes_transferred := 0, last_block := None, last_offset := 0\<rparr>) in
      comp_bind (set_all_dirty (concat (map page_addrs (vm_blocks vm1))) (ram_list (vm_mach vm1))) (\<lambda>rl.
      let vm2 = cpu_physical_memory_set_dirty_tracking True (vm1\<lparr>vm_mach := (vm_mach vm1)\<lparr>ram_list := rl\<rparr>\<rparr>) in
      comp_bind (qemu_put_be64 (ram_bytes_total vm2 OR RAM_SAVE_FLAG_MEM_SIZE) f) (\<lambda>f1.
      comp_bind (put_each put_block_entry (vm_blocks vm2) f1) (\<lambda>f2. ret (vm2, f2)))))"

definition add_sent :: "int \<Rightarrow> ram_vm \<Rightarrow> ram_vm" where
  "add_sent n vm = vm\<lparr>bytes_transferred := bytes_transferred vm + word_of_int n\<rparr>"

partial_function (option) send_limited :: "ram_vm \<Rightarrow> 'o QEMUFile \<Rightarrow> (ram_vm \<times> 'o QEMUFile) comp" where
  "send_limited vm f =
     (if qemu_file_rate_limit f \<noteq> 0 then ret (vm, f)
      else comp_bind (ram_save_block vm f) (\<lambda>(sent, vm1, f1).
        if sent = 0 then ret (add_sent sent vm1, f1) else send_limited (add_sent sent vm1) f1))"

partial_function (option) send_rest :: "ram_vm \<Rightarrow> 'o QEMUFile \<Rightarrow> (ram_vm \<times> 'o QEMUFile) comp" where
  "send_rest vm f =
     comp_bind (ram_save_block vm f) (\<lambda>(sent, vm1, f1).
       if sent \<noteq> 0 then send_rest (add_sent sent vm1) f1 else ret (vm1, f1))"

text \<open>The handler. \<open>cpu_physical_sync_dirty_bitmap\<close> concerns KVM and returns 0 without it.\<close>

definition ram_save_live :: "migration_clock \<Rightarrow> int \<Rightarrow> ram_vm \<Rightarrow> 'o QEMUFile \<Rightarrow> (int \<times> ram_vm \<times> 'o QEMUFile) comp" where
  "ram_save_live mc stage vm f =
     (if stage < 0 then ret (0, cpu_physical_memory_set_dirty_tracking False vm, f)
      else comp_bind (if stage = 1 then ram_save_start vm f else ret (vm, f)) (\<lambda>(vm1, f1).
           comp_bind (send_limited vm1 f1) (\<lambda>(vm2, f2).
           comp_bind (if stage = 3 then comp_bind (send_rest vm2 f2) (\<lambda>(vm3, f3).
                        ret (cpu_physical_memory_set_dirty_tracking False vm3, f3))
                      else ret (vm2, f2)) (\<lambda>(vm4, f4).
           comp_bind (qemu_put_be64 RAM_SAVE_FLAG_EOS f4) (\<lambda>f5.
           comp_bind (ram_bytes_remaining vm4) (\<lambda>remaining.
             ret (of_bool (stage = 2 \<and>
                    expected_time mc remaining (bytes_transferred vm2 - bytes_transferred vm1) (round_ns mc stage vm1) \<le> migrate_max_downtime mc), vm4, f5)))))))"

section \<open>Loading\<close>

definition find_id :: "string \<Rightarrow> RAMBlock list \<Rightarrow> RAMBlock option" where
  "find_id name bs = find (\<lambda>b. RAMBlock.idstr b = name) bs"

definition get_block_id :: "'o QEMUFile \<Rightarrow> (string \<times> 'o QEMUFile) comp" where
  "get_block_id f =
     comp_bind (qemu_get_byte f) (\<lambda>(len, f1).
     comp_bind (qemu_get_buffer (unat len) f1) (\<lambda>(name, f2). ret (bytes_string name, f2)))"

text \<open>The host address of a record; \<open>None\<close> is the null pointer.\<close>

definition host_from_stream_offset :: "u64 \<Rightarrow> u64 \<Rightarrow> ram_vm \<Rightarrow> 'o QEMUFile \<Rightarrow> (u64 option \<times> ram_vm \<times> 'o QEMUFile) comp" where
  "host_from_stream_offset off fl vm f =
     (if fl AND RAM_SAVE_FLAG_CONTINUE \<noteq> 0
      then ret (map_option (\<lambda>b. RAMBlock.host b + off) (stream_block vm), vm, f)
      else comp_bind (get_block_id f) (\<lambda>(name, f1).
        let b = find_id name (vm_blocks vm)
        in ret (map_option (\<lambda>b. RAMBlock.host b + off) b, vm\<lparr>stream_block := b\<rparr>, f1)))"

definition store_page :: "u64 \<Rightarrow> u8 list \<Rightarrow> (u64 \<Rightarrow> u8) \<Rightarrow> u64 \<Rightarrow> u8" where
  "store_page p bs h = (\<lambda>a. if unat (a - p) < length bs then bs ! unat (a - p) else h a)"

text \<open>The list of blocks at the start of the stream must be one of this machine, with the same lengths.\<close>

partial_function (option) check_blocks :: "u64 \<Rightarrow> ram_vm \<Rightarrow> 'o QEMUFile \<Rightarrow> (bool \<times> 'o QEMUFile) comp" where
  "check_blocks remain vm f =
     (if remain = 0 then ret (True, f)
      else comp_bind (get_block_id f) (\<lambda>(name, f1).
           comp_bind (qemu_get_be64 f1) (\<lambda>(len, f2).
             case find_id name (vm_blocks vm) of
               None \<Rightarrow> ret (False, f2)
             | Some b \<Rightarrow> if blength b \<noteq> len then ret (False, f2) else check_blocks (remain - len) vm f2)))"

text \<open>Where a record of a page goes: by its RAM address in version 4, by block and offset in version 3.\<close>

definition record_target :: "int \<Rightarrow> u64 \<Rightarrow> u64 \<Rightarrow> ram_vm \<Rightarrow> 'o QEMUFile \<Rightarrow> (u64 option \<times> ram_vm \<times> 'o QEMUFile) comp" where
  "record_target ver addr fl vm f =
     (if ver \<noteq> 3
      then comp_bind (qemu_get_ram_ptr addr (ram_list (vm_mach vm))) (\<lambda>(p, rl).
             ret (Some p, vm\<lparr>vm_mach := (vm_mach vm)\<lparr>ram_list := rl\<rparr>\<rparr>, f))
      else host_from_stream_offset addr fl vm f)"

text \<open>
  One record. A page of bytes for which there is no block is stored through the null pointer. A page of zeros is filled and then given back to the host,
  which acts on whole pages of its own size.
\<close>

definition load_record :: "int \<Rightarrow> u64 \<Rightarrow> u64 \<Rightarrow> ram_vm \<Rightarrow> 'o QEMUFile \<Rightarrow> (int \<times> ram_vm \<times> 'o QEMUFile) comp" where
  "load_record ver addr fl vm f =
     (if fl AND RAM_SAVE_FLAG_MEM_SIZE \<noteq> 0 then
        if ver \<noteq> 3 then ret (if addr \<noteq> ram_bytes_total vm then - EINVAL else 0, vm, f)
        else comp_bind (check_blocks addr vm f) (\<lambda>(good, f1). ret (if good then 0 else - EINVAL, vm, f1))
      else if fl AND RAM_SAVE_FLAG_COMPRESS \<noteq> 0 then
        comp_bind (record_target ver addr fl vm f) (\<lambda>(p, vm1, f1).
          case p of
            None \<Rightarrow> ret (- EINVAL, vm1, f1)
          | Some p \<Rightarrow> comp_bind (qemu_get_byte f1) (\<lambda>(ch, f2).
              let h = store_page p (replicate (2 ^ TARGET_PAGE_BITS) (ucast ch)) (vm_host vm1)
              in ret (0, vm1\<lparr>vm_host := (if (ucast ch :: u8) = 0 then qemu_madvise (vm_os vm1) p (2 ^ TARGET_PAGE_BITS) h else h)\<rparr>, f2)))
      else if fl AND RAM_SAVE_FLAG_PAGE \<noteq> 0 then
        comp_bind (record_target ver addr fl vm f) (\<lambda>(p, vm1, f1).
          case p of
            None \<Rightarrow> raise NullDeref
          | Some p \<Rightarrow> comp_bind (qemu_get_buffer (2 ^ TARGET_PAGE_BITS) f1) (\<lambda>(bs, f2).
              ret (0, vm1\<lparr>vm_host := store_page p bs (vm_host vm1)\<rparr>, f2)))
      else ret (0, vm, f))"

partial_function (option) load_pages :: "int \<Rightarrow> ram_vm \<Rightarrow> 'o QEMUFile \<Rightarrow> (int \<times> ram_vm \<times> 'o QEMUFile) comp" where
  "load_pages ver vm f =
     comp_bind (qemu_get_be64 f) (\<lambda>(v, f1).
       let fl = low_bits_u64 v; addr = page_of_u64 v
       in comp_bind (load_record ver addr fl vm f1) (\<lambda>(rc, vm1, f2).
            if rc \<noteq> 0 then ret (rc, vm1, f2)
            else if qemu_file_has_error f2 then ret (- EIO, vm1, f2)
            else if fl AND RAM_SAVE_FLAG_EOS = 0 then load_pages ver vm1 f2
            else ret (0, vm1, f2)))"

definition ram_load :: "ram_vm \<Rightarrow> int \<Rightarrow> 'o QEMUFile \<Rightarrow> (int \<times> ram_vm \<times> 'o QEMUFile) comp" where
  "ram_load vm ver f = (if ver < 3 \<or> 4 < ver then ret (- EINVAL, vm, f) else load_pages ver vm f)"

section \<open>Pages\<close>

text \<open>The pages of a list of blocks, in the order in which they are sent: block and offset in the block.\<close>

definition npages :: "RAMBlock \<Rightarrow> nat" where
  "npages b = unat (blength b) div 1024"

definition block_pages :: "RAMBlock \<Rightarrow> (RAMBlock \<times> u64) list" where
  "block_pages b = map (\<lambda>k. (b, 1024 * of_nat k)) [0..<npages b]"

definition pages :: "RAMBlock list \<Rightarrow> (RAMBlock \<times> u64) list" where
  "pages bs = concat (map block_pages bs)"

definition page_addr :: "RAMBlock \<times> u64 \<Rightarrow> u64" where
  "page_addr p = offset (fst p) + snd p"

definition blocks_ok :: "RAMBlock list \<Rightarrow> bool" where
  "blocks_ok bs \<longleftrightarrow> bs \<noteq> [] \<and> distinct (map RAMBlock.idstr bs) \<and> laid_out bs \<and>
     (\<forall>b\<in>set bs. length (RAMBlock.idstr b) < 256 \<and> CHR 0x00 \<notin> set (RAMBlock.idstr b) \<and>
        1024 dvd unat (offset b) \<and> 1024 dvd unat (blength b)) \<and>
     sum_list (map (\<lambda>b. unat (blength b)) bs) < 2 ^ 64"

lemma PAGE64_eq: "PAGE64 = 1024"
  by (simp add: PAGE64_def TARGET_PAGE_BITS_def)

lemma unat_page_offset:
  assumes "k < npages b" shows "unat (1024 * of_nat k :: u64) = 1024 * k" "1024 * k < unat (blength b)"
proof -
  have "1024 * k < 1024 * npages b" using assms by simp
  also have "\<dots> \<le> unat (blength b)" unfolding npages_def by (rule times_div_less_eq_dividend)
  finally show lt: "1024 * k < unat (blength b)" .
  have eq: "(1024 * of_nat k :: u64) = of_nat (1024 * k)" by simp
  show "unat (1024 * of_nat k :: u64) = 1024 * k" unfolding eq using lt by (intro le_unat_uoi less_imp_le)
qed

lemma page_dvd_length:
  assumes "1024 dvd unat (blength b)" shows "1024 * npages b = unat (blength b)"
  using assms by (simp add: npages_def)

lemma nth_pages:
  assumes "i < length (pages bs)"
  obtains xs b ys k where "bs = xs @ b # ys" "k < npages b" "i = length (pages xs) + k" "pages bs ! i = (b, 1024 * of_nat k)"
proof -
  have "\<exists>xs b ys k. bs = xs @ b # ys \<and> k < npages b \<and> i = length (pages xs) + k \<and> pages bs ! i = (b, 1024 * of_nat k)"
    using assms
  proof (induction bs arbitrary: i)
    case (Cons b bs)
    have l: "length (block_pages b) = npages b" by (simp add: block_pages_def)
    show ?case
    proof (cases "i < npages b")
      case True
      then have "pages (b # bs) ! i = (b, 1024 * of_nat i)" by (simp add: pages_def nth_append l) (simp add: block_pages_def)
      with True show ?thesis by (intro exI [of _ "[]"] exI [of _ b] exI [of _ bs] exI [of _ i]) (simp add: pages_def)
    next
      case False
      then have "i - npages b < length (pages bs)" using Cons.prems l by (simp add: pages_def)
      from Cons.IH [OF this] obtain xs c ys k where *: "bs = xs @ c # ys" "k < npages c" "i - npages b = length (pages xs) + k"
        "pages bs ! (i - npages b) = (c, 1024 * of_nat k)" by blast
      have "pages (b # bs) ! i = (c, 1024 * of_nat k)" using False * l by (simp add: pages_def nth_append)
      with * False l show ?thesis by (intro exI [of _ "b # xs"] exI [of _ c] exI [of _ ys] exI [of _ k]) (simp add: pages_def)
    qed
  qed (simp add: pages_def)
  then show thesis using that by blast
qed

lemma pages_nth:
  assumes "bs = xs @ b # ys" and "k < npages b"
  shows "pages bs ! (length (pages xs) + k) = (b, 1024 * of_nat k)" "length (pages xs) + k < length (pages bs)"
  using assms by (simp_all add: pages_def nth_append block_pages_def)

lemma blocks_distinct: "blocks_ok bs \<Longrightarrow> distinct bs"
  by (auto simp: blocks_ok_def distinct_map)

lemma npages_pos: "blocks_ok bs \<Longrightarrow> b \<in> set bs \<Longrightarrow> 0 < npages b"
proof -
  assume ok: "blocks_ok bs" "b \<in> set bs"
  then have "1024 dvd unat (blength b)" "0 < unat (blength b)" by (auto simp: blocks_ok_def laid_out_def word_less_nat_alt)
  then show "0 < npages b" using page_dvd_length [of b] by (cases "npages b") auto
qed

lemma next_block_nth:
  assumes "distinct (xs @ b # ys)"
  shows "next_block b (xs @ b # ys) = (case ys of [] \<Rightarrow> hd (xs @ b # ys) | c # _ \<Rightarrow> c)"
proof -
  have "dropWhile (\<lambda>c. c \<noteq> b) (xs @ b # ys) = b # ys" using assms by (subst dropWhile_append2) auto
  then show ?thesis by (simp add: next_block_def split: list.splits)
qed

lemma next_page_nth:
  assumes ok: "blocks_ok bs" and i: "i < length (pages bs)"
  shows "next_page bs (pages bs ! i) = pages bs ! (Suc i mod length (pages bs))"
proof -
  from i obtain xs b ys k where s: "bs = xs @ b # ys" "k < npages b" "i = length (pages xs) + k" "pages bs ! i = (b, 1024 * of_nat k)"
    by (rule nth_pages)
  have b: "b \<in> set bs" using s(1) by simp
  have dvd: "1024 dvd unat (blength b)" using ok b by (simp add: blocks_ok_def)
  have le: "1024 * Suc k \<le> unat (blength b)" using s(2) page_dvd_length [OF dvd] by (metis Suc_leI mult_le_mono2)
  have eq: "(1024 * of_nat k + PAGE64 :: u64) = of_nat (1024 * Suc k)" by (simp add: PAGE64_eq)
  have "unat (1024 * of_nat k + PAGE64 :: u64) = 1024 * Suc k" unfolding eq using le by (rule le_unat_uoi)
  then have "blength b \<le> 1024 * of_nat k + PAGE64 \<longleftrightarrow> 1024 * npages b \<le> 1024 * Suc k"
    unfolding page_dvd_length [OF dvd] by (simp only: word_le_nat_alt)
  then have ge: "blength b \<le> 1024 * of_nat k + PAGE64 \<longleftrightarrow> Suc k = npages b" using s(2) by auto
  show ?thesis
  proof (cases "Suc k = npages b")
    case False
    then have "pages bs ! Suc i = (b, 1024 * of_nat (Suc k))" "Suc i < length (pages bs)"
      using pages_nth [OF s(1), of "Suc k"] s(2,3) by simp_all
    then show ?thesis using s(4) ge False by (simp add: next_page_def PAGE64_eq distrib_left add.commute)
  next
    case True
    then have i': "Suc i = length (pages (xs @ [b]))" using s(3) by (simp add: pages_def block_pages_def)
    have n: "next_page bs (b, 1024 * of_nat k) = (next_block b bs, 0)" using ge True by (simp add: next_page_def)
    show ?thesis
    proof (cases ys)
      case Nil
      then have "Suc i = length (pages bs)" using i' s(1) by simp
      moreover have "pages bs ! 0 = (hd bs, 0)"
        using pages_nth(1) [of bs "[]" "hd bs" "tl bs" 0] npages_pos [OF ok, of "hd bs"] ok by (simp add: blocks_ok_def pages_def)
      ultimately show ?thesis using n s(4) next_block_nth [of xs b ys] blocks_distinct [OF ok] s(1) Nil by simp
    next
      case (Cons c zs)
      then have "pages bs ! Suc i = (c, 0)" "Suc i < length (pages bs)"
        using pages_nth [of bs "xs @ [b]" c zs 0] npages_pos [OF ok, of c] s(1) i' by simp_all
      then show ?thesis using n s(4) next_block_nth [of xs b ys] blocks_distinct [OF ok] s(1) Cons by simp
    qed
  qed
qed

lemma page_index_div: "page_index a = unat a div 1024"
  by (simp add: page_index_def TARGET_PAGE_BITS_def drop_bit_eq_div unat_div)

lemma page_facts:
  assumes ok: "blocks_ok bs" and p: "p \<in> set (pages bs)"
  obtains k where "fst p \<in> set bs" "k < npages (fst p)" "snd p = 1024 * of_nat k" "unat (snd p) = 1024 * k"
    "unat (page_addr p) = unat (offset (fst p)) + 1024 * k" "page_index (page_addr p) = unat (offset (fst p)) div 1024 + k"
proof -
  from p obtain k where k: "fst p \<in> set bs" "k < npages (fst p)" "snd p = 1024 * of_nat k"
    by (auto simp: pages_def block_pages_def)
  note u = unat_page_offset [OF k(2)]
  have "unat (offset (fst p)) + unat (blength (fst p)) < 2 ^ 64" and d: "1024 dvd unat (offset (fst p))"
    using ok k(1) by (auto simp: blocks_ok_def laid_out_def)
  then have "unat (offset (fst p)) + unat (snd p) < 2 ^ LENGTH(64)" using u k(3) by simp
  then have a: "unat (page_addr p) = unat (offset (fst p)) + 1024 * k"
    unfolding page_addr_def using u(1) k(3) by (simp add: unat_add_lem [THEN iffD1])
  moreover have "page_index (page_addr p) = unat (offset (fst p)) div 1024 + k"
    unfolding page_index_div a using d by (auto elim!: dvdE)
  ultimately show thesis using that k u(1) by simp
qed

lemma distinct_pages: "blocks_ok bs \<Longrightarrow> distinct (pages bs)"
proof -
  assume ok: "blocks_ok bs"
  have inj: "inj_on (\<lambda>k. 1024 * of_nat k :: u64) {0..<npages b}" for b
  proof (rule inj_onI)
    fix k l assume "k \<in> {0..<npages b}" "l \<in> {0..<npages b}" "1024 * of_nat k = (1024 * of_nat l :: u64)"
    then have kl: "k < npages b" "l < npages b" and eq: "1024 * of_nat k = (1024 * of_nat l :: u64)" by simp_all
    have "unat (1024 * of_nat k :: u64) = unat (1024 * of_nat l :: u64)" by (simp only: eq)
    then show "k = l" by (simp only: unat_page_offset(1) [OF kl(1)] unat_page_offset(1) [OF kl(2)])
  qed
  have d: "distinct (block_pages b)" for b
    using inj [of b] by (auto simp: block_pages_def distinct_map inj_on_def)
  have "distinct bs' \<Longrightarrow> set bs' \<subseteq> set bs \<Longrightarrow> distinct (concat (map block_pages bs'))" for bs'
    by (induction bs') (auto simp: d, auto simp: block_pages_def)
  then show "distinct (pages bs)" unfolding pages_def using blocks_distinct [OF ok] by blast
qed

lemma page_index_inj:
  assumes ok: "blocks_ok bs" and p: "p \<in> set (pages bs)" "q \<in> set (pages bs)" and eq: "page_index (page_addr p) = page_index (page_addr q)"
  shows "p = q"
proof -
  obtain k where k: "fst p \<in> set bs" "k < npages (fst p)" "snd p = 1024 * of_nat k" "page_index (page_addr p) = unat (offset (fst p)) div 1024 + k"
    using page_facts [OF ok p(1)] by metis
  obtain l where l: "fst q \<in> set bs" "l < npages (fst q)" "snd q = 1024 * of_nat l" "page_index (page_addr q) = unat (offset (fst q)) div 1024 + l"
    using page_facts [OF ok p(2)] by metis
  have d: "1024 dvd unat (offset (fst p))" "1024 dvd unat (offset (fst q))" "1024 * npages (fst p) = unat (blength (fst p))"
      "1024 * npages (fst q) = unat (blength (fst q))"
    using ok k(1) l(1) by (auto simp: blocks_ok_def page_dvd_length)
  have e: "unat (offset (fst p)) + 1024 * k = unat (offset (fst q)) + 1024 * l"
    using eq k(4) l(4) d(1,2) by (auto elim!: dvdE)
  have "fst p = fst q"
  proof (rule ccontr)
    assume "fst p \<noteq> fst q"
    then have "unat (offset (fst p)) + unat (blength (fst p)) \<le> unat (offset (fst q)) \<or>
        unat (offset (fst q)) + unat (blength (fst q)) \<le> unat (offset (fst p))"
      using ok k(1) l(1) by (auto simp: blocks_ok_def laid_out_def)
    with e d(3,4) k(2) l(2) show False by linarith
  qed
  with e k(3) l(3) show ?thesis by (simp add: prod_eq_iff)
qed

lemma page_addrs_pages:
  assumes "blocks_ok bs" shows "concat (map page_addrs bs) = map page_addr (pages bs)"
proof -
  have "page_addrs b = map page_addr (block_pages b)" if "b \<in> set bs" for b
  proof -
    have "1024 dvd unat (blength b)" using assms that by (simp add: blocks_ok_def)
    then have "(unat (blength b) + 1023) div 1024 = npages b" by (auto simp: npages_def elim!: dvdE)
    then show ?thesis by (simp add: page_addrs_def block_pages_def page_addr_def PAGE64_eq TARGET_PAGE_BITS_def)
  qed
  then have "map page_addrs bs = map (\<lambda>b. map page_addr (block_pages b)) bs" by simp
  then show ?thesis by (simp only: pages_def map_concat map_map comp_def)
qed

section \<open>Dirty flags\<close>

definition covered :: "RAMList \<Rightarrow> bool" where
  "covered rl \<longleftrightarrow> (\<forall>p\<in>set (pages (blocks rl)). page_index (page_addr p) < length (phys_dirty rl))"

definition unsent :: "RAMList \<Rightarrow> RAMBlock \<times> u64 \<Rightarrow> bool" where
  "unsent rl p \<longleftrightarrow> phys_dirty rl ! page_index (page_addr p) AND MIGRATION_DIRTY_FLAG \<noteq> 0"

lemma get_dirty_page:
  "covered rl \<Longrightarrow> p \<in> set (pages (blocks rl)) \<Longrightarrow>
   cpu_physical_memory_get_dirty (page_addr p) MIGRATION_DIRTY_FLAG rl = ret (phys_dirty rl ! page_index (page_addr p) AND MIGRATION_DIRTY_FLAG)"
  by (simp add: covered_def cpu_physical_memory_get_dirty_def cpu_physical_memory_get_dirty_flags_def)

lemma set_all_dirty_effect:
  "covered rl \<Longrightarrow> set ps \<subseteq> set (pages (blocks rl)) \<Longrightarrow>
   \<exists>rl'. set_all_dirty (map page_addr ps) rl = ret rl' \<and> blocks rl' = blocks rl \<and> covered rl' \<and>
     (\<forall>p\<in>set ps. unsent rl' p) \<and> (\<forall>p. unsent rl p \<longrightarrow> unsent rl' p)"
proof (induction ps arbitrary: rl)
  case (Cons p ps)
  let ?i = "page_index (page_addr p)"
  define rl1 where "rl1 = (if unsent rl p then rl else rl\<lparr>phys_dirty := (phys_dirty rl)[?i := 0xFF]\<rparr>)"
  have i: "?i < length (phys_dirty rl)" using Cons.prems by (simp add: covered_def)
  have 1: "blocks rl1 = blocks rl" "covered rl1" "unsent rl1 p" "\<And>q. unsent rl q \<Longrightarrow> unsent rl1 q"
    using Cons.prems i by (auto simp: rl1_def covered_def unsent_def MIGRATION_DIRTY_FLAG_def nth_list_update)
  obtain rl' where 2: "set_all_dirty (map page_addr ps) rl1 = ret rl'" "blocks rl' = blocks rl1" "covered rl'"
      "\<forall>p\<in>set ps. unsent rl' p" "\<forall>p. unsent rl1 p \<longrightarrow> unsent rl' p"
    using Cons.IH [OF 1(2)] Cons.prems(2) 1(1) by auto
  have "set_all_dirty (map page_addr (p # ps)) rl = ret rl'"
    using Cons.prems i 2(1) by (auto simp: get_dirty_page rl1_def unsent_def cpu_physical_memory_set_dirty_def split: if_splits)
  moreover have "\<forall>q\<in>set (p # ps). unsent rl' q" "\<forall>q. unsent rl q \<longrightarrow> unsent rl' q" using 1 2 by (simp_all del: split_paired_All)
  ultimately show ?case using 1(1) 2(2,3)
    by (intro exI [of _ rl'] conjI) (simp_all del: set_all_dirty.simps split_paired_All)
qed simp

text \<open>Taking the flag from one page.\<close>

lemma aligned_page: "1024 dvd unat a \<Longrightarrow> page_of_u64 a = a" "1024 dvd unat a \<Longrightarrow> TARGET_PAGE_ALIGN a = a"
proof -
  assume "1024 dvd unat a"
  then have "unat (take_bit 10 a) = 0" by (simp add: take_bit_eq_mod unat_mod)
  then have t: "take_bit 10 a = 0" by (simp add: unsigned_eq_0_iff)
  then have z: "\<not> bit a n" if "n < 10" for n using that by (auto simp: bit_eq_iff bit_simps)
  show "page_of_u64 a = a"
    by (rule bit_word_eqI) (use z in \<open>auto simp: page_of_u64_def TARGET_PAGE_BITS_def bit_simps\<close>)
  have m: "(2 ^ 10 - 1 :: u64) = mask 10" by (simp only: mask_eq_exp_minus_1)
  have o: "a + mask 10 = a OR mask 10" by (rule disjunctive_add) (use z in \<open>auto simp: bit_simps\<close>)
  show "TARGET_PAGE_ALIGN a = a"
    unfolding TARGET_PAGE_ALIGN_def TARGET_PAGE_BITS_def m o
    by (rule bit_word_eqI) (use z in \<open>auto simp: bit_simps\<close>)
qed

lemma in_block_range:
  assumes "in_block a b" and "unat (offset b) + unat (blength b) < 2 ^ 64"
  shows "unat (offset b) \<le> unat a" "unat a < unat (offset b) + unat (blength b)"
proof -
  have lt: "unat (a - offset b) < unat (blength b)" using assms(1) by (simp add: in_block_def word_less_nat_alt)
  have "unat (offset b) + unat (a - offset b) < 2 ^ LENGTH(64)" using lt assms(2) by simp
  then have "unat (offset b + (a - offset b)) = unat (offset b) + unat (a - offset b)" by (rule unat_add_lem [THEN iffD1])
  then have "unat a = unat (offset b) + unat (a - offset b)" by simp
  then show "unat (offset b) \<le> unat a" "unat a < unat (offset b) + unat (blength b)" using lt by simp_all
qed

lemma laid_out_disjoint: "laid_out bs \<Longrightarrow> disjoint_blocks bs"
  unfolding disjoint_blocks_def block_range_def
proof (intro ballI impI equals0I)
  fix b c a assume lo: "laid_out bs" and bc: "b \<in> set bs" "c \<in> set bs" "b \<noteq> c" and "a \<in> {a. in_block a b} \<inter> {a. in_block a c}"
  then have "in_block a b" "in_block a c" by simp_all
  moreover have "unat (offset b) + unat (blength b) < 2 ^ 64" "unat (offset c) + unat (blength c) < 2 ^ 64" using lo bc by (auto simp: laid_out_def)
  ultimately have "unat (offset b) \<le> unat a" "unat a < unat (offset b) + unat (blength b)"
      "unat (offset c) \<le> unat a" "unat a < unat (offset c) + unat (blength c)"
    using in_block_range by blast+
  moreover have "unat (offset b) + unat (blength b) \<le> unat (offset c) \<or> unat (offset c) + unat (blength c) \<le> unat (offset b)"
    using lo bc by (auto simp: laid_out_def)
  ultimately show False by linarith
qed

lemma page_in_its_block:
  assumes ok: "blocks_ok bs" and p: "p \<in> set (pages bs)"
  shows "find (in_block (page_addr p)) bs = Some (fst p)" "find (in_block (page_addr p + 1024 - 1)) bs = Some (fst p)"
    "page_addr p - offset (fst p) = snd p" "page_addr p + 1024 - 1 - offset (fst p) = snd p + 1023"
proof -
  obtain k where k: "fst p \<in> set bs" "k < npages (fst p)" "snd p = 1024 * of_nat k" "unat (snd p) = 1024 * k"
    using page_facts [OF ok p] by metis
  have len: "1024 * Suc k \<le> unat (blength (fst p))"
    using k(1,2) ok page_dvd_length [of "fst p"] by (auto simp: blocks_ok_def Suc_le_eq dest!: bspec intro: mult_le_mono2 [of "Suc k"])
  have eq: "snd p + 1023 = of_nat (1024 * k + 1023)" using k(3) by simp
  have u: "unat (snd p + 1023) = 1024 * k + 1023" unfolding eq using len by (intro le_unat_uoi [of _ "blength (fst p)"]) simp
  show d: "page_addr p - offset (fst p) = snd p" "page_addr p + 1024 - 1 - offset (fst p) = snd p + 1023" by (simp_all add: page_addr_def)
  have inside: "in_block (page_addr p) (fst p)" "in_block (page_addr p + 1024 - 1) (fst p)"
    unfolding in_block_def d word_less_nat_alt using k(4) u len by simp_all
  have dis: "disjoint_blocks bs" using ok by (auto simp: blocks_ok_def intro: laid_out_disjoint)
  from find_in_block [OF dis k(1)] inside show "find (in_block (page_addr p)) bs = Some (fst p)"
    "find (in_block (page_addr p + 1024 - 1)) bs = Some (fst p)" by blast+
qed

text \<open>Resetting dirty flags changes the entries of the software TLB and no other part of a processor.\<close>

definition same_regs :: "CPUARMState list \<Rightarrow> CPUARMState list \<Rightarrow> bool" where
  "same_regs cs cs' \<longleftrightarrow> (\<forall>T. map (\<lambda>env. env\<lparr>tlb_table := T\<rparr>) cs = map (\<lambda>env. env\<lparr>tlb_table := T\<rparr>) cs')"

lemma same_regs_refl [simp]: "same_regs cs cs"
  by (simp add: same_regs_def)

lemma same_regs_trans: "same_regs as bs \<Longrightarrow> same_regs bs cs \<Longrightarrow> same_regs as cs"
  by (simp add: same_regs_def)

lemma same_regs_map_tlb: "same_regs (map (map_tlb f) cs) cs"
  by (simp add: same_regs_def map_tlb_def)

lemma reset_dirty_page:
  assumes ok: "blocks_ok (blocks (ram_list mach))" and cov: "covered (ram_list mach)" and p: "p \<in> set (pages (blocks (ram_list mach)))"
  shows "\<exists>cpus'. cpu_physical_memory_reset_dirty (page_addr p) (page_addr p + PAGE64) MIGRATION_DIRTY_FLAG mach cpus =
    ret (mach\<lparr>ram_list := (ram_list mach)\<lparr>phys_dirty := (phys_dirty (ram_list mach))
      [page_index (page_addr p) := phys_dirty (ram_list mach) ! page_index (page_addr p) AND NOT MIGRATION_DIRTY_FLAG]\<rparr>\<rparr>, cpus') \<and> same_regs cpus' cpus"
proof -
  let ?a = "page_addr p" and ?d = "phys_dirty (ram_list mach)" let ?i = "page_index ?a"
  obtain k where k: "fst p \<in> set (blocks (ram_list mach))" "unat ?a = unat (offset (fst p)) + 1024 * k" "k < npages (fst p)"
    using page_facts [OF ok p] by metis
  have off: "1024 dvd unat (offset (fst p))" "unat (offset (fst p)) + unat (blength (fst p)) < 2 ^ 64" "1024 * npages (fst p) = unat (blength (fst p))"
    using ok k(1) by (auto simp: blocks_ok_def laid_out_def page_dvd_length)
  have al: "1024 dvd unat ?a" using off(1) k(2) by simp
  have "unat ?a + 1024 < 2 ^ 64" using k(2,3) off(2,3) by linarith
  then have "unat ?a + unat (1024 :: u64) < 2 ^ LENGTH(64)" by simp
  then have ua: "unat (?a + 1024) = unat ?a + 1024" by (subst unat_add_lem [THEN iffD1]) simp_all
  have e: "page_of_u64 ?a = ?a" "TARGET_PAGE_ALIGN (?a + PAGE64) = ?a + 1024"
    using aligned_page [OF al] aligned_page(2) [of "?a + 1024"] al ua by (simp_all add: PAGE64_eq)
  have i: "?i < length ?d" using cov p by (simp add: covered_def)
  have one: "page_index 1024 = Suc 0" by (simp add: page_index_div)
  have upd: "take ?i ?d @ map (\<lambda>d. d AND NOT MIGRATION_DIRTY_FLAG) (take (Suc 0) (drop ?i ?d)) @ drop (?i + Suc 0) ?d =
      ?d[?i := ?d ! ?i AND NOT MIGRATION_DIRTY_FLAG]"
    using i by (simp add: upd_conv_take_nth_drop Cons_nth_drop_Suc [symmetric])
  show ?thesis
    using i page_in_its_block [OF ok p] upd same_regs_map_tlb
    by (simp add: cpu_physical_memory_reset_dirty_def e Let_def cpu_physical_memory_mask_dirty_range_def one
        qemu_safe_ram_ptr_def) (simp add: page_addr_def)
qed

section \<open>The run over the pages\<close>

text \<open>The first \<open>k\<close> pages have been sent, and the others have their flags.\<close>

definition progress :: "RAMBlock list \<Rightarrow> CPUARMState list \<Rightarrow> (u64 \<Rightarrow> u8) \<Rightarrow> nat \<Rightarrow> ram_vm \<Rightarrow> bool" where
  "progress bs cs h k vm \<longleftrightarrow> vm_blocks vm = bs \<and> same_regs (vm_cpus vm) cs \<and> vm_host vm = h \<and> covered (ram_list (vm_mach vm)) \<and> k \<le> length (pages bs) \<and>
     (\<forall>i<length (pages bs). unsent (ram_list (vm_mach vm)) (pages bs ! i) \<longleftrightarrow> k \<le> i) \<and>
     (if k = 0 then last_block vm = None \<and> last_offset vm = 0
      else last_block vm = Some (fst (pages bs ! (k - 1))) \<and> last_offset vm = snd (pages bs ! (k - 1)))"

lemma page_addr_nth_inj:
  assumes "blocks_ok bs" and "i < length (pages bs)" and "j < length (pages bs)" and "page_addr (pages bs ! i) = page_addr (pages bs ! j)"
  shows "i = j"
  using page_index_inj [OF assms(1), of "pages bs ! i" "pages bs ! j"] assms(2-4) distinct_pages [OF assms(1)]
  by (simp add: nth_eq_iff_index_eq)

lemma find_dirty_step:
  assumes "progress bs cs h k vm" and "i < length (pages bs)" and "blocks_ok bs"
  shows "find_dirty vm (pages bs ! i) =
    (if k \<le> i then ret (True, pages bs ! i)
     else let q = pages bs ! (Suc i mod length (pages bs))
          in if page_addr q \<noteq> page_addr (pages bs ! (k - 1)) then find_dirty vm q else ret (False, q))"
proof -
  have p: "pages bs ! i \<in> set (pages bs)" using assms(2) by simp
  have d: "cpu_physical_memory_get_dirty (offset (fst (pages bs ! i)) + snd (pages bs ! i)) MIGRATION_DIRTY_FLAG (ram_list (vm_mach vm)) =
      ret (phys_dirty (ram_list (vm_mach vm)) ! page_index (page_addr (pages bs ! i)) AND MIGRATION_DIRTY_FLAG)"
    using get_dirty_page [of "ram_list (vm_mach vm)" "pages bs ! i"] p assms(1) by (simp add: progress_def page_addr_def)
  have "unsent (ram_list (vm_mach vm)) (pages bs ! i) \<longleftrightarrow> k \<le> i" using assms(1,2) by (simp add: progress_def)
  with d next_page_nth [OF assms(3,2)] assms(1) show ?thesis
    by (subst find_dirty.simps) (auto simp: unsent_def Let_def progress_def page_addr_def)
qed

lemma pages_nonempty: "blocks_ok bs \<Longrightarrow> 0 < length (pages bs)"
  using npages_pos [of bs "hd bs"] pages_nth(2) [of bs "[]" "hd bs" "tl bs" 0]
  by (cases bs) (auto simp: blocks_ok_def pages_def)

lemma find_dirty_next:
  assumes "progress bs cs h k vm" and "k < length (pages bs)" and "blocks_ok bs"
  shows "find_dirty vm (if k = 0 then pages bs ! 0 else pages bs ! (k - 1)) = ret (True, pages bs ! k)"
proof (cases k)
  case 0
  with find_dirty_step [OF assms(1) _ assms(3), of 0] assms(2) show ?thesis by simp
next
  case (Suc j)
  then have "page_addr (pages bs ! k) \<noteq> page_addr (pages bs ! j)"
    using page_addr_nth_inj [OF assms(3), of k j] assms(2) by auto
  then show ?thesis using find_dirty_step [OF assms(1) _ assms(3), of j] find_dirty_step [OF assms(1) _ assms(3), of k] Suc assms(2) by simp
qed

lemma find_dirty_none:
  assumes pr: "progress bs cs h (length (pages bs)) vm" and ok: "blocks_ok bs"
  shows "find_dirty vm (pages bs ! (length (pages bs) - 1)) = ret (False, pages bs ! (length (pages bs) - 1))"
proof -
  let ?n = "length (pages bs)"
  have up: "find_dirty vm (pages bs ! i) = ret (False, pages bs ! (?n - 1))" if "Suc i < ?n" for i
    using that
  proof (induction "?n - i" arbitrary: i)
    case (Suc m)
    show ?case
    proof (cases "Suc i = ?n - 1")
      case True
      with find_dirty_step [OF pr _ ok, of i] Suc.prems show ?thesis by (simp add: Let_def)
    next
      case False
      have "?n - 1 < ?n" using Suc.prems by arith
      then have "page_addr (pages bs ! Suc i) \<noteq> page_addr (pages bs ! (?n - 1))"
        using page_addr_nth_inj [OF ok, of "Suc i" "?n - 1"] Suc.prems False by blast
      then show ?thesis using find_dirty_step [OF pr _ ok, of i] Suc.hyps Suc.prems False by (simp add: Let_def)
    qed
  qed simp
  have n: "0 < ?n" by (rule pages_nonempty [OF ok])
  show ?thesis
  proof (cases "?n = 1")
    case True
    then show ?thesis using find_dirty_step [OF pr _ ok, of 0] by simp
  next
    case False
    then have "page_addr (pages bs ! 0) \<noteq> page_addr (pages bs ! (?n - 1))"
      using page_addr_nth_inj [OF ok, of 0 "?n - 1"] n by auto
    then show ?thesis using find_dirty_step [OF pr _ ok, of "?n - 1"] up [of 0] False n by (simp add: Let_def)
  qed
qed

section \<open>The bytes of a page\<close>

definition id_code :: "RAMBlock \<Rightarrow> u8 list" where
  "id_code b = of_nat (length (RAMBlock.idstr b)) # string_bytes (RAMBlock.idstr b)"

definition record_flags :: "(u64 \<Rightarrow> u8) \<Rightarrow> RAMBlock option \<Rightarrow> RAMBlock \<times> u64 \<Rightarrow> u64" where
  "record_flags h prev p = (if prev = Some (fst p) then RAM_SAVE_FLAG_CONTINUE else 0) OR
     (if is_dup_page h (RAMBlock.host (fst p) + snd p) (h (RAMBlock.host (fst p) + snd p)) then RAM_SAVE_FLAG_COMPRESS else RAM_SAVE_FLAG_PAGE)"

definition record_body :: "(u64 \<Rightarrow> u8) \<Rightarrow> RAMBlock option \<Rightarrow> RAMBlock \<times> u64 \<Rightarrow> u8 list" where
  "record_body h prev p =
     (let a = RAMBlock.host (fst p) + snd p
      in (if prev = Some (fst p) then [] else id_code (fst p)) @ (if is_dup_page h a (h a) then [h a] else page_bytes h a))"

definition record_code :: "(u64 \<Rightarrow> u8) \<Rightarrow> RAMBlock option \<Rightarrow> RAMBlock \<times> u64 \<Rightarrow> u8 list" where
  "record_code h prev p = be64 (snd p OR record_flags h prev p) @ record_body h prev p"

context back_end
begin

lemma block_id_puts: "length (RAMBlock.idstr b) < 256 \<Longrightarrow> puts (writing put cl holds) (put_block_id b) (id_code b)"
proof -
  assume len: "length (RAMBlock.idstr b) < 256"
  have "puts (writing put cl holds) (put_block_id b) ([ucast (of_nat (length (RAMBlock.idstr b)) :: u32)] @ string_bytes (RAMBlock.idstr b))"
    unfolding put_block_id_def by (intro puts_bind byte.puts_one) (simp add: puts_def put_buffer_code)
  then show ?thesis using len by (simp add: id_code_def u8_of_length)
qed

lemma block_id_gets:
  assumes "length (RAMBlock.idstr b) < 256" and "CHR 0x00 \<notin> set (RAMBlock.idstr b)"
  shows "gets source get_block_id (id_code b) (RAMBlock.idstr b)"
proof -
  have n: "unat (of_nat (length (RAMBlock.idstr b)) :: u32) = length (string_bytes (RAMBlock.idstr b))"
      "(of_nat (length (RAMBlock.idstr b)) :: u32) < 256"
    using assms(1) by (simp_all add: u8_of_length word_less_nat_alt)
  have "gets source (qemu_get_buffer (unat (of_nat (length (RAMBlock.idstr b)) :: u32))) (string_bytes (RAMBlock.idstr b)) (string_bytes (RAMBlock.idstr b))"
    unfolding n(1) gets_def by (blast intro: get_buffer_code)
  then have "gets source get_block_id ([ucast (of_nat (length (RAMBlock.idstr b)) :: u32)] @ string_bytes (RAMBlock.idstr b))
      (bytes_string (string_bytes (RAMBlock.idstr b)))"
    unfolding get_block_id_def
    by (intro gets_bind [where v = "of_nat (length (RAMBlock.idstr b))"] gets_map [where h = bytes_string] byte.gets_one n(2))
  then show ?thesis using assms by (simp add: id_code_def u8_of_length string_bytes_roundtrip)
qed

lemma send_page_code:
  assumes "length (RAMBlock.idstr b) < 256" and "writing put cl holds f bs (length (record_code (vm_host vm) (last_block vm) (b, off)) + r)"
  shows "\<exists>n f'. send_page b off vm f = ret (n, f') \<and> n \<noteq> 0 \<and> writing put cl holds f' (bs @ record_code (vm_host vm) (last_block vm) (b, off)) r"
proof -
  let ?a = "RAMBlock.host b + off" and ?h = "vm_host vm" let ?dup = "is_dup_page ?h ?a (?h ?a)"
  let ?cont = "if last_block vm = Some b then RAM_SAVE_FLAG_CONTINUE else 0"
  have c: "?cont = 0 \<longleftrightarrow> last_block vm \<noteq> Some b" by (simp add: RAM_SAVE_FLAG_CONTINUE_def)
  have id: "puts (writing put cl holds) (\<lambda>f. if ?cont = 0 then put_block_id b f else ret f) (if ?cont = 0 then id_code b else [])"
    by (intro puts_if block_id_puts assms(1))
  have body: "puts (writing put cl holds) (\<lambda>f. if ?dup then qemu_put_byte (ucast (?h ?a)) f else qemu_put_buffer (page_bytes ?h ?a) f)
      (if ?dup then [?h ?a] else page_bytes ?h ?a)"
    using byte.puts_one [of "ucast (?h ?a)"] by (simp add: puts_def put_buffer_code ucast_u8_small)
  have "puts (writing put cl holds) (\<lambda>f. comp_bind (qemu_put_be64 (off OR ?cont OR (if ?dup then RAM_SAVE_FLAG_COMPRESS else RAM_SAVE_FLAG_PAGE)) f) (\<lambda>f1.
      comp_bind (if ?cont = 0 then put_block_id b f1 else ret f1) (\<lambda>f2.
        if ?dup then qemu_put_byte (ucast (?h ?a)) f2 else qemu_put_buffer (page_bytes ?h ?a) f2)))
      (be64 (off OR ?cont OR (if ?dup then RAM_SAVE_FLAG_COMPRESS else RAM_SAVE_FLAG_PAGE)) @ (if ?cont = 0 then id_code b else []) @
        (if ?dup then [?h ?a] else page_bytes ?h ?a))" (is "puts _ ?act ?code")
    by (intro puts_bind be64.puts_one id body)
  moreover have "?code = record_code ?h (last_block vm) (b, off)"
    unfolding record_code_def record_flags_def record_body_def Let_def fst_conv snd_conv c by (simp add: or.assoc)
  ultimately obtain f' where f': "?act f = ret f'" "writing put cl holds f' (bs @ record_code ?h (last_block vm) (b, off)) r"
    using putsD [of _ ?act _ f bs r] assms(2) by (metis (no_types, lifting))
  have "send_page b off vm f = comp_bind (?act f) (\<lambda>f3. ret (if ?dup then 1 else 2 ^ TARGET_PAGE_BITS, f3))"
    by (simp add: send_page_def Let_def comp_bind_assoc cong: if_cong)
  then show ?thesis using f' by simp
qed

lemma no_rate_limit: "writing put cl holds f bs r \<Longrightarrow> qemu_file_rate_limit f = 0"
  by (simp add: writing_def qemu_file_rate_limit_def)

lemma save_block_next:
  assumes pr: "progress bs cs h k vm" and k: "k < length (pages bs)" and ok: "blocks_ok bs"
    and f: "writing put cl holds f ds (length (record_code h (last_block vm) (pages bs ! k)) + r)"
  shows "\<exists>n vm' f'. ram_save_block vm f = ret (n, vm', f') \<and> n \<noteq> 0 \<and> progress bs cs h (Suc k) vm' \<and>
    writing put cl holds f' (ds @ record_code h (last_block vm) (pages bs ! k)) r"
proof -
  let ?p = "pages bs ! k" let ?rl = "ram_list (vm_mach vm)"
  have p: "?p \<in> set (pages bs)" using k by simp
  have vm: "vm_blocks vm = bs" "vm_host vm = h" "covered ?rl" using pr by (simp_all add: progress_def)
  have hd: "pages bs ! 0 = (hd bs, 0)"
    using pages_nth(1) [of bs "[]" "hd bs" "tl bs" 0] npages_pos [OF ok, of "hd bs"] ok by (simp add: blocks_ok_def pages_def)
  have start: "(case last_block vm of Some b \<Rightarrow> b | None \<Rightarrow> hd bs, last_offset vm) = (if k = 0 then pages bs ! 0 else pages bs ! (k - 1))"
    using pr hd by (auto simp: progress_def)
  obtain cpus' where rs: "cpu_physical_memory_reset_dirty (page_addr ?p) (page_addr ?p + PAGE64) MIGRATION_DIRTY_FLAG (vm_mach vm) (vm_cpus vm) =
      ret ((vm_mach vm)\<lparr>ram_list := ?rl\<lparr>phys_dirty := (phys_dirty ?rl)[page_index (page_addr ?p) :=
        phys_dirty ?rl ! page_index (page_addr ?p) AND NOT MIGRATION_DIRTY_FLAG]\<rparr>\<rparr>, cpus')" (is "_ = ret (?mach, _)") and regs: "same_regs cpus' (vm_cpus vm)"
    using reset_dirty_page [of "vm_mach vm" ?p "vm_cpus vm"] ok vm p by auto
  have "fst ?p \<in> set bs" using page_facts [OF ok p] by metis
  then have len: "length (RAMBlock.idstr (fst ?p)) < 256" using ok by (simp add: blocks_ok_def)
  obtain n f' where s: "send_page (fst ?p) (snd ?p) vm f = ret (n, f')" "n \<noteq> 0"
      "writing put cl holds f' (ds @ record_code h (last_block vm) ?p) r"
    using send_page_code [OF len, of f ds vm "snd ?p" r] f vm(2) by auto
  let ?vm = "vm\<lparr>vm_mach := ?mach, vm_cpus := cpus', last_block := Some (fst ?p), last_offset := snd ?p\<rparr>"
  have "bs \<noteq> []" using ok by (simp add: blocks_ok_def)
  have fd: "find_dirty vm (case last_block vm of Some b \<Rightarrow> b | None \<Rightarrow> hd (vm_blocks vm), last_offset vm) = ret (True, ?p)"
    unfolding vm(1) start by (rule find_dirty_next [OF pr k ok])
  have "ram_save_block vm f = ret (n, ?vm, f')"
    using \<open>bs \<noteq> []\<close> rs s(1) vm(1) by (simp add: ram_save_block_def fd page_addr_def case_prod_beta)
  moreover have "progress bs cs h (Suc k) ?vm"
  proof -
    have "unsent (ram_list ?mach) (pages bs ! i) \<longleftrightarrow> Suc k \<le> i" if i: "i < length (pages bs)" for i
    proof (cases "i = k")
      case True
      then show ?thesis using vm p by (simp add: unsent_def covered_def and.assoc)
    next
      case False
      then have "page_index (page_addr (pages bs ! i)) \<noteq> page_index (page_addr ?p)"
        using page_index_inj [OF ok _ p, of "pages bs ! i"] i k distinct_pages [OF ok] by (auto simp: nth_eq_iff_index_eq)
      moreover have "unsent ?rl (pages bs ! i) \<longleftrightarrow> k \<le> i" using pr i by (simp add: progress_def)
      ultimately show ?thesis using False by (auto simp: unsent_def)
    qed
    moreover have "same_regs cpus' cs" using regs pr by (auto simp: progress_def intro: same_regs_trans)
    ultimately show ?thesis using vm k by (simp add: progress_def covered_def)
  qed
  ultimately show ?thesis using s(2,3) by blast
qed

lemma save_block_none:
  assumes pr: "progress bs cs h (length (pages bs)) vm" and ok: "blocks_ok bs"
  shows "\<exists>vm'. ram_save_block vm f = ret (0, vm', f) \<and> progress bs cs h (length (pages bs)) vm'"
proof -
  let ?p = "pages bs ! (length (pages bs) - 1)"
  have n: "0 < length (pages bs)" by (rule pages_nonempty [OF ok])
  then have l: "last_block vm = Some (fst ?p)" "last_offset vm = snd ?p" using pr by (simp_all add: progress_def)
  then have "ram_save_block vm f = ret (0, vm\<lparr>last_block := Some (fst ?p), last_offset := snd ?p\<rparr>, f)"
    using find_dirty_none [OF pr ok] by (simp add: ram_save_block_def case_prod_beta)
  then show ?thesis using pr l by (auto simp: progress_def)
qed

end

definition rest_code :: "RAMBlock list \<Rightarrow> (u64 \<Rightarrow> u8) \<Rightarrow> nat \<Rightarrow> u8 list" where
  "rest_code bs h k = concat (map (\<lambda>i. record_code h (if i = 0 then None else Some (fst (pages bs ! (i - 1)))) (pages bs ! i)) [k..<length (pages bs)])"

lemma rest_code_step:
  "k < length (pages bs) \<Longrightarrow> progress bs cs h k vm \<Longrightarrow> rest_code bs h k = record_code h (last_block vm) (pages bs ! k) @ rest_code bs h (Suc k)"
  by (auto simp: rest_code_def upt_conv_Cons progress_def)

lemma rest_code_end: "rest_code bs h (length (pages bs)) = []"
  by (simp add: rest_code_def)

lemma progress_add_sent [simp]: "progress bs cs h k (add_sent n vm) = progress bs cs h k vm"
  by (simp add: progress_def add_sent_def)

context back_end
begin

lemma send_limited_code:
  assumes ok: "blocks_ok bs"
  shows "progress bs cs h k vm \<Longrightarrow> writing put cl holds f ds (length (rest_code bs h k) + r) \<Longrightarrow>
    \<exists>vm' f'. send_limited vm f = ret (vm', f') \<and> progress bs cs h (length (pages bs)) vm' \<and> writing put cl holds f' (ds @ rest_code bs h k) r"
proof (induction "length (pages bs) - k" arbitrary: k vm f ds)
  case 0
  then have k: "k = length (pages bs)" by (simp add: progress_def)
  obtain vm' where "ram_save_block vm f = ret (0, vm', f)" "progress bs cs h (length (pages bs)) vm'"
    using save_block_none [OF _ ok, of cs h vm f] 0 k by blast
  moreover have "qemu_file_rate_limit f = 0" by (rule no_rate_limit [OF 0(3)])
  ultimately show ?case using 0 k by (subst send_limited.simps) (simp add: rest_code_end)
next
  case (Suc m)
  then have k: "k < length (pages bs)" by simp
  note c = rest_code_step [OF k Suc.prems(1)]
  obtain n vm1 f1 where 1: "ram_save_block vm f = ret (n, vm1, f1)" "n \<noteq> 0" "progress bs cs h (Suc k) vm1"
      "writing put cl holds f1 (ds @ record_code h (last_block vm) (pages bs ! k)) (length (rest_code bs h (Suc k)) + r)"
    using save_block_next [OF Suc.prems(1) k ok, of f ds "length (rest_code bs h (Suc k)) + r"] Suc.prems(2) by (auto simp: c add.assoc)
  have "qemu_file_rate_limit f = 0" by (rule no_rate_limit [OF Suc.prems(2)])
  then have "send_limited vm f = send_limited (add_sent n vm1) f1" using 1(1,2) by (subst send_limited.simps) simp
  with Suc.hyps(1) [of "Suc k" "add_sent n vm1", OF _ _ 1(4)] Suc.hyps(2) 1(3) show ?case by (simp add: c)
qed

end

section \<open>The stages of saving\<close>

definition start_code :: "RAMBlock list \<Rightarrow> u8 list" where
  "start_code bs = be64 (sum_list (map blength bs) OR RAM_SAVE_FLAG_MEM_SIZE) @ concat (map (\<lambda>b. id_code b @ be64 (blength b)) bs)"

lemma blocks_ok_sort: "blocks_ok bs \<Longrightarrow> blocks_ok (sort_key offset bs)"
proof -
  assume ok: "blocks_ok bs"
  have d: "distinct bs" "distinct (sort_key offset bs)" using blocks_distinct [OF ok] by simp_all
  have s: "sum_list (map (\<lambda>b. unat (blength b)) (sort_key offset bs)) = sum_list (map (\<lambda>b. unat (blength b)) bs)"
    using d by (simp add: sum_list_distinct_conv_sum_set)
  have "sort_key offset bs \<noteq> []" using ok by (metis blocks_ok_def set_empty set_sort)
  then show ?thesis using ok d s by (simp add: blocks_ok_def distinct_map laid_out_def)
qed

lemma covered_sort: "covered rl \<Longrightarrow> covered (rl\<lparr>blocks := sort_key offset (blocks rl)\<rparr>)"
  by (simp add: covered_def pages_def)

lemma count_dirty_none:
  "covered rl \<Longrightarrow> set ps \<subseteq> set (pages (blocks rl)) \<Longrightarrow> \<forall>p\<in>set ps. \<not> unsent rl p \<Longrightarrow> count_dirty rl (map page_addr ps) = ret 0"
  by (induction ps) (auto simp: get_dirty_page unsent_def)

lemma nothing_remains:
  assumes "progress bs cs h (length (pages bs)) vm" and "blocks_ok bs"
  shows "ram_bytes_remaining vm = ret 0"
proof -
  have vm: "vm_blocks vm = bs" "covered (ram_list (vm_mach vm))" using assms(1) by (simp_all add: progress_def)
  have "\<forall>p\<in>set (pages bs). \<not> unsent (ram_list (vm_mach vm)) p"
  proof
    fix p assume "p \<in> set (pages bs)"
    then obtain i where "i < length (pages bs)" "p = pages bs ! i" by (auto simp: in_set_conv_nth)
    then show "\<not> unsent (ram_list (vm_mach vm)) p" using assms(1) by (simp add: progress_def)
  qed
  then show ?thesis
    using count_dirty_none [OF vm(2), of "pages bs"] vm(1) by (simp add: ram_bytes_remaining_def ram_save_remaining_def page_addrs_pages [OF assms(2)])
qed

context back_end
begin

lemma save_start_code:
  assumes ok: "blocks_ok (vm_blocks vm)" and cov: "covered (ram_list (vm_mach vm))"
    and f: "writing put cl holds f ds (length (start_code (sort_key offset (vm_blocks vm))) + r)"
  shows "\<exists>vm' f'. ram_save_start vm f = ret (vm', f') \<and> progress (sort_key offset (vm_blocks vm)) (vm_cpus vm) (vm_host vm) 0 vm' \<and>
    writing put cl holds f' (ds @ start_code (sort_key offset (vm_blocks vm))) r"
proof -
  let ?bs = "sort_key offset (vm_blocks vm)" and ?rl = "(ram_list (vm_mach vm))\<lparr>blocks := sort_key offset (vm_blocks vm)\<rparr>"
  let ?vm1 = "sort_ram_list (vm\<lparr>bytes_transferred := 0, last_block := None, last_offset := 0\<rparr>)"
  have ok': "blocks_ok ?bs" by (rule blocks_ok_sort [OF ok])
  have vm1: "vm_blocks ?vm1 = ?bs" "ram_list (vm_mach ?vm1) = ?rl" by (simp_all add: sort_ram_list_def)
  obtain rl where rl: "set_all_dirty (map page_addr (pages ?bs)) ?rl = ret rl" "blocks rl = ?bs" "covered rl" "\<forall>p\<in>set (pages ?bs). unsent rl p"
    using set_all_dirty_effect [OF covered_sort [OF cov], of "pages ?bs"] by auto
  let ?vm2 = "cpu_physical_memory_set_dirty_tracking True (?vm1\<lparr>vm_mach := (vm_mach ?vm1)\<lparr>ram_list := rl\<rparr>\<rparr>)"
  have vm2: "vm_blocks ?vm2 = ?bs" using rl(2) by (simp add: cpu_physical_memory_set_dirty_tracking_def)
  have entry: "puts (writing put cl holds) (put_each put_block_entry cs) (concat (map (\<lambda>b. id_code b @ be64 (blength b)) cs))"
    if "set cs \<subseteq> set ?bs" for cs
    using that
  proof (induction cs)
    case Nil
    have "put_each put_block_entry [] = ret" by (rule ext) simp
    then show ?case by (simp add: puts_ret)
  next
    case (Cons c cs)
    then have len: "length (RAMBlock.idstr c) < 256" using ok by (auto simp: blocks_ok_def)
    have "puts (writing put cl holds) (put_block_entry c) (id_code c @ be64 (blength c))"
      unfolding put_block_entry_def by (intro puts_bind block_id_puts [OF len] be64.puts_one)
    from puts_bind [OF this Cons.IH] Cons.prems show ?case by simp
  qed
  have "puts (writing put cl holds) (\<lambda>f. comp_bind (qemu_put_be64 (ram_bytes_total ?vm2 OR RAM_SAVE_FLAG_MEM_SIZE) f) (put_each put_block_entry ?bs))
      (start_code ?bs)"
    unfolding start_code_def ram_bytes_total_def vm2 by (intro puts_bind be64.puts_one entry subset_refl)
  from putsD [OF this f] obtain f' where f': "comp_bind (qemu_put_be64 (ram_bytes_total ?vm2 OR RAM_SAVE_FLAG_MEM_SIZE) f) (put_each put_block_entry ?bs) = ret f'"
      "writing put cl holds f' (ds @ start_code ?bs) r" by blast
  from f'(1) have "ram_save_start vm f = ret (?vm2, f')"
    using vm1 vm2 rl(1) by (auto simp: ram_save_start_def Let_def page_addrs_pages [OF ok'] dest!: comp_bind_eq_retD)
  moreover have "progress ?bs (vm_cpus vm) (vm_host vm) 0 ?vm2"
    using rl by (simp add: progress_def cpu_physical_memory_set_dirty_tracking_def sort_ram_list_def)
  ultimately show ?thesis using f'(2) by blast
qed

lemma save_live_1:
  assumes ok: "blocks_ok (vm_blocks vm)" and cov: "covered (ram_list (vm_mach vm))"
    and bs: "bs = sort_key offset (vm_blocks vm)" and cs: "cs = vm_cpus vm" and h: "h = vm_host vm"
    and f: "writing put cl holds f ds (length (start_code bs @ rest_code bs h 0 @ be64 RAM_SAVE_FLAG_EOS) + r)"
  shows "\<exists>rc vm' f'. ram_save_live mc 1 vm f = ret (rc, vm', f') \<and> progress bs cs h (length (pages bs)) vm' \<and>
    writing put cl holds f' (ds @ start_code bs @ rest_code bs h 0 @ be64 RAM_SAVE_FLAG_EOS) r"
proof -
  have ok': "blocks_ok bs" unfolding bs by (rule blocks_ok_sort [OF ok])
  obtain vm1 f1 where 1: "ram_save_start vm f = ret (vm1, f1)" "progress bs cs h 0 vm1"
      "writing put cl holds f1 (ds @ start_code bs) (length (rest_code bs h 0) + (length (be64 RAM_SAVE_FLAG_EOS) + r))"
    using save_start_code [OF ok cov, of f ds "length (rest_code bs h 0) + (length (be64 RAM_SAVE_FLAG_EOS) + r)"] f
    by (auto simp: bs cs h add.assoc)
  obtain vm2 f2 where 2: "send_limited vm1 f1 = ret (vm2, f2)" "progress bs cs h (length (pages bs)) vm2"
      "writing put cl holds f2 ((ds @ start_code bs) @ rest_code bs h 0) (length (be64 RAM_SAVE_FLAG_EOS) + r)"
    using send_limited_code [OF ok' 1(2,3)] by blast
  obtain f3 where 3: "qemu_put_be64 RAM_SAVE_FLAG_EOS f2 = ret f3"
      "writing put cl holds f3 (((ds @ start_code bs) @ rest_code bs h 0) @ be64 RAM_SAVE_FLAG_EOS) r"
    using be64.put_code [OF 2(3)] by blast
  show ?thesis using 1(1) 2(1,2) 3 nothing_remains [OF 2(2) ok'] by (simp add: ram_save_live_def)
qed

lemma save_live_2:
  assumes pr: "progress bs cs h (length (pages bs)) vm" and ok: "blocks_ok bs" and mc: "0 < round_ns mc 2 vm"
    and f: "writing put cl holds f ds (length (be64 RAM_SAVE_FLAG_EOS) + r)"
  shows "\<exists>vm' f'. ram_save_live mc 2 vm f = ret (1, vm', f') \<and> progress bs cs h (length (pages bs)) vm' \<and>
    writing put cl holds f' (ds @ be64 RAM_SAVE_FLAG_EOS) r"
proof -
  obtain vm1 f1 where 1: "send_limited vm f = ret (vm1, f1)" "progress bs cs h (length (pages bs)) vm1"
      "writing put cl holds f1 (ds @ []) (length (be64 RAM_SAVE_FLAG_EOS) + r)"
    using send_limited_code [OF ok pr, of f ds "length (be64 RAM_SAVE_FLAG_EOS) + r"] f by (auto simp: rest_code_end)
  obtain f2 where 2: "qemu_put_be64 RAM_SAVE_FLAG_EOS f1 = ret f2" "writing put cl holds f2 ((ds @ []) @ be64 RAM_SAVE_FLAG_EOS) r"
    using be64.put_code [OF 1(3)] by blast
  show ?thesis using 1(1,2) 2 nothing_remains [OF 1(2) ok] mc by (simp add: ram_save_live_def expected_time_def)
qed

lemma save_live_3:
  assumes pr: "progress bs cs h (length (pages bs)) vm" and ok: "blocks_ok bs"
    and f: "writing put cl holds f ds (length (be64 RAM_SAVE_FLAG_EOS) + r)"
  shows "\<exists>vm' f'. ram_save_live mc 3 vm f = ret (0, vm', f') \<and> progress bs cs h (length (pages bs)) vm' \<and>
    writing put cl holds f' (ds @ be64 RAM_SAVE_FLAG_EOS) r"
proof -
  obtain vm1 f1 where 1: "send_limited vm f = ret (vm1, f1)" "progress bs cs h (length (pages bs)) vm1"
      "writing put cl holds f1 (ds @ []) (length (be64 RAM_SAVE_FLAG_EOS) + r)"
    using send_limited_code [OF ok pr, of f ds "length (be64 RAM_SAVE_FLAG_EOS) + r"] f by (auto simp: rest_code_end)
  obtain vm2 where "ram_save_block vm1 f1 = ret (0, vm2, f1)" and 2: "progress bs cs h (length (pages bs)) vm2"
    using save_block_none [OF 1(2) ok] by blast
  then have rest: "send_rest vm1 f1 = ret (vm2, f1)" by (subst send_rest.simps) simp
  have pr3: "progress bs cs h (length (pages bs)) (cpu_physical_memory_set_dirty_tracking False vm2)"
    using 2 by (simp add: progress_def cpu_physical_memory_set_dirty_tracking_def)
  obtain f3 where 3: "qemu_put_be64 RAM_SAVE_FLAG_EOS f1 = ret f3" "writing put cl holds f3 ((ds @ []) @ be64 RAM_SAVE_FLAG_EOS) r"
    using be64.put_code [OF 1(3)] by blast
  show ?thesis using 1(1) rest pr3 3 nothing_remains [OF pr3 ok] by (simp add: ram_save_live_def)
qed

end

end
