(* ===== verification/Ram_Restore.thy ===== *)
theory Ram_Restore
  imports Ram_Snapshot
begin

unbundle bit_operations_syntax

text \<open>
  Loading what \<open>ram_save_live\<close> wrote (arch_init.c): each record puts a page back, so that after the three sections of a snapshot every block of RAM has
  its contents again. A page of zeros is also given back to the host, which may clear the pages behind it in the same page of the host; they come later in the stream, so that
  they are put back afterwards.
\<close>

section \<open>Loading the records\<close>

lemma u32_of_bytes_parts:
  "ucast (u32_of_bytes a b c d) = a" "ucast (drop_bit 8 (u32_of_bytes a b c d)) = b"
  "ucast (drop_bit 16 (u32_of_bytes a b c d)) = c" "ucast (drop_bit 24 (u32_of_bytes a b c d)) = d"
  unfolding u32_of_bytes_def by (rule bit_word_eqI; auto simp: bit_simps dest: bit_imp_le_length)+

lemma u32_of_bytes_inj:
  assumes "u32_of_bytes a b c d = u32_of_bytes a' b' c' d'" shows "a = a'" "b = b'" "c = c'" "d = d'"
  using u32_of_bytes_parts [of a b c d] u32_of_bytes_parts [of a' b' c' d'] unfolding assms by simp_all

lemma dup_page:
  assumes "is_dup_page h p ch" shows "page_bytes h p = replicate (2 ^ TARGET_PAGE_BITS) ch"
proof (rule nth_equalityI)
  fix i assume "i < length (page_bytes h p)"
  then have i: "i < 1024" by (simp add: page_bytes_def TARGET_PAGE_BITS_def)
  define j where "j = i div 4"
  have j: "j < 256" using i by (simp add: j_def)
  have "push_bit 24 (ucast ch) OR push_bit 16 (ucast ch) OR push_bit 8 (ucast ch) OR ucast ch = u32_of_bytes ch ch ch ch"
    by (simp add: u32_of_bytes_def ac_simps)
  then have w: "host_word h (p + 4 * of_nat j) = u32_of_bytes ch ch ch ch"
    using assms j by (simp add: is_dup_page_def Let_def list_all_iff TARGET_PAGE_BITS_def)
  note b = u32_of_bytes_inj [OF w [unfolded host_word_def]]
  have "i = 4 * j + i mod 4" by (simp add: j_def)
  then have a: "p + of_nat i = p + 4 * of_nat j + of_nat (i mod 4)" by (metis add.assoc of_nat_add of_nat_mult of_nat_numeral)
  consider "i mod 4 = 0" | "i mod 4 = 1" | "i mod 4 = 2" | "i mod 4 = 3" by fastforce
  then have "h (p + of_nat i) = ch" unfolding a using b by cases simp_all
  then show "page_bytes h p ! i = replicate (2 ^ TARGET_PAGE_BITS) ch ! i" using i by (simp add: page_bytes_def TARGET_PAGE_BITS_def)
qed (simp add: page_bytes_def)

lemma record_value:
  assumes "low_bits_u64 off = 0" and "page_of_u64 fl = 0"
  shows "low_bits_u64 (off OR fl) = fl" "page_of_u64 (off OR fl) = off"
proof -
  have b: "\<not> bit off n" if "n < 10" for n
    using arg_cong [OF assms(1), of "\<lambda>w. bit w n"] that by (auto simp: low_bits_u64_def TARGET_PAGE_BITS_def bit_simps)
  have c: "\<not> bit fl n" if "\<not> n < 10" "n < 64" for n
    using arg_cong [OF assms(2), of "\<lambda>w. bit w n"] that by (auto simp: page_of_u64_def TARGET_PAGE_BITS_def bit_simps)
  show "low_bits_u64 (off OR fl) = fl"
    by (rule bit_word_eqI) (use b c in \<open>auto simp: low_bits_u64_def TARGET_PAGE_BITS_def bit_simps\<close>)
  show "page_of_u64 (off OR fl) = off"
    by (rule bit_word_eqI) (use b c in \<open>auto simp: page_of_u64_def TARGET_PAGE_BITS_def bit_simps\<close>)
qed

lemmas ram_flags = RAM_SAVE_FLAG_COMPRESS_def RAM_SAVE_FLAG_MEM_SIZE_def RAM_SAVE_FLAG_PAGE_def RAM_SAVE_FLAG_EOS_def RAM_SAVE_FLAG_CONTINUE_def

lemma record_flags_facts:
  "page_of_u64 (record_flags h prev p) = 0" "record_flags h prev p AND RAM_SAVE_FLAG_MEM_SIZE = 0" "record_flags h prev p AND RAM_SAVE_FLAG_EOS = 0"
  "record_flags h prev p AND RAM_SAVE_FLAG_CONTINUE \<noteq> 0 \<longleftrightarrow> prev = Some (fst p)"
  "record_flags h prev p AND RAM_SAVE_FLAG_COMPRESS \<noteq> 0 \<longleftrightarrow> is_dup_page h (RAMBlock.host (fst p) + snd p) (h (RAMBlock.host (fst p) + snd p))"
  "record_flags h prev p AND RAM_SAVE_FLAG_PAGE \<noteq> 0 \<longleftrightarrow> \<not> is_dup_page h (RAMBlock.host (fst p) + snd p) (h (RAMBlock.host (fst p) + snd p))"
  by (simp_all add: record_flags_def ram_flags page_of_u64_def TARGET_PAGE_BITS_def mask_eq_exp_minus_1)

lemma aligned_low: "1024 dvd unat a \<Longrightarrow> low_bits_u64 a = 0"
  by (simp add: low_bits_u64_def TARGET_PAGE_BITS_def word_unat_eq_iff take_bit_eq_mod unat_mod flip: take_bit_eq_mask)

lemma unat_sum_blength:
  "sum_list (map (\<lambda>b. unat (blength b)) bs) < 2 ^ 64 \<Longrightarrow> unat (sum_list (map blength bs)) = sum_list (map (\<lambda>b. unat (blength b)) bs)"
proof (induction bs)
  case (Cons b bs)
  then have "unat (blength b) + unat (sum_list (map blength bs)) < 2 ^ LENGTH(64)" by simp
  with Cons show ?case by (simp add: unat_add_lem [THEN iffD1])
qed simp

lemma sum_aligned: "blocks_ok bs \<Longrightarrow> low_bits_u64 (sum_list (map blength bs)) = 0"
proof -
  assume ok: "blocks_ok bs"
  have "1024 dvd sum_list (map (\<lambda>b. unat (blength b)) cs)" if "set cs \<subseteq> set bs" for cs
    using that ok by (induction cs) (auto simp: blocks_ok_def)
  then show ?thesis using ok by (intro aligned_low) (simp add: unat_sum_blength blocks_ok_def)
qed

text \<open>The machine that loads has blocks of the same names and lengths.\<close>

definition same_layout :: "RAMBlock list \<Rightarrow> RAMBlock list \<Rightarrow> bool" where
  "same_layout bs bs' \<longleftrightarrow> (\<forall>b\<in>set bs. \<exists>b'. find_id (RAMBlock.idstr b) bs' = Some b' \<and> blength b' = blength b)"

definition target :: "RAMBlock list \<Rightarrow> RAMBlock \<Rightarrow> RAMBlock" where
  "target bs' b = the (find_id (RAMBlock.idstr b) bs')"

definition source_page :: "RAMBlock \<times> u64 \<Rightarrow> u64" where
  "source_page p = RAMBlock.host (fst p) + snd p"

definition target_page :: "RAMBlock list \<Rightarrow> RAMBlock \<times> u64 \<Rightarrow> u64" where
  "target_page bs' p = RAMBlock.host (target bs' (fst p)) + snd p"

text \<open>A page that is sent as one zero.\<close>

definition zero_page :: "(u64 \<Rightarrow> u8) \<Rightarrow> u64 \<Rightarrow> bool" where
  "zero_page h p \<longleftrightarrow> is_dup_page h p (h p) \<and> h p = 0"

definition put_page :: "host_os \<Rightarrow> (u64 \<Rightarrow> u8) \<Rightarrow> u64 \<Rightarrow> u64 \<Rightarrow> (u64 \<Rightarrow> u8) \<Rightarrow> u64 \<Rightarrow> u8" where
  "put_page os h src dst H =
     (let H1 = store_page dst (page_bytes h src) H in if zero_page h src then qemu_madvise os dst (2 ^ TARGET_PAGE_BITS) H1 else H1)"

definition load_one :: "host_os \<Rightarrow> RAMBlock list \<Rightarrow> (u64 \<Rightarrow> u8) \<Rightarrow> RAMBlock \<times> u64 \<Rightarrow> (u64 \<Rightarrow> u8) \<Rightarrow> u64 \<Rightarrow> u8" where
  "load_one os bs' h p H = put_page os h (source_page p) (target_page bs' p) H"

text \<open>The first \<open>i\<close> records have been loaded over the machine \<open>v\<close>.\<close>

definition loaded :: "RAMBlock list \<Rightarrow> (u64 \<Rightarrow> u8) \<Rightarrow> ram_vm \<Rightarrow> nat \<Rightarrow> ram_vm \<Rightarrow> bool" where
  "loaded bs h v i vm \<longleftrightarrow>
     (\<exists>sb. vm = v\<lparr>vm_host := fold (load_one (vm_os v) (vm_blocks v) h) (take i (pages bs)) (vm_host v), stream_block := sb\<rparr> \<and>
       (0 < i \<longrightarrow> sb = find_id (RAMBlock.idstr (fst (pages bs ! (i - 1)))) (vm_blocks v)))"

lemma page_block_ok:
  assumes "blocks_ok bs" and "p \<in> set (pages bs)"
  shows "fst p \<in> set bs" "length (RAMBlock.idstr (fst p)) < 256" "CHR 0x00 \<notin> set (RAMBlock.idstr (fst p))" "low_bits_u64 (snd p) = 0"
proof -
  obtain k where "fst p \<in> set bs" "unat (snd p) = 1024 * k" using page_facts [OF assms] by metis
  then show "fst p \<in> set bs" "length (RAMBlock.idstr (fst p)) < 256" "CHR 0x00 \<notin> set (RAMBlock.idstr (fst p))" "low_bits_u64 (snd p) = 0"
    using assms(1) by (auto simp: blocks_ok_def intro!: aligned_low)
qed

context back_end
begin

lemma stream_target:
  assumes name: "length (RAMBlock.idstr b) < 256" "CHR 0x00 \<notin> set (RAMBlock.idstr b)" and b': "find_id (RAMBlock.idstr b) (vm_blocks vm) = Some b'"
    and prev: "prev = Some b \<Longrightarrow> stream_block vm = Some b'"
    and fl: "fl AND RAM_SAVE_FLAG_CONTINUE \<noteq> 0 \<longleftrightarrow> prev = Some b"
    and f: "source f ((if prev = Some b then [] else id_code b) @ cs)"
  shows "\<exists>f'. record_target 3 off fl vm f = ret (Some (RAMBlock.host b' + off), vm\<lparr>stream_block := Some b'\<rparr>, f') \<and> source f' cs"
proof (cases "prev = Some b")
  case True
  then have "vm\<lparr>stream_block := Some b'\<rparr> = vm" using prev by simp
  with True prev fl f show ?thesis by (simp add: record_target_def host_from_stream_offset_def)
next
  case False
  with f obtain f1 where "get_block_id f = ret (RAMBlock.idstr b, f1)" "source f1 cs"
    using getsD [OF block_id_gets [OF name], of f cs] by auto
  with False fl b' show ?thesis by (simp add: record_target_def host_from_stream_offset_def Let_def)
qed

lemma load_record_page:
  assumes name: "length (RAMBlock.idstr (fst p)) < 256" "CHR 0x00 \<notin> set (RAMBlock.idstr (fst p))"
    and b': "find_id (RAMBlock.idstr (fst p)) (vm_blocks vm) = Some b'"
    and prev: "prev = Some (fst p) \<Longrightarrow> stream_block vm = Some b'"
    and f: "source f (record_body h prev p @ cs)"
  shows "\<exists>f'. load_record 3 (snd p) (record_flags h prev p) vm f =
    ret (0, vm\<lparr>stream_block := Some b', vm_host := put_page (vm_os vm) h (source_page p) (RAMBlock.host b' + snd p) (vm_host vm)\<rparr>, f') \<and> source f' cs"
proof -
  let ?a = "RAMBlock.host (fst p) + snd p" and ?fl = "record_flags h prev p"
  let ?dup = "is_dup_page h ?a (h ?a)"
  note fl = record_flags_facts [of h prev p]
  obtain f1 where 1: "record_target 3 (snd p) ?fl vm f = ret (Some (RAMBlock.host b' + snd p), vm\<lparr>stream_block := Some b'\<rparr>, f1)"
      "source f1 ((if ?dup then [h ?a] else page_bytes h ?a) @ cs)"
    using stream_target [OF name b' prev fl(4), of f "(if ?dup then [h ?a] else page_bytes h ?a) @ cs" "snd p"] f
    by (auto simp: record_body_def Let_def)
  show ?thesis
  proof (cases ?dup)
    case True
    then obtain f2 where "qemu_get_byte f1 = ret (ucast (h ?a), f2)" "source f2 cs" using 1(2) get_byte_code by fastforce
    with True 1(1) fl show ?thesis
      by (simp add: load_record_def put_page_def zero_page_def source_page_def dup_page [OF True] ucast_u8_small Let_def)
  next
    case False
    have len: "length (page_bytes h ?a) = 2 ^ TARGET_PAGE_BITS" by (simp add: page_bytes_def)
    obtain f2 where "qemu_get_buffer (2 ^ TARGET_PAGE_BITS) f1 = ret (page_bytes h ?a, f2)" "source f2 cs"
      using False 1(2) get_buffer_code [of False f1 "page_bytes h ?a" cs] len by auto
    with False 1(1) fl show ?thesis by (simp add: load_record_def put_page_def zero_page_def source_page_def Let_def)
  qed
qed

lemma load_pages_next:
  assumes ok: "blocks_ok bs" and lay: "same_layout bs (vm_blocks v)" and i: "i < length (pages bs)" and vm: "loaded bs h v i vm"
    and f: "source f (record_code h (if i = 0 then None else Some (fst (pages bs ! (i - 1)))) (pages bs ! i) @ cs)"
  shows "\<exists>vm' f'. load_pages 3 vm f = load_pages 3 vm' f' \<and> loaded bs h v (Suc i) vm' \<and> source f' cs"
proof -
  let ?p = "pages bs ! i" and ?prev = "if i = 0 then None else Some (fst (pages bs ! (i - 1)))"
  have p: "?p \<in> set (pages bs)" using i by simp
  note b = page_block_ok [OF ok p]
  from lay b(1) obtain b' where b': "find_id (RAMBlock.idstr (fst ?p)) (vm_blocks v) = Some b'" by (auto simp: same_layout_def)
  have bl: "vm_blocks vm = vm_blocks v" using vm by (auto simp: loaded_def)
  have prev: "stream_block vm = Some b'" if "?prev = Some (fst ?p)"
    using vm that b' by (auto simp: loaded_def split: if_splits)
  obtain f1 where 1: "qemu_get_be64 f = ret (snd ?p OR record_flags h ?prev ?p, f1)" "source f1 (record_body h ?prev ?p @ cs)"
    using get_be64_code [of False f "snd ?p OR record_flags h ?prev ?p"] f by (auto simp: record_code_def)
  note fl = record_flags_facts [of h ?prev ?p]
  note v = record_value [OF b(4) fl(1)]
  let ?vm = "vm\<lparr>stream_block := Some b', vm_host := put_page (vm_os vm) h (source_page ?p) (RAMBlock.host b' + snd ?p) (vm_host vm)\<rparr>"
  obtain f2 where 2: "load_record 3 (snd ?p) (record_flags h ?prev ?p) vm f1 = ret (0, ?vm, f2)" "source f2 cs"
    using load_record_page [OF b(2,3) _ prev 1(2)] b' bl by auto
  have "\<not> qemu_file_has_error f2" using 2(2) by (simp add: reading_def qemu_file_has_error_def)
  then have "load_pages 3 vm f = load_pages 3 ?vm f2"
    using 1(1) 2(1) v fl(3) by (subst load_pages.simps) (simp add: Let_def)
  moreover have "loaded bs h v (Suc i) ?vm"
    using vm b' i by (auto simp: loaded_def take_Suc_conv_app_nth load_one_def target_page_def target_def)
  ultimately show ?thesis using 2(2) by blast
qed

lemma load_eos:
  assumes "source f (be64 RAM_SAVE_FLAG_EOS @ cs)"
  shows "\<exists>f'. load_pages ver vm f = ret (0, vm, f') \<and> source f' cs"
proof -
  obtain f1 where 1: "qemu_get_be64 f = ret (RAM_SAVE_FLAG_EOS, f1)" "source f1 cs" using get_be64_code assms by blast
  have v: "low_bits_u64 RAM_SAVE_FLAG_EOS = RAM_SAVE_FLAG_EOS" "page_of_u64 RAM_SAVE_FLAG_EOS = 0"
    by (simp_all add: low_bits_u64_def page_of_u64_def ram_flags TARGET_PAGE_BITS_def mask_eq_exp_minus_1)
  have "\<not> qemu_file_has_error f1" using 1(2) by (simp add: reading_def qemu_file_has_error_def)
  moreover have "RAM_SAVE_FLAG_EOS AND RAM_SAVE_FLAG_MEM_SIZE = 0" "RAM_SAVE_FLAG_EOS AND RAM_SAVE_FLAG_COMPRESS = 0"
      "RAM_SAVE_FLAG_EOS AND RAM_SAVE_FLAG_PAGE = 0" "RAM_SAVE_FLAG_EOS \<noteq> 0"
    by (simp_all add: ram_flags)
  ultimately show ?thesis using 1 by (subst load_pages.simps) (simp add: v Let_def load_record_def)
qed

lemma load_rest:
  assumes ok: "blocks_ok bs" and lay: "same_layout bs (vm_blocks v)"
  shows "loaded bs h v i vm \<Longrightarrow> i \<le> length (pages bs) \<Longrightarrow> source f (rest_code bs h i @ be64 RAM_SAVE_FLAG_EOS @ cs) \<Longrightarrow>
    \<exists>vm' f'. load_pages 3 vm f = ret (0, vm', f') \<and> loaded bs h v (length (pages bs)) vm' \<and> source f' cs"
proof (induction "length (pages bs) - i" arbitrary: i vm f)
  case 0
  then have i: "i = length (pages bs)" "rest_code bs h i = []" by (simp_all add: rest_code_def)
  with 0 show ?case using load_eos [of f cs 3 vm] by auto
next
  case (Suc m)
  then have i: "i < length (pages bs)" by simp
  from Suc.prems(3) i have "source f (record_code h (if i = 0 then None else Some (fst (pages bs ! (i - 1)))) (pages bs ! i) @
      rest_code bs h (Suc i) @ be64 RAM_SAVE_FLAG_EOS @ cs)"
    by (simp add: rest_code_def upt_conv_Cons)
  from load_pages_next [OF ok lay i Suc.prems(1) this] obtain vm1 f1 where
    "load_pages 3 vm f = load_pages 3 vm1 f1" "loaded bs h v (Suc i) vm1" "source f1 (rest_code bs h (Suc i) @ be64 RAM_SAVE_FLAG_EOS @ cs)" by blast
  with Suc.hyps(1) [of "Suc i" vm1 f1] Suc.hyps(2) i show ?case by simp
qed

lemma check_blocks_code:
  assumes ok: "blocks_ok bs" and lay: "same_layout bs (vm_blocks vm)"
  shows "set cs \<subseteq> set bs \<Longrightarrow> sum_list (map (\<lambda>b. unat (blength b)) cs) < 2 ^ 64 \<Longrightarrow>
    source f (concat (map (\<lambda>b. id_code b @ be64 (blength b)) cs) @ ds) \<Longrightarrow>
    \<exists>f'. check_blocks (sum_list (map blength cs)) vm f = ret (True, f') \<and> source f' ds"
proof (induction cs arbitrary: f)
  case Nil
  then show ?case by (subst check_blocks.simps) simp
next
  case (Cons c cs)
  then have c: "c \<in> set bs" by simp
  then have name: "length (RAMBlock.idstr c) < 256" "CHR 0x00 \<notin> set (RAMBlock.idstr c)" and pos: "0 < unat (blength c)"
    using ok by (auto simp: blocks_ok_def laid_out_def word_less_nat_alt)
  from lay c obtain c' where c': "find_id (RAMBlock.idstr c) (vm_blocks vm) = Some c'" "blength c' = blength c" by (auto simp: same_layout_def)
  have "unat (sum_list (map blength (c # cs))) \<noteq> 0" unfolding unat_sum_blength [OF Cons.prems(2)] using pos by simp
  then have ne: "sum_list (map blength (c # cs)) \<noteq> 0" by (metis unsigned_0)
  obtain f1 where 1: "get_block_id f = ret (RAMBlock.idstr c, f1)"
      "source f1 (be64 (blength c) @ concat (map (\<lambda>b. id_code b @ be64 (blength b)) cs) @ ds)"
    using getsD [OF block_id_gets [OF name], of f] Cons.prems(3) by auto
  obtain f2 where 2: "qemu_get_be64 f1 = ret (blength c, f2)" "source f2 (concat (map (\<lambda>b. id_code b @ be64 (blength b)) cs) @ ds)"
    using get_be64_code 1(2) by blast
  have "check_blocks (sum_list (map blength (c # cs))) vm f = check_blocks (sum_list (map blength cs)) vm f2"
    using ne 1(1) 2(1) c' by (subst check_blocks.simps) simp
  with Cons.IH [OF _ _ 2(2)] Cons.prems(1,2) show ?case by simp
qed

lemma load_start:
  assumes ok: "blocks_ok bs" and lay: "same_layout bs (vm_blocks vm)" and f: "source f (start_code bs @ cs)"
  shows "\<exists>f'. load_pages 3 vm f = load_pages 3 vm f' \<and> source f' cs"
proof -
  let ?n = "sum_list (map blength bs)"
  obtain f1 where 1: "qemu_get_be64 f = ret (?n OR RAM_SAVE_FLAG_MEM_SIZE, f1)" "source f1 (concat (map (\<lambda>b. id_code b @ be64 (blength b)) bs) @ cs)"
    using get_be64_code [of False f "?n OR RAM_SAVE_FLAG_MEM_SIZE"] f by (auto simp: start_code_def)
  have "page_of_u64 RAM_SAVE_FLAG_MEM_SIZE = 0" by (simp add: ram_flags page_of_u64_def TARGET_PAGE_BITS_def mask_eq_exp_minus_1)
  note v = record_value [OF sum_aligned [OF ok] this]
  obtain f2 where 2: "check_blocks ?n vm f1 = ret (True, f2)" "source f2 cs"
    using check_blocks_code [OF ok lay subset_refl _ 1(2)] ok by (auto simp: blocks_ok_def)
  have "\<not> qemu_file_has_error f2" using 2(2) by (simp add: reading_def qemu_file_has_error_def)
  moreover have "RAM_SAVE_FLAG_MEM_SIZE \<noteq> 0" "RAM_SAVE_FLAG_MEM_SIZE AND RAM_SAVE_FLAG_EOS = 0" by (simp_all add: ram_flags)
  ultimately have "load_pages 3 vm f = load_pages 3 vm f2"
    using 1(1) 2(1) v by (subst load_pages.simps) (simp add: Let_def load_record_def)
  with 2(2) show ?thesis by blast
qed

lemma load_all:
  assumes ok: "blocks_ok bs" and lay: "same_layout bs (vm_blocks v)"
    and f: "source f (start_code bs @ rest_code bs h 0 @ be64 RAM_SAVE_FLAG_EOS @ cs)"
  shows "\<exists>vm' f'. ram_load v 3 f = ret (0, vm', f') \<and> loaded bs h v (length (pages bs)) vm' \<and> source f' cs"
proof -
  obtain f1 where 1: "load_pages 3 v f = load_pages 3 v f1" "source f1 (rest_code bs h 0 @ be64 RAM_SAVE_FLAG_EOS @ cs)"
    using load_start [OF ok lay f] by blast
  have "loaded bs h v 0 v" by (auto simp: loaded_def intro: exI [of _ "stream_block v"])
  from load_rest [OF ok lay this _ 1(2)] 1(1) show ?thesis by (simp add: ram_load_def)
qed

lemma load_nothing: "source f (be64 RAM_SAVE_FLAG_EOS @ cs) \<Longrightarrow> \<exists>f'. ram_load vm 3 f = ret (0, vm, f') \<and> source f' cs"
  using load_eos [of f cs 3 vm] by (simp add: ram_load_def)

end

section \<open>The contents afterwards\<close>

text \<open>The blocks of the machine that loads are apart in the memory of the host.\<close>

definition hosts_apart :: "RAMBlock list \<Rightarrow> bool" where
  "hosts_apart bs \<longleftrightarrow> (\<forall>b\<in>set bs. unat (RAMBlock.host b) + unat (blength b) < 2 ^ 64) \<and>
     (\<forall>b\<in>set bs. \<forall>c\<in>set bs. b \<noteq> c \<longrightarrow>
        unat (RAMBlock.host b) + unat (blength b) \<le> unat (RAMBlock.host c) \<or> unat (RAMBlock.host c) + unat (blength c) \<le> unat (RAMBlock.host b))"

definition in_page :: "u64 \<Rightarrow> u64 \<Rightarrow> bool" where
  "in_page a p \<longleftrightarrow> unat p \<le> unat a \<and> unat a < unat p + 1024"

lemma in_page_iff:
  assumes "unat p + 1024 < 2 ^ 64" shows "unat (a - p) < 1024 \<longleftrightarrow> in_page a p"
proof (cases "p \<le> a")
  case True
  then show ?thesis by (auto simp: in_page_def unat_sub word_le_nat_alt)
next
  case False
  then have lt: "unat a < unat p" by (simp add: word_le_nat_alt)
  have "unat (a - p) = unat a + 2 ^ 64 - unat p" using lt by (subst unat_sub_if_size) (simp add: word_size word_le_nat_alt)
  then show ?thesis using lt assms by (auto simp: in_page_def)
qed

text \<open>
  What the documentation of the host promises of the advice: \<open>madvise\<close> refuses an address that is not that of a page of the host, otherwise it takes the length up to whole pages of the host and
  leaves each byte of them as it is or zero; \<open>posix_madvise\<close> changes nothing.
\<close>

definition host_pages :: "nat \<Rightarrow> nat \<Rightarrow> nat" where
  "host_pages sz len = (len + sz - 1) div sz * sz"

definition advice_ok :: "host_os \<Rightarrow> bool" where
  "advice_ok os \<longleftrightarrow> 0 < getpagesize os \<and> (\<forall>addr len h. posix_madvise_dontneed os addr len h = h) \<and>
     (\<forall>addr len h a. madvise_dontneed os addr len h a = h a \<or>
        madvise_dontneed os addr len h a = 0 \<and> unat addr mod getpagesize os = 0 \<and> unat (a - addr) < host_pages (getpagesize os) len)"

text \<open>A block ends with a page of the host, unless the build gives no such advice.\<close>

definition ends_with_host_page :: "host_os \<Rightarrow> RAMBlock \<Rightarrow> bool" where
  "ends_with_host_page os b \<longleftrightarrow> (advice_build os = CONFIG_MADVISE \<longrightarrow> (unat (RAMBlock.host b) + unat (blength b)) mod getpagesize os = 0)"

lemma host_pages_bound:
  assumes "0 < sz" and "sz dvd d" and "len \<le> d" shows "host_pages sz len \<le> d"
proof -
  obtain k where k: "d = sz * k" using assms(2) by (rule dvdE)
  have "len + sz - 1 < (k + 1) * sz" using assms(1,3) unfolding k by (simp add: algebra_simps)
  then have "(len + sz - 1) div sz < k + 1" using assms(1) by (simp only: div_less_iff_less_mult)
  then show ?thesis by (simp add: host_pages_def k mult.commute)
qed

lemma unat_diff_range:
  assumes "unat p + n < 2 ^ 64" and "unat ((a :: u64) - p) < n" shows "unat p \<le> unat a" "unat a < unat p + n"
proof -
  have "unat p + unat (a - p) < 2 ^ LENGTH(64)" using assms by simp
  then have "unat (p + (a - p)) = unat p + unat (a - p)" by (simp only: unat_add_lem)
  moreover have "p + (a - p) = a" by simp
  ultimately show "unat p \<le> unat a" "unat a < unat p + n" using assms(2) by simp_all
qed

text \<open>The advice on a page: within the block, behind the address.\<close>

lemma advice_effect:
  assumes ok: "advice_ok os" and e: "advice_build os = CONFIG_MADVISE \<longrightarrow> e mod getpagesize os = 0" and d: "unat dst + 1024 \<le> e" "e < 2 ^ 64"
  shows "qemu_madvise os dst (2 ^ TARGET_PAGE_BITS) H a = H a \<or> qemu_madvise os dst (2 ^ TARGET_PAGE_BITS) H a = 0 \<and> unat dst \<le> unat a \<and> unat a < e"
proof (cases "advice_build os")
  case CONFIG_MADVISE
  let ?sz = "getpagesize os" and ?h = "madvise_dontneed os dst (2 ^ TARGET_PAGE_BITS) H"
  have "?h a = H a \<or> ?h a = 0 \<and> unat dst mod ?sz = 0 \<and> unat (a - dst) < host_pages ?sz (2 ^ TARGET_PAGE_BITS)"
    using ok by (simp add: advice_ok_def)
  moreover have "unat dst \<le> unat a \<and> unat a < e" if m: "unat dst mod ?sz = 0" and r: "unat (a - dst) < host_pages ?sz (2 ^ TARGET_PAGE_BITS)"
  proof -
    have "?sz dvd e - unat dst" using e m CONFIG_MADVISE d(1) by (intro dvd_diff_nat) (simp_all add: dvd_eq_mod_eq_0)
    then have "host_pages ?sz (2 ^ TARGET_PAGE_BITS) \<le> e - unat dst"
      using ok d(1) by (intro host_pages_bound) (simp_all add: advice_ok_def TARGET_PAGE_BITS_def)
    with r have "unat (a - dst) < e - unat dst" by linarith
    then show ?thesis using unat_diff_range [of dst "e - unat dst" a] d by simp
  qed
  ultimately show ?thesis using CONFIG_MADVISE by (auto simp: qemu_madvise_def)
qed (use ok in \<open>simp_all add: qemu_madvise_def advice_ok_def\<close>)

lemma zero_page_bytes: "zero_page h p \<Longrightarrow> unat d < 1024 \<Longrightarrow> h (p + d) = 0"
proof -
  assume z: "zero_page h p" and d: "unat d < 1024"
  have "page_bytes h p = replicate (2 ^ TARGET_PAGE_BITS) (h p)" using z unfolding zero_page_def by (blast intro: dup_page)
  then have "page_bytes h p ! unat d = 0" using z d by (simp add: zero_page_def TARGET_PAGE_BITS_def)
  then show ?thesis using d by (simp add: page_bytes_def TARGET_PAGE_BITS_def)
qed

text \<open>The end of the block that a page goes to.\<close>

definition target_end :: "RAMBlock list \<Rightarrow> RAMBlock \<times> u64 \<Rightarrow> nat" where
  "target_end bs' p = unat (RAMBlock.host (target bs' (fst p))) + unat (blength (target bs' (fst p)))"

definition page_fits :: "host_os \<Rightarrow> RAMBlock list \<Rightarrow> RAMBlock \<times> u64 \<Rightarrow> bool" where
  "page_fits os bs' p \<longleftrightarrow> unat (target_page bs' p) + 1024 \<le> target_end bs' p \<and> target_end bs' p < 2 ^ 64 \<and> ends_with_host_page os (target bs' (fst p))"

lemma load_one_at:
  assumes os: "advice_ok os" and fits: "page_fits os bs' p"
  shows "in_page a (target_page bs' p) \<Longrightarrow> load_one os bs' h p H a = h (source_page p + (a - target_page bs' p))"
    and "\<not> (unat (target_page bs' p) \<le> unat a \<and> unat a < target_end bs' p) \<Longrightarrow> load_one os bs' h p H a = H a"
proof -
  let ?t = "target_page bs' p" and ?s = "source_page p"
  define H1 where "H1 = store_page ?t (page_bytes h ?s) H"
  have f: "unat ?t + 1024 \<le> target_end bs' p" "target_end bs' p < 2 ^ 64" "unat ?t + 1024 < 2 ^ 64"
    using fits by (simp_all add: page_fits_def)
  have l: "length (page_bytes h q) = 1024" for q by (simp add: page_bytes_def TARGET_PAGE_BITS_def)
  have n: "page_bytes h q ! unat d = h (q + d)" if "unat d < 1024" for q d
    using that by (simp add: page_bytes_def TARGET_PAGE_BITS_def)
  have H1: "H1 a = (if in_page a ?t then h (?s + (a - ?t)) else H a)"
    using in_page_iff [OF f(3), of a] n by (simp add: H1_def store_page_def l)
  have "advice_build os = CONFIG_MADVISE \<longrightarrow> target_end bs' p mod getpagesize os = 0"
    using fits by (simp add: page_fits_def ends_with_host_page_def target_end_def)
  note adv = advice_effect [OF os this f(1,2), of H1 a]
  have one: "load_one os bs' h p H a = (if zero_page h ?s then qemu_madvise os ?t (2 ^ TARGET_PAGE_BITS) H1 a else H1 a)"
    by (simp add: load_one_def put_page_def H1_def Let_def)
  show "load_one os bs' h p H a = h (?s + (a - ?t))" if i: "in_page a ?t"
  proof (cases "zero_page h ?s")
    case True
    have "unat (a - ?t) < 1024" using in_page_iff [OF f(3)] i by simp
    from zero_page_bytes [OF True this] adv show ?thesis by (auto simp: one H1 i)
  qed (simp add: one H1 i)
  show "load_one os bs' h p H a = H a" if o: "\<not> (unat ?t \<le> unat a \<and> unat a < target_end bs' p)"
  proof -
    have "\<not> in_page a ?t" using o f(1) unfolding in_page_def by linarith
    with adv o show ?thesis by (auto simp: one H1)
  qed
qed

lemma fold_load_other:
  assumes "advice_ok os" and "\<forall>p\<in>set ps. page_fits os bs' p" and "\<forall>p\<in>set ps. \<not> (unat (target_page bs' p) \<le> unat a \<and> unat a < target_end bs' p)"
  shows "fold (load_one os bs' h) ps H a = H a"
  using assms(2,3) by (induction ps arbitrary: H) (simp_all add: load_one_at [OF assms(1)])

text \<open>A page keeps its contents while the pages behind it are loaded.\<close>

lemma fold_load_at:
  assumes "advice_ok os" and "\<forall>q\<in>set (p # ys). page_fits os bs' q" and "in_page a (target_page bs' p)"
    and "\<forall>q\<in>set ys. \<not> (unat (target_page bs' q) \<le> unat a \<and> unat a < target_end bs' q)"
  shows "fold (load_one os bs' h) (xs @ p # ys) H a = h (source_page p + (a - target_page bs' p))"
proof -
  have "fold (load_one os bs' h) (xs @ p # ys) H a = load_one os bs' h p (fold (load_one os bs' h) xs H) a"
    using fold_load_other [OF assms(1) _ assms(4)] assms(2) by simp
  also have "\<dots> = h (source_page p + (a - target_page bs' p))" using assms(2,3) by (intro load_one_at(1) [OF assms(1)]) simp_all
  finally show ?thesis .
qed

text \<open>The pages of a block come in the order of their offsets.\<close>

lemma pages_ascend:
  assumes "distinct bs" shows "sorted_wrt (\<lambda>p q. fst p = fst q \<longrightarrow> unat (snd p) < unat (snd q)) (pages bs)"
  using assms
proof (induction bs)
  case (Cons b bs)
  have "sorted_wrt (\<lambda>p q. fst p = fst q \<longrightarrow> unat (snd p) < unat (snd q)) (block_pages b)"
    unfolding block_pages_def sorted_wrt_map
  proof (rule sorted_wrt_mono_rel [OF _ sorted_wrt_upt])
    fix x y assume "x \<in> set [0..<npages b]" "y \<in> set [0..<npages b]" "x < y"
    then show "fst (b, 1024 * of_nat x :: u64) = fst (b, 1024 * of_nat y :: u64) \<longrightarrow> unat (snd (b, 1024 * of_nat x :: u64)) < unat (snd (b, 1024 * of_nat y :: u64))"
      using unat_page_offset(1) [of x b] unat_page_offset(1) [of y b] by simp
  qed
  moreover have "fst p \<noteq> fst q" if "p \<in> set (block_pages b)" "q \<in> set (pages bs)" for p q
    using that Cons.prems by (auto simp: pages_def block_pages_def)
  moreover have "pages (b # bs) = block_pages b @ pages bs" by (simp add: pages_def)
  ultimately show ?case using Cons by (simp add: sorted_wrt_append)
qed (simp add: pages_def)

text \<open>Every page goes to its place in the block of the same name.\<close>

lemma target_facts:
  assumes "same_layout bs bs'" and "b \<in> set bs"
  shows "target bs' b \<in> set bs'" "RAMBlock.idstr (target bs' b) = RAMBlock.idstr b" "blength (target bs' b) = blength b"
proof -
  from assms obtain b' where b': "find_id (RAMBlock.idstr b) bs' = Some b'" "blength b' = blength b" by (auto simp: same_layout_def)
  then have t: "target bs' b = b'" by (simp add: target_def)
  from b'(1) have "b' \<in> set bs'" "RAMBlock.idstr b' = RAMBlock.idstr b" by (auto simp: find_id_def find_Some_iff)
  with b'(2) t show "target bs' b \<in> set bs'" "RAMBlock.idstr (target bs' b) = RAMBlock.idstr b" "blength (target bs' b) = blength b" by simp_all
qed

lemma target_page_facts:
  assumes ok: "blocks_ok bs" and lay: "same_layout bs bs'" and apart: "hosts_apart bs'" and p: "p \<in> set (pages bs)"
  obtains k where "fst p \<in> set bs" "snd p = 1024 * of_nat k" "unat (target_page bs' p) = unat (RAMBlock.host (target bs' (fst p))) + 1024 * k"
    "1024 * k + 1024 \<le> unat (blength (fst p))" "unat (target_page bs' p) + 1024 < 2 ^ 64"
proof -
  obtain k where k: "fst p \<in> set bs" "k < npages (fst p)" "snd p = 1024 * of_nat k" "unat (snd p) = 1024 * k"
    using page_facts [OF ok p] by metis
  let ?t = "target bs' (fst p)"
  have "1024 dvd unat (blength (fst p))" using ok k(1) by (simp add: blocks_ok_def)
  from page_dvd_length [OF this] k(2) have len: "1024 * k + 1024 \<le> unat (blength (fst p))" by linarith
  have t: "unat (RAMBlock.host ?t) + unat (blength (fst p)) < 2 ^ 64"
    using apart target_facts [OF lay k(1)] by (auto simp: hosts_apart_def)
  have "unat (RAMBlock.host ?t) + unat (snd p) < 2 ^ LENGTH(64)" using t len k(4) by simp
  then have u: "unat (target_page bs' p) = unat (RAMBlock.host ?t) + 1024 * k"
    unfolding target_page_def using k(4) by (simp add: unat_add_lem [THEN iffD1])
  from u t len have "unat (target_page bs' p) + 1024 < 2 ^ 64" by linarith
  with that k(1,3) u len show thesis by blast
qed

lemma target_page_unique:
  assumes ok: "blocks_ok bs" and lay: "same_layout bs bs'" and apart: "hosts_apart bs'" and p: "p \<in> set (pages bs)" and q: "q \<in> set (pages bs)"
    and a: "in_page a (target_page bs' p)" "in_page a (target_page bs' q)"
  shows "q = p"
proof -
  obtain k where k: "fst p \<in> set bs" "snd p = 1024 * of_nat k" "unat (target_page bs' p) = unat (RAMBlock.host (target bs' (fst p))) + 1024 * k"
    "1024 * k + 1024 \<le> unat (blength (fst p))" using target_page_facts [OF ok lay apart p] by metis
  obtain j where j: "fst q \<in> set bs" "snd q = 1024 * of_nat j" "unat (target_page bs' q) = unat (RAMBlock.host (target bs' (fst q))) + 1024 * j"
    "1024 * j + 1024 \<le> unat (blength (fst q))" using target_page_facts [OF ok lay apart q] by metis
  note tp = target_facts [OF lay k(1)] and tq = target_facts [OF lay j(1)]
  have same: "target bs' (fst p) = target bs' (fst q)"
  proof (rule ccontr)
    assume "target bs' (fst p) \<noteq> target bs' (fst q)"
    with apart tp tq have "unat (RAMBlock.host (target bs' (fst p))) + unat (blength (fst p)) \<le> unat (RAMBlock.host (target bs' (fst q))) \<or>
        unat (RAMBlock.host (target bs' (fst q))) + unat (blength (fst q)) \<le> unat (RAMBlock.host (target bs' (fst p)))"
      unfolding hosts_apart_def by metis
    with a k(3,4) j(3,4) show False unfolding in_page_def by linarith
  qed
  then have "RAMBlock.idstr (fst p) = RAMBlock.idstr (fst q)" using tp(2) tq(2) by simp
  then have "fst p = fst q" using ok k(1) j(1) by (auto simp: blocks_ok_def distinct_map dest: inj_onD)
  moreover have "k = j" using a k(3) j(3) same unfolding in_page_def by auto
  ultimately show "q = p" using k(2) j(2) by (simp add: prod_eq_iff)
qed

lemma page_of_offset:
  assumes ok: "blocks_ok bs" and b: "b \<in> set bs" and off: "off < blength b"
  shows "(b, 1024 * of_nat (unat off div 1024)) \<in> set (pages bs)" "unat (1024 * of_nat (unat off div 1024) :: u64) = 1024 * (unat off div 1024)"
proof -
  have "1024 dvd unat (blength b)" using ok b by (simp add: blocks_ok_def)
  then have k: "unat off div 1024 < npages b" using off page_dvd_length [of b] by (simp add: word_less_nat_alt div_less_iff_less_mult mult.commute)
  then show "(b, 1024 * of_nat (unat off div 1024)) \<in> set (pages bs)" using b by (auto simp: pages_def block_pages_def intro!: bexI [of _ b])
  show "unat (1024 * of_nat (unat off div 1024) :: u64) = 1024 * (unat off div 1024)" by (rule unat_page_offset(1) [OF k])
qed

lemma pages_fit:
  assumes ok: "blocks_ok bs" and lay: "same_layout bs bs'" and apart: "hosts_apart bs'" and host: "\<forall>b\<in>set bs'. ends_with_host_page os b"
    and p: "p \<in> set (pages bs)"
  shows "page_fits os bs' p"
proof -
  obtain k where k: "fst p \<in> set bs" "unat (target_page bs' p) = unat (RAMBlock.host (target bs' (fst p))) + 1024 * k"
    "1024 * k + 1024 \<le> unat (blength (fst p))" using target_page_facts [OF ok lay apart p] by metis
  note t = target_facts [OF lay k(1)]
  show ?thesis using k(2,3) t host apart by (auto simp: page_fits_def target_end_def hosts_apart_def)
qed

lemma contents_restored:
  assumes os: "advice_ok os" and ok: "blocks_ok bs" and lay: "same_layout bs bs'" and apart: "hosts_apart bs'"
    and host: "\<forall>b\<in>set bs'. ends_with_host_page os b" and b: "b \<in> set bs" and off: "off < blength b"
  shows "fold (load_one os bs' h) (pages bs) H (RAMBlock.host (target bs' b) + off) = h (RAMBlock.host b + off)"
proof -
  let ?k = "unat off div 1024" let ?p = "(b, 1024 * of_nat ?k :: u64)" and ?a = "RAMBlock.host (target bs' b) + off"
  note p = page_of_offset [OF ok b off]
  have t: "unat (RAMBlock.host (target bs' b)) + unat (blength b) < 2 ^ 64"
    using apart target_facts [OF lay b] by (auto simp: hosts_apart_def)
  have o: "unat off < unat (blength b)" "1024 * ?k \<le> unat off" using off by (simp_all add: word_less_nat_alt)
  have "unat (RAMBlock.host (target bs' b)) + unat off < 2 ^ LENGTH(64)" using t o by simp
  then have ua: "unat ?a = unat (RAMBlock.host (target bs' b)) + unat off" by (simp add: unat_add_lem [THEN iffD1])
  have "unat (RAMBlock.host (target bs' b)) + unat (1024 * of_nat ?k :: u64) < 2 ^ LENGTH(64)" using t o p(2) by simp
  from unat_add_lem [THEN iffD1, OF this] have ut: "unat (target_page bs' ?p) = unat (RAMBlock.host (target bs' b)) + 1024 * ?k"
    unfolding target_page_def using p(2) by simp
  have inp: "in_page ?a (target_page bs' ?p)" unfolding in_page_def ua ut
    using mult_div_mod_eq [of 1024 "unat off"] mod_less_divisor [of 1024 "unat off"] by linarith
  obtain xs ys where xs: "pages bs = xs @ ?p # ys" using p(1) by (meson split_list)
  have later: "\<not> (unat (target_page bs' q) \<le> unat ?a \<and> unat ?a < target_end bs' q)" if q: "q \<in> set ys" for q
  proof -
    have qp: "q \<in> set (pages bs)" using q by (simp add: xs)
    have up: "fst q = b \<Longrightarrow> 1024 * ?k < unat (snd q)"
      using pages_ascend [OF blocks_distinct [OF ok]] q p(2) by (auto simp: xs sorted_wrt_append)
    obtain j where j: "fst q \<in> set bs" "snd q = 1024 * of_nat j" "unat (target_page bs' q) = unat (RAMBlock.host (target bs' (fst q))) + 1024 * j"
      "1024 * j + 1024 \<le> unat (blength (fst q))" using target_page_facts [OF ok lay apart qp] by metis
    obtain i where i: "unat (snd q) = 1024 * i" "snd q = 1024 * of_nat i" "i < npages (fst q)" using page_facts [OF ok qp] by metis
    note tq = target_facts [OF lay j(1)] and tb = target_facts [OF lay b]
    show ?thesis
    proof (cases "fst q = b")
      case True
      have "unat (target_page bs' q) = unat (RAMBlock.host (target bs' b)) + unat (snd q)"
        unfolding target_page_def True using t j(4) i True
        by (intro unat_add_lem [THEN iffD1]) (use unat_page_offset(2) [OF i(3)] in simp)
      moreover have "1024 * ?k + 1024 \<le> unat (snd q)" using up [OF True] unfolding i(1) by simp
      moreover have "unat off < 1024 * ?k + 1024" using mult_div_mod_eq [of 1024 "unat off"] mod_less_divisor [of 1024 "unat off"] by linarith
      ultimately show ?thesis unfolding ua by linarith
    next
      case False
      then have "RAMBlock.idstr (fst q) \<noteq> RAMBlock.idstr b" using ok j(1) b by (auto simp: blocks_ok_def distinct_map dest: inj_onD)
      then have "target bs' (fst q) \<noteq> target bs' b" using tq(2) tb(2) by auto
      with apart tq tb have "unat (RAMBlock.host (target bs' (fst q))) + unat (blength (fst q)) \<le> unat (RAMBlock.host (target bs' b)) \<or>
          unat (RAMBlock.host (target bs' b)) + unat (blength b) \<le> unat (RAMBlock.host (target bs' (fst q)))"
        unfolding hosts_apart_def by metis
      then show ?thesis using j(3) o(1) unfolding ua target_end_def tq(3) by linarith
    qed
  qed
  have "\<forall>q\<in>set (?p # ys). page_fits os bs' q" using pages_fit [OF ok lay apart host] by (auto simp: xs)
  from fold_load_at [OF os this inp, of h xs H] later
  have "fold (load_one os bs' h) (pages bs) H ?a = h (source_page ?p + (?a - target_page bs' ?p))" unfolding xs by blast
  then show ?thesis by (simp add: source_page_def target_page_def)
qed

lemma contents_other:
  assumes os: "advice_ok os" and ok: "blocks_ok bs" and lay: "same_layout bs bs'" and apart: "hosts_apart bs'"
    and host: "\<forall>b\<in>set bs'. ends_with_host_page os b"
    and a: "\<forall>b\<in>set bs. \<not> (unat (RAMBlock.host (target bs' b)) \<le> unat a \<and> unat a < unat (RAMBlock.host (target bs' b)) + unat (blength b))"
  shows "fold (load_one os bs' h) (pages bs) H a = H a"
proof (rule fold_load_other [OF os])
  show "\<forall>q\<in>set (pages bs). page_fits os bs' q" using pages_fit [OF ok lay apart host] by blast
  show "\<forall>q\<in>set (pages bs). \<not> (unat (target_page bs' q) \<le> unat a \<and> unat a < target_end bs' q)"
  proof
    fix q assume "q \<in> set (pages bs)"
    then obtain k where "fst q \<in> set bs" "unat (target_page bs' q) = unat (RAMBlock.host (target bs' (fst q))) + 1024 * k"
      using target_page_facts [OF ok lay apart] by metis
    with a target_facts(3) [OF lay, of "fst q"] show "\<not> (unat (target_page bs' q) \<le> unat a \<and> unat a < target_end bs' q)"
      unfolding target_end_def by fastforce
  qed
qed

end
