(* ===== verification/Machine_Snapshot.thy ===== *)
theory Machine_Snapshot
  imports Ram_Restore
begin

unbundle bit_operations_syntax

text \<open>
  A snapshot of the whole machine: RAM, which is saved in rounds (\<open>save_live_state\<close>), and the parts that are saved in one piece. \<open>vl-android.c\<close>
  registers RAM before the board registers its processor and its interrupt controller, so it is the first entry of the list. The contract of an entry that is
  saved in rounds is a locale, RAM keeps it, and the theorem says that everything comes back on another machine.
\<close>

section \<open>The contract of an entry that is saved in rounds\<close>

text \<open>
  From a good state the first call puts \<open>code1\<close>, and each later call puts its own code and leaves a state that is \<open>begun\<close>; the second call says that nothing
  is left. Loading the first code gives a state that is \<open>restored\<close>; loading the others leaves it.
\<close>

locale live_section =
  fixes sink :: "'o QEMUFile \<Rightarrow> u8 list \<Rightarrow> nat \<Rightarrow> bool" and source :: "'o QEMUFile \<Rightarrow> u8 list \<Rightarrow> bool" and good :: "'w \<Rightarrow> bool"
    and code :: "int \<Rightarrow> 'w \<Rightarrow> u8 list" and begun :: "'w \<Rightarrow> 'w \<Rightarrow> bool" and accepts :: "'w \<Rightarrow> 'w \<Rightarrow> bool"
    and restored :: "'w \<Rightarrow> 'w \<Rightarrow> 'w \<Rightarrow> bool" and live :: "int \<Rightarrow> 'w \<Rightarrow> 'o QEMUFile \<Rightarrow> (int \<times> 'w \<times> 'o QEMUFile) comp"
    and se :: "('w, 'o) SaveStateEntry"
  assumes header: "header_ok se" and is_live: "save_live_state se = Some live" and not_full: "save_state se = None"
    and starts: "good w \<Longrightarrow> sink f bs (length (code 1 w) + r) \<Longrightarrow>
      \<exists>rc w' f'. live 1 w f = ret (rc, w', f') \<and> begun w w' \<and> sink f' (bs @ code 1 w) r"
    and goes_on: "good w \<Longrightarrow> begun w w1 \<Longrightarrow> sink f bs (length (code 2 w) + r) \<Longrightarrow>
      \<exists>w' f'. live 2 w1 f = ret (1, w', f') \<and> begun w w' \<and> sink f' (bs @ code 2 w) r"
    and completes: "good w \<Longrightarrow> begun w w1 \<Longrightarrow> sink f bs (length (code 3 w) + r) \<Longrightarrow>
      \<exists>rc w' f'. live 3 w1 f = ret (rc, w', f') \<and> begun w w' \<and> sink f' (bs @ code 3 w) r"
    and loads_start: "good w \<Longrightarrow> accepts w v \<Longrightarrow> source f (code 1 w @ bs) \<Longrightarrow>
      \<exists>v' f'. load_state se v (version_id se) f = ret (0, v', f') \<and> source f' bs \<and> restored w v v'"
    and loads_rest: "stage = 2 \<or> stage = 3 \<Longrightarrow> good w \<Longrightarrow> source f (code stage w @ bs) \<Longrightarrow>
      \<exists>rc f'. load_state se v (version_id se) f = ret (rc, v, f') \<and> source f' bs"

definition part_code :: "('w, 'o) SaveStateEntry \<Rightarrow> u8 list" where
  "part_code se = be32 (word_of_int (section_id se))"

definition live_code :: "(int \<Rightarrow> 'w \<Rightarrow> u8 list) \<Rightarrow> ('w, 'o) SaveStateEntry \<Rightarrow> 'w \<Rightarrow> u8 list" where
  "live_code code se w =
     (ucast QEMU_VM_SECTION_START # header_code se @ code 1 w) @ (ucast QEMU_VM_SECTION_PART # part_code se @ code 2 w) @
     (ucast QEMU_VM_SECTION_END # part_code se @ code 3 w)"

definition live_snapshot_code :: "(int \<Rightarrow> 'w \<Rightarrow> u8 list) \<Rightarrow> (('w, 'o) SaveStateEntry \<Rightarrow> 'w \<Rightarrow> u8 list) \<Rightarrow> ('w, 'o) SaveStateEntry \<Rightarrow>
    ('w, 'o) SaveStateEntry list \<Rightarrow> 'w \<Rightarrow> u8 list" where
  "live_snapshot_code lcode code se ses w =
     be32 QEMU_VM_FILE_MAGIC @ be32 QEMU_VM_FILE_VERSION @ live_code lcode se w @ vm_code code ses w @ [ucast QEMU_VM_EOF]"

context back_end
begin

lemma part_header_puts: "ty < 256 \<Longrightarrow> puts (writing put cl holds) (put_part_header ty se) (ucast ty # part_code se)"
  unfolding put_part_header_def part_code_def using puts_bind [OF byte.puts_one be32.puts_one] by simp

lemma load_part_section:
  assumes "ty = QEMU_VM_SECTION_PART \<or> ty = QEMU_VM_SECTION_END" and "header_ok se"
    and "source f (ucast ty # part_code se @ cs)" and "les = [\<lparr>le_se = se, le_section_id = word_of_int (section_id se), le_version_id = word_of_int (version_id se)\<rparr>]"
    and "\<And>f2. source f2 cs \<Longrightarrow> \<exists>rc f'. load_state se v (version_id se) f2 = ret (rc, v, f') \<and> source f' rest"
  shows "\<exists>f'. load_sections ses les v f = load_sections ses les v f' \<and> source f' rest"
proof -
  have ty: "ty < 256" "ty \<noteq> QEMU_VM_EOF" "ty \<noteq> QEMU_VM_SECTION_START" "ty \<noteq> QEMU_VM_SECTION_FULL" using assms(1) by (auto simp: vm_types)
  from assms(3) ty(1) obtain f1 where 1: "qemu_get_byte f = ret (ty, f1)" "source f1 (part_code se @ cs)"
    using byte.get_code [of ty f "part_code se @ cs"] by auto
  obtain f2 where 2: "qemu_get_be32 f1 = ret (word_of_int (section_id se), f2)" "source f2 cs"
    using get_be32_code 1(2) unfolding part_code_def by blast
  from assms(5) [OF 2(2)] obtain rc f' where 3: "load_state se v (version_id se) f2 = ret (rc, v, f')" "source f' rest" by blast
  have i: "sint (word_of_int (version_id se) :: u32) = version_id se" using assms(2) by (simp add: header_ok_def sint_u32)
  have "load_sections ses les v f = load_sections ses les v f'"
    using 1(1) 2(1) 3(1) assms(1,4) ty(2-4) by (subst load_sections.simps) (simp add: i)
  with 3(2) show ?thesis by blast
qed

text \<open>A round over a list of which only the first entry is live.\<close>

lemma live_round:
  assumes "save_live_state se = Some live" and "list_all (\<lambda>se. save_live_state se = None) ses"
    and "puts (writing put cl holds) (header se) hs" and "writing put cl holds f bs (length (hs @ cs) + r)"
    and "\<And>f1 ds. writing put cl holds f1 ds (length cs + r) \<Longrightarrow>
      \<exists>rc w' f'. live stage w f1 = ret (rc, w', f') \<and> P rc w' \<and> writing put cl holds f' (ds @ cs) r"
  shows "\<exists>rc w' f'. live_sections header stage (se # ses) w f = ret (rc \<noteq> 0, w', f') \<and> P rc w' \<and> writing put cl holds f' (bs @ hs @ cs) r"
proof -
  obtain f1 where 1: "header se f = ret f1" "writing put cl holds f1 (bs @ hs) (length cs + r)"
    using putsD [OF assms(3), of f bs "length cs + r"] assms(4) by (auto simp: add.assoc)
  from assms(5) [OF 1(2)] obtain rc w' f' where 2: "live stage w f1 = ret (rc, w', f')" "P rc w'" "writing put cl holds f' ((bs @ hs) @ cs) r" by blast
  show ?thesis using 1(1) 2 assms(1) live_sections_none [OF assms(2)] by auto
qed

lemma writing_no_error: "writing put cl holds f bs r \<Longrightarrow> \<not> qemu_file_has_error f"
  by (simp add: writing_def qemu_file_has_error_def)

lemma live_begin:
  assumes live: "live_section (writing put cl holds) source good lcode begun accepts restored live se"
    and none: "list_all (\<lambda>se. save_live_state se = None) ses" and w: "good w"
    and f: "writing put cl holds f bs (length (be32 QEMU_VM_FILE_MAGIC @ be32 QEMU_VM_FILE_VERSION) + (length (ucast QEMU_VM_SECTION_START # header_code se @ lcode 1 w) + r))"
  shows "\<exists>w' f'. qemu_savevm_state_begin (se # ses) w f = ret (0, w', f') \<and> begun w w' \<and>
    writing put cl holds f' ((bs @ be32 QEMU_VM_FILE_MAGIC @ be32 QEMU_VM_FILE_VERSION) @ (ucast QEMU_VM_SECTION_START # header_code se @ lcode 1 w)) r"
proof -
  have head: "puts (writing put cl holds) (\<lambda>f. comp_bind (qemu_put_be32 QEMU_VM_FILE_MAGIC f) (qemu_put_be32 QEMU_VM_FILE_VERSION))
      (be32 QEMU_VM_FILE_MAGIC @ be32 QEMU_VM_FILE_VERSION)"
    by (intro puts_bind be32.puts_one)
  let ?b = "bs @ be32 QEMU_VM_FILE_MAGIC @ be32 QEMU_VM_FILE_VERSION" and ?h = "ucast QEMU_VM_SECTION_START # header_code se"
  obtain f1 where 1: "comp_bind (qemu_put_be32 QEMU_VM_FILE_MAGIC f) (qemu_put_be32 QEMU_VM_FILE_VERSION) = ret f1"
      "writing put cl holds f1 ?b (length (?h @ lcode 1 w) + r)"
    using putsD [OF head f] by auto
  have hput: "puts (writing put cl holds) (put_section_header QEMU_VM_SECTION_START se) ?h"
    by (rule section_header_puts) (simp_all add: live_section.header [OF live] vm_types)
  have "\<exists>(rc :: int) w' f'. live_sections (put_section_header QEMU_VM_SECTION_START) 1 (se # ses) w f1 = ret (rc \<noteq> 0, w', f') \<and> (begun w w') \<and>
      writing put cl holds f' (?b @ ?h @ lcode 1 w) r"
    by (rule live_round [where header = "put_section_header QEMU_VM_SECTION_START" and P = "\<lambda>rc w'. begun w w'", OF live_section.is_live [OF live] none hput 1(2)]) (rule live_section.starts [OF live w])
  then obtain rc :: int and w' f' where 2: "live_sections (put_section_header QEMU_VM_SECTION_START) 1 (se # ses) w f1 = ret (rc \<noteq> 0, w', f')" "begun w w'"
      "writing put cl holds f' (?b @ ?h @ lcode 1 w) r" by blast
  with 1(1) show ?thesis using writing_no_error [OF 2(3)]
    by (auto simp: qemu_savevm_state_begin_def simp del: live_sections.simps dest!: comp_bind_eq_retD)
qed

lemma live_iterate:
  assumes live: "live_section (writing put cl holds) source good lcode begun accepts restored live se"
    and none: "list_all (\<lambda>se. save_live_state se = None) ses" and w: "good w" "begun w w1"
    and f: "writing put cl holds f bs (length (ucast QEMU_VM_SECTION_PART # part_code se @ lcode 2 w) + r)"
  shows "\<exists>w' f'. iterate_loop (se # ses) w1 f = ret (1, w', f') \<and> begun w w' \<and>
    writing put cl holds f' (bs @ (ucast QEMU_VM_SECTION_PART # part_code se @ lcode 2 w)) r"
proof -
  let ?h = "ucast QEMU_VM_SECTION_PART # part_code se"
  have f: "writing put cl holds f bs (length (?h @ lcode 2 w) + r)" using f by simp
  have hput: "puts (writing put cl holds) (put_part_header QEMU_VM_SECTION_PART se) ?h" by (rule part_header_puts) (simp add: vm_types)
  have "\<exists>(rc :: int) w' f'. live_sections (put_part_header QEMU_VM_SECTION_PART) 2 (se # ses) w1 f = ret (rc \<noteq> 0, w', f') \<and> (rc = 1 \<and> begun w w') \<and>
      writing put cl holds f' (bs @ ?h @ lcode 2 w) r"
    by (rule live_round [where header = "put_part_header QEMU_VM_SECTION_PART" and P = "\<lambda>rc w'. rc = 1 \<and> begun w w'", OF live_section.is_live [OF live] none hput f]) (drule live_section.goes_on [OF live w]; blast)
  then obtain w' f' where 2: "live_sections (put_part_header QEMU_VM_SECTION_PART) 2 (se # ses) w1 f = ret (True, w', f')" "begun w w'"
      "writing put cl holds f' (bs @ ?h @ lcode 2 w) r" by auto
  then show ?thesis by (subst iterate_loop.simps) (simp add: qemu_savevm_state_iterate_def del: live_sections.simps)
qed

lemma live_complete:
  assumes live: "live_section (writing put cl holds) source good lcode begun accepts restored live se"
    and full: "list_all (section_ok good code restored') ses" and w: "good w" "begun w w1"
    and kept: "\<And>w'. begun w w' \<Longrightarrow> good w' \<and> (\<forall>se\<in>set ses. code se w' = code se w)"
    and f: "writing put cl holds f bs (length (ucast QEMU_VM_SECTION_END # part_code se @ lcode 3 w) + (length (vm_code code ses w @ [ucast QEMU_VM_EOF]) + r))"
  shows "\<exists>w' f'. qemu_savevm_state_complete (se # ses) w1 f = ret (0, w', f') \<and>
    writing put cl holds f' (bs @ (ucast QEMU_VM_SECTION_END # part_code se @ lcode 3 w) @ vm_code code ses w @ [ucast QEMU_VM_EOF]) r"
proof -
  let ?h = "ucast QEMU_VM_SECTION_END # part_code se" and ?v = "vm_code code ses w @ [ucast QEMU_VM_EOF]"
  have f: "writing put cl holds f bs (length (?h @ lcode 3 w) + (length ?v + r))" using f by simp
  have hput: "puts (writing put cl holds) (put_part_header QEMU_VM_SECTION_END se) ?h" by (rule part_header_puts) (simp add: vm_types)
  have "\<exists>(rc :: int) w' f'. live_sections (put_part_header QEMU_VM_SECTION_END) 3 (se # ses) w1 f = ret (rc \<noteq> 0, w', f') \<and> (begun w w') \<and>
      writing put cl holds f' (bs @ ?h @ lcode 3 w) (length ?v + r)"
    by (rule live_round [where header = "put_part_header QEMU_VM_SECTION_END" and P = "\<lambda>rc w'. begun w w'", OF live_section.is_live [OF live] sections_not_live [OF full] hput f]) (rule live_section.completes [OF live w])
  then obtain rc :: int and w' f' where 2: "live_sections (put_part_header QEMU_VM_SECTION_END) 3 (se # ses) w1 f = ret (rc \<noteq> 0, w', f')" "begun w w'"
      "writing put cl holds f' (bs @ ?h @ lcode 3 w) (length ?v + r)" by blast
  have same: "vm_code code ses w' = vm_code code ses w" using kept [OF 2(2)] by (auto simp: vm_code_def intro!: arg_cong [of _ _ concat])
  have first: "full_sections (se # ses) w' = full_sections ses w'" by (rule ext) (simp add: live_section.not_full [OF live])
  have tail: "puts (writing put cl holds) (\<lambda>f. comp_bind (full_sections (se # ses) w' f) (qemu_put_byte QEMU_VM_EOF)) ?v"
    unfolding first same [symmetric] using kept [OF 2(2)] by (intro puts_bind byte.puts_one full_sections_put [OF full]) simp
  obtain f2 where 3: "comp_bind (full_sections (se # ses) w' f') (qemu_put_byte QEMU_VM_EOF) = ret f2"
      "writing put cl holds f2 ((bs @ ?h @ lcode 3 w) @ ?v) r"
    using putsD [OF tail 2(3)] by blast
  with 2(1) show ?thesis using writing_no_error [OF 3(2)]
    by (auto simp: qemu_savevm_state_complete_def simp del: live_sections.simps full_sections.simps dest!: comp_bind_eq_retD)
qed

lemma live_savevm_writes:
  assumes live: "live_section (writing put cl holds) source good lcode begun accepts restored live se"
    and full: "list_all (section_ok good code restored') ses" and w: "good (bdrv_flush_all rs (vm_stop rs w))"
    and kept: "\<And>w w'. good w \<Longrightarrow> begun w w' \<Longrightarrow> good w' \<and> (\<forall>se\<in>set ses. code se w' = code se w)"
    and f: "writing put cl holds f bs (length (live_snapshot_code lcode code se ses (bdrv_flush_all rs (vm_stop rs w))) + r)"
  shows "\<exists>w' f'. qemu_savevm_state rs (se # ses) w f = ret (0, w', f') \<and>
    writing put cl holds f' (bs @ live_snapshot_code lcode code se ses (bdrv_flush_all rs (vm_stop rs w))) r"
proof -
  let ?w = "bdrv_flush_all rs (vm_stop rs w)"
  let ?m = "be32 QEMU_VM_FILE_MAGIC @ be32 QEMU_VM_FILE_VERSION" and ?v = "vm_code code ses ?w @ [ucast QEMU_VM_EOF]"
    and ?c1 = "ucast QEMU_VM_SECTION_START # header_code se @ lcode 1 ?w" and ?c2 = "ucast QEMU_VM_SECTION_PART # part_code se @ lcode 2 ?w"
    and ?c3 = "ucast QEMU_VM_SECTION_END # part_code se @ lcode 3 ?w"
  note none = sections_not_live [OF full]
  have code: "live_snapshot_code lcode code se ses ?w = ?m @ ?c1 @ ?c2 @ ?c3 @ ?v" by (simp add: live_snapshot_code_def live_code_def)
  obtain w1 f1 where 1: "qemu_savevm_state_begin (se # ses) ?w f = ret (0, w1, f1)" "begun ?w w1"
      "writing put cl holds f1 ((bs @ ?m) @ ?c1) (length ?c2 + (length ?c3 + (length ?v + r)))"
    using live_begin [OF live none w, of f bs "length ?c2 + (length ?c3 + (length ?v + r))"] f unfolding code by (auto simp: add.assoc)
  obtain w2 f2 where 2: "iterate_loop (se # ses) w1 f1 = ret (1, w2, f2)" "begun ?w w2"
      "writing put cl holds f2 (((bs @ ?m) @ ?c1) @ ?c2) (length ?c3 + (length ?v + r))"
    using live_iterate [OF live none w 1(2,3)] by blast
  obtain w3 f3 where 3: "qemu_savevm_state_complete (se # ses) w2 f2 = ret (0, w3, f3)"
      "writing put cl holds f3 ((((bs @ ?m) @ ?c1) @ ?c2) @ ?c3 @ ?v) r"
    using live_complete [OF live full w 2(2) kept [OF w] 2(3)] by blast
  show ?thesis using 1(1) 2(1) 3 writing_no_error [OF 3(2)] unfolding code by (simp add: qemu_savevm_state_def Let_def)
qed

lemma live_loadvm_reads:
  assumes live: "live_section (writing put cl holds) source good lcode begun accepts restored live se"
    and full: "list_all (section_ok good code restored') ses" and w: "good w" "accepts w v"
    and dist: "distinct (map (\<lambda>e. (idstr e, instance_id e)) (se # ses))" and f: "source f (live_snapshot_code lcode code se ses w)"
  shows "\<exists>v1 v' f'. qemu_loadvm_state (se # ses) v f = ret (0, v', f') \<and> restored w v v1 \<and> restored_all restored' ses w v1 v'"
proof -
  let ?les = "[\<lparr>le_se = se, le_section_id = word_of_int (section_id se), le_version_id = word_of_int (version_id se)\<rparr>]"
  let ?v = "vm_code code ses w @ [ucast QEMU_VM_EOF]" let ?c3 = "ucast QEMU_VM_SECTION_END # part_code se @ lcode 3 w @ ?v"
  let ?c2 = "ucast QEMU_VM_SECTION_PART # part_code se @ lcode 2 w @ ?c3"
  let ?c1 = "ucast QEMU_VM_SECTION_START # header_code se @ lcode 1 w @ ?c2"
  note head = live_section.header [OF live]
  have code: "live_snapshot_code lcode code se ses w = be32 QEMU_VM_FILE_MAGIC @ be32 QEMU_VM_FILE_VERSION @ ?c1"
    by (simp add: live_snapshot_code_def live_code_def)
  from f obtain f1 where 1: "qemu_get_be32 f = ret (QEMU_VM_FILE_MAGIC, f1)" "source f1 (be32 QEMU_VM_FILE_VERSION @ ?c1)"
    unfolding code using get_be32_code by blast
  then obtain f2 where 2: "qemu_get_be32 f1 = ret (QEMU_VM_FILE_VERSION, f2)" "source f2 ?c1" using get_be32_code by blast
  have find: "find_se (se # ses) (idstr e) (instance_id e) = Some e" if "e \<in> set (se # ses)" for e by (rule find_se_distinct [OF dist that])
  obtain v1 f3 where 3: "load_sections (se # ses) [] v f2 = load_sections (se # ses) ?les v1 f3" "source f3 ?c2" "restored w v v1"
    using load_whole_section [OF _ head find 2(2), of v ?c2 "restored w v" "[]"] live_section.loads_start [OF live w] by auto
  obtain f4 where 4: "load_sections (se # ses) ?les v1 f3 = load_sections (se # ses) ?les v1 f4" "source f4 ?c3"
    using load_part_section [OF _ head 3(2) refl, of v1 ?c3 "se # ses"] live_section.loads_rest [OF live _ w(1), of 2] by blast
  obtain f5 where 5: "load_sections (se # ses) ?les v1 f4 = load_sections (se # ses) ?les v1 f5" "source f5 ?v"
    using load_part_section [OF _ head 4(2) refl, of v1 ?v "se # ses"] live_section.loads_rest [OF live _ w(1), of 3] by blast
  obtain v' f6 where 6: "load_sections (se # ses) ?les v1 f5 = ret (0, v', f6)" "source f6 []" "restored_all restored' ses w v1 v'"
    using full_sections_load [OF full w(1) _ 5(2), of "se # ses" ?les v1] find by auto
  have "\<not> qemu_file_has_error f6" using 6(2) by (simp add: reading_def qemu_file_has_error_def)
  then have "qemu_loadvm_state (se # ses) v f = ret (0, v', f6)"
    using 1(1) 2(1) 3(1) 4(1) 5(1) 6(1) by (simp add: qemu_loadvm_state_def QEMU_VM_FILE_VERSION_def QEMU_VM_FILE_VERSION_COMPAT_def)
  with 3(3) 6(3) show ?thesis by blast
qed

end

text \<open>Through a file.\<close>

lemma live_snapshot_through_file:
  assumes live: "live_section saving (loading False) good lcode begun accepts restored live se"
    and full: "list_all (seekable.section_ok good code restored') ses" and w: "good (bdrv_flush_all rs (vm_stop rs w))" "accepts (bdrv_flush_all rs (vm_stop rs w)) v"
    and kept: "\<forall>w w'. good w \<and> begun w w' \<longrightarrow> good w' \<and> (\<forall>se\<in>set ses. code se w' = code se w)"
    and dist: "distinct (map (\<lambda>e. (idstr e, instance_id e)) (se # ses))"
    and len: "length (live_snapshot_code lcode code se ses (bdrv_flush_all rs (vm_stop rs w))) \<le> space"
  shows "\<exists>f w' f1 fp g v1 v' g1. qemu_fopen dir space name ''wb'' = Some f \<and> qemu_savevm_state rs (se # ses) w f = ret (0, w', f1) \<and>
    qemu_fclose f1 = (0, fp) \<and> qemu_fopen (dir(name \<mapsto> file_bytes fp)) space name ''rb'' = Some g \<and>
    qemu_loadvm_state (se # ses) v g = ret (0, v', g1) \<and> restored (bdrv_flush_all rs (vm_stop rs w)) v v1 \<and>
    restored_all restored' ses (bdrv_flush_all rs (vm_stop rs w)) v1 v'"
proof -
  let ?code = "live_snapshot_code lcode code se ses (bdrv_flush_all rs (vm_stop rs w))"
  obtain f where f: "qemu_fopen dir space name ''wb'' = Some f" "saving f [] (length ?code + 0)"
    using fopen_wb [of "length ?code + 0" space] len by auto
  obtain w' f1 where f1: "qemu_savevm_state rs (se # ses) w f = ret (0, w', f1)" "saving f1 ([] @ ?code) 0"
    using seekable.live_savevm_writes [OF live full w(1) _ f(2)] kept by blast
  obtain fp g where g: "qemu_fclose f1 = (0, fp)" "qemu_fopen (dir(name \<mapsto> file_bytes fp)) space name ''rb'' = Some g" "loading False g ?code"
    using fclose_then_fopen [OF f1(2)] by (metis append.left_neutral)
  from seekable.live_loadvm_reads [OF live full w dist g(3)] f(1) f1(1) g(1,2) show ?thesis by blast
qed

section \<open>A part of a larger machine\<close>

text \<open>The entry of a part works on the machine by reading its part and putting it back.\<close>

definition load_part :: "('m \<Rightarrow> 'w) \<Rightarrow> ('w \<Rightarrow> 'm \<Rightarrow> 'm) \<Rightarrow> ('w \<Rightarrow> int \<Rightarrow> 'o QEMUFile \<Rightarrow> (int \<times> 'w \<times> 'o QEMUFile) comp) \<Rightarrow>
    'm \<Rightarrow> int \<Rightarrow> 'o QEMUFile \<Rightarrow> (int \<times> 'm \<times> 'o QEMUFile) comp" where
  "load_part part with_part load m ver f = comp_bind (load (part m) ver f) (\<lambda>(rc, w, f1). ret (rc, with_part w m, f1))"

definition part_entry :: "('m \<Rightarrow> 'w) \<Rightarrow> ('w \<Rightarrow> 'm \<Rightarrow> 'm) \<Rightarrow> int \<Rightarrow> ('w, 'o) SaveStateEntry \<Rightarrow> ('m, 'o) SaveStateEntry" where
  "part_entry part with_part sid se =
     \<lparr>idstr = idstr se, instance_id = instance_id se, version_id = version_id se, section_id = sid, save_live_state = None,
      save_state = map_option (\<lambda>save m. save (part m)) (save_state se), load_state = load_part part with_part (load_state se), se_opaque = se_opaque se\<rparr>"

definition register_part :: "('m \<Rightarrow> 'w) \<Rightarrow> ('w \<Rightarrow> 'm \<Rightarrow> 'm) \<Rightarrow> ('w, 'o) SaveStateEntry \<Rightarrow> ('m, 'o) savevm_list \<Rightarrow> ('m, 'o) savevm_list" where
  "register_part part with_part se sl =
     snd (register_savevm (idstr se) (instance_id se) (version_id se) (map_option (\<lambda>save m. save (part m)) (save_state se))
       (load_part part with_part (load_state se)) (se_opaque se) sl)"

locale part_of =
  fixes part :: "'m \<Rightarrow> 'w" and with_part :: "'w \<Rightarrow> 'm \<Rightarrow> 'm"
  assumes part_with: "part (with_part w m) = w" and with_with: "with_part w (with_part u m) = with_part w m"
begin

lemma part_section:
  assumes se: "snapshot_section sink source good code restored se" and good: "\<And>m. good' m \<Longrightarrow> good (part m)"
  shows "snapshot_section sink source good' (\<lambda>m. code (part m)) (\<lambda>m v v'. \<exists>w. restored (part m) (part v) w \<and> v' = with_part w v)
    (part_entry part with_part sid se)"
proof
  show "header_ok (part_entry part with_part sid se)"
    using snapshot_section.header [OF se] by (simp add: header_ok_def part_entry_def)
  show "save_live_state (part_entry part with_part sid se) = None" by (simp add: part_entry_def)
  from snapshot_section.saves [OF se] obtain save where "save_state se = Some save" "\<forall>w. good w \<longrightarrow> puts sink (save w) (code w)" by blast
  then show "\<exists>save. save_state (part_entry part with_part sid se) = Some save \<and> (\<forall>m. good' m \<longrightarrow> puts sink (save m) (code (part m)))"
    using good by (simp add: part_entry_def)
next
  fix m v :: 'm and f bs assume m: "good' m" and f: "source f (code (part m) @ bs)"
  from snapshot_section.loads [OF se good [OF m] f, of "part v"]
  show "\<exists>w' f'. load_state (part_entry part with_part sid se) v (version_id (part_entry part with_part sid se)) f = ret (0, w', f') \<and>
      source f' bs \<and> (\<exists>w. restored (part m) (part v) w \<and> w' = with_part w v)"
    by (auto simp: part_entry_def load_part_def)
qed

end

section \<open>The machine with its RAM\<close>

text \<open>RAM with the processor, and the interrupt controller. The board is the first processor and the controller.\<close>

type_synonym whole = "ram_vm \<times> goldfish_int_state"

definition whole_board :: "whole \<Rightarrow> board" where
  "whole_board w = (hd (vm_cpus (fst w)), snd w)"

definition with_board :: "board \<Rightarrow> whole \<Rightarrow> whole" where
  "with_board b w = ((fst w)\<lparr>vm_cpus := fst b # tl (vm_cpus (fst w))\<rparr>, snd b)"

interpretation board_part: part_of whole_board with_board
  by unfold_locales (simp_all add: whole_board_def with_board_def)

definition ram_live :: "migration_clock \<Rightarrow> int \<Rightarrow> whole \<Rightarrow> 'o QEMUFile \<Rightarrow> (int \<times> whole \<times> 'o QEMUFile) comp" where
  "ram_live mc stage w f = comp_bind (ram_save_live mc stage (fst w) f) (\<lambda>(rc, vm, f1). ret (rc, (vm, snd w), f1))"

definition register_ram :: "migration_clock \<Rightarrow> (whole, 'o) savevm_list \<Rightarrow> (whole, 'o) savevm_list" where
  "register_ram mc sl = snd (register_savevm_live ''ram'' 0 3 (Some (ram_live mc)) None (load_part fst (\<lambda>vm w. (vm, snd w)) ram_load) 0 sl)"

text \<open>The list of a running emulator: RAM, and then what the board registers.\<close>

definition machine_entries :: "migration_clock \<Rightarrow> (whole, 'o) SaveStateEntry list" where
  "machine_entries mc = first_se (fold (register_part whole_board with_board) board_entries
     (register_ram mc \<lparr>first_se = [], global_section_id = 0\<rparr>))"

definition ram_entry :: "migration_clock \<Rightarrow> (whole, 'o) SaveStateEntry" where
  "ram_entry mc = \<lparr>idstr = ''ram'', instance_id = 0, version_id = 3, section_id = 0, save_live_state = Some (ram_live mc), save_state = None,
     load_state = load_part fst (\<lambda>vm w. (vm, snd w)) ram_load, se_opaque = 0\<rparr>"

abbreviation whole_part :: "int \<Rightarrow> (board, 'o) SaveStateEntry \<Rightarrow> (whole, 'o) SaveStateEntry" where
  "whole_part \<equiv> part_entry whole_board with_board"

lemma machine_entries_eq: "machine_entries mc = [ram_entry mc, whole_part 1 common_entry, whole_part 2 cpu_entry, whole_part 3 int_entry]"
  by (simp add: machine_entries_def board_entries_eq register_part_def register_ram_def register_savevm_def register_savevm_live_def free_instance_def
      entry_defs part_entry_def ram_entry_def Let_def)

section \<open>RAM keeps the contract\<close>

definition whole_good :: "whole \<Rightarrow> bool" where
  "whole_good w \<longleftrightarrow> blocks_ok (vm_blocks (fst w)) \<and> covered (ram_list (vm_mach (fst w))) \<and> board_good (whole_board w)"

definition ram_order :: "whole \<Rightarrow> RAMBlock list" where
  "ram_order w = sort_key offset (vm_blocks (fst w))"

definition ram_code :: "int \<Rightarrow> whole \<Rightarrow> u8 list" where
  "ram_code stage w = (if stage = 1 then start_code (ram_order w) @ rest_code (ram_order w) (vm_host (fst w)) 0 else []) @ be64 RAM_SAVE_FLAG_EOS"

definition ram_begun :: "whole \<Rightarrow> whole \<Rightarrow> bool" where
  "ram_begun w w' \<longleftrightarrow> progress (ram_order w) (vm_cpus (fst w)) (vm_host (fst w)) (length (pages (ram_order w))) (fst w') \<and> snd w' = snd w"

definition ram_accepts :: "whole \<Rightarrow> whole \<Rightarrow> bool" where
  "ram_accepts w v \<longleftrightarrow> same_layout (vm_blocks (fst w)) (vm_blocks (fst v))"

definition ram_restored :: "whole \<Rightarrow> whole \<Rightarrow> whole \<Rightarrow> bool" where
  "ram_restored w v v' \<longleftrightarrow> loaded (ram_order w) (vm_host (fst w)) (fst v) (length (pages (ram_order w))) (fst v') \<and> snd v' = snd v"

context back_end
begin

lemma ram_section:
  assumes mc: "\<And>vm. 0 < round_ns mc 2 vm"
  shows "live_section (writing put cl holds) source whole_good ram_code ram_begun ram_accepts ram_restored (ram_live mc) (ram_entry mc)"
proof
  show "header_ok (ram_entry mc)" by (simp add: header_ok_def ram_entry_def)
  show "save_live_state (ram_entry mc) = Some (ram_live mc)" "save_state (ram_entry mc) = None" by (simp_all add: ram_entry_def)
next
  fix w f bs r assume w: "whole_good w" and f: "writing put cl holds f bs (length (ram_code 1 w) + r)"
  from save_live_1 [of "fst w" "ram_order w" "vm_cpus (fst w)" "vm_host (fst w)" f bs r mc] w f
  show "\<exists>rc w' f'. ram_live mc 1 w f = ret (rc, w', f') \<and> ram_begun w w' \<and> writing put cl holds f' (bs @ ram_code 1 w) r"
    by (fastforce simp: whole_good_def ram_order_def ram_code_def ram_live_def ram_begun_def)
next
  fix w w1 f bs r assume w: "whole_good w" "ram_begun w w1" and f: "writing put cl holds f bs (length (ram_code 2 w) + r)"
  have "blocks_ok (ram_order w)" using w(1) by (simp add: whole_good_def ram_order_def blocks_ok_sort)
  from save_live_2 [OF _ this mc, of "vm_cpus (fst w)" "vm_host (fst w)" "fst w1" f bs r] w f
  show "\<exists>w' f'. ram_live mc 2 w1 f = ret (1, w', f') \<and> ram_begun w w' \<and> writing put cl holds f' (bs @ ram_code 2 w) r"
    by (fastforce simp: ram_code_def ram_live_def ram_begun_def)
next
  fix w w1 f bs r assume w: "whole_good w" "ram_begun w w1" and f: "writing put cl holds f bs (length (ram_code 3 w) + r)"
  have "blocks_ok (ram_order w)" using w(1) by (simp add: whole_good_def ram_order_def blocks_ok_sort)
  from save_live_3 [OF _ this, of "vm_cpus (fst w)" "vm_host (fst w)" "fst w1" f bs r mc] w f
  show "\<exists>rc w' f'. ram_live mc 3 w1 f = ret (rc, w', f') \<and> ram_begun w w' \<and> writing put cl holds f' (bs @ ram_code 3 w) r"
    by (fastforce simp: ram_code_def ram_live_def ram_begun_def)
next
  fix w v f bs assume w: "whole_good w" "ram_accepts w v" and f: "source f (ram_code 1 w @ bs)"
  have "blocks_ok (ram_order w)" "same_layout (ram_order w) (vm_blocks (fst v))"
    using w by (simp_all add: whole_good_def ram_order_def blocks_ok_sort ram_accepts_def same_layout_def)
  from load_all [OF this, of f "vm_host (fst w)" bs] f
  show "\<exists>v' f'. load_state (ram_entry mc) v (version_id (ram_entry mc)) f = ret (0, v', f') \<and> source f' bs \<and> ram_restored w v v'"
    by (fastforce simp: ram_code_def ram_entry_def load_part_def ram_restored_def)
next
  fix stage :: int and w v :: whole and f bs assume "stage = 2 \<or> stage = 3" and f: "source f (ram_code stage w @ bs)"
  then have "source f (be64 RAM_SAVE_FLAG_EOS @ bs)" by (auto simp: ram_code_def)
  from load_nothing [OF this, of "fst v"] obtain f' where 1: "ram_load (fst v) 3 f = ret (0, fst v, f')" "source f' bs" by blast
  have "load_state (ram_entry mc) v (version_id (ram_entry mc)) f = ret (0, v, f')" using 1(1) by (simp add: ram_entry_def load_part_def)
  with 1(2) show "\<exists>rc f'. load_state (ram_entry mc) v (version_id (ram_entry mc)) f = ret (rc, v, f') \<and> source f' bs" by blast
qed

end

section \<open>All sections\<close>

definition whole_code :: "(whole, 'o) SaveStateEntry \<Rightarrow> whole \<Rightarrow> u8 list" where
  "whole_code se m = (if idstr se = ''cpu_common'' then common_code (whole_board m)
     else if idstr se = ''cpu'' then cpu_code (fst (whole_board m)) else struct_code goldfish_int_fields (snd (whole_board m)))"

definition whole_restored :: "(whole, 'o) SaveStateEntry \<Rightarrow> whole \<Rightarrow> whole \<Rightarrow> whole \<Rightarrow> bool" where
  "whole_restored se m v v' \<longleftrightarrow> (\<exists>w. (if idstr se = ''cpu_common'' then common_restored else if idstr se = ''cpu'' then cpu_part_restored else int_restored)
     (whole_board m) (whole_board v) w \<and> v' = with_board w v)"

lemma whole_parts [simp]:
  "whole_code (whole_part i common_entry) = (\<lambda>m. common_code (whole_board m))" "whole_code (whole_part i cpu_entry) = (\<lambda>m. cpu_code (fst (whole_board m)))"
  "whole_code (whole_part i int_entry) = (\<lambda>m. struct_code goldfish_int_fields (snd (whole_board m)))"
  "whole_restored (whole_part i common_entry) = (\<lambda>m v v'. \<exists>w. common_restored (whole_board m) (whole_board v) w \<and> v' = with_board w v)"
  "whole_restored (whole_part i cpu_entry) = (\<lambda>m v v'. \<exists>w. cpu_part_restored (whole_board m) (whole_board v) w \<and> v' = with_board w v)"
  "whole_restored (whole_part i int_entry) = (\<lambda>m v v'. \<exists>w. int_restored (whole_board m) (whole_board v) w \<and> v' = with_board w v)"
  by (auto simp: fun_eq_iff whole_code_def whole_restored_def entry_defs part_entry_def)

lemma whole_sections:
  "list_all (seekable.section_ok whole_good whole_code whole_restored) [whole_part 1 common_entry, whole_part 2 cpu_entry, whole_part 3 int_entry]"
  using board_part.part_section [OF board_common.snapshot_section_axioms, of whole_good 1]
    board_part.part_section [OF board_cpu.snapshot_section_axioms, of whole_good 2]
    board_part.part_section [OF board_int.snapshot_section_axioms, of whole_good 3]
  by (simp add: whole_good_def)

lemma whole_distinct: "distinct (map (\<lambda>e. (idstr e, instance_id e)) (machine_entries mc))"
  by (simp add: machine_entries_eq entry_defs part_entry_def ram_entry_def)

lemma cpu_code_tlb: "cpu_code (env\<lparr>tlb_table := T\<rparr>) = cpu_code env"
  by (simp add: cpu_code_def core_saved_def vfp_code_def iwmmxt_code_def arm_feature_def cpsr_read_def)

lemma same_regs_hd:
  assumes "same_regs cs cs'" obtains T where "hd cs' = (hd cs)\<lparr>tlb_table := T\<rparr>" | "cs = []" "cs' = []"
proof (cases cs)
  case Nil
  then show thesis using assms that(2) by (auto simp: same_regs_def)
next
  case (Cons c ds)
  with assms obtain c' ds' where c: "cs' = c' # ds'" "\<forall>T. c\<lparr>tlb_table := T\<rparr> = c'\<lparr>tlb_table := T\<rparr>" by (cases cs') (auto simp: same_regs_def)
  from c(2) have "c\<lparr>tlb_table := tlb_table c'\<rparr> = c'" by simp
  with Cons c(1) show thesis using that(1) [of "tlb_table c'"] by simp
qed

lemma begun_keeps:
  assumes "whole_good w" and "ram_begun w w'"
  shows "whole_good w'" "whole_code se w' = whole_code se w"
proof -
  have p: "vm_blocks (fst w') = ram_order w" "same_regs (vm_cpus (fst w)) (vm_cpus (fst w'))" "covered (ram_list (vm_mach (fst w')))" "snd w' = snd w"
    using assms(2) by (auto simp: ram_begun_def progress_def same_regs_def)
  from p(2) consider T where "hd (vm_cpus (fst w')) = (hd (vm_cpus (fst w)))\<lparr>tlb_table := T\<rparr>" | "hd (vm_cpus (fst w')) = hd (vm_cpus (fst w))"
    by (metis same_regs_hd)
  then have "board_good (whole_board w') = board_good (whole_board w) \<and> whole_code se w' = whole_code se w"
    using p(4) by cases (simp_all add: board_good_def whole_board_def whole_code_def common_code_def cpu_code_tlb)
  then show "whole_good w'" "whole_code se w' = whole_code se w"
    using assms(1) p by (simp_all add: whole_good_def ram_order_def blocks_ok_sort)
qed

section \<open>The length of a snapshot\<close>

lemma length_record_code: "length (RAMBlock.idstr (fst p)) < 256 \<Longrightarrow> length (record_code h prev p) \<le> 1288"
  by (simp add: record_code_def record_body_def Let_def id_code_def page_bytes_def TARGET_PAGE_BITS_def)

lemma length_rest_code:
  assumes "blocks_ok bs" shows "length (rest_code bs h 0) \<le> 1288 * length (pages bs)"
proof -
  have "length (record_code h (if i = 0 then None else Some (fst (pages bs ! (i - 1)))) (pages bs ! i)) \<le> 1288" if "i < length (pages bs)" for i
    using page_block_ok(2) [OF assms, of "pages bs ! i"] that by (intro length_record_code) simp
  then have "sum_list (map (\<lambda>i. length (record_code h (if i = 0 then None else Some (fst (pages bs ! (i - 1)))) (pages bs ! i))) [0..<length (pages bs)]) \<le>
      sum_list (map (\<lambda>_. 1288) [0..<length (pages bs)])"
    by (intro sum_list_mono) simp
  then show ?thesis by (simp add: rest_code_def length_concat comp_def sum_list_triv mult.commute)
qed

lemma length_start_code:
  assumes "blocks_ok bs" shows "length (start_code bs) \<le> 8 + 264 * length bs"
proof -
  have "sum_list (map (\<lambda>b. length (id_code b @ be64 (blength b))) bs) \<le> sum_list (map (\<lambda>_. 264) bs)"
    using assms by (intro sum_list_mono) (auto simp: id_code_def blocks_ok_def)
  then show ?thesis by (simp add: start_code_def length_concat comp_def sum_list_triv mult.commute)
qed

lemma length_pages_sort: "blocks_ok bs \<Longrightarrow> length (pages (sort_key offset bs)) = length (pages bs)"
proof -
  assume "blocks_ok bs"
  then have "distinct bs" "distinct (sort_key offset bs)" using blocks_distinct by simp_all
  moreover have "length (pages cs) = sum_list (map npages cs)" for cs by (simp add: pages_def length_concat comp_def block_pages_def)
  ultimately show ?thesis by (simp add: sum_list_distinct_conv_sum_set)
qed

lemma length_whole:
  assumes "whole_good w"
  shows "length (live_snapshot_code ram_code whole_code (ram_entry mc) [whole_part 1 common_entry, whole_part 2 cpu_entry, whole_part 3 int_entry] w)
    \<le> 1100 + 264 * length (vm_blocks (fst w)) + 1288 * length (pages (vm_blocks (fst w)))"
proof -
  have ok: "blocks_ok (vm_blocks (fst w))" "blocks_ok (ram_order w)" using assms by (simp_all add: whole_good_def ram_order_def blocks_ok_sort)
  have 1: "length (start_code (ram_order w)) \<le> 8 + 264 * length (vm_blocks (fst w))"
    using length_start_code [OF ok(2)] by (simp add: ram_order_def)
  have 2: "length (rest_code (ram_order w) (vm_host (fst w)) 0) \<le> 1288 * length (pages (vm_blocks (fst w)))"
    using length_rest_code [OF ok(2), of "vm_host (fst w)"] length_pages_sort [OF ok(1)] by (simp add: ram_order_def)
  show ?thesis using 1 2 length_cpu_code [of "fst (whole_board w)"]
    by (simp add: live_snapshot_code_def live_code_def ram_code_def vm_code_def full_code_def header_code_def part_code_def common_code_def
        ram_entry_def part_entry_def entry_defs whole_code_def goldfish_int_fields_def)
qed

section \<open>Properties\<close>

lemma ram_contents:
  assumes "ram_restored w v v1" and ok: "blocks_ok (vm_blocks (fst w))" and lay: "same_layout (vm_blocks (fst w)) (vm_blocks (fst v))"
    and apart: "hosts_apart (vm_blocks (fst v))" and os: "advice_ok (vm_os (fst v))" and host: "\<forall>b\<in>set (vm_blocks (fst v)). ends_with_host_page (vm_os (fst v)) b"
  shows "b \<in> set (vm_blocks (fst w)) \<Longrightarrow> off < blength b \<Longrightarrow>
      vm_host (fst v1) (RAMBlock.host (target (vm_blocks (fst v)) b) + off) = vm_host (fst w) (RAMBlock.host b + off)"
    and "\<forall>b\<in>set (vm_blocks (fst w)). \<not> (unat (RAMBlock.host (target (vm_blocks (fst v)) b)) \<le> unat a \<and>
        unat a < unat (RAMBlock.host (target (vm_blocks (fst v)) b)) + unat (blength b)) \<Longrightarrow> vm_host (fst v1) a = vm_host (fst v) a"
    and "vm_mach (fst v1) = vm_mach (fst v)" "vm_cpus (fst v1) = vm_cpus (fst v)" "snd v1 = snd v"
proof -
  have h: "vm_host (fst v1) = fold (load_one (vm_os (fst v)) (vm_blocks (fst v)) (vm_host (fst w))) (pages (ram_order w)) (vm_host (fst v))"
    and rest: "vm_mach (fst v1) = vm_mach (fst v)" "vm_cpus (fst v1) = vm_cpus (fst v)" "snd v1 = snd v"
    using assms(1) by (auto simp: ram_restored_def loaded_def)
  have ok': "blocks_ok (ram_order w)" "same_layout (ram_order w) (vm_blocks (fst v))" and set: "set (ram_order w) = set (vm_blocks (fst w))"
    using ok lay by (simp_all add: ram_order_def blocks_ok_sort same_layout_def)
  from contents_restored [OF os ok' apart host] show "b \<in> set (vm_blocks (fst w)) \<Longrightarrow> off < blength b \<Longrightarrow>
      vm_host (fst v1) (RAMBlock.host (target (vm_blocks (fst v)) b) + off) = vm_host (fst w) (RAMBlock.host b + off)"
    unfolding h set by blast
  from contents_other [OF os ok' apart host] show "\<forall>b\<in>set (vm_blocks (fst w)). \<not> (unat (RAMBlock.host (target (vm_blocks (fst v)) b)) \<le> unat a \<and>
        unat a < unat (RAMBlock.host (target (vm_blocks (fst v)) b)) + unat (blength b)) \<Longrightarrow> vm_host (fst v1) a = vm_host (fst v) a"
    unfolding h set by blast
  from rest show "vm_mach (fst v1) = vm_mach (fst v)" "vm_cpus (fst v1) = vm_cpus (fst v)" "snd v1 = snd v" by simp_all
qed

lemma board_parts_restored:
  assumes "restored_all whole_restored [whole_part 1 common_entry, whole_part 2 cpu_entry, whole_part 3 int_entry] w v v'"
    and "whole_board w = (env, p)" and "whole_board v = (env0, p0)"
  shows "\<exists>env'. v' = with_board (env', p\<lparr>parent_irq := parent_irq p0, parent_fiq := parent_fiq p0\<rparr>) v \<and>
    cpu_restored env (tlb_flush (env0\<lparr>halted := halted env, interrupt_request := interrupt_request env AND NOT 1\<rparr>)) env'"
  using assms
  by (auto simp: common_restored_def cpu_part_restored_def int_restored_def board_part.part_with board_part.with_with
      intro!: exI [of _ "fst (whole_board v')"])

text \<open>
  C16. A snapshot of the whole machine comes back on another machine: \<open>qemu_savevm_state\<close> saves RAM and the board into a file, the file is closed and opened again, and
  \<open>qemu_loadvm_state\<close> returns 0 on a machine in any state whose blocks have the same names and lengths, wherever they are in the memory of the host. Every byte of
  every block of RAM is the saved one, the memory of the host outside the blocks and the map of physical memory are as they were, the processor has its saved registers,
  and the interrupt controller its saved state. Conditions: the clock moves during the second round, so that the estimate of the remaining time is a number and the rounds end; advice on memory does what the
  documentation of the host says, and where the build gives it (\<open>CONFIG_MADVISE\<close>) every block of the loading machine ends with a page of the host, because the advice on the last page of zeros would
  otherwise clear memory behind the block; the blocks of the loading machine are apart; the blocks of the saving machine are whole pages of 1 KB with distinct names and have dirty bytes; one processor; and the file has room.
\<close>

theorem machine_snapshot_roundtrip:
  assumes mc: "\<forall>vm. 0 < round_ns mc 2 vm" and os: "advice_ok (vm_os v)" "\<forall>b\<in>set (vm_blocks v). ends_with_host_page (vm_os v) b"
    and w: "bdrv_flush_all rs (vm_stop rs w) = (vm, p)" "vm_cpus vm = [env]" "- (2 ^ 31) \<le> current_sp (v7m env)" "current_sp (v7m env) < 2 ^ 31"
    and ram: "blocks_ok (vm_blocks vm)" "covered (ram_list (vm_mach vm))"
    and v: "vm_cpus v = [env0]" "same_layout (vm_blocks vm) (vm_blocks v)" "hosts_apart (vm_blocks v)"
    and len: "1100 + 264 * length (vm_blocks vm) + 1288 * length (pages (vm_blocks vm)) \<le> space"
  shows "\<exists>f w' f1 fp g vm' env' g1. qemu_fopen dir space name ''wb'' = Some f \<and> qemu_savevm_state rs (machine_entries mc) w f = ret (0, w', f1) \<and>
    qemu_fclose f1 = (0, fp) \<and> qemu_fopen (dir(name \<mapsto> file_bytes fp)) space name ''rb'' = Some g \<and>
    qemu_loadvm_state (machine_entries mc) (v, p0) g = ret (0, (vm', p\<lparr>parent_irq := parent_irq p0, parent_fiq := parent_fiq p0\<rparr>), g1) \<and>
    (\<forall>b\<in>set (vm_blocks vm). \<forall>off. off < blength b \<longrightarrow>
       vm_host vm' (RAMBlock.host (target (vm_blocks v) b) + off) = vm_host vm (RAMBlock.host b + off)) \<and>
    (\<forall>a. (\<forall>b\<in>set (vm_blocks vm). \<not> (unat (RAMBlock.host (target (vm_blocks v) b)) \<le> unat a \<and>
        unat a < unat (RAMBlock.host (target (vm_blocks v) b)) + unat (blength b))) \<longrightarrow> vm_host vm' a = vm_host v a) \<and>
    vm_mach vm' = vm_mach v \<and> vm_cpus vm' = [env'] \<and>
    cpu_restored env (tlb_flush (env0\<lparr>halted := halted env, interrupt_request := interrupt_request env AND NOT 1\<rparr>)) env'"
proof -
  let ?ses = "[whole_part 1 common_entry, whole_part 2 cpu_entry, whole_part 3 int_entry] :: (whole, FILE) SaveStateEntry list"
  have good: "whole_good (vm, p)" using w ram by (simp add: whole_good_def board_good_def whole_board_def)
  have acc: "ram_accepts (vm, p) (v, p0)" using v by (simp add: ram_accepts_def)
  have kept: "\<forall>w w'. whole_good w \<and> ram_begun w w' \<longrightarrow> whole_good w' \<and> (\<forall>se\<in>set ?ses. whole_code se w' = whole_code se w)"
    using begun_keeps by blast
  have size: "length (live_snapshot_code ram_code whole_code (ram_entry mc) ?ses (vm, p)) \<le> space"
    by (rule order_trans [OF length_whole [OF good]]) (use len in simp)
  have mc: "\<And>vm. 0 < round_ns mc 2 vm" using mc by blast
  from live_snapshot_through_file [OF seekable.ram_section [OF mc] whole_sections good [folded w(1)] acc [folded w(1)] kept
      whole_distinct [of mc, unfolded machine_entries_eq] size [folded w(1)], of dir name, folded machine_entries_eq, unfolded w(1)]
  obtain f w' f1 fp g v1 v' g1 where r: "qemu_fopen dir space name ''wb'' = Some f" "qemu_savevm_state rs (machine_entries mc) w f = ret (0, w', f1)"
      "qemu_fclose f1 = (0, fp)" "qemu_fopen (dir(name \<mapsto> file_bytes fp)) space name ''rb'' = Some g"
      "qemu_loadvm_state (machine_entries mc) (v, p0) g = ret (0, v', g1)" "ram_restored (vm, p) (v, p0) v1" "restored_all whole_restored ?ses (vm, p) v1 v'"
    by blast
  note c = ram_contents [OF r(6), unfolded fst_conv snd_conv, OF ram(1) v(2,3) os]
  from board_parts_restored [OF r(7), of env p env0 p0] c(4,5) w(2) v(1)
  obtain env' where e: "v' = with_board (env', p\<lparr>parent_irq := parent_irq p0, parent_fiq := parent_fiq p0\<rparr>) v1"
      "cpu_restored env (tlb_flush (env0\<lparr>halted := halted env, interrupt_request := interrupt_request env AND NOT 1\<rparr>)) env'"
    by (auto simp: whole_board_def)
  have "v' = ((fst v1)\<lparr>vm_cpus := [env']\<rparr>, p\<lparr>parent_irq := parent_irq p0, parent_fiq := parent_fiq p0\<rparr>)"
    using e(1) c(4) v(1) by (simp add: with_board_def)
  then show ?thesis using r(1-5) c(1-3) e(2) by (intro exI [of _ f] exI [of _ w'] exI [of _ f1] exI [of _ fp] exI [of _ g] exI [of _ "(fst v1)\<lparr>vm_cpus := [env']\<rparr>"]
        exI [of _ env'] exI [of _ g1]) simp
qed

text \<open>A machine of two blocks of four pages, and one that has them elsewhere and in the other order.\<close>

definition demo_clock :: migration_clock where
  "demo_clock = \<lparr>round_ns = (\<lambda>_ _. 1000), nan_as_u64 = 0x8000000000000000, migrate_max_downtime = 30\<rparr>"

text \<open>Linux, with private anonymous memory in pages of 4 KB: the advice clears whole pages from an aligned address on.\<close>

definition linux :: host_os where
  "linux = \<lparr>advice_build = CONFIG_MADVISE,
     madvise_dontneed = (\<lambda>addr len h. if unat addr mod 4096 = 0 then (\<lambda>a. if unat (a - addr) < host_pages 4096 len then 0 else h a) else h),
     posix_madvise_dontneed = (\<lambda>addr len h. h), getpagesize = 4096\<rparr>"

lemma linux_ok: "advice_ok linux"
  by (simp add: advice_ok_def linux_def)

text \<open>
  On such a host a page of zeros at the start of a page of the host clears the three pages behind it as well, whatever they hold, also when they belong to another block or to no block.
\<close>

theorem zero_page_clears_neighbours:
  assumes "vm_os vm = linux" and "stream_block vm = Some b" and "unat (RAMBlock.host b + off) mod 4096 = 0"
    and "fl AND RAM_SAVE_FLAG_MEM_SIZE = 0" and "fl AND RAM_SAVE_FLAG_COMPRESS \<noteq> 0" and "fl AND RAM_SAVE_FLAG_CONTINUE \<noteq> 0"
    and "qemu_get_byte f = ret (0, f1)"
  shows "\<exists>vm'. load_record 3 off fl vm f = ret (0, vm', f1) \<and>
    (\<forall>a. unat (a - (RAMBlock.host b + off)) < 4096 \<longrightarrow> vm_host vm' a = 0) \<and>
    (\<forall>a. 4096 \<le> unat (a - (RAMBlock.host b + off)) \<longrightarrow> vm_host vm' a = vm_host vm a)"
  using assms by (simp add: load_record_def record_target_def host_from_stream_offset_def qemu_madvise_def linux_def host_pages_def TARGET_PAGE_BITS_def store_page_def Let_def)

definition demo_vm :: ram_vm where
  "demo_vm = \<lparr>vm_os = linux, vm_mach = small_machine, vm_cpus = [reset_env], vm_host = (\<lambda>a. ucast a), last_block = None, last_offset = 0,
     bytes_transferred = 0, in_migration = False, stream_block = None\<rparr>"

definition other_vm :: ram_vm where
  "other_vm = demo_vm\<lparr>vm_mach := small_machine\<lparr>ram_list := \<lparr>phys_dirty = [],
     blocks = [\<lparr>host = 0x3000, offset = 0, blength = 0x1000, flags = 0, idstr = ''b''\<rparr>,
               \<lparr>host = 0x5000, offset = 0x1000, blength = 0x1000, flags = 0, idstr = ''a''\<rparr>]\<rparr>\<rparr>,
     vm_cpus := [reset_env\<lparr>halted := 1\<rparr>], vm_host := (\<lambda>_. 0)\<rparr>"

lemma demo_ram:
  "blocks_ok (vm_blocks demo_vm)" "covered (ram_list (vm_mach demo_vm))" "same_layout (vm_blocks demo_vm) (vm_blocks other_vm)"
  "hosts_apart (vm_blocks other_vm)" "\<forall>b\<in>set (vm_blocks other_vm). ends_with_host_page (vm_os other_vm) b" "advice_ok (vm_os other_vm)" "length (pages (vm_blocks demo_vm)) = 8" "length (vm_blocks demo_vm) = 2"
  by (simp_all add: demo_vm_def other_vm_def small_machine_def two_blocks_def blocks_ok_def laid_out_def covered_def pages_def block_pages_def npages_def
      page_addr_def page_index_div upt_conv_Cons same_layout_def find_id_def hosts_apart_def linux_ok ends_with_host_page_def)
    (simp_all add: linux_def)

theorem machine_snapshot_roundtrip_witness:
  "\<exists>f w' f1 fp g vm' env' g1. qemu_fopen Map.empty 20000 ''snap'' ''wb'' = Some f \<and>
    qemu_savevm_state still (machine_entries demo_clock) (demo_vm, quiet_int) f = ret (0, w', f1) \<and>
    qemu_fclose f1 = (0, fp) \<and> qemu_fopen (Map.empty(''snap'' \<mapsto> file_bytes fp)) 20000 ''snap'' ''rb'' = Some g \<and>
    qemu_loadvm_state (machine_entries demo_clock) (other_vm, quiet_int) g =
      ret (0, (vm', quiet_int\<lparr>parent_irq := parent_irq quiet_int, parent_fiq := parent_fiq quiet_int\<rparr>), g1) \<and>
    (\<forall>b\<in>set (vm_blocks demo_vm). \<forall>off. off < blength b \<longrightarrow>
       vm_host vm' (RAMBlock.host (target (vm_blocks other_vm) b) + off) = vm_host demo_vm (RAMBlock.host b + off)) \<and>
    (\<forall>a. (\<forall>b\<in>set (vm_blocks demo_vm). \<not> (unat (RAMBlock.host (target (vm_blocks other_vm) b)) \<le> unat a \<and>
        unat a < unat (RAMBlock.host (target (vm_blocks other_vm) b)) + unat (blength b))) \<longrightarrow> vm_host vm' a = vm_host other_vm a) \<and>
    vm_mach vm' = vm_mach other_vm \<and> vm_cpus vm' = [env'] \<and>
    cpu_restored reset_env (tlb_flush (reset_env\<lparr>halted := 1, halted := halted reset_env, interrupt_request := interrupt_request reset_env AND NOT 1\<rparr>)) env'"
  by (rule machine_snapshot_roundtrip)
    (simp_all add: demo_ram, simp_all add: demo_clock_def still_def demo_vm_def other_vm_def reset_env_def zero_v7m_def)

text \<open>The first page of a block, in a host memory full of ones; the buffer of the stream holds the zero.\<close>

theorem zero_page_clears_neighbours_witness:
  "\<exists>f1 vm'. load_record 3 0 0x22 (other_vm\<lparr>vm_host := (\<lambda>_. 1), stream_block := Some (hd (vm_blocks other_vm))\<rparr>)
      ((qemu_fopen_ops () None None None None None None)\<lparr>buf_size := 1\<rparr>) = ret (0, vm', f1) \<and>
    vm_host vm' 0x3400 = 0 \<and> vm_host vm' 0x4000 = 1"
proof -
  let ?vm = "other_vm\<lparr>vm_host := (\<lambda>_. 1), stream_block := Some (hd (vm_blocks other_vm))\<rparr>"
  let ?f = "(qemu_fopen_ops () None None None None None None)\<lparr>buf_size := 1\<rparr>"
  have f: "qemu_get_byte ?f = ret (0, ?f\<lparr>buf_index := 1\<rparr>)" by (simp add: qemu_get_byte_def qemu_fopen_ops_def)
  have h: "RAMBlock.host (hd (vm_blocks other_vm)) = 0x3000" by (simp add: other_vm_def)
  have o: "vm_os ?vm = linux" "stream_block ?vm = Some (hd (vm_blocks other_vm))" "unat (RAMBlock.host (hd (vm_blocks other_vm)) + 0) mod 4096 = 0"
    by (simp_all add: other_vm_def demo_vm_def)
  have fl: "(0x22 :: u64) AND RAM_SAVE_FLAG_MEM_SIZE = 0" "(0x22 :: u64) AND RAM_SAVE_FLAG_COMPRESS \<noteq> 0" "(0x22 :: u64) AND RAM_SAVE_FLAG_CONTINUE \<noteq> 0"
    by (simp_all add: ram_flags)
  from zero_page_clears_neighbours [OF o fl f] obtain vm' where r: "load_record 3 0 0x22 ?vm ?f = ret (0, vm', ?f\<lparr>buf_index := 1\<rparr>)"
    and a: "\<And>a. unat (a - (0x3000 + 0)) < 4096 \<Longrightarrow> vm_host vm' a = 0" "\<And>a. 4096 \<le> unat (a - (0x3000 + 0)) \<Longrightarrow> vm_host vm' a = vm_host ?vm a"
    unfolding h by blast
  have "vm_host vm' 0x3400 = 0" by (rule a(1)) simp
  moreover have "vm_host vm' 0x4000 = vm_host ?vm 0x4000" by (rule a(2)) simp
  ultimately show ?thesis using r by (intro exI [of _ "?f\<lparr>buf_index := 1\<rparr>"] exI [of _ vm']) simp
qed

end
