(* ===== verification/Qemu_Timer.thy ===== *)
theory Qemu_Timer
  imports Savevm
begin

unbundle bit_operations_syntax

text \<open>
  Time in the emulator (\<open>src/qemu/qemu-timer.c\<close>): the clock of the virtual machine, which stands while the machine is stopped, and the three lists of
  timers, each sorted by the time at which its timers expire. A timer is an address; its callback is a function on the state of the devices and the timers.
  The contract of the lists is the locale \<open>timer_queue\<close>. Host time, the wake-up of the main loop and the host's alarm are at the border: the readings of
  the host clocks are arguments, and the calls to the host are recorded.
\<close>

section \<open>State\<close>

definition QEMU_CLOCK_REALTIME :: nat where "QEMU_CLOCK_REALTIME = 0"
definition QEMU_CLOCK_VIRTUAL :: nat where "QEMU_CLOCK_VIRTUAL = 1"
definition QEMU_CLOCK_HOST :: nat where "QEMU_CLOCK_HOST = 2"

definition SCALE_MS :: int where "SCALE_MS = 1000000"
definition SCALE_US :: int where "SCALE_US = 1000"
definition SCALE_NS :: int where "SCALE_NS = 1"

definition MAX_ICOUNT_SHIFT :: int where "MAX_ICOUNT_SHIFT = 10"
definition INT32_MAX :: int where "INT32_MAX = 0x7FFFFFFF"
definition get_ticks_per_sec :: int where "get_ticks_per_sec = 1000000000"

record TimersState =
  cpu_ticks_prev :: int
  cpu_ticks_offset :: int
  cpu_clock_offset :: int
  cpu_ticks_enabled :: bool

text \<open>A timer with the type of its clock. Its callback and argument do not change, so they belong to its address.\<close>

record QEMUTimer =
  timer_clock :: nat
  expire_time :: int
  timer_scale :: int

text \<open>The counter of instructions; \<open>icount_left\<close> is what \<open>cpu_single_env\<close> has left of its budget, if there is such a processor.\<close>

record icount_state =
  use_icount :: int
  qemu_icount :: int
  qemu_icount_bias :: int
  icount_time_shift :: nat
  icount_left :: "int option"
  last_delta :: int

datatype host_call = Rearm | Notify

record timers =
  timer_at :: "nat \<Rightarrow> QEMUTimer"
  active_timers :: "nat \<Rightarrow> nat list"
  clock_enabled :: "nat \<Rightarrow> bool"
  timers_state :: TimersState
  icounts :: icount_state
  alarm_has_dynticks :: bool
  alarm_expired :: bool
  alarm_pending :: bool
  timer_alarm_pending :: bool
  host_calls :: "host_call list"

text \<open>The clocks of the host at the moment of a call.\<close>

record host_time =
  get_clock :: int
  get_clock_realtime :: int
  cpu_get_real_ticks :: int

section \<open>Clocks\<close>

text \<open>A shift to the left of a signed integer, which C defines for what is not negative and fits.\<close>

definition c_shl64 :: "int \<Rightarrow> nat \<Rightarrow> int comp" where
  "c_shl64 x n = (if x < 0 \<or> 64 \<le> n then raise IntOverflow else c_int64 (x * 2 ^ n))"

definition cpu_get_icount :: "timers \<Rightarrow> int comp" where
  "cpu_get_icount tm =
     (let ic = icounts tm in
      comp_bind (case icount_left ic of None \<Rightarrow> ret (qemu_icount ic) | Some n \<Rightarrow> c_int64 (qemu_icount ic - n)) (\<lambda>icount.
      comp_bind (c_shl64 icount (icount_time_shift ic)) (\<lambda>t. c_int64 (qemu_icount_bias ic + t))))"

definition cpu_get_clock :: "host_time \<Rightarrow> timers \<Rightarrow> int comp" where
  "cpu_get_clock ht tm =
     (if cpu_ticks_enabled (timers_state tm) then c_int64 (get_clock ht + cpu_clock_offset (timers_state tm))
      else ret (cpu_clock_offset (timers_state tm)))"

definition cpu_get_ticks :: "host_time \<Rightarrow> timers \<Rightarrow> (int \<times> timers) comp" where
  "cpu_get_ticks ht tm =
     (let us = timers_state tm in
      if use_icount (icounts tm) \<noteq> 0 then comp_bind (cpu_get_icount tm) (\<lambda>t. ret (t, tm))
      else if \<not> cpu_ticks_enabled us then ret (cpu_ticks_offset us, tm)
      else let ticks = cpu_get_real_ticks ht in
        comp_bind (if ticks < cpu_ticks_prev us then comp_bind (c_int64 (cpu_ticks_prev us - ticks)) (\<lambda>d. c_int64 (cpu_ticks_offset us + d))
                   else ret (cpu_ticks_offset us)) (\<lambda>off.
        comp_bind (c_int64 (ticks + off)) (\<lambda>t.
          ret (t, tm\<lparr>timers_state := us\<lparr>cpu_ticks_offset := off, cpu_ticks_prev := ticks\<rparr>\<rparr>))))"

definition cpu_enable_ticks :: "host_time \<Rightarrow> timers \<Rightarrow> timers comp" where
  "cpu_enable_ticks ht tm =
     (let us = timers_state tm in
      if cpu_ticks_enabled us then ret tm
      else comp_bind (c_int64 (cpu_ticks_offset us - cpu_get_real_ticks ht)) (\<lambda>t.
           comp_bind (c_int64 (cpu_clock_offset us - get_clock ht)) (\<lambda>c.
             ret (tm\<lparr>timers_state := us\<lparr>cpu_ticks_offset := t, cpu_clock_offset := c, cpu_ticks_enabled := True\<rparr>\<rparr>))))"

definition cpu_disable_ticks :: "host_time \<Rightarrow> timers \<Rightarrow> timers comp" where
  "cpu_disable_ticks ht tm =
     (if \<not> cpu_ticks_enabled (timers_state tm) then ret tm
      else comp_bind (cpu_get_ticks ht tm) (\<lambda>(t, tm1).
           comp_bind (cpu_get_clock ht tm1) (\<lambda>c.
             ret (tm1\<lparr>timers_state := (timers_state tm1)\<lparr>cpu_ticks_offset := t, cpu_clock_offset := c, cpu_ticks_enabled := False\<rparr>\<rparr>))))"

definition vm_time :: "host_time \<Rightarrow> timers \<Rightarrow> int comp" where
  "vm_time ht tm = (if use_icount (icounts tm) \<noteq> 0 then cpu_get_icount tm else cpu_get_clock ht tm)"

definition qemu_get_clock :: "nat \<Rightarrow> host_time \<Rightarrow> timers \<Rightarrow> int comp" where
  "qemu_get_clock clk ht tm =
     (if clk = QEMU_CLOCK_REALTIME then ret (get_clock ht sdiv 1000000)
      else if clk = QEMU_CLOCK_HOST then ret (get_clock_realtime ht)
      else vm_time ht tm)"

definition qemu_get_clock_ns :: "nat \<Rightarrow> host_time \<Rightarrow> timers \<Rightarrow> int comp" where
  "qemu_get_clock_ns clk ht tm =
     (if clk = QEMU_CLOCK_REALTIME then ret (get_clock ht)
      else if clk = QEMU_CLOCK_HOST then ret (get_clock_realtime ht)
      else vm_time ht tm)"

definition qemu_clock_enable :: "nat \<Rightarrow> bool \<Rightarrow> timers \<Rightarrow> timers" where
  "qemu_clock_enable clk en tm = tm\<lparr>clock_enabled := (clock_enabled tm)(clk := en)\<rparr>"

section \<open>Timers\<close>

definition expires :: "timers \<Rightarrow> nat \<Rightarrow> int" where
  "expires tm t = expire_time (timer_at tm t)"

definition qemu_timer_expired_ns :: "timers \<Rightarrow> nat \<Rightarrow> int \<Rightarrow> bool" where
  "qemu_timer_expired_ns tm t now \<longleftrightarrow> expires tm t \<le> now"

definition qemu_new_timer :: "nat \<Rightarrow> nat \<Rightarrow> int \<Rightarrow> timers \<Rightarrow> timers" where
  "qemu_new_timer t clk sc tm = tm\<lparr>timer_at := (timer_at tm)(t := \<lparr>timer_clock = clk, expire_time = 0, timer_scale = sc\<rparr>)\<rparr>"

definition list_of :: "timers \<Rightarrow> nat \<Rightarrow> nat list" where
  "list_of tm t = active_timers tm (timer_clock (timer_at tm t))"

definition set_list :: "nat \<Rightarrow> nat list \<Rightarrow> timers \<Rightarrow> timers" where
  "set_list clk us tm = tm\<lparr>active_timers := (active_timers tm)(clk := us)\<rparr>"

definition qemu_del_timer :: "nat \<Rightarrow> timers \<Rightarrow> timers" where
  "qemu_del_timer t tm = set_list (timer_clock (timer_at tm t)) (remove1 t (list_of tm t)) tm"

definition qemu_rearm_alarm_timer :: "timers \<Rightarrow> timers" where
  "qemu_rearm_alarm_timer tm = (if alarm_has_dynticks tm then tm\<lparr>host_calls := host_calls tm @ [Rearm]\<rparr> else tm)"

definition qemu_notify_event :: "timers \<Rightarrow> timers" where
  "qemu_notify_event tm = tm\<lparr>host_calls := host_calls tm @ [Notify]\<rparr>"

text \<open>Insertion behind the timers that expire no later. The clocks have no warp timer in a build without an I/O thread.\<close>

definition qemu_mod_timer_ns :: "nat \<Rightarrow> int \<Rightarrow> timers \<Rightarrow> timers" where
  "qemu_mod_timer_ns t e tm =
     (let tm1 = qemu_del_timer t tm;
          clk = timer_clock (timer_at tm t);
          us = active_timers tm1 clk;
          before = takeWhile (\<lambda>u. qemu_timer_expired_ns tm1 u e) us;
          tm2 = set_list clk (before @ t # drop (length before) us) (tm1\<lparr>timer_at := (timer_at tm1)(t := (timer_at tm1 t)\<lparr>expire_time := e\<rparr>)\<rparr>)
      in if before \<noteq> [] then tm2
         else let tm3 = (if alarm_pending tm2 then tm2 else qemu_rearm_alarm_timer tm2)
              in if use_icount (icounts tm3) \<noteq> 0 then qemu_notify_event tm3 else tm3)"

definition qemu_mod_timer :: "nat \<Rightarrow> int \<Rightarrow> timers \<Rightarrow> timers comp" where
  "qemu_mod_timer t e tm = comp_bind (c_int64 (e * timer_scale (timer_at tm t))) (\<lambda>e1. ret (qemu_mod_timer_ns t e1 tm))"

definition qemu_timer_pending :: "nat \<Rightarrow> timers \<Rightarrow> bool" where
  "qemu_timer_pending t tm \<longleftrightarrow> t \<in> set (list_of tm t)"

text \<open>\<open>qemu_timer_expired\<close> reads the scale of the timer before it looks whether there is one.\<close>

definition qemu_timer_expired :: "nat option \<Rightarrow> int \<Rightarrow> timers \<Rightarrow> bool comp" where
  "qemu_timer_expired head_timer now tm =
     (case head_timer of
        None \<Rightarrow> raise NullDeref
      | Some t \<Rightarrow> comp_bind (c_int64 (now * timer_scale (timer_at tm t))) (\<lambda>n. ret (qemu_timer_expired_ns tm t n)))"

text \<open>The loop of \<open>qemu_run_timers\<close>: the first timer is taken off the list before its callback runs, which may change the list.\<close>

partial_function (option) run_due :: "(nat \<Rightarrow> 'd \<times> timers \<Rightarrow> ('d \<times> timers) comp) \<Rightarrow> nat \<Rightarrow> int \<Rightarrow> 'd \<times> timers \<Rightarrow> ('d \<times> timers) comp" where
  "run_due cb clk now w =
     (case active_timers (snd w) clk of
        [] \<Rightarrow> ret w
      | t # us \<Rightarrow>
          if \<not> qemu_timer_expired_ns (snd w) t now then ret w
          else comp_bind (cb t (fst w, set_list clk us (snd w))) (run_due cb clk now))"

definition qemu_run_timers :: "(nat \<Rightarrow> 'd \<times> timers \<Rightarrow> ('d \<times> timers) comp) \<Rightarrow> nat \<Rightarrow> host_time \<Rightarrow> 'd \<times> timers \<Rightarrow> ('d \<times> timers) comp" where
  "qemu_run_timers cb clk ht w =
     (if \<not> clock_enabled (snd w) clk then ret w
      else comp_bind (qemu_get_clock_ns clk ht (snd w)) (\<lambda>now. run_due cb clk now w))"

definition qemu_run_all_timers :: "(nat \<Rightarrow> 'd \<times> timers \<Rightarrow> ('d \<times> timers) comp) \<Rightarrow> bool \<Rightarrow> host_time \<Rightarrow> 'd \<times> timers \<Rightarrow> ('d \<times> timers) comp" where
  "qemu_run_all_timers cb running ht w =
     (let tm = (snd w)\<lparr>alarm_pending := False\<rparr>;
          tm1 = (if alarm_expired tm then qemu_rearm_alarm_timer (tm\<lparr>alarm_expired := False\<rparr>) else tm)
      in comp_bind (if running then qemu_run_timers cb QEMU_CLOCK_VIRTUAL ht (fst w, tm1) else ret (fst w, tm1)) (\<lambda>w1.
         comp_bind (qemu_run_timers cb QEMU_CLOCK_REALTIME ht w1) (qemu_run_timers cb QEMU_CLOCK_HOST ht)))"

definition qemu_timer_alarm_pending :: "timers \<Rightarrow> bool \<times> timers" where
  "qemu_timer_alarm_pending tm = (timer_alarm_pending tm, tm\<lparr>timer_alarm_pending := False\<rparr>)"

section \<open>Deadlines\<close>

definition time_left :: "nat \<Rightarrow> host_time \<Rightarrow> timers \<Rightarrow> int option comp" where
  "time_left clk ht tm =
     (case active_timers tm clk of
        [] \<Rightarrow> ret None
      | t # _ \<Rightarrow> comp_bind (qemu_get_clock_ns clk ht tm) (\<lambda>now. comp_bind (c_int64 (expires tm t - now)) (\<lambda>d. ret (Some d))))"

definition qemu_next_icount_deadline :: "host_time \<Rightarrow> timers \<Rightarrow> int comp" where
  "qemu_next_icount_deadline ht tm =
     (if use_icount (icounts tm) = 0 then raise Abort
      else comp_bind (time_left QEMU_CLOCK_VIRTUAL ht tm) (\<lambda>d.
        ret (max 0 (case d of None \<Rightarrow> INT32_MAX | Some n \<Rightarrow> n))))"

definition qemu_next_alarm_deadline :: "host_time \<Rightarrow> timers \<Rightarrow> int comp" where
  "qemu_next_alarm_deadline ht tm =
     comp_bind (if use_icount (icounts tm) = 0 then time_left QEMU_CLOCK_VIRTUAL ht tm else ret None) (\<lambda>v.
     comp_bind (time_left QEMU_CLOCK_HOST ht tm) (\<lambda>h.
     comp_bind (time_left QEMU_CLOCK_REALTIME ht tm) (\<lambda>r.
       let d = (case v of None \<Rightarrow> INT32_MAX | Some n \<Rightarrow> n);
           d1 = (case h of None \<Rightarrow> d | Some n \<Rightarrow> if n < d then n else d)
       in ret (case r of None \<Rightarrow> d1 | Some n \<Rightarrow> if n < d1 then n else d1))))"

definition host_alarm_handler :: "host_time \<Rightarrow> timers \<Rightarrow> timers comp" where
  "host_alarm_handler ht tm =
     comp_bind (if alarm_has_dynticks tm then ret True else comp_bind (qemu_next_alarm_deadline ht tm) (\<lambda>d. ret (d \<le> 0))) (\<lambda>due.
       ret (if due then qemu_notify_event (tm\<lparr>alarm_expired := alarm_has_dynticks tm, alarm_pending := True, timer_alarm_pending := True\<rparr>) else tm))"

section \<open>Counting instructions\<close>

definition qemu_icount_round :: "int \<Rightarrow> timers \<Rightarrow> int comp" where
  "qemu_icount_round cnt tm =
     comp_bind (c_int64 (cnt + 2 ^ icount_time_shift (icounts tm) - 1)) (\<lambda>n. ret (n div 2 ^ icount_time_shift (icounts tm)))"

definition icount_adjust :: "bool \<Rightarrow> host_time \<Rightarrow> timers \<Rightarrow> timers comp" where
  "icount_adjust running ht tm =
     (if \<not> running then ret tm
      else comp_bind (cpu_get_clock ht tm) (\<lambda>cur_time.
           comp_bind (qemu_get_clock_ns QEMU_CLOCK_VIRTUAL ht tm) (\<lambda>cur_icount.
           comp_bind (c_int64 (cur_icount - cur_time)) (\<lambda>delta.
           let ic = icounts tm; wobble = get_ticks_per_sec div 10 in
           comp_bind (c_int64 (delta * 2)) (\<lambda>twice.
           comp_bind (if 0 < delta then c_int64 (last_delta ic + wobble) else ret 0) (\<lambda>high.
           comp_bind (if delta < 0 then c_int64 (last_delta ic - wobble) else ret 0) (\<lambda>low.
           let sh = (if 0 < delta \<and> high < twice \<and> 0 < icount_time_shift ic then icount_time_shift ic - 1 else icount_time_shift ic);
               sh1 = (if delta < 0 \<and> twice < low \<and> int sh < MAX_ICOUNT_SHIFT then sh + 1 else sh)
           in comp_bind (c_shl64 (qemu_icount ic) sh1) (\<lambda>n.
              comp_bind (c_int64 (cur_icount - n)) (\<lambda>bias.
                ret (tm\<lparr>icounts := ic\<lparr>icount_time_shift := sh1, last_delta := delta, qemu_icount_bias := bias\<rparr>\<rparr>))))))))))"

definition icount_adjust_rt :: "nat \<Rightarrow> bool \<Rightarrow> host_time \<Rightarrow> timers \<Rightarrow> timers comp" where
  "icount_adjust_rt t running ht tm =
     comp_bind (c_int64 (get_clock ht sdiv SCALE_MS + 1000)) (\<lambda>e. comp_bind (qemu_mod_timer t e tm) (icount_adjust running ht))"

definition icount_adjust_vm :: "nat \<Rightarrow> bool \<Rightarrow> host_time \<Rightarrow> timers \<Rightarrow> timers comp" where
  "icount_adjust_vm t running ht tm =
     comp_bind (qemu_get_clock_ns QEMU_CLOCK_VIRTUAL ht tm) (\<lambda>now.
     comp_bind (c_int64 (now + get_ticks_per_sec div 10)) (\<lambda>e. comp_bind (qemu_mod_timer t e tm) (icount_adjust running ht)))"

definition qemu_icount_delta :: "host_time \<Rightarrow> timers \<Rightarrow> int comp" where
  "qemu_icount_delta ht tm =
     (if use_icount (icounts tm) = 0 then ret 5000000000
      else if use_icount (icounts tm) = 1 then ret 0
      else comp_bind (cpu_get_icount tm) (\<lambda>i. comp_bind (cpu_get_clock ht tm) (\<lambda>c. c_int64 (i - c))))"

text \<open>How long the main loop may sleep, in milliseconds; \<open>work\<close> is what \<open>tcg_has_work\<close> answers.\<close>

definition qemu_calculate_timeout :: "bool \<Rightarrow> bool \<Rightarrow> host_time \<Rightarrow> timers \<Rightarrow> (int \<times> timers) comp" where
  "qemu_calculate_timeout running work ht tm =
     (if \<not> running then ret (5000, tm)
      else if work then ret (0, tm)
      else if use_icount (icounts tm) = 0 then ret (5000, tm)
      else comp_bind (qemu_icount_delta ht tm) (\<lambda>delta.
        if 0 < delta then comp_bind (c_int64 (delta + 999999)) (\<lambda>d. ret (sint (word_of_int (d sdiv 1000000) :: u32), tm))
        else comp_bind (qemu_next_icount_deadline ht tm) (\<lambda>add.
             let add1 = min add 10000000 in
             comp_bind (c_int64 (delta + add1)) (\<lambda>d.
             comp_bind (qemu_icount_round add1 tm) (\<lambda>n.
             comp_bind (c_int64 (qemu_icount (icounts tm) + n)) (\<lambda>ic.
               ret (max 0 (sint (word_of_int (d sdiv 1000000) :: u32)), tm\<lparr>icounts := (icounts tm)\<lparr>qemu_icount := ic\<rparr>\<rparr>)))))))"

section \<open>Saving\<close>

definition qemu_put_timer :: "nat \<Rightarrow> timers \<Rightarrow> 'o QEMUFile \<Rightarrow> 'o QEMUFile comp" where
  "qemu_put_timer t tm f = qemu_put_be64 (if qemu_timer_pending t tm then word_of_int (expires tm t) else - 1) f"

definition qemu_get_timer :: "nat \<Rightarrow> timers \<Rightarrow> 'o QEMUFile \<Rightarrow> (timers \<times> 'o QEMUFile) comp" where
  "qemu_get_timer t tm f =
     comp_bind (qemu_get_be64 f) (\<lambda>(e, f1). ret (if e \<noteq> - 1 then qemu_mod_timer_ns t (sint e) tm else qemu_del_timer t tm, f1))"

definition timer_save :: "TimersState \<Rightarrow> 'o QEMUFile \<Rightarrow> 'o QEMUFile comp" where
  "timer_save s f =
     (if cpu_ticks_enabled s then raise Abort
      else comp_bind (qemu_put_be64 (word_of_int (cpu_ticks_prev s)) f) (\<lambda>f1.
           comp_bind (qemu_put_be64 (word_of_int (cpu_ticks_offset s)) f1) (qemu_put_be64 (word_of_int (cpu_clock_offset s)))))"

definition timer_load :: "TimersState \<Rightarrow> int \<Rightarrow> 'o QEMUFile \<Rightarrow> (int \<times> TimersState \<times> 'o QEMUFile) comp" where
  "timer_load s ver f =
     (if ver \<noteq> 1 \<and> ver \<noteq> 2 then ret (- EINVAL, s, f)
      else if cpu_ticks_enabled s then ret (- EINVAL, s, f)
      else comp_bind (qemu_get_be64 f) (\<lambda>(p, f1).
           comp_bind (qemu_get_be64 f1) (\<lambda>(t, f2).
           let s1 = s\<lparr>cpu_ticks_prev := sint p, cpu_ticks_offset := sint t\<rparr> in
           if ver = 2 then comp_bind (qemu_get_be64 f2) (\<lambda>(c, f3). ret (0, s1\<lparr>cpu_clock_offset := sint c\<rparr>, f3))
           else ret (0, s1, f2))))"

section \<open>The contract of the timer lists\<close>

text \<open>
  A queue of timers: \<open>armed\<close> gives the time at which a timer expires, if it is armed. Arming and cancelling change just that, and the list of a clock has
  its armed timers in the order of their times.
\<close>

locale timer_queue =
  fixes arm :: "nat \<Rightarrow> int \<Rightarrow> 's \<Rightarrow> 's" and cancel :: "nat \<Rightarrow> 's \<Rightarrow> 's" and armed :: "'s \<Rightarrow> nat \<Rightarrow> int option"
    and clock_of :: "'s \<Rightarrow> nat \<Rightarrow> nat" and queue :: "'s \<Rightarrow> nat \<Rightarrow> nat list" and inv :: "'s \<Rightarrow> bool"
  assumes inv_arm: "inv s \<Longrightarrow> inv (arm t e s)" and inv_cancel: "inv s \<Longrightarrow> inv (cancel t s)"
    and armed_arm: "inv s \<Longrightarrow> armed (arm t e s) = (armed s)(t \<mapsto> e)"
    and armed_cancel: "inv s \<Longrightarrow> armed (cancel t s) = (armed s)(t := None)"
    and clock_arm: "clock_of (arm t e s) = clock_of s" and clock_cancel: "clock_of (cancel t s) = clock_of s"
    and in_order: "inv s \<Longrightarrow> sorted (map (\<lambda>t. the (armed s t)) (queue s c))"
    and members: "inv s \<Longrightarrow> set (queue s c) = {t. clock_of s t = c \<and> armed s t \<noteq> None}"
begin

text \<open>The first timer of a list expires first, and the timers that are due are those at the front.\<close>

lemma head_is_least:
  assumes "inv s" and "queue s c = t # us" and "clock_of s u = c" and "armed s u = Some e"
  shows "\<exists>d. armed s t = Some d \<and> d \<le> e"
proof -
  have "u \<in> set (queue s c)" "t \<in> set (queue s c)" using assms members [OF assms(1), of c] by auto
  with in_order [OF assms(1), of c] assms members [OF assms(1), of c] show ?thesis by fastforce
qed

lemma due_front:
  assumes "inv s"
  shows "set (takeWhile (\<lambda>t. the (armed s t) \<le> now) (queue s c)) = {t. clock_of s t = c \<and> (\<exists>e\<le>now. armed s t = Some e)}"
proof -
  have "set (takeWhile (\<lambda>t. f t \<le> now) xs) = {t \<in> set xs. f t \<le> now}" if "sorted (map f xs)" for xs and f :: "nat \<Rightarrow> int"
    using that by (induction xs) auto
  from this [OF in_order [OF assms]] members [OF assms] show ?thesis by auto
qed

lemma rearmed: "inv s \<Longrightarrow> armed (arm t e (arm t d s)) = armed (arm t e s)"
  by (simp add: armed_arm inv_arm)

lemma cancelled: "inv s \<Longrightarrow> armed (cancel t (arm t e s)) = armed (cancel t s)"
  by (simp add: armed_arm armed_cancel inv_arm)

end

section \<open>The lists keep the contract\<close>

definition timers_ok :: "timers \<Rightarrow> bool" where
  "timers_ok tm \<longleftrightarrow> (\<forall>c. sorted (map (expires tm) (active_timers tm c)) \<and> distinct (active_timers tm c) \<and>
     (\<forall>t\<in>set (active_timers tm c). timer_clock (timer_at tm t) = c))"

definition armed :: "timers \<Rightarrow> nat \<Rightarrow> int option" where
  "armed tm t = (if qemu_timer_pending t tm then Some (expires tm t) else None)"

lemma set_list_simps [simp]:
  "timer_at (set_list c us tm) = timer_at tm" "active_timers (set_list c us tm) = (active_timers tm)(c := us)"
  "expires (set_list c us tm) = expires tm" "clock_enabled (set_list c us tm) = clock_enabled tm"
  "timers_state (set_list c us tm) = timers_state tm" "icounts (set_list c us tm) = icounts tm"
  by (simp_all add: set_list_def expires_def fun_eq_iff)

text \<open>The list of the clock after a timer has been put into it.\<close>

definition inserted :: "nat \<Rightarrow> int \<Rightarrow> timers \<Rightarrow> nat list" where
  "inserted t e tm =
     (let us = remove1 t (list_of tm t); before = takeWhile (\<lambda>u. expires tm u \<le> e) us in before @ t # drop (length before) us)"

lemma mod_timer_simps [simp]:
  "timer_at (qemu_mod_timer_ns t e tm) = (timer_at tm)(t := (timer_at tm t)\<lparr>expire_time := e\<rparr>)"
  "active_timers (qemu_mod_timer_ns t e tm) = (active_timers tm)(timer_clock (timer_at tm t) := inserted t e tm)"
  "clock_enabled (qemu_mod_timer_ns t e tm) = clock_enabled tm" "timers_state (qemu_mod_timer_ns t e tm) = timers_state tm"
  "icounts (qemu_mod_timer_ns t e tm) = icounts tm"
  by (simp_all add: qemu_mod_timer_ns_def Let_def qemu_rearm_alarm_timer_def qemu_notify_event_def qemu_del_timer_def inserted_def
      qemu_timer_expired_ns_def)

lemma clock_mod: "qemu_get_clock_ns clk ht (qemu_mod_timer_ns t e tm) = qemu_get_clock_ns clk ht tm"
  by (simp add: qemu_get_clock_ns_def vm_time_def cpu_get_clock_def cpu_get_icount_def)

lemma expires_mod: "expires (qemu_mod_timer_ns t e tm) = (expires tm)(t := e)"
  by (simp add: expires_def fun_eq_iff)

lemma sorted_before:
  assumes "sorted (map f xs)" and "x \<in> set (drop (length (takeWhile (\<lambda>u. f u \<le> e) xs)) xs)"
  shows "e \<le> f x"
proof -
  have "x \<in> set (dropWhile (\<lambda>u. f u \<le> e) xs)" using assms(2) by (simp add: dropWhile_eq_drop)
  moreover have "sorted (map f (dropWhile (\<lambda>u. f u \<le> e) xs))" using assms(1) by (simp add: dropWhile_eq_drop drop_map [symmetric] sorted_wrt_drop)
  moreover have "\<not> f (hd (dropWhile (\<lambda>u. f u \<le> e) xs)) \<le> e" by (rule hd_dropWhile) (metis calculation(1) emptyE list.set(1))
  ultimately show ?thesis by (cases "dropWhile (\<lambda>u. f u \<le> e) xs") auto
qed

lemma inserted_facts:
  assumes ok: "timers_ok tm"
  shows "set (inserted t e tm) = insert t (set (list_of tm t))" "distinct (inserted t e tm)"
    "sorted (map ((expires tm)(t := e)) (inserted t e tm))"
proof -
  let ?us = "remove1 t (list_of tm t)" let ?b = "takeWhile (\<lambda>u. expires tm u \<le> e) ?us" let ?a = "drop (length ?b) ?us"
  have us: "distinct ?us" "sorted (map (expires tm) ?us)" "t \<notin> set ?us" "insert t (set ?us) = insert t (set (list_of tm t))"
    using ok by (auto simp: timers_ok_def list_of_def sorted_map_remove1)
  have split: "?us = ?b @ ?a" by (metis append_take_drop_id takeWhile_eq_take)
  have i: "inserted t e tm = ?b @ t # ?a" by (simp add: inserted_def Let_def)
  show "set (inserted t e tm) = insert t (set (list_of tm t))" unfolding i us(4) [symmetric] by (subst (3) split) auto
  show "distinct (inserted t e tm)" unfolding i using us(1,3) by (subst (asm) (1 2) split) auto
  have eq: "map ((expires tm)(t := e)) ?b = map (expires tm) ?b" "map ((expires tm)(t := e)) ?a = map (expires tm) ?a"
    using us(3) by (auto dest: set_takeWhileD in_set_dropD)
  have m: "map ((expires tm)(t := e)) (inserted t e tm) = map (expires tm) ?b @ e # map (expires tm) ?a"
    unfolding i by (simp only: map_append list.map eq fun_upd_same)
  have "sorted (map (expires tm) ?b @ map (expires tm) ?a)" using us(2) by (metis map_append split)
  moreover have "\<forall>u\<in>set ?b. expires tm u \<le> e" by (auto dest: set_takeWhileD)
  moreover have "\<forall>u\<in>set ?a. e \<le> expires tm u" using sorted_before [OF us(2)] by blast
  ultimately show "sorted (map ((expires tm)(t := e)) (inserted t e tm))" unfolding m by (auto simp: sorted_append)
qed

lemma mod_timer_ok: "timers_ok tm \<Longrightarrow> timers_ok (qemu_mod_timer_ns t e tm)"
proof -
  assume ok: "timers_ok tm"
  note i = inserted_facts [OF ok, of t e]
  have other: "map ((expires tm)(t := e)) (active_timers tm c) = map (expires tm) (active_timers tm c)" if "c \<noteq> timer_clock (timer_at tm t)" for c
    using ok that by (auto simp: timers_ok_def)
  have "sorted (map ((expires tm)(t := e)) (active_timers (qemu_mod_timer_ns t e tm) c))" for c
    using i(3) ok other [of c] by (cases "c = timer_clock (timer_at tm t)") (simp_all only: mod_timer_simps fun_upd_same fun_upd_other timers_ok_def not_False_eq_True)
  moreover have "distinct (active_timers (qemu_mod_timer_ns t e tm) c)" for c using i(2) ok by (simp add: timers_ok_def)
  moreover have "\<forall>u\<in>set (active_timers (qemu_mod_timer_ns t e tm) c). timer_clock (timer_at (qemu_mod_timer_ns t e tm) u) = c" for c
    using i(1) ok by (auto simp: timers_ok_def list_of_def)
  ultimately show ?thesis unfolding timers_ok_def expires_mod by blast
qed

lemma del_timer_ok: "timers_ok tm \<Longrightarrow> timers_ok (qemu_del_timer t tm)"
  by (auto simp: timers_ok_def qemu_del_timer_def list_of_def sorted_map_remove1 dest: notin_set_remove1)

lemma armed_mod: "timers_ok tm \<Longrightarrow> armed (qemu_mod_timer_ns t e tm) = (armed tm)(t \<mapsto> e)"
proof
  fix u assume ok: "timers_ok tm"
  note i = inserted_facts(1) [OF ok, of t e]
  have "u = t" if "u \<in> set (list_of tm t)" "timer_clock (timer_at tm u) \<noteq> timer_clock (timer_at tm t)"
    using ok that by (auto simp: timers_ok_def list_of_def)
  then show "armed (qemu_mod_timer_ns t e tm) u = ((armed tm)(t \<mapsto> e)) u"
    using i by (auto simp: armed_def qemu_timer_pending_def expires_mod list_of_def)
qed

lemma armed_del: "timers_ok tm \<Longrightarrow> armed (qemu_del_timer t tm) = (armed tm)(t := None)"
proof
  fix u assume ok: "timers_ok tm"
  then have "distinct (list_of tm t)" by (simp add: timers_ok_def list_of_def)
  then show "armed (qemu_del_timer t tm) u = ((armed tm)(t := None)) u"
    by (auto simp: armed_def qemu_timer_pending_def qemu_del_timer_def list_of_def)
qed

abbreviation clock_of :: "timers \<Rightarrow> nat \<Rightarrow> nat" where
  "clock_of tm t \<equiv> timer_clock (timer_at tm t)"

lemma active_armed: "timers_ok tm \<Longrightarrow> t \<in> set (active_timers tm c) \<longleftrightarrow> clock_of tm t = c \<and> armed tm t \<noteq> None"
proof -
  assume "timers_ok tm"
  then have "t \<in> set (active_timers tm c) \<Longrightarrow> clock_of tm t = c" unfolding timers_ok_def by blast
  then show ?thesis unfolding armed_def qemu_timer_pending_def list_of_def by auto
qed

lemma active_expires: "timers_ok tm \<Longrightarrow> t \<in> set (active_timers tm c) \<Longrightarrow> the (armed tm t) = expires tm t"
  using active_armed [of tm t c] by (auto simp: armed_def split: if_splits)

lemma active_sorted: "timers_ok tm \<Longrightarrow> map (\<lambda>t. the (armed tm t)) (active_timers tm c) = map (expires tm) (active_timers tm c)"
  by (rule map_cong) (simp_all add: active_expires)

lemma clock_of_del: "timer_at (qemu_del_timer t tm) = timer_at tm"
  by (simp add: qemu_del_timer_def)

interpretation timer_lists: timer_queue qemu_mod_timer_ns qemu_del_timer armed clock_of active_timers timers_ok
proof
  show "timers_ok tm \<Longrightarrow> sorted (map (\<lambda>t. the (armed tm t)) (active_timers tm c))" for tm c
    unfolding active_sorted by (simp add: timers_ok_def)
qed (auto simp: mod_timer_ok del_timer_ok armed_mod armed_del active_armed clock_of_del)

section \<open>Running the timers\<close>

definition due :: "nat \<Rightarrow> int \<Rightarrow> timers \<Rightarrow> nat list" where
  "due clk now tm = takeWhile (\<lambda>t. expires tm t \<le> now) (active_timers tm clk)"

text \<open>The callbacks return, and neither arm a timer of this clock for a time that has passed nor cancel one that is due.\<close>

definition keeps_due :: "(nat \<Rightarrow> 'd \<times> timers \<Rightarrow> ('d \<times> timers) comp) \<Rightarrow> nat \<Rightarrow> int \<Rightarrow> bool" where
  "keeps_due cb clk now \<longleftrightarrow> (\<forall>t d tm. timers_ok tm \<longrightarrow>
     (\<exists>d' tm'. cb t (d, tm) = ret (d', tm') \<and> timers_ok tm' \<and> due clk now tm' = due clk now tm))"

text \<open>The callbacks of a list of timers, one after the other, each after its timer has been taken off the list.\<close>

fun fire_all :: "(nat \<Rightarrow> 'd \<times> timers \<Rightarrow> ('d \<times> timers) comp) \<Rightarrow> nat \<Rightarrow> nat list \<Rightarrow> 'd \<times> timers \<Rightarrow> ('d \<times> timers) comp" where
  "fire_all cb clk [] w = ret w"
| "fire_all cb clk (t # us) w =
     comp_bind (cb t (fst w, set_list clk (tl (active_timers (snd w) clk)) (snd w))) (fire_all cb clk us)"

lemma pop_ok: "timers_ok tm \<Longrightarrow> active_timers tm clk = t # us \<Longrightarrow> timers_ok (set_list clk us tm)"
  unfolding timers_ok_def set_list_simps
proof (intro allI)
  fix c
  assume ok: "\<forall>c. sorted (map (expires tm) (active_timers tm c)) \<and> distinct (active_timers tm c) \<and> (\<forall>t\<in>set (active_timers tm c). clock_of tm t = c)"
    and us: "active_timers tm clk = t # us"
  show "sorted (map (expires tm) (((active_timers tm)(clk := us)) c)) \<and> distinct (((active_timers tm)(clk := us)) c) \<and>
      (\<forall>t\<in>set (((active_timers tm)(clk := us)) c). clock_of tm t = c)"
    using ok [THEN spec, of c] us by (cases "c = clk") auto
qed

lemma run_due_fires:
  assumes cb: "keeps_due cb clk now"
  shows "timers_ok tm \<Longrightarrow> due clk now tm = us \<Longrightarrow>
    run_due cb clk now (d, tm) = fire_all cb clk us (d, tm) \<and>
    (\<exists>d' tm'. fire_all cb clk us (d, tm) = ret (d', tm') \<and> timers_ok tm' \<and> due clk now tm' = [])"
proof (induction us arbitrary: d tm)
  case Nil
  then have "run_due cb clk now (d, tm) = ret (d, tm)"
    by (subst run_due.simps) (auto simp: due_def qemu_timer_expired_ns_def split: list.splits if_splits)
  with Nil show ?case by simp
next
  case (Cons t us)
  then obtain vs where vs: "active_timers tm clk = t # vs" "expires tm t \<le> now" "takeWhile (\<lambda>t. expires tm t \<le> now) vs = us"
    by (cases "active_timers tm clk") (auto simp: due_def split: if_splits)
  have ok: "timers_ok (set_list clk vs tm)" by (rule pop_ok [OF Cons.prems(1) vs(1)])
  have d: "due clk now (set_list clk vs tm) = us" using vs(3) by (simp add: due_def)
  from cb ok d obtain d1 tm1 where 1: "cb t (d, set_list clk vs tm) = ret (d1, tm1)" "timers_ok tm1" "due clk now tm1 = us"
    unfolding keeps_due_def by metis
  have "run_due cb clk now (d, tm) = run_due cb clk now (d1, tm1)"
    using vs 1(1) by (subst run_due.simps) (simp add: qemu_timer_expired_ns_def)
  then show ?case using Cons.IH [OF 1(2,3), of d1] 1(1) vs(1) by simp
qed

lemma due_armed: "timers_ok s \<Longrightarrow> due clk now s = takeWhile (\<lambda>t. the (armed s t) \<le> now) (active_timers s clk)"
  unfolding due_def by (rule takeWhile_cong) (simp_all add: active_expires)

lemma due_set: "timers_ok s \<Longrightarrow> set (due clk now s) = {t. clock_of s t = clk \<and> (\<exists>e\<le>now. armed s t = Some e)}"
  unfolding due_armed by (rule timer_lists.due_front)

section \<open>Properties\<close>

text \<open>
  C21. Timers run in the order of their times: \<open>qemu_run_timers\<close> ends, it runs the callbacks of exactly the armed timers of the clock whose time has come, earliest
  first, each once, and afterwards no timer of the clock is due. This holds for callbacks that return and do not arm timers for the past.
\<close>

theorem timers_run_in_order:
  assumes "timers_ok tm" and "clock_enabled tm clk" and "qemu_get_clock_ns clk ht tm = ret now" and "keeps_due cb clk now"
  shows "\<exists>us d' tm'. qemu_run_timers cb clk ht (d, tm) = ret (d', tm') \<and> fire_all cb clk us (d, tm) = ret (d', tm') \<and>
    distinct us \<and> sorted (map (\<lambda>t. the (armed tm t)) us) \<and> set us = {t. clock_of tm t = clk \<and> (\<exists>e\<le>now. armed tm t = Some e)} \<and>
    timers_ok tm' \<and> (\<forall>t e. clock_of tm' t = clk \<and> armed tm' t = Some e \<longrightarrow> now < e)"
proof -
  let ?us = "due clk now tm"
  obtain d' tm' where r: "run_due cb clk now (d, tm) = fire_all cb clk ?us (d, tm)" "fire_all cb clk ?us (d, tm) = ret (d', tm')"
      "timers_ok tm'" "due clk now tm' = []"
    using run_due_fires [OF assms(4,1) refl] by blast
  have "set ?us = {t. clock_of tm t = clk \<and> (\<exists>e\<le>now. armed tm t = Some e)}" by (rule due_set [OF assms(1)])
  moreover have "distinct ?us" using assms(1) by (simp add: due_def timers_ok_def distinct_takeWhile)
  moreover have "sorted (map (\<lambda>t. the (armed tm t)) ?us)"
    unfolding due_armed [OF assms(1)] using timer_lists.in_order [OF assms(1), of clk] by (metis sorted_wrt_take takeWhile_eq_take take_map)
  moreover have "now < e" if "clock_of tm' t = clk" "armed tm' t = Some e" for t e
  proof -
    have "t \<notin> {t. clock_of tm' t = clk \<and> (\<exists>e\<le>now. armed tm' t = Some e)}"
      unfolding due_set [OF r(3), symmetric] r(4) by simp
    with that show ?thesis by auto
  qed
  moreover have "qemu_run_timers cb clk ht (d, tm) = ret (d', tm')" using r(1,2) assms(2,3) by (simp add: qemu_run_timers_def)
  ultimately show ?thesis using r(2,3) by blast
qed

text \<open>Three timers of the virtual clock, of which two are due at time 50; the callback writes down which timer runs.\<close>

definition demo_timers :: timers where
  "demo_timers = \<lparr>timer_at = (\<lambda>_. \<lparr>timer_clock = QEMU_CLOCK_VIRTUAL, expire_time = 0, timer_scale = 1\<rparr>), active_timers = (\<lambda>_. []),
     clock_enabled = (\<lambda>_. True), timers_state = \<lparr>cpu_ticks_prev = 0, cpu_ticks_offset = 0, cpu_clock_offset = 0, cpu_ticks_enabled = True\<rparr>,
     icounts = \<lparr>use_icount = 0, qemu_icount = 0, qemu_icount_bias = 0, icount_time_shift = 0, icount_left = None, last_delta = 0\<rparr>,
     alarm_has_dynticks = False, alarm_expired = False, alarm_pending = False, timer_alarm_pending = False, host_calls = []\<rparr>"

definition demo_time :: "int \<Rightarrow> host_time" where
  "demo_time n = \<lparr>get_clock = n, get_clock_realtime = n, cpu_get_real_ticks = n\<rparr>"

definition note_timer :: "nat \<Rightarrow> nat list \<times> timers \<Rightarrow> (nat list \<times> timers) comp" where
  "note_timer t w = ret (fst w @ [t], snd w)"

lemma demo_timers_ok: "timers_ok demo_timers"
  by (simp add: timers_ok_def demo_timers_def)

theorem timers_run_in_order_witness:
  "let tm = qemu_mod_timer_ns 7 40 (qemu_mod_timer_ns 8 90 (qemu_mod_timer_ns 9 10 demo_timers)) in
   \<exists>us d' tm'. qemu_run_timers note_timer QEMU_CLOCK_VIRTUAL (demo_time 50) ([], tm) = ret (d', tm') \<and>
     fire_all note_timer QEMU_CLOCK_VIRTUAL us ([], tm) = ret (d', tm') \<and> distinct us \<and> sorted (map (\<lambda>t. the (armed tm t)) us) \<and>
     set us = {t. clock_of tm t = QEMU_CLOCK_VIRTUAL \<and> (\<exists>e\<le>50. armed tm t = Some e)} \<and> timers_ok tm' \<and>
     (\<forall>t e. clock_of tm' t = QEMU_CLOCK_VIRTUAL \<and> armed tm' t = Some e \<longrightarrow> 50 < e)"
  unfolding Let_def
proof (rule timers_run_in_order)
  show "timers_ok (qemu_mod_timer_ns 7 40 (qemu_mod_timer_ns 8 90 (qemu_mod_timer_ns 9 10 demo_timers)))"
    by (intro mod_timer_ok demo_timers_ok)
  show "keeps_due note_timer QEMU_CLOCK_VIRTUAL 50" by (simp add: keeps_due_def note_timer_def)
qed (simp_all add: demo_timers_def demo_time_def qemu_get_clock_ns_def vm_time_def cpu_get_clock_def c_int64_def QEMU_CLOCK_VIRTUAL_def
    QEMU_CLOCK_REALTIME_def QEMU_CLOCK_HOST_def)

text \<open>Readings of clocks far from the limits of their type.\<close>

definition moderate :: "int \<Rightarrow> bool" where
  "moderate x \<longleftrightarrow> - (2 ^ 60) < x \<and> x < 2 ^ 60"

text \<open>
  The clock of the virtual machine stands while the machine is stopped: after \<open>cpu_disable_ticks\<close> every reading gives the time of the stop, and after
  \<open>cpu_enable_ticks\<close> the clock goes on from there at the pace of the host, however long the machine stood.
\<close>

theorem clock_stands_while_stopped:
  assumes "use_icount (icounts tm) = 0" and on: "cpu_ticks_enabled (timers_state tm)"
    and tm: "moderate (cpu_ticks_prev (timers_state tm))" "moderate (cpu_ticks_offset (timers_state tm))" "moderate (cpu_clock_offset (timers_state tm))"
    and h1: "moderate (get_clock h1)" "moderate (cpu_get_real_ticks h1)" and h2: "moderate (get_clock h2)" "moderate (cpu_get_real_ticks h2)"
  shows "\<exists>c tm1 tm2. qemu_get_clock_ns QEMU_CLOCK_VIRTUAL h1 tm = ret c \<and> cpu_disable_ticks h1 tm = ret tm1 \<and>
    (\<forall>h. qemu_get_clock_ns QEMU_CLOCK_VIRTUAL h tm1 = ret c) \<and> cpu_enable_ticks h2 tm1 = ret tm2 \<and>
    (\<forall>h. moderate (get_clock h) \<longrightarrow> qemu_get_clock_ns QEMU_CLOCK_VIRTUAL h tm2 = ret (c + (get_clock h - get_clock h2)))"
proof -
  let ?ts = "timers_state tm" let ?c = "get_clock h1 + cpu_clock_offset ?ts"
  let ?off = "if cpu_get_real_ticks h1 < cpu_ticks_prev ?ts then cpu_ticks_offset ?ts + (cpu_ticks_prev ?ts - cpu_get_real_ticks h1) else cpu_ticks_offset ?ts"
  let ?tm1 = "tm\<lparr>timers_state := ?ts\<lparr>cpu_ticks_prev := cpu_get_real_ticks h1, cpu_ticks_offset := cpu_get_real_ticks h1 + ?off,
      cpu_clock_offset := ?c, cpu_ticks_enabled := False\<rparr>\<rparr>"
  let ?tm2 = "?tm1\<lparr>timers_state := (timers_state ?tm1)\<lparr>cpu_ticks_offset := cpu_get_real_ticks h1 + ?off - cpu_get_real_ticks h2,
      cpu_clock_offset := ?c - get_clock h2, cpu_ticks_enabled := True\<rparr>\<rparr>"
  have clk: "qemu_get_clock_ns QEMU_CLOCK_VIRTUAL h s = vm_time h s" for h s
    by (simp add: qemu_get_clock_ns_def QEMU_CLOCK_VIRTUAL_def QEMU_CLOCK_REALTIME_def QEMU_CLOCK_HOST_def)
  have 1: "cpu_disable_ticks h1 tm = ret ?tm1"
    using assms(1) on tm h1 by (cases "cpu_get_real_ticks h1 < cpu_ticks_prev ?ts")
      (simp_all add: cpu_disable_ticks_def cpu_get_ticks_def cpu_get_clock_def Let_def c_int64_def moderate_def)
  have 2: "cpu_enable_ticks h2 ?tm1 = ret ?tm2" 
    using tm h1 h2 by (auto simp: cpu_enable_ticks_def Let_def c_int64_def moderate_def)
  have 3: "qemu_get_clock_ns QEMU_CLOCK_VIRTUAL h1 tm = ret ?c" "qemu_get_clock_ns QEMU_CLOCK_VIRTUAL h ?tm1 = ret ?c" for h
    using assms(1) on tm h1 by (simp_all add: clk vm_time_def cpu_get_clock_def c_int64_def moderate_def)
  have 4: "qemu_get_clock_ns QEMU_CLOCK_VIRTUAL h ?tm2 = ret (?c + (get_clock h - get_clock h2))" if "moderate (get_clock h)" for h
    using assms(1) tm h1 h2 that by (simp add: clk vm_time_def cpu_get_clock_def c_int64_def moderate_def)
  from 1 2 3 4 show ?thesis by blast
qed

theorem clock_stands_while_stopped_witness:
  "\<exists>c tm1 tm2. qemu_get_clock_ns QEMU_CLOCK_VIRTUAL (demo_time 100) demo_timers = ret c \<and> cpu_disable_ticks (demo_time 100) demo_timers = ret tm1 \<and>
    (\<forall>h. qemu_get_clock_ns QEMU_CLOCK_VIRTUAL h tm1 = ret c) \<and> cpu_enable_ticks (demo_time 5000) tm1 = ret tm2 \<and>
    (\<forall>h. moderate (get_clock h) \<longrightarrow> qemu_get_clock_ns QEMU_CLOCK_VIRTUAL h tm2 = ret (c + (get_clock h - get_clock (demo_time 5000))))"
  by (rule clock_stands_while_stopped) (simp_all add: demo_timers_def demo_time_def moderate_def)

end
