(* ===== verification/Goldfish_Timer.thy ===== *)
theory Goldfish_Timer
  imports Qemu_Timer Goldfish_Bus
begin

unbundle bit_operations_syntax

text \<open>
  The timer and the real-time clock of the board (\<open>src/qemu/hw/goldfish_timer.c\<close>): the kernel reads the time of the virtual clock in two halves, and sets an alarm, for
  which the device arms a timer of the emulator and raises its interrupt line when that runs.
\<close>

section \<open>State\<close>

definition TIMER_TIME_LOW :: u32 where "TIMER_TIME_LOW = 0x00"
definition TIMER_TIME_HIGH :: u32 where "TIMER_TIME_HIGH = 0x04"
definition TIMER_ALARM_LOW :: u32 where "TIMER_ALARM_LOW = 0x08"
definition TIMER_ALARM_HIGH :: u32 where "TIMER_ALARM_HIGH = 0x0C"
definition TIMER_CLEAR_INTERRUPT :: u32 where "TIMER_CLEAR_INTERRUPT = 0x10"
definition TIMER_CLEAR_ALARM :: u32 where "TIMER_CLEAR_ALARM = 0x14"

text \<open>\<open>tm_timer\<close> is the address of the timer. \<open>alarm_high_ns\<close> is a signed word.\<close>

record timer_state =
  tm_dev :: goldfish_device
  alarm_low_ns :: u32
  alarm_high_ns :: u32
  now_ns :: int
  tm_armed :: u32
  tm_timer :: nat

type_synonym timer_world = "timer_state \<times> int_world"

definition alarm_time :: "timer_state \<Rightarrow> int comp" where
  "alarm_time s = comp_bind (c_shl64 (sint (alarm_high_ns s)) 32) (\<lambda>h. ret (uint (alarm_low_ns s) + h))"

definition set_line :: "bool \<Rightarrow> timer_world \<Rightarrow> timer_world comp" where
  "set_line lev st = (case st of (s, iw) \<Rightarrow> comp_bind (goldfish_device_set_irq (tm_dev s) 0 lev iw) (\<lambda>iw1. ret (s, iw1)))"

section \<open>Registers\<close>

definition goldfish_timer_read :: "u32 \<Rightarrow> host_time \<Rightarrow> timer_state \<times> timers \<Rightarrow> (u32 \<times> timer_state) comp" where
  "goldfish_timer_read off ht st =
     (case st of (s, tm) \<Rightarrow>
        if off = TIMER_TIME_LOW then
          comp_bind (qemu_get_clock_ns QEMU_CLOCK_VIRTUAL ht tm) (\<lambda>now. ret (word_of_int now, s\<lparr>now_ns := now\<rparr>))
        else if off = TIMER_TIME_HIGH then ret (word_of_int (now_ns s div 2 ^ 32), s)
        else raise Abort)"

definition goldfish_timer_write :: "u32 \<Rightarrow> u32 \<Rightarrow> host_time \<Rightarrow> timer_world \<times> timers \<Rightarrow> (timer_world \<times> timers) comp" where
  "goldfish_timer_write off val ht st =
     (case st of ((s, iw), tm) \<Rightarrow>
        if off = TIMER_ALARM_LOW then
          let s1 = s\<lparr>alarm_low_ns := val\<rparr> in
          comp_bind (alarm_time s1) (\<lambda>alarm_ns.
          comp_bind (qemu_get_clock_ns QEMU_CLOCK_VIRTUAL ht tm) (\<lambda>now.
            if alarm_ns \<le> now then comp_bind (set_line True (s1, iw)) (\<lambda>w. ret (w, tm))
            else comp_bind (qemu_mod_timer (tm_timer s1) alarm_ns tm) (\<lambda>tm1. ret ((s1\<lparr>tm_armed := 1\<rparr>, iw), tm1))))
        else if off = TIMER_ALARM_HIGH then ret ((s\<lparr>alarm_high_ns := val\<rparr>, iw), tm)
        else if off = TIMER_CLEAR_ALARM then
          comp_bind (set_line False (s\<lparr>tm_armed := 0\<rparr>, iw)) (\<lambda>w. ret (w, qemu_del_timer (tm_timer s) tm))
        else if off = TIMER_CLEAR_INTERRUPT then comp_bind (set_line False (s, iw)) (\<lambda>w. ret (w, tm))
        else raise Abort)"

definition goldfish_timer_tick :: "timer_world \<Rightarrow> timer_world comp" where
  "goldfish_timer_tick st = (case st of (s, iw) \<Rightarrow> set_line True (s\<lparr>tm_armed := 0\<rparr>, iw))"

section \<open>Saving\<close>

definition GOLDFISH_TIMER_SAVE_VERSION :: int where "GOLDFISH_TIMER_SAVE_VERSION = 1"

definition goldfish_timer_save :: "host_time \<Rightarrow> timer_state \<times> timers \<Rightarrow> 'o QEMUFile \<Rightarrow> 'o QEMUFile comp" where
  "goldfish_timer_save ht st f =
     (case st of (s, tm) \<Rightarrow>
        comp_bind (qemu_put_be64 (word_of_int (now_ns s)) f) (\<lambda>f1.
        comp_bind (qemu_put_byte (tm_armed s) f1) (\<lambda>f2.
          if tm_armed s = 0 then ret f2
          else comp_bind (qemu_get_clock_ns QEMU_CLOCK_VIRTUAL ht tm) (\<lambda>now.
               comp_bind (alarm_time s) (\<lambda>alarm_ns.
               comp_bind (c_int64 (alarm_ns - now)) (\<lambda>d. qemu_put_be64 (word_of_int d) f2))))))"

definition goldfish_timer_load :: "host_time \<Rightarrow> timer_world \<times> timers \<Rightarrow> int \<Rightarrow> 'o QEMUFile \<Rightarrow> (int \<times> (timer_world \<times> timers) \<times> 'o QEMUFile) comp" where
  "goldfish_timer_load ht st ver f =
     (case st of ((s, iw), tm) \<Rightarrow>
        if ver \<noteq> GOLDFISH_TIMER_SAVE_VERSION then ret (- 1, st, f)
        else comp_bind (qemu_get_be64 f) (\<lambda>(n, f1).
             comp_bind (qemu_get_byte f1) (\<lambda>(a, f2).
             let s1 = s\<lparr>now_ns := sint n, tm_armed := a\<rparr> in
             if a = 0 then ret (0, ((s1, iw), tm), f2)
             else comp_bind (qemu_get_clock QEMU_CLOCK_VIRTUAL ht tm) (\<lambda>now_tks.
                  comp_bind (qemu_get_be64 f2) (\<lambda>(diff, f3).
                  comp_bind (c_int64 (now_tks + sint diff)) (\<lambda>alarm_tks.
                    if alarm_tks \<le> now_tks then
                      comp_bind (set_line True (s1, iw)) (\<lambda>(s2, iw1). ret (0, ((s2\<lparr>tm_armed := 0\<rparr>, iw1), tm), f3))
                    else comp_bind (qemu_mod_timer (tm_timer s1) alarm_tks tm) (\<lambda>tm1. ret (0, ((s1, iw), tm1), f3))))))))"

section \<open>The real-time clock\<close>

record rtc_state =
  rtc_dev :: goldfish_device
  alarm_low :: u32
  alarm_high :: u32
  rtc_now :: int

definition GOLDFISH_RTC_SAVE_VERSION :: int where "GOLDFISH_RTC_SAVE_VERSION = 1"

definition goldfish_rtc_save :: "rtc_state \<Rightarrow> 'o QEMUFile \<Rightarrow> 'o QEMUFile comp" where
  "goldfish_rtc_save s f = qemu_put_be64 (word_of_int (rtc_now s)) f"

definition goldfish_rtc_load :: "rtc_state \<Rightarrow> int \<Rightarrow> 'o QEMUFile \<Rightarrow> (int \<times> rtc_state \<times> 'o QEMUFile) comp" where
  "goldfish_rtc_load s ver f =
     (if ver \<noteq> GOLDFISH_RTC_SAVE_VERSION then ret (- 1, s, f)
      else comp_bind (qemu_get_be64 f) (\<lambda>(n, f1). ret (0, s\<lparr>rtc_now := sint n\<rparr>, f1)))"

text \<open>\<open>secs\<close> is what \<open>time\<close> of the host returns.\<close>

definition goldfish_rtc_read :: "u32 \<Rightarrow> int \<Rightarrow> rtc_state \<Rightarrow> (u32 \<times> rtc_state) comp" where
  "goldfish_rtc_read off secs s =
     (if off = 0x0 then comp_bind (c_int64 (secs * 1000000000)) (\<lambda>now. ret (word_of_int now, s\<lparr>rtc_now := now\<rparr>))
      else if off = 0x4 then ret (word_of_int (rtc_now s div 2 ^ 32), s)
      else raise Abort)"

definition goldfish_rtc_write :: "u32 \<Rightarrow> u32 \<Rightarrow> rtc_state \<times> int_world \<Rightarrow> (rtc_state \<times> int_world) comp" where
  "goldfish_rtc_write off val st =
     (case st of (s, iw) \<Rightarrow>
        if off = 0x8 then comp_bind (c_shl64 (sint (alarm_high s)) 32) (\<lambda>_. ret (s\<lparr>alarm_low := val\<rparr>, iw))
        else if off = 0xC then ret (s\<lparr>alarm_high := val\<rparr>, iw)
        else if off = 0x10 then comp_bind (goldfish_device_set_irq (rtc_dev s) 0 False iw) (\<lambda>iw1. ret (s, iw1))
        else raise Abort)"

section \<open>Adding the devices\<close>

definition timer_device :: "u32 \<Rightarrow> u32 \<Rightarrow> goldfish_device" where
  "timer_device base irq = \<lparr>reported_state = 0, dev_name = ''goldfish_timer'', dev_id = - 1, dev_base = base, dev_size = 0x1000, dev_irq = irq,
     dev_irq_count = 1\<rparr>"

definition rtc_device :: goldfish_device where
  "rtc_device = \<lparr>reported_state = 0, dev_name = ''goldfish_rtc'', dev_id = - 1, dev_base = 0, dev_size = 0x1000, dev_irq = 0, dev_irq_count = 1\<rparr>"

text \<open>\<open>t\<close> is the address of the new timer, \<open>trd\<close> to \<open>rwr\<close> the tables of the register functions.\<close>

definition goldfish_timer_and_rtc_init ::
  "nat \<Rightarrow> u32 \<Rightarrow> u32 \<Rightarrow> (nat \<Rightarrow> 'd read_fn option) \<Rightarrow> (nat \<Rightarrow> 'd write_fn option) \<Rightarrow> (nat \<Rightarrow> 'd read_fn option) \<Rightarrow> (nat \<Rightarrow> 'd write_fn option) \<Rightarrow>
   (bus_state \<times> 'd memory_map \<times> 'd system) \<times> timers \<Rightarrow> ((timer_state \<times> rtc_state) \<times> (bus_state \<times> 'd memory_map \<times> 'd system) \<times> timers) comp" where
  "goldfish_timer_and_rtc_init t timerbase timerirq trd twr rrd rwr st =
     (case st of (bus, tm) \<Rightarrow>
        let tm1 = qemu_new_timer t QEMU_CLOCK_VIRTUAL SCALE_NS tm in
        comp_bind (goldfish_device_add (timer_device timerbase timerirq) trd twr bus) (\<lambda>bus1.
          let td = last (devs (fst bus1)) in
          comp_bind (goldfish_device_add rtc_device rrd rwr bus1) (\<lambda>bus2.
            let rd = last (devs (fst bus2)) in
            ret ((\<lparr>tm_dev = td, alarm_low_ns = 0, alarm_high_ns = 0, now_ns = 0, tm_armed = 0, tm_timer = t\<rparr>,
                  \<lparr>rtc_dev = rd, alarm_low = 0, alarm_high = 0, rtc_now = 0\<rparr>), bus2, tm1))))"

section \<open>The alarm\<close>

text \<open>The callbacks of a machine with this device: its own, and those of the other timers, which keep the device and its timer alone.\<close>

definition alarm_callbacks :: "nat \<Rightarrow> (nat \<Rightarrow> (timer_world \<times> 'x) \<times> timers \<Rightarrow> ((timer_world \<times> 'x) \<times> timers) comp) \<Rightarrow>
    nat \<Rightarrow> (timer_world \<times> 'x) \<times> timers \<Rightarrow> ((timer_world \<times> 'x) \<times> timers) comp" where
  "alarm_callbacks a others t st =
     (if t = a then (case st of ((w, x), tm) \<Rightarrow> comp_bind (goldfish_timer_tick w) (\<lambda>w1. ret ((w1, x), tm))) else others t st)"

definition leaves_alarm :: "nat \<Rightarrow> (nat \<Rightarrow> (timer_world \<times> 'x) \<times> timers \<Rightarrow> ((timer_world \<times> 'x) \<times> timers) comp) \<Rightarrow> int \<Rightarrow> bool" where
  "leaves_alarm a others now \<longleftrightarrow> (\<forall>t w x tm. timers_ok tm \<longrightarrow>
     (\<exists>x' tm'. others t ((w, x), tm) = ret ((w, x'), tm') \<and> timers_ok tm' \<and> armed tm' a = armed tm a \<and> clock_of tm' a = clock_of tm a \<and>
        due QEMU_CLOCK_VIRTUAL now tm' = due QEMU_CLOCK_VIRTUAL now tm))"

definition timer_device_ok :: "timer_state \<Rightarrow> bool" where
  "timer_device_ok s \<longleftrightarrow> unat (dev_irq (tm_dev s)) < 32 \<and> 0 < dev_irq_count (tm_dev s)"

definition line_up :: "timer_state \<Rightarrow> int_world \<Rightarrow> bool" where
  "line_up s iw \<longleftrightarrow> unat (dev_irq (tm_dev s)) \<in> lines (int_level (fst iw))"

lemma tick_raises:
  assumes "timer_device_ok s" and "wired iw"
  shows "\<exists>iw'. goldfish_timer_tick (s, iw) = ret (s\<lparr>tm_armed := 0\<rparr>, iw') \<and> wired iw' \<and> line_up s iw'"
  using bus_irq [of iw "tm_dev s" True] assms by (auto simp: timer_device_ok_def line_up_def goldfish_timer_tick_def set_line_def)

lemma armed_pop:
  assumes ok: "timers_ok tm" and l: "active_timers tm c = t # us"
  shows "armed (set_list c us tm) = (armed tm)(t := None)"
proof
  fix u
  have "clock_of tm t = c" "t \<notin> set us" using ok l by (auto simp: timers_ok_def dest!: spec [of _ c])
  with l show "armed (set_list c us tm) u = ((armed tm)(t := None)) u" by (auto simp: armed_def qemu_timer_pending_def list_of_def)
qed

lemma run_alarm:
  assumes "leaves_alarm a others now"
  shows "timers_ok tm \<Longrightarrow> due QEMU_CLOCK_VIRTUAL now tm = us \<Longrightarrow> timer_device_ok s \<Longrightarrow> wired iw \<Longrightarrow>
    \<exists>s' iw' x' tm'. run_due (alarm_callbacks a others) QEMU_CLOCK_VIRTUAL now (((s, iw), x), tm) = ret (((s', iw'), x'), tm') \<and> timers_ok tm' \<and> wired iw' \<and>
      (if a \<in> set us then s' = s\<lparr>tm_armed := 0\<rparr> \<and> line_up s iw' \<and> armed tm' a = None
       else s' = s \<and> iw' = iw \<and> armed tm' a = armed tm a)"
proof (induction us arbitrary: s iw x tm)
  case Nil
  then have "run_due (alarm_callbacks a others) QEMU_CLOCK_VIRTUAL now (((s, iw), x), tm) = ret (((s, iw), x), tm)"
    by (subst run_due.simps) (auto simp: due_def qemu_timer_expired_ns_def split: list.splits if_splits)
  with Nil show ?case by auto
next
  case (Cons t us)
  then obtain vs where vs: "active_timers tm QEMU_CLOCK_VIRTUAL = t # vs" "expires tm t \<le> now" "takeWhile (\<lambda>t. expires tm t \<le> now) vs = us"
    by (cases "active_timers tm QEMU_CLOCK_VIRTUAL") (auto simp: due_def split: if_splits)
  let ?tm = "set_list QEMU_CLOCK_VIRTUAL vs tm"
  have ok: "timers_ok ?tm" by (rule pop_ok [OF Cons.prems(1) vs(1)])
  have d: "due QEMU_CLOCK_VIRTUAL now ?tm = us" using vs(3) by (simp add: due_def)
  have new: "t \<notin> set us" using Cons.prems(1) vs(1,3) by (auto simp: timers_ok_def dest!: spec [of _ QEMU_CLOCK_VIRTUAL] dest: set_takeWhileD)
  note ar = armed_pop [OF Cons.prems(1) vs(1)]
  have step: "run_due (alarm_callbacks a others) QEMU_CLOCK_VIRTUAL now (((s, iw), x), tm) =
      comp_bind (alarm_callbacks a others t (((s, iw), x), ?tm)) (run_due (alarm_callbacks a others) QEMU_CLOCK_VIRTUAL now)"
    using vs(1,2) by (subst run_due.simps) (simp add: qemu_timer_expired_ns_def)
  show ?case
  proof (cases "t = a")
    case True
    obtain iw1 where 1: "goldfish_timer_tick (s, iw) = ret (s\<lparr>tm_armed := 0\<rparr>, iw1)" "wired iw1" "line_up s iw1"
      using tick_raises Cons.prems(3,4) by blast
    have "timer_device_ok (s\<lparr>tm_armed := 0\<rparr>)" using Cons.prems(3) by (simp add: timer_device_ok_def)
    moreover have "alarm_callbacks a others t (((s, iw), x), ?tm) = ret (((s\<lparr>tm_armed := 0\<rparr>, iw1), x), ?tm)"
      using True 1(1) by (simp add: alarm_callbacks_def)
    ultimately show ?thesis unfolding step using Cons.IH [OF ok d _ 1(2), of "s\<lparr>tm_armed := 0\<rparr>" x] True new 1(3) ar by fastforce
  next
    case False
    from assms ok obtain x1 tm1 where 1: "others t (((s, iw), x), ?tm) = ret (((s, iw), x1), tm1)" "timers_ok tm1" "armed tm1 a = armed ?tm a"
        "due QEMU_CLOCK_VIRTUAL now tm1 = us"
      unfolding leaves_alarm_def d [symmetric] by metis
    then have "alarm_callbacks a others t (((s, iw), x), ?tm) = ret (((s, iw), x1), tm1)" using False by (simp add: alarm_callbacks_def)
    moreover have "armed tm1 a = armed tm a" "a \<in> set (t # us) \<longleftrightarrow> a \<in> set us" using 1(3) ar False by auto
    ultimately show ?thesis unfolding step using Cons.IH [OF 1(2,4) Cons.prems(3,4), of x1] by (simp only: comp_bind_ret)
  qed
qed

section \<open>Properties\<close>

text \<open>
  C20. An alarm is never lost and never early: after the kernel has written the two halves of a time, the line of the timer is up at once if that time has come;
  otherwise the timer of the device is armed for it, and whenever the emulator runs the timers of the virtual clock, the line goes up exactly if the clock has
  reached the time. The other timers of the machine may do what they like as long as they leave the device alone and arm no timer for the past.
\<close>

theorem timer_alarm_fires:
  assumes ok: "timers_ok tm" and dev: "timer_device_ok s" "wired iw"
    and timer: "clock_of tm (tm_timer s) = QEMU_CLOCK_VIRTUAL" "timer_scale (timer_at tm (tm_timer s)) = SCALE_NS"
    and hi: "0 \<le> sint hi" and alarm: "alarm = uint lo + sint hi * 2 ^ 32"
    and now: "qemu_get_clock_ns QEMU_CLOCK_VIRTUAL h1 tm = ret now" and later: "qemu_get_clock_ns QEMU_CLOCK_VIRTUAL h2 tm = ret later"
    and en: "clock_enabled tm QEMU_CLOCK_VIRTUAL" and others: "leaves_alarm (tm_timer s) others later"
  shows "\<exists>w1 s2 iw2 tm2. goldfish_timer_write TIMER_ALARM_HIGH hi h1 ((s, iw), tm) = ret w1 \<and>
    goldfish_timer_write TIMER_ALARM_LOW lo h1 w1 = ret ((s2, iw2), tm2) \<and> wired iw2 \<and>
    (if alarm \<le> now then line_up s iw2 \<and> tm2 = tm
     else iw2 = iw \<and> armed tm2 (tm_timer s) = Some alarm \<and>
       (\<exists>s3 iw3 x3 tm3. qemu_run_timers (alarm_callbacks (tm_timer s) others) QEMU_CLOCK_VIRTUAL h2 (((s2, iw2), x), tm2) = ret (((s3, iw3), x3), tm3) \<and>
          (if alarm \<le> later then line_up s iw3 \<and> tm_armed s3 = 0 \<and> armed tm3 (tm_timer s) = None
           else iw3 = iw \<and> s3 = s2 \<and> armed tm3 (tm_timer s) = Some alarm)))"
proof -
  let ?s1 = "s\<lparr>alarm_high_ns := hi\<rparr>" let ?s2 = "?s1\<lparr>alarm_low_ns := lo\<rparr>" let ?a = "tm_timer s"
  have hs: "sint hi < 2 ^ 31" using sint_lt [of hi] by simp
  have lo: "uint lo < 2 ^ 32" "0 \<le> uint lo" using uint_lt2p [of lo] by simp_all
  have t: "alarm_time ?s2 = ret alarm" using hi hs by (simp add: alarm_time_def c_shl64_def c_int64_def alarm)
  have "0 \<le> alarm" using hi lo(2) by (simp add: alarm)
  moreover have "alarm < 2 ^ 63" using hs lo(1) by (simp add: alarm)
  ultimately have m: "qemu_mod_timer ?a alarm tm = ret (qemu_mod_timer_ns ?a alarm tm)"
    by (simp add: qemu_mod_timer_def timer(2) SCALE_NS_def c_int64_def)
  have 1: "goldfish_timer_write TIMER_ALARM_HIGH hi h1 ((s, iw), tm) = ret ((?s1, iw), tm)"
    by (simp add: goldfish_timer_write_def TIMER_ALARM_HIGH_def TIMER_ALARM_LOW_def)
  show ?thesis
  proof (cases "alarm \<le> now")
    case True
    from bus_irq [of iw "tm_dev s" True] dev obtain iw2 where i: "goldfish_device_set_irq (tm_dev s) 0 True iw = ret iw2" "wired iw2" "line_up s iw2"
      by (auto simp: timer_device_ok_def line_up_def)
    have "goldfish_timer_write TIMER_ALARM_LOW lo h1 ((?s1, iw), tm) = ret ((?s2, iw2), tm)"
      using True t now i(1) by (simp add: goldfish_timer_write_def set_line_def Let_def)
    with 1 True i show ?thesis by (intro exI [of _ "((?s1, iw), tm)"] exI [of _ ?s2] exI [of _ iw2] exI [of _ tm]) simp
  next
    case False
    let ?s3 = "?s2\<lparr>tm_armed := 1\<rparr>" and ?tm = "qemu_mod_timer_ns ?a alarm tm"
    have 2: "goldfish_timer_write TIMER_ALARM_LOW lo h1 ((?s1, iw), tm) = ret ((?s3, iw), ?tm)"
      using False t now m by (simp add: goldfish_timer_write_def Let_def)
    have ok2: "timers_ok ?tm" and ar: "armed ?tm ?a = Some alarm" and dev2: "timer_device_ok ?s3" "clock_of ?tm ?a = QEMU_CLOCK_VIRTUAL"
      using mod_timer_ok [OF ok] armed_mod [OF ok] dev(1) timer(1) by (simp_all add: timer_device_ok_def)
    have d: "?a \<in> set (due QEMU_CLOCK_VIRTUAL later ?tm) \<longleftrightarrow> alarm \<le> later" using due_set [OF ok2, of QEMU_CLOCK_VIRTUAL later] ar dev2(2) by auto
    obtain s3 iw3 x3 tm3 where r: "run_due (alarm_callbacks ?a others) QEMU_CLOCK_VIRTUAL later (((?s3, iw), x), ?tm) = ret (((s3, iw3), x3), tm3)"
        "if alarm \<le> later then s3 = ?s3\<lparr>tm_armed := 0\<rparr> \<and> line_up ?s3 iw3 \<and> armed tm3 ?a = None else s3 = ?s3 \<and> iw3 = iw \<and> armed tm3 ?a = armed ?tm ?a"
      using run_alarm [OF others ok2 refl dev2(1) dev(2), of x] unfolding d by blast
    have "qemu_run_timers (alarm_callbacks ?a others) QEMU_CLOCK_VIRTUAL h2 (((?s3, iw), x), ?tm) = ret (((s3, iw3), x3), tm3)"
      using later en r(1) by (simp add: qemu_run_timers_def clock_mod)
    moreover have "if alarm \<le> later then line_up s iw3 \<and> tm_armed s3 = 0 \<and> armed tm3 ?a = None else iw3 = iw \<and> s3 = ?s3 \<and> armed tm3 ?a = Some alarm"
      using r(2) ar by (simp add: line_up_def split: if_splits)
    ultimately show ?thesis unfolding if_not_P [OF False] using 1 2 dev(2) ar by blast
  qed
qed

text \<open>A timer at line 3; the alarm for 1000 is set at time 100 and runs at time 2000. No other timer does anything.\<close>

definition demo_timer_state :: timer_state where
  "demo_timer_state = \<lparr>tm_dev = timer_device 0xFF003000 3, alarm_low_ns = 0, alarm_high_ns = 0, now_ns = 0, tm_armed = 0, tm_timer = 5\<rparr>"

definition idle_callback :: "nat \<Rightarrow> (timer_world \<times> unit) \<times> timers \<Rightarrow> ((timer_world \<times> unit) \<times> timers) comp" where
  "idle_callback t w = ret w"

definition demo_lines :: int_world where
  "demo_lines = (goldfish_interrupt_init (Some ARM_PIC_CPU_IRQ) (Some ARM_PIC_CPU_FIQ), traced_example)"

lemma demo_lines_wired: "wired demo_lines"
proof -
  have "interrupt_request (cpu traced_example) = 0" by code_simp
  then show ?thesis by (simp add: demo_lines_def wired_def goldfish_interrupt_init_def lines_simps(1))
qed

theorem timer_alarm_fires_witness:
  "\<exists>w1 s2 iw2 tm2. goldfish_timer_write TIMER_ALARM_HIGH 0 (demo_time 100) ((demo_timer_state, demo_lines), demo_timers) = ret w1 \<and>
    goldfish_timer_write TIMER_ALARM_LOW 1000 (demo_time 100) w1 = ret ((s2, iw2), tm2) \<and> wired iw2 \<and>
    (if (1000 :: int) \<le> 100 then line_up demo_timer_state iw2 \<and> tm2 = demo_timers
     else iw2 = demo_lines \<and> armed tm2 (tm_timer demo_timer_state) = Some 1000 \<and>
       (\<exists>s3 iw3 x3 tm3. qemu_run_timers (alarm_callbacks (tm_timer demo_timer_state) idle_callback) QEMU_CLOCK_VIRTUAL (demo_time 2000) (((s2, iw2), ()), tm2) =
            ret (((s3, iw3), x3), tm3) \<and>
          (if (1000 :: int) \<le> 2000 then line_up demo_timer_state iw3 \<and> tm_armed s3 = 0 \<and> armed tm3 (tm_timer demo_timer_state) = None
           else iw3 = demo_lines \<and> s3 = s2 \<and> armed tm3 (tm_timer demo_timer_state) = Some 1000)))"
  by (rule timer_alarm_fires [OF demo_timers_ok _ demo_lines_wired])
    (simp_all add: timer_device_ok_def demo_timer_state_def timer_device_def leaves_alarm_def idle_callback_def demo_timers_def
      SCALE_NS_def demo_time_def qemu_get_clock_ns_def vm_time_def cpu_get_clock_def c_int64_def QEMU_CLOCK_VIRTUAL_def QEMU_CLOCK_REALTIME_def QEMU_CLOCK_HOST_def)

section \<open>An alarm in a snapshot\<close>

lemma sint_u64: "- (2 ^ 63) \<le> i \<Longrightarrow> i < 2 ^ 63 \<Longrightarrow> sint (word_of_int i :: u64) = i"
  by (simp add: int_word_sint)

definition timer_code :: "timer_state \<Rightarrow> int \<Rightarrow> u8 list" where
  "timer_code s delay = be64 (word_of_int (now_ns s)) @ [1] @ be64 (word_of_int delay)"

context back_end
begin

lemma timer_save_puts:
  assumes "tm_armed s = 1" and "alarm_time s = ret alarm" and "qemu_get_clock_ns QEMU_CLOCK_VIRTUAL ht tm = ret now" and "c_int64 (alarm - now) = ret (alarm - now)"
  shows "puts (writing put cl holds) (goldfish_timer_save ht (s, tm)) (timer_code s (alarm - now))"
proof -
  have eq: "goldfish_timer_save ht (s, tm) = (\<lambda>f. comp_bind (qemu_put_be64 (word_of_int (now_ns s)) f) (\<lambda>f1.
      comp_bind (qemu_put_byte 1 f1) (qemu_put_be64 (word_of_int (alarm - now)))))"
    using assms by (simp add: goldfish_timer_save_def fun_eq_iff)
  have one: "puts (writing put cl holds) (qemu_put_byte 1) [1]" using byte.puts_one [of 1] by simp
  show ?thesis unfolding timer_code_def eq by (intro puts_bind be64.puts_one one)
qed

lemma timer_load_code:
  assumes "source f (timer_code s delay @ bs)" and n: "- (2 ^ 63) \<le> now_ns s" "now_ns s < 2 ^ 63" and l: "0 < delay" "delay < 2 ^ 62"
    and now: "qemu_get_clock QEMU_CLOCK_VIRTUAL ht tm = ret now" "- (2 ^ 62) < now" "now < 2 ^ 62" and sc: "timer_scale (timer_at tm (tm_timer s0)) = SCALE_NS"
  shows "\<exists>f'. goldfish_timer_load ht ((s0, iw), tm) GOLDFISH_TIMER_SAVE_VERSION f =
    ret (0, ((s0\<lparr>now_ns := now_ns s, tm_armed := 1\<rparr>, iw), qemu_mod_timer_ns (tm_timer s0) (now + delay) tm), f')"
proof -
  obtain f1 where 1: "qemu_get_be64 f = ret (word_of_int (now_ns s), f1)" "source f1 ([1] @ be64 (word_of_int delay) @ bs)"
    using get_be64_code [of False f "word_of_int (now_ns s)"] assms(1) by (auto simp: timer_code_def)
  obtain f2 where 2: "qemu_get_byte f1 = ret (1, f2)" "source f2 (be64 (word_of_int delay) @ bs)"
    using byte.get_code [of 1 f1 "be64 (word_of_int delay) @ bs"] 1(2) by auto
  obtain f3 where 3: "qemu_get_be64 f2 = ret (word_of_int delay, f3)" using get_be64_code 2(2) by blast
  have "sint (word_of_int (now_ns s) :: u64) = now_ns s" "sint (word_of_int delay :: u64) = delay"
    using n l by (simp_all add: sint_u64)
  with 1(1) 2(1) 3 now l sc show ?thesis
    by (simp add: goldfish_timer_load_def Let_def c_int64_def qemu_mod_timer_def SCALE_NS_def)
qed

end

text \<open>
  An alarm that is set survives a snapshot with the delay it has left: saved when \<open>alarm - now\<close> nanoseconds are missing and loaded on a machine whose clock
  stands at \<open>now2\<close>, the timer of the device is armed for \<open>now2 + (alarm - now)\<close>. The registers of the alarm keep the values of the machine that loads.
\<close>

theorem timer_snapshot_keeps_delay:
  assumes s: "tm_armed s = 1" "alarm_time s = ret alarm" "- (2 ^ 63) \<le> now_ns s" "now_ns s < 2 ^ 63"
    and now: "qemu_get_clock_ns QEMU_CLOCK_VIRTUAL h1 tm1 = ret now" "now < alarm" "alarm - now < 2 ^ 62"
    and now2: "qemu_get_clock QEMU_CLOCK_VIRTUAL h2 tm2 = ret now2" "- (2 ^ 62) < now2" "now2 < 2 ^ 62"
    and tm2: "timers_ok tm2" "timer_scale (timer_at tm2 (tm_timer s0)) = SCALE_NS" and len: "17 \<le> space"
  shows "\<exists>f f1 fp g tm' g1. qemu_fopen dir space name ''wb'' = Some f \<and> goldfish_timer_save h1 (s, tm1) f = ret f1 \<and>
    qemu_fclose f1 = (0, fp) \<and> qemu_fopen (dir(name \<mapsto> file_bytes fp)) space name ''rb'' = Some g \<and>
    goldfish_timer_load h2 ((s0, iw), tm2) GOLDFISH_TIMER_SAVE_VERSION g = ret (0, ((s0\<lparr>now_ns := now_ns s, tm_armed := 1\<rparr>, iw), tm'), g1) \<and>
    armed tm' = (armed tm2)(tm_timer s0 \<mapsto> now2 + (alarm - now))"
proof -
  let ?code = "timer_code s (alarm - now)"
  have c: "c_int64 (alarm - now) = ret (alarm - now)" using now(2,3) by (simp add: c_int64_def)
  obtain f where f: "qemu_fopen dir space name ''wb'' = Some f" "saving f [] (length ?code + 0)"
    using fopen_wb [of "length ?code + 0" space] len by (auto simp: timer_code_def)
  obtain f1 where f1: "goldfish_timer_save h1 (s, tm1) f = ret f1" "saving f1 ([] @ ?code) 0"
    using putsD [OF seekable.timer_save_puts [OF s(1,2) now(1) c] f(2)] by blast
  obtain fp g where g: "qemu_fclose f1 = (0, fp)" "qemu_fopen (dir(name \<mapsto> file_bytes fp)) space name ''rb'' = Some g" "loading False g (?code @ [])"
    using fclose_then_fopen [OF f1(2)] by (metis append.left_neutral append_Nil2)
  have "0 < alarm - now" using now(2) by simp
  from seekable.timer_load_code [OF g(3) s(3,4) this now(3) now2 tm2(2), of iw] armed_mod [OF tm2(1)] f(1) f1(1) g(1,2) show ?thesis by blast
qed

theorem timer_snapshot_keeps_delay_witness:
  "\<exists>f f1 fp g tm' g1. qemu_fopen Map.empty 64 ''t'' ''wb'' = Some f \<and>
    goldfish_timer_save (demo_time 100) (demo_timer_state\<lparr>alarm_low_ns := 1000, tm_armed := 1\<rparr>, demo_timers) f = ret f1 \<and>
    qemu_fclose f1 = (0, fp) \<and> qemu_fopen (Map.empty(''t'' \<mapsto> file_bytes fp)) 64 ''t'' ''rb'' = Some g \<and>
    goldfish_timer_load (demo_time 7) ((demo_timer_state, demo_lines), demo_timers) GOLDFISH_TIMER_SAVE_VERSION g =
      ret (0, ((demo_timer_state\<lparr>now_ns := now_ns (demo_timer_state\<lparr>alarm_low_ns := 1000, tm_armed := 1\<rparr>), tm_armed := 1\<rparr>, demo_lines), tm'), g1) \<and>
    armed tm' = (armed demo_timers)(tm_timer demo_timer_state \<mapsto> 7 + (1000 - 100))"
  by (rule timer_snapshot_keeps_delay [OF _ _ _ _ _ _ _ _ _ _ demo_timers_ok])
    (simp_all add: demo_timer_state_def alarm_time_def c_shl64_def demo_timers_def demo_time_def qemu_get_clock_ns_def qemu_get_clock_def vm_time_def cpu_get_clock_def
      c_int64_def SCALE_NS_def QEMU_CLOCK_VIRTUAL_def QEMU_CLOCK_REALTIME_def QEMU_CLOCK_HOST_def)

end
