(* ===== verification/Spec2Isabelle.thy ===== *)
theory Spec2Isabelle
  imports Prelude Lru_Cache Tlb_Sim Sim_Accounting Sim_Lru Sim_Driver Main_Program Tlb_Trace Trace_File Ram_List Soft_Tlb
    Arm_Cpu Arm_Modes Arm_Mmu Mmu_Safety Arm_Exc Exception_Entry V7m_Stack Traced_Machine Arm_Cp15 System_Control
    Arm_Alu Arm_Arith Soft_Mmu Memory_Access Io_Memory Access_Ends
    Goldfish_Int Cpu_Exec Goldfish_Events Phys_Map Phys_Access Goldfish_Bus Device_Access Qemu_File Cpu_Snapshot Savevm
    Ram_Snapshot Ram_Restore Machine_Snapshot Qemu_Timer Goldfish_Timer
begin

text \<open>
  The TLB analyzer: a tracer in an ARM emulator, a simulator of TLBs, and the machine that is traced.

  \<^bold>\<open>The program.\<close> The repository holds an offline simulator and a tracer (\<open>src/tlb_sim.c\<close>, \<open>src/tlb_trace.c\<close>, \<open>src/main.c\<close>) and the Android
  emulator in which the tracer runs (\<open>src/qemu\<close>). While the emulator executes an ARM program, every load and store of the software MMU
  (\<open>softmmu_template.h\<close>) calls \<open>tlbtrace_refmem\<close>. The tracer keeps the last page per direct-mapped line, walks the page tables of the program for a page
  that is new (\<open>get_ptes\<close> in \<open>target-arm/helper.c\<close>), and appends the virtual page, the two descriptor addresses and the physical page to a buffer that is
  written to trace files of bounded size. The simulator reads the files back and runs them through models of a translation lookaside buffer
  with least-recently-used replacement, for one or two levels of translation, with and without a cache of page-walk steps.
  Around the tracer stand the parts of the emulator that decide which addresses appear: the processor with its modes and
  exceptions, the system control coprocessor, the MMU, the software TLB, RAM, the map of physical memory, the I/O table, and the devices of the
  board with their interrupt controller.

  \<^bold>\<open>Conventions\<close> (\<open>Prelude\<close>). C integers are words of their width. A computation has type \<open>comp\<close>: it returns, it raises an error
  (an access out of bounds, a division by zero, an overflow of \<open>int\<close>, a null pointer, \<open>abort\<close>, \<open>exit\<close>), or it is \<open>None\<close>, which means that it does
  not end; loops that may run forever are partial functions into \<open>comp\<close>. \<open>ends P c\<close> is total correctness. No fuel is used:
  where the code loops, its termination is a theorem. Code outside the model is an argument (functions of devices, the translation
  cache, the memory checker, host allocation), with what is assumed of it in the statements.

  \<^bold>\<open>The analyzer.\<close> \<open>Lru_Cache\<close>: a set-associative cache with time stamps as a locale, and its refinement of an LRU list. \<open>Tlb_Sim\<close>: state and operations of
  \<open>tlb_sim.c\<close>. \<open>Sim_Accounting\<close>: hits and misses add up to references, in every mode. \<open>Sim_Lru\<close>: the simulated TLB and the page-walk cache are LRU caches, and where the code
  deviates. \<open>Sim_Driver\<close>: the choice and the order of trace files and the runs over configurations. \<open>Tlb_Trace\<close>: the tracer. \<open>Trace_File\<close>: what the tracer writes is
  what the simulator reads.

  \<^bold>\<open>Memory.\<close> \<open>Ram_List\<close>: RAM blocks and dirty bytes (\<open>exec.c\<close>). \<open>Soft_Tlb\<close>: flushing and filling the software TLB. \<open>Arm_Mmu\<close>, \<open>Mmu_Safety\<close>: the page walks of the ARM
  MMU, the memory protection unit, the handler of a TLB miss and the walk of the tracer; a translation keeps the page offset and
  respects the permissions, and the tracer's walk agrees with the MMU. \<open>Soft_Mmu\<close>, \<open>Memory_Access\<close>, \<open>Access_Ends\<close>: loads and stores of the program; a load returns what was
  stored, the inline and the out-of-line functions agree, and every access ends. \<open>Io_Memory\<close>: the table of I/O functions. \<open>Phys_Map\<close>: page
  descriptors and the registration of regions, refined to a map from pages to descriptors. \<open>Phys_Access\<close>: accesses of devices and of the debugger.

  \<^bold>\<open>Processor.\<close> \<open>Arm_Cpu\<close>, \<open>Arm_Modes\<close>: registers, banks, status words, features, reset. \<open>Arm_Exc\<close>, \<open>Exception_Entry\<close>, \<open>V7m_Stack\<close>: entry to and return from exceptions, for the
  classic and the M profile. \<open>Arm_Cp15\<close>, \<open>System_Control\<close>: the registers of the system control coprocessor and their effect on TLB and tracer. \<open>Arm_Alu\<close>, \<open>Arm_Arith\<close>: the
  arithmetic helpers. \<open>Cpu_Exec\<close>: the execution loop up to generated code. \<open>Traced_Machine\<close>: the tracer inside the emulator.

  \<^bold>\<open>Devices.\<close> \<open>Goldfish_Int\<close>: the interrupt controller and its lines to the processor. \<open>Goldfish_Bus\<close>: the device bus. \<open>Goldfish_Events\<close>: the input device. \<open>Device_Access\<close>: bus,
  I/O table, physical map and transfers together.

  \<^bold>\<open>Interfaces.\<close> Locales state what one part relies on and the model's definitions interpret them: the LRU cache of the simulator, the I/O
  functions that loads and stores call, and the queue of messages of the input device.

  \<^bold>\<open>Bounds.\<close> The page size is 1 KB (\<open>TARGET_PAGE_BITS\<close> is 10) and the host has 64-bit addresses and little-endian order; the model is that of one processor without
  KVM and without instruction counting.

  \<^bold>\<open>Not modelled.\<close> The translation of instructions (\<open>target-arm/translate.c\<close>, \<open>tcg/\<close>) and the cache of translated blocks, which produce and manage host code: the theorems speak of the
  helpers that this code calls. Floating point and vector helpers (VFP, NEON, iwMMXt, \<open>fpu/\<close>), devices other than those named above, the other target
  processors, block and network back ends, the user interface, and third-party libraries (SDL, libpng, zlib) do not take part in the addresses
  that are traced.
\<close>

end
